(* ===== verification/Prelude.thy ===== *)
theory Prelude
  imports Main "HOL-Library.AList" "HOL-Library.Multiset" "HOL-Library.Char_ord"
    "HOL-Library.List_Lexorder" "HOL-Library.Product_Lexorder"
begin

text \<open>
  The JavaScript vocabulary every component of the development shares.

  \<^item> Thrown errors are values: a fallible function returns \<open>js_error + 'a\<close>, and
    \<open>bindR\<close> sequences two of them as an exception would.
  \<^item> A plain object used as a dictionary is an association list in insertion order
    (\<open>obj_get\<close>, \<open>obj_set\<close>, \<open>obj_modify\<close>, \<open>from_entries\<close>).
  \<^item> A \<open>Set\<close> built from an iterable is \<open>uniq\<close>, which keeps first occurrences in order.
  \<^item> \<open>Array.prototype.sort\<close> with a comparator is \<open>js_sort\<close>: stable, by a function to
    \<open>int\<close>. The locale \<open>js_comparator\<close> states what a comparator owes its caller, and
    every comparator of the development is an interpretation of it.
  \<^item> \<open>String.prototype.localeCompare\<close> is \<open>localeCompare\<close>, the root collation order on
    ASCII text (punctuation, then symbols, digits and letters; case only breaks ties).
  \<^item> Strings are \<open>string\<close>; template literals are list append with \<open>show_nat\<close> for
    numbers.
\<close>

named_theorems run_simps \<open>unfolding rules for the record updates of the workflow run\<close>

section \<open>Errors as values\<close>

datatype js_error = JsError string | TypeError | ZodError

type_synonym 'a result = "js_error + 'a"

definition bindR :: "'a result \<Rightarrow> ('a \<Rightarrow> 'b result) \<Rightarrow> 'b result" where
  "bindR m f = (case m of Inl e \<Rightarrow> Inl e | Inr x \<Rightarrow> f x)"

lemma bindR_simps [simp]:
  "bindR (Inl e) f = Inl e"
  "bindR (Inr x) f = f x"
  by (simp_all add: bindR_def)

lemma bindR_Inr_iff:
  "bindR m f = Inr y \<longleftrightarrow> (\<exists>x. m = Inr x \<and> f x = Inr y)"
  by (cases m) auto

lemma bindR_InrE:
  assumes "bindR m f = Inr y"
  obtains x where "m = Inr x" "f x = Inr y"
  using assms by (auto simp: bindR_Inr_iff)

lemma bindR_cong [fundef_cong]:
  "m = m' \<Longrightarrow> (\<And>x. m' = Inr x \<Longrightarrow> f x = f' x) \<Longrightarrow> bindR m f = bindR m' f'"
  by (cases m') auto

text \<open>A loop \<open>for (const x of xs) s = f(x, s)\<close> whose body may throw.\<close>

fun foldR :: "('a \<Rightarrow> 's \<Rightarrow> 's result) \<Rightarrow> 'a list \<Rightarrow> 's \<Rightarrow> 's result" where
  "foldR f [] s = Inr s"
| "foldR f (x # xs) s = bindR (f x s) (foldR f xs)"

lemma foldR_invariant:
  assumes "foldR f xs s = Inr s'" and "P s"
    and "\<And>x s s'. x \<in> set xs \<Longrightarrow> P s \<Longrightarrow> f x s = Inr s' \<Longrightarrow> P s'"
  shows "P s'"
  using assms
proof (induction xs arbitrary: s)
  case Nil
  then show ?case by simp
next
  case (Cons x xs)
  from Cons.prems(1) obtain t where t: "f x s = Inr t" and r: "foldR f xs t = Inr s'"
    by (auto simp: bindR_Inr_iff)
  have "P t" using Cons.prems(3) [of x s t] Cons.prems(2) t by simp
  with r Cons.prems(3) show ?case by (intro Cons.IH [of t]) auto
qed

lemma foldR_total:
  assumes "P s" and "\<And>x s. x \<in> set xs \<Longrightarrow> P s \<Longrightarrow> \<exists>s'. f x s = Inr s' \<and> P s'"
  shows "\<exists>s'. foldR f xs s = Inr s' \<and> P s'"
  using assms
proof (induction xs arbitrary: s)
  case Nil
  then show ?case by simp
next
  case (Cons x xs)
  obtain t where t: "f x s = Inr t" "P t"
    using Cons.prems(2) [of x s] Cons.prems(1) by auto
  have "\<exists>s'. foldR f xs t = Inr s' \<and> P s'"
    using t(2) Cons.prems(2) by (intro Cons.IH) auto
  with t(1) show ?case by simp
qed

section \<open>The schema library\<close>

text \<open>
  What the code relies on in the schema library: a value that parses is returned as it
  is. The values parsed here carry every field of their schema, so there is no default to
  fill in and no unknown key to strip.
\<close>

locale schema_parser =
  fixes parse :: "'a \<Rightarrow> 'e + 'a"
  assumes parse_id: "parse x = Inr y \<Longrightarrow> y = x"
begin

lemma parse_cases: "parse x = Inr x \<or> (\<exists>e. parse x = Inl e)"
  by (metis parse_id sum.exhaust)

lemma parse_InrD: "parse x = Inr y \<Longrightarrow> y = x \<and> parse y = Inr y"
  by (metis parse_id)

end

section \<open>Text\<close>

definition truthy :: "string option \<Rightarrow> bool" where
  "truthy x = (case x of None \<Rightarrow> False | Some s \<Rightarrow> s \<noteq> [])"

lemma truthy_simps [simp]:
  "\<not> truthy None"
  "truthy (Some s) \<longleftrightarrow> s \<noteq> []"
  by (simp_all add: truthy_def)

definition orElse :: "'a option \<Rightarrow> 'a option \<Rightarrow> 'a option" where
  \<comment> \<open>the operator \<open>??\<close> where both sides may be undefined\<close>
  "orElse x y = (case x of Some a \<Rightarrow> Some a | None \<Rightarrow> y)"

lemma orElse_simps [simp]:
  "orElse (Some a) y = Some a"
  "orElse None y = y"
  by (simp_all add: orElse_def)

definition getOr :: "'a option \<Rightarrow> 'a \<Rightarrow> 'a" where
  \<comment> \<open>the operator \<open>??\<close> with a defined right side\<close>
  "getOr x d = (case x of Some a \<Rightarrow> a | None \<Rightarrow> d)"

lemma getOr_simps [simp]:
  "getOr (Some a) d = a"
  "getOr None d = d"
  by (simp_all add: getOr_def)

definition startsWith :: "string \<Rightarrow> string \<Rightarrow> bool" where
  "startsWith p s \<longleftrightarrow> take (length p) s = p"

fun join :: "string \<Rightarrow> string list \<Rightarrow> string" where
  "join sep [] = []"
| "join sep [x] = x"
| "join sep (x # y # zs) = x @ sep @ join sep (y # zs)"

fun show_nat :: "nat \<Rightarrow> string" where
  "show_nat n =
     (if n < 10 then [''0123456789'' ! n]
      else show_nat (n div 10) @ [''0123456789'' ! (n mod 10)])"

declare show_nat.simps [simp del]

lemma show_nat_nonempty [simp]: "show_nat n \<noteq> []"
  by (subst show_nat.simps) simp

section \<open>Sets and dictionaries\<close>

fun uniq :: "'a list \<Rightarrow> 'a list" where
  "uniq [] = []"
| "uniq (x # xs) = x # filter (\<lambda>y. y \<noteq> x) (uniq xs)"

lemma set_uniq [simp]: "set (uniq xs) = set xs"
  by (induction xs) auto

lemma distinct_uniq [simp]: "distinct (uniq xs)"
  by (induction xs) auto

lemma uniq_distinct: "distinct xs \<Longrightarrow> uniq xs = xs"
  by (induction xs) (auto intro: filter_True)

definition obj_get :: "'k \<Rightarrow> ('k \<times> 'v) list \<Rightarrow> 'v option" where
  "obj_get k ob = map_of ob k"

definition obj_set :: "'k \<Rightarrow> 'v \<Rightarrow> ('k \<times> 'v) list \<Rightarrow> ('k \<times> 'v) list" where
  "obj_set k v ob = AList.update k v ob"

definition obj_keys :: "('k \<times> 'v) list \<Rightarrow> 'k list" where
  "obj_keys ob = map fst ob"

definition obj_values :: "('k \<times> 'v) list \<Rightarrow> 'v list" where
  "obj_values ob = map snd ob"

definition obj_modify :: "'k \<Rightarrow> ('v \<Rightarrow> 'v) \<Rightarrow> ('k \<times> 'v) list \<Rightarrow> ('k \<times> 'v) list" where
  \<comment> \<open>writing fields of the object stored under a key, through a reference to it\<close>
  "obj_modify k f ob = map (\<lambda>(k', v). (k', if k' = k then f v else v)) ob"

definition obj_delete :: "'k \<Rightarrow> ('k \<times> 'v) list \<Rightarrow> ('k \<times> 'v) list" where
  "obj_delete k ob = AList.delete k ob"

fun from_entries :: "('k \<times> 'v) list \<Rightarrow> ('k \<times> 'v) list \<Rightarrow> ('k \<times> 'v) list" where
  \<comment> \<open>\<open>Object.fromEntries\<close> and \<open>new Map(entries)\<close>: a repeated key overwrites in place\<close>
  "from_entries ob [] = ob"
| "from_entries ob ((k, v) # kvs) = from_entries (obj_set k v ob) kvs"

lemma obj_get_Nil [simp]: "obj_get k [] = None"
  by (simp add: obj_get_def)

lemma obj_get_Cons [simp]:
  "obj_get k ((k', v) # ob) = (if k = k' then Some v else obj_get k ob)"
  by (simp add: obj_get_def)

lemma obj_get_set [simp]:
  "obj_get k (obj_set k' v ob) = (if k = k' then Some v else obj_get k ob)"
  by (simp add: obj_get_def obj_set_def update_conv)

lemma obj_get_delete [simp]:
  "obj_get k (obj_delete k' ob) = (if k = k' then None else obj_get k ob)"
  by (simp add: obj_get_def obj_delete_def delete_conv)

lemma obj_set_simps [simp]:
  "obj_set k v [] = [(k, v)]"
  "obj_set k v ((k', v') # ob) = (if k' = k then (k, v) # ob else (k', v') # obj_set k v ob)"
  by (simp_all add: obj_set_def)

lemma set_keys_obj_set [simp]: "set (obj_keys (obj_set k v ob)) = insert k (set (obj_keys ob))"
  by (simp add: obj_keys_def obj_set_def dom_update)

lemma distinct_keys_obj_set: "distinct (obj_keys ob) \<Longrightarrow> distinct (obj_keys (obj_set k v ob))"
  by (simp add: obj_keys_def obj_set_def distinct_update)

lemma length_obj_set_fresh: "k \<notin> set (obj_keys ob) \<Longrightarrow> obj_set k v ob = ob @ [(k, v)]"
  by (induction ob) (auto simp: obj_keys_def)

lemma obj_keys_modify [simp]: "obj_keys (obj_modify k f ob) = obj_keys ob"
  by (induction ob) (auto simp: obj_keys_def obj_modify_def)

lemma obj_get_modify [simp]:
  "obj_get k (obj_modify k' f ob) = (if k = k' then map_option f (obj_get k ob) else obj_get k ob)"
  by (induction ob) (auto simp: obj_modify_def)

lemma obj_modify_simps:
  "obj_modify k f [] = []"
  "obj_modify k f ((k', v) # ob) = (k', if k' = k then f v else v) # obj_modify k f ob"
  by (simp_all add: obj_modify_def)

lemma obj_get_None_iff: "obj_get k ob = None \<longleftrightarrow> k \<notin> set (obj_keys ob)"
  by (simp add: obj_get_def obj_keys_def map_of_eq_None_iff)

lemma obj_get_in_keys: "obj_get k ob = Some v \<Longrightarrow> k \<in> set (obj_keys ob)"
  by (metis obj_get_None_iff option.distinct(1))

lemma in_keys_obj_get: "k \<in> set (obj_keys ob) \<Longrightarrow> \<exists>v. obj_get k ob = Some v"
  by (metis obj_get_None_iff not_None_eq)

lemma obj_get_in_values: "obj_get k ob = Some v \<Longrightarrow> v \<in> set (obj_values ob)"
  by (induction ob) (auto simp: obj_values_def split: if_splits)

lemma in_values_obj_get:
  "distinct (obj_keys ob) \<Longrightarrow> v \<in> set (obj_values ob) \<Longrightarrow> \<exists>k. obj_get k ob = Some v"
  by (auto simp: obj_values_def obj_keys_def obj_get_def)

lemma obj_get_from_entries:
  "obj_get k (from_entries ob kvs) = (case map_of (rev kvs) k of Some v \<Rightarrow> Some v | None \<Rightarrow> obj_get k ob)"
  by (induction ob kvs rule: from_entries.induct) (auto simp: map_add_def split: option.splits)

lemma from_entries_distinct:
  assumes "distinct (map fst kvs)" and "set (map fst kvs) \<inter> set (obj_keys ob) = {}"
  shows "from_entries ob kvs = ob @ kvs"
  using assms
proof (induction ob kvs rule: from_entries.induct)
  case (1 ob)
  then show ?case by simp
next
  case (2 ob k v kvs)
  then have fresh: "obj_set k v ob = ob @ [(k, v)]"
    by (intro length_obj_set_fresh) auto
  then have "from_entries (obj_set k v ob) kvs = obj_set k v ob @ kvs"
    using "2.prems" by (intro "2.IH") (auto simp: obj_keys_def)
  with fresh show ?case by simp
qed

lemma keys_from_entries:
  "set (obj_keys (from_entries ob kvs)) = set (obj_keys ob) \<union> set (map fst kvs)"
  by (induction ob kvs rule: from_entries.induct) auto

lemma distinct_keys_from_entries:
  "distinct (obj_keys ob) \<Longrightarrow> distinct (obj_keys (from_entries ob kvs))"
  by (induction ob kvs rule: from_entries.induct) (auto simp: distinct_keys_obj_set)

section \<open>Sorting with a comparator\<close>

fun js_insert :: "('a \<Rightarrow> 'a \<Rightarrow> int) \<Rightarrow> 'a \<Rightarrow> 'a list \<Rightarrow> 'a list" where
  "js_insert cmp x [] = [x]"
| "js_insert cmp x (y # ys) = (if cmp x y \<le> 0 then x # y # ys else y # js_insert cmp x ys)"

fun js_sort :: "('a \<Rightarrow> 'a \<Rightarrow> int) \<Rightarrow> 'a list \<Rightarrow> 'a list" where
  "js_sort cmp [] = []"
| "js_sort cmp (x # xs) = js_insert cmp x (js_sort cmp xs)"

lemma mset_js_insert [simp]: "mset (js_insert cmp x xs) = add_mset x (mset xs)"
  by (induction xs) auto

lemma mset_js_sort [simp]: "mset (js_sort cmp xs) = mset xs"
  by (induction xs) auto

lemma set_js_sort [simp]: "set (js_sort cmp xs) = set xs"
  by (metis mset_js_sort set_mset_mset)

lemma length_js_sort [simp]: "length (js_sort cmp xs) = length xs"
  by (metis mset_js_sort size_mset)

lemma distinct_js_sort [simp]: "distinct (js_sort cmp xs) = distinct xs"
  by (metis mset_eq_imp_distinct_iff mset_js_sort)

lemma distinct_map_js_sort [simp]: "distinct (map f (js_sort cmp xs)) = distinct (map f xs)"
  by (metis mset_eq_imp_distinct_iff mset_js_sort mset_map)

text \<open>
  A comparator function must order consistently: \<open>Array.prototype.sort\<close> promises a
  sorted result only then. The order it induces is \<open>cmp x y \<le> 0\<close>.
\<close>

locale js_comparator =
  fixes cmp :: "'a \<Rightarrow> 'a \<Rightarrow> int"
  assumes cmp_total: "0 < cmp x y \<Longrightarrow> cmp y x \<le> 0"
    and cmp_trans: "cmp x y \<le> 0 \<Longrightarrow> cmp y z \<le> 0 \<Longrightarrow> cmp x z \<le> 0"
begin

lemma sorted_js_insert:
  "sorted_wrt (\<lambda>a b. cmp a b \<le> 0) xs \<Longrightarrow> sorted_wrt (\<lambda>a b. cmp a b \<le> 0) (js_insert cmp x xs)"
proof (induction xs)
  case Nil
  then show ?case by simp
next
  case (Cons y ys)
  have set_ins: "set (js_insert cmp x ys) = insert x (set ys)"
    by (metis mset_js_insert set_mset_add_mset_insert set_mset_mset)
  show ?case
  proof (cases "cmp x y \<le> 0")
    case True
    with Cons.prems show ?thesis by (auto intro: cmp_trans)
  next
    case False
    then have "cmp y x \<le> 0" using cmp_total by force
    with Cons False set_ins show ?thesis by auto
  qed
qed

lemma sorted_js_sort: "sorted_wrt (\<lambda>a b. cmp a b \<le> 0) (js_sort cmp xs)"
  by (induction xs) (auto simp: sorted_js_insert)

lemma sorted_unique:
  assumes "sorted_wrt (\<lambda>a b. cmp a b \<le> 0) xs" and "sorted_wrt (\<lambda>a b. cmp a b \<le> 0) ys"
    and "mset xs = mset ys"
    and "\<And>x y. x \<in> set xs \<Longrightarrow> y \<in> set xs \<Longrightarrow> cmp x y \<le> 0 \<Longrightarrow> cmp y x \<le> 0 \<Longrightarrow> x = y"
  shows "xs = ys"
  using assms
proof (induction xs arbitrary: ys)
  case Nil
  then show ?case by simp
next
  case (Cons x xs)
  then obtain y ys' where ys: "ys = y # ys'" by (cases ys) auto
  have sets: "set (x # xs) = set (y # ys')"
    using Cons.prems(3) ys by (metis set_mset_mset)
  have refl: "cmp a a \<le> 0" for a using cmp_total [of a a] by force
  have y: "y \<in> set (x # xs)" and x: "x \<in> set (y # ys')" using sets by auto
  have "cmp x y \<le> 0" using Cons.prems(1) y refl by auto
  moreover have "cmp y x \<le> 0" using Cons.prems(2) ys x refl by auto
  moreover note y
  ultimately have xy: "x = y" using Cons.prems(4) by simp
  have "xs = ys'"
    using Cons.prems ys xy by (intro Cons.IH) auto
  with xy ys show ?case by simp
qed

lemma js_sort_cong_mset:
  assumes "mset xs = mset ys"
    and "\<And>x y. x \<in> set xs \<Longrightarrow> y \<in> set xs \<Longrightarrow> cmp x y \<le> 0 \<Longrightarrow> cmp y x \<le> 0 \<Longrightarrow> x = y"
  shows "js_sort cmp xs = js_sort cmp ys"
  using assms by (intro sorted_unique) (auto simp: sorted_js_sort)

lemma js_sort_id: "sorted_wrt (\<lambda>a b. cmp a b \<le> 0) xs \<Longrightarrow> js_sort cmp xs = xs"
proof (induction xs)
  case Nil
  then show ?case by simp
next
  case (Cons x xs)
  then show ?case by (cases xs) auto
qed

end

text \<open>
  Most comparators of the code subtract or compare keys in turn, joined by \<open>||\<close>; they
  reflect the order of a key into a linear order, which is how each one is shown to be
  a comparator.
\<close>

lemma js_comparator_by_key:
  fixes key :: "'a \<Rightarrow> 'k::linorder"
  assumes "\<And>x y. cmp x y \<le> 0 \<longleftrightarrow> key x \<le> key y"
  shows "js_comparator cmp"
proof
  fix x y
  assume "0 < cmp x y"
  then have "\<not> key x \<le> key y" by (simp flip: assms)
  then show "cmp y x \<le> 0" by (simp add: assms)
next
  fix x y z
  assume "cmp x y \<le> 0" "cmp y z \<le> 0"
  then show "cmp x z \<le> 0" using assms order_trans by metis
qed

section \<open>Locale-aware string comparison\<close>

text \<open>
  The root collation of the Unicode algorithm restricted to ASCII: characters compare
  first by their base weight, where \<open>collation_chars\<close> lists the ASCII characters from
  the lightest to the heaviest and an upper-case letter weighs as its lower-case one;
  strings with equal base weights compare by case, lower case first.
\<close>

definition collation_chars :: string where
  "collation_chars =
     [CHR 0x09, CHR 0x0A, CHR 0x0B, CHR 0x0C, CHR 0x0D, CHR '' '']
     @ ''_-,;:!?.'' @ [CHR 0x27, CHR 0x22] @ ''()[]{}'' @ [CHR 0x40] @ ''*/'' @ [CHR 0x5C]
     @ ''&#%'' @ [CHR 0x60] @ ''^+<=>|~$0123456789abcdefghijklmnopqrstuvwxyz''"

fun index_of :: "'a \<Rightarrow> 'a list \<Rightarrow> nat" where
  "index_of x [] = 0"
| "index_of x (y # ys) = (if x = y then 0 else Suc (index_of x ys))"

definition is_upper :: "char \<Rightarrow> bool" where
  "is_upper c \<longleftrightarrow> 65 \<le> (of_char c :: nat) \<and> (of_char c :: nat) \<le> 90"

definition to_lower :: "char \<Rightarrow> char" where
  "to_lower c = (if is_upper c then char_of ((of_char c :: nat) + 32) else c)"

definition base_weight :: "char \<Rightarrow> nat" where
  "base_weight c =
     (let l = to_lower c
      in if l \<in> set collation_chars then index_of l collation_chars else 256 + of_char l)"

definition case_weight :: "char \<Rightarrow> nat" where
  "case_weight c = (if is_upper c then 1 else 0)"

definition collation_key :: "string \<Rightarrow> nat list \<times> nat list" where
  "collation_key s = (map base_weight s, map case_weight s)"

definition localeCompare :: "string \<Rightarrow> string \<Rightarrow> int" where
  "localeCompare a b =
     (if collation_key a < collation_key b then -1
      else if collation_key a = collation_key b then 0 else 1)"

definition js_or :: "int \<Rightarrow> int \<Rightarrow> int" where
  \<comment> \<open>the operator \<open>||\<close> on numbers: the right side where the left one is 0\<close>
  "js_or a b = (if a = 0 then b else a)"

lemma index_of_less: "x \<in> set xs \<Longrightarrow> index_of x xs < length xs"
  by (induction xs) auto

lemma nth_index_of: "x \<in> set xs \<Longrightarrow> xs ! index_of x xs = x"
  by (induction xs) auto

lemma index_of_inj: "x \<in> set xs \<Longrightarrow> y \<in> set xs \<Longrightarrow> index_of x xs = index_of y xs \<Longrightarrow> x = y"
  by (metis nth_index_of)

lemma length_collation_chars: "length collation_chars \<le> 256"
  by (simp add: collation_chars_def)

lemma to_lower_inj:
  assumes "to_lower c = to_lower d" and "is_upper c = is_upper d"
  shows "c = d"
proof (cases "is_upper c")
  case True
  with assms have eq: "char_of ((of_char c :: nat) + 32) = (char_of ((of_char d :: nat) + 32) :: char)"
    by (simp add: to_lower_def)
  have "((of_char c :: nat) + 32) mod 256 = ((of_char d :: nat) + 32) mod 256"
    using arg_cong [OF eq, of "of_char :: char \<Rightarrow> nat"] by simp
  moreover have "(of_char c :: nat) \<le> 90" "(of_char d :: nat) \<le> 90"
    using True assms(2) by (auto simp: is_upper_def)
  ultimately have "(of_char c :: nat) = of_char d" by simp
  then show ?thesis by simp
next
  case False
  with assms show ?thesis by (simp add: to_lower_def)
qed

lemma base_weight_listed: "to_lower c \<in> set collation_chars \<Longrightarrow> base_weight c = index_of (to_lower c) collation_chars"
  by (simp add: base_weight_def)

lemma base_weight_unlisted: "to_lower c \<notin> set collation_chars \<Longrightarrow> base_weight c = 256 + of_char (to_lower c)"
  by (simp add: base_weight_def)

lemma base_weight_less_iff: "base_weight c < 256 \<longleftrightarrow> to_lower c \<in> set collation_chars"
proof (cases "to_lower c \<in> set collation_chars")
  case True
  then have "base_weight c < length collation_chars"
    by (simp only: base_weight_listed index_of_less)
  with True length_collation_chars show ?thesis by linarith
next
  case False
  then show ?thesis by (simp add: base_weight_unlisted)
qed

lemma base_weight_inj:
  assumes eq: "base_weight c = base_weight d"
  shows "to_lower c = to_lower d"
proof (cases "to_lower c \<in> set collation_chars")
  case True
  moreover from True have "to_lower d \<in> set collation_chars"
    using eq base_weight_less_iff by metis
  ultimately show ?thesis
    using eq index_of_inj by (metis base_weight_listed)
next
  case False
  then have "to_lower d \<notin> set collation_chars"
    using eq base_weight_less_iff by metis
  with False eq have "(of_char (to_lower c) :: nat) = of_char (to_lower d)"
    by (simp add: base_weight_unlisted)
  then show ?thesis by simp
qed

lemma case_weight_inj: "case_weight c = case_weight d \<Longrightarrow> is_upper c = is_upper d"
  by (cases "is_upper c"; cases "is_upper d") (simp_all add: case_weight_def)

lemma char_weights_inj: "base_weight c = base_weight d \<Longrightarrow> case_weight c = case_weight d \<Longrightarrow> c = d"
  by (rule to_lower_inj [OF base_weight_inj case_weight_inj])

lemma map_weights_inj:
  "map base_weight a = map base_weight b \<Longrightarrow> map case_weight a = map case_weight b \<Longrightarrow> a = b"
proof (induction a arbitrary: b)
  case Nil
  then show ?case by simp
next
  case (Cons c a)
  then obtain d b' where b: "b = d # b'" by (cases b) simp_all
  from Cons.prems b have "c = d" by (intro char_weights_inj) simp_all
  moreover from Cons b have "a = b'" by simp
  ultimately show ?case using b by simp
qed

lemma collation_key_inj: "collation_key a = collation_key b \<Longrightarrow> a = b"
  unfolding collation_key_def using map_weights_inj by blast

lemma collation_key_eq: "collation_key a = collation_key b \<longleftrightarrow> a = b"
  using collation_key_inj by blast

lemma localeCompare_le: "localeCompare a b \<le> 0 \<longleftrightarrow> collation_key a \<le> collation_key b"
  by (auto simp: localeCompare_def)

lemma localeCompare_zero: "localeCompare a b = 0 \<longleftrightarrow> a = b"
  by (auto simp: localeCompare_def dest: collation_key_inj)

lemma localeCompare_antisym: "localeCompare a b \<le> 0 \<Longrightarrow> localeCompare b a \<le> 0 \<Longrightarrow> a = b"
  by (auto simp: localeCompare_le intro: collation_key_inj)

interpretation locale_cmp: js_comparator localeCompare
  by (rule js_comparator_by_key [of _ collation_key]) (rule localeCompare_le)

lemma js_or_le_key:
  fixes a b :: "'k::linorder"
  assumes "m < 0 \<longleftrightarrow> a < b" and "m = 0 \<longleftrightarrow> a = b" and "n \<le> 0 \<longleftrightarrow> c \<le> (d :: 'l::linorder)"
  shows "js_or m n \<le> 0 \<longleftrightarrow> (a, c) \<le> (b, d)"
  using assms by (auto simp: js_or_def less_eq_prod_def)

lemma localeCompare_key:
  "localeCompare a b < 0 \<longleftrightarrow> collation_key a < collation_key b"
  "localeCompare a b = 0 \<longleftrightarrow> collation_key a = collation_key b"
  by (auto simp: localeCompare_def)

lemma js_sort_localeCompare_cong: "mset xs = mset ys \<Longrightarrow> js_sort localeCompare xs = js_sort localeCompare ys"
  by (rule locale_cmp.js_sort_cong_mset) (auto intro: localeCompare_antisym)

end
