(* ===== verification/Json.thy ===== *)
theory Json
  imports Prelude
begin

text \<open>
  JSON values and their text, as the graph digest uses them: \<open>normalize\<close> of
  \<open>graph-builder.ts\<close> sorts the keys of every object, and \<open>stringify\<close> is
  \<open>JSON.stringify\<close> without spacing. A property whose value is \<open>undefined\<close> is absent
  from the object, as \<open>JSON.stringify\<close> drops it; the numbers of the model are natural
  numbers.
\<close>

datatype json =
    JNull
  | JBool bool
  | JNum nat
  | JStr string
  | JArr "json list"
  | JObj "(string \<times> json) list"

definition hex_digit :: "nat \<Rightarrow> char" where
  "hex_digit n = ''0123456789abcdef'' ! (n mod 16)"

definition escape_char :: "char \<Rightarrow> string" where
  "escape_char c =
     (let n = (of_char c :: nat) in
      if n = 34 then [CHR 0x5C, CHR 0x22]
      else if n = 92 then [CHR 0x5C, CHR 0x5C]
      else if n = 8 then [CHR 0x5C, CHR ''b'']
      else if n = 9 then [CHR 0x5C, CHR ''t'']
      else if n = 10 then [CHR 0x5C, CHR ''n'']
      else if n = 12 then [CHR 0x5C, CHR ''f'']
      else if n = 13 then [CHR 0x5C, CHR ''r'']
      else if n < 32 then CHR 0x5C # ''u00'' @ [hex_digit (n div 16), hex_digit n]
      else [c])"

definition quote :: "string \<Rightarrow> string" where
  "quote s = CHR 0x22 # concat (map escape_char s) @ [CHR 0x22]"

fun stringify :: "json \<Rightarrow> string" where
  "stringify JNull = ''null''"
| "stringify (JBool b) = (if b then ''true'' else ''false'')"
| "stringify (JNum n) = show_nat n"
| "stringify (JStr s) = quote s"
| "stringify (JArr xs) = ''['' @ join '','' (map stringify xs) @ '']''"
| "stringify (JObj kvs) =
     ''{'' @ join '','' (map (\<lambda>kv. quote (fst kv) @ '':'' @ stringify (snd kv)) kvs) @ ''}''"

definition codeUnitCompare :: "string \<Rightarrow> string \<Rightarrow> int" where
  \<comment> \<open>the default order of \<open>sort()\<close> on strings\<close>
  "codeUnitCompare a b = (if a < b then -1 else if a = b then 0 else 1)"

definition compare_keys :: "string \<times> json \<Rightarrow> string \<times> json \<Rightarrow> int" where
  "compare_keys a b = codeUnitCompare (fst a) (fst b)"

fun normalize :: "json \<Rightarrow> json" where
  "normalize (JArr xs) = JArr (map normalize xs)"
| "normalize (JObj kvs) = JObj (js_sort compare_keys (map (\<lambda>kv. (fst kv, normalize (snd kv))) kvs))"
| "normalize v = v"

definition opt_field :: "string \<Rightarrow> ('a \<Rightarrow> json) \<Rightarrow> 'a option \<Rightarrow> (string \<times> json) list" where
  "opt_field k f v = (case v of None \<Rightarrow> [] | Some x \<Rightarrow> [(k, f x)])"

definition str_field :: "string \<Rightarrow> string \<Rightarrow> (string \<times> json) list" where
  "str_field k v = [(k, JStr v)]"

interpretation key_cmp: js_comparator compare_keys
  by (rule js_comparator_by_key [of _ fst]) (auto simp: compare_keys_def codeUnitCompare_def)

lemma compare_keys_antisym:
  "distinct (map fst kvs) \<Longrightarrow> x \<in> set kvs \<Longrightarrow> y \<in> set kvs \<Longrightarrow>
   compare_keys x y \<le> 0 \<Longrightarrow> compare_keys y x \<le> 0 \<Longrightarrow> x = y"
  by (auto simp: compare_keys_def codeUnitCompare_def distinct_map inj_on_def split: if_splits)

text \<open>The order in which an object's properties were written does not show after
  \<open>normalize\<close>.\<close>

lemma normalize_obj_perm:
  assumes "mset kvs = mset kvs'" and "distinct (map fst kvs)"
  shows "normalize (JObj kvs) = normalize (JObj kvs')"
proof -
  let ?f = "\<lambda>kv. (fst kv, normalize (snd kv))"
  have d: "distinct (map fst (map ?f kvs))"
    using assms(2) by (simp add: comp_def)
  have "js_sort compare_keys (map ?f kvs) = js_sort compare_keys (map ?f kvs')"
  proof (rule key_cmp.js_sort_cong_mset)
    show "mset (map ?f kvs) = mset (map ?f kvs')" using assms(1) by simp
  qed (rule compare_keys_antisym [OF d])
  then show ?thesis by simp
qed

end
