(* ===== verification/Workflow_Types.thy ===== *)
theory Workflow_Types
  imports Complex_Main Json
begin

text \<open>
  The data of the workflow runtime, from \<open>self/shared/src/types/workflow.ts\<close> and the
  types it uses (\<open>enums.ts\<close>, \<open>evidence.ts\<close>, \<open>confidence-governance.ts\<close>,
  \<open>mao.ts\<close>, \<open>ingress-trigger.ts\<close>): one \<open>datatype\<close> per enumeration or discriminated
  union, one \<open>record\<close> per object schema, a field \<open>optional()\<close> in the schema being an
  option here. Identifiers are strings, as the branded identifiers are at run time; times
  are ISO strings; whole numbers are \<open>nat\<close>. A dictionary (\<open>z.record\<close>) is an
  association list. Field names carry a short prefix of their record, because HOL gives
  every field a constant of its name.
\<close>

section \<open>Enumerations\<close>

datatype governance_level = GovMust | GovShould | GovMay

fun governance_level_text :: "governance_level \<Rightarrow> string" where
  "governance_level_text GovMust = ''must''"
| "governance_level_text GovShould = ''should''"
| "governance_level_text GovMay = ''may''"

datatype execution_model = Synchronous | Streaming | AsyncBatch | Scheduled

fun execution_model_text :: "execution_model \<Rightarrow> string" where
  "execution_model_text Synchronous = ''synchronous''"
| "execution_model_text Streaming = ''streaming''"
| "execution_model_text AsyncBatch = ''async-batch''"
| "execution_model_text Scheduled = ''scheduled''"

datatype model_role = CortexChat | CortexSystem | Orchestrators | Workers

fun model_role_text :: "model_role \<Rightarrow> string" where
  "model_role_text CortexChat = ''cortex-chat''"
| "model_role_text CortexSystem = ''cortex-system''"
| "model_role_text Orchestrators = ''orchestrators''"
| "model_role_text Workers = ''workers''"

datatype node_kind =
    KModelCall | KToolExecution | KQualityGate | KHumanDecision | KCondition | KTransform
  | KParallelSplit | KParallelJoin | KLoop | KErrorHandler | KSubworkflow

fun node_kind_text :: "node_kind \<Rightarrow> string" where
  "node_kind_text KModelCall = ''model-call''"
| "node_kind_text KToolExecution = ''tool-execution''"
| "node_kind_text KQualityGate = ''quality-gate''"
| "node_kind_text KHumanDecision = ''human-decision''"
| "node_kind_text KCondition = ''condition''"
| "node_kind_text KTransform = ''transform''"
| "node_kind_text KParallelSplit = ''parallel-split''"
| "node_kind_text KParallelJoin = ''parallel-join''"
| "node_kind_text KLoop = ''loop''"
| "node_kind_text KErrorHandler = ''error-handler''"
| "node_kind_text KSubworkflow = ''subworkflow''"

datatype control_state = CtlRunning | CtlPausedReview | CtlHardStopped | CtlResuming

fun control_state_text :: "control_state \<Rightarrow> string" where
  "control_state_text CtlRunning = ''running''"
| "control_state_text CtlPausedReview = ''paused_review''"
| "control_state_text CtlHardStopped = ''hard_stopped''"
| "control_state_text CtlResuming = ''resuming''"

datatype authority_actor = NousCortex | OrchestrationAgent | WorkerAgent

fun authority_actor_text :: "authority_actor \<Rightarrow> string" where
  "authority_actor_text NousCortex = ''nous_cortex''"
| "authority_actor_text OrchestrationAgent = ''orchestration_agent''"
| "authority_actor_text WorkerAgent = ''worker_agent''"

datatype trigger_type = TrigScheduler | TrigHook | TrigWebhook | TrigSystemEvent

datatype action_category =
    ActModelInvoke | ActToolExecute | ActMemoryWrite | ActTracePersist | ActOpctlCommand
  | ActMaoProjection

fun action_category_text :: "action_category \<Rightarrow> string" where
  "action_category_text ActModelInvoke = ''model-invoke''"
| "action_category_text ActToolExecute = ''tool-execute''"
| "action_category_text ActMemoryWrite = ''memory-write''"
| "action_category_text ActTracePersist = ''trace-persist''"
| "action_category_text ActOpctlCommand = ''opctl-command''"
| "action_category_text ActMaoProjection = ''mao-projection''"

section \<open>Workflow definitions\<close>

datatype failure_action = FailBlock | FailReprompt | FailRollback

fun failure_action_text :: "failure_action \<Rightarrow> string" where
  "failure_action_text FailBlock = ''block''"
| "failure_action_text FailReprompt = ''reprompt''"
| "failure_action_text FailRollback = ''rollback''"

datatype timeout_default = TimeoutHalt | TimeoutFallback

fun timeout_default_text :: "timeout_default \<Rightarrow> string" where
  "timeout_default_text TimeoutHalt = ''halt''"
| "timeout_default_text TimeoutFallback = ''fallback''"

datatype split_mode = SplitAll | SplitRace

fun split_mode_text :: "split_mode \<Rightarrow> string" where
  "split_mode_text SplitAll = ''all''"
| "split_mode_text SplitRace = ''race''"

datatype join_mode = JoinAll | JoinAny | JoinNofM

fun join_mode_text :: "join_mode \<Rightarrow> string" where
  "join_mode_text JoinAll = ''all''"
| "join_mode_text JoinAny = ''any''"
| "join_mode_text JoinNofM = ''n-of-m''"

datatype catch_scope = CatchUpstream | CatchSpecific

fun catch_scope_text :: "catch_scope \<Rightarrow> string" where
  "catch_scope_text CatchUpstream = ''upstream''"
| "catch_scope_text CatchSpecific = ''specific''"

datatype node_config =
    ModelCallConfig (mc_modelRole: model_role) (mc_promptRef: string)
      (mc_outputSchemaRef: "string option")
  | ToolExecutionConfig (te_toolName: string) (te_inputMappingRef: string)
      (te_resultSchemaRef: "string option")
  | ConditionConfig (cn_predicateRef: string) (cn_trueBranchKey: string)
      (cn_falseBranchKey: string)
  | TransformConfig (tr_transformRef: string) (tr_inputMappingRef: string)
  | QualityGateConfig (qg_evaluatorRef: string) (qg_passThresholdRef: string)
      (qg_failureAction: failure_action)
  | HumanDecisionConfig (hd_decisionRef: string) (hd_timeoutMs: "nat option")
      (hd_defaultOnTimeout: "timeout_default option")
  | ParallelSplitConfig (ps_splitMode: split_mode) (ps_branches: "string list")
  | ParallelJoinConfig (pj_joinMode: join_mode) (pj_requiredCount: "nat option")
      (pj_timeoutMs: "nat option")
  | LoopConfig (lp_maxIterations: nat) (lp_exitConditionRef: string)
      (lp_backoffMs: "nat option")
  | ErrorHandlerConfig (eh_catchScope: catch_scope) (eh_targetNodeIds: "string list option")
  | SubworkflowConfig (sw_subworkflowDefinitionId: "string option")
      (sw_passthrough: "(string \<times> json) list")

fun config_type :: "node_config \<Rightarrow> node_kind" where
  "config_type (ModelCallConfig _ _ _) = KModelCall"
| "config_type (ToolExecutionConfig _ _ _) = KToolExecution"
| "config_type (ConditionConfig _ _ _) = KCondition"
| "config_type (TransformConfig _ _) = KTransform"
| "config_type (QualityGateConfig _ _ _) = KQualityGate"
| "config_type (HumanDecisionConfig _ _ _) = KHumanDecision"
| "config_type (ParallelSplitConfig _ _) = KParallelSplit"
| "config_type (ParallelJoinConfig _ _ _) = KParallelJoin"
| "config_type (LoopConfig _ _ _) = KLoop"
| "config_type (ErrorHandlerConfig _ _) = KErrorHandler"
| "config_type (SubworkflowConfig _ _) = KSubworkflow"

record node_metadata =
  nm_specNodeId :: string
  nm_skill :: "string option"
  nm_contracts :: "string list option"
  nm_templates :: "string list option"
  nm_displayName :: "string option"
  nm_agentClass :: "string option"

record node_definition =
  nd_id :: string
  nd_name :: string
  nd_type :: node_kind
  nd_description :: "string option"
  nd_governance :: governance_level
  nd_executionModel :: execution_model
  nd_inputSchemaRef :: "string option"
  nd_outputSchemaRef :: "string option"
  nd_config :: node_config
  nd_metadata :: "node_metadata option"

text \<open>The cross-field checks of \<open>WorkflowNodeDefinitionSchema.superRefine\<close>.\<close>

definition node_definition_refined :: "node_definition \<Rightarrow> bool" where
  "node_definition_refined n \<longleftrightarrow>
     nd_type n = config_type (nd_config n) \<and>
     (case nd_config n of
        ConditionConfig _ t f \<Rightarrow> t \<noteq> f
      | _ \<Rightarrow> True)"

record edge_definition =
  ed_id :: string
  ed_from :: string
  ed_to :: string
  ed_branchKey :: "string option"
  ed_conditionRef :: "string option"
  ed_priority :: nat

datatype definition_mode = ModeProtocol | ModeHybrid

record workflow_definition =
  wd_id :: string
  wd_projectId :: string
  wd_mode :: definition_mode
  wd_version :: string
  wd_name :: string
  wd_entryNodeIds :: "string list"
  wd_nodes :: "node_definition list"
  wd_edges :: "edge_definition list"
  wd_specYaml :: "string option"

record derived_node =
  dn_definition :: node_definition
  dn_inboundEdgeIds :: "string list"
  dn_outboundEdgeIds :: "string list"
  dn_topologicalIndex :: nat

record workflow_graph =
  gr_workflowDefinitionId :: string
  gr_projectId :: string
  gr_version :: string
  gr_graphDigest :: string
  gr_entryNodeIds :: "string list"
  gr_topologicalOrder :: "string list"
  gr_nodes :: "(string \<times> derived_node) list"
  gr_edges :: "(string \<times> edge_definition) list"

section \<open>Admission\<close>

record admission_request =
  ar_projectId :: string
  ar_workflowDefinitionId :: string
  ar_workmodeId :: string
  ar_sourceActor :: authority_actor
  ar_targetActor :: "authority_actor option"
  ar_controlState :: "control_state option"

record admission_result =
  ad_allowed :: bool
  ad_reasonCode :: string
  ad_evidenceRefs :: "string list"
  ad_policyRef :: "string option"

section \<open>Governance decisions\<close>

datatype confidence_tier = TierLow | TierMedium | TierHigh

datatype decay_state = DecayStable | DecayDecaying | DecayFlaggedRetirement

datatype governance_outcome = AllowAutonomy | AllowWithFlag | Escalate | Defer | Deny

datatype governance_reason =
    CgrAllowAutonomy | CgrAllowWithFlag | CgrEscalateLowConfidence | CgrEscalateContradiction
  | CgrEscalateStaleness | CgrEscalateRetirement | CgrDeferHighRiskConfirmation
  | CgrDeferPausedReview | CgrDeferResuming | CgrDenyHardStopped | CgrDenyGovernanceCeiling
  | CgrDenyMissingEscalationContext

fun governance_reason_text :: "governance_reason \<Rightarrow> string" where
  "governance_reason_text CgrAllowAutonomy = ''CGR-ALLOW-AUTONOMY''"
| "governance_reason_text CgrAllowWithFlag = ''CGR-ALLOW-WITH-FLAG''"
| "governance_reason_text CgrEscalateLowConfidence = ''CGR-ESCALATE-LOW-CONFIDENCE''"
| "governance_reason_text CgrEscalateContradiction = ''CGR-ESCALATE-CONTRADICTION''"
| "governance_reason_text CgrEscalateStaleness = ''CGR-ESCALATE-STALENESS''"
| "governance_reason_text CgrEscalateRetirement = ''CGR-ESCALATE-RETIREMENT''"
| "governance_reason_text CgrDeferHighRiskConfirmation = ''CGR-DEFER-HIGH-RISK-CONFIRMATION''"
| "governance_reason_text CgrDeferPausedReview = ''CGR-DEFER-PAUSED-REVIEW''"
| "governance_reason_text CgrDeferResuming = ''CGR-DEFER-RESUMING''"
| "governance_reason_text CgrDenyHardStopped = ''CGR-DENY-HARD-STOPPED''"
| "governance_reason_text CgrDenyGovernanceCeiling = ''CGR-DENY-GOVERNANCE-CEILING''"
| "governance_reason_text CgrDenyMissingEscalationContext = ''CGR-DENY-MISSING-ESCALATION-CONTEXT''"

record trace_evidence =
  ev_actionCategory :: action_category
  ev_authorizationEventId :: "string option"
  ev_completionEventId :: "string option"
  ev_invariantEventId :: "string option"
  ev_verificationReportId :: "string option"

definition trace_evidence_json :: "trace_evidence \<Rightarrow> json" where
  "trace_evidence_json r = JObj
     (str_field ''actionCategory'' (action_category_text (ev_actionCategory r))
      @ opt_field ''authorizationEventId'' JStr (ev_authorizationEventId r)
      @ opt_field ''completionEventId'' JStr (ev_completionEventId r)
      @ opt_field ''invariantEventId'' JStr (ev_invariantEventId r)
      @ opt_field ''verificationReportId'' JStr (ev_verificationReportId r))"

record behavior_explanation =
  ex_patternId :: string
  ex_outcomeRef :: string
  ex_evidenceRefs :: "trace_evidence list"
  ex_distillationRef :: "string option"
  ex_policyRef :: "string option"
  ex_controlStateRef :: "string option"

datatype escalation_reason = ConfLow | ConfContradiction | ConfStaleness | ConfRetirement

record escalation_signal =
  es_reasonCode :: escalation_reason
  es_traceId :: string
  es_evidenceRefs :: "trace_evidence list"
  es_patternId :: "string option"
  es_detail :: "json option"

datatype memory_scope = ScopeGlobal | ScopeProject

record distilled_pattern =
  dp_id :: string
  dp_content :: string
  dp_confidence :: rat
  dp_basedOn :: "string list"
  dp_supersedes :: "string list"
  dp_evidenceRefs :: "trace_evidence list"
  dp_projectId :: "string option"
  dp_scope :: memory_scope
  dp_tags :: "string list"
  dp_createdAt :: string
  dp_updatedAt :: string

record confidence_signal =
  cs_tier :: confidence_tier
  cs_confidence :: rat
  cs_supportingSignals :: nat
  cs_patternId :: "string option"
  cs_entryId :: "string option"
  cs_decayState :: "decay_state option"

record governance_input =
  gi_governance :: governance_level
  gi_actionCategory :: action_category
  gi_projectControlState :: "control_state option"
  gi_pattern :: distilled_pattern
  gi_confidenceSignal :: confidence_signal
  gi_explanation :: behavior_explanation
  gi_escalationSignal :: "escalation_signal option"

record governance_decision =
  gd_outcome :: governance_outcome
  gd_reasonCode :: governance_reason
  gd_governance :: governance_level
  gd_actionCategory :: action_category
  gd_projectControlState :: "control_state option"
  gd_patternId :: string
  gd_confidence :: rat
  gd_confidenceTier :: confidence_tier
  gd_supportingSignals :: nat
  gd_decayState :: "decay_state option"
  gd_autonomyAllowed :: bool
  gd_requiresConfirmation :: bool
  gd_highRiskOverrideApplied :: bool
  gd_evidenceRefs :: "trace_evidence list"
  gd_explanation :: behavior_explanation
  gd_escalationSignal :: "escalation_signal option"

text \<open>The cross-field checks of \<open>ConfidenceGovernanceEvaluationResultSchema\<close>.\<close>

definition governance_decision_refined :: "governance_decision \<Rightarrow> bool" where
  "governance_decision_refined v \<longleftrightarrow>
     \<not> (gd_outcome v = AllowAutonomy \<and> \<not> gd_autonomyAllowed v) \<and>
     \<not> (gd_outcome v \<noteq> AllowAutonomy \<and> gd_autonomyAllowed v) \<and>
     \<not> (gd_highRiskOverrideApplied v \<and> gd_reasonCode v \<noteq> CgrDeferHighRiskConfirmation) \<and>
     \<not> (gd_requiresConfirmation v \<and> gd_reasonCode v \<noteq> CgrDeferHighRiskConfirmation) \<and>
     \<not> (gd_reasonCode v = CgrDeferHighRiskConfirmation \<and>
        (\<not> gd_highRiskOverrideApplied v \<or> \<not> gd_requiresConfirmation v \<or> gd_outcome v \<noteq> Defer)) \<and>
     \<not> (gd_outcome v = Escalate \<and> gd_escalationSignal v = None) \<and>
     \<not> (gd_reasonCode v = CgrDenyMissingEscalationContext \<and> gd_escalationSignal v \<noteq> None)"

end
