(* ===== verification/Graph_Validator.thy ===== *)
theory Graph_Validator
  imports Workflow_Types
begin

text \<open>
  \<open>validateWorkflowDefinition\<close> of
  \<open>self/subcortex/workflows/src/graph-validator.ts\<close>: index the nodes and edges, check
  the entry nodes, reachability, schema references and branch keys, and then order the
  nodes topologically with a work queue. The schema library's \<open>safeParse\<close> is the
  parameter \<open>safeParse\<close>.

  A stack is a list with its top first. The loops over nodes and edges are folds over the
  same state the code keeps in local maps; the two \<open>while\<close> loops are the functions
  \<open>reach\<close> and \<open>kahn\<close>, with their termination proved.
\<close>

section \<open>Definitions\<close>

record validation_issue =
  vi_code :: string
  vi_message :: string
  vi_evidenceRefs :: "string list"

datatype validation_result = Valid "string list" | Invalid "validation_issue list"

record zod_issue =
  zi_path :: "string list"
  zi_message :: string

record queue_item =
  qi_nodeId :: string
  qi_sourceOrder :: int
  qi_edgePriority :: nat
  qi_edgeId :: string

definition compareQueueItems :: "queue_item \<Rightarrow> queue_item \<Rightarrow> int" where
  "compareQueueItems left right =
     js_or (qi_sourceOrder left - qi_sourceOrder right)
       (js_or (int (qi_edgePriority left) - int (qi_edgePriority right))
         (js_or (localeCompare (qi_edgeId left) (qi_edgeId right))
           (localeCompare (qi_nodeId left) (qi_nodeId right))))"

definition compareEdges :: "edge_definition \<Rightarrow> edge_definition \<Rightarrow> int" where
  "compareEdges left right =
     js_or (int (ed_priority left) - int (ed_priority right))
       (js_or (localeCompare (ed_id left) (ed_id right))
         (localeCompare (ed_to left) (ed_to right)))"

text \<open>For evaluation: a later key is computed only where the earlier ones tie.\<close>

lemma compareQueueItems_code [code]:
  "compareQueueItems left right =
     (let d = qi_sourceOrder left - qi_sourceOrder right in
      if d \<noteq> 0 then d else
      let p = int (qi_edgePriority left) - int (qi_edgePriority right) in
      if p \<noteq> 0 then p else
      let l = localeCompare (qi_edgeId left) (qi_edgeId right) in
      if l \<noteq> 0 then l else localeCompare (qi_nodeId left) (qi_nodeId right))"
  by (simp add: compareQueueItems_def js_or_def Let_def)

lemma compareEdges_code [code]:
  "compareEdges left right =
     (let p = int (ed_priority left) - int (ed_priority right) in
      if p \<noteq> 0 then p else
      let l = localeCompare (ed_id left) (ed_id right) in
      if l \<noteq> 0 then l else localeCompare (ed_to left) (ed_to right))"
  by (simp add: compareEdges_def js_or_def Let_def)

definition sortEdges :: "edge_definition list \<Rightarrow> edge_definition list" where
  "sortEdges edges = js_sort compareEdges edges"

definition mk_issue :: "string \<Rightarrow> string \<Rightarrow> string list \<Rightarrow> validation_issue" where
  "mk_issue code message refs = \<lparr>vi_code = code, vi_message = message, vi_evidenceRefs = refs\<rparr>"

definition isResolvableSchemaRef :: "string \<Rightarrow> bool" where
  "isResolvableSchemaRef ref = startsWith ''schema://'' ref"

definition nodeInputRef :: "node_definition \<Rightarrow> string option" where
  "nodeInputRef node = nd_inputSchemaRef node"

definition nodeOutputRef :: "node_definition \<Rightarrow> string option" where
  "nodeOutputRef node =
     orElse (nd_outputSchemaRef node)
       (case nd_config node of
          ModelCallConfig _ _ ref \<Rightarrow> ref
        | ToolExecutionConfig _ _ ref \<Rightarrow> ref
        | _ \<Rightarrow> None)"

subsection \<open>Indexing\<close>

record index_state =
  ix_issues :: "validation_issue list"
  ix_nodesById :: "(string \<times> node_definition) list"
  ix_edgeIds :: "string list"
  ix_incoming :: "(string \<times> int) list"
  ix_outgoing :: "(string \<times> edge_definition list) list"

definition index_init :: index_state where
  "index_init = \<lparr>ix_issues = [], ix_nodesById = [], ix_edgeIds = [], ix_incoming = [], ix_outgoing = []\<rparr>"

definition index_node :: "node_definition \<Rightarrow> index_state \<Rightarrow> index_state" where
  "index_node node st =
     (if obj_get (nd_id node) (ix_nodesById st) \<noteq> None then
        st\<lparr>ix_issues := ix_issues st @
             [mk_issue ''workflow_duplicate_node_id''
                (''Duplicate workflow node definition id: '' @ nd_id node)
                [''node_id='' @ nd_id node]]\<rparr>
      else
        st\<lparr>ix_nodesById := obj_set (nd_id node) node (ix_nodesById st),
           ix_incoming := obj_set (nd_id node) 0 (ix_incoming st),
           ix_outgoing := obj_set (nd_id node) [] (ix_outgoing st)\<rparr>)"

definition index_edge :: "edge_definition \<Rightarrow> index_state \<Rightarrow> index_state" where
  "index_edge edge st =
     (if ed_id edge \<in> set (ix_edgeIds st) then
        st\<lparr>ix_issues := ix_issues st @
             [mk_issue ''workflow_duplicate_edge_id''
                (''Duplicate workflow edge id: '' @ ed_id edge)
                [''edge_id='' @ ed_id edge]]\<rparr>
      else
        (let st = st\<lparr>ix_edgeIds := ix_edgeIds st @ [ed_id edge]\<rparr> in
         if obj_get (ed_from edge) (ix_nodesById st) = None
            \<or> obj_get (ed_to edge) (ix_nodesById st) = None then
           st\<lparr>ix_issues := ix_issues st @
                [mk_issue ''workflow_dangling_edge''
                   (''Edge '' @ ed_id edge @ '' references an unknown node'')
                   [''edge_id='' @ ed_id edge, ''from='' @ ed_from edge, ''to='' @ ed_to edge]]\<rparr>
         else if ed_from edge = ed_to edge then
           st\<lparr>ix_issues := ix_issues st @
                [mk_issue ''workflow_self_loop''
                   (''Edge '' @ ed_id edge @ '' forms a self-loop'')
                   [''edge_id='' @ ed_id edge, ''node_id='' @ ed_from edge]]\<rparr>
         else
           st\<lparr>ix_incoming := obj_set (ed_to edge)
                 (getOr (obj_get (ed_to edge) (ix_incoming st)) 0 + 1) (ix_incoming st),
              ix_outgoing := obj_modify (ed_from edge) (\<lambda>es. es @ [edge]) (ix_outgoing st)\<rparr>))"

definition index_definition :: "workflow_definition \<Rightarrow> index_state" where
  "index_definition d = fold index_edge (wd_edges d) (fold index_node (wd_nodes d) index_init)"

definition outgoing_of :: "index_state \<Rightarrow> string \<Rightarrow> edge_definition list" where
  "outgoing_of st nodeId = getOr (obj_get nodeId (ix_outgoing st)) []"

subsection \<open>Entry nodes and reachability\<close>

definition entry_issues :: "index_state \<Rightarrow> string \<Rightarrow> validation_issue list" where
  "entry_issues st entryNodeId =
     (if obj_get entryNodeId (ix_nodesById st) = None then
        [mk_issue ''workflow_entry_node_missing''
           (''Entry node '' @ entryNodeId @ '' does not exist'') [''entry_node_id='' @ entryNodeId]]
      else if getOr (obj_get entryNodeId (ix_incoming st)) 0 > 0 then
        [mk_issue ''workflow_entry_node_has_inbound_edges''
           (''Entry node '' @ entryNodeId @ '' has inbound edges'') [''entry_node_id='' @ entryNodeId]]
      else [])"

definition root_issues :: "string list \<Rightarrow> string \<times> int \<Rightarrow> validation_issue list" where
  "root_issues entries entry =
     (if snd entry = 0 \<and> fst entry \<notin> set entries then
        [mk_issue ''workflow_missing_entry_for_root_node''
           (''Root node '' @ fst entry @ '' is not declared as an entry node'')
           [''node_id='' @ fst entry]]
      else [])"

function reach :: "index_state \<Rightarrow> string list \<Rightarrow> string list \<Rightarrow> string list" where
  "reach st [] seen = seen"
| "reach st (nodeId # stack) seen =
     (if nodeId \<in> set seen \<or> obj_get nodeId (ix_nodesById st) = None then reach st stack seen
      else reach st (rev (map ed_to (sortEdges (outgoing_of st nodeId))) @ stack) (seen @ [nodeId]))"
  by pat_completeness auto
termination
proof (relation "measures [\<lambda>(st, stack, seen). card (set (obj_keys (ix_nodesById st)) - set seen),
                           \<lambda>(st, stack, seen). length stack]", goal_cases)
  case 1
  show ?case by simp
next
  case 2
  then show ?case by simp
next
  case (3 st nodeId stack seen)
  then have "nodeId \<in> set (obj_keys (ix_nodesById st)) - set seen"
    by (simp add: obj_get_None_iff)
  then have "card (set (obj_keys (ix_nodesById st)) - set (seen @ [nodeId]))
      < card (set (obj_keys (ix_nodesById st)) - set seen)"
    by (intro psubset_card_mono) auto
  then show ?case by simp
qed

definition unreachable_issues :: "string list \<Rightarrow> string \<Rightarrow> validation_issue list" where
  "unreachable_issues reachable nodeId =
     (if nodeId \<in> set reachable then []
      else [mk_issue ''workflow_unreachable_node''
              (''Node '' @ nodeId @ '' is unreachable from the declared entry nodes'')
              [''node_id='' @ nodeId]])"

subsection \<open>Node contracts\<close>

definition schema_ref_issues :: "node_definition \<Rightarrow> validation_issue list" where
  "schema_ref_issues node =
     (case nodeInputRef node of
        Some ref \<Rightarrow>
          if ref \<noteq> [] \<and> \<not> isResolvableSchemaRef ref then
            [mk_issue ''workflow_schema_ref_unresolvable''
               (''Node '' @ nd_id node @ '' declares an unresolvable input schema ref '' @ ref)
               [''node_id='' @ nd_id node, ''input_schema_ref='' @ ref]]
          else []
      | None \<Rightarrow> [])
     @
     (case nodeOutputRef node of
        Some ref \<Rightarrow>
          if ref \<noteq> [] \<and> \<not> isResolvableSchemaRef ref then
            [mk_issue ''workflow_schema_ref_unresolvable''
               (''Node '' @ nd_id node @ '' declares an unresolvable output schema ref '' @ ref)
               [''node_id='' @ nd_id node, ''output_schema_ref='' @ ref]]
          else []
      | None \<Rightarrow> [])
     @
     (if (nd_type node = KModelCall \<or> nd_type node = KToolExecution) \<and> \<not> truthy (nodeOutputRef node) then
        [mk_issue ''workflow_node_output_schema_missing''
           (''Gateway-managed node '' @ nd_id node @ '' must declare an output schema ref'')
           [''node_id='' @ nd_id node]]
      else [])"

definition condition_issues :: "node_definition \<Rightarrow> edge_definition list \<Rightarrow> validation_issue list" where
  "condition_issues node outbound =
     (let branchEdges = filter (\<lambda>e. ed_branchKey e \<noteq> None) outbound in
      case nd_config node of
        ConditionConfig _ trueKey falseKey \<Rightarrow>
          (let expected = uniq [trueKey, falseKey] in
           concat (map (\<lambda>edge.
             if \<not> truthy (ed_branchKey edge) then
               [mk_issue ''workflow_condition_edge_missing_branch_key''
                  (''Condition node '' @ nd_id node @ '' has an outbound edge without a branch key'')
                  [''node_id='' @ nd_id node, ''edge_id='' @ ed_id edge]]
             else []) outbound)
           @ concat (map (\<lambda>edge.
             if getOr (ed_branchKey edge) [] \<notin> set expected then
               [mk_issue ''workflow_condition_branch_key_unexpected''
                  (''Condition node '' @ nd_id node @ '' has an outbound edge for unexpected branch key ''
                     @ getOr (ed_branchKey edge) [])
                  [''node_id='' @ nd_id node, ''edge_id='' @ ed_id edge,
                   ''branch_key='' @ getOr (ed_branchKey edge) []]]
             else []) branchEdges)
           @ concat (map (\<lambda>branchKey.
             if \<not> (\<exists>edge\<in>set branchEdges. ed_branchKey edge = Some branchKey) then
               [mk_issue ''workflow_condition_branch_key_missing''
                  (''Condition node '' @ nd_id node @ '' is missing an outbound edge for branch key ''
                     @ branchKey)
                  [''node_id='' @ nd_id node, ''branch_key='' @ branchKey]]
             else []) expected))
      | _ \<Rightarrow>
          [mk_issue ''workflow_condition_config_type_mismatch''
             (''Condition node '' @ nd_id node @ '' must carry a condition config'')
             [''node_id='' @ nd_id node]])"

definition branch_key_issues :: "node_definition \<Rightarrow> edge_definition list \<Rightarrow> validation_issue list" where
  "branch_key_issues node outbound =
     concat (map (\<lambda>edge.
       [mk_issue ''workflow_branch_key_requires_condition_node''
          (''Node '' @ nd_id node
             @ '' cannot declare branched outbound edges because it is not a condition node'')
          [''node_id='' @ nd_id node, ''edge_id='' @ ed_id edge,
           ''branch_key='' @ getOr (ed_branchKey edge) []]])
       (filter (\<lambda>e. ed_branchKey e \<noteq> None) outbound))"

definition edge_schema_issues ::
  "(string \<times> node_definition) list \<Rightarrow> node_definition \<Rightarrow> edge_definition list \<Rightarrow> validation_issue list" where
  "edge_schema_issues nodesById node outbound =
     concat (map (\<lambda>edge.
       case obj_get (ed_to edge) nodesById of
         None \<Rightarrow> []
       | Some targetNode \<Rightarrow>
           if truthy (nodeOutputRef node) \<and> truthy (nodeInputRef targetNode)
              \<and> nodeOutputRef node \<noteq> nodeInputRef targetNode then
             [mk_issue ''workflow_edge_schema_incompatible''
                (''Edge '' @ ed_id edge @ '' connects incompatible node schemas (''
                   @ getOr (nodeOutputRef node) [] @ '' -> '' @ getOr (nodeInputRef targetNode) [] @ '')'')
                [''edge_id='' @ ed_id edge, ''from='' @ nd_id node, ''to='' @ nd_id targetNode]]
           else []) outbound)"

definition node_issues :: "index_state \<Rightarrow> node_definition \<Rightarrow> validation_issue list" where
  "node_issues st node =
     (let outbound = sortEdges (outgoing_of st (nd_id node)) in
      schema_ref_issues node @
      (if nd_type node = KCondition then condition_issues node outbound
       else if nd_type node = KParallelSplit then []
       else if nd_type node = KLoop then []
       else if nd_type node = KErrorHandler then []
       else branch_key_issues node outbound @ edge_schema_issues (ix_nodesById st) node outbound))"

subsection \<open>Topological order\<close>

definition initial_queue :: "string list \<Rightarrow> queue_item list" where
  "initial_queue entries =
     map (\<lambda>nodeId. \<lparr>qi_nodeId = nodeId, qi_sourceOrder = -1, qi_edgePriority = 0, qi_edgeId = nodeId\<rparr>)
       (js_sort localeCompare entries)"

definition relax ::
  "nat \<Rightarrow> edge_definition \<Rightarrow> queue_item list \<times> (string \<times> int) list \<Rightarrow> queue_item list \<times> (string \<times> int) list" where
  "relax orderLength edge qr =
     (let nextInbound = getOr (obj_get (ed_to edge) (snd qr)) 0 - 1;
          remaining = obj_set (ed_to edge) nextInbound (snd qr)
      in if nextInbound = 0 then
           (fst qr @ [\<lparr>qi_nodeId = ed_to edge, qi_sourceOrder = int orderLength,
                       qi_edgePriority = ed_priority edge, qi_edgeId = ed_id edge\<rparr>], remaining)
         else (fst qr, remaining))"

definition positive_count :: "(string \<times> int) list \<Rightarrow> nat" where
  \<comment> \<open>how many nodes still wait for an inbound edge: what the queue loop uses up\<close>
  "positive_count rem = length (filter (\<lambda>kv. 0 < snd kv) rem)"

lemma positive_count_set_less:
  "obj_get k rem = Some v \<Longrightarrow> 0 < v \<Longrightarrow> v' \<le> 0 \<Longrightarrow>
   Suc (positive_count (obj_set k v' rem)) = positive_count rem"
  by (induction rem) (auto simp: positive_count_def split: if_splits)

lemma positive_count_set_le:
  "v' \<le> getOr (obj_get k rem) 0 \<Longrightarrow> positive_count (obj_set k v' rem) \<le> positive_count rem"
  by (induction rem) (auto simp: positive_count_def split: if_splits)

lemma relax_measure:
  "length (fst (relax n e qr)) + positive_count (snd (relax n e qr)) \<le> length (fst qr) + positive_count (snd qr)"
proof (cases "getOr (obj_get (ed_to e) (snd qr)) 0 = 1")
  case True
  then obtain "obj_get (ed_to e) (snd qr) = Some 1"
    by (cases "obj_get (ed_to e) (snd qr)") auto
  then have "Suc (positive_count (obj_set (ed_to e) 0 (snd qr))) = positive_count (snd qr)"
    by (rule positive_count_set_less) auto
  with True show ?thesis by (simp add: relax_def Let_def)
next
  case False
  have "positive_count (obj_set (ed_to e) (getOr (obj_get (ed_to e) (snd qr)) 0 - 1) (snd qr))
      \<le> positive_count (snd qr)"
    by (rule positive_count_set_le) simp
  with False show ?thesis by (auto simp: relax_def Let_def)
qed

lemma fold_relax_measure:
  "length (fst (fold (relax n) es qr)) + positive_count (snd (fold (relax n) es qr))
     \<le> length (fst qr) + positive_count (snd qr)"
proof (induction es arbitrary: qr)
  case Nil
  then show ?case by simp
next
  case (Cons e es)
  show ?case using Cons [of "relax n e qr"] relax_measure [of n e qr] by simp
qed

function kahn ::
  "index_state \<Rightarrow> queue_item list \<Rightarrow> (string \<times> int) list \<Rightarrow> string list \<Rightarrow> string list" where
  "kahn st queue remaining order =
     (case js_sort compareQueueItems queue of
        [] \<Rightarrow> order
      | current # rest \<Rightarrow>
          (let order' = order @ [qi_nodeId current];
               qr = fold (relax (length order')) (sortEdges (outgoing_of st (qi_nodeId current)))
                      (rest, remaining)
           in kahn st (fst qr) (snd qr) order'))"
  by pat_completeness auto
termination
proof (relation "measure (\<lambda>(st, queue, remaining, order). length queue + positive_count remaining)", goal_cases)
  case 1
  show ?case by simp
next
  case (2 st queue remaining order current rest order' qr)
  have "Suc (length rest) = length queue"
    using 2(1) by (metis length_Cons length_js_sort)
  moreover have "length (fst qr) + positive_count (snd qr) \<le> length rest + positive_count remaining"
    using fold_relax_measure [of _ _ "(rest, remaining)"] 2(3) by simp
  ultimately show ?case by simp
qed

declare kahn.simps [simp del]

subsection \<open>The validator\<close>

definition definition_issues :: "workflow_definition \<Rightarrow> validation_issue list" where
  "definition_issues d =
     (let st = index_definition d;
          reachable = reach st (rev (wd_entryNodeIds d)) []
      in ix_issues st
         @ concat (map (entry_issues st) (wd_entryNodeIds d))
         @ concat (map (root_issues (wd_entryNodeIds d)) (ix_incoming st))
         @ concat (map (unreachable_issues reachable) (obj_keys (ix_nodesById st)))
         @ concat (map (node_issues st) (wd_nodes d)))"

definition cycle_issue :: "workflow_definition \<Rightarrow> validation_issue" where
  "cycle_issue d = mk_issue ''workflow_cycle_detected'' ''Workflow definition contains a cycle''
     [''workflow_definition_id='' @ wd_id d]"

definition topological_order :: "workflow_definition \<Rightarrow> string list" where
  "topological_order d =
     (let st = index_definition d
      in kahn st (initial_queue (wd_entryNodeIds d)) (ix_incoming st) [])"

definition validateWorkflowDefinition ::
  "(workflow_definition \<Rightarrow> zod_issue list + workflow_definition) \<Rightarrow> workflow_definition \<Rightarrow> validation_result" where
  "validateWorkflowDefinition safeParse definition =
     (case safeParse definition of
        Inl issues \<Rightarrow>
          Invalid (map (\<lambda>i. mk_issue ''workflow_definition_schema_invalid'' (zi_message i)
                         [''path='' @ (if zi_path i \<noteq> [] then join ''.'' (zi_path i) else ''root'')]) issues)
      | Inr d \<Rightarrow>
          if definition_issues d \<noteq> [] then Invalid (definition_issues d)
          else (let order = topological_order d in
                if length order \<noteq> length (ix_nodesById (index_definition d)) then Invalid [cycle_issue d]
                else Valid order))"

end
