(* ===== verification/Validator_Correct.thy ===== *)
theory Validator_Correct
  imports Graph_Validator
begin

text \<open>
  Correctness of the workflow validator. The index built without an issue is the graph of
  the definition (\<open>index_definition_ok\<close>); the stack search visits exactly the nodes
  reachable from the entries; the queue loop keeps the invariant \<open>queue_inv\<close>, from which
  a result of full length is a topological order and a shorter one betrays a cycle.
\<close>

section \<open>Comparators\<close>

definition edge_key :: "edge_definition \<Rightarrow> int \<times> (nat list \<times> nat list) \<times> nat list \<times> nat list" where
  "edge_key e = (int (ed_priority e), collation_key (ed_id e), collation_key (ed_to e))"

lemma compareEdges_key: "compareEdges x y \<le> 0 \<longleftrightarrow> edge_key x \<le> edge_key y"
  unfolding compareEdges_def edge_key_def
  by (intro js_or_le_key) (auto simp: localeCompare_key localeCompare_le)

interpretation edge_cmp: js_comparator compareEdges
  by (rule js_comparator_by_key) (rule compareEdges_key)

definition queue_key ::
  "queue_item \<Rightarrow> int \<times> int \<times> (nat list \<times> nat list) \<times> nat list \<times> nat list" where
  "queue_key q = (qi_sourceOrder q, int (qi_edgePriority q), collation_key (qi_edgeId q),
                  collation_key (qi_nodeId q))"

lemma compareQueueItems_key: "compareQueueItems x y \<le> 0 \<longleftrightarrow> queue_key x \<le> queue_key y"
  unfolding compareQueueItems_def queue_key_def
  by (intro js_or_le_key) (auto simp: localeCompare_key localeCompare_le)

interpretation queue_cmp: js_comparator compareQueueItems
  by (rule js_comparator_by_key) (rule compareQueueItems_key)

lemma mset_sortEdges [simp]: "mset (sortEdges es) = mset es"
  by (simp add: sortEdges_def)

lemma set_sortEdges [simp]: "set (sortEdges es) = set es"
  by (simp add: sortEdges_def)

text \<open>Edges with distinct identifiers have one sorted order, however they are listed.\<close>

lemma compareEdges_antisym:
  "distinct (map ed_id es) \<Longrightarrow> x \<in> set es \<Longrightarrow> y \<in> set es \<Longrightarrow>
   compareEdges x y \<le> 0 \<Longrightarrow> compareEdges y x \<le> 0 \<Longrightarrow> x = y"
  by (auto simp: compareEdges_key edge_key_def distinct_map inj_on_def collation_key_eq dest!: order_antisym)

lemma sortEdges_cong:
  "mset es = mset es' \<Longrightarrow> distinct (map ed_id es) \<Longrightarrow> sortEdges es = sortEdges es'"
  unfolding sortEdges_def
  by (rule edge_cmp.js_sort_cong_mset) (auto intro: compareEdges_antisym)

section \<open>The graph of a definition\<close>

definition node_ids :: "workflow_definition \<Rightarrow> string list" where
  "node_ids d = map nd_id (wd_nodes d)"

definition edge_rel :: "workflow_definition \<Rightarrow> (string \<times> string) set" where
  "edge_rel d = (\<lambda>e. (ed_from e, ed_to e)) ` set (wd_edges d)"

lemma finite_edge_rel: "finite (edge_rel d)"
  by (simp add: edge_rel_def)

lemma index_node_issues: "ix_issues (index_node n st) = [] \<Longrightarrow> ix_issues st = []"
  by (auto simp: index_node_def split: if_splits)

lemma fold_index_node_ok:
  assumes "ix_issues (fold index_node ns st) = []"
    and "obj_keys (ix_incoming st) = obj_keys (ix_nodesById st)"
    and "obj_keys (ix_outgoing st) = obj_keys (ix_nodesById st)"
    and "distinct (obj_keys (ix_nodesById st))"
  shows "ix_issues st = [] \<and>
    fold index_node ns st =
      st\<lparr>ix_nodesById := ix_nodesById st @ map (\<lambda>n. (nd_id n, n)) ns,
         ix_incoming := ix_incoming st @ map (\<lambda>n. (nd_id n, 0)) ns,
         ix_outgoing := ix_outgoing st @ map (\<lambda>n. (nd_id n, [])) ns\<rparr> \<and>
    distinct (obj_keys (ix_nodesById st) @ map nd_id ns)"
  using assms
proof (induction ns arbitrary: st)
  case Nil
  then show ?case by simp
next
  case (Cons n ns)
  show ?case
  proof (cases "obj_get (nd_id n) (ix_nodesById st) = None")
    case True
    then have fresh: "nd_id n \<notin> set (obj_keys (ix_nodesById st))"
      by (simp add: obj_get_None_iff)
    have step: "index_node n st =
        st\<lparr>ix_nodesById := ix_nodesById st @ [(nd_id n, n)],
           ix_incoming := ix_incoming st @ [(nd_id n, 0)],
           ix_outgoing := ix_outgoing st @ [(nd_id n, [])]\<rparr>"
      using True fresh Cons.prems(2,3) by (simp add: index_node_def length_obj_set_fresh)
    have "ix_issues (index_node n st) = [] \<and>
      fold index_node ns (index_node n st) =
      (index_node n st)\<lparr>ix_nodesById := ix_nodesById (index_node n st) @ map (\<lambda>n. (nd_id n, n)) ns,
         ix_incoming := ix_incoming (index_node n st) @ map (\<lambda>n. (nd_id n, 0)) ns,
         ix_outgoing := ix_outgoing (index_node n st) @ map (\<lambda>n. (nd_id n, [])) ns\<rparr> \<and>
      distinct (obj_keys (ix_nodesById (index_node n st)) @ map nd_id ns)"
      using Cons.prems fresh by (intro Cons.IH) (auto simp: step obj_keys_def)
    then show ?thesis by (simp add: step obj_keys_def)
  next
    case False
    have "ix_issues (index_node n st) \<noteq> []"
      using False by (simp add: index_node_def)
    moreover have "ix_issues (fold index_node ns s) = [] \<Longrightarrow> ix_issues s = []" for s
      by (induction ns arbitrary: s) (auto dest: index_node_issues)
    ultimately show ?thesis using Cons.prems(1) by force
  qed
qed

text \<open>What the edge loop has established after the edges \<open>es\<close>.\<close>

definition edges_indexed :: "string set \<Rightarrow> edge_definition list \<Rightarrow> index_state \<Rightarrow> bool" where
  "edges_indexed N es st \<longleftrightarrow>
     ix_edgeIds st = map ed_id es \<and> distinct (map ed_id es) \<and>
     (\<forall>e\<in>set es. ed_from e \<in> N \<and> ed_to e \<in> N \<and> ed_from e \<noteq> ed_to e) \<and>
     (\<forall>y\<in>N. obj_get y (ix_incoming st) = Some (int (length (filter (\<lambda>e. ed_to e = y) es)))) \<and>
     (\<forall>x\<in>N. obj_get x (ix_outgoing st) = Some (filter (\<lambda>e. ed_from e = x) es))"

lemma index_edge_issues: "ix_issues (index_edge e st) = [] \<Longrightarrow> ix_issues st = []"
  by (auto simp: index_edge_def Let_def split: if_splits)

lemma fold_index_edge_issues: "ix_issues (fold index_edge es st) = [] \<Longrightarrow> ix_issues st = []"
  by (induction es arbitrary: st) (auto dest: index_edge_issues)

lemma index_edge_nodes [simp]: "ix_nodesById (index_edge e st) = ix_nodesById st"
  by (simp add: index_edge_def Let_def)

lemma fold_index_edge_nodes [simp]: "ix_nodesById (fold index_edge es st) = ix_nodesById st"
  by (induction es arbitrary: st) auto

lemma obj_keys_set_present: "k \<in> set (obj_keys ob) \<Longrightarrow> obj_keys (obj_set k v ob) = obj_keys ob"
  by (simp add: obj_keys_def obj_set_def update_keys)

lemma index_edge_ok:
  assumes "edges_indexed N es st" and "ix_issues (index_edge e st) = []"
    and "N = set (obj_keys (ix_nodesById st))"
  shows "edges_indexed N (es @ [e]) (index_edge e st)"
  using assms
  by (auto simp: edges_indexed_def index_edge_def Let_def obj_get_None_iff split: if_splits)

lemma index_edge_keys:
  assumes "obj_keys (ix_incoming st) = obj_keys (ix_nodesById st)"
  shows "obj_keys (ix_incoming (index_edge e st)) = obj_keys (ix_nodesById st)"
  using assms
  by (auto simp: index_edge_def Let_def obj_get_None_iff obj_keys_set_present)

lemma fold_index_edge_keys:
  "obj_keys (ix_incoming st) = obj_keys (ix_nodesById st) \<Longrightarrow>
   obj_keys (ix_incoming (fold index_edge es st)) = obj_keys (ix_nodesById st)"
  by (induction es arbitrary: st) (auto simp: index_edge_keys)

lemma fold_index_edge_ok:
  assumes "edges_indexed N es st" and "ix_issues (fold index_edge es' st) = []"
    and "N = set (obj_keys (ix_nodesById st))"
  shows "edges_indexed N (es @ es') (fold index_edge es' st)"
  using assms
proof (induction es' arbitrary: es st)
  case Nil
  then show ?case by simp
next
  case (Cons e es')
  have "ix_issues (index_edge e st) = []"
    using Cons.prems(2) by (auto dest: fold_index_edge_issues)
  then have "edges_indexed N (es @ [e]) (index_edge e st)"
    using Cons.prems by (intro index_edge_ok)
  then have "edges_indexed N ((es @ [e]) @ es') (fold index_edge es' (index_edge e st))"
    using Cons.prems by (intro Cons.IH) auto
  then show ?case by simp
qed

lemma index_definition_ok:
  assumes "ix_issues (index_definition d) = []"
  shows "distinct (node_ids d)"
    and "ix_nodesById (index_definition d) = map (\<lambda>n. (nd_id n, n)) (wd_nodes d)"
    and "obj_keys (ix_incoming (index_definition d)) = node_ids d"
    and "edges_indexed (set (node_ids d)) (wd_edges d) (index_definition d)"
proof -
  let ?s0 = "fold index_node (wd_nodes d) index_init"
  have i0: "ix_issues ?s0 = []"
    using assms by (auto simp: index_definition_def dest: fold_index_edge_issues)
  from fold_index_node_ok [OF i0]
  have s0: "?s0 = index_init\<lparr>ix_nodesById := map (\<lambda>n. (nd_id n, n)) (wd_nodes d),
         ix_incoming := map (\<lambda>n. (nd_id n, 0)) (wd_nodes d),
         ix_outgoing := map (\<lambda>n. (nd_id n, [])) (wd_nodes d)\<rparr>"
    and dist: "distinct (node_ids d)"
    by (auto simp: index_init_def obj_keys_def node_ids_def)
  show "distinct (node_ids d)" by (rule dist)
  show "ix_nodesById (index_definition d) = map (\<lambda>n. (nd_id n, n)) (wd_nodes d)"
    by (simp add: index_definition_def s0)
  have keys: "obj_keys (ix_nodesById ?s0) = node_ids d" "obj_keys (ix_incoming ?s0) = node_ids d"
    by (simp_all add: s0 obj_keys_def node_ids_def comp_def)
  show "obj_keys (ix_incoming (index_definition d)) = node_ids d"
    using fold_index_edge_keys [of ?s0 "wd_edges d"] keys by (simp add: index_definition_def)
  have const: "obj_get y (map (\<lambda>n. (nd_id n, c)) ns) = Some c" if "y \<in> nd_id ` set ns" for y c ns
    using that by (induction ns) auto
  have "edges_indexed (set (node_ids d)) [] ?s0"
    unfolding s0 by (auto simp: edges_indexed_def node_ids_def const index_init_def)
  from fold_index_edge_ok [OF this, of "wd_edges d"]
  show "edges_indexed (set (node_ids d)) (wd_edges d) (index_definition d)"
    using assms keys by (simp add: index_definition_def)
qed

lemma outgoing_of_ok:
  assumes "edges_indexed N es st" and "x \<in> N"
  shows "outgoing_of st x = filter (\<lambda>e. ed_from e = x) es"
  using assms by (simp add: edges_indexed_def outgoing_of_def)

section \<open>Reachability\<close>

lemma reach_mono: "set seen \<subseteq> set (reach st stack seen)"
  by (induction st stack seen rule: reach.induct) auto

text \<open>An index is sound when its outgoing edges stay among its nodes.\<close>

definition succs :: "index_state \<Rightarrow> string \<Rightarrow> string set" where
  "succs st x = ed_to ` set (outgoing_of st x)"

lemma reach_sound:
  assumes "\<And>x. x \<in> set seen \<union> set stack \<Longrightarrow> Q x"
    and "\<And>x y. Q x \<Longrightarrow> y \<in> succs st x \<Longrightarrow> Q y"
    and "x \<in> set (reach st stack seen)"
  shows "Q x"
  using assms
proof (induction st stack seen rule: reach.induct)
  case (1 st seen)
  then show ?case by simp
next
  case (2 st nodeId stack seen)
  show ?case
  proof (cases "nodeId \<in> set seen \<or> obj_get nodeId (ix_nodesById st) = None")
    case True
    with 2 show ?thesis by (auto simp del: Un_iff simp: Ball_def)
  next
    case False
    have pre: "Q z" if "z \<in> set (seen @ [nodeId])
        \<union> set (rev (map ed_to (sortEdges (outgoing_of st nodeId))) @ stack)" for z
      using that "2.prems"(1,2) by (auto simp: succs_def)
    show ?thesis
      using "2.IH"(2) [OF False] pre "2.prems"(2,3) False by simp
  qed
qed

lemma reach_visits:
  "x \<in> set stack \<Longrightarrow> x \<in> set (obj_keys (ix_nodesById st)) \<Longrightarrow> x \<in> set (reach st stack seen)"
proof (induction st stack seen rule: reach.induct)
  case (1 st seen)
  then show ?case by simp
next
  case (2 st nodeId stack seen)
  show ?case
  proof (cases "nodeId \<in> set seen \<or> obj_get nodeId (ix_nodesById st) = None")
    case True
    with 2 show ?thesis
      using reach_mono [of seen st stack] by (auto simp: obj_get_None_iff)
  next
    case False
    with 2 show ?thesis
      using reach_mono [of "seen @ [nodeId]" st] by auto
  qed
qed

text \<open>What the search has seen is closed under edges, up to what is still on the stack.\<close>

lemma reach_closed:
  assumes "\<And>x y. x \<in> set seen \<Longrightarrow> y \<in> succs st x \<Longrightarrow> y \<in> set (obj_keys (ix_nodesById st)) \<Longrightarrow>
      y \<in> set seen \<union> set stack"
    and "x \<in> set (reach st stack seen)" and "y \<in> succs st x"
    and "y \<in> set (obj_keys (ix_nodesById st))"
  shows "y \<in> set (reach st stack seen)"
  using assms
proof (induction st stack seen rule: reach.induct)
  case (1 st seen)
  from "1.prems"(1) [of x y] "1.prems"(2-4) show ?case by simp
next
  case (2 st nodeId stack seen)
  show ?case
  proof (cases "nodeId \<in> set seen \<or> obj_get nodeId (ix_nodesById st) = None")
    case True
    have "v \<in> set seen \<union> set stack"
      if "u \<in> set seen" "v \<in> succs st u" "v \<in> set (obj_keys (ix_nodesById st))" for u v
      using "2.prems"(1) [OF that] True that(3) by (auto simp: obj_get_None_iff)
    with 2 True show ?thesis by simp
  next
    case False
    have "v \<in> set (seen @ [nodeId]) \<union> set (rev (map ed_to (sortEdges (outgoing_of st nodeId))) @ stack)"
      if "u \<in> set (seen @ [nodeId])" "v \<in> succs st u" "v \<in> set (obj_keys (ix_nodesById st))" for u v
      using "2.prems"(1) [of u v] that by (auto simp: succs_def)
    note closed = this
    have eq: "reach st (nodeId # stack) seen =
        reach st (rev (map ed_to (sortEdges (outgoing_of st nodeId))) @ stack) (seen @ [nodeId])"
      using False by auto
    show ?thesis
      unfolding eq using "2.prems"(2-4) closed unfolding eq by (intro "2.IH"(2) [OF False]) auto
  qed
qed

lemma reach_correct:
  assumes ok: "ix_issues (index_definition d) = []"
    and entries: "set (wd_entryNodeIds d) \<subseteq> set (node_ids d)"
  shows "set (reach (index_definition d) (rev (wd_entryNodeIds d)) []) =
         (edge_rel d)\<^sup>* `` set (wd_entryNodeIds d)"
proof -
  let ?st = "index_definition d" and ?N = "set (node_ids d)"
  let ?R = "set (reach ?st (rev (wd_entryNodeIds d)) [])"
  note idx = index_definition_ok [OF ok]
  have keys: "set (obj_keys (ix_nodesById ?st)) = ?N"
    by (simp add: idx(2) obj_keys_def node_ids_def comp_def)
  have succ: "succs ?st x = edge_rel d `` {x}" if "x \<in> ?N" for x
    using outgoing_of_ok [OF idx(4) that] by (auto simp: succs_def edge_rel_def image_iff)
  have inN: "y \<in> ?N" if "(x, y) \<in> edge_rel d" for x y
    using that idx(4) by (auto simp: edge_rel_def edges_indexed_def)
  have "x \<in> ?N \<and> x \<in> (edge_rel d)\<^sup>* `` set (wd_entryNodeIds d)" if "x \<in> ?R" for x
  proof (rule reach_sound [OF _ _ that])
    fix z assume "z \<in> set [] \<union> set (rev (wd_entryNodeIds d))"
    then show "z \<in> ?N \<and> z \<in> (edge_rel d)\<^sup>* `` set (wd_entryNodeIds d)"
      using entries by auto
  next
    fix u v assume u: "u \<in> ?N \<and> u \<in> (edge_rel d)\<^sup>* `` set (wd_entryNodeIds d)" and "v \<in> succs ?st u"
    then have uv: "(u, v) \<in> edge_rel d" using succ [of u] by blast
    from u obtain z where "z \<in> set (wd_entryNodeIds d)" "(z, u) \<in> (edge_rel d)\<^sup>*" by blast
    with uv have "v \<in> (edge_rel d)\<^sup>* `` set (wd_entryNodeIds d)"
      by (meson ImageI rtrancl_into_rtrancl)
    with inN [OF uv] show "v \<in> ?N \<and> v \<in> (edge_rel d)\<^sup>* `` set (wd_entryNodeIds d)" by blast
  qed
  moreover have "y \<in> ?R" if "(x, y) \<in> (edge_rel d)\<^sup>*" "x \<in> set (wd_entryNodeIds d)" for x y
    using that(1)
  proof (induction rule: rtrancl_induct)
    case base
    show ?case using that(2) entries keys by (intro reach_visits) auto
  next
    case (step u v)
    then have "u \<in> ?N"
      using idx(4) by (auto simp: edge_rel_def edges_indexed_def)
    then have v: "v \<in> succs ?st u" using step.hyps(2) succ by blast
    show ?case
      using inN [OF step.hyps(2)] keys by (intro reach_closed [OF _ step.IH v]) simp_all
  qed
  ultimately show ?thesis by blast
qed

section \<open>The queue loop\<close>

text \<open>
  \<open>R\<close> is the multiset of edges not yet relaxed. A node's count is the number of these
  edges that enter it, and the nodes done or queued are exactly those with none left.
\<close>

definition queue_inv ::
  "string set \<Rightarrow> edge_definition multiset \<Rightarrow> string list \<Rightarrow> queue_item list \<Rightarrow> (string \<times> int) list \<Rightarrow> bool" where
  "queue_inv N R order queue remaining \<longleftrightarrow>
     (\<forall>y\<in>N. obj_get y remaining = Some (int (size (filter_mset (\<lambda>e. ed_to e = y) R)))) \<and>
     distinct (order @ map qi_nodeId queue) \<and>
     set order \<union> qi_nodeId ` set queue = {y \<in> N. filter_mset (\<lambda>e. ed_to e = y) R = {#}} \<and>
     (\<forall>e\<in>#R. ed_to e \<in> N)"

lemma relax_inv:
  assumes inv: "queue_inv N R order queue remaining" and e: "e \<in># R"
  shows "queue_inv N (R - {#e#}) order (fst (relax n e (queue, remaining))) (snd (relax n e (queue, remaining)))"
proof -
  let ?c = "\<lambda>R y. filter_mset (\<lambda>e. ed_to e = y) R"
  have toN: "ed_to e \<in> N" using inv e by (auto simp: queue_inv_def)
  have c_other: "?c (R - {#e#}) y = ?c R y" if "y \<noteq> ed_to e" for y
    using that by (simp add: filter_diff_mset)
  have c_same: "?c R (ed_to e) = add_mset e (?c (R - {#e#}) (ed_to e))"
    using e by (metis (mono_tags, lifting) filter_mset_add_mset insert_DiffM)
  have c_ne: "?c R (ed_to e) \<noteq> {#}"
    unfolding c_same by simp
  have get: "obj_get (ed_to e) remaining = Some (int (size (?c (R - {#e#}) (ed_to e))) + 1)"
    using inv toN arg_cong [OF c_same, of size] by (simp add: queue_inv_def)
  have notin: "ed_to e \<notin> set order \<union> qi_nodeId ` set queue"
    using inv e by (auto simp: queue_inv_def)
  have sets: "{y \<in> N. ?c (R - {#e#}) y = {#}} =
      {y \<in> N. ?c R y = {#}} \<union> (if ?c (R - {#e#}) (ed_to e) = {#} then {ed_to e} else {})"
    (is "?L = ?M \<union> ?X")
  proof (intro equalityI subsetI)
    fix y assume "y \<in> ?L"
    then show "y \<in> ?M \<union> ?X" using c_other [of y] by (cases "y = ed_to e") auto
  next
    fix y assume "y \<in> ?M \<union> ?X"
    then show "y \<in> ?L" using c_other [of y] c_ne toN by (cases "y = ed_to e") (auto split: if_splits)
  qed
  show ?thesis
    using inv toN get notin c_other
    by (auto simp: queue_inv_def relax_def Let_def sets dest: in_diffD)
qed

lemma fold_relax_inv:
  assumes "queue_inv N R order (fst qr) (snd qr)" and "mset es \<subseteq># R"
  shows "queue_inv N (R - mset es) order (fst (fold (relax n) es qr)) (snd (fold (relax n) es qr))"
  using assms
proof (induction es arbitrary: R qr)
  case Nil
  then show ?case by simp
next
  case (Cons e es)
  have e: "e \<in># R" and sub: "mset es \<subseteq># R - {#e#}"
    using Cons.prems(2) by (auto simp: insert_subset_eq_iff)
  have "queue_inv N (R - {#e#}) order (fst (relax n e qr)) (snd (relax n e qr))"
    using relax_inv [OF _ e, of N order "fst qr" "snd qr" n] Cons.prems(1) by simp
  from Cons.IH [OF this sub] show ?case by simp
qed

definition edges_before :: "edge_definition list \<Rightarrow> string list \<Rightarrow> bool" where
  "edges_before es order \<longleftrightarrow>
     (\<forall>i<length order. \<forall>e\<in>set es. ed_to e = order ! i \<longrightarrow> ed_from e \<in> set (take i order))"

lemma edges_before_snoc:
  "edges_before es (order @ [x]) \<longleftrightarrow>
     edges_before es order \<and> (\<forall>e\<in>set es. ed_to e = x \<longrightarrow> ed_from e \<in> set order)"
  by (auto simp: edges_before_def nth_append less_Suc_eq split: if_splits)

lemma filter_mset_processed:
  assumes "c \<notin> P"
  shows "filter_mset (\<lambda>e. ed_from e \<notin> P) M - filter_mset (\<lambda>e. ed_from e = c) M =
         filter_mset (\<lambda>e. ed_from e \<notin> insert c P) M"
  using assms by (intro multiset_eqI) auto

lemma kahn_correct:
  assumes "queue_inv N (filter_mset (\<lambda>e. ed_from e \<notin> set order) (mset es)) order queue remaining"
    and "edges_before es order"
    and "\<And>x. x \<in> N \<Longrightarrow> outgoing_of st x = filter (\<lambda>e. ed_from e = x) es"
  defines "r \<equiv> kahn st queue remaining order"
  shows "distinct r \<and> edges_before es r \<and>
         set r = {y \<in> N. \<forall>e\<in>set es. ed_to e = y \<longrightarrow> ed_from e \<in> set r}"
  using assms(1-3) unfolding r_def
proof (induction st queue remaining order rule: kahn.induct)
  case (1 st queue remaining order)
  let ?R = "filter_mset (\<lambda>e. ed_from e \<notin> set order) (mset es)"
  show ?case
  proof (cases "js_sort compareQueueItems queue")
    case Nil
    then have "queue = []" by (metis length_0_conv length_js_sort)
    then have "distinct order"
      and set_order: "set order = {y \<in> N. filter_mset (\<lambda>e. ed_to e = y) ?R = {#}}"
      using "1.prems"(1) by (auto simp: queue_inv_def)
    moreover have "set order = {y \<in> N. \<forall>e\<in>set es. ed_to e = y \<longrightarrow> ed_from e \<in> set order}"
      by (subst set_order) (auto simp: filter_mset_eq_mempty_iff)
    ultimately show ?thesis
      using "1.prems"(2) Nil by (subst (1 2 3 4) kahn.simps) simp
  next
    case (Cons current rest)
    let ?c = "qi_nodeId current" and ?order' = "order @ [qi_nodeId current]"
    let ?outs = "sortEdges (outgoing_of st ?c)"
    let ?qr = "fold (relax (length ?order')) ?outs (rest, remaining)"
    have perm: "mset queue = add_mset current (mset rest)"
      using Cons by (metis mset.simps(2) mset_js_sort)
    then have set_queue: "set queue = insert current (set rest)"
      by (metis set_mset_add_mset_insert set_mset_mset)
    have done_c: "?c \<in> N" "filter_mset (\<lambda>e. ed_to e = ?c) ?R = {#}" and c_new: "?c \<notin> set order"
      using "1.prems"(1) set_queue by (auto simp: queue_inv_def)
    have "distinct (order @ map qi_nodeId queue)"
      using "1.prems"(1) by (simp add: queue_inv_def)
    moreover have "mset (order @ map qi_nodeId queue) = mset (?order' @ map qi_nodeId rest)"
      using perm by simp
    ultimately have "distinct (?order' @ map qi_nodeId rest)"
      using mset_eq_imp_distinct_iff by blast
    then have popped: "queue_inv N ?R ?order' rest remaining"
      using "1.prems"(1) set_queue by (auto simp: queue_inv_def)
    have outs: "mset ?outs = filter_mset (\<lambda>e. ed_from e = ?c) (mset es)"
      using "1.prems"(3) [OF done_c(1)] by (simp add: mset_filter)
    have "mset ?outs \<subseteq># ?R"
      unfolding outs using c_new by (intro mset_subset_eqI) auto
    note sub = this
    have left: "?R - mset ?outs = filter_mset (\<lambda>e. ed_from e \<notin> set ?order') (mset es)"
      unfolding outs filter_mset_processed [OF c_new] by simp
    have "queue_inv N ?R ?order' (fst (rest, remaining)) (snd (rest, remaining))"
      using popped by simp
    from fold_relax_inv [OF this sub, of "length ?order'"]
    have "queue_inv N (filter_mset (\<lambda>e. ed_from e \<notin> set ?order') (mset es)) ?order' (fst ?qr) (snd ?qr)"
      unfolding left .
    moreover have "edges_before es ?order'"
      using "1.prems"(2) done_c(2) by (auto simp: edges_before_snoc filter_mset_eq_mempty_iff)
    ultimately have "distinct (kahn st (fst ?qr) (snd ?qr) ?order') \<and>
        edges_before es (kahn st (fst ?qr) (snd ?qr) ?order') \<and>
        set (kahn st (fst ?qr) (snd ?qr) ?order') =
          {y \<in> N. \<forall>e\<in>set es. ed_to e = y \<longrightarrow>
            ed_from e \<in> set (kahn st (fst ?qr) (snd ?qr) ?order')}"
      using "1.prems"(3) by (intro "1.IH" [OF Cons refl refl])
    moreover have "kahn st queue remaining order = kahn st (fst ?qr) (snd ?qr) ?order'"
      using Cons by (subst kahn.simps) (simp add: Let_def)
    ultimately show ?thesis by simp
  qed
qed

section \<open>The validator's verdict\<close>

lemma initial_queue_ids: "map qi_nodeId (initial_queue entries) = js_sort localeCompare entries"
  by (simp add: initial_queue_def comp_def)

lemma definition_issues_parts:
  assumes "definition_issues d = []"
  shows "ix_issues (index_definition d) = []"
    and "\<And>n. n \<in> set (wd_entryNodeIds d) \<Longrightarrow> entry_issues (index_definition d) n = []"
    and "\<And>kv. kv \<in> set (ix_incoming (index_definition d)) \<Longrightarrow> root_issues (wd_entryNodeIds d) kv = []"
    and "\<And>n. n \<in> set (obj_keys (ix_nodesById (index_definition d))) \<Longrightarrow>
           n \<in> set (reach (index_definition d) (rev (wd_entryNodeIds d)) [])"
    and "\<And>n. n \<in> set (wd_nodes d) \<Longrightarrow> node_issues (index_definition d) n = []"
  using assms by (auto simp: definition_issues_def Let_def unreachable_issues_def split: if_splits)

lemma entries_are_roots:
  assumes ok: "definition_issues d = []"
  shows "set (wd_entryNodeIds d) = {y \<in> set (node_ids d). \<forall>e\<in>set (wd_edges d). ed_to e \<noteq> y}"
proof -
  let ?st = "index_definition d"
  note parts = definition_issues_parts [OF ok] and idx = index_definition_ok [OF definition_issues_parts(1) [OF ok]]
  have keys: "set (obj_keys (ix_nodesById ?st)) = set (node_ids d)"
    by (simp add: idx(2) obj_keys_def node_ids_def comp_def)
  have count: "obj_get y (ix_incoming ?st) = Some (int (length (filter (\<lambda>e. ed_to e = y) (wd_edges d))))"
    if "y \<in> set (node_ids d)" for y
    using idx(4) that by (simp add: edges_indexed_def)
  have "y \<in> set (node_ids d) \<and> (\<forall>e\<in>set (wd_edges d). ed_to e \<noteq> y)" if "y \<in> set (wd_entryNodeIds d)" for y
  proof -
    have "y \<in> set (node_ids d)" "\<not> getOr (obj_get y (ix_incoming ?st)) 0 > 0"
      using parts(2) [OF that] keys by (auto simp: entry_issues_def obj_get_None_iff split: if_splits)
    then show ?thesis using count [of y] by (auto simp: filter_empty_conv)
  qed
  moreover have "y \<in> set (wd_entryNodeIds d)"
    if y: "y \<in> set (node_ids d)" and none: "\<forall>e\<in>set (wd_edges d). ed_to e \<noteq> y" for y
  proof -
    have "obj_get y (ix_incoming ?st) = Some 0"
      using count [OF y] none by (simp add: filter_empty_conv)
    then have "(y, 0) \<in> set (ix_incoming ?st)"
      by (simp add: obj_get_def map_of_SomeD)
    from parts(3) [OF this] show ?thesis by (auto simp: root_issues_def split: if_splits)
  qed
  ultimately show ?thesis by blast
qed

lemma topological_order_correct:
  assumes ok: "definition_issues d = []" and dist: "distinct (wd_entryNodeIds d)"
  defines "r \<equiv> topological_order d"
  shows "distinct r" and "edges_before (wd_edges d) r"
    and "set r = {y \<in> set (node_ids d). \<forall>e\<in>set (wd_edges d). ed_to e = y \<longrightarrow> ed_from e \<in> set r}"
proof -
  let ?st = "index_definition d" and ?N = "set (node_ids d)" and ?q = "initial_queue (wd_entryNodeIds d)"
  note idx = index_definition_ok [OF definition_issues_parts(1) [OF ok]]
  have ids: "distinct (map qi_nodeId ?q)" "qi_nodeId ` set ?q = set (wd_entryNodeIds d)"
    using dist by (simp_all add: initial_queue_ids flip: set_map)
  have "queue_inv ?N (mset (wd_edges d)) [] ?q (ix_incoming ?st)"
    using idx(4) ids entries_are_roots [OF ok]
    by (auto simp: queue_inv_def edges_indexed_def filter_empty_conv simp flip: mset_filter)
  then have "queue_inv ?N (filter_mset (\<lambda>e. ed_from e \<notin> set []) (mset (wd_edges d))) [] ?q (ix_incoming ?st)"
    by simp
  from kahn_correct [OF this _ outgoing_of_ok [OF idx(4)]]
  have "distinct r \<and> edges_before (wd_edges d) r \<and>
      set r = {y \<in> ?N. \<forall>e\<in>set (wd_edges d). ed_to e = y \<longrightarrow> ed_from e \<in> set r}"
    by (simp add: r_def topological_order_def Let_def edges_before_def)
  then show "distinct r" "edges_before (wd_edges d) r"
    "set r = {y \<in> ?N. \<forall>e\<in>set (wd_edges d). ed_to e = y \<longrightarrow> ed_from e \<in> set r}"
    by blast+
qed

lemma index_of_take: "x \<in> set (take i xs) \<Longrightarrow> index_of x xs < i"
  by (induction xs arbitrary: i) (auto simp: take_Cons split: nat.splits)

lemma edges_before_index:
  assumes "edges_before es r" and "e \<in> set es" and "ed_to e \<in> set r"
  shows "index_of (ed_from e) r < index_of (ed_to e) r"
proof -
  have "index_of (ed_to e) r < length r" "r ! index_of (ed_to e) r = ed_to e"
    using assms(3) by (simp_all add: index_of_less nth_index_of)
  with assms(1,2) have "ed_from e \<in> set (take (index_of (ed_to e) r) r)"
    by (simp add: edges_before_def)
  then show ?thesis by (rule index_of_take)
qed

lemma length_index_nodes:
  "definition_issues d = [] \<Longrightarrow> length (ix_nodesById (index_definition d)) = length (wd_nodes d)"
  using index_definition_ok(2) [OF definition_issues_parts(1)] by simp

lemma validate_ValidD:
  assumes "schema_parser safeParse" and "validateWorkflowDefinition safeParse d = Valid order"
  shows "definition_issues d = []" and "order = topological_order d" and "length order = length (wd_nodes d)"
proof -
  have d': "safeParse d = Inr d"
    using assms(2) schema_parser.parse_id [OF assms(1)]
    by (auto simp: validateWorkflowDefinition_def split: sum.splits)
  show "definition_issues d = []" "order = topological_order d" "length order = length (wd_nodes d)"
    using assms(2) d' length_index_nodes
    by (auto simp: validateWorkflowDefinition_def Let_def split: if_splits)
qed

end
