(* ===== verification/Validator_Properties.thy ===== *)
theory Validator_Properties
  imports Validator_Correct
begin

text \<open>
  What \<open>validateWorkflowDefinition\<close> promises its callers: soundness and completeness of
  the topological order, reachability of every node, independence of the order in which a
  definition lists its parts, and what goes wrong with repeated entry nodes.
\<close>

section \<open>The definition schema\<close>

text \<open>The refinements of \<open>WorkflowDefinitionSchema\<close> that the model can check by itself.\<close>

definition parse_definition :: "workflow_definition \<Rightarrow> zod_issue list + workflow_definition" where
  "parse_definition d =
     (if (\<forall>n\<in>set (wd_nodes d). node_definition_refined n) \<and> wd_nodes d \<noteq> [] \<and> wd_entryNodeIds d \<noteq> []
      then Inr d
      else Inl [\<lparr>zi_path = [''nodes''], zi_message = ''Invalid workflow definition''\<rparr>])"

interpretation definition_schema: schema_parser parse_definition
  by unfold_locales (auto simp: parse_definition_def split: if_splits)


section \<open>The order in which a definition lists its parts\<close>

definition same_graph :: "workflow_definition \<Rightarrow> workflow_definition \<Rightarrow> bool" where
  "same_graph d d' \<longleftrightarrow> mset (wd_nodes d) = mset (wd_nodes d') \<and> mset (wd_edges d) = mset (wd_edges d') \<and>
     mset (wd_entryNodeIds d) = mset (wd_entryNodeIds d')"

definition well_indexed :: "workflow_definition \<Rightarrow> bool" where
  "well_indexed d \<longleftrightarrow> distinct (node_ids d) \<and> distinct (map ed_id (wd_edges d)) \<and>
     (\<forall>e\<in>set (wd_edges d). ed_from e \<in> set (node_ids d) \<and> ed_to e \<in> set (node_ids d) \<and> ed_from e \<noteq> ed_to e)"

lemma fold_index_node_clean:
  assumes "distinct (obj_keys (ix_nodesById st) @ map nd_id ns)"
  shows "ix_issues (fold index_node ns st) = ix_issues st \<and>
    ix_edgeIds (fold index_node ns st) = ix_edgeIds st \<and>
    set (obj_keys (ix_nodesById (fold index_node ns st))) = set (obj_keys (ix_nodesById st)) \<union> nd_id ` set ns"
  using assms
proof (induction ns arbitrary: st)
  case Nil
  then show ?case by simp
next
  case (Cons n ns)
  then have new: "obj_get (nd_id n) (ix_nodesById st) = None"
    by (simp add: obj_get_None_iff)
  then have "index_node n st = st\<lparr>ix_nodesById := ix_nodesById st @ [(nd_id n, n)],
       ix_incoming := obj_set (nd_id n) 0 (ix_incoming st), ix_outgoing := obj_set (nd_id n) [] (ix_outgoing st)\<rparr>"
    by (simp add: index_node_def obj_get_None_iff length_obj_set_fresh)
  then show ?case
    using Cons.IH [of "index_node n st"] Cons.prems by (auto simp: obj_keys_def)
qed

lemma fold_index_edge_clean:
  assumes "distinct (ix_edgeIds st @ map ed_id es)"
    and "\<forall>e\<in>set es. ed_from e \<in> set (obj_keys (ix_nodesById st)) \<and> ed_to e \<in> set (obj_keys (ix_nodesById st)) \<and> ed_from e \<noteq> ed_to e"
  shows "ix_issues (fold index_edge es st) = ix_issues st"
  using assms
proof (induction es arbitrary: st)
  case Nil
  then show ?case by simp
next
  case (Cons e es)
  then have "ix_issues (index_edge e st) = ix_issues st" "ix_edgeIds (index_edge e st) = ix_edgeIds st @ [ed_id e]"
    by (auto simp: index_edge_def Let_def obj_get_None_iff)
  with Cons show ?case by simp
qed

lemma index_ok_iff: "ix_issues (index_definition d) = [] \<longleftrightarrow> well_indexed d"
proof
  assume "ix_issues (index_definition d) = []"
  from index_definition_ok [OF this] show "well_indexed d"
    by (auto simp: well_indexed_def edges_indexed_def)
next
  assume ok: "well_indexed d"
  have nodes: "ix_issues (fold index_node (wd_nodes d) index_init) = []"
    "ix_edgeIds (fold index_node (wd_nodes d) index_init) = []"
    "set (obj_keys (ix_nodesById (fold index_node (wd_nodes d) index_init))) = set (node_ids d)"
    using fold_index_node_clean [of index_init "wd_nodes d"] ok
    by (simp_all add: well_indexed_def node_ids_def index_init_def obj_keys_def)
  with ok show "ix_issues (index_definition d) = []"
    unfolding index_definition_def
    by (subst fold_index_edge_clean) (auto simp: well_indexed_def)
qed

lemma same_graph_sym: "same_graph d d' \<Longrightarrow> same_graph d' d"
  by (simp add: same_graph_def)

lemma same_graph_sets:
  assumes "same_graph d d'"
  shows "set (wd_nodes d) = set (wd_nodes d')" and "set (wd_edges d) = set (wd_edges d')"
    and "set (wd_entryNodeIds d) = set (wd_entryNodeIds d')" and "set (node_ids d) = set (node_ids d')"
    and "mset (node_ids d) = mset (node_ids d')" and "edge_rel d = edge_rel d'"
  using assms by (auto simp: same_graph_def node_ids_def edge_rel_def dest: mset_eq_setD)

lemma same_graph_well_indexed:
  assumes "same_graph d d'" and "well_indexed d"
  shows "well_indexed d'"
proof -
  have "distinct (node_ids d')"
    using same_graph_sets(5) [OF assms(1)] assms(2) mset_eq_imp_distinct_iff by (metis well_indexed_def)
  moreover have "mset (map ed_id (wd_edges d)) = mset (map ed_id (wd_edges d'))"
    using assms(1) by (simp add: same_graph_def)
  then have "distinct (map ed_id (wd_edges d'))"
    using assms(2) mset_eq_imp_distinct_iff by (metis well_indexed_def)
  ultimately show ?thesis
    using assms(2) same_graph_sets [OF assms(1)] by (simp add: well_indexed_def)
qed

lemma outgoing_keys_index_edge [simp]: "obj_keys (ix_outgoing (index_edge e st)) = obj_keys (ix_outgoing st)"
  by (simp add: index_edge_def Let_def)

lemma outgoing_keys_fold_edges [simp]: "obj_keys (ix_outgoing (fold index_edge es st)) = obj_keys (ix_outgoing st)"
  by (induction es arbitrary: st) auto

lemma outgoing_keys_fold_nodes:
  "set (obj_keys (ix_outgoing st)) = set (obj_keys (ix_nodesById st)) \<Longrightarrow>
   set (obj_keys (ix_outgoing (fold index_node ns st))) = set (obj_keys (ix_nodesById (fold index_node ns st)))"
  by (induction ns arbitrary: st) (auto simp: index_node_def)

lemma outgoing_of_unknown:
  assumes "x \<notin> set (obj_keys (ix_nodesById (index_definition d)))"
  shows "outgoing_of (index_definition d) x = []"
proof -
  have "set (obj_keys (ix_outgoing index_init)) = set (obj_keys (ix_nodesById index_init))"
    by (simp add: index_init_def obj_keys_def)
  from outgoing_keys_fold_nodes [OF this, of "wd_nodes d"] assms
  have "x \<notin> set (obj_keys (ix_outgoing (index_definition d)))"
    by (simp add: index_definition_def)
  then have "obj_get x (ix_outgoing (index_definition d)) = None"
    by (simp only: obj_get_None_iff not_False_eq_True)
  then show ?thesis by (simp add: outgoing_of_def)
qed

text \<open>Two listings of one graph give indexes that no later step can tell apart.\<close>

definition same_obj :: "('k \<times> 'v) list \<Rightarrow> ('k \<times> 'v) list \<Rightarrow> bool" where
  "same_obj ob ob' \<longleftrightarrow> (\<forall>k. obj_get k ob = obj_get k ob')"

lemma same_obj_keys: "same_obj ob ob' \<Longrightarrow> set (obj_keys ob) = set (obj_keys ob')"
  by (metis same_obj_def obj_get_None_iff subsetI subset_antisym)

definition index_equiv :: "index_state \<Rightarrow> index_state \<Rightarrow> bool" where
  "index_equiv st st' \<longleftrightarrow>
     same_obj (ix_nodesById st) (ix_nodesById st') \<and> same_obj (ix_incoming st) (ix_incoming st') \<and>
     (\<forall>x. sortEdges (outgoing_of st x) = sortEdges (outgoing_of st' x))"

lemma same_graph_index_equiv:
  assumes same: "same_graph d d'" and ok: "well_indexed d"
  shows "index_equiv (index_definition d) (index_definition d')"
proof -
  let ?st = "index_definition d" and ?st' = "index_definition d'"
  have ok': "well_indexed d'" using same_graph_well_indexed [OF same ok] .
  note i = index_definition_ok [OF index_ok_iff [THEN iffD2, OF ok]]
    and i' = index_definition_ok [OF index_ok_iff [THEN iffD2, OF ok']]
    and sets = same_graph_sets [OF same]
  have "map_of (map (\<lambda>n. (nd_id n, n)) (wd_nodes d)) = map_of (map (\<lambda>n. (nd_id n, n)) (wd_nodes d'))"
    using ok ok' sets(1)
    by (subst map_of_inject_set) (auto simp: comp_def well_indexed_def node_ids_def)
  then have nodes: "same_obj (ix_nodesById ?st) (ix_nodesById ?st')"
    by (simp add: same_obj_def obj_get_def i(2) i'(2))
  have cnt: "length (filter P (wd_edges d)) = length (filter P (wd_edges d'))" for P
    using same by (metis mset_filter same_graph_def size_mset)
  have inc: "same_obj (ix_incoming ?st) (ix_incoming ?st')"
    unfolding same_obj_def
  proof
    fix y
    show "obj_get y (ix_incoming ?st) = obj_get y (ix_incoming ?st')"
    proof (cases "y \<in> set (node_ids d)")
      case True
      then show ?thesis using i(4) i'(4) sets(4) cnt by (simp add: edges_indexed_def)
    next
      case False
      then have "obj_get y (ix_incoming ?st) = None" "obj_get y (ix_incoming ?st') = None"
        using i(3) i'(3) sets(4) by (simp_all add: obj_get_None_iff)
      then show ?thesis by simp
    qed
  qed
  have keys: "set (obj_keys (ix_nodesById ?st)) = set (node_ids d)"
    "set (obj_keys (ix_nodesById ?st')) = set (node_ids d)"
    using sets(4) by (simp_all add: i(2) i'(2) obj_keys_def node_ids_def comp_def)
  have "sortEdges (outgoing_of ?st x) = sortEdges (outgoing_of ?st' x)" for x
  proof (cases "x \<in> set (node_ids d)")
    case True
    have "mset (filter (\<lambda>e. ed_from e = x) (wd_edges d)) = mset (filter (\<lambda>e. ed_from e = x) (wd_edges d'))"
      using same by (simp add: same_graph_def mset_filter)
    moreover have "distinct (map ed_id (filter (\<lambda>e. ed_from e = x) (wd_edges d)))"
      using ok by (simp add: well_indexed_def distinct_map_filter)
    ultimately show ?thesis
      using outgoing_of_ok [OF i(4) True] outgoing_of_ok [OF i'(4), of x] True sets(4)
      by (simp add: sortEdges_cong)
  next
    case False
    then show ?thesis using keys by (simp add: outgoing_of_unknown)
  qed
  with nodes inc show ?thesis by (simp add: index_equiv_def)
qed

lemma same_obj_set: "same_obj ob ob' \<Longrightarrow> same_obj (obj_set k v ob) (obj_set k v ob')"
  by (simp add: same_obj_def)

lemma fold_relax_cong:
  "same_obj rem rem' \<Longrightarrow>
     fst (fold (relax n) es (q, rem)) = fst (fold (relax n) es (q, rem')) \<and>
     same_obj (snd (fold (relax n) es (q, rem))) (snd (fold (relax n) es (q, rem')))"
proof (induction es arbitrary: q rem rem')
  case Nil
  then show ?case by simp
next
  case (Cons e es)
  have get: "obj_get (ed_to e) rem = obj_get (ed_to e) rem'"
    using Cons.prems by (simp add: same_obj_def)
  show ?case
    using Cons.IH [OF same_obj_set [OF Cons.prems]] by (simp add: relax_def Let_def get)
qed

lemma kahn_cong:
  assumes "\<forall>x. sortEdges (outgoing_of st x) = sortEdges (outgoing_of st' x)" and "same_obj remaining remaining'"
  shows "kahn st queue remaining order = kahn st' queue remaining' order"
  using assms
proof (induction st queue remaining order arbitrary: remaining' rule: kahn.induct)
  case (1 st queue remaining order)
  show ?case
  proof (cases "js_sort compareQueueItems queue")
    case Nil
    then show ?thesis by (simp add: kahn.simps)
  next
    case (Cons current rest)
    let ?n = "length (order @ [qi_nodeId current])"
      and ?es = "sortEdges (outgoing_of st (qi_nodeId current))"
    note step = fold_relax_cong [OF "1.prems"(2), of ?n ?es rest]
    from "1.IH" [OF Cons refl refl "1.prems"(1) step [THEN conjunct2]] step Cons "1.prems"(1)
    show ?thesis by (subst (1 2) kahn.simps) (simp add: Let_def)
  qed
qed

lemma same_graph_topological_order:
  assumes "same_graph d d'" and "well_indexed d"
  shows "topological_order d = topological_order d'"
proof -
  have "js_sort localeCompare (wd_entryNodeIds d) = js_sort localeCompare (wd_entryNodeIds d')"
    using assms(1) by (intro js_sort_localeCompare_cong) (simp add: same_graph_def)
  then have queue: "initial_queue (wd_entryNodeIds d) = initial_queue (wd_entryNodeIds d')"
    by (simp add: initial_queue_def)
  have "kahn (index_definition d) (initial_queue (wd_entryNodeIds d)) (ix_incoming (index_definition d)) [] =
        kahn (index_definition d') (initial_queue (wd_entryNodeIds d)) (ix_incoming (index_definition d')) []"
    using same_graph_index_equiv [OF assms] by (intro kahn_cong) (auto simp: index_equiv_def)
  then show ?thesis by (simp add: topological_order_def Let_def queue)
qed

lemma edge_schema_issues_cong:
  "same_obj ob ob' \<Longrightarrow> edge_schema_issues ob n es = edge_schema_issues ob' n es"
  by (simp add: edge_schema_issues_def same_obj_def)

lemma definition_issues_iff:
  "definition_issues d = [] \<longleftrightarrow>
     ix_issues (index_definition d) = [] \<and>
     (\<forall>n\<in>set (wd_entryNodeIds d). entry_issues (index_definition d) n = []) \<and>
     (\<forall>kv\<in>set (ix_incoming (index_definition d)). root_issues (wd_entryNodeIds d) kv = []) \<and>
     (\<forall>n\<in>set (obj_keys (ix_nodesById (index_definition d))).
        n \<in> set (reach (index_definition d) (rev (wd_entryNodeIds d)) [])) \<and>
     (\<forall>n\<in>set (wd_nodes d). node_issues (index_definition d) n = [])"
  by (auto simp: definition_issues_def Let_def unreachable_issues_def)

lemma set_incoming_eq:
  "ix_issues (index_definition d) = [] \<Longrightarrow>
   kv \<in> set (ix_incoming (index_definition d)) \<longleftrightarrow>
     obj_get (fst kv) (ix_incoming (index_definition d)) = Some (snd kv)"
  using index_definition_ok(1,3) [of d]
  by (cases kv) (simp add: obj_get_def obj_keys_def map_of_eq_Some_iff)

lemma same_graph_no_issues:
  assumes same: "same_graph d d'" and ok: "definition_issues d = []"
  shows "definition_issues d' = []"
proof -
  let ?st = "index_definition d" and ?st' = "index_definition d'"
  note parts = definition_issues_iff [THEN iffD1, OF ok]
  have wi: "well_indexed d" using parts index_ok_iff by blast
  have wi': "well_indexed d'" using same_graph_well_indexed [OF same wi] .
  have ok': "ix_issues ?st' = []" using wi' index_ok_iff by blast
  note sets = same_graph_sets [OF same] and eq = same_graph_index_equiv [OF same wi]
  have get: "obj_get x (ix_nodesById ?st') = obj_get x (ix_nodesById ?st)"
    "obj_get x (ix_incoming ?st') = obj_get x (ix_incoming ?st)" for x
    using eq by (simp_all add: index_equiv_def same_obj_def)
  have keys: "set (obj_keys (ix_nodesById ?st')) = set (obj_keys (ix_nodesById ?st))"
    using eq same_obj_keys by (metis index_equiv_def)
  have entries: "set (wd_entryNodeIds d) \<subseteq> set (node_ids d)"
    using entries_are_roots [OF ok] by blast
  have reach: "set (reach ?st' (rev (wd_entryNodeIds d')) []) = set (reach ?st (rev (wd_entryNodeIds d)) [])"
    using reach_correct [OF ok'] reach_correct [OF parts [THEN conjunct1] entries] sets entries by simp
  have "entry_issues ?st' n = entry_issues ?st n" for n
    by (simp add: entry_issues_def get)
  moreover have "root_issues (wd_entryNodeIds d') kv = root_issues (wd_entryNodeIds d) kv" for kv
    by (simp add: root_issues_def sets(3))
  moreover have "set (ix_incoming ?st') = set (ix_incoming ?st)"
    using set_incoming_eq [OF ok'] set_incoming_eq [OF parts [THEN conjunct1]] get(2) by auto
  moreover have "node_issues ?st' n = node_issues ?st n" for n
    using eq edge_schema_issues_cong [of "ix_nodesById ?st" "ix_nodesById ?st'" n]
    by (simp add: node_issues_def Let_def index_equiv_def)
  ultimately show ?thesis
    using parts ok' keys reach sets(1,3) by (simp add: definition_issues_iff)
qed

section \<open>Example definitions\<close>

definition mk_node :: "string \<Rightarrow> node_config \<Rightarrow> node_definition" where
  "mk_node i c = \<lparr>nd_id = i, nd_name = i, nd_type = config_type c, nd_description = None,
     nd_governance = GovMay, nd_executionModel = Synchronous, nd_inputSchemaRef = None,
     nd_outputSchemaRef = None, nd_config = c, nd_metadata = None\<rparr>"

definition transform_node :: "string \<Rightarrow> node_definition" where
  "transform_node i = mk_node i (TransformConfig ''transform://t'' ''mapping://m'')"

definition mk_edge :: "string \<Rightarrow> string \<Rightarrow> string \<Rightarrow> edge_definition" where
  "mk_edge i f t = \<lparr>ed_id = i, ed_from = f, ed_to = t, ed_branchKey = None, ed_conditionRef = None, ed_priority = 0\<rparr>"

definition mk_definition :: "string list \<Rightarrow> node_definition list \<Rightarrow> edge_definition list \<Rightarrow> workflow_definition" where
  "mk_definition entries ns es = \<lparr>wd_id = ''wf'', wd_projectId = ''p'', wd_mode = ModeProtocol,
     wd_version = ''1'', wd_name = ''w'', wd_entryNodeIds = entries, wd_nodes = ns, wd_edges = es,
     wd_specYaml = None\<rparr>"

definition diamond :: workflow_definition where
  "diamond = mk_definition [''a''] (map transform_node [''a'', ''b'', ''c'', ''d''])
     [mk_edge ''1'' ''a'' ''b'', mk_edge ''2'' ''a'' ''c'', mk_edge ''3'' ''b'' ''d'', mk_edge ''4'' ''c'' ''d'']"

definition diamond_shuffled :: workflow_definition where
  "diamond_shuffled = mk_definition [''a''] (map transform_node [''d'', ''b'', ''a'', ''c''])
     [mk_edge ''4'' ''c'' ''d'', mk_edge ''2'' ''a'' ''c'', mk_edge ''1'' ''a'' ''b'', mk_edge ''3'' ''b'' ''d'']"

definition two_cycle :: workflow_definition where
  "two_cycle = mk_definition [''a''] (map transform_node [''a'', ''x'', ''y''])
     [mk_edge ''1'' ''a'' ''x'', mk_edge ''2'' ''x'' ''y'', mk_edge ''3'' ''y'' ''x'']"

definition two_cycle_repeated :: workflow_definition where
  "two_cycle_repeated = mk_definition [''a'', ''a'', ''a''] (map transform_node [''a'', ''x'', ''y''])
     [mk_edge ''1'' ''a'' ''x'', mk_edge ''2'' ''x'' ''y'', mk_edge ''3'' ''y'' ''x'',
      mk_edge ''4'' ''y'' ''x'', mk_edge ''5'' ''y'' ''x'']"

lemma diamond_valid: "validateWorkflowDefinition parse_definition diamond = Valid [''a'', ''b'', ''c'', ''d'']"
  by code_simp

section \<open>Properties\<close>

lemma safe_parse_valid:
  assumes "schema_parser safeParse" and "safeParse d = Inr d'"
  shows "safeParse d = Inr d" and "d' = d"
  using schema_parser.parse_id [OF assms] assms(2) by simp_all

lemma length_node_ids: "length (node_ids d) = length (wd_nodes d)"
  by (simp add: node_ids_def)

lemma valid_order_facts:
  assumes "schema_parser safeParse" and "distinct (wd_entryNodeIds d)"
    and "validateWorkflowDefinition safeParse d = Valid order"
  shows "distinct order" and "set order = set (node_ids d)" and "edges_before (wd_edges d) order"
    and "well_indexed d"
proof -
  note valid = validate_ValidD [OF assms(1,3)]
  note topo = topological_order_correct [OF valid(1) assms(2), folded valid(2)]
  show wi: "well_indexed d" using definition_issues_parts(1) [OF valid(1)] index_ok_iff by blast
  show d: "distinct order" and "edges_before (wd_edges d) order" by (rule topo)+
  have "card (set order) = card (set (node_ids d))"
    using distinct_card [OF d(1)] distinct_card [of "node_ids d"] wi valid(3)
    by (simp add: well_indexed_def length_node_ids)
  moreover have "set order \<subseteq> set (node_ids d)" using topo(3) by blast
  ultimately show "set order = set (node_ids d)" by (simp add: card_subset_eq)
qed

lemma valid_order_edges:
  assumes "schema_parser safeParse" and "distinct (wd_entryNodeIds d)"
    and "validateWorkflowDefinition safeParse d = Valid order"
  shows "\<forall>e\<in>set (wd_edges d). index_of (ed_from e) order < index_of (ed_to e) order"
    and "acyclic (edge_rel d)"
proof -
  note facts = valid_order_facts [OF assms]
  have ends: "ed_to e \<in> set order" if "e \<in> set (wd_edges d)" for e
    using facts(2,4) that by (simp add: well_indexed_def)
  show before: "\<forall>e\<in>set (wd_edges d). index_of (ed_from e) order < index_of (ed_to e) order"
    using edges_before_index [OF facts(3)] ends by blast
  have "edge_rel d \<subseteq> measure (\<lambda>x. index_of x order)"
    using before by (auto simp: edge_rel_def)
  then show "acyclic (edge_rel d)"
    by (meson wf_measure wf_acyclic acyclic_subset)
qed

text \<open>C7: An accepted definition with distinct entry nodes gets a topological order: every
  node exactly once, and each edge's source before its target. So its graph is acyclic.\<close>

theorem validate_sound:
  assumes "schema_parser safeParse" and "distinct (wd_entryNodeIds d)"
    and "validateWorkflowDefinition safeParse d = Valid order"
  shows "distinct order \<and> mset order = mset (map nd_id (wd_nodes d)) \<and>
    (\<forall>e\<in>set (wd_edges d). index_of (ed_from e) order < index_of (ed_to e) order) \<and>
    acyclic (edge_rel d)"
proof -
  note facts = valid_order_facts [OF assms]
  have "mset order = mset (map nd_id (wd_nodes d))"
    using facts(1,2,4) set_eq_iff_mset_eq_distinct [of order "node_ids d"]
    by (simp add: well_indexed_def flip: node_ids_def)
  then show ?thesis using valid_order_edges [OF assms] facts(1) by blast
qed

theorem validate_sound_witness:
  "distinct [''a'', ''b'', ''c'', ''d'']  \<and> acyclic (edge_rel diamond)"
  using validate_sound [OF definition_schema.schema_parser_axioms _ diamond_valid]
  by (simp add: diamond_def mk_definition_def)

text \<open>C8: The cycle check is exact: a definition with distinct entry nodes and no other
  issue is accepted if and only if its graph has no cycle, and otherwise the single issue
  reported is the cycle.\<close>

theorem validate_complete:
  assumes "schema_parser safeParse" and "safeParse d = Inr d" and "distinct (wd_entryNodeIds d)"
    and "definition_issues d = []"
  shows "if acyclic (edge_rel d) then validateWorkflowDefinition safeParse d = Valid (topological_order d)
         else validateWorkflowDefinition safeParse d = Invalid [cycle_issue d]"
proof -
  let ?r = "topological_order d"
  have eq: "validateWorkflowDefinition safeParse d =
      (if length ?r \<noteq> length (wd_nodes d) then Invalid [cycle_issue d] else Valid ?r)"
    using assms(2,4) length_index_nodes by (simp add: validateWorkflowDefinition_def Let_def)
  show ?thesis
  proof (cases "acyclic (edge_rel d)")
    case False
    then have "validateWorkflowDefinition safeParse d \<noteq> Valid ?r"
      using valid_order_edges(2) [OF assms(1,3)] by blast
    with eq False show ?thesis by (auto split: if_splits)
  next
    case True
    note topo = topological_order_correct [OF assms(4,3)]
    have wi: "well_indexed d" using definition_issues_parts(1) [OF assms(4)] index_ok_iff by blast
    have wf: "wf (edge_rel d)" using True finite_edge_rel finite_acyclic_wf by blast
    have "y \<in> set (node_ids d) \<longrightarrow> y \<in> set ?r" for y
      using wf
    proof (induction y rule: wf_induct_rule)
      case (less y)
      show ?case
      proof
        assume y: "y \<in> set (node_ids d)"
        have "ed_from e \<in> set ?r" if "e \<in> set (wd_edges d)" "ed_to e = y" for e
        proof -
          have "(ed_from e, y) \<in> edge_rel d" using that by (auto simp: edge_rel_def)
          moreover have "ed_from e \<in> set (node_ids d)" using wi that(1) by (simp add: well_indexed_def)
          ultimately show ?thesis using less by blast
        qed
        with y show "y \<in> set ?r" by (subst topo(3)) simp
      qed
    qed
    then have "set ?r = set (node_ids d)" using topo(3) by blast
    then have "length ?r = length (wd_nodes d)"
      using topo(1) wi distinct_card by (metis length_map node_ids_def well_indexed_def)
    with eq True show ?thesis by simp
  qed
qed

lemma two_cycle_clean: "definition_issues two_cycle = [] \<and> parse_definition two_cycle = Inr two_cycle"
  by code_simp

theorem validate_complete_witness:
  "if acyclic (edge_rel two_cycle) then validateWorkflowDefinition parse_definition two_cycle = Valid (topological_order two_cycle)
   else validateWorkflowDefinition parse_definition two_cycle = Invalid [cycle_issue two_cycle]"
  using validate_complete [OF definition_schema.schema_parser_axioms, of two_cycle] two_cycle_clean
  by (simp add: two_cycle_def mk_definition_def)

text \<open>An accepted definition has no dead part: its entry nodes are exactly the nodes
  without an inbound edge, and its nodes are exactly what those reach.\<close>

theorem validate_reachable:
  assumes "schema_parser safeParse" and "validateWorkflowDefinition safeParse d = Valid order"
  shows "set (wd_entryNodeIds d) = {y \<in> nd_id ` set (wd_nodes d). \<forall>e\<in>set (wd_edges d). ed_to e \<noteq> y} \<and>
    nd_id ` set (wd_nodes d) = (edge_rel d)\<^sup>* `` set (wd_entryNodeIds d)"
proof -
  note ok = validate_ValidD(1) [OF assms] and ids = node_ids_def
  note parts = definition_issues_parts [OF ok] and roots = entries_are_roots [OF ok]
  have reach: "set (reach (index_definition d) (rev (wd_entryNodeIds d)) []) =
      (edge_rel d)\<^sup>* `` set (wd_entryNodeIds d)"
    using reach_correct [OF parts(1)] roots by blast
  have keys: "set (obj_keys (ix_nodesById (index_definition d))) = set (node_ids d)"
    by (simp add: index_definition_ok(2) [OF parts(1)] obj_keys_def node_ids_def comp_def)
  have "set (node_ids d) \<subseteq> (edge_rel d)\<^sup>* `` set (wd_entryNodeIds d)"
    using parts(4) reach keys by blast
  moreover have "(edge_rel d)\<^sup>* `` set (wd_entryNodeIds d) \<subseteq> set (node_ids d)"
  proof
    fix y assume "y \<in> (edge_rel d)\<^sup>* `` set (wd_entryNodeIds d)"
    then obtain x where x: "x \<in> set (wd_entryNodeIds d)" and xy: "(x, y) \<in> (edge_rel d)\<^sup>*" by blast
    from xy show "y \<in> set (node_ids d)"
    proof (cases rule: rtranclE)
      case base
      then show ?thesis using x roots by blast
    next
      case (step z)
      then show ?thesis
        using parts(1) index_ok_iff by (auto simp: edge_rel_def well_indexed_def)
    qed
  qed
  ultimately show ?thesis using roots by (simp add: ids)
qed

theorem validate_reachable_witness:
  "nd_id ` set (wd_nodes diamond) = (edge_rel diamond)\<^sup>* `` {''a''}"
  using validate_reachable [OF definition_schema.schema_parser_axioms diamond_valid]
  by (simp add: diamond_def mk_definition_def)

text \<open>The verdict and the order do not depend on how a definition lists its nodes, edges
  and entry nodes: a reordered copy of an accepted definition is accepted with the same
  topological order.\<close>

theorem validate_order_independent:
  assumes "schema_parser safeParse" and "safeParse d' = Inr d'" and "same_graph d d'"
    and "validateWorkflowDefinition safeParse d = Valid order"
  shows "validateWorkflowDefinition safeParse d' = Valid order"
proof -
  note valid = validate_ValidD [OF assms(1,4)]
  have wi: "well_indexed d" using definition_issues_parts(1) [OF valid(1)] index_ok_iff by blast
  have clean: "definition_issues d' = []" by (rule same_graph_no_issues [OF assms(3) valid(1)])
  have "length (wd_nodes d') = length (wd_nodes d)"
    using assms(3) by (metis same_graph_def size_mset)
  moreover have "topological_order d' = order"
    using same_graph_topological_order [OF assms(3) wi] valid(2) by simp
  ultimately show ?thesis
    using assms(2) clean length_index_nodes [OF clean] valid(3)
    by (simp add: validateWorkflowDefinition_def Let_def)
qed

theorem validate_order_independent_witness:
  "validateWorkflowDefinition parse_definition diamond_shuffled = Valid [''a'', ''b'', ''c'', ''d'']"
proof (rule validate_order_independent [OF definition_schema.schema_parser_axioms _ _ diamond_valid])
  show "parse_definition diamond_shuffled = Inr diamond_shuffled"
    by code_simp
  show "same_graph diamond diamond_shuffled"
    by (simp add: same_graph_def diamond_def diamond_shuffled_def mk_definition_def)
qed

text \<open>Repeated entry nodes defeat the cycle check. The graph of \<open>two_cycle_repeated\<close> has
  the cycle x, y and is accepted, with an order that lists one node three times and the
  cycle not at all; and an acyclic graph of one edge is rejected as a cycle when its entry
  is listed twice.\<close>

theorem repeated_entries_defeat_cycle_check:
  "validateWorkflowDefinition parse_definition two_cycle_repeated = Valid [''a'', ''a'', ''a''] \<and>
   (''x'', ''x'') \<in> (edge_rel two_cycle_repeated)\<^sup>+ \<and>
   validateWorkflowDefinition parse_definition
     (mk_definition [''a'', ''a''] (map transform_node [''a'', ''b'']) [mk_edge ''1'' ''a'' ''b''])
   = Invalid [mk_issue ''workflow_cycle_detected'' ''Workflow definition contains a cycle''
               [''workflow_definition_id=wf'']]"
proof -
  have "(''x'', ''y'') \<in> edge_rel two_cycle_repeated" "(''y'', ''x'') \<in> edge_rel two_cycle_repeated"
    by (auto simp: edge_rel_def two_cycle_repeated_def mk_definition_def mk_edge_def)
  then have "(''x'', ''x'') \<in> (edge_rel two_cycle_repeated)\<^sup>+" by (meson r_into_trancl trancl_into_trancl)
  moreover have "validateWorkflowDefinition parse_definition two_cycle_repeated = Valid [''a'', ''a'', ''a'']"
    by code_simp
  moreover have "validateWorkflowDefinition parse_definition
     (mk_definition [''a'', ''a''] (map transform_node [''a'', ''b'']) [mk_edge ''1'' ''a'' ''b''])
   = Invalid [mk_issue ''workflow_cycle_detected'' ''Workflow definition contains a cycle''
               [''workflow_definition_id=wf'']]"
    by code_simp
  ultimately show ?thesis by blast
qed

lemma schema_ref_codes:
  "i \<in> set (schema_ref_issues n) \<Longrightarrow>
     vi_code i = ''workflow_schema_ref_unresolvable'' \<or> vi_code i = ''workflow_node_output_schema_missing''"
  by (auto simp: schema_ref_issues_def mk_issue_def split: option.splits if_splits)

lemma branch_key_codes:
  "i \<in> set (branch_key_issues n es) \<Longrightarrow> vi_code i = ''workflow_branch_key_requires_condition_node''"
  by (auto simp: branch_key_issues_def mk_issue_def)

lemma edge_schema_codes:
  "i \<in> set (edge_schema_issues ob n es) \<Longrightarrow> vi_code i = ''workflow_edge_schema_incompatible''"
  by (auto simp: edge_schema_issues_def mk_issue_def split: option.splits if_splits)

lemma condition_codes:
  "nd_config n = ConditionConfig p t f \<Longrightarrow> i \<in> set (condition_issues n es) \<Longrightarrow>
     vi_code i \<in> {''workflow_condition_edge_missing_branch_key'', ''workflow_condition_branch_key_unexpected'',
       ''workflow_condition_branch_key_missing''}"
  by (auto simp: condition_issues_def mk_issue_def Let_def split: if_splits)

text \<open>The issue \<open>workflow_condition_config_type_mismatch\<close> is never reported for a parsed
  definition: the schema already ties a node's type to its configuration.\<close>

theorem condition_mismatch_unreachable:
  assumes "node_definition_refined n" and "i \<in> set (node_issues st n)"
  shows "vi_code i \<noteq> ''workflow_condition_config_type_mismatch''"
proof -
  have config: "nd_type n = KCondition \<Longrightarrow> \<exists>p t f. nd_config n = ConditionConfig p t f"
    using assms(1) by (cases "nd_config n") (auto simp: node_definition_refined_def)
  then show ?thesis
    using assms(2) schema_ref_codes [of i n] condition_codes [of n _ _ _ i] branch_key_codes [of i n] edge_schema_codes [of i _ n]
    by (fastforce simp: node_issues_def Let_def split: if_splits)
qed

theorem condition_mismatch_unreachable_witness:
  "\<exists>i\<in>set (node_issues (index_definition diamond) (mk_node ''q'' (ConditionConfig ''p'' ''t'' ''f''))).
     vi_code i \<noteq> ''workflow_condition_config_type_mismatch''"
proof -
  let ?n = "mk_node ''q'' (ConditionConfig ''p'' ''t'' ''f'')"
  have i: "mk_issue ''workflow_condition_branch_key_missing''
      ''Condition node q is missing an outbound edge for branch key t'' [''node_id=q'', ''branch_key=t'']
      \<in> set (node_issues (index_definition diamond) ?n)"
    by code_simp
  have "node_definition_refined ?n" by code_simp
  from condition_mismatch_unreachable [OF this i] i show ?thesis by blast
qed

end
