(* ===== verification/Graph_Builder.thy ===== *)
theory Graph_Builder
  imports Validator_Properties
begin

text \<open>
  \<open>self/subcortex/workflows/src/graph-builder.ts\<close>: the digest of a definition and the
  derived graph. The hash function is the parameter \<open>sha256\<close>, the schema library's
  parsers are \<open>safeParse\<close> and \<open>parseGraph\<close>. The JSON value of a node or an edge lists the
  fields the schema declares, an absent optional field being left out.
\<close>

section \<open>JSON values of definitions\<close>

fun definition_mode_text :: "definition_mode \<Rightarrow> string" where
  "definition_mode_text ModeProtocol = ''protocol''"
| "definition_mode_text ModeHybrid = ''hybrid''"

definition strs :: "string list \<Rightarrow> json" where
  "strs xs = JArr (map JStr xs)"

fun config_fields :: "node_config \<Rightarrow> (string \<times> json) list" where
  "config_fields (ModelCallConfig role prompt out) =
     str_field ''modelRole'' (model_role_text role) @ str_field ''promptRef'' prompt
     @ opt_field ''outputSchemaRef'' JStr out"
| "config_fields (ToolExecutionConfig tool mapping res) =
     str_field ''toolName'' tool @ str_field ''inputMappingRef'' mapping
     @ opt_field ''resultSchemaRef'' JStr res"
| "config_fields (ConditionConfig predicate t f) =
     str_field ''predicateRef'' predicate @ str_field ''trueBranchKey'' t @ str_field ''falseBranchKey'' f"
| "config_fields (TransformConfig transform mapping) =
     str_field ''transformRef'' transform @ str_field ''inputMappingRef'' mapping"
| "config_fields (QualityGateConfig evaluator threshold action) =
     str_field ''evaluatorRef'' evaluator @ str_field ''passThresholdRef'' threshold
     @ str_field ''failureAction'' (failure_action_text action)"
| "config_fields (HumanDecisionConfig decision timeout fallback) =
     str_field ''decisionRef'' decision @ opt_field ''timeoutMs'' JNum timeout
     @ opt_field ''defaultOnTimeout'' (\<lambda>t. JStr (timeout_default_text t)) fallback"
| "config_fields (ParallelSplitConfig mode branches) =
     str_field ''splitMode'' (split_mode_text mode) @ [(''branches'', strs branches)]"
| "config_fields (ParallelJoinConfig mode required timeout) =
     str_field ''joinMode'' (join_mode_text mode) @ opt_field ''requiredCount'' JNum required
     @ opt_field ''timeoutMs'' JNum timeout"
| "config_fields (LoopConfig maxIter exit backoff) =
     [(''maxIterations'', JNum maxIter)] @ str_field ''exitConditionRef'' exit
     @ opt_field ''backoffMs'' JNum backoff"
| "config_fields (ErrorHandlerConfig scope targets) =
     str_field ''catchScope'' (catch_scope_text scope) @ opt_field ''targetNodeIds'' strs targets"
| "config_fields (SubworkflowConfig sub extra) =
     opt_field ''subworkflowDefinitionId'' JStr sub @ extra"

definition config_json :: "node_config \<Rightarrow> json" where
  "config_json c = JObj (str_field ''type'' (node_kind_text (config_type c)) @ config_fields c)"

definition metadata_json :: "node_metadata \<Rightarrow> json" where
  "metadata_json m = JObj
     (str_field ''specNodeId'' (nm_specNodeId m) @ opt_field ''skill'' JStr (nm_skill m)
      @ opt_field ''contracts'' strs (nm_contracts m) @ opt_field ''templates'' strs (nm_templates m)
      @ opt_field ''displayName'' JStr (nm_displayName m) @ opt_field ''agentClass'' JStr (nm_agentClass m))"

definition node_json :: "node_definition \<Rightarrow> json" where
  "node_json n = JObj
     (str_field ''id'' (nd_id n) @ str_field ''name'' (nd_name n)
      @ str_field ''type'' (node_kind_text (nd_type n))
      @ opt_field ''description'' JStr (nd_description n)
      @ str_field ''governance'' (governance_level_text (nd_governance n))
      @ str_field ''executionModel'' (execution_model_text (nd_executionModel n))
      @ opt_field ''inputSchemaRef'' JStr (nd_inputSchemaRef n)
      @ opt_field ''outputSchemaRef'' JStr (nd_outputSchemaRef n)
      @ [(''config'', config_json (nd_config n))]
      @ opt_field ''metadata'' metadata_json (nd_metadata n))"

definition edge_json :: "edge_definition \<Rightarrow> json" where
  "edge_json e = JObj
     (str_field ''id'' (ed_id e) @ str_field ''from'' (ed_from e) @ str_field ''to'' (ed_to e)
      @ opt_field ''branchKey'' JStr (ed_branchKey e)
      @ opt_field ''conditionRef'' JStr (ed_conditionRef e)
      @ [(''priority'', JNum (ed_priority e))])"

section \<open>The digest\<close>

definition compareNodes :: "node_definition \<Rightarrow> node_definition \<Rightarrow> int" where
  "compareNodes left right = localeCompare (nd_id left) (nd_id right)"

interpretation node_cmp: js_comparator compareNodes
  by (rule js_comparator_by_key [of _ "\<lambda>n. collation_key (nd_id n)"])
    (simp add: compareNodes_def localeCompare_le)

definition normalizedDefinition :: "workflow_definition \<Rightarrow> json" where
  "normalizedDefinition d = JObj
     (str_field ''id'' (wd_id d) @ str_field ''projectId'' (wd_projectId d)
      @ str_field ''mode'' (definition_mode_text (wd_mode d))
      @ str_field ''version'' (wd_version d) @ str_field ''name'' (wd_name d)
      @ [(''entryNodeIds'', strs (js_sort localeCompare (wd_entryNodeIds d))),
         (''nodes'', JArr (map (\<lambda>n. normalize (node_json n)) (js_sort compareNodes (wd_nodes d)))),
         (''edges'', JArr (map (\<lambda>e. normalize (edge_json e)) (sortEdges (wd_edges d))))])"

definition buildGraphDigest :: "(string \<Rightarrow> string) \<Rightarrow> workflow_definition \<Rightarrow> string" where
  "buildGraphDigest sha256 definition = sha256 (stringify (normalizedDefinition definition))"

section \<open>The derived graph\<close>

definition compareEdgeIds :: "edge_definition \<Rightarrow> edge_definition \<Rightarrow> int" where
  "compareEdgeIds left right = localeCompare (ed_id left) (ed_id right)"

definition derive_node :: "edge_definition list \<Rightarrow> (string \<times> nat) list \<Rightarrow> node_definition \<Rightarrow> string \<times> derived_node" where
  "derive_node edges topologicalIndex node =
     (nd_id node,
      \<lparr>dn_definition = node,
       dn_inboundEdgeIds = map ed_id (js_sort compareEdgeIds (filter (\<lambda>e. ed_to e = nd_id node) edges)),
       dn_outboundEdgeIds = map ed_id (filter (\<lambda>e. ed_from e = nd_id node) edges),
       dn_topologicalIndex = getOr (obj_get (nd_id node) topologicalIndex) 0\<rparr>)"

definition index_map :: "string list \<Rightarrow> (string \<times> nat) list" where
  \<comment> \<open>\<open>new Map(order.map((nodeId, index) => [nodeId, index]))\<close>\<close>
  "index_map order = from_entries [] (zip order [0..<length order])"

definition derive_graph :: "(string \<Rightarrow> string) \<Rightarrow> workflow_definition \<Rightarrow> string list \<Rightarrow> workflow_graph" where
  "derive_graph sha256 definition topologicalOrder =
     (let edges = sortEdges (wd_edges definition) in
      \<lparr>gr_workflowDefinitionId = wd_id definition,
       gr_projectId = wd_projectId definition,
       gr_version = wd_version definition,
       gr_graphDigest = buildGraphDigest sha256 definition,
       gr_entryNodeIds = js_sort localeCompare (wd_entryNodeIds definition),
       gr_topologicalOrder = topologicalOrder,
       gr_nodes = from_entries [] (map (derive_node edges (index_map topologicalOrder)) (wd_nodes definition)),
       gr_edges = from_entries [] (map (\<lambda>e. (ed_id e, e)) edges)\<rparr>)"

definition buildDerivedWorkflowGraph ::
  "(workflow_definition \<Rightarrow> zod_issue list + workflow_definition) \<Rightarrow> (workflow_graph \<Rightarrow> workflow_graph result)
   \<Rightarrow> (string \<Rightarrow> string) \<Rightarrow> workflow_definition \<Rightarrow> workflow_graph result" where
  "buildDerivedWorkflowGraph safeParse parseGraph sha256 definition =
     (case validateWorkflowDefinition safeParse definition of
        Invalid issues \<Rightarrow> Inl (JsError (join ''; '' (map vi_message issues)))
      | Valid order \<Rightarrow> parseGraph (derive_graph sha256 definition order))"

section \<open>What a derived graph is\<close>

text \<open>
  The contract of a derived graph, which traversal and the run state rely on: the node
  table describes the listed nodes, and its edge lists and the edge table agree.
\<close>

definition edge_ok :: "workflow_graph \<Rightarrow> string \<Rightarrow> edge_definition \<Rightarrow> bool" where
  "edge_ok g i e \<longleftrightarrow>
     ed_id e = i \<and> ed_from e \<in> set (obj_keys (gr_nodes g)) \<and> ed_to e \<in> set (obj_keys (gr_nodes g)) \<and>
     index_of (ed_from e) (gr_topologicalOrder g) < index_of (ed_to e) (gr_topologicalOrder g)"

definition node_ok :: "workflow_graph \<Rightarrow> string \<Rightarrow> derived_node \<Rightarrow> bool" where
  "node_ok g x n \<longleftrightarrow>
     nd_id (dn_definition n) = x \<and> dn_topologicalIndex n = index_of x (gr_topologicalOrder g) \<and>
     distinct (dn_inboundEdgeIds n) \<and> distinct (dn_outboundEdgeIds n) \<and>
     (\<forall>i. i \<in> set (dn_inboundEdgeIds n) \<longleftrightarrow> (\<exists>e. obj_get i (gr_edges g) = Some e \<and> ed_to e = x)) \<and>
     (\<forall>i. i \<in> set (dn_outboundEdgeIds n) \<longleftrightarrow> (\<exists>e. obj_get i (gr_edges g) = Some e \<and> ed_from e = x))"

definition graph_ok :: "workflow_graph \<Rightarrow> bool" where
  "graph_ok g \<longleftrightarrow>
     distinct (obj_keys (gr_nodes g)) \<and> distinct (obj_keys (gr_edges g)) \<and>
     distinct (gr_topologicalOrder g) \<and>
     set (gr_topologicalOrder g) = set (obj_keys (gr_nodes g)) \<and>
     set (gr_entryNodeIds g) \<subseteq> set (obj_keys (gr_nodes g)) \<and>
     (\<forall>i e. obj_get i (gr_edges g) = Some e \<longrightarrow> edge_ok g i e) \<and>
     (\<forall>x n. obj_get x (gr_nodes g) = Some n \<longrightarrow> node_ok g x n)"

lemma obj_get_index_map:
  assumes "distinct order" and "x \<in> set order"
  shows "obj_get x (index_map order) = Some (index_of x order)"
proof -
  have "index_map order = zip order [0..<length order]"
    unfolding index_map_def using assms(1)
    by (subst from_entries_distinct) (auto simp: obj_keys_def)
  moreover have "(x, index_of x order) \<in> set (zip order [0..<length order])"
    using assms(2) index_of_less nth_index_of by (force simp: set_zip)
  ultimately show ?thesis
    using assms(1) by (simp add: obj_get_def map_of_eq_Some_iff)
qed

lemma edge_table:
  assumes "distinct (map ed_id es)"
  shows "obj_get i (from_entries [] (map (\<lambda>e. (ed_id e, e)) es)) = Some e \<longleftrightarrow> e \<in> set es \<and> ed_id e = i"
    and "distinct (obj_keys (from_entries [] (map (\<lambda>e. (ed_id e, e)) es)))"
proof -
  have eq: "from_entries [] (map (\<lambda>e. (ed_id e, e)) es) = map (\<lambda>e. (ed_id e, e)) es"
    using assms by (subst from_entries_distinct) (auto simp: obj_keys_def comp_def)
  show "obj_get i (from_entries [] (map (\<lambda>e. (ed_id e, e)) es)) = Some e \<longleftrightarrow> e \<in> set es \<and> ed_id e = i"
    unfolding eq obj_get_def using assms by (subst map_of_eq_Some_iff) (auto simp: comp_def)
  show "distinct (obj_keys (from_entries [] (map (\<lambda>e. (ed_id e, e)) es)))"
    unfolding eq using assms by (simp add: obj_keys_def comp_def)
qed

lemma node_table:
  assumes "distinct (map nd_id ns)"
  shows "from_entries [] (map (derive_node es ix) ns) = map (derive_node es ix) ns"
  using assms by (subst from_entries_distinct) (auto simp: obj_keys_def comp_def derive_node_def)

lemma derive_graph_ok:
  assumes wi: "well_indexed d" and order: "distinct order" "set order = set (node_ids d)"
    and entries: "set (wd_entryNodeIds d) \<subseteq> set (node_ids d)"
    and before: "\<forall>e\<in>set (wd_edges d). index_of (ed_from e) order < index_of (ed_to e) order"
  shows "graph_ok (derive_graph sha256 d order)"
proof -
  let ?g = "derive_graph sha256 d order" and ?es = "sortEdges (wd_edges d)"
  have d: "distinct (map ed_id ?es)" and dn: "distinct (map nd_id (wd_nodes d))"
    using wi by (simp_all add: well_indexed_def node_ids_def sortEdges_def)
  have nodes: "gr_nodes ?g = map (derive_node ?es (index_map order)) (wd_nodes d)"
    by (simp add: derive_graph_def Let_def node_table [OF dn])
  have edges: "obj_get i (gr_edges ?g) = Some e \<longleftrightarrow> e \<in> set (wd_edges d) \<and> ed_id e = i" for i e
    using edge_table(1) [OF d] by (simp add: derive_graph_def Let_def)
  have keys: "obj_keys (gr_nodes ?g) = node_ids d"
    by (simp add: nodes obj_keys_def node_ids_def comp_def derive_node_def)
  have node: "\<exists>m\<in>set (wd_nodes d). nd_id m = x \<and> n = snd (derive_node ?es (index_map order) m)"
    if "obj_get x (gr_nodes ?g) = Some n" for x n
    using map_of_SomeD [OF that [unfolded obj_get_def]] by (force simp: nodes derive_node_def)
  have sub: "distinct (map ed_id (filter P ?es))" for P
    using d by (rule distinct_map_filter)
  have top: "gr_topologicalOrder ?g = order" "gr_entryNodeIds ?g = js_sort localeCompare (wd_entryNodeIds d)"
    by (simp_all add: derive_graph_def Let_def)
  have "node_ok ?g x n"
    if n: "obj_get x (gr_nodes ?g) = Some n" for x n
  proof -
    obtain m where m: "m \<in> set (wd_nodes d)" "nd_id m = x" "n = snd (derive_node ?es (index_map order) m)"
      using node [OF n] by blast
    then have "x \<in> set order" using order(2) by (auto simp: node_ids_def)
    then show ?thesis
      using m obj_get_index_map [OF order(1)] sub by (auto simp: derive_node_def edges node_ok_def top)
  qed
  moreover have "edge_ok ?g i e" if "obj_get i (gr_edges ?g) = Some e" for i e
    using that wi before by (auto simp: edge_ok_def edges keys top well_indexed_def)
  moreover have "distinct (obj_keys (gr_edges ?g))"
    using edge_table(2) [OF d] by (simp add: derive_graph_def Let_def)
  ultimately show ?thesis
    using wi order entries by (simp add: graph_ok_def keys top well_indexed_def)
qed

section \<open>Properties\<close>

lemma build_InrD:
  assumes "schema_parser parseGraph"
    and "buildDerivedWorkflowGraph safeParse parseGraph sha256 d = Inr g"
  obtains order where "validateWorkflowDefinition safeParse d = Valid order"
    and "g = derive_graph sha256 d order"
  using assms schema_parser.parse_id [OF assms(1)]
  by (auto simp: buildDerivedWorkflowGraph_def split: validation_result.splits)

lemma build_graph_ok:
  assumes "schema_parser safeParse" and "schema_parser parseGraph" and "distinct (wd_entryNodeIds d)"
    and "buildDerivedWorkflowGraph safeParse parseGraph sha256 d = Inr g"
  shows "graph_ok g"
proof -
  obtain order where v: "validateWorkflowDefinition safeParse d = Valid order"
    and g: "g = derive_graph sha256 d order"
    using build_InrD [OF assms(2,4)] by blast
  note facts = valid_order_facts [OF assms(1,3) v]
  have entries: "set (wd_entryNodeIds d) \<subseteq> set (node_ids d)"
    using entries_are_roots [OF validate_ValidD(1) [OF assms(1) v]] by blast
  show ?thesis
    unfolding g by (rule derive_graph_ok [OF facts(4,1,2) entries valid_order_edges(1) [OF assms(1,3) v]])
qed

text \<open>A derived graph is coherent with the definition it comes from: its node table, edge
  table, inbound and outbound edge lists and topological indices agree with one another, and
  every edge runs from a smaller to a larger topological index.\<close>

theorem derived_graph_coherent:
  assumes "schema_parser safeParse" and "schema_parser parseGraph" and "distinct (wd_entryNodeIds d)"
    and "buildDerivedWorkflowGraph safeParse parseGraph sha256 d = Inr g"
  shows "graph_ok g \<and> set (obj_keys (gr_nodes g)) = nd_id ` set (wd_nodes d) \<and>
    set (obj_values (gr_edges g)) = set (wd_edges d)"
proof -
  obtain order where v: "validateWorkflowDefinition safeParse d = Valid order"
    and g: "g = derive_graph sha256 d order"
    using build_InrD [OF assms(2,4)] by blast
  note facts = valid_order_facts [OF assms(1,3) v]
  have "graph_ok g" by (rule build_graph_ok [OF assms])
  moreover have "distinct (map nd_id (wd_nodes d))" and de: "distinct (map ed_id (sortEdges (wd_edges d)))"
    using facts(4) by (simp_all add: well_indexed_def node_ids_def sortEdges_def)
  then have "obj_keys (gr_nodes g) = node_ids d"
    by (simp add: g derive_graph_def Let_def node_table obj_keys_def node_ids_def comp_def derive_node_def)
  moreover have "set (obj_values (gr_edges g)) = set (wd_edges d)"
    using de by (simp add: g derive_graph_def Let_def obj_values_def from_entries_distinct obj_keys_def comp_def)
  ultimately show ?thesis by (simp add: node_ids_def)
qed

text \<open>A parser of derived graphs that checks the version and the topological indices.\<close>

definition parse_graph :: "workflow_graph \<Rightarrow> workflow_graph result" where
  "parse_graph g = (if gr_version g \<noteq> [] \<and> gr_entryNodeIds g \<noteq> [] then Inr g else Inl ZodError)"

interpretation graph_schema: schema_parser parse_graph
  by unfold_locales (auto simp: parse_graph_def split: if_splits)

definition diamond_graph :: workflow_graph where
  "diamond_graph = derive_graph (\<lambda>t. ''digest'') diamond [''a'', ''b'', ''c'', ''d'']"

text \<open>Its fields written out; evaluation starts from these.\<close>

lemma diamond_graph_code [code]:
  "diamond_graph = \<lparr>gr_workflowDefinitionId = ''wf'', gr_projectId = ''p'', gr_version = ''1'',
     gr_graphDigest = ''digest'', gr_entryNodeIds = [''a''],
     gr_topologicalOrder = [''a'', ''b'', ''c'', ''d''],
     gr_nodes =
       [(''a'', \<lparr>dn_definition = transform_node ''a'', dn_inboundEdgeIds = [], dn_outboundEdgeIds = [''1'', ''2''], dn_topologicalIndex = 0\<rparr>),
        (''b'', \<lparr>dn_definition = transform_node ''b'', dn_inboundEdgeIds = [''1''], dn_outboundEdgeIds = [''3''], dn_topologicalIndex = 1\<rparr>),
        (''c'', \<lparr>dn_definition = transform_node ''c'', dn_inboundEdgeIds = [''2''], dn_outboundEdgeIds = [''4''], dn_topologicalIndex = 2\<rparr>),
        (''d'', \<lparr>dn_definition = transform_node ''d'', dn_inboundEdgeIds = [''3'', ''4''], dn_outboundEdgeIds = [], dn_topologicalIndex = 3\<rparr>)],
     gr_edges =
       [(''1'', mk_edge ''1'' ''a'' ''b''), (''2'', mk_edge ''2'' ''a'' ''c''),
        (''3'', mk_edge ''3'' ''b'' ''d''), (''4'', mk_edge ''4'' ''c'' ''d'')]\<rparr>"
proof -
  have "sortEdges (wd_edges diamond) =
      [mk_edge ''1'' ''a'' ''b'', mk_edge ''2'' ''a'' ''c'', mk_edge ''3'' ''b'' ''d'', mk_edge ''4'' ''c'' ''d'']"
    by code_simp
  then show ?thesis
    by (simp add: diamond_graph_def derive_graph_def Let_def buildGraphDigest_def diamond_def mk_definition_def
        derive_node_def index_map_def mk_edge_def transform_node_def mk_node_def compareEdgeIds_def
        localeCompare_def collation_key_def) code_simp?
qed

lemma diamond_build:
  "buildDerivedWorkflowGraph parse_definition parse_graph (\<lambda>t. ''digest'') diamond = Inr diamond_graph"
proof -
  have "gr_version diamond_graph = wd_version diamond" "gr_entryNodeIds diamond_graph = js_sort localeCompare (wd_entryNodeIds diamond)"
    by (simp_all add: diamond_graph_def derive_graph_def Let_def)
  then have "parse_graph diamond_graph = Inr diamond_graph"
    by (simp add: parse_graph_def diamond_def mk_definition_def)
  then show ?thesis
    by (simp add: buildDerivedWorkflowGraph_def diamond_valid diamond_graph_def)
qed

lemma diamond_graph_ok: "graph_ok diamond_graph"
  using build_graph_ok [OF definition_schema.schema_parser_axioms graph_schema.schema_parser_axioms _ diamond_build]
  by (simp add: diamond_def mk_definition_def)

theorem derived_graph_coherent_witness:
  "graph_ok diamond_graph \<and> set (obj_keys (gr_nodes diamond_graph)) = nd_id ` set (wd_nodes diamond)"
  using derived_graph_coherent
    [OF definition_schema.schema_parser_axioms graph_schema.schema_parser_axioms _ diamond_build]
  by (simp add: diamond_def mk_definition_def)

definition same_header :: "workflow_definition \<Rightarrow> workflow_definition \<Rightarrow> bool" where
  "same_header d d' \<longleftrightarrow> wd_id d = wd_id d' \<and> wd_projectId d = wd_projectId d' \<and> wd_mode d = wd_mode d' \<and>
     wd_version d = wd_version d' \<and> wd_name d = wd_name d'"

text \<open>The digest does not depend on the order in which a definition lists its nodes, edges and
  entry nodes (nor on its YAML text, which it does not cover).\<close>

theorem digest_order_independent:
  assumes "distinct (map nd_id (wd_nodes d))" and "distinct (map ed_id (wd_edges d))"
    and "same_graph d d'" and "same_header d d'"
  shows "buildGraphDigest sha256 d = buildGraphDigest sha256 d'"
proof -
  have "js_sort localeCompare (wd_entryNodeIds d) = js_sort localeCompare (wd_entryNodeIds d')"
    using assms(3) by (intro js_sort_localeCompare_cong) (simp add: same_graph_def)
  moreover have "x = y" if "x \<in> set (wd_nodes d)" "y \<in> set (wd_nodes d)" "compareNodes x y \<le> 0" "compareNodes y x \<le> 0" for x y
    using that assms(1) localeCompare_antisym by (auto simp: compareNodes_def distinct_map inj_on_def)
  then have "js_sort compareNodes (wd_nodes d) = js_sort compareNodes (wd_nodes d')"
    using assms(3) by (intro node_cmp.js_sort_cong_mset) (auto simp: same_graph_def)
  moreover have "sortEdges (wd_edges d) = sortEdges (wd_edges d')"
    using assms(2,3) by (intro sortEdges_cong) (auto simp: same_graph_def)
  ultimately show ?thesis
    using assms(4) by (simp add: buildGraphDigest_def normalizedDefinition_def same_header_def)
qed

theorem digest_order_independent_witness:
  "buildGraphDigest (\<lambda>t. t) diamond = buildGraphDigest (\<lambda>t. t) diamond_shuffled"
proof (rule digest_order_independent)
  show "distinct (map nd_id (wd_nodes diamond))" "distinct (map ed_id (wd_edges diamond))"
    "same_header diamond diamond_shuffled"
    by code_simp+
  show "same_graph diamond diamond_shuffled"
    by (simp add: same_graph_def diamond_def diamond_shuffled_def mk_definition_def)
qed

end
