(* ===== verification/Admission.thy ===== *)
theory Admission
  imports Workflow_Types
begin

text \<open>
  \<open>evaluateWorkflowAdmission\<close> of \<open>self/subcortex/workflows/src/admission.ts\<close>, with the
  regular expression of \<open>WorkmodeIdSchema\<close> (\<open>shared/src/types/workmode.ts\<close>) as a
  predicate on strings. \<open>AUTHORITY_ORDER\<close> is the linear order on the authority actors.
\<close>

section \<open>Authority\<close>

fun AUTHORITY_ORDER :: "authority_actor \<Rightarrow> nat" where
  "AUTHORITY_ORDER NousCortex = 2"
| "AUTHORITY_ORDER OrchestrationAgent = 1"
| "AUTHORITY_ORDER WorkerAgent = 0"

lemma AUTHORITY_ORDER_inj: "AUTHORITY_ORDER a = AUTHORITY_ORDER b \<longleftrightarrow> a = b"
  by (cases a; cases b) auto

instantiation authority_actor :: linorder
begin

definition less_eq_authority_actor :: "authority_actor \<Rightarrow> authority_actor \<Rightarrow> bool" where
  "a \<le> b \<longleftrightarrow> AUTHORITY_ORDER a \<le> AUTHORITY_ORDER b"

definition less_authority_actor :: "authority_actor \<Rightarrow> authority_actor \<Rightarrow> bool" where
  "a < b \<longleftrightarrow> AUTHORITY_ORDER a < AUTHORITY_ORDER b"

instance
  by standard (auto simp: less_eq_authority_actor_def less_authority_actor_def AUTHORITY_ORDER_inj
      dest: order_antisym)

end

section \<open>Workmode identifiers\<close>

definition char_between :: "char \<Rightarrow> char \<Rightarrow> char \<Rightarrow> bool" where
  "char_between lo hi c \<longleftrightarrow> (of_char lo :: nat) \<le> of_char c \<and> (of_char c :: nat) \<le> of_char hi"

definition is_word_char :: "char \<Rightarrow> bool" where
  \<comment> \<open>\<open>[a-z_]\<close>\<close>
  "is_word_char c \<longleftrightarrow> char_between CHR ''a'' CHR ''z'' c \<or> c = CHR ''_''"

definition is_skill_char :: "char \<Rightarrow> bool" where
  \<comment> \<open>\<open>[a-z0-9-]\<close>\<close>
  "is_skill_char c \<longleftrightarrow> char_between CHR ''a'' CHR ''z'' c \<or> char_between CHR ''0'' CHR ''9'' c \<or> c = CHR ''-''"

definition is_word :: "string \<Rightarrow> bool" where
  \<comment> \<open>\<open>[a-z_]+\<close>\<close>
  "is_word s \<longleftrightarrow> s \<noteq> [] \<and> list_all is_word_char s"

definition is_skill_path :: "string \<Rightarrow> bool" where
  \<comment> \<open>\<open>[a-z0-9-]+:[a-z_]+\<close>: no skill character is a colon, so the first colon splits\<close>
  "is_skill_path s \<longleftrightarrow>
     (let skill = takeWhile is_skill_char s; rest = dropWhile is_skill_char s
      in skill \<noteq> [] \<and> rest \<noteq> [] \<and> hd rest = CHR '':'' \<and> is_word (tl rest))"

definition workmode_id_ok :: "string \<Rightarrow> bool" where
  "workmode_id_ok s \<longleftrightarrow>
     (startsWith ''system:'' s \<and> is_word (drop 7 s)) \<or>
     (startsWith ''skill:'' s \<and> is_skill_path (drop 6 s))"

section \<open>The decision\<close>

definition blocked_result :: "string \<Rightarrow> string \<Rightarrow> admission_result" where
  "blocked_result code ref =
     \<lparr>ad_allowed = False, ad_reasonCode = code, ad_evidenceRefs = [ref], ad_policyRef = None\<rparr>"

definition evaluateWorkflowAdmission :: "admission_request \<Rightarrow> admission_result" where
  "evaluateWorkflowAdmission request =
     (let targetActor = getOr (ar_targetActor request) WorkerAgent;
          source = ar_sourceActor request;
          actors = ''source='' @ authority_actor_text source @ '' target='' @ authority_actor_text targetActor
      in
      if \<not> workmode_id_ok (ar_workmodeId request) then
        blocked_result ''WMODE-001'' (''workmode_id='' @ ar_workmodeId request)
      else if source = WorkerAgent then
        blocked_result ''WMODE-010'' (''worker cannot start workflow runs; '' @ actors)
      else if source = OrchestrationAgent \<and> targetActor = OrchestrationAgent then
        blocked_result ''WMODE-003'' ''nested orchestration forbidden''
      else if AUTHORITY_ORDER source \<le> AUTHORITY_ORDER targetActor then
        blocked_result ''WMODE-002'' (''authority widening blocked; '' @ actors)
      else case ar_controlState request of
        None \<Rightarrow> blocked_result ''POL-CONTROL-STATE-BLOCKED'' ''control_state=undefined''
      | Some CtlHardStopped \<Rightarrow> blocked_result ''POL-CONTROL-STATE-BLOCKED'' ''control_state=hard_stopped''
      | Some CtlPausedReview \<Rightarrow> blocked_result ''POL-PAUSED-BLOCKED'' ''control_state=paused_review''
      | Some CtlResuming \<Rightarrow> blocked_result ''OPCTL-INVALID-STATE'' ''control_state=resuming''
      | Some CtlRunning \<Rightarrow>
          \<lparr>ad_allowed = True, ad_reasonCode = ''workflow_admitted'',
           ad_evidenceRefs =
             [''project_id='' @ ar_projectId request,
              ''workflow_definition_id='' @ ar_workflowDefinitionId request,
              ''workmode_id='' @ ar_workmodeId request],
           ad_policyRef = Some (''workmode:'' @ ar_workmodeId request)\<rparr>)"

section \<open>Properties\<close>

text \<open>A run is admitted exactly when the workmode identifier is well formed, the source
  actor outranks the target actor (a missing target counts as a worker) and the project's
  control state is running; so a worker never starts a run, and an orchestrator starts one
  only for a worker.\<close>

theorem admission_iff:
  "ad_allowed (evaluateWorkflowAdmission r) \<longleftrightarrow>
     workmode_id_ok (ar_workmodeId r) \<and>
     getOr (ar_targetActor r) WorkerAgent < ar_sourceActor r \<and>
     ar_controlState r = Some CtlRunning"
  by (cases "ar_sourceActor r"; cases "getOr (ar_targetActor r) WorkerAgent")
    (auto simp: evaluateWorkflowAdmission_def blocked_result_def Let_def less_authority_actor_def
      split: option.splits control_state.splits)

text \<open>Every refusal carries a reason code, one piece of evidence and no policy; every
  admission carries the policy of its workmode. A widening of authority is reported before
  the control state is looked at.\<close>

theorem admission_result_shape:
  "(let a = evaluateWorkflowAdmission r in
     ad_reasonCode a \<noteq> [] \<and> ad_evidenceRefs a \<noteq> [] \<and>
     (ad_policyRef a = (if ad_allowed a then Some (''workmode:'' @ ar_workmodeId r) else None)) \<and>
     (ad_reasonCode a \<in> {''POL-CONTROL-STATE-BLOCKED'', ''POL-PAUSED-BLOCKED'', ''OPCTL-INVALID-STATE'', ''workflow_admitted''}
        \<longleftrightarrow> workmode_id_ok (ar_workmodeId r) \<and> getOr (ar_targetActor r) WorkerAgent < ar_sourceActor r))"
  by (cases "ar_sourceActor r"; cases "getOr (ar_targetActor r) WorkerAgent")
    (auto simp: evaluateWorkflowAdmission_def blocked_result_def Let_def less_authority_actor_def
      split: option.splits control_state.splits)

end
