(* ===== verification/Traversal.thy ===== *)
theory Traversal
  imports Graph_Builder
begin

text \<open>
  \<open>self/subcortex/workflows/src/traversal.ts\<close>: which nodes are ready, given the completed
  nodes and the activated edges. A lookup \<open>graph.nodes[id]\<close> that finds nothing is
  \<open>None\<close>, and \<open>?.\<close> passes it on. \<open>outbound_in\<close> and \<open>inbound_in\<close> are the lists
  \<open>graph.nodes[id]?.outboundEdgeIds ?? []\<close> of the code.
\<close>

definition MAX_SAFE_INTEGER :: int where
  "MAX_SAFE_INTEGER = 9007199254740991"

definition topology_index :: "workflow_graph \<Rightarrow> string \<Rightarrow> int" where
  "topology_index graph nodeId =
     (case obj_get nodeId (gr_nodes graph) of
        None \<Rightarrow> MAX_SAFE_INTEGER
      | Some n \<Rightarrow> int (dn_topologicalIndex n))"

definition compareByTopology :: "workflow_graph \<Rightarrow> string \<Rightarrow> string \<Rightarrow> int" where
  "compareByTopology graph left right =
     js_or (topology_index graph left - topology_index graph right) (localeCompare left right)"

text \<open>For evaluation: the second key is computed only where the first one ties.\<close>

lemma compareByTopology_code [code]:
  "compareByTopology graph left right =
     (let d = topology_index graph left - topology_index graph right
      in if d = 0 then localeCompare left right else d)"
  by (simp add: compareByTopology_def js_or_def Let_def)

definition sortNodeIdsByTopology :: "workflow_graph \<Rightarrow> string list \<Rightarrow> string list" where
  "sortNodeIdsByTopology graph nodeIds = js_sort (compareByTopology graph) (uniq nodeIds)"

definition getInitialReadyNodeIds :: "workflow_graph \<Rightarrow> string list" where
  "getInitialReadyNodeIds graph = sortNodeIdsByTopology graph (gr_entryNodeIds graph)"

definition outbound_in :: "workflow_graph \<Rightarrow> string \<Rightarrow> string list" where
  "outbound_in graph nodeId =
     (case obj_get nodeId (gr_nodes graph) of None \<Rightarrow> [] | Some n \<Rightarrow> dn_outboundEdgeIds n)"

definition inbound_in :: "workflow_graph \<Rightarrow> string \<Rightarrow> string list" where
  "inbound_in graph nodeId =
     (case obj_get nodeId (gr_nodes graph) of None \<Rightarrow> [] | Some n \<Rightarrow> dn_inboundEdgeIds n)"

definition outbound_edges :: "workflow_graph \<Rightarrow> string \<Rightarrow> edge_definition list" where
  "outbound_edges graph nodeId =
     sortEdges (List.map_filter (\<lambda>edgeId. obj_get edgeId (gr_edges graph)) (outbound_in graph nodeId))"

definition getActivatedOutboundEdgeIds ::
  "workflow_graph \<Rightarrow> string \<Rightarrow> string option \<Rightarrow> node_kind option \<Rightarrow> string list" where
  "getActivatedOutboundEdgeIds graph fromNodeId selectedBranchKey nodeType =
     (let outboundEdges = outbound_edges graph fromNodeId in
      if nodeType = Some KParallelSplit \<and> \<not> truthy selectedBranchKey then map ed_id outboundEdges
      else if truthy selectedBranchKey then
        map ed_id (filter (\<lambda>edge. ed_branchKey edge = None \<or> ed_branchKey edge = selectedBranchKey) outboundEdges)
      else map ed_id (filter (\<lambda>edge. ed_branchKey edge = None) outboundEdges))"

definition edge_source_in :: "workflow_graph \<Rightarrow> string list \<Rightarrow> string \<Rightarrow> bool" where
  \<comment> \<open>\<open>completed.has(graph.edges[edgeId]?.from)\<close>\<close>
  "edge_source_in graph completed edgeId =
     (case obj_get edgeId (gr_edges graph) of None \<Rightarrow> False | Some e \<Rightarrow> ed_from e \<in> set completed)"

definition is_join :: "workflow_graph \<Rightarrow> string \<Rightarrow> bool" where
  "is_join graph nodeId =
     (case obj_get nodeId (gr_nodes graph) of
        None \<Rightarrow> False
      | Some n \<Rightarrow> nd_type (dn_definition n) = KParallelJoin)"

definition candidate_ready :: "workflow_graph \<Rightarrow> string list \<Rightarrow> string list \<Rightarrow> string option \<Rightarrow> bool" where
  "candidate_ready graph completed activatedEdges candidate =
     (case candidate of
        None \<Rightarrow> False
      | Some candidateNodeId \<Rightarrow>
          if candidateNodeId = [] \<or> candidateNodeId \<in> set completed then False
          else
            (let activatedInboundEdgeIds =
               filter (\<lambda>edgeId. edgeId \<in> set activatedEdges) (inbound_in graph candidateNodeId)
             in if activatedInboundEdgeIds = [] then False
                else if is_join graph candidateNodeId then
                  list_ex (edge_source_in graph completed) activatedInboundEdgeIds
                else list_all (edge_source_in graph completed) activatedInboundEdgeIds))"

definition next_candidates :: "workflow_graph \<Rightarrow> string list \<Rightarrow> string list \<Rightarrow> string option \<Rightarrow> string option list" where
  "next_candidates graph completed activatedEdges fromNodeId =
     (case fromNodeId of
        None \<Rightarrow> map Some (filter (\<lambda>nodeId. nodeId \<notin> set completed) (gr_topologicalOrder graph))
      | Some from \<Rightarrow>
          map (\<lambda>edgeId. map_option ed_to (obj_get edgeId (gr_edges graph)))
            (filter (\<lambda>edgeId. edgeId \<in> set activatedEdges) (outbound_in graph from)))"

definition getNextReadyNodeIds ::
  "workflow_graph \<Rightarrow> string list \<Rightarrow> string list \<Rightarrow> string option \<Rightarrow> string list" where
  "getNextReadyNodeIds graph completedNodeIds activatedEdgeIds fromNodeId =
     sortNodeIdsByTopology graph
       (List.map_filter id
         (filter (candidate_ready graph completedNodeIds activatedEdgeIds)
           (next_candidates graph completedNodeIds activatedEdgeIds fromNodeId)))"

section \<open>Correctness\<close>

interpretation topology_cmp: js_comparator "compareByTopology g"
  by (rule js_comparator_by_key [of _ "\<lambda>x. (topology_index g x, collation_key x)"])
    (simp add: compareByTopology_def localeCompare_le js_or_le_key)

lemma compareByTopology_antisym: "compareByTopology g x y \<le> 0 \<Longrightarrow> compareByTopology g y x \<le> 0 \<Longrightarrow> x = y"
  by (auto simp: compareByTopology_def js_or_def intro: localeCompare_antisym split: if_splits)

lemma set_sortNodeIdsByTopology [simp]: "set (sortNodeIdsByTopology g xs) = set xs"
  by (simp add: sortNodeIdsByTopology_def)

lemma distinct_sortNodeIdsByTopology [simp]: "distinct (sortNodeIdsByTopology g xs)"
  by (simp add: sortNodeIdsByTopology_def)

text \<open>The result depends only on which nodes are given, not on their order or repetition.\<close>

lemma sortNodeIdsByTopology_cong:
  assumes "set xs = set ys"
  shows "sortNodeIdsByTopology g xs = sortNodeIdsByTopology g ys"
proof -
  have "mset (uniq xs) = mset (uniq ys)"
    using assms by (simp add: set_eq_iff_mset_eq_distinct [symmetric])
  then show ?thesis
    unfolding sortNodeIdsByTopology_def
    by (rule topology_cmp.js_sort_cong_mset) (rule compareByTopology_antisym)
qed

lemma sorted_by_index:
  "sorted_wrt (\<lambda>x y. topology_index g x \<le> topology_index g y) (sortNodeIdsByTopology g xs)"
  unfolding sortNodeIdsByTopology_def
  by (rule sorted_wrt_mono_rel [OF _ topology_cmp.sorted_js_sort])
    (auto simp: compareByTopology_def js_or_def split: if_splits)

lemma graph_nodeD:
  assumes "graph_ok g" and "obj_get x (gr_nodes g) = Some n"
  shows "nd_id (dn_definition n) = x" and "dn_topologicalIndex n = index_of x (gr_topologicalOrder g)"
    and "distinct (dn_inboundEdgeIds n)" and "distinct (dn_outboundEdgeIds n)"
    and "i \<in> set (dn_inboundEdgeIds n) \<longleftrightarrow> (\<exists>e. obj_get i (gr_edges g) = Some e \<and> ed_to e = x)"
    and "i \<in> set (dn_outboundEdgeIds n) \<longleftrightarrow> (\<exists>e. obj_get i (gr_edges g) = Some e \<and> ed_from e = x)"
proof -
  have "node_ok g x n" using assms by (simp add: graph_ok_def)
  then show "nd_id (dn_definition n) = x" "dn_topologicalIndex n = index_of x (gr_topologicalOrder g)"
    "distinct (dn_inboundEdgeIds n)" "distinct (dn_outboundEdgeIds n)"
    "i \<in> set (dn_inboundEdgeIds n) \<longleftrightarrow> (\<exists>e. obj_get i (gr_edges g) = Some e \<and> ed_to e = x)"
    "i \<in> set (dn_outboundEdgeIds n) \<longleftrightarrow> (\<exists>e. obj_get i (gr_edges g) = Some e \<and> ed_from e = x)"
    by (simp_all add: node_ok_def)
qed

lemma graph_edgeD:
  assumes "graph_ok g" and "obj_get i (gr_edges g) = Some e"
  shows "ed_id e = i" and "ed_from e \<in> set (obj_keys (gr_nodes g))" and "ed_to e \<in> set (obj_keys (gr_nodes g))"
    and "index_of (ed_from e) (gr_topologicalOrder g) < index_of (ed_to e) (gr_topologicalOrder g)"
proof -
  have "edge_ok g i e" using assms by (simp add: graph_ok_def)
  then show "ed_id e = i" "ed_from e \<in> set (obj_keys (gr_nodes g))" "ed_to e \<in> set (obj_keys (gr_nodes g))"
    "index_of (ed_from e) (gr_topologicalOrder g) < index_of (ed_to e) (gr_topologicalOrder g)"
    by (simp_all add: edge_ok_def)
qed

lemma outbound_in_iff:
  assumes "graph_ok g"
  shows "i \<in> set (outbound_in g x) \<longleftrightarrow> (\<exists>e. obj_get i (gr_edges g) = Some e \<and> ed_from e = x)"
proof (cases "obj_get x (gr_nodes g)")
  case None
  then have "x \<notin> set (obj_keys (gr_nodes g))" by (simp add: obj_get_None_iff)
  then have "\<not> (\<exists>e. obj_get i (gr_edges g) = Some e \<and> ed_from e = x)"
    using graph_edgeD(2) [OF assms] by metis
  with None show ?thesis by (simp add: outbound_in_def)
next
  case (Some n)
  then show ?thesis using graph_nodeD(6) [OF assms Some] by (simp add: outbound_in_def)
qed

lemma inbound_in_iff:
  assumes "graph_ok g"
  shows "i \<in> set (inbound_in g x) \<longleftrightarrow> (\<exists>e. obj_get i (gr_edges g) = Some e \<and> ed_to e = x)"
proof (cases "obj_get x (gr_nodes g)")
  case None
  then have "x \<notin> set (obj_keys (gr_nodes g))" by (simp add: obj_get_None_iff)
  then have "\<not> (\<exists>e. obj_get i (gr_edges g) = Some e \<and> ed_to e = x)"
    using graph_edgeD(3) [OF assms] by metis
  with None show ?thesis by (simp add: inbound_in_def)
next
  case (Some n)
  then show ?thesis using graph_nodeD(5) [OF assms Some] by (simp add: inbound_in_def)
qed

lemma set_map_filter: "set (List.map_filter f xs) = {y. \<exists>x\<in>set xs. f x = Some y}"
  by (force simp: List.map_filter_def)

lemma set_outbound_edges:
  "graph_ok g \<Longrightarrow> set (outbound_edges g x) = {e. obj_get (ed_id e) (gr_edges g) = Some e \<and> ed_from e = x}"
  using graph_edgeD(1) by (fastforce simp: outbound_edges_def set_map_filter outbound_in_iff)

text \<open>What it means for a node to be ready, without the traversal.\<close>

definition ready_spec :: "workflow_graph \<Rightarrow> string set \<Rightarrow> string set \<Rightarrow> string \<Rightarrow> bool" where
  "ready_spec g C A y \<longleftrightarrow>
     y \<notin> C \<and>
     (\<exists>i e. i \<in> A \<and> obj_get i (gr_edges g) = Some e \<and> ed_to e = y) \<and>
     (if is_join g y then \<exists>i e. i \<in> A \<and> obj_get i (gr_edges g) = Some e \<and> ed_to e = y \<and> ed_from e \<in> C
      else \<forall>i e. i \<in> A \<longrightarrow> obj_get i (gr_edges g) = Some e \<longrightarrow> ed_to e = y \<longrightarrow> ed_from e \<in> C)"

lemma candidate_ready_iff:
  assumes "graph_ok g"
  shows "candidate_ready g completed activated c \<longleftrightarrow>
    (\<exists>y. c = Some y \<and> y \<noteq> [] \<and> ready_spec g (set completed) (set activated) y)"
proof (cases c)
  case None
  then show ?thesis by (simp add: candidate_ready_def)
next
  case (Some y)
  let ?act = "filter (\<lambda>i. i \<in> set activated) (inbound_in g y)"
  have act: "i \<in> set ?act \<longleftrightarrow> i \<in> set activated \<and> (\<exists>e. obj_get i (gr_edges g) = Some e \<and> ed_to e = y)" for i
    using inbound_in_iff [OF assms] by auto
  have ne: "?act = [] \<longleftrightarrow> \<not> (\<exists>i e. i \<in> set activated \<and> obj_get i (gr_edges g) = Some e \<and> ed_to e = y)"
    using act by (metis empty_iff empty_set last_in_set)
  have all: "list_all (edge_source_in g completed) ?act \<longleftrightarrow>
      (\<forall>i e. i \<in> set activated \<longrightarrow> obj_get i (gr_edges g) = Some e \<longrightarrow> ed_to e = y \<longrightarrow> ed_from e \<in> set completed)"
    unfolding list_all_iff using act by (auto simp: edge_source_in_def split: option.splits)
  have ex: "list_ex (edge_source_in g completed) ?act \<longleftrightarrow>
      (\<exists>i e. i \<in> set activated \<and> obj_get i (gr_edges g) = Some e \<and> ed_to e = y \<and> ed_from e \<in> set completed)"
    unfolding list_ex_iff using act by (fastforce simp: edge_source_in_def split: option.splits)
  show ?thesis
    unfolding candidate_ready_def Let_def Some option.case all ex ne ready_spec_def by auto
qed

lemma set_next_candidates:
  assumes "graph_ok g"
  shows "Some y \<in> set (next_candidates g completed activated src) \<longleftrightarrow>
    (case src of
       None \<Rightarrow> y \<in> set (obj_keys (gr_nodes g)) - set completed
     | Some x \<Rightarrow> \<exists>i e. i \<in> set activated \<and> obj_get i (gr_edges g) = Some e \<and> ed_from e = x \<and> ed_to e = y)"
proof (cases src)
  case None
  then show ?thesis using assms by (auto simp: next_candidates_def graph_ok_def)
next
  case (Some x)
  then show ?thesis
    by (fastforce simp: next_candidates_def image_iff outbound_in_iff [OF assms] map_option_case split: option.splits)
qed

lemma set_getNextReadyNodeIds:
  "y \<in> set (getNextReadyNodeIds g completed activated from) \<longleftrightarrow>
     candidate_ready g completed activated (Some y) \<and> Some y \<in> set (next_candidates g completed activated from)"
  by (auto simp: getNextReadyNodeIds_def set_map_filter)

section \<open>Properties\<close>

text \<open>The ready nodes reported after a change are, in topological order and once each,
  exactly the uncompleted nodes with an activated inbound edge whose activated sources are
  all completed (for a parallel join: at least one of them). With a node given, only its
  successors along activated edges are looked at.\<close>

theorem next_ready_correct:
  fixes completed activated :: "string list" and src :: "string option"
  assumes "graph_ok g" and "[] \<notin> set (obj_keys (gr_nodes g))"
  defines "r \<equiv> getNextReadyNodeIds g completed activated src"
  shows "set r = {y. ready_spec g (set completed) (set activated) y \<and>
           (case src of None \<Rightarrow> True | Some x \<Rightarrow>
              \<exists>e. ed_id e \<in> set activated \<and> obj_get (ed_id e) (gr_edges g) = Some e \<and> ed_from e = x \<and> ed_to e = y)}
    \<and> distinct r \<and> sorted_wrt (\<lambda>x y. index_of x (gr_topologicalOrder g) \<le> index_of y (gr_topologicalOrder g)) r"
proof -
  have known: "y \<in> set (obj_keys (gr_nodes g)) - set completed"
    if "ready_spec g (set completed) (set activated) y" for y
    using that graph_edgeD(3) [OF assms(1)] by (auto simp: ready_spec_def)
  have "y \<in> set r \<longleftrightarrow> ready_spec g (set completed) (set activated) y \<and>
           (case src of None \<Rightarrow> True | Some x \<Rightarrow>
              \<exists>e. ed_id e \<in> set activated \<and> obj_get (ed_id e) (gr_edges g) = Some e \<and> ed_from e = x \<and> ed_to e = y)" for y
  proof -
    have "y \<in> set r \<longleftrightarrow> ready_spec g (set completed) (set activated) y \<and>
        Some y \<in> set (next_candidates g completed activated src)"
      unfolding r_def set_getNextReadyNodeIds candidate_ready_iff [OF assms(1)]
      using known [of y] assms(2) by auto
    also have "\<dots> \<longleftrightarrow> ready_spec g (set completed) (set activated) y \<and>
           (case src of None \<Rightarrow> True | Some x \<Rightarrow>
              \<exists>e. ed_id e \<in> set activated \<and> obj_get (ed_id e) (gr_edges g) = Some e \<and> ed_from e = x \<and> ed_to e = y)"
    proof (cases src)
      case None
      then show ?thesis using known [of y] by (auto simp: set_next_candidates [OF assms(1)])
    next
      case (Some x)
      have "(\<exists>i e. i \<in> set activated \<and> obj_get i (gr_edges g) = Some e \<and> ed_from e = x \<and> ed_to e = y) \<longleftrightarrow>
        (\<exists>e. ed_id e \<in> set activated \<and> obj_get (ed_id e) (gr_edges g) = Some e \<and> ed_from e = x \<and> ed_to e = y)"
        using graph_edgeD(1) [OF assms(1)] by metis
      then show ?thesis using Some by (simp add: set_next_candidates [OF assms(1)])
    qed
    finally show ?thesis .
  qed
  then have sets: "set r = {y. ready_spec g (set completed) (set activated) y \<and>
           (case src of None \<Rightarrow> True | Some x \<Rightarrow>
              \<exists>e. ed_id e \<in> set activated \<and> obj_get (ed_id e) (gr_edges g) = Some e \<and> ed_from e = x \<and> ed_to e = y)}"
    by blast
  have idx: "topology_index g y = int (index_of y (gr_topologicalOrder g))" if "y \<in> set r" for y
  proof -
    have "y \<in> set (obj_keys (gr_nodes g))" using that sets known by blast
    then obtain n where "obj_get y (gr_nodes g) = Some n" using in_keys_obj_get by metis
    then show ?thesis using graph_nodeD(2) [OF assms(1)] by (simp add: topology_index_def)
  qed
  have "sorted_wrt (\<lambda>x y. topology_index g x \<le> topology_index g y) r"
    unfolding r_def getNextReadyNodeIds_def by (rule sorted_by_index)
  then have "sorted_wrt (\<lambda>x y. index_of x (gr_topologicalOrder g) \<le> index_of y (gr_topologicalOrder g)) r"
    by (rule sorted_wrt_mono_rel [rotated]) (simp add: idx)
  moreover have "distinct r" by (simp add: r_def getNextReadyNodeIds_def)
  ultimately show ?thesis using sets by blast
qed

lemma ready_spec_known:
  assumes "graph_ok g" and "ready_spec g C A y"
  shows "y \<in> set (obj_keys (gr_nodes g))"
proof -
  obtain i e where "obj_get i (gr_edges g) = Some e" "ed_to e = y"
    using assms(2) by (auto simp: ready_spec_def)
  then show ?thesis using graph_edgeD(3) [OF assms(1)] by blast
qed

lemma set_getNextReadyNodeIds_from:
  assumes "graph_ok g" and "[] \<notin> set (obj_keys (gr_nodes g))"
  shows "y \<in> set (getNextReadyNodeIds g completed activated (Some x)) \<longleftrightarrow>
    ready_spec g (set completed) (set activated) y \<and>
    (\<exists>i e. i \<in> set activated \<and> obj_get i (gr_edges g) = Some e \<and> ed_from e = x \<and> ed_to e = y)"
proof -
  have "y \<noteq> []" if "ready_spec g (set completed) (set activated) y"
    using ready_spec_known [OF assms(1) that] assms(2) by metis
  then show ?thesis
    unfolding set_getNextReadyNodeIds candidate_ready_iff [OF assms(1)] set_next_candidates [OF assms(1)]
    by auto
qed

text \<open>Looking only at the successors of the node just completed loses nothing: every node
  that its completion and the activation of its outbound edges make ready is among them.\<close>

theorem next_ready_incremental:
  assumes "graph_ok g" and "[] \<notin> set (obj_keys (gr_nodes g))"
    and "\<forall>i\<in>set edges. \<exists>e. obj_get i (gr_edges g) = Some e \<and> ed_from e = x"
    and "ready_spec g (insert x (set completed)) (set activated \<union> set edges) y"
    and "\<not> ready_spec g (set completed) (set activated) y"
  shows "y \<in> set (getNextReadyNodeIds g (completed @ [x]) (activated @ edges) (Some x))"
proof -
  have "\<exists>i e. i \<in> set activated \<union> set edges \<and> obj_get i (gr_edges g) = Some e \<and> ed_from e = x \<and> ed_to e = y"
  proof (rule ccontr)
    assume none: "\<not> ?thesis"
    then have same: "i \<in> set activated \<union> set edges \<and> obj_get i (gr_edges g) = Some e \<and> ed_to e = y \<longleftrightarrow>
        i \<in> set activated \<and> obj_get i (gr_edges g) = Some e \<and> ed_to e = y" for i e
      using assms(3) by force
    have src: "ed_from e \<noteq> x" if "i \<in> set activated \<union> set edges" "obj_get i (gr_edges g) = Some e" "ed_to e = y" for i e
      using none that by blast
    have "ready_spec g (set completed) (set activated) y"
      using assms(4) same src unfolding ready_spec_def by (smt (verit) Un_iff insert_iff)
    with assms(5) show False ..
  qed
  then show ?thesis
    using assms(4) by (simp add: set_getNextReadyNodeIds_from [OF assms(1,2)])
qed

theorem next_ready_correct_witness:
  "set (getNextReadyNodeIds diamond_graph [''a'', ''b''] [''1'', ''2'', ''3''] None) =
   {y. ready_spec diamond_graph {''a'', ''b''} {''1'', ''2'', ''3''} y}"
proof -
  have "[] \<notin> set (obj_keys (gr_nodes diamond_graph))" by code_simp
  from next_ready_correct [OF diamond_graph_ok this, of "[''a'', ''b'']" "[''1'', ''2'', ''3'']" None]
  show ?thesis by simp
qed

theorem next_ready_incremental_witness:
  "''d'' \<in> set (getNextReadyNodeIds diamond_graph ([''a''] @ [''b'']) ([''1'', ''2''] @ [''3'']) (Some ''b''))"
proof -
  have ne: "[] \<notin> set (obj_keys (gr_nodes diamond_graph))" by code_simp
  have ready: "candidate_ready diamond_graph [''a'', ''b''] [''1'', ''2'', ''3''] (Some ''d'')"
    "\<not> candidate_ready diamond_graph [''a''] [''1'', ''2''] (Some ''d'')"
    by code_simp+
  have src: "\<exists>e. obj_get ''3'' (gr_edges diamond_graph) = Some e \<and> ed_from e = ''b''"
  proof -
    have "obj_get ''3'' (gr_edges diamond_graph) = Some (mk_edge ''3'' ''b'' ''d'')" by code_simp
    then show ?thesis by (simp add: mk_edge_def)
  qed
  show ?thesis
  proof (rule next_ready_incremental [OF diamond_graph_ok ne])
    show "\<forall>i\<in>set [''3'']. \<exists>e. obj_get i (gr_edges diamond_graph) = Some e \<and> ed_from e = ''b''"
      using src by simp
    show "ready_spec diamond_graph (insert ''b'' (set [''a''])) (set [''1'', ''2''] \<union> set [''3'']) ''d''"
      using ready(1) by (simp add: candidate_ready_iff [OF diamond_graph_ok] insert_commute)
    show "\<not> ready_spec diamond_graph (set [''a'']) (set [''1'', ''2'']) ''d''"
      using ready(2) by (simp add: candidate_ready_iff [OF diamond_graph_ok])
  qed
qed

text \<open>The run state activates an edge when its source completes. In such states the rule
  that an ordinary node waits for all its activated sources decides nothing: any uncompleted
  node with one activated inbound edge is ready, exactly as the special rule for parallel
  joins has it.\<close>

theorem fan_in_does_not_wait:
  assumes "graph_ok g" and "y \<in> set (obj_keys (gr_nodes g))" and "y \<noteq> []"
    and "\<forall>i\<in>set activated. \<forall>e. obj_get i (gr_edges g) = Some e \<longrightarrow> ed_from e \<in> set completed"
  shows "candidate_ready g completed activated (Some y) \<longleftrightarrow>
    y \<notin> set completed \<and> (\<exists>i\<in>set activated. i \<in> set (inbound_in g y))"
proof -
  obtain n where n: "obj_get y (gr_nodes g) = Some n"
    using in_keys_obj_get [OF assms(2)] by blast
  then have ok: "node_ok g y n" using assms(1) by (auto simp: graph_ok_def)
  have "candidate_ready g completed activated (Some y) \<longleftrightarrow> ready_spec g (set completed) (set activated) y"
    using assms(1,3) by (simp add: candidate_ready_iff)
  also have "\<dots> \<longleftrightarrow> y \<notin> set completed \<and> (\<exists>i e. i \<in> set activated \<and> obj_get i (gr_edges g) = Some e \<and> ed_to e = y)"
    using assms(4) by (auto simp: ready_spec_def)
  also have "\<dots> \<longleftrightarrow> y \<notin> set completed \<and> (\<exists>i\<in>set activated. i \<in> set (inbound_in g y))"
    using ok n by (auto simp: node_ok_def inbound_in_def)
  finally show ?thesis .
qed

lemma diamond_sources:
  "\<forall>i\<in>set [''1'', ''2'', ''3'']. \<forall>e. obj_get i (gr_edges diamond_graph) = Some e \<longrightarrow> ed_from e \<in> set [''a'', ''b'']"
proof -
  have "obj_get ''1'' (gr_edges diamond_graph) = Some (mk_edge ''1'' ''a'' ''b'')"
    "obj_get ''2'' (gr_edges diamond_graph) = Some (mk_edge ''2'' ''a'' ''c'')"
    "obj_get ''3'' (gr_edges diamond_graph) = Some (mk_edge ''3'' ''b'' ''d'')"
    by code_simp+
  then show ?thesis by (simp add: mk_edge_def)
qed

theorem fan_in_does_not_wait_witness:
  "candidate_ready diamond_graph [''a'', ''b''] [''1'', ''2'', ''3''] (Some ''d'') \<and>
   inbound_in diamond_graph ''d'' = [''3'', ''4'']"
proof -
  have "inbound_in diamond_graph ''d'' = [''3'', ''4'']" and "''d'' \<in> set (obj_keys (gr_nodes diamond_graph))"
    by code_simp+
  then show ?thesis
    using fan_in_does_not_wait [OF diamond_graph_ok _ _ diamond_sources, of "''d''"] by simp
qed

end
