(* ===== verification/Run_Types.thy ===== *)
theory Run_Types
  imports Workflow_Types
begin

text \<open>
  The state of a workflow run, from \<open>self/shared/src/types/workflow.ts\<close>: node and run
  statuses, wait states, correction arcs, attempts, dispatch lineage, the run itself, and
  the requests and results that pass between the engine, the handlers and the run state.
  The record \<open>wf_env\<close> holds what the code takes from its surroundings: the clock, the
  identifiers \<open>randomUUID\<close> returns and the schema parser that checks every new state.
\<close>

datatype node_status =
  NsPending | NsReady | NsRunning | NsWaiting | NsCompleted | NsSkipped | NsBlocked | NsFailed

datatype run_status =
    RsAdmissionBlocked | RsReady | RsRunning | RsWaiting | RsBlockedReview | RsPaused
  | RsCanceled | RsCompleted | RsFailed

datatype checkpoint_state = CkIdle | CkPreparePending | CkCommitPending

datatype wait_kind =
    WkAsyncBatch | WkHumanDecision | WkRetryBackoff | WkCheckpointCommit | WkParallelJoin
  | WkLoopBackoff

datatype correction_arc_type = ArcRetry | ArcRollback | ArcReprompt | ArcResume

datatype effect_status = EfNone | EfIdempotent | EfCompensatable | EfUnknownExternalEffect

record transition_input =
  tn_reasonCode :: string
  tn_evidenceRefs :: "string list"
  tn_occurredAt :: "string option"

record wait_state =
  ws_kind :: wait_kind
  ws_reasonCode :: string
  ws_evidenceRefs :: "string list"
  ws_requestedAt :: string
  ws_resumeToken :: "string option"
  ws_externalRef :: "string option"

record correction_arc =
  ca_id :: string
  ca_runId :: string
  ca_nodeDefinitionId :: string
  ca_type :: correction_arc_type
  ca_sourceAttempt :: nat
  ca_targetAttempt :: "nat option"
  ca_checkpointId :: "string option"
  ca_reasonCode :: string
  ca_evidenceRefs :: "string list"
  ca_occurredAt :: string

record dispatch_lineage =
  dl_id :: string
  dl_runId :: string
  dl_nodeDefinitionId :: string
  dl_parentNodeDefinitionId :: "string option"
  dl_viaEdgeId :: "string option"
  dl_branchKey :: "string option"
  dl_attempt :: nat
  dl_reasonCode :: string
  dl_evidenceRefs :: "string list"
  dl_occurredAt :: string

record node_attempt =
  at_attempt :: nat
  at_status :: node_status
  at_dispatchLineageId :: string
  at_governanceDecision :: governance_decision
  at_waitState :: "wait_state option"
  at_sideEffectStatus :: effect_status
  at_checkpointId :: "string option"
  at_outputRef :: "string option"
  at_selectedBranchKey :: "string option"
  at_reasonCode :: string
  at_evidenceRefs :: "string list"
  at_startedAt :: string
  at_updatedAt :: string
  at_completedAt :: "string option"

record join_progress =
  jp_completedUpstreamNodeIds :: "string list"
  jp_totalUpstreamCount :: nat
  jp_requiredCount :: nat

record node_run_state =
  ns_id :: string
  ns_nodeDefinitionId :: string
  ns_status :: node_status
  ns_attempts :: "node_attempt list"
  ns_activeAttempt :: "nat option"
  ns_latestGovernanceDecision :: "governance_decision option"
  ns_activeWaitState :: "wait_state option"
  ns_lastCommittedCheckpointId :: "string option"
  ns_selectedBranchKey :: "string option"
  ns_correctionArcs :: "correction_arc list"
  ns_reasonCode :: "string option"
  ns_evidenceRefs :: "string list"
  ns_lastDispatchLineageId :: "string option"
  ns_joinProgress :: "join_progress option"
  ns_updatedAt :: string

record trigger_context =
  tc_triggerId :: string
  tc_triggerType :: trigger_type
  tc_sourceId :: string
  tc_workflowRef :: string
  tc_workmodeId :: string
  tc_idempotencyKey :: string
  tc_dispatchRef :: string
  tc_evidenceRef :: string
  tc_occurredAt :: string

record run_state =
  rs_runId :: string
  rs_workflowDefinitionId :: string
  rs_projectId :: string
  rs_workflowVersion :: string
  rs_graphDigest :: string
  rs_status :: run_status
  rs_admission :: admission_result
  rs_reasonCode :: "string option"
  rs_evidenceRefs :: "string list"
  rs_activeNodeIds :: "string list"
  rs_activatedEdgeIds :: "string list"
  rs_readyNodeIds :: "string list"
  rs_waitingNodeIds :: "string list"
  rs_blockedNodeIds :: "string list"
  rs_completedNodeIds :: "string list"
  rs_lastPreparedCheckpointId :: "string option"
  rs_lastCommittedCheckpointId :: "string option"
  rs_checkpointState :: checkpoint_state
  rs_triggerContext :: "trigger_context option"
  rs_nodeStates :: "(string \<times> node_run_state) list"
  rs_dispatchLineage :: "dispatch_lineage list"
  rs_startedAt :: string
  rs_updatedAt :: string

section \<open>Requests and results\<close>

datatype continuation_action =
  ActComplete | ActRetry | ActRollback | ActReprompt | ActResume | ActReject

datatype human_decision = HdApproved | HdRejected

datatype commit_mode = CommitImmediate | CommitDeferred

text \<open>
  The payload of an execution or a continuation. \<open>detail\<close> is a dictionary of unknown
  values; \<open>toolParams\<close> is an unknown value, absent, null or anything else.
\<close>

record execution_payload =
  pl_modelInput :: "json option"
  pl_toolParams :: "json option"
  pl_conditionResult :: "bool option"
  pl_transformOutput :: "json option"
  pl_qualityGatePassed :: "bool option"
  pl_humanDecision :: "human_decision option"
  pl_outputRef :: "string option"
  pl_externalRef :: "string option"
  pl_selectedBranchKey :: "string option"
  pl_sideEffectStatus :: "effect_status option"
  pl_checkpointCommitMode :: "commit_mode option"
  pl_detail :: "(string \<times> json) list"

record execute_node_request =
  xr_executionId :: string
  xr_nodeDefinitionId :: string
  xr_controlState :: control_state
  xr_governanceInput :: "governance_input option"
  xr_payload :: "execution_payload option"
  xr_transition :: transition_input

record continue_node_request =
  cr_executionId :: string
  cr_nodeDefinitionId :: string
  cr_controlState :: control_state
  cr_action :: continuation_action
  cr_continuationToken :: "string option"
  cr_payload :: "execution_payload option"
  cr_transition :: transition_input
  cr_checkpointId :: "string option"
  cr_witnessRef :: "string option"

datatype outcome = OcCompleted | OcWaiting | OcBlocked | OcFailed

record execution_result =
  er_outcome :: outcome
  er_governanceDecision :: governance_decision
  er_waitState :: "wait_state option"
  er_correctionArc :: "correction_arc option"
  er_sideEffectStatus :: effect_status
  er_outputRef :: "string option"
  er_checkpointId :: "string option"
  er_selectedBranchKey :: "string option"
  er_reasonCode :: string
  er_evidenceRefs :: "string list"

record execution_context =
  xc_projectId :: string
  xc_graph :: workflow_graph
  xc_runState :: run_state
  xc_nodeDefinition :: node_definition
  xc_dispatchLineage :: dispatch_lineage
  xc_controlState :: control_state
  xc_governanceInput :: governance_input
  xc_governanceDecision :: governance_decision
  xc_payload :: "execution_payload option"

definition payload_field :: "(execution_payload \<Rightarrow> 'a option) \<Rightarrow> execution_payload option \<Rightarrow> 'a option" where
  \<comment> \<open>\<open>payload?.field\<close>\<close>
  "payload_field f p = (case p of None \<Rightarrow> None | Some pl \<Rightarrow> f pl)"

section \<open>The surroundings of a run\<close>

text \<open>
  \<open>env_now\<close> is the ISO text of the clock at the operation. \<open>env_lineageId n\<close> is the
  identifier \<open>randomUUID\<close> returns for the entry that becomes the \<open>n\<close>-th of the run's
  dispatch lineage, \<open>env_nodeRunId n\<close> the one for the \<open>n\<close>-th node of the topological
  order when the run is created, \<open>env_freshId k\<close> the ones drawn elsewhere.
  \<open>env_parse\<close> is \<open>WorkflowRunStateSchema.parse\<close> of the schema library.
\<close>

record wf_env =
  env_now :: string
  env_lineageId :: "nat \<Rightarrow> string"
  env_nodeRunId :: "nat \<Rightarrow> string"
  env_freshId :: "nat \<Rightarrow> string"
  env_parse :: "run_state \<Rightarrow> run_state result"

text \<open>
  A parser that checks the non-empty texts and positive counts of the run-state schema,
  and one that accepts everything, are both instances.
\<close>

definition run_state_texts_ok :: "run_state \<Rightarrow> bool" where
  "run_state_texts_ok s \<longleftrightarrow>
     rs_workflowVersion s \<noteq> [] \<and> rs_reasonCode s \<noteq> Some [] \<and>
     (\<forall>r\<in>set (rs_evidenceRefs s). r \<noteq> []) \<and>
     (\<forall>ns\<in>set (obj_values (rs_nodeStates s)).
        ns_reasonCode ns \<noteq> Some [] \<and> ns_selectedBranchKey ns \<noteq> Some [] \<and>
        (\<forall>r\<in>set (ns_evidenceRefs ns). r \<noteq> []) \<and>
        (case ns_joinProgress ns of None \<Rightarrow> True | Some jp \<Rightarrow> 0 < jp_requiredCount jp) \<and>
        (\<forall>a\<in>set (ns_attempts ns).
           0 < at_attempt a \<and> at_reasonCode a \<noteq> [] \<and> at_evidenceRefs a \<noteq> [] \<and>
           (\<forall>r\<in>set (at_evidenceRefs a). r \<noteq> []))) \<and>
     (\<forall>l\<in>set (rs_dispatchLineage s). dl_reasonCode l \<noteq> [] \<and> (\<forall>r\<in>set (dl_evidenceRefs l). r \<noteq> []))"

definition parse_run_state :: "run_state \<Rightarrow> run_state result" where
  "parse_run_state s = (if run_state_texts_ok s then Inr s else Inl ZodError)"

interpretation run_state_schema: schema_parser parse_run_state
  by unfold_locales (auto simp: parse_run_state_def split: if_splits)

end
