(* ===== verification/Run_State.thy ===== *)
theory Run_State
  imports Run_Types Traversal
begin

text \<open>
  \<open>self/subcortex/workflows/src/run-state.ts\<close>: the operations that turn one state of a
  workflow run into the next. The code clones the state and mutates the clone; here each
  mutation is a record update and the state is passed along, so the argument is never
  changed. A property read of a missing node state is \<open>None\<close> under \<open>?.\<close> and the error
  \<open>TypeError\<close> without it. \<open>env_lineageId\<close> gives the identifier of the lineage entry that is
  pushed at a position.
\<close>

section \<open>Texts of statuses\<close>

fun node_status_text :: "node_status \<Rightarrow> string" where
  "node_status_text NsPending = ''pending''"
| "node_status_text NsReady = ''ready''"
| "node_status_text NsRunning = ''running''"
| "node_status_text NsWaiting = ''waiting''"
| "node_status_text NsCompleted = ''completed''"
| "node_status_text NsSkipped = ''skipped''"
| "node_status_text NsBlocked = ''blocked''"
| "node_status_text NsFailed = ''failed''"

fun run_status_text :: "run_status \<Rightarrow> string" where
  "run_status_text RsAdmissionBlocked = ''admission_blocked''"
| "run_status_text RsReady = ''ready''"
| "run_status_text RsRunning = ''running''"
| "run_status_text RsWaiting = ''waiting''"
| "run_status_text RsBlockedReview = ''blocked_review''"
| "run_status_text RsPaused = ''paused''"
| "run_status_text RsCanceled = ''canceled''"
| "run_status_text RsCompleted = ''completed''"
| "run_status_text RsFailed = ''failed''"

section \<open>Helpers\<close>

definition occurredAt :: "wf_env \<Rightarrow> transition_input option \<Rightarrow> string option \<Rightarrow> string" where
  "occurredAt env transition fallback =
     (case orElse (case transition of None \<Rightarrow> None | Some t \<Rightarrow> tn_occurredAt t) fallback of
        Some t \<Rightarrow> t
      | None \<Rightarrow> env_now env)"

definition createDispatchLineage ::
  "wf_env \<Rightarrow> dispatch_lineage list \<Rightarrow> string \<Rightarrow> string \<Rightarrow> string option \<Rightarrow> string option \<Rightarrow> string option
   \<Rightarrow> nat \<Rightarrow> string \<Rightarrow> string list \<Rightarrow> string \<Rightarrow> dispatch_lineage" where
  "createDispatchLineage env pushed runId nodeDefinitionId parent viaEdge branchKey attempt reason refs occurred =
     \<lparr>dl_id = env_lineageId env (length pushed), dl_runId = runId, dl_nodeDefinitionId = nodeDefinitionId,
      dl_parentNodeDefinitionId = parent, dl_viaEdgeId = viaEdge, dl_branchKey = branchKey,
      dl_attempt = attempt, dl_reasonCode = reason, dl_evidenceRefs = refs, dl_occurredAt = occurred\<rparr>"

fun mapOutcomeToStatus :: "outcome \<Rightarrow> node_status" where
  "mapOutcomeToStatus OcCompleted = NsCompleted"
| "mapOutcomeToStatus OcWaiting = NsWaiting"
| "mapOutcomeToStatus OcBlocked = NsBlocked"
| "mapOutcomeToStatus OcFailed = NsFailed"

definition removeNodeId :: "string list \<Rightarrow> string \<Rightarrow> string list" where
  "removeNodeId values nodeDefinitionId = filter (\<lambda>v. v \<noteq> nodeDefinitionId) values"

definition node_state :: "run_state \<Rightarrow> string \<Rightarrow> node_run_state option" where
  "node_state s nodeId = obj_get nodeId (rs_nodeStates s)"

definition with_node :: "string \<Rightarrow> (node_run_state \<Rightarrow> node_run_state) \<Rightarrow> run_state \<Rightarrow> run_state" where
  \<comment> \<open>an assignment to fields of \<open>nextState.nodeStates[nodeId]\<close>, which exists\<close>
  "with_node nodeId f s = s\<lparr>rs_nodeStates := obj_modify nodeId f (rs_nodeStates s)\<rparr>"

definition status_of :: "run_state \<Rightarrow> string \<Rightarrow> node_status option" where
  "status_of s nodeId = map_option ns_status (node_state s nodeId)"

definition resolveRunStatus :: "run_state \<Rightarrow> run_status" where
  "resolveRunStatus s =
     (if rs_status s = RsPaused then RsPaused
      else if list_ex (\<lambda>ns. ns_status ns = NsFailed) (obj_values (rs_nodeStates s)) then RsFailed
      else if rs_blockedNodeIds s \<noteq> [] then RsBlockedReview
      else if rs_waitingNodeIds s \<noteq> [] \<or> rs_checkpointState s \<noteq> CkIdle then RsWaiting
      else
        (let activeNodeIds = (if rs_activeNodeIds s \<noteq> [] then rs_activeNodeIds s else rs_readyNodeIds s);
             allActiveNodesResolved = activeNodeIds \<noteq> [] \<and>
               list_all (\<lambda>x. status_of s x \<in> {Some NsCompleted, Some NsSkipped}) activeNodeIds
         in if allActiveNodesResolved \<and> rs_readyNodeIds s = [] \<and> rs_waitingNodeIds s = []
               \<and> rs_blockedNodeIds s = [] then RsCompleted
            else if rs_readyNodeIds s \<noteq> [] then
              (if rs_completedNodeIds s = [] then RsReady else RsRunning)
            else RsRunning))"

definition updateCheckpointFields ::
  "checkpoint_state option \<Rightarrow> string option \<Rightarrow> string option \<Rightarrow> run_state \<Rightarrow> run_state" where
  "updateCheckpointFields checkpointState lastPrepared lastCommitted s =
     s\<lparr>rs_checkpointState := getOr checkpointState (rs_checkpointState s),
       rs_lastPreparedCheckpointId :=
         (if truthy lastPrepared then lastPrepared else rs_lastPreparedCheckpointId s),
       rs_lastCommittedCheckpointId :=
         (if truthy lastCommitted then lastCommitted else rs_lastCommittedCheckpointId s)\<rparr>"

definition node_kind_of :: "workflow_graph \<Rightarrow> string \<Rightarrow> node_kind option" where
  \<comment> \<open>\<open>graph.nodes[id]?.definition?.type\<close>\<close>
  "node_kind_of graph nodeId =
     map_option (\<lambda>n. nd_type (dn_definition n)) (obj_get nodeId (gr_nodes graph))"

definition edge_target :: "workflow_graph \<Rightarrow> string \<Rightarrow> string option" where
  "edge_target graph edgeId = map_option ed_to (obj_get edgeId (gr_edges graph))"

definition find_lineage :: "run_state \<Rightarrow> string \<Rightarrow> dispatch_lineage option" where
  \<comment> \<open>the entry named by \<open>nodeStates[id]?.lastDispatchLineageId\<close>\<close>
  "find_lineage s nodeId =
     (case node_state s nodeId of
        None \<Rightarrow> None
      | Some ns \<Rightarrow> find (\<lambda>l. Some (dl_id l) = ns_lastDispatchLineageId ns) (rs_dispatchLineage s))"

definition push_lineage :: "dispatch_lineage \<Rightarrow> run_state \<Rightarrow> run_state" where
  "push_lineage l s = s\<lparr>rs_dispatchLineage := rs_dispatchLineage s @ [l]\<rparr>"

section \<open>Activating successors\<close>

definition activate_edges :: "workflow_graph \<Rightarrow> string \<Rightarrow> string option \<Rightarrow> run_state \<Rightarrow> run_state" where
  "activate_edges graph nodeId selectedBranchKey s =
     s\<lparr>rs_activatedEdgeIds := uniq (rs_activatedEdgeIds s @
         getActivatedOutboundEdgeIds graph nodeId selectedBranchKey (node_kind_of graph nodeId))\<rparr>"

definition newly_ready :: "workflow_graph \<Rightarrow> string \<Rightarrow> run_state \<Rightarrow> string list" where
  "newly_ready graph nodeId s =
     filter (\<lambda>c. c \<notin> set (rs_readyNodeIds s) \<and> c \<notin> set (rs_waitingNodeIds s)
                 \<and> c \<notin> set (rs_blockedNodeIds s) \<and> c \<notin> set (rs_completedNodeIds s))
       (getNextReadyNodeIds graph (rs_completedNodeIds s) (rs_activatedEdgeIds s) (Some nodeId))"

definition mark_ready :: "wf_env \<Rightarrow> workflow_graph \<Rightarrow> string \<Rightarrow> transition_input \<Rightarrow> string \<Rightarrow> string \<Rightarrow> run_state \<Rightarrow> run_state result" where
  "mark_ready env graph nodeId transition timestamp readyNodeId s =
     (case node_state s readyNodeId of
        None \<Rightarrow> Inl TypeError
      | Some readyState \<Rightarrow>
          (let viaEdgeId = find (\<lambda>e. edge_target graph e = Some readyNodeId) (outbound_in graph nodeId);
               branchKey = (case viaEdgeId of
                   None \<Rightarrow> None
                 | Some e \<Rightarrow> if e = [] then None
                             else Option.bind (obj_get e (gr_edges graph)) ed_branchKey);
               lineage = createDispatchLineage env (rs_dispatchLineage s) (rs_runId s) readyNodeId
                   (Some nodeId) viaEdgeId branchKey (length (ns_attempts readyState))
                   ''node_ready'' (tn_evidenceRefs transition) timestamp
           in Inr (with_node readyNodeId
                (\<lambda>ns. ns\<lparr>ns_status := NsReady, ns_reasonCode := Some ''node_ready'',
                         ns_evidenceRefs := tn_evidenceRefs transition,
                         ns_lastDispatchLineageId := Some (dl_id lineage), ns_updatedAt := timestamp\<rparr>)
                ((push_lineage lineage s)
                  \<lparr>rs_activeNodeIds := sortNodeIdsByTopology graph (rs_activeNodeIds s @ [readyNodeId]),
                   rs_readyNodeIds := sortNodeIdsByTopology graph (rs_readyNodeIds s @ [readyNodeId])\<rparr>))))"

definition loop_body :: "workflow_graph \<Rightarrow> string \<Rightarrow> string list" where
  "loop_body graph loopNodeId =
     map ed_to (filter (\<lambda>e. ed_branchKey e = Some ''loop'')
       (List.map_filter (\<lambda>i. obj_get i (gr_edges graph)) (outbound_in graph loopNodeId)))"

definition reset_body_node :: "string \<Rightarrow> string \<Rightarrow> run_state \<Rightarrow> run_state" where
  "reset_body_node timestamp bodyNodeId s =
     with_node bodyNodeId
       (\<lambda>ns. if ns_status ns = NsCompleted
             then ns\<lparr>ns_status := NsPending, ns_activeAttempt := None, ns_activeWaitState := None,
                     ns_updatedAt := timestamp\<rparr>
             else ns)
       (s\<lparr>rs_completedNodeIds := removeNodeId (rs_completedNodeIds s) bodyNodeId\<rparr>)"

definition add_ready :: "workflow_graph \<Rightarrow> string \<Rightarrow> run_state \<Rightarrow> run_state" where
  "add_ready graph nodeId s =
     (if nodeId \<in> set (rs_readyNodeIds s) then s
      else s\<lparr>rs_readyNodeIds := sortNodeIdsByTopology graph (rs_readyNodeIds s @ [nodeId])\<rparr>)"

definition add_active :: "workflow_graph \<Rightarrow> string \<Rightarrow> run_state \<Rightarrow> run_state" where
  "add_active graph nodeId s =
     (if nodeId \<in> set (rs_activeNodeIds s) then s
      else s\<lparr>rs_activeNodeIds := sortNodeIdsByTopology graph (rs_activeNodeIds s @ [nodeId])\<rparr>)"

definition loop_parent :: "workflow_graph \<Rightarrow> string \<Rightarrow> run_state \<Rightarrow> string option" where
  \<comment> \<open>the loop node to run again: the parent in the completing node's lineage, if it is a loop
      that last chose to go on\<close>
  "loop_parent graph nodeId s =
     (case Option.bind (find_lineage s nodeId) dl_parentNodeDefinitionId of
        None \<Rightarrow> None
      | Some parent \<Rightarrow>
          if parent \<noteq> [] \<and> node_kind_of graph parent = Some KLoop
             \<and> Option.bind (node_state s parent) ns_selectedBranchKey = Some ''loop''
          then Some parent else None)"

definition restart_loop :: "wf_env \<Rightarrow> workflow_graph \<Rightarrow> transition_input \<Rightarrow> string \<Rightarrow> string \<Rightarrow> run_state \<Rightarrow> run_state" where
  "restart_loop env graph transition timestamp parent s =
     (let s1 = s\<lparr>rs_completedNodeIds := removeNodeId (rs_completedNodeIds s) parent\<rparr>;
          s2 = fold (reset_body_node timestamp) (loop_body graph parent) s1;
          s3 = add_active graph parent (add_ready graph parent s2);
          attempts = (case node_state s3 parent of None \<Rightarrow> 0 | Some ns \<Rightarrow> length (ns_attempts ns));
          lineage = createDispatchLineage env (rs_dispatchLineage s3) (rs_runId s3) parent None None None
              attempts ''loop_reactivation'' (tn_evidenceRefs transition) timestamp
      in with_node parent
           (\<lambda>ns. ns\<lparr>ns_status := NsReady, ns_activeAttempt := None, ns_activeWaitState := None,
                    ns_updatedAt := timestamp, ns_lastDispatchLineageId := Some (dl_id lineage)\<rparr>)
           (push_lineage lineage s3))"

definition reactivate_loop :: "wf_env \<Rightarrow> workflow_graph \<Rightarrow> string \<Rightarrow> transition_input \<Rightarrow> string \<Rightarrow> run_state \<Rightarrow> run_state" where
  "reactivate_loop env graph nodeId transition timestamp s =
     (case loop_parent graph nodeId s of
        None \<Rightarrow> s
      | Some parent \<Rightarrow> restart_loop env graph transition timestamp parent s)"

definition waiting_joins :: "workflow_graph \<Rightarrow> string \<Rightarrow> run_state \<Rightarrow> string list" where
  "waiting_joins graph nodeId s =
     filter (\<lambda>w. node_kind_of graph w = Some KParallelJoin
               \<and> list_ex (\<lambda>i. map_option ed_from (obj_get i (gr_edges graph)) = Some nodeId) (inbound_in graph w))
       (rs_waitingNodeIds s)"

definition note_upstream :: "string \<Rightarrow> join_progress option \<Rightarrow> join_progress option" where
  "note_upstream nodeId jp = map_option (\<lambda>p.
     if nodeId \<in> set (jp_completedUpstreamNodeIds p) then p
     else p\<lparr>jp_completedUpstreamNodeIds := jp_completedUpstreamNodeIds p @ [nodeId]\<rparr>) jp"

definition wake_join :: "workflow_graph \<Rightarrow> string \<Rightarrow> string \<Rightarrow> string \<Rightarrow> run_state \<Rightarrow> run_state result" where
  "wake_join graph nodeId timestamp joinNodeId s =
     (case node_state s joinNodeId of
        None \<Rightarrow> Inl TypeError
      | Some _ \<Rightarrow> Inr (with_node joinNodeId
          (\<lambda>ns. ns\<lparr>ns_status := NsReady, ns_activeAttempt := None, ns_activeWaitState := None,
                   ns_joinProgress := note_upstream nodeId (ns_joinProgress ns), ns_updatedAt := timestamp\<rparr>)
          (add_ready graph joinNodeId
            (s\<lparr>rs_waitingNodeIds := removeNodeId (rs_waitingNodeIds s) joinNodeId\<rparr>))))"

definition activateSuccessors ::
  "wf_env \<Rightarrow> workflow_graph \<Rightarrow> string \<Rightarrow> transition_input \<Rightarrow> string option \<Rightarrow> run_state \<Rightarrow> run_state result" where
  "activateSuccessors env graph nodeId transition selectedBranchKey s =
     (let timestamp = occurredAt env (Some transition) (Some (rs_updatedAt s));
          s1 = activate_edges graph nodeId selectedBranchKey s
      in bindR (foldR (mark_ready env graph nodeId transition timestamp) (newly_ready graph nodeId s1) s1)
          (\<lambda>s2. let s3 = reactivate_loop env graph nodeId transition timestamp s2
                in foldR (wake_join graph nodeId timestamp) (waiting_joins graph nodeId s3) s3))"

section \<open>Cancelling the losers of a race\<close>

definition skip_node :: "string \<Rightarrow> string \<Rightarrow> string \<Rightarrow> run_state \<Rightarrow> run_state" where
  "skip_node winner timestamp target s =
     with_node target
       (\<lambda>ns. ns\<lparr>ns_status := NsSkipped, ns_reasonCode := Some ''workflow_race_cancelled'',
                ns_evidenceRefs := [''race_winner='' @ winner], ns_activeAttempt := None,
                ns_activeWaitState := None, ns_updatedAt := timestamp\<rparr>)
       (s\<lparr>rs_readyNodeIds := removeNodeId (rs_readyNodeIds s) target,
          rs_waitingNodeIds := removeNodeId (rs_waitingNodeIds s) target,
          rs_blockedNodeIds := removeNodeId (rs_blockedNodeIds s) target,
          rs_activeNodeIds := removeNodeId (rs_activeNodeIds s) target\<rparr>)"

lemma keys_with_node [simp]: "obj_keys (rs_nodeStates (with_node x f s)) = obj_keys (rs_nodeStates s)"
  by (simp add: with_node_def)

lemma keys_skip_node [simp]: "obj_keys (rs_nodeStates (skip_node w ts t s)) = obj_keys (rs_nodeStates s)"
  by (simp add: skip_node_def)

function cancel_bfs :: "workflow_graph \<Rightarrow> string \<Rightarrow> string \<Rightarrow> string list \<Rightarrow> string list \<Rightarrow> run_state \<Rightarrow> run_state" where
  "cancel_bfs graph winner timestamp [] cancelled s = s"
| "cancel_bfs graph winner timestamp (target # toCancel) cancelled s =
     (if target \<in> set cancelled \<or> status_of s target \<in> {None, Some NsCompleted, Some NsSkipped}
      then cancel_bfs graph winner timestamp toCancel cancelled s
      else cancel_bfs graph winner timestamp
             (toCancel @ List.map_filter (edge_target graph) (outbound_in graph target))
             (cancelled @ [target]) (skip_node winner timestamp target s))"
  by pat_completeness auto
termination
proof (relation "measures [\<lambda>(g, w, ts, q, cancelled, s). card (set (obj_keys (rs_nodeStates s)) - set cancelled),
                           \<lambda>(g, w, ts, q, cancelled, s). length q]", goal_cases)
  case 1
  show ?case by simp
next
  case 2
  then show ?case by simp
next
  case (3 graph winner timestamp target toCancel cancelled s)
  then have "target \<in> set (obj_keys (rs_nodeStates s)) - set cancelled"
    using obj_get_in_keys by (fastforce simp: status_of_def node_state_def)
  then have "card (set (obj_keys (rs_nodeStates s)) - set (cancelled @ [target]))
      < card (set (obj_keys (rs_nodeStates s)) - set cancelled)"
    by (intro psubset_card_mono) auto
  then show ?case by simp
qed

definition race_siblings :: "workflow_graph \<Rightarrow> string \<Rightarrow> run_state \<Rightarrow> string list" where
  \<comment> \<open>the other branches of the race split that dispatched the node, if one did\<close>
  "race_siblings graph completedNodeId s =
     (case Option.bind (find_lineage s completedNodeId) dl_parentNodeDefinitionId of
        None \<Rightarrow> []
      | Some parent \<Rightarrow>
          if parent = [] then []
          else case obj_get parent (gr_nodes graph) of
            None \<Rightarrow> []
          | Some parentNode \<Rightarrow>
              if nd_type (dn_definition parentNode) \<noteq> KParallelSplit then []
              else case nd_config (dn_definition parentNode) of
                ParallelSplitConfig SplitRace _ \<Rightarrow>
                  filter (\<lambda>t. t \<noteq> completedNodeId)
                    (List.map_filter (edge_target graph) (dn_outboundEdgeIds parentNode))
              | _ \<Rightarrow> [])"

definition cancelRaceLosers :: "wf_env \<Rightarrow> workflow_graph \<Rightarrow> string \<Rightarrow> transition_input \<Rightarrow> run_state \<Rightarrow> run_state" where
  "cancelRaceLosers env graph completedNodeId transition s =
     cancel_bfs graph completedNodeId (occurredAt env (Some transition) (Some (rs_updatedAt s)))
       (race_siblings graph completedNodeId s) [] s"

section \<open>Applying an outcome\<close>

definition upstream_ids :: "workflow_graph \<Rightarrow> string \<Rightarrow> string list" where
  "upstream_ids graph nodeId =
     filter (\<lambda>x. x \<noteq> [])
       (List.map_filter (\<lambda>i. map_option ed_from (obj_get i (gr_edges graph))) (inbound_in graph nodeId))"

definition initial_join_progress :: "workflow_graph \<Rightarrow> string \<Rightarrow> run_state \<Rightarrow> join_progress" where
  "initial_join_progress graph nodeId s =
     (let upstream = upstream_ids graph nodeId;
          total = length upstream
      in \<lparr>jp_completedUpstreamNodeIds = filter (\<lambda>x. status_of s x = Some NsCompleted) upstream,
          jp_totalUpstreamCount = total,
          jp_requiredCount =
            (case map_option (\<lambda>n. nd_config (dn_definition n)) (obj_get nodeId (gr_nodes graph)) of
               Some (ParallelJoinConfig JoinAny _ _) \<Rightarrow> 1
             | Some (ParallelJoinConfig JoinNofM (Some k) _) \<Rightarrow> k
             | _ \<Rightarrow> total)\<rparr>)"

definition leave_queues :: "string \<Rightarrow> run_state \<Rightarrow> run_state" where
  "leave_queues nodeId s =
     s\<lparr>rs_readyNodeIds := removeNodeId (rs_readyNodeIds s) nodeId,
       rs_waitingNodeIds := removeNodeId (rs_waitingNodeIds s) nodeId,
       rs_blockedNodeIds := removeNodeId (rs_blockedNodeIds s) nodeId\<rparr>"

definition add_completed :: "workflow_graph \<Rightarrow> string \<Rightarrow> run_state \<Rightarrow> run_state" where
  "add_completed graph nodeId s =
     s\<lparr>rs_completedNodeIds := sortNodeIdsByTopology graph (rs_completedNodeIds s @ [nodeId])\<rparr>"

definition note_result :: "execution_result \<Rightarrow> string \<Rightarrow> node_run_state \<Rightarrow> node_run_state" where
  "note_result r timestamp ns =
     ns\<lparr>ns_status := mapOutcomeToStatus (er_outcome r),
        ns_latestGovernanceDecision := Some (er_governanceDecision r),
        ns_reasonCode := Some (er_reasonCode r),
        ns_evidenceRefs := er_evidenceRefs r,
        ns_activeWaitState := er_waitState r,
        ns_lastCommittedCheckpointId := orElse (er_checkpointId r) (ns_lastCommittedCheckpointId ns),
        ns_selectedBranchKey := er_selectedBranchKey r,
        ns_updatedAt := timestamp,
        ns_correctionArcs := ns_correctionArcs ns @
          (case er_correctionArc r of None \<Rightarrow> [] | Some arc \<Rightarrow> [arc])\<rparr>"

definition finish_node :: "wf_env \<Rightarrow> workflow_graph \<Rightarrow> string \<Rightarrow> transition_input \<Rightarrow> string option \<Rightarrow> run_state \<Rightarrow> run_state result" where
  "finish_node env graph nodeId transition branchKey s =
     activateSuccessors env graph nodeId transition branchKey
       (cancelRaceLosers env graph nodeId transition
         (add_completed graph nodeId
           (with_node nodeId (\<lambda>ns. ns\<lparr>ns_activeAttempt := None, ns_activeWaitState := None\<rparr>) s)))"

definition enter_waiting :: "workflow_graph \<Rightarrow> string \<Rightarrow> nat \<Rightarrow> run_state \<Rightarrow> run_state" where
  "enter_waiting graph nodeId attemptNumber s =
     (let s1 = with_node nodeId (\<lambda>ns. ns\<lparr>ns_activeAttempt := Some attemptNumber\<rparr>)
                 (s\<lparr>rs_waitingNodeIds := sortNodeIdsByTopology graph (rs_waitingNodeIds s @ [nodeId])\<rparr>)
      in with_node nodeId
           (\<lambda>ns. if node_kind_of graph nodeId = Some KParallelJoin \<and> ns_joinProgress ns = None
                 then ns\<lparr>ns_joinProgress := Some (initial_join_progress graph nodeId s1)\<rparr> else ns) s1)"

definition enter_blocked :: "workflow_graph \<Rightarrow> string \<Rightarrow> nat \<Rightarrow> run_state \<Rightarrow> run_state" where
  "enter_blocked graph nodeId attemptNumber s =
     with_node nodeId (\<lambda>ns. ns\<lparr>ns_activeAttempt := Some attemptNumber\<rparr>)
       (s\<lparr>rs_blockedNodeIds := sortNodeIdsByTopology graph (rs_blockedNodeIds s @ [nodeId])\<rparr>)"

definition applyAttemptOutcome ::
  "wf_env \<Rightarrow> workflow_graph \<Rightarrow> string \<Rightarrow> node_attempt \<Rightarrow> execution_result \<Rightarrow> transition_input \<Rightarrow> run_state \<Rightarrow> run_state result" where
  "applyAttemptOutcome env graph nodeId attempt r transition s =
     (let timestamp = occurredAt env (Some transition) (Some (rs_updatedAt s));
          s1 = with_node nodeId (note_result r timestamp) (leave_queues nodeId s)
      in case er_outcome r of
           OcCompleted \<Rightarrow>
             finish_node env graph nodeId transition (orElse (at_selectedBranchKey attempt) (er_selectedBranchKey r)) s1
         | OcWaiting \<Rightarrow> Inr (enter_waiting graph nodeId (at_attempt attempt) s1)
         | OcBlocked \<Rightarrow> Inr (enter_blocked graph nodeId (at_attempt attempt) s1)
         | OcFailed \<Rightarrow> Inr (with_node nodeId (\<lambda>ns. ns\<lparr>ns_activeAttempt := None\<rparr>) s1))"

section \<open>The operations\<close>

fun initial_nodes ::
  "wf_env \<Rightarrow> string \<Rightarrow> transition_input \<Rightarrow> string \<Rightarrow> string list \<Rightarrow> nat \<Rightarrow> string list \<Rightarrow> dispatch_lineage list
   \<Rightarrow> (string \<times> node_run_state) list \<times> dispatch_lineage list" where
  "initial_nodes env runId transition timestamp ready i [] lineages = ([], lineages)"
| "initial_nodes env runId transition timestamp ready i (nodeId # nodeIds) lineages =
     (let isReady = nodeId \<in> set ready;
          lineage = createDispatchLineage env lineages runId nodeId None None None 0
              (tn_reasonCode transition) (tn_evidenceRefs transition) timestamp;
          rest = initial_nodes env runId transition timestamp ready (Suc i) nodeIds
              (if isReady then lineages @ [lineage] else lineages)
      in ((nodeId,
           \<lparr>ns_id = env_nodeRunId env i, ns_nodeDefinitionId = nodeId,
            ns_status = (if isReady then NsReady else NsPending), ns_attempts = [], ns_activeAttempt = None,
            ns_latestGovernanceDecision = None, ns_activeWaitState = None,
            ns_lastCommittedCheckpointId = None, ns_selectedBranchKey = None, ns_correctionArcs = [],
            ns_reasonCode = (if isReady then Some (tn_reasonCode transition) else None),
            ns_evidenceRefs = (if isReady then tn_evidenceRefs transition else []),
            ns_lastDispatchLineageId = (if isReady then Some (dl_id lineage) else None),
            ns_joinProgress = None, ns_updatedAt = timestamp\<rparr>) # fst rest, snd rest))"

record create_input =
  ci_runId :: string
  ci_graph :: workflow_graph
  ci_admission :: admission_result
  ci_triggerContext :: "trigger_context option"
  ci_transition :: "transition_input option"
  ci_startedAt :: "string option"

definition initial_run_state :: "wf_env \<Rightarrow> create_input \<Rightarrow> run_state" where
  "initial_run_state env input =
     (let timestamp = occurredAt env (ci_transition input) (ci_startedAt input);
          transition = getOr (ci_transition input)
            \<lparr>tn_reasonCode = ''workflow_started'', tn_evidenceRefs = [], tn_occurredAt = None\<rparr>;
          graph = ci_graph input;
          ready = getInitialReadyNodeIds graph;
          nodes = initial_nodes env (ci_runId input) transition timestamp ready 0 (gr_topologicalOrder graph) []
      in \<lparr>rs_runId = ci_runId input, rs_workflowDefinitionId = gr_workflowDefinitionId graph,
          rs_projectId = gr_projectId graph, rs_workflowVersion = gr_version graph,
          rs_graphDigest = gr_graphDigest graph, rs_status = RsReady, rs_admission = ci_admission input,
          rs_reasonCode = Some (tn_reasonCode transition), rs_evidenceRefs = tn_evidenceRefs transition,
          rs_activeNodeIds = ready, rs_activatedEdgeIds = [], rs_readyNodeIds = ready,
          rs_waitingNodeIds = [], rs_blockedNodeIds = [], rs_completedNodeIds = [],
          rs_lastPreparedCheckpointId = None, rs_lastCommittedCheckpointId = None,
          rs_checkpointState = CkIdle, rs_triggerContext = ci_triggerContext input,
          rs_nodeStates = from_entries [] (fst nodes), rs_dispatchLineage = snd nodes,
          rs_startedAt = timestamp, rs_updatedAt = timestamp\<rparr>)"

definition createInitialWorkflowRunState :: "wf_env \<Rightarrow> create_input \<Rightarrow> run_state result" where
  "createInitialWorkflowRunState env input =
     (if \<not> ad_allowed (ci_admission input) then
        Inl (JsError ''Cannot create workflow run state for blocked admission'')
      else env_parse env (initial_run_state env input))"

definition stamp_run :: "transition_input \<Rightarrow> string \<Rightarrow> run_state \<Rightarrow> run_state" where
  \<comment> \<open>the assignments every operation ends with\<close>
  "stamp_run transition timestamp s =
     s\<lparr>rs_reasonCode := Some (tn_reasonCode transition), rs_evidenceRefs := tn_evidenceRefs transition,
       rs_updatedAt := timestamp\<rparr>"

definition settle_status :: "run_state \<Rightarrow> run_state" where
  "settle_status s = s\<lparr>rs_status := resolveRunStatus s\<rparr>"

definition run_error :: "run_state \<Rightarrow> string \<Rightarrow> js_error" where
  "run_error s what =
     JsError (''Workflow run '' @ rs_runId s @ '' cannot be '' @ what @ '' from status '' @ run_status_text (rs_status s))"

definition pauseWorkflowRunState :: "wf_env \<Rightarrow> run_state \<Rightarrow> transition_input \<Rightarrow> run_state result" where
  "pauseWorkflowRunState env s transition =
     (if rs_status s \<in> {RsAdmissionBlocked, RsPaused, RsCompleted, RsFailed, RsCanceled} then
        Inl (run_error s ''paused'')
      else env_parse env
        (stamp_run transition (occurredAt env (Some transition) (Some (rs_updatedAt s)))
          (s\<lparr>rs_status := RsPaused\<rparr>)))"

definition resumeWorkflowRunState :: "wf_env \<Rightarrow> run_state \<Rightarrow> transition_input \<Rightarrow> run_state result" where
  "resumeWorkflowRunState env s transition =
     (if rs_status s \<noteq> RsPaused then Inl (run_error s ''resumed'')
      else env_parse env
        (settle_status
          (stamp_run transition (occurredAt env (Some transition) (Some (rs_updatedAt s)))
            (s\<lparr>rs_status := RsRunning\<rparr>))))"

definition cancel_node :: "transition_input \<Rightarrow> string \<Rightarrow> string \<Rightarrow> run_state \<Rightarrow> run_state" where
  "cancel_node transition timestamp nodeId s =
     with_node nodeId
       (\<lambda>ns. ns\<lparr>ns_activeAttempt := None, ns_activeWaitState := None,
                ns_reasonCode := Some (tn_reasonCode transition), ns_evidenceRefs := tn_evidenceRefs transition,
                ns_updatedAt := timestamp\<rparr>) s"

definition cancelWorkflowRunState :: "wf_env \<Rightarrow> run_state \<Rightarrow> transition_input \<Rightarrow> run_state result" where
  "cancelWorkflowRunState env s transition =
     (if rs_status s \<in> {RsCompleted, RsFailed, RsCanceled} then Inl (run_error s ''canceled'')
      else
        (let timestamp = occurredAt env (Some transition) (Some (rs_updatedAt s));
             affected = uniq (rs_activeNodeIds s @ rs_readyNodeIds s @ rs_waitingNodeIds s @ rs_blockedNodeIds s);
             s1 = fold (cancel_node transition timestamp) affected s
         in env_parse env
              ((stamp_run transition timestamp s1)
                \<lparr>rs_status := RsCanceled, rs_activeNodeIds := [], rs_readyNodeIds := [],
                 rs_waitingNodeIds := [], rs_blockedNodeIds := [], rs_checkpointState := CkIdle\<rparr>)))"

definition unknown_node :: "string \<Rightarrow> js_error" where
  "unknown_node nodeId = JsError (''Unknown workflow node definition id: '' @ nodeId)"

definition node_error :: "string \<Rightarrow> string \<Rightarrow> node_run_state \<Rightarrow> js_error" where
  "node_error nodeId what ns =
     JsError (''Workflow node '' @ nodeId @ '' cannot be '' @ what @ '' from status '' @ node_status_text (ns_status ns))"

definition completeWorkflowNodeInRunState ::
  "wf_env \<Rightarrow> run_state \<Rightarrow> workflow_graph \<Rightarrow> string \<Rightarrow> transition_input \<Rightarrow> run_state result" where
  "completeWorkflowNodeInRunState env s graph nodeId transition =
     (case node_state s nodeId of
        None \<Rightarrow> Inl (unknown_node nodeId)
      | Some ns \<Rightarrow>
          if ns_status ns \<notin> {NsReady, NsRunning} then Inl (node_error nodeId ''completed'' ns)
          else
            (let timestamp = occurredAt env (Some transition) (Some (rs_updatedAt s));
                 s1 = with_node nodeId
                   (\<lambda>n. n\<lparr>ns_status := NsCompleted, ns_reasonCode := Some (tn_reasonCode transition),
                           ns_evidenceRefs := tn_evidenceRefs transition, ns_updatedAt := timestamp,
                           ns_activeWaitState := None\<rparr>) s;
                 s2 = add_completed graph nodeId (leave_queues nodeId s1)
             in bindR (activateSuccessors env graph nodeId transition (ns_selectedBranchKey ns) s2)
                  (\<lambda>s3. env_parse env (settle_status (stamp_run transition timestamp s3)))))"

record execution_input =
  ei_state :: run_state
  ei_graph :: workflow_graph
  ei_nodeDefinitionId :: string
  ei_result :: execution_result
  ei_transition :: transition_input
  ei_checkpointState :: "checkpoint_state option"
  ei_lastPreparedCheckpointId :: "string option"
  ei_lastCommittedCheckpointId :: "string option"

definition new_attempt :: "nat \<Rightarrow> string \<Rightarrow> string \<Rightarrow> execution_result \<Rightarrow> node_attempt" where
  "new_attempt number lineageId timestamp r =
     \<lparr>at_attempt = number, at_status = mapOutcomeToStatus (er_outcome r), at_dispatchLineageId = lineageId,
      at_governanceDecision = er_governanceDecision r, at_waitState = er_waitState r,
      at_sideEffectStatus = er_sideEffectStatus r, at_checkpointId = er_checkpointId r,
      at_outputRef = er_outputRef r, at_selectedBranchKey = er_selectedBranchKey r,
      at_reasonCode = er_reasonCode r, at_evidenceRefs = er_evidenceRefs r, at_startedAt = timestamp,
      at_updatedAt = timestamp,
      at_completedAt = (if er_outcome r = OcCompleted then Some timestamp else None)\<rparr>"

definition settle_execution :: "wf_env \<Rightarrow> execution_input \<Rightarrow> string \<Rightarrow> node_attempt \<Rightarrow> run_state \<Rightarrow> run_state result" where
  \<comment> \<open>what \<open>recordWorkflowNodeExecution\<close> and \<open>resolveWorkflowNodeContinuation\<close> both end with\<close>
  "settle_execution env i timestamp attempt s =
     bindR (applyAttemptOutcome env (ei_graph i) (ei_nodeDefinitionId i) attempt (ei_result i) (ei_transition i)
              (updateCheckpointFields (ei_checkpointState i) (ei_lastPreparedCheckpointId i)
                (ei_lastCommittedCheckpointId i) s))
       (\<lambda>s1. env_parse env (settle_status (stamp_run (ei_transition i) timestamp s1)))"

definition recordWorkflowNodeExecution :: "wf_env \<Rightarrow> execution_input \<Rightarrow> run_state result" where
  "recordWorkflowNodeExecution env i =
     (let s = ei_state i; nodeId = ei_nodeDefinitionId i; transition = ei_transition i in
      case node_state s nodeId of
        None \<Rightarrow> Inl (unknown_node nodeId)
      | Some ns \<Rightarrow>
          if ns_status ns \<noteq> NsReady then Inl (node_error nodeId ''executed'' ns)
          else
            (let timestamp = occurredAt env (Some transition) (Some (rs_updatedAt s));
                 previous = find_lineage s nodeId;
                 number = Suc (length (ns_attempts ns));
                 lineage = createDispatchLineage env (rs_dispatchLineage s) (rs_runId s) nodeId
                   (Option.bind previous dl_parentNodeDefinitionId) (Option.bind previous dl_viaEdgeId)
                   (Option.bind previous dl_branchKey) number
                   (tn_reasonCode transition) (tn_evidenceRefs transition) timestamp;
                 attempt = new_attempt number (dl_id lineage) timestamp (ei_result i)
             in settle_execution env i timestamp attempt
                  (with_node nodeId
                    (\<lambda>n. n\<lparr>ns_attempts := ns_attempts n @ [attempt], ns_lastDispatchLineageId := Some (dl_id lineage)\<rparr>)
                    (push_lineage lineage s))))"

definition continue_attempt :: "string \<Rightarrow> execution_result \<Rightarrow> node_attempt \<Rightarrow> node_attempt" where
  "continue_attempt timestamp r a =
     a\<lparr>at_status := mapOutcomeToStatus (er_outcome r), at_waitState := er_waitState r,
       at_sideEffectStatus := er_sideEffectStatus r,
       at_checkpointId := orElse (er_checkpointId r) (at_checkpointId a),
       at_outputRef := orElse (er_outputRef r) (at_outputRef a),
       at_selectedBranchKey := orElse (er_selectedBranchKey r) (at_selectedBranchKey a),
       at_reasonCode := er_reasonCode r, at_evidenceRefs := er_evidenceRefs r, at_updatedAt := timestamp,
       at_completedAt := (if er_outcome r = OcCompleted then Some timestamp else None)\<rparr>"

fun update_first :: "('a \<Rightarrow> bool) \<Rightarrow> ('a \<Rightarrow> 'a) \<Rightarrow> 'a list \<Rightarrow> 'a list" where
  "update_first P f [] = []"
| "update_first P f (x # xs) = (if P x then f x # xs else x # update_first P f xs)"

definition resolveWorkflowNodeContinuation :: "wf_env \<Rightarrow> execution_input \<Rightarrow> run_state result" where
  "resolveWorkflowNodeContinuation env i =
     (let s = ei_state i; nodeId = ei_nodeDefinitionId i in
      case node_state s nodeId of
        None \<Rightarrow> Inl (unknown_node nodeId)
      | Some ns \<Rightarrow>
          (case ns_activeAttempt ns of
             None \<Rightarrow> Inl (JsError (''Workflow node '' @ nodeId @ '' has no active attempt to continue''))
           | Some k \<Rightarrow>
               (case find (\<lambda>a. at_attempt a = k) (ns_attempts ns) of
                  None \<Rightarrow> Inl (JsError (''Workflow node '' @ nodeId @ '' is missing active attempt '' @ show_nat k))
                | Some attempt \<Rightarrow>
                    (let timestamp = occurredAt env (Some (ei_transition i)) (Some (rs_updatedAt s));
                         f = continue_attempt timestamp (ei_result i)
                     in settle_execution env i timestamp (f attempt)
                          (with_node nodeId
                            (\<lambda>n. n\<lparr>ns_attempts := update_first (\<lambda>a. at_attempt a = k) f (ns_attempts n)\<rparr>) s)))))"

end
