(* ===== verification/Run_Invariant.thy ===== *)
theory Run_Invariant
  imports Run_State "HOL-Library.Sublist"
begin

text \<open>
  The invariant of a workflow run. \<open>placed live s y\<close> relates the status of the node \<open>y\<close>
  to the lists it is in; \<open>live\<close> adds what holds until a run is canceled. One preservation
  lemma per state change, composed for each operation of \<open>run-state.ts\<close>.
\<close>

section \<open>The invariant\<close>

text \<open>
  \<open>spot_ok live v r w b c a\<close>: a node whose status and pending attempt are \<open>v\<close> may be in the
  ready, waiting, blocked, completed and active list as the five booleans say.
\<close>

fun spot_ok :: "bool \<Rightarrow> (node_status \<times> bool) option \<Rightarrow> bool \<Rightarrow> bool \<Rightarrow> bool \<Rightarrow> bool \<Rightarrow> bool \<Rightarrow> bool" where
  "spot_ok live None r w b c a \<longleftrightarrow> \<not> r \<and> \<not> w \<and> \<not> b \<and> \<not> c \<and> \<not> a"
| "spot_ok live (Some (st, pending)) r w b c a \<longleftrightarrow>
     st \<noteq> NsRunning \<and>
     (r \<longrightarrow> st = NsReady) \<and>
     (c \<longleftrightarrow> st = NsCompleted) \<and>
     (w \<longrightarrow> st = NsWaiting \<or> st = NsReady) \<and>
     (b \<longrightarrow> st = NsBlocked \<or> st = NsReady) \<and>
     (pending \<longrightarrow> st = NsWaiting \<and> w \<or> st = NsBlocked \<and> b) \<and>
     (live \<longrightarrow> (st = NsReady \<longrightarrow> r) \<and> (st = NsWaiting \<longrightarrow> w \<and> pending) \<and> (st = NsBlocked \<longrightarrow> b \<and> pending) \<and>
        (r \<or> w \<or> b \<or> c \<longrightarrow> a))"

definition view :: "run_state \<Rightarrow> string \<Rightarrow> (node_status \<times> bool) option" where
  "view s y = map_option (\<lambda>ns. (ns_status ns, ns_activeAttempt ns \<noteq> None)) (node_state s y)"

definition placed :: "bool \<Rightarrow> run_state \<Rightarrow> string \<Rightarrow> bool" where
  "placed live s y \<longleftrightarrow>
     spot_ok live (view s y) (y \<in> set (rs_readyNodeIds s)) (y \<in> set (rs_waitingNodeIds s))
       (y \<in> set (rs_blockedNodeIds s)) (y \<in> set (rs_completedNodeIds s)) (y \<in> set (rs_activeNodeIds s))"

definition all_placed :: "bool \<Rightarrow> run_state \<Rightarrow> bool" where
  "all_placed live s \<longleftrightarrow> (\<forall>y. placed live s y)"

definition lists_distinct :: "run_state \<Rightarrow> bool" where
  "lists_distinct s \<longleftrightarrow> distinct (rs_readyNodeIds s) \<and> distinct (rs_waitingNodeIds s) \<and>
     distinct (rs_blockedNodeIds s) \<and> distinct (rs_completedNodeIds s) \<and> distinct (rs_activeNodeIds s) \<and>
     distinct (rs_activatedEdgeIds s)"

definition attempts_ok :: "node_run_state \<Rightarrow> bool" where
  "attempts_ok ns \<longleftrightarrow> map at_attempt (ns_attempts ns) = [1..<Suc (length (ns_attempts ns))] \<and>
     (case ns_activeAttempt ns of None \<Rightarrow> True | Some k \<Rightarrow> 1 \<le> k \<and> k \<le> length (ns_attempts ns))"

definition all_attempts_ok :: "run_state \<Rightarrow> bool" where
  "all_attempts_ok s \<longleftrightarrow> (\<forall>y ns. node_state s y = Some ns \<longrightarrow> attempts_ok ns)"

definition run_inv :: "bool \<Rightarrow> workflow_graph \<Rightarrow> run_state \<Rightarrow> bool" where
  "run_inv live g s \<longleftrightarrow>
     all_placed live s \<and> lists_distinct s \<and> all_attempts_ok s \<and>
     set (obj_keys (rs_nodeStates s)) = set (obj_keys (gr_nodes g))"

lemma set_removeNodeId [simp]: "set (removeNodeId xs y) = set xs - {y}"
  by (auto simp: removeNodeId_def)

lemma distinct_removeNodeId [simp]: "distinct xs \<Longrightarrow> distinct (removeNodeId xs y)"
  by (simp add: removeNodeId_def)

lemma node_state_with_node [simp]:
  "node_state (with_node x f s) y = (if y = x then map_option f (node_state s y) else node_state s y)"
  by (simp add: node_state_def with_node_def)

lemma with_node_fields [simp]:
  "rs_readyNodeIds (with_node x f s) = rs_readyNodeIds s"
  "rs_waitingNodeIds (with_node x f s) = rs_waitingNodeIds s"
  "rs_blockedNodeIds (with_node x f s) = rs_blockedNodeIds s"
  "rs_completedNodeIds (with_node x f s) = rs_completedNodeIds s"
  "rs_activeNodeIds (with_node x f s) = rs_activeNodeIds s"
  "rs_activatedEdgeIds (with_node x f s) = rs_activatedEdgeIds s"
  "rs_dispatchLineage (with_node x f s) = rs_dispatchLineage s"
  "rs_updatedAt (with_node x f s) = rs_updatedAt s"
  "rs_runId (with_node x f s) = rs_runId s"
  "rs_status (with_node x f s) = rs_status s"
  "rs_checkpointState (with_node x f s) = rs_checkpointState s"
  by (simp_all add: with_node_def)

text \<open>An update that leaves the node states alone is transparent to \<open>node_state\<close>.\<close>

lemma node_state_cong [simp]:
  "node_state (s\<lparr>rs_readyNodeIds := a\<rparr>) y = node_state s y"
  "node_state (s\<lparr>rs_waitingNodeIds := a\<rparr>) y = node_state s y"
  "node_state (s\<lparr>rs_blockedNodeIds := a\<rparr>) y = node_state s y"
  "node_state (s\<lparr>rs_completedNodeIds := a\<rparr>) y = node_state s y"
  "node_state (s\<lparr>rs_activeNodeIds := a\<rparr>) y = node_state s y"
  "node_state (s\<lparr>rs_activatedEdgeIds := a\<rparr>) y = node_state s y"
  "node_state (s\<lparr>rs_dispatchLineage := l\<rparr>) y = node_state s y"
  "node_state (s\<lparr>rs_status := st\<rparr>) y = node_state s y"
  "node_state (s\<lparr>rs_reasonCode := rc\<rparr>) y = node_state s y"
  "node_state (s\<lparr>rs_evidenceRefs := a\<rparr>) y = node_state s y"
  "node_state (s\<lparr>rs_updatedAt := ts\<rparr>) y = node_state s y"
  "node_state (s\<lparr>rs_checkpointState := c\<rparr>) y = node_state s y"
  "node_state (s\<lparr>rs_lastPreparedCheckpointId := o1\<rparr>) y = node_state s y"
  "node_state (s\<lparr>rs_lastCommittedCheckpointId := o1\<rparr>) y = node_state s y"
  by (simp_all add: node_state_def)

lemma view_cong:
  "node_state s' y = node_state s y \<Longrightarrow> view s' y = view s y"
  by (simp add: view_def)

lemma view_with_node [simp]:
  "view (with_node x f s) y =
     (if y = x then map_option (\<lambda>ns. (ns_status (f ns), ns_activeAttempt (f ns) \<noteq> None)) (node_state s y)
      else view s y)"
  by (simp add: view_def option.map_comp comp_def)

section \<open>Preservation of the placement\<close>

lemma placed_same:
  assumes "placed live s y" and "node_state s' y = node_state s y"
    and "y \<in> set (rs_readyNodeIds s') \<longleftrightarrow> y \<in> set (rs_readyNodeIds s)"
    and "y \<in> set (rs_waitingNodeIds s') \<longleftrightarrow> y \<in> set (rs_waitingNodeIds s)"
    and "y \<in> set (rs_blockedNodeIds s') \<longleftrightarrow> y \<in> set (rs_blockedNodeIds s)"
    and "y \<in> set (rs_completedNodeIds s') \<longleftrightarrow> y \<in> set (rs_completedNodeIds s)"
    and "y \<in> set (rs_activeNodeIds s') \<longleftrightarrow> y \<in> set (rs_activeNodeIds s)"
  shows "placed live s' y"
  using assms by (simp add: placed_def view_cong [OF assms(2)])

lemma placed_Some:
  "node_state s y = Some ns \<Longrightarrow>
   placed live s y \<longleftrightarrow>
     spot_ok live (Some (ns_status ns, ns_activeAttempt ns \<noteq> None)) (y \<in> set (rs_readyNodeIds s)) (y \<in> set (rs_waitingNodeIds s))
       (y \<in> set (rs_blockedNodeIds s)) (y \<in> set (rs_completedNodeIds s)) (y \<in> set (rs_activeNodeIds s))"
  by (simp add: placed_def view_def del: spot_ok.simps)

lemma placed_None: "node_state s y = None \<Longrightarrow> placed live s y \<longleftrightarrow>
     y \<notin> set (rs_readyNodeIds s) \<and> y \<notin> set (rs_waitingNodeIds s) \<and> y \<notin> set (rs_blockedNodeIds s)
     \<and> y \<notin> set (rs_completedNodeIds s) \<and> y \<notin> set (rs_activeNodeIds s)"
  by (simp add: placed_def view_def)

lemma placed_activate_edges: "placed live s z \<Longrightarrow> placed live (activate_edges g x b s) z"
  by (erule placed_same) (simp_all add: activate_edges_def)

text \<open>The successor of a state under \<open>mark_ready\<close>.\<close>

lemma mark_ready_effect:
  assumes "mark_ready env g x t ts y s = Inr s'"
  shows "rs_waitingNodeIds s' = rs_waitingNodeIds s" and "rs_blockedNodeIds s' = rs_blockedNodeIds s"
    and "rs_completedNodeIds s' = rs_completedNodeIds s" and "rs_activatedEdgeIds s' = rs_activatedEdgeIds s"
    and "rs_readyNodeIds s' = sortNodeIdsByTopology g (rs_readyNodeIds s @ [y])"
    and "rs_activeNodeIds s' = sortNodeIdsByTopology g (rs_activeNodeIds s @ [y])"
    and "z \<noteq> y \<Longrightarrow> node_state s' z = node_state s z"
    and "\<exists>ns ns'. node_state s y = Some ns \<and> node_state s' y = Some ns' \<and> ns_status ns' = NsReady \<and>
           ns_activeAttempt ns' = ns_activeAttempt ns \<and> ns_attempts ns' = ns_attempts ns"
    and "obj_keys (rs_nodeStates s') = obj_keys (rs_nodeStates s)"
    and "\<exists>l. rs_dispatchLineage s' = rs_dispatchLineage s @ [l]"
  using assms by (auto simp: mark_ready_def push_lineage_def Let_def split: option.splits)

lemma placed_mark_ready:
  assumes "placed live s z" and "mark_ready env g x t ts y s = Inr s'"
    and "y \<notin> set (rs_waitingNodeIds s)" "y \<notin> set (rs_blockedNodeIds s)" "y \<notin> set (rs_completedNodeIds s)"
  shows "placed live s' z"
proof (cases "z = y")
  case False
  with assms(1) show ?thesis
    by (rule_tac placed_same) (simp_all add: mark_ready_effect [OF assms(2)])
next
  case True
  obtain ns ns' where n: "node_state s y = Some ns" "node_state s' y = Some ns'" "ns_status ns' = NsReady"
    "ns_activeAttempt ns' = ns_activeAttempt ns"
    using mark_ready_effect(8) [OF assms(2)] by blast
  show ?thesis
    using assms(1,3-5) n unfolding True placed_Some [OF n(1)] placed_Some [OF n(2)]
    by (auto simp: mark_ready_effect [OF assms(2)])
qed

lemma placed_reset_body:
  assumes "placed live s z"
  shows "placed live (reset_body_node ts b s) z"
proof (cases "z = b")
  case False
  with assms show ?thesis by (rule_tac placed_same) (simp_all add: reset_body_node_def)
next
  case True
  show ?thesis
  proof (cases "node_state s b")
    case None
    with assms True show ?thesis by (simp add: placed_None reset_body_node_def)
  next
    case (Some ns)
    with assms True show ?thesis by (auto simp: placed_Some reset_body_node_def)
  qed
qed

lemma add_fields [simp]:
  "set (rs_readyNodeIds (add_ready g x s)) = insert x (set (rs_readyNodeIds s))"
  "rs_waitingNodeIds (add_ready g x s) = rs_waitingNodeIds s"
  "rs_blockedNodeIds (add_ready g x s) = rs_blockedNodeIds s"
  "rs_completedNodeIds (add_ready g x s) = rs_completedNodeIds s"
  "rs_activeNodeIds (add_ready g x s) = rs_activeNodeIds s"
  "node_state (add_ready g x s) y = node_state s y"
  "rs_nodeStates (add_ready g x s) = rs_nodeStates s"
  "rs_dispatchLineage (add_ready g x s) = rs_dispatchLineage s"
  "rs_readyNodeIds (add_active g x s) = rs_readyNodeIds s"
  "rs_waitingNodeIds (add_active g x s) = rs_waitingNodeIds s"
  "rs_blockedNodeIds (add_active g x s) = rs_blockedNodeIds s"
  "rs_completedNodeIds (add_active g x s) = rs_completedNodeIds s"
  "set (rs_activeNodeIds (add_active g x s)) = insert x (set (rs_activeNodeIds s))"
  "node_state (add_active g x s) y = node_state s y"
  "rs_nodeStates (add_active g x s) = rs_nodeStates s"
  "rs_dispatchLineage (add_active g x s) = rs_dispatchLineage s"
  by (auto simp: add_ready_def add_active_def)

lemma push_lineage_fields [simp]:
  "rs_readyNodeIds (push_lineage l s) = rs_readyNodeIds s"
  "rs_waitingNodeIds (push_lineage l s) = rs_waitingNodeIds s"
  "rs_blockedNodeIds (push_lineage l s) = rs_blockedNodeIds s"
  "rs_completedNodeIds (push_lineage l s) = rs_completedNodeIds s"
  "rs_activeNodeIds (push_lineage l s) = rs_activeNodeIds s"
  "node_state (push_lineage l s) y = node_state s y"
  "rs_nodeStates (push_lineage l s) = rs_nodeStates s"
  "rs_dispatchLineage (push_lineage l s) = rs_dispatchLineage s @ [l]"
  by (simp_all add: push_lineage_def)

lemma reset_body_fields [simp]:
  "rs_readyNodeIds (reset_body_node ts b s) = rs_readyNodeIds s"
  "rs_waitingNodeIds (reset_body_node ts b s) = rs_waitingNodeIds s"
  "rs_blockedNodeIds (reset_body_node ts b s) = rs_blockedNodeIds s"
  "rs_activeNodeIds (reset_body_node ts b s) = rs_activeNodeIds s"
  "rs_dispatchLineage (reset_body_node ts b s) = rs_dispatchLineage s"
  "set (rs_completedNodeIds (reset_body_node ts b s)) = set (rs_completedNodeIds s) - {b}"
  "node_state (reset_body_node ts b s) y = None \<longleftrightarrow> node_state s y = None"
  by (simp_all add: reset_body_node_def)

lemma reset_bodies_fields [simp]:
  "rs_readyNodeIds (fold (reset_body_node ts) bs s) = rs_readyNodeIds s"
  "rs_waitingNodeIds (fold (reset_body_node ts) bs s) = rs_waitingNodeIds s"
  "rs_blockedNodeIds (fold (reset_body_node ts) bs s) = rs_blockedNodeIds s"
  "rs_activeNodeIds (fold (reset_body_node ts) bs s) = rs_activeNodeIds s"
  "rs_dispatchLineage (fold (reset_body_node ts) bs s) = rs_dispatchLineage s"
  "set (rs_completedNodeIds (fold (reset_body_node ts) bs s)) = set (rs_completedNodeIds s) - set bs"
  "node_state (fold (reset_body_node ts) bs s) y = None \<longleftrightarrow> node_state s y = None"
  by (induction bs arbitrary: s) auto

lemma placed_reset_bodies: "placed live s z \<Longrightarrow> placed live (fold (reset_body_node ts) bs s) z"
  by (induction bs arbitrary: s) (auto intro: placed_reset_body)

lemma restart_loop_effect:
  defines "bodies s p ts g \<equiv> fold (reset_body_node ts) (loop_body g p) (s\<lparr>rs_completedNodeIds := removeNodeId (rs_completedNodeIds s) p\<rparr>)"
  shows "set (rs_readyNodeIds (restart_loop env g t ts p s)) = insert p (set (rs_readyNodeIds s))"
    and "rs_waitingNodeIds (restart_loop env g t ts p s) = rs_waitingNodeIds s"
    and "rs_blockedNodeIds (restart_loop env g t ts p s) = rs_blockedNodeIds s"
    and "set (rs_completedNodeIds (restart_loop env g t ts p s)) = set (rs_completedNodeIds s) - {p} - set (loop_body g p)"
    and "set (rs_activeNodeIds (restart_loop env g t ts p s)) = insert p (set (rs_activeNodeIds s))"
    and "z \<noteq> p \<Longrightarrow> node_state (restart_loop env g t ts p s) z = node_state (bodies s p ts g) z"
    and "node_state (bodies s p ts g) p = Some ns \<Longrightarrow>
      \<exists>ns'. node_state (restart_loop env g t ts p s) p = Some ns' \<and> ns_status ns' = NsReady \<and>
        ns_activeAttempt ns' = None \<and> ns_attempts ns' = ns_attempts ns"
    and "\<exists>l. rs_dispatchLineage (restart_loop env g t ts p s) = rs_dispatchLineage s @ [l]"
  unfolding restart_loop_def Let_def bodies_def
  by (simp_all only: with_node_fields push_lineage_fields add_fields reset_bodies_fields node_state_with_node if_False if_True)
    simp_all

lemma placed_restart_loop:
  assumes "placed live s z" and "node_state s p \<noteq> None"
  shows "placed live (restart_loop env g t ts p s) z"
proof -
  let ?s1 = "s\<lparr>rs_completedNodeIds := removeNodeId (rs_completedNodeIds s) p\<rparr>"
  let ?s2 = "fold (reset_body_node ts) (loop_body g p) ?s1"
  show ?thesis
  proof (cases "z = p")
    case False
    then have "placed live ?s1 z" by (intro placed_same [OF assms(1)]) simp_all
    then have "placed live ?s2 z" by (rule placed_reset_bodies)
    then show ?thesis
      by (rule placed_same) (use False in \<open>simp_all add: restart_loop_effect\<close>)
  next
    case True
    obtain ns where "node_state ?s2 p = Some ns"
      using assms(2) by (metis node_state_cong(4) not_None_eq reset_bodies_fields(7))
    from restart_loop_effect(7) [OF this]
    obtain ns' where ns': "node_state (restart_loop env g t ts p s) p = Some ns'" "ns_status ns' = NsReady" "ns_activeAttempt ns' = None"
      by blast
    obtain ns0 where ns0: "node_state s p = Some ns0" using assms(2) by auto
    show ?thesis
      using assms(1) ns'(2,3) unfolding True placed_Some [OF ns0] placed_Some [OF ns'(1)]
      by (auto simp: restart_loop_effect)
  qed
qed

lemma loop_parent_Some:
  "loop_parent g x s = Some p \<Longrightarrow> node_state s p \<noteq> None \<and> node_kind_of g p = Some KLoop"
  by (auto simp: loop_parent_def bind_eq_Some_conv split: option.splits if_splits)

lemma placed_reactivate_loop:
  "placed live s z \<Longrightarrow> placed live (reactivate_loop env g x t ts s) z"
  using loop_parent_Some by (auto simp: reactivate_loop_def intro: placed_restart_loop split: option.splits)

lemma wake_join_effect:
  assumes "wake_join g x ts j s = Inr s'"
  shows "set (rs_readyNodeIds s') = insert j (set (rs_readyNodeIds s))"
    and "rs_waitingNodeIds s' = removeNodeId (rs_waitingNodeIds s) j"
    and "rs_blockedNodeIds s' = rs_blockedNodeIds s" and "rs_completedNodeIds s' = rs_completedNodeIds s"
    and "rs_activeNodeIds s' = rs_activeNodeIds s"
    and "z \<noteq> j \<Longrightarrow> node_state s' z = node_state s z"
    and "\<exists>ns ns'. node_state s j = Some ns \<and> node_state s' j = Some ns' \<and> ns_status ns' = NsReady \<and>
           ns_activeAttempt ns' = None \<and> ns_attempts ns' = ns_attempts ns"
    and "obj_keys (rs_nodeStates s') = obj_keys (rs_nodeStates s)"
    and "rs_dispatchLineage s' = rs_dispatchLineage s"
  using assms by (auto simp: wake_join_def split: option.splits)

lemma spot_wake:
  assumes "spot_ok live (Some (st, pending)) r w b c a" and "w \<or> r"
  shows "spot_ok live (Some (NsReady, False)) True False b c a"
  using assms by (cases st) auto

lemma placed_wake_join:
  assumes "placed live s z" and "wake_join g x ts j s = Inr s'"
    and "j \<in> set (rs_waitingNodeIds s) \<union> set (rs_readyNodeIds s)"
  shows "placed live s' z"
proof (cases "z = j")
  case False
  with assms(1) show ?thesis
    by (rule_tac placed_same) (simp_all add: wake_join_effect [OF assms(2)])
next
  case True
  obtain ns ns' where n: "node_state s j = Some ns" "node_state s' j = Some ns'" "ns_status ns' = NsReady"
    "ns_activeAttempt ns' = None"
    using wake_join_effect(7) [OF assms(2)] by blast
  have "placed live s j" using assms(1) True by simp
  from spot_wake [OF this [unfolded placed_Some [OF n(1)]]] assms(3) show ?thesis
    unfolding True placed_Some [OF n(2)] by (simp add: wake_join_effect [OF assms(2)] n del: spot_ok.simps)
qed

lemma placed_skip_node:
  assumes "placed live s z" and "status_of s y \<noteq> Some NsCompleted"
  shows "placed live (skip_node w ts y s) z"
proof (cases "z = y")
  case False
  with assms(1) show ?thesis by (rule_tac placed_same) (simp_all add: skip_node_def)
next
  case True
  show ?thesis
  proof (cases "node_state s y")
    case None
    with assms(1) True show ?thesis by (simp add: placed_None skip_node_def)
  next
    case (Some ns)
    with assms True show ?thesis by (auto simp: placed_Some skip_node_def status_of_def)
  qed
qed

lemma placed_cancel_bfs:
  "(\<And>z. placed live s z) \<Longrightarrow> placed live (cancel_bfs g w ts q c s) z"
proof (induction g w ts q c s arbitrary: z rule: cancel_bfs.induct)
  case (1 g w ts c s)
  then show ?case by simp
next
  case (2 g w ts target q c s)
  show ?case
  proof (cases "target \<in> set c \<or> status_of s target \<in> {None, Some NsCompleted, Some NsSkipped}")
    case True
    with 2 show ?thesis by simp
  next
    case False
    then have "placed live (skip_node w ts target s) y" for y
      using "2.prems" by (intro placed_skip_node) auto
    with "2.IH"(2) [OF False] False show ?thesis by auto
  qed
qed

lemma placed_mark_all_ready:
  assumes "all_placed live s" and "foldR (mark_ready env g x t ts) (newly_ready g x s) s = Inr s'"
  shows "all_placed live s'"
proof -
  let ?P = "\<lambda>u. all_placed live u \<and> rs_waitingNodeIds u = rs_waitingNodeIds s \<and>
      rs_blockedNodeIds u = rs_blockedNodeIds s \<and> rs_completedNodeIds u = rs_completedNodeIds s"
  have "?P s'"
  proof (rule foldR_invariant [OF assms(2)])
    show "?P s" using assms(1) by simp
  next
    fix y u u'
    assume y: "y \<in> set (newly_ready g x s)" and P: "?P u" and step: "mark_ready env g x t ts y u = Inr u'"
    have "y \<notin> set (rs_waitingNodeIds u)" "y \<notin> set (rs_blockedNodeIds u)" "y \<notin> set (rs_completedNodeIds u)"
      using y P by (auto simp: newly_ready_def)
    with P step show "?P u'"
      using placed_mark_ready mark_ready_effect(1-3) [OF step] by (metis all_placed_def)
  qed
  then show ?thesis ..
qed

lemma placed_wake_all_joins:
  assumes "all_placed live s" and "foldR (wake_join g x ts) (waiting_joins g x s) s = Inr s'"
  shows "all_placed live s'"
proof -
  let ?P = "\<lambda>u. all_placed live u \<and> set (waiting_joins g x s) \<subseteq> set (rs_waitingNodeIds u) \<union> set (rs_readyNodeIds u)"
  have "?P s'"
  proof (rule foldR_invariant [OF assms(2)])
    show "?P s" using assms(1) by (auto simp: waiting_joins_def)
  next
    fix j u u'
    assume j: "j \<in> set (waiting_joins g x s)" and P: "?P u" and step: "wake_join g x ts j u = Inr u'"
    have "all_placed live u'"
      using P j placed_wake_join [OF _ step] by (auto simp: all_placed_def)
    moreover have "set (rs_waitingNodeIds u) \<union> set (rs_readyNodeIds u) \<subseteq> set (rs_waitingNodeIds u') \<union> set (rs_readyNodeIds u')"
      using wake_join_effect(1,2) [OF step] by auto
    ultimately show "?P u'" using P by blast
  qed
  then show ?thesis ..
qed

lemma placed_activateSuccessors:
  assumes "all_placed live s" and "activateSuccessors env g x t b s = Inr s'"
  shows "all_placed live s'"
proof -
  let ?ts = "occurredAt env (Some t) (Some (rs_updatedAt s))"
  obtain s2 where s2: "foldR (mark_ready env g x t ?ts) (newly_ready g x (activate_edges g x b s)) (activate_edges g x b s) = Inr s2"
    and s': "foldR (wake_join g x ?ts) (waiting_joins g x (reactivate_loop env g x t ?ts s2)) (reactivate_loop env g x t ?ts s2) = Inr s'"
    using assms(2) by (auto simp: activateSuccessors_def Let_def elim!: bindR_InrE)
  have "all_placed live (activate_edges g x b s)"
    using assms(1) placed_activate_edges by (simp add: all_placed_def)
  from placed_mark_all_ready [OF this s2] have "all_placed live (reactivate_loop env g x t ?ts s2)"
    using placed_reactivate_loop by (simp add: all_placed_def)
  from placed_wake_all_joins [OF this s'] show ?thesis .
qed

lemma placed_cancelRaceLosers: "all_placed live s \<Longrightarrow> all_placed live (cancelRaceLosers env g x t s)"
  by (simp add: cancelRaceLosers_def all_placed_def placed_cancel_bfs)

section \<open>Preservation by the operations\<close>

text \<open>A node that leaves the queues and takes a new status, with the lists to match.\<close>

lemma placed_move:
  assumes "all_placed live s"
    and "\<And>z. z \<noteq> x \<Longrightarrow> node_state s' z = node_state s z \<and>
      (z \<in> set (rs_readyNodeIds s') \<longleftrightarrow> z \<in> set (rs_readyNodeIds s)) \<and>
      (z \<in> set (rs_waitingNodeIds s') \<longleftrightarrow> z \<in> set (rs_waitingNodeIds s)) \<and>
      (z \<in> set (rs_blockedNodeIds s') \<longleftrightarrow> z \<in> set (rs_blockedNodeIds s)) \<and>
      (z \<in> set (rs_completedNodeIds s') \<longleftrightarrow> z \<in> set (rs_completedNodeIds s)) \<and>
      (z \<in> set (rs_activeNodeIds s') \<longleftrightarrow> z \<in> set (rs_activeNodeIds s))"
    and "placed live s' x"
  shows "all_placed live s'"
  unfolding all_placed_def
proof
  fix z
  show "placed live s' z"
  proof (cases "z = x")
    case True
    then show ?thesis using assms(3) by simp
  next
    case False
    have "placed live s z" using assms(1) by (simp add: all_placed_def)
    then show ?thesis using assms(2) [OF False] by (rule_tac placed_same) auto
  qed
qed

lemma leave_queues_fields [simp]:
  "rs_readyNodeIds (leave_queues x s) = removeNodeId (rs_readyNodeIds s) x"
  "rs_waitingNodeIds (leave_queues x s) = removeNodeId (rs_waitingNodeIds s) x"
  "rs_blockedNodeIds (leave_queues x s) = removeNodeId (rs_blockedNodeIds s) x"
  "rs_completedNodeIds (leave_queues x s) = rs_completedNodeIds s"
  "rs_activeNodeIds (leave_queues x s) = rs_activeNodeIds s"
  "node_state (leave_queues x s) y = node_state s y"
  "rs_nodeStates (leave_queues x s) = rs_nodeStates s"
  "rs_dispatchLineage (leave_queues x s) = rs_dispatchLineage s"
  "rs_updatedAt (leave_queues x s) = rs_updatedAt s"
  by (simp_all add: leave_queues_def)

lemma add_completed_fields [simp]:
  "rs_readyNodeIds (add_completed g x s) = rs_readyNodeIds s"
  "rs_waitingNodeIds (add_completed g x s) = rs_waitingNodeIds s"
  "rs_blockedNodeIds (add_completed g x s) = rs_blockedNodeIds s"
  "set (rs_completedNodeIds (add_completed g x s)) = insert x (set (rs_completedNodeIds s))"
  "rs_activeNodeIds (add_completed g x s) = rs_activeNodeIds s"
  "node_state (add_completed g x s) y = node_state s y"
  "rs_nodeStates (add_completed g x s) = rs_nodeStates s"
  "rs_dispatchLineage (add_completed g x s) = rs_dispatchLineage s"
  "rs_updatedAt (add_completed g x s) = rs_updatedAt s"
  by (simp_all add: add_completed_def)

lemma note_result_fields [simp]:
  "ns_status (note_result r ts ns) = mapOutcomeToStatus (er_outcome r)"
  "ns_activeAttempt (note_result r ts ns) = ns_activeAttempt ns"
  "ns_attempts (note_result r ts ns) = ns_attempts ns"
  by (simp_all add: note_result_def)

lemma enter_waiting_effect:
  "rs_readyNodeIds (enter_waiting g x k s) = rs_readyNodeIds s"
  "set (rs_waitingNodeIds (enter_waiting g x k s)) = insert x (set (rs_waitingNodeIds s))"
  "rs_blockedNodeIds (enter_waiting g x k s) = rs_blockedNodeIds s"
  "rs_completedNodeIds (enter_waiting g x k s) = rs_completedNodeIds s"
  "rs_activeNodeIds (enter_waiting g x k s) = rs_activeNodeIds s"
  "rs_dispatchLineage (enter_waiting g x k s) = rs_dispatchLineage s"
  "obj_keys (rs_nodeStates (enter_waiting g x k s)) = obj_keys (rs_nodeStates s)"
  "z \<noteq> x \<Longrightarrow> node_state (enter_waiting g x k s) z = node_state s z"
  by (simp_all add: enter_waiting_def Let_def)

lemma enter_waiting_node:
  assumes "node_state s x = Some ns"
  shows "\<exists>ns'. node_state (enter_waiting g x k s) x = Some ns' \<and> ns_status ns' = ns_status ns \<and>
    ns_activeAttempt ns' = Some k \<and> ns_attempts ns' = ns_attempts ns"
  using assms by (simp add: enter_waiting_def Let_def)

text \<open>The node an outcome is applied to is not completed, and (unless the run was canceled) is
  an active one.\<close>

definition may_settle :: "bool \<Rightarrow> run_state \<Rightarrow> string \<Rightarrow> bool" where
  "may_settle live s x \<longleftrightarrow> node_state s x \<noteq> None \<and> x \<notin> set (rs_completedNodeIds s) \<and>
     (live \<longrightarrow> x \<in> set (rs_activeNodeIds s))"

definition completed_node :: "workflow_graph \<Rightarrow> string \<Rightarrow> execution_result \<Rightarrow> string \<Rightarrow> run_state \<Rightarrow> run_state" where
  \<comment> \<open>the state in which a completed node hands over to its successors\<close>
  "completed_node g x r ts s =
     add_completed g x (with_node x (\<lambda>ns. ns\<lparr>ns_activeAttempt := None, ns_activeWaitState := None\<rparr>)
       (with_node x (note_result r ts) (leave_queues x s)))"

lemma placed_completed_node:
  assumes "all_placed live s" and "may_settle live s x" and "er_outcome r = OcCompleted"
  shows "all_placed live (completed_node g x r ts s)"
proof (rule placed_move [OF assms(1)])
  obtain ns where "node_state s x = Some ns" using assms(2) by (auto simp: may_settle_def)
  then show "placed live (completed_node g x r ts s) x"
    using assms(2,3) by (subst placed_Some) (auto simp: may_settle_def completed_node_def)
qed (auto simp: completed_node_def)

lemma placed_applyAttemptOutcome:
  assumes inv: "all_placed live s" and x: "may_settle live s x"
    and res: "applyAttemptOutcome env g x a r t s = Inr s'"
  shows "all_placed live s'"
proof -
  let ?ts = "occurredAt env (Some t) (Some (rs_updatedAt s))"
  let ?s1 = "with_node x (note_result r ?ts) (leave_queues x s)"
  obtain ns where ns: "node_state s x = Some ns" using x by (auto simp: may_settle_def)
  have nc: "x \<notin> set (rs_completedNodeIds s)" and act: "live \<longrightarrow> x \<in> set (rs_activeNodeIds s)"
    using x by (auto simp: may_settle_def)
  show ?thesis
  proof (cases "er_outcome r")
    case OcCompleted
    from placed_activateSuccessors [OF placed_cancelRaceLosers [OF placed_completed_node [OF inv x OcCompleted]]]
    show ?thesis
      using res OcCompleted by (simp add: applyAttemptOutcome_def Let_def finish_node_def completed_node_def)
  next
    case OcWaiting
    have s': "s' = enter_waiting g x (at_attempt a) ?s1"
      using res OcWaiting by (simp add: applyAttemptOutcome_def Let_def)
    show ?thesis
    proof (rule placed_move [OF inv])
      have "node_state ?s1 x = Some (note_result r ?ts ns)" using ns by simp
      from enter_waiting_node [OF this, of g "at_attempt a"] obtain ns' where ns': "node_state s' x = Some ns'"
        "ns_status ns' = NsWaiting" "ns_activeAttempt ns' \<noteq> None"
        unfolding s' using OcWaiting by auto
      show "placed live s' x"
        using act nc ns' unfolding placed_Some [OF ns'(1)] by (simp add: s' enter_waiting_effect)
    qed (auto simp: s' enter_waiting_effect)
  next
    case OcBlocked
    have s': "s' = enter_blocked g x (at_attempt a) ?s1"
      using res OcBlocked by (simp add: applyAttemptOutcome_def Let_def)
    show ?thesis
    proof (rule placed_move [OF inv])
      show "placed live s' x"
        using ns act nc OcBlocked unfolding s' by (subst placed_Some) (auto simp: enter_blocked_def)
    qed (auto simp: s' enter_blocked_def)
  next
    case OcFailed
    have s': "s' = with_node x (\<lambda>ns. ns\<lparr>ns_activeAttempt := None\<rparr>) ?s1"
      using res OcFailed by (simp add: applyAttemptOutcome_def Let_def)
    show ?thesis
    proof (rule placed_move [OF inv])
      show "placed live s' x"
        using ns act nc OcFailed unfolding s' by (subst placed_Some) auto
    qed (auto simp: s')
  qed
qed

end
