(* ===== verification/Run_Frame.thy ===== *)
theory Run_Frame
  imports Run_Invariant
begin

text \<open>
  What the helpers of \<open>run-state.ts\<close> leave alone: \<open>evolves s s'\<close> says that \<open>s'\<close> keeps the
  nodes, attempts, clock and checkpoint of \<open>s\<close> and only appends to its dispatch lineage.
  With it: the lists stay free of repetitions and attempts stay numbered 1, 2, and so on.
\<close>

section \<open>The frame\<close>

definition kept :: "node_run_state \<Rightarrow> node_run_state \<Rightarrow> bool" where
  "kept ns ns' \<longleftrightarrow> ns_attempts ns' = ns_attempts ns \<and>
     (ns_activeAttempt ns' = ns_activeAttempt ns \<or> ns_activeAttempt ns' = None)"

definition evolves :: "run_state \<Rightarrow> run_state \<Rightarrow> bool" where
  "evolves s s' \<longleftrightarrow>
     (\<forall>y. rel_option kept (node_state s y) (node_state s' y)) \<and>
     prefix (rs_dispatchLineage s) (rs_dispatchLineage s') \<and>
     rs_updatedAt s' = rs_updatedAt s \<and> rs_status s' = rs_status s \<and>
     rs_checkpointState s' = rs_checkpointState s"

lemma kept_refl [simp]: "kept ns ns"
  by (simp add: kept_def)

lemma kept_trans: "kept a b \<Longrightarrow> kept b c \<Longrightarrow> kept a c"
  by (auto simp: kept_def)

lemma rel_kept_refl [simp]: "rel_option kept m m"
  by (cases m) auto

lemma rel_kept_trans: "rel_option kept a b \<Longrightarrow> rel_option kept b c \<Longrightarrow> rel_option kept a c"
  by (cases a; cases b; cases c) (auto intro: kept_trans)

lemma evolves_refl [simp]: "evolves s s"
  by (simp add: evolves_def)

lemma evolves_trans [trans]: "evolves s t \<Longrightarrow> evolves t u \<Longrightarrow> evolves s u"
  unfolding evolves_def by (intro conjI allI) (auto intro: prefix_order.trans elim!: allE intro: rel_kept_trans)

lemma evolves_with_node:
  assumes "\<And>ns. node_state s x = Some ns \<Longrightarrow> kept ns (f ns)"
  shows "evolves s (with_node x f s)"
proof -
  have "rel_option kept (node_state s y) (node_state (with_node x f s) y)" for y
    using assms by (cases "node_state s y") auto
  then show ?thesis by (simp add: evolves_def)
qed

lemma evolves_lists:
  "evolves s (s\<lparr>rs_completedNodeIds := a\<rparr>)" "evolves s (s\<lparr>rs_activatedEdgeIds := a\<rparr>)"
  "evolves s (s\<lparr>rs_readyNodeIds := a\<rparr>)" "evolves s (s\<lparr>rs_waitingNodeIds := a\<rparr>)"
  "evolves s (s\<lparr>rs_blockedNodeIds := a\<rparr>)" "evolves s (s\<lparr>rs_activeNodeIds := a\<rparr>)"
  by (simp_all add: evolves_def)

lemma evolves_push: "evolves s (push_lineage l s)"
  by (simp add: evolves_def) (simp add: push_lineage_def)

lemma evolves_add: "evolves s (add_ready g x s)" "evolves s (add_active g x s)"
  by (simp_all add: add_ready_def add_active_def evolves_lists)

lemma evolves_activate_edges: "evolves s (activate_edges g x b s)"
  by (simp add: activate_edges_def evolves_lists)

lemma evolves_mark_ready:
  assumes "mark_ready env g x t ts y s = Inr s'"
  shows "evolves s s'"
proof -
  have "rs_updatedAt s' = rs_updatedAt s \<and> rs_status s' = rs_status s \<and> rs_checkpointState s' = rs_checkpointState s"
    using assms by (auto simp: mark_ready_def push_lineage_def Let_def split: option.splits)
  moreover have "rel_option kept (node_state s z) (node_state s' z)" for z
    using mark_ready_effect(7,8) [OF assms] by (cases "z = y") (auto simp: kept_def)
  moreover have "prefix (rs_dispatchLineage s) (rs_dispatchLineage s')"
    using mark_ready_effect(10) [OF assms] by auto
  ultimately show ?thesis by (simp add: evolves_def)
qed

lemma evolves_reset_body: "evolves s (reset_body_node ts b s)"
  unfolding reset_body_node_def
  by (rule evolves_trans [OF evolves_lists(1) evolves_with_node]) (auto simp: kept_def)

lemma evolves_reset_bodies: "evolves s (fold (reset_body_node ts) bs s)"
proof (induction bs arbitrary: s)
  case Nil
  then show ?case by simp
next
  case (Cons b bs)
  show ?case using evolves_trans [OF evolves_reset_body Cons.IH] by simp
qed

lemma evolves_restart_loop: "evolves s (restart_loop env g t ts p s)"
proof -
  let ?s1 = "s\<lparr>rs_completedNodeIds := removeNodeId (rs_completedNodeIds s) p\<rparr>"
  let ?s2 = "fold (reset_body_node ts) (loop_body g p) ?s1"
  let ?s3 = "add_active g p (add_ready g p ?s2)"
  have "evolves s ?s1" by (rule evolves_lists)
  also have "evolves ?s1 ?s2" by (rule evolves_reset_bodies)
  also have "evolves ?s2 (add_ready g p ?s2)" by (rule evolves_add)
  also have "evolves (add_ready g p ?s2) ?s3" by (rule evolves_add)
  finally have s3: "evolves s ?s3" .
  show ?thesis
    unfolding restart_loop_def Let_def
    by (rule evolves_trans [OF s3], rule evolves_trans [OF evolves_push], rule evolves_with_node) (simp add: kept_def)
qed

lemma evolves_reactivate_loop: "evolves s (reactivate_loop env g x t ts s)"
  by (simp add: reactivate_loop_def evolves_restart_loop split: option.splits)

lemma evolves_wake_join:
  assumes "wake_join g x ts j s = Inr s'"
  shows "evolves s s'"
proof -
  let ?s1 = "s\<lparr>rs_waitingNodeIds := removeNodeId (rs_waitingNodeIds s) j\<rparr>"
  have "evolves s ?s1" by (rule evolves_lists)
  also have "evolves ?s1 (add_ready g j ?s1)" by (rule evolves_add)
  also have "evolves (add_ready g j ?s1) s'"
  proof -
    let ?f = "\<lambda>ns. ns\<lparr>ns_status := NsReady, ns_activeAttempt := None, ns_activeWaitState := None,
        ns_joinProgress := note_upstream x (ns_joinProgress ns), ns_updatedAt := ts\<rparr>"
    have "s' = with_node j ?f (add_ready g j ?s1)"
      using assms by (auto simp: wake_join_def split: option.splits)
    moreover have "evolves (add_ready g j ?s1) (with_node j ?f (add_ready g j ?s1))"
      by (rule evolves_with_node) (simp add: kept_def)
    ultimately show ?thesis by simp
  qed
  finally show ?thesis .
qed

lemma evolves_foldR:
  assumes "foldR f xs s = Inr s'" and "\<And>x s s'. f x s = Inr s' \<Longrightarrow> evolves s s'"
  shows "evolves s s'"
  using assms by (rule_tac foldR_invariant [OF assms(1)]) (auto intro: evolves_trans)

lemma evolves_activateSuccessors:
  assumes "activateSuccessors env g x t b s = Inr s'"
  shows "evolves s s'"
proof -
  let ?ts = "occurredAt env (Some t) (Some (rs_updatedAt s))"
  obtain s2 where s2: "foldR (mark_ready env g x t ?ts) (newly_ready g x (activate_edges g x b s)) (activate_edges g x b s) = Inr s2"
    and s': "foldR (wake_join g x ?ts) (waiting_joins g x (reactivate_loop env g x t ?ts s2)) (reactivate_loop env g x t ?ts s2) = Inr s'"
    using assms by (auto simp: activateSuccessors_def Let_def elim!: bindR_InrE)
  have "evolves s s2"
    using evolves_trans [OF evolves_activate_edges evolves_foldR [OF s2 evolves_mark_ready]] .
  also have "evolves s2 (reactivate_loop env g x t ?ts s2)" by (rule evolves_reactivate_loop)
  also have "evolves (reactivate_loop env g x t ?ts s2) s'" by (rule evolves_foldR [OF s' evolves_wake_join])
  finally show ?thesis .
qed

lemma evolves_skip_node: "evolves s (skip_node w ts y s)"
proof -
  let ?s1 = "s\<lparr>rs_readyNodeIds := removeNodeId (rs_readyNodeIds s) y,
          rs_waitingNodeIds := removeNodeId (rs_waitingNodeIds s) y,
          rs_blockedNodeIds := removeNodeId (rs_blockedNodeIds s) y,
          rs_activeNodeIds := removeNodeId (rs_activeNodeIds s) y\<rparr>"
  have "evolves s ?s1" by (simp add: evolves_def)
  then show ?thesis
    unfolding skip_node_def by (rule evolves_trans [OF _ evolves_with_node]) (simp add: kept_def)
qed

lemma evolves_cancel_bfs: "evolves s (cancel_bfs g w ts q c s)"
proof (induction g w ts q c s rule: cancel_bfs.induct)
  case (1 g w ts c s)
  then show ?case by simp
next
  case (2 g w ts target q c s)
  show ?case
  proof (cases "target \<in> set c \<or> status_of s target \<in> {None, Some NsCompleted, Some NsSkipped}")
    case True
    with "2.IH"(1) show ?thesis by simp
  next
    case False
    from evolves_trans [OF evolves_skip_node "2.IH"(2) [OF False]] False show ?thesis
      by (simp only: cancel_bfs.simps if_False)
  qed
qed

lemma evolves_leave_queues: "evolves s (leave_queues x s)"
  by (simp add: evolves_def) (simp add: leave_queues_def)

lemma evolves_add_completed: "evolves s (add_completed g x s)"
  by (simp add: add_completed_def evolves_lists)

lemma evolves_finish_node:
  assumes "finish_node env g x t b s = Inr s'"
  shows "evolves s s'"
proof -
  let ?s1 = "with_node x (\<lambda>ns. ns\<lparr>ns_activeAttempt := None, ns_activeWaitState := None\<rparr>) s"
  have "evolves s ?s1" by (rule evolves_with_node) (simp add: kept_def)
  also have "evolves ?s1 (cancelRaceLosers env g x t (add_completed g x ?s1))"
    unfolding cancelRaceLosers_def by (rule evolves_trans [OF evolves_add_completed evolves_cancel_bfs])
  also have "evolves (cancelRaceLosers env g x t (add_completed g x ?s1)) s'"
    using assms unfolding finish_node_def by (rule evolves_activateSuccessors)
  finally show ?thesis .
qed

lemma evolves_keys: "evolves s s' \<Longrightarrow> set (obj_keys (rs_nodeStates s')) = set (obj_keys (rs_nodeStates s))"
proof -
  assume "evolves s s'"
  then have "node_state s' y = None \<longleftrightarrow> node_state s y = None" for y
    by (auto simp: evolves_def dest!: spec [of _ y] elim: option.rel_cases)
  then have "y \<notin> set (obj_keys (rs_nodeStates s')) \<longleftrightarrow> y \<notin> set (obj_keys (rs_nodeStates s))" for y
    by (simp add: node_state_def obj_get_None_iff)
  then show ?thesis by blast
qed

lemma attempts_ok_kept: "attempts_ok ns \<Longrightarrow> kept ns ns' \<Longrightarrow> attempts_ok ns'"
  by (auto simp: attempts_ok_def kept_def split: option.splits)

lemma evolves_attempts_ok:
  assumes "evolves s s'" and "all_attempts_ok s"
  shows "all_attempts_ok s'"
  unfolding all_attempts_ok_def
proof (intro allI impI)
  fix y ns'
  assume ns': "node_state s' y = Some ns'"
  have "rel_option kept (node_state s y) (node_state s' y)"
    using assms(1) by (simp add: evolves_def)
  with ns' obtain ns where "node_state s y = Some ns" "kept ns ns'"
    by (cases "node_state s y") auto
  with assms(2) show "attempts_ok ns'" using attempts_ok_kept by (auto simp: all_attempts_ok_def)
qed

section \<open>Lists without repetitions\<close>

lemma distinct_add_ready: "distinct (rs_readyNodeIds s) \<Longrightarrow> distinct (rs_readyNodeIds (add_ready g x s))"
  by (simp add: add_ready_def)

lemma distinct_add_active: "distinct (rs_activeNodeIds s) \<Longrightarrow> distinct (rs_activeNodeIds (add_active g x s))"
  by (simp add: add_active_def)

lemma distinct_mark_ready:
  assumes "lists_distinct s" and "mark_ready env g x t ts y s = Inr s'"
  shows "lists_distinct s'"
  using assms(1) by (simp add: lists_distinct_def mark_ready_effect [OF assms(2)])

lemma distinct_reset_bodies: "lists_distinct s \<Longrightarrow> lists_distinct (fold (reset_body_node ts) bs s)"
proof (induction bs arbitrary: s)
  case Nil
  then show ?case by simp
next
  case (Cons b bs)
  have "lists_distinct (reset_body_node ts b s)"
    using Cons.prems by (simp add: lists_distinct_def reset_body_node_def)
  from Cons.IH [OF this] show ?case by simp
qed

lemma activated_add [simp]:
  "rs_activatedEdgeIds (add_ready g x s) = rs_activatedEdgeIds s"
  "rs_activatedEdgeIds (add_active g x s) = rs_activatedEdgeIds s"
  "rs_activatedEdgeIds (push_lineage l s) = rs_activatedEdgeIds s"
  by (simp_all add: add_ready_def add_active_def push_lineage_def)

lemma distinct_reactivate_loop:
  assumes "lists_distinct s"
  shows "lists_distinct (reactivate_loop env g x t ts s)"
proof (cases "loop_parent g x s")
  case None
  with assms show ?thesis by (simp add: reactivate_loop_def)
next
  case (Some p)
  let ?s1 = "s\<lparr>rs_completedNodeIds := removeNodeId (rs_completedNodeIds s) p\<rparr>"
  have "lists_distinct ?s1" using assms by (simp add: lists_distinct_def)
  from distinct_reset_bodies [OF this, of ts "loop_body g p"]
  have "lists_distinct (restart_loop env g t ts p s)"
    by (simp add: restart_loop_def Let_def lists_distinct_def distinct_add_ready distinct_add_active
        del: reset_bodies_fields)
  with Some show ?thesis by (simp add: reactivate_loop_def)
qed

lemma distinct_wake_join:
  assumes "lists_distinct s" and "wake_join g x ts j s = Inr s'"
  shows "lists_distinct s'"
proof -
  let ?s1 = "s\<lparr>rs_waitingNodeIds := removeNodeId (rs_waitingNodeIds s) j\<rparr>"
  have "lists_distinct (add_ready g j ?s1)"
    using assms(1) by (simp add: lists_distinct_def distinct_add_ready)
  then show ?thesis
    using assms(2) by (auto simp: wake_join_def lists_distinct_def split: option.splits)
qed

lemma distinct_activateSuccessors:
  assumes "lists_distinct s" and "activateSuccessors env g x t b s = Inr s'"
  shows "lists_distinct s'"
proof -
  let ?ts = "occurredAt env (Some t) (Some (rs_updatedAt s))"
  obtain s2 where s2: "foldR (mark_ready env g x t ?ts) (newly_ready g x (activate_edges g x b s)) (activate_edges g x b s) = Inr s2"
    and s': "foldR (wake_join g x ?ts) (waiting_joins g x (reactivate_loop env g x t ?ts s2)) (reactivate_loop env g x t ?ts s2) = Inr s'"
    using assms(2) by (auto simp: activateSuccessors_def Let_def elim!: bindR_InrE)
  have "lists_distinct (activate_edges g x b s)"
    using assms(1) by (simp add: lists_distinct_def activate_edges_def)
  then have "lists_distinct s2"
    by (rule foldR_invariant [OF s2]) (rule distinct_mark_ready)
  from distinct_reactivate_loop [OF this] show ?thesis
    by (rule foldR_invariant [OF s']) (rule distinct_wake_join)
qed

lemma distinct_cancel_bfs: "lists_distinct s \<Longrightarrow> lists_distinct (cancel_bfs g w ts q c s)"
proof (induction g w ts q c s rule: cancel_bfs.induct)
  case (1 g w ts c s)
  then show ?case by simp
next
  case (2 g w ts target q c s)
  have "lists_distinct (skip_node w ts target s)"
    using "2.prems" by (simp add: lists_distinct_def skip_node_def)
  with 2 show ?case by (simp only: cancel_bfs.simps split: if_split) blast
qed

lemma distinct_applyAttemptOutcome:
  assumes "lists_distinct s" and "applyAttemptOutcome env g x a r t s = Inr s'"
  shows "lists_distinct s'"
proof -
  let ?s1 = "with_node x (note_result r (occurredAt env (Some t) (Some (rs_updatedAt s)))) (leave_queues x s)"
  have s1: "lists_distinct ?s1" using assms(1) by (simp add: lists_distinct_def) (simp add: leave_queues_def)
  show ?thesis
  proof (cases "er_outcome r")
    case OcCompleted
    let ?s2 = "add_completed g x (with_node x (\<lambda>ns. ns\<lparr>ns_activeAttempt := None, ns_activeWaitState := None\<rparr>) ?s1)"
    have "lists_distinct ?s2" using s1 by (simp add: lists_distinct_def add_completed_def)
    then have "lists_distinct (cancelRaceLosers env g x t ?s2)"
      unfolding cancelRaceLosers_def by (rule distinct_cancel_bfs)
    with OcCompleted assms(2) show ?thesis
      by (auto simp: applyAttemptOutcome_def Let_def finish_node_def intro: distinct_activateSuccessors)
  next
    case OcWaiting
    with s1 assms(2) show ?thesis
      by (auto simp: applyAttemptOutcome_def Let_def enter_waiting_def lists_distinct_def)
  next
    case OcBlocked
    with s1 assms(2) show ?thesis
      by (auto simp: applyAttemptOutcome_def Let_def enter_blocked_def lists_distinct_def)
  next
    case OcFailed
    with s1 assms(2) show ?thesis
      by (auto simp: applyAttemptOutcome_def Let_def lists_distinct_def)
  qed
qed

end
