(* ===== verification/Run_Operations.thy ===== *)
theory Run_Operations
  imports Run_Frame
begin

text \<open>
  The operations of \<open>run-state.ts\<close> as steps of one machine: every operation keeps the
  invariant \<open>run_inv\<close>, no operation fails with a \<open>TypeError\<close>, and the states reachable
  from a new run satisfy \<open>run_inv\<close>, in its stronger form as long as no cancel happened.
\<close>

datatype run_op =
    OpPause transition_input
  | OpResume transition_input
  | OpCancel transition_input
  | OpComplete string transition_input
  | OpExecute string execution_result transition_input "checkpoint_state option" "string option" "string option"
  | OpContinue string execution_result transition_input "checkpoint_state option" "string option" "string option"

fun is_cancel :: "run_op \<Rightarrow> bool" where
  "is_cancel (OpCancel _) = True"
| "is_cancel _ = False"

definition mk_input ::
  "workflow_graph \<Rightarrow> run_state \<Rightarrow> string \<Rightarrow> execution_result \<Rightarrow> transition_input
   \<Rightarrow> checkpoint_state option \<Rightarrow> string option \<Rightarrow> string option \<Rightarrow> execution_input" where
  "mk_input g s x r t ck prep comm =
     \<lparr>ei_state = s, ei_graph = g, ei_nodeDefinitionId = x, ei_result = r, ei_transition = t,
      ei_checkpointState = ck, ei_lastPreparedCheckpointId = prep, ei_lastCommittedCheckpointId = comm\<rparr>"

fun apply_op :: "wf_env \<Rightarrow> workflow_graph \<Rightarrow> run_op \<Rightarrow> run_state \<Rightarrow> run_state result" where
  "apply_op env g (OpPause t) s = pauseWorkflowRunState env s t"
| "apply_op env g (OpResume t) s = resumeWorkflowRunState env s t"
| "apply_op env g (OpCancel t) s = cancelWorkflowRunState env s t"
| "apply_op env g (OpComplete x t) s = completeWorkflowNodeInRunState env s g x t"
| "apply_op env g (OpExecute x r t ck prep comm) s = recordWorkflowNodeExecution env (mk_input g s x r t ck prep comm)"
| "apply_op env g (OpContinue x r t ck prep comm) s = resolveWorkflowNodeContinuation env (mk_input g s x r t ck prep comm)"

section \<open>The last assignments of an operation\<close>

lemma stamp_fields [simp]:
  "node_state (stamp_run t ts s) y = node_state s y"
  "rs_readyNodeIds (stamp_run t ts s) = rs_readyNodeIds s"
  "rs_waitingNodeIds (stamp_run t ts s) = rs_waitingNodeIds s"
  "rs_blockedNodeIds (stamp_run t ts s) = rs_blockedNodeIds s"
  "rs_completedNodeIds (stamp_run t ts s) = rs_completedNodeIds s"
  "rs_activeNodeIds (stamp_run t ts s) = rs_activeNodeIds s"
  "rs_activatedEdgeIds (stamp_run t ts s) = rs_activatedEdgeIds s"
  "rs_nodeStates (stamp_run t ts s) = rs_nodeStates s"
  "rs_dispatchLineage (stamp_run t ts s) = rs_dispatchLineage s"
  "rs_status (stamp_run t ts s) = rs_status s"
  "rs_checkpointState (stamp_run t ts s) = rs_checkpointState s"
  by (simp_all add: stamp_run_def)

lemma settle_fields [simp]:
  "node_state (settle_status s) y = node_state s y"
  "rs_readyNodeIds (settle_status s) = rs_readyNodeIds s"
  "rs_waitingNodeIds (settle_status s) = rs_waitingNodeIds s"
  "rs_blockedNodeIds (settle_status s) = rs_blockedNodeIds s"
  "rs_completedNodeIds (settle_status s) = rs_completedNodeIds s"
  "rs_activeNodeIds (settle_status s) = rs_activeNodeIds s"
  "rs_activatedEdgeIds (settle_status s) = rs_activatedEdgeIds s"
  "rs_nodeStates (settle_status s) = rs_nodeStates s"
  "rs_dispatchLineage (settle_status s) = rs_dispatchLineage s"
  "rs_status (settle_status s) = resolveRunStatus s"
  by (simp_all add: settle_status_def)

lemma checkpoint_fields [simp]:
  "node_state (updateCheckpointFields ck p c s) y = node_state s y"
  "rs_readyNodeIds (updateCheckpointFields ck p c s) = rs_readyNodeIds s"
  "rs_waitingNodeIds (updateCheckpointFields ck p c s) = rs_waitingNodeIds s"
  "rs_blockedNodeIds (updateCheckpointFields ck p c s) = rs_blockedNodeIds s"
  "rs_completedNodeIds (updateCheckpointFields ck p c s) = rs_completedNodeIds s"
  "rs_activeNodeIds (updateCheckpointFields ck p c s) = rs_activeNodeIds s"
  "rs_activatedEdgeIds (updateCheckpointFields ck p c s) = rs_activatedEdgeIds s"
  "rs_nodeStates (updateCheckpointFields ck p c s) = rs_nodeStates s"
  "rs_dispatchLineage (updateCheckpointFields ck p c s) = rs_dispatchLineage s"
  "rs_status (updateCheckpointFields ck p c s) = rs_status s"
  "rs_updatedAt (updateCheckpointFields ck p c s) = rs_updatedAt s"
  by (simp_all add: updateCheckpointFields_def)

text \<open>The invariant reads only the lists and the node states.\<close>

definition same_shape :: "run_state \<Rightarrow> run_state \<Rightarrow> bool" where
  "same_shape s s' \<longleftrightarrow>
     rs_nodeStates s' = rs_nodeStates s \<and> rs_readyNodeIds s' = rs_readyNodeIds s \<and>
     rs_waitingNodeIds s' = rs_waitingNodeIds s \<and> rs_blockedNodeIds s' = rs_blockedNodeIds s \<and>
     rs_completedNodeIds s' = rs_completedNodeIds s \<and> rs_activeNodeIds s' = rs_activeNodeIds s \<and>
     rs_activatedEdgeIds s' = rs_activatedEdgeIds s"

lemma run_inv_same_shape: "run_inv live g s \<Longrightarrow> same_shape s s' \<Longrightarrow> run_inv live g s'"
  by (simp add: run_inv_def all_placed_def placed_def view_def node_state_def lists_distinct_def
      all_attempts_ok_def same_shape_def)

lemma same_shape_ends [simp]:
  "same_shape s (settle_status (stamp_run t ts s))"
  "same_shape s (updateCheckpointFields ck p c s)"
  by (simp_all add: same_shape_def)

section \<open>Attempts\<close>

lemma attempts_after_outcome:
  assumes ok: "all_attempts_ok s" and res: "applyAttemptOutcome env g x a r t s = Inr s'"
    and a: "\<And>ns. node_state s x = Some ns \<Longrightarrow> 1 \<le> at_attempt a \<and> at_attempt a \<le> length (ns_attempts ns)"
  shows "all_attempts_ok s'" and "set (obj_keys (rs_nodeStates s')) = set (obj_keys (rs_nodeStates s))"
proof -
  let ?s1 = "with_node x (note_result r (occurredAt env (Some t) (Some (rs_updatedAt s)))) (leave_queues x s)"
  have ev: "evolves s ?s1"
    by (rule evolves_trans [OF evolves_leave_queues evolves_with_node]) (simp add: kept_def)
  have ok1: "all_attempts_ok ?s1" by (rule evolves_attempts_ok [OF ev ok])
  have keys1: "set (obj_keys (rs_nodeStates ?s1)) = set (obj_keys (rs_nodeStates s))"
    by (rule evolves_keys [OF ev])
  have "all_attempts_ok s' \<and> set (obj_keys (rs_nodeStates s')) = set (obj_keys (rs_nodeStates s))"
  proof (cases "er_outcome r")
    case OcCompleted
    then have "evolves ?s1 s'"
      using res by (simp add: applyAttemptOutcome_def Let_def evolves_finish_node)
    with ok1 keys1 show ?thesis using evolves_attempts_ok evolves_keys by simp
  next
    case OcWaiting
    then have s': "s' = enter_waiting g x (at_attempt a) ?s1"
      using res by (simp add: applyAttemptOutcome_def Let_def)
    have "attempts_ok ns'" if "node_state s' y = Some ns'" for y ns'
    proof (cases "y = x \<and> node_state s x \<noteq> None")
      case False
      then have "node_state ?s1 y = Some ns'"
        using that by (cases "y = x") (auto simp: s' enter_waiting_effect enter_waiting_def Let_def)
      with ok1 show ?thesis unfolding all_attempts_ok_def by blast
    next
      case True
      then obtain ns where ns: "node_state s x = Some ns" by auto
      then have "node_state ?s1 x = Some (note_result r (occurredAt env (Some t) (Some (rs_updatedAt s))) ns)" by simp
      from enter_waiting_node [OF this, of g "at_attempt a"] that True
      have "ns_activeAttempt ns' = Some (at_attempt a)" "ns_attempts ns' = ns_attempts ns"
        by (auto simp: s')
      then show ?thesis using ok ns a [OF ns] by (auto simp: all_attempts_ok_def attempts_ok_def)
    qed
    then show ?thesis using keys1 by (simp add: all_attempts_ok_def s' enter_waiting_effect)
  next
    case OcBlocked
    then have s': "s' = enter_blocked g x (at_attempt a) ?s1"
      using res by (simp add: applyAttemptOutcome_def Let_def)
    have "attempts_ok ns'" if y: "node_state s' y = Some ns'" for y ns'
    proof (cases "y = x")
      case False
      then have "node_state ?s1 y = Some ns'" using that by (simp add: s' enter_blocked_def)
      with ok1 show ?thesis unfolding all_attempts_ok_def by blast
    next
      case True
      then obtain ns where "node_state s x = Some ns" "ns_activeAttempt ns' = Some (at_attempt a)" "ns_attempts ns' = ns_attempts ns"
        using y by (auto simp: s' enter_blocked_def)
      then show ?thesis using ok a by (auto simp: all_attempts_ok_def attempts_ok_def)
    qed
    then show ?thesis using keys1 by (simp add: all_attempts_ok_def s' enter_blocked_def)
  next
    case OcFailed
    then have "evolves ?s1 s'"
      using res by (auto simp: applyAttemptOutcome_def Let_def kept_def intro!: evolves_with_node)
    with ok1 keys1 show ?thesis using evolves_attempts_ok evolves_keys by simp
  qed
  then show "all_attempts_ok s'" "set (obj_keys (rs_nodeStates s')) = set (obj_keys (rs_nodeStates s))" by auto
qed

lemma run_inv_outcome:
  assumes inv: "run_inv live g s" and x: "may_settle live s x"
    and res: "applyAttemptOutcome env g x a r t s = Inr s'"
    and a: "\<And>ns. node_state s x = Some ns \<Longrightarrow> 1 \<le> at_attempt a \<and> at_attempt a \<le> length (ns_attempts ns)"
  shows "run_inv live g s'"
proof -
  have parts: "all_placed live s" "lists_distinct s" "all_attempts_ok s"
    "set (obj_keys (rs_nodeStates s)) = set (obj_keys (gr_nodes g))"
    using inv by (simp_all add: run_inv_def)
  have "all_placed live s'" by (rule placed_applyAttemptOutcome [OF parts(1) x res])
  moreover have "lists_distinct s'" by (rule distinct_applyAttemptOutcome [OF parts(2) res])
  moreover have "all_attempts_ok s'" by (rule attempts_after_outcome(1) [OF parts(3) res a])
  moreover have "set (obj_keys (rs_nodeStates s')) = set (obj_keys (rs_nodeStates s))"
    by (rule attempts_after_outcome(2) [OF parts(3) res a])
  ultimately show ?thesis using parts(4) by (simp add: run_inv_def)
qed

section \<open>Each operation keeps the invariant\<close>

text \<open>The schema parser of the surroundings returns what it accepts.\<close>

definition env_ok :: "wf_env \<Rightarrow> bool" where
  "env_ok env \<longleftrightarrow> schema_parser (env_parse env)"

lemma env_parse_Inr: "env_ok env \<Longrightarrow> env_parse env s = Inr s' \<Longrightarrow> s' = s"
  using schema_parser.parse_id unfolding env_ok_def by metis

lemma placed_ready:
  assumes "all_placed live s" and "node_state s x = Some ns" and "ns_status ns \<in> {NsReady, NsRunning}"
  shows "may_settle live s x" and "ns_activeAttempt ns = None" and "ns_status ns = NsReady"
proof -
  have "placed live s x" using assms(1) by (simp add: all_placed_def)
  then show "may_settle live s x" "ns_activeAttempt ns = None" "ns_status ns = NsReady"
    using assms(2,3) by (auto simp: placed_Some may_settle_def)
qed

lemma placed_pending:
  assumes "all_placed live s" and "node_state s x = Some ns" and "ns_activeAttempt ns \<noteq> None"
  shows "may_settle live s x"
proof -
  have "placed live s x" using assms(1) by (simp add: all_placed_def)
  then show ?thesis using assms(2,3) by (auto simp: placed_Some may_settle_def)
qed

text \<open>Replacing a node state by one with the same status and pending attempt.\<close>

lemma run_inv_with_node:
  assumes "run_inv live g s"
    and "\<And>ns. node_state s x = Some ns \<Longrightarrow>
      ns_status (f ns) = ns_status ns \<and> (ns_activeAttempt (f ns) \<noteq> None \<longleftrightarrow> ns_activeAttempt ns \<noteq> None) \<and> attempts_ok (f ns)"
  shows "run_inv live g (with_node x f s)"
proof -
  have "view (with_node x f s) y = view s y" for y
    using assms(2) by (cases "node_state s x") (auto simp: view_def)
  then have "all_placed live (with_node x f s)"
    using assms(1) by (simp add: run_inv_def all_placed_def placed_def del: view_with_node)
  moreover have "all_attempts_ok (with_node x f s)"
    using assms unfolding run_inv_def all_attempts_ok_def by (auto split: if_splits)
  moreover have "lists_distinct (with_node x f s)"
    using assms(1) by (simp add: run_inv_def lists_distinct_def)
  ultimately show ?thesis using assms(1) by (simp add: run_inv_def)
qed

lemma run_inv_push_lineage: "run_inv live g s \<Longrightarrow> run_inv live g (push_lineage l s)"
  by (erule run_inv_same_shape) (simp add: same_shape_def push_lineage_def)

text \<open>The state \<open>recordWorkflowNodeExecution\<close> and \<open>resolveWorkflowNodeContinuation\<close> apply the
  outcome to.\<close>

definition with_attempt :: "string \<Rightarrow> node_attempt \<Rightarrow> dispatch_lineage \<Rightarrow> run_state \<Rightarrow> run_state" where
  "with_attempt x attempt lineage s =
     with_node x (\<lambda>n. n\<lparr>ns_attempts := ns_attempts n @ [attempt], ns_lastDispatchLineageId := Some (dl_id lineage)\<rparr>)
       (push_lineage lineage s)"

lemma execute_start:
  assumes inv: "run_inv live g s" and ns: "node_state s x = Some ns" and ready: "ns_status ns = NsReady"
    and attempt: "at_attempt attempt = Suc (length (ns_attempts ns))"
  shows "run_inv live g (updateCheckpointFields ck p c (with_attempt x attempt lineage s))"
    and "may_settle live (updateCheckpointFields ck p c (with_attempt x attempt lineage s)) x"
proof -
  let ?f = "\<lambda>n. n\<lparr>ns_attempts := ns_attempts n @ [attempt], ns_lastDispatchLineageId := Some (dl_id lineage)\<rparr>"
  have placed: "all_placed live s" using inv by (simp add: run_inv_def)
  have idle: "ns_activeAttempt ns = None" using placed_ready(2) [OF placed ns] ready by simp
  have "attempts_ok ns" using inv ns by (auto simp: run_inv_def all_attempts_ok_def)
  then have "attempts_ok (?f ns)" using idle attempt by (simp add: attempts_ok_def)
  then have "run_inv live g (with_attempt x attempt lineage s)"
    unfolding with_attempt_def using ns run_inv_push_lineage [OF inv] by (intro run_inv_with_node) auto
  then show "run_inv live g (updateCheckpointFields ck p c (with_attempt x attempt lineage s))"
    by (rule run_inv_same_shape) simp
  have "may_settle live s x" using placed_ready(1) [OF placed ns] ready by simp
  then show "may_settle live (updateCheckpointFields ck p c (with_attempt x attempt lineage s)) x"
    by (simp add: may_settle_def with_attempt_def)
qed

lemma run_inv_execute:
  assumes env: "env_ok env" and inv: "run_inv live g (ei_state i)" and g: "ei_graph i = g"
    and res: "recordWorkflowNodeExecution env i = Inr s'"
  shows "run_inv live g s'"
proof -
  let ?s = "ei_state i" and ?x = "ei_nodeDefinitionId i"
  let ?ts = "occurredAt env (Some (ei_transition i)) (Some (rs_updatedAt ?s))"
  obtain ns where ns: "node_state ?s ?x = Some ns" and ready: "ns_status ns = NsReady"
    using res by (auto simp: recordWorkflowNodeExecution_def Let_def split: option.splits if_splits)
  let ?n = "Suc (length (ns_attempts ns))"
  obtain lineage attempt s1 where attempt: "at_attempt attempt = ?n"
    and s1: "applyAttemptOutcome env g ?x attempt (ei_result i) (ei_transition i)
        (updateCheckpointFields (ei_checkpointState i) (ei_lastPreparedCheckpointId i) (ei_lastCommittedCheckpointId i)
          (with_attempt ?x attempt lineage ?s)) = Inr s1"
    and s': "env_parse env (settle_status (stamp_run (ei_transition i) ?ts s1)) = Inr s'"
    using res ns ready g that [of "new_attempt ?n _ _ _"]
    by (auto simp: recordWorkflowNodeExecution_def Let_def settle_execution_def new_attempt_def with_attempt_def
        elim!: bindR_InrE)
  have "run_inv live g s1"
    by (rule run_inv_outcome [OF execute_start(1,2) [OF inv ns ready attempt] s1])
      (use ns attempt in \<open>auto simp: with_attempt_def\<close>)
  then have "run_inv live g (settle_status (stamp_run (ei_transition i) ?ts s1))"
    by (rule run_inv_same_shape) simp
  then show ?thesis using env_parse_Inr [OF env s'] by simp
qed

lemma map_update_first:
  assumes "\<And>a. h (f a) = h a"
  shows "map h (update_first P f xs) = map h xs" and "length (update_first P f xs) = length xs"
  using assms by (induction xs) auto

definition with_continued :: "string \<Rightarrow> nat \<Rightarrow> (node_attempt \<Rightarrow> node_attempt) \<Rightarrow> run_state \<Rightarrow> run_state" where
  "with_continued x k f s =
     with_node x (\<lambda>n. n\<lparr>ns_attempts := update_first (\<lambda>a. at_attempt a = k) f (ns_attempts n)\<rparr>) s"

lemma continue_number [simp]: "at_attempt (continue_attempt ts r a) = at_attempt a"
  by (simp add: continue_attempt_def)

lemma continue_start:
  assumes inv: "run_inv live g s" and ns: "node_state s x = Some ns" and k: "ns_activeAttempt ns = Some k"
  shows "run_inv live g (updateCheckpointFields ck p c (with_continued x k (continue_attempt ts r) s))"
    and "may_settle live (updateCheckpointFields ck p c (with_continued x k (continue_attempt ts r) s)) x"
    and "1 \<le> k \<and> k \<le> length (ns_attempts ns)"
proof -
  let ?f = "\<lambda>n. n\<lparr>ns_attempts := update_first (\<lambda>a. at_attempt a = k) (continue_attempt ts r) (ns_attempts n)\<rparr>"
  have ok: "attempts_ok ns" using inv ns by (auto simp: run_inv_def all_attempts_ok_def)
  then show "1 \<le> k \<and> k \<le> length (ns_attempts ns)" using k by (simp add: attempts_ok_def)
  from ok have "attempts_ok (?f ns)"
    by (auto simp: attempts_ok_def map_update_first [where h = at_attempt, OF continue_number] split: option.splits)
  then have "run_inv live g (with_continued x k (continue_attempt ts r) s)"
    unfolding with_continued_def using ns by (intro run_inv_with_node [OF inv]) auto
  then show "run_inv live g (updateCheckpointFields ck p c (with_continued x k (continue_attempt ts r) s))"
    by (rule run_inv_same_shape) simp
  have placed: "all_placed live s" using inv by (simp add: run_inv_def)
  have "may_settle live s x" using placed_pending [OF placed ns] k by simp
  then show "may_settle live (updateCheckpointFields ck p c (with_continued x k (continue_attempt ts r) s)) x"
    by (simp add: may_settle_def with_continued_def)
qed

lemma run_inv_continue:
  assumes env: "env_ok env" and inv: "run_inv live g (ei_state i)" and g: "ei_graph i = g"
    and res: "resolveWorkflowNodeContinuation env i = Inr s'"
  shows "run_inv live g s'"
proof -
  let ?s = "ei_state i" and ?x = "ei_nodeDefinitionId i"
  let ?ts = "occurredAt env (Some (ei_transition i)) (Some (rs_updatedAt ?s))"
  let ?c = "continue_attempt ?ts (ei_result i)"
  obtain ns k attempt s1 where ns: "node_state ?s ?x = Some ns" and k: "ns_activeAttempt ns = Some k"
    and attempt: "find (\<lambda>a. at_attempt a = k) (ns_attempts ns) = Some attempt"
    and s1: "applyAttemptOutcome env g ?x (?c attempt) (ei_result i) (ei_transition i)
        (updateCheckpointFields (ei_checkpointState i) (ei_lastPreparedCheckpointId i) (ei_lastCommittedCheckpointId i)
          (with_continued ?x k ?c ?s)) = Inr s1"
    and s': "env_parse env (settle_status (stamp_run (ei_transition i) ?ts s1)) = Inr s'"
    using res g
    by (auto simp: resolveWorkflowNodeContinuation_def Let_def settle_execution_def with_continued_def
        elim!: bindR_InrE split: option.splits)
  have "at_attempt attempt = k" using attempt by (auto simp: find_Some_iff)
  then have "run_inv live g s1"
    using ns continue_start(3) [OF inv ns k]
    by (intro run_inv_outcome [OF continue_start(1,2) [OF inv ns k] s1])
      (auto simp: with_continued_def map_update_first(2) [where h = at_attempt, OF continue_number])
  then have "run_inv live g (settle_status (stamp_run (ei_transition i) ?ts s1))"
    by (rule run_inv_same_shape) simp
  then show ?thesis using env_parse_Inr [OF env s'] by simp
qed

end
