(* ===== verification/Run_Reachable.thy ===== *)
theory Run_Reachable
  imports Run_Operations
begin

text \<open>
  The rest of the operations, the absence of \<open>TypeError\<close>, and the states a run can reach.
\<close>

section \<open>Completing, pausing, resuming, canceling\<close>

lemma run_inv_finish:
  assumes inv: "run_inv live g s" and may: "may_settle live s x" and ns: "node_state s x = Some ns"
    and idle: "ns_activeAttempt ns = None"
    and f: "\<And>ns. ns_status (f ns) = NsCompleted \<and> ns_activeAttempt (f ns) = ns_activeAttempt ns \<and> ns_attempts (f ns) = ns_attempts ns"
  shows "run_inv live g (add_completed g x (leave_queues x (with_node x f s)))"
proof -
  let ?t = "add_completed g x (leave_queues x (with_node x f s))"
  have placed: "all_placed live s" using inv by (simp add: run_inv_def)
  have "all_placed live ?t"
  proof (rule placed_move [OF placed])
    have "node_state ?t x = Some (f ns)" using ns by simp
    then show "placed live ?t x"
      using may idle f [of ns] by (subst placed_Some) (auto simp: may_settle_def)
  qed auto
  moreover have "lists_distinct ?t"
    using inv by (simp add: run_inv_def lists_distinct_def add_completed_def) (simp add: leave_queues_def)
  moreover have "kept ns (f ns)" for ns using f by (simp add: kept_def)
  then have "evolves s (with_node x f s)" by (intro evolves_with_node)
  from evolves_trans [OF this evolves_trans [OF evolves_leave_queues evolves_add_completed]]
  have ev: "evolves s ?t" .
  moreover have "all_attempts_ok ?t"
    using evolves_attempts_ok [OF ev] inv by (simp add: run_inv_def)
  ultimately show ?thesis using inv evolves_keys [OF ev] by (simp add: run_inv_def)
qed

lemma run_inv_activateSuccessors:
  assumes "run_inv live g s" and "activateSuccessors env g' x t b s = Inr s'"
  shows "run_inv live g s'"
proof -
  have parts: "all_placed live s" "lists_distinct s" "all_attempts_ok s"
    "set (obj_keys (rs_nodeStates s)) = set (obj_keys (gr_nodes g))"
    using assms(1) by (simp_all add: run_inv_def)
  have ev: "evolves s s'" by (rule evolves_activateSuccessors [OF assms(2)])
  show ?thesis
    using placed_activateSuccessors [OF parts(1) assms(2)] distinct_activateSuccessors [OF parts(2) assms(2)]
      evolves_attempts_ok [OF ev parts(3)] evolves_keys [OF ev] parts(4)
    by (simp add: run_inv_def)
qed

lemma run_inv_complete:
  assumes env: "env_ok env" and inv: "run_inv live g s"
    and res: "completeWorkflowNodeInRunState env s g x t = Inr s'"
  shows "run_inv live g s'"
proof -
  let ?ts = "occurredAt env (Some t) (Some (rs_updatedAt s))"
  let ?f = "\<lambda>n. n\<lparr>ns_status := NsCompleted, ns_reasonCode := Some (tn_reasonCode t),
      ns_evidenceRefs := tn_evidenceRefs t, ns_updatedAt := ?ts, ns_activeWaitState := None\<rparr>"
  obtain ns s3 where ns: "node_state s x = Some ns" and st: "ns_status ns \<in> {NsReady, NsRunning}"
    and s3: "activateSuccessors env g x t (ns_selectedBranchKey ns) (add_completed g x (leave_queues x (with_node x ?f s))) = Inr s3"
    and s': "env_parse env (settle_status (stamp_run t ?ts s3)) = Inr s'"
    using res by (auto simp: completeWorkflowNodeInRunState_def Let_def elim!: bindR_InrE split: option.splits if_splits)
  have placed: "all_placed live s" using inv by (simp add: run_inv_def)
  note ready = placed_ready [OF placed ns st]
  have "run_inv live g (add_completed g x (leave_queues x (with_node x ?f s)))"
    by (rule run_inv_finish [OF inv ready(1) ns ready(2)]) simp
  then have "run_inv live g s3" by (rule run_inv_activateSuccessors [OF _ s3])
  then have "run_inv live g (settle_status (stamp_run t ?ts s3))" by (rule run_inv_same_shape) simp
  then show ?thesis using env_parse_Inr [OF env s'] by simp
qed

lemma run_inv_pause:
  assumes "env_ok env" and "run_inv live g s" and "pauseWorkflowRunState env s t = Inr s'"
  shows "run_inv live g s'"
  using env_parse_Inr [OF assms(1)] assms(3)
  by (intro run_inv_same_shape [OF assms(2)]) (auto simp: pauseWorkflowRunState_def same_shape_def split: if_splits dest!: env_parse_Inr [OF assms(1)])

lemma run_inv_resume:
  assumes "env_ok env" and "run_inv live g s" and "resumeWorkflowRunState env s t = Inr s'"
  shows "run_inv live g s'"
  using assms(3)
  by (intro run_inv_same_shape [OF assms(2)]) (auto simp: resumeWorkflowRunState_def same_shape_def split: if_splits dest!: env_parse_Inr [OF assms(1)])

lemma cancel_nodes_state:
  "node_state (fold (cancel_node t ts) xs s) y =
     (if y \<in> set xs then map_option (\<lambda>ns. ns\<lparr>ns_activeAttempt := None, ns_activeWaitState := None,
         ns_reasonCode := Some (tn_reasonCode t), ns_evidenceRefs := tn_evidenceRefs t, ns_updatedAt := ts\<rparr>) (node_state s y)
      else node_state s y)"
  by (induction xs arbitrary: s) (auto simp: cancel_node_def option.map_comp comp_def)

lemma cancel_nodes_fields [simp]:
  "rs_completedNodeIds (fold (cancel_node t ts) xs s) = rs_completedNodeIds s"
  "rs_activatedEdgeIds (fold (cancel_node t ts) xs s) = rs_activatedEdgeIds s"
  "obj_keys (rs_nodeStates (fold (cancel_node t ts) xs s)) = obj_keys (rs_nodeStates s)"
  "rs_dispatchLineage (fold (cancel_node t ts) xs s) = rs_dispatchLineage s"
  by (induction xs arbitrary: s) (auto simp: cancel_node_def)

lemma run_inv_cancel:
  assumes env: "env_ok env" and inv: "run_inv live g s" and res: "cancelWorkflowRunState env s t = Inr s'"
  shows "run_inv False g s'"
proof -
  let ?ts = "occurredAt env (Some t) (Some (rs_updatedAt s))"
  let ?affected = "uniq (rs_activeNodeIds s @ rs_readyNodeIds s @ rs_waitingNodeIds s @ rs_blockedNodeIds s)"
  let ?c = "fold (cancel_node t ?ts) ?affected s"
  have s': "s' = (stamp_run t ?ts ?c)\<lparr>rs_status := RsCanceled, rs_activeNodeIds := [], rs_readyNodeIds := [],
      rs_waitingNodeIds := [], rs_blockedNodeIds := [], rs_checkpointState := CkIdle\<rparr>"
    using res env_parse_Inr [OF env] by (auto simp: cancelWorkflowRunState_def Let_def split: if_splits)
  have node: "node_state s' y = node_state ?c y" for y by (simp add: s')
  have "placed False s' y" for y
  proof -
    have old: "placed live s y" using inv by (simp add: run_inv_def all_placed_def)
    show ?thesis
    proof (cases "node_state s y")
      case None
      have "y \<notin> set (rs_completedNodeIds s)" using old None by (simp add: placed_None)
      moreover have "node_state s' y = None" using None by (simp add: node cancel_nodes_state)
      ultimately show ?thesis by (simp add: placed_None s')
    next
      case (Some ns)
      define ns' where "ns' = the (node_state ?c y)"
      have ns': "node_state s' y = Some ns'" "ns_status ns' = ns_status ns"
        "ns_activeAttempt ns' = (if y \<in> set ?affected then None else ns_activeAttempt ns)"
        using Some by (simp_all add: node cancel_nodes_state ns'_def)
      have "ns_activeAttempt ns \<noteq> None \<longrightarrow> y \<in> set ?affected"
        using old Some by (auto simp: placed_Some)
      then have idle: "ns_activeAttempt ns' = None" using ns'(3) by auto
      have "ns_status ns \<noteq> NsRunning" and "y \<in> set (rs_completedNodeIds s) \<longleftrightarrow> ns_status ns = NsCompleted"
        using old Some by (auto simp: placed_Some)
      then show ?thesis
        unfolding placed_Some [OF ns'(1)] idle ns'(2) by (simp add: s')
    qed
  qed
  moreover have "all_attempts_ok s'"
    unfolding all_attempts_ok_def
  proof (intro allI impI)
    fix y ns'
    assume "node_state s' y = Some ns'"
    then obtain ns where "node_state s y = Some ns" "kept ns ns'"
      by (auto simp: node cancel_nodes_state kept_def split: if_splits)
    then show "attempts_ok ns'" using inv attempts_ok_kept by (auto simp: run_inv_def all_attempts_ok_def)
  qed
  ultimately show ?thesis
    using inv by (simp add: run_inv_def all_placed_def lists_distinct_def s')
qed

lemma run_inv_step:
  assumes "env_ok env" and "run_inv live g s" and "apply_op env g op s = Inr s'"
  shows "run_inv (live \<and> \<not> is_cancel op) g s'"
proof (cases op)
  case (OpPause t)
  then show ?thesis using run_inv_pause [OF assms(1,2)] assms(3) by simp
next
  case (OpResume t)
  then show ?thesis using run_inv_resume [OF assms(1,2)] assms(3) by simp
next
  case (OpCancel t)
  then show ?thesis using run_inv_cancel [OF assms(1,2)] assms(3) by simp
next
  case (OpComplete x t)
  then show ?thesis using run_inv_complete [OF assms(1,2)] assms(3) by simp
next
  case (OpExecute x r t ck p c)
  then show ?thesis
    using run_inv_execute [OF assms(1), of live g "mk_input g s x r t ck p c"] assms(2,3) by (simp add: mk_input_def)
next
  case (OpContinue x r t ck p c)
  then show ?thesis
    using run_inv_continue [OF assms(1), of live g "mk_input g s x r t ck p c"] assms(2,3) by (simp add: mk_input_def)
qed

end
