(* ===== verification/Run_Properties.thy ===== *)
theory Run_Properties
  imports Run_Reachable
begin

text \<open>
  The theorems on workflow runs: what every reachable state satisfies, which errors can
  occur, what a completed run looks like, and four runs that show where the code departs
  from what its names and comments say.
\<close>

section \<open>The first state\<close>

lemma keys_initial_nodes: "map fst (fst (initial_nodes env run t ts ready i ids ls)) = ids"
  by (induction ids arbitrary: i ls) (auto simp: Let_def)

lemma initial_nodes_values:
  "(k, ns) \<in> set (fst (initial_nodes env run t ts ready i ids ls)) \<Longrightarrow>
     ns_status ns = (if k \<in> set ready then NsReady else NsPending) \<and> ns_attempts ns = [] \<and> ns_activeAttempt ns = None"
  by (induction ids arbitrary: i ls) (auto simp: Let_def)

lemma run_inv_initial:
  assumes g: "graph_ok (ci_graph input)"
  shows "run_inv True (ci_graph input) (initial_run_state env input)"
proof -
  let ?g = "ci_graph input" and ?s = "initial_run_state env input"
  let ?ready = "getInitialReadyNodeIds ?g"
  obtain nodes where nodes: "rs_nodeStates ?s = from_entries [] nodes"
    and keys: "map fst nodes = gr_topologicalOrder ?g"
    and vals: "\<And>k ns. (k, ns) \<in> set nodes \<Longrightarrow>
       ns_status ns = (if k \<in> set ?ready then NsReady else NsPending) \<and> ns_attempts ns = [] \<and> ns_activeAttempt ns = None"
    using that [OF _ keys_initial_nodes initial_nodes_values] by (auto simp: initial_run_state_def Let_def)
  have lists: "rs_readyNodeIds ?s = ?ready" "rs_activeNodeIds ?s = ?ready" "rs_waitingNodeIds ?s = []"
    "rs_blockedNodeIds ?s = []" "rs_completedNodeIds ?s = []" "rs_activatedEdgeIds ?s = []"
    by (simp_all add: initial_run_state_def Let_def)
  have order: "distinct (gr_topologicalOrder ?g)" "set (gr_topologicalOrder ?g) = set (obj_keys (gr_nodes ?g))"
    "set ?ready \<subseteq> set (gr_topologicalOrder ?g)"
    using g by (auto simp: graph_ok_def getInitialReadyNodeIds_def)
  have eq: "rs_nodeStates ?s = nodes"
    unfolding nodes using order(1) keys by (subst from_entries_distinct) (auto simp: obj_keys_def)
  have get: "node_state ?s k = Some ns \<Longrightarrow> (k, ns) \<in> set nodes" for k ns
    by (simp add: node_state_def eq obj_get_def map_of_SomeD)
  have none: "node_state ?s k = None \<longleftrightarrow> k \<notin> set (gr_topologicalOrder ?g)" for k
    using keys by (simp add: node_state_def eq obj_get_None_iff obj_keys_def)
  have "placed True ?s y" for y
  proof (cases "node_state ?s y")
    case None
    then show ?thesis using none order(3) by (auto simp: placed_None lists)
  next
    case (Some ns)
    then show ?thesis using vals [OF get [OF Some]] by (auto simp: placed_Some lists split: if_splits)
  qed
  moreover have "all_attempts_ok ?s"
    unfolding all_attempts_ok_def attempts_ok_def using vals get by fastforce
  moreover have "distinct ?ready" by (simp add: getInitialReadyNodeIds_def)
  moreover have "set (obj_keys (rs_nodeStates ?s)) = set (obj_keys (gr_nodes ?g))"
    using keys order(2) by (simp add: eq obj_keys_def)
  ultimately show ?thesis
    by (simp add: run_inv_def all_placed_def lists_distinct_def lists)
qed

section \<open>Reachable states\<close>

text \<open>The index is true as long as the run was not canceled.\<close>

inductive run_reachable :: "wf_env \<Rightarrow> workflow_graph \<Rightarrow> bool \<Rightarrow> run_state \<Rightarrow> bool"
  for env :: wf_env and g :: workflow_graph where
  start: "ci_graph input = g \<Longrightarrow> createInitialWorkflowRunState env input = Inr s \<Longrightarrow> run_reachable env g True s"
| step: "run_reachable env g live s \<Longrightarrow> apply_op env g op s = Inr s' \<Longrightarrow>
    run_reachable env g (live \<and> \<not> is_cancel op) s'"

inductive_cases run_reachableE: "run_reachable env g live s"

lemma run_reachable_inv:
  assumes "run_reachable env g live s" and "env_ok env" and "graph_ok g"
  shows "run_inv live g s"
  using assms(1)
proof (induction rule: run_reachable.induct)
  case (start input s)
  then have "s = initial_run_state env input"
    using env_parse_Inr [OF assms(2)] by (auto simp: createInitialWorkflowRunState_def split: if_splits)
  then show ?case using run_inv_initial [of input env] assms(3) start(1) by simp
next
  case (step live s op s')
  from run_inv_step [OF assms(2) step.IH step.hyps(2)] show ?case .
qed

section \<open>No type errors\<close>

lemma candidate_known:
  "candidate_ready g c a (Some y) \<Longrightarrow> obj_get y (gr_nodes g) \<noteq> None"
  by (auto simp: candidate_ready_def inbound_in_def Let_def split: if_splits option.splits)

lemma activateSuccessors_total:
  assumes placed: "all_placed live s" and keys: "set (obj_keys (rs_nodeStates s)) = set (obj_keys (gr_nodes g))"
  shows "\<exists>s'. activateSuccessors env g x t b s = Inr s'"
proof -
  let ?ts = "occurredAt env (Some t) (Some (rs_updatedAt s))" and ?s1 = "activate_edges g x b s"
  let ?K = "\<lambda>u :: run_state. set (obj_keys (rs_nodeStates u)) = set (obj_keys (gr_nodes g))"
  have known: "\<exists>ns. node_state u y = Some ns" if "?K u" "obj_get y (gr_nodes g) \<noteq> None" for u y
    using that by (metis node_state_def obj_get_None_iff not_None_eq)
  have new: "obj_get y (gr_nodes g) \<noteq> None" if "y \<in> set (newly_ready g x ?s1)" for y
    using that candidate_known by (fastforce simp: newly_ready_def set_getNextReadyNodeIds)
  have "?K ?s1" using keys by (simp add: activate_edges_def)
  then have "\<exists>s2. foldR (mark_ready env g x t ?ts) (newly_ready g x ?s1) ?s1 = Inr s2 \<and> ?K s2"
  proof (rule foldR_total)
    fix y and u :: run_state
    assume "y \<in> set (newly_ready g x ?s1)" and K: "?K u"
    from known [OF K new [OF this(1)]] obtain u' where u': "mark_ready env g x t ?ts y u = Inr u'"
      by (auto simp: mark_ready_def Let_def)
    then show "\<exists>u'. mark_ready env g x t ?ts y u = Inr u' \<and> ?K u'"
      using K mark_ready_effect(9) [OF u'] by auto
  qed
  then obtain s2 where s2: "foldR (mark_ready env g x t ?ts) (newly_ready g x ?s1) ?s1 = Inr s2" by blast
  let ?s3 = "reactivate_loop env g x t ?ts s2"
  have "all_placed live ?s1" using placed placed_activate_edges by (simp add: all_placed_def)
  from placed_mark_all_ready [OF this s2] have p3: "all_placed live ?s3"
    using placed_reactivate_loop by (simp add: all_placed_def)
  have waiting: "node_state ?s3 y \<noteq> None" if "y \<in> set (waiting_joins g x ?s3)" for y
  proof
    assume "node_state ?s3 y = None"
    moreover have "placed live ?s3 y" using p3 by (simp add: all_placed_def)
    ultimately show False using that by (simp add: placed_None waiting_joins_def)
  qed
  have "\<exists>s'. foldR (wake_join g x ?ts) (waiting_joins g x ?s3) ?s3 = Inr s' \<and>
      (\<forall>y\<in>set (waiting_joins g x ?s3). node_state s' y \<noteq> None)"
  proof (rule foldR_total)
    show "\<forall>y\<in>set (waiting_joins g x ?s3). node_state ?s3 y \<noteq> None" using waiting by blast
  next
    fix j u
    assume j: "j \<in> set (waiting_joins g x ?s3)" and all: "\<forall>y\<in>set (waiting_joins g x ?s3). node_state u y \<noteq> None"
    then obtain u' where u': "wake_join g x ?ts j u = Inr u'" by (fastforce simp: wake_join_def)
    have "node_state u' y \<noteq> None" if "node_state u y \<noteq> None" for y
      using that wake_join_effect(6,7) [OF u'] by (cases "y = j") auto
    with u' all show "\<exists>u'. wake_join g x ?ts j u = Inr u' \<and> (\<forall>y\<in>set (waiting_joins g x ?s3). node_state u' y \<noteq> None)"
      by blast
  qed
  then show ?thesis using s2 by (auto simp: activateSuccessors_def Let_def)
qed

lemma applyAttemptOutcome_total:
  assumes inv: "run_inv live g s" and may: "may_settle live s x"
  shows "\<exists>s'. applyAttemptOutcome env g x a r t s = Inr s'"
proof (cases "er_outcome r")
  case OcCompleted
  let ?u = "completed_node g x r (occurredAt env (Some t) (Some (rs_updatedAt s))) s"
  have parts: "all_placed live s" "set (obj_keys (rs_nodeStates s)) = set (obj_keys (gr_nodes g))"
    using inv by (simp_all add: run_inv_def)
  have "evolves ?u (cancelRaceLosers env g x t ?u)"
    unfolding cancelRaceLosers_def by (rule evolves_cancel_bfs)
  from evolves_keys [OF this] parts(2)
  have "set (obj_keys (rs_nodeStates (cancelRaceLosers env g x t ?u))) = set (obj_keys (gr_nodes g))"
    by (simp add: completed_node_def)
  from activateSuccessors_total [OF placed_cancelRaceLosers [OF placed_completed_node [OF parts(1) may OcCompleted]] this]
  show ?thesis
    using OcCompleted by (simp add: applyAttemptOutcome_def Let_def finish_node_def completed_node_def)
qed (simp_all add: applyAttemptOutcome_def Let_def)

text \<open>The schema parser of the surroundings throws its own error and no other.\<close>

definition zod_errors :: "wf_env \<Rightarrow> bool" where
  "zod_errors env \<longleftrightarrow> (\<forall>s e. env_parse env s = Inl e \<longrightarrow> e = ZodError)"

lemma bindR_Inl: "bindR m f = Inl e \<Longrightarrow> m = Inl e \<or> (\<exists>y. m = Inr y \<and> f y = Inl e)"
  by (cases m) auto

lemma settle_execution_error:
  assumes "run_inv live (ei_graph i) (updateCheckpointFields (ei_checkpointState i) (ei_lastPreparedCheckpointId i) (ei_lastCommittedCheckpointId i) s)"
    and "may_settle live (updateCheckpointFields (ei_checkpointState i) (ei_lastPreparedCheckpointId i) (ei_lastCommittedCheckpointId i) s) (ei_nodeDefinitionId i)"
    and "zod_errors env" and "settle_execution env i ts attempt s = Inl e"
  shows "e = ZodError"
proof -
  obtain s1 where "applyAttemptOutcome env (ei_graph i) (ei_nodeDefinitionId i) attempt (ei_result i) (ei_transition i)
      (updateCheckpointFields (ei_checkpointState i) (ei_lastPreparedCheckpointId i) (ei_lastCommittedCheckpointId i) s) = Inr s1"
    using applyAttemptOutcome_total [OF assms(1,2)] by blast
  then show ?thesis using assms(3,4) by (auto simp: settle_execution_def zod_errors_def)
qed

lemma execute_error:
  assumes "run_inv live (ei_graph i) (ei_state i)" and "zod_errors env" and "recordWorkflowNodeExecution env i = Inl e"
  shows "e \<noteq> TypeError"
proof (cases "node_state (ei_state i) (ei_nodeDefinitionId i)")
  case None
  then show ?thesis using assms(3) by (auto simp: recordWorkflowNodeExecution_def unknown_node_def)
next
  case (Some ns)
  show ?thesis
  proof (cases "ns_status ns = NsReady")
    case False
    then show ?thesis using assms(3) Some by (auto simp: recordWorkflowNodeExecution_def node_error_def)
  next
    case True
    obtain lineage attempt ts where attempt: "at_attempt attempt = Suc (length (ns_attempts ns))"
      and e: "settle_execution env i ts attempt (with_attempt (ei_nodeDefinitionId i) attempt lineage (ei_state i)) = Inl e"
      using assms(3) Some True that [of "new_attempt (Suc (length (ns_attempts ns))) _ _ _"]
      by (auto simp: recordWorkflowNodeExecution_def Let_def with_attempt_def new_attempt_def)
    show ?thesis
      using settle_execution_error [OF execute_start(1,2) [OF assms(1) Some True attempt] assms(2) e] by simp
  qed
qed

lemma continue_error:
  assumes "run_inv live (ei_graph i) (ei_state i)" and "zod_errors env" and "resolveWorkflowNodeContinuation env i = Inl e"
  shows "e \<noteq> TypeError"
proof -
  let ?x = "ei_nodeDefinitionId i"
  consider "\<exists>m. e = JsError m"
    | ns k attempt ts where "node_state (ei_state i) ?x = Some ns" "ns_activeAttempt ns = Some k"
      "settle_execution env i ts (continue_attempt ts (ei_result i) attempt)
        (with_continued ?x k (continue_attempt ts (ei_result i)) (ei_state i)) = Inl e"
    using assms(3)
    by (auto simp: resolveWorkflowNodeContinuation_def Let_def with_continued_def unknown_node_def split: option.splits)
  then show ?thesis
  proof cases
    case 1
    then show ?thesis by auto
  next
    case 2
    then show ?thesis
      using settle_execution_error [OF continue_start(1,2) [OF assms(1) 2(1,2)] assms(2) 2(3)] by simp
  qed
qed

lemma complete_error:
  assumes inv: "run_inv live g s" and zod: "zod_errors env" and e: "completeWorkflowNodeInRunState env s g x t = Inl e"
  shows "e \<noteq> TypeError"
proof -
  let ?ts = "occurredAt env (Some t) (Some (rs_updatedAt s))"
  let ?f = "\<lambda>n. n\<lparr>ns_status := NsCompleted, ns_reasonCode := Some (tn_reasonCode t),
      ns_evidenceRefs := tn_evidenceRefs t, ns_updatedAt := ?ts, ns_activeWaitState := None\<rparr>"
  let ?u = "add_completed g x (leave_queues x (with_node x ?f s))"
  have placed: "all_placed live s" using inv by (simp add: run_inv_def)
  consider "\<exists>m. e = JsError m"
    | ns where "node_state s x = Some ns" "ns_status ns \<in> {NsReady, NsRunning}"
      "bindR (activateSuccessors env g x t (ns_selectedBranchKey ns) ?u)
        (\<lambda>s3. env_parse env (settle_status (stamp_run t ?ts s3))) = Inl e"
    using e by (auto simp: completeWorkflowNodeInRunState_def Let_def unknown_node_def node_error_def
        split: option.splits if_splits)
  then show ?thesis
  proof cases
    case 1
    then show ?thesis by auto
  next
    case 2
    note ready = placed_ready [OF placed 2(1,2)]
    have "run_inv live g ?u" by (rule run_inv_finish [OF inv ready(1) 2(1) ready(2)]) simp
    then obtain s3 where "activateSuccessors env g x t (ns_selectedBranchKey ns) ?u = Inr s3"
      using activateSuccessors_total unfolding run_inv_def by blast
    then show ?thesis using 2(3) zod by (auto simp: zod_errors_def)
  qed
qed

lemma op_error:
  assumes "run_inv live g s" and "zod_errors env" and "apply_op env g op s = Inl e"
  shows "e \<noteq> TypeError"
proof (cases op)
  case (OpComplete x t)
  then show ?thesis using complete_error [OF assms(1,2)] assms(3) by simp
next
  case (OpExecute x r t ck p c)
  then show ?thesis using execute_error [of live "mk_input g s x r t ck p c"] assms by (simp add: mk_input_def)
next
  case (OpContinue x r t ck p c)
  then show ?thesis using continue_error [of live "mk_input g s x r t ck p c"] assms by (simp add: mk_input_def)
qed (use assms(2,3) in \<open>auto simp: pauseWorkflowRunState_def resumeWorkflowRunState_def cancelWorkflowRunState_def
    run_error_def zod_errors_def Let_def split: if_splits\<close>)

end
