(* ===== verification/Run_Laws.thy ===== *)
theory Run_Laws
  imports Run_Properties
begin

text \<open>
  Laws of the run state behind the properties: which nodes the loser of a race takes with
  it, what an operation may do to the recorded history, and how the status of a run relates
  to its nodes.
\<close>

section \<open>The losers of a race\<close>

definition cancellable :: "run_state \<Rightarrow> string \<Rightarrow> bool" where
  "cancellable s y \<longleftrightarrow> status_of s y \<notin> {None, Some NsCompleted, Some NsSkipped}"

definition graph_succs :: "workflow_graph \<Rightarrow> string \<Rightarrow> string list" where
  "graph_succs g x = List.map_filter (edge_target g) (outbound_in g x)"

definition cancel_rel :: "workflow_graph \<Rightarrow> run_state \<Rightarrow> (string \<times> string) set" where
  "cancel_rel g s = {(a, b). cancellable s a \<and> b \<in> set (graph_succs g a)}"

definition downstream :: "workflow_graph \<Rightarrow> run_state \<Rightarrow> string set \<Rightarrow> string set" where
  "downstream g s A = {y. cancellable s y \<and> (\<exists>a\<in>A. (a, y) \<in> (cancel_rel g s)\<^sup>*)}"

lemma status_skip_node:
  "status_of (skip_node w ts t s) y = (if y = t \<and> status_of s t \<noteq> None then Some NsSkipped else status_of s y)"
  by (cases "node_state s t") (auto simp: status_of_def skip_node_def)

lemma downstream_skip:
  assumes "cancellable s t"
  shows "downstream g s (insert t A) =
    insert t (downstream g (skip_node w ts t s) (A \<union> set (graph_succs g t)))"
proof -
  let ?s' = "skip_node w ts t s" and ?A' = "A \<union> set (graph_succs g t)"
  have c': "cancellable ?s' y \<longleftrightarrow> cancellable s y \<and> y \<noteq> t" for y
    using assms by (auto simp: cancellable_def status_skip_node)
  have sub: "cancel_rel g ?s' \<subseteq> cancel_rel g s"
    by (auto simp: cancel_rel_def c')
  have "y \<in> downstream g ?s' ?A'" if path: "(a, y) \<in> (cancel_rel g s)\<^sup>*" and a: "a \<in> insert t A"
      and y: "cancellable s y" "y \<noteq> t" for a y
  proof -
    have "(a, y) \<in> (cancel_rel g ?s')\<^sup>* \<or> (\<exists>b\<in>set (graph_succs g t). (b, y) \<in> (cancel_rel g ?s')\<^sup>*)"
      using path
    proof (induction rule: converse_rtrancl_induct)
      case base
      then show ?case by simp
    next
      case (step u v)
      show ?case
      proof (cases "u = t")
        case True
        with step show ?thesis by (auto simp: cancel_rel_def)
      next
        case False
        then have "(u, v) \<in> cancel_rel g ?s'" using step.hyps(1) by (simp add: cancel_rel_def c')
        with step.IH show ?thesis by (meson converse_rtrancl_into_rtrancl)
      qed
    qed
    moreover have "\<not> (t, y) \<in> (cancel_rel g ?s')\<^sup>*"
      using y(2) by (auto elim: converse_rtranclE simp: cancel_rel_def c')
    ultimately show ?thesis using a y c' by (auto simp: downstream_def)
  qed
  moreover have "y \<in> downstream g s (insert t A)" if "y \<in> downstream g ?s' ?A'" for y
  proof -
    obtain a where a: "a \<in> ?A'" and path: "(a, y) \<in> (cancel_rel g s)\<^sup>*" and y: "cancellable s y"
      using \<open>y \<in> downstream g ?s' ?A'\<close> rtrancl_mono [OF sub] c' unfolding downstream_def by blast
    show ?thesis
    proof (cases "a \<in> A")
      case True
      with path y show ?thesis by (auto simp: downstream_def)
    next
      case False
      with a have "(t, a) \<in> cancel_rel g s" using assms by (simp add: cancel_rel_def)
      then have "(t, y) \<in> (cancel_rel g s)\<^sup>*" using path by (rule converse_rtrancl_into_rtrancl)
      with y show ?thesis by (auto simp: downstream_def)
    qed
  qed
  moreover have "t \<in> downstream g s (insert t A)" using assms by (auto simp: downstream_def)
  ultimately show ?thesis by (auto simp: downstream_def)
qed

lemma downstream_stuck:
  assumes "\<not> cancellable s t"
  shows "downstream g s (insert t A) = downstream g s A"
proof -
  have "y = t" if "(t, y) \<in> (cancel_rel g s)\<^sup>*" for y
    using that assms by (auto elim: converse_rtranclE simp: cancel_rel_def)
  then show ?thesis using assms by (auto simp: downstream_def)
qed

lemma cancel_bfs_status:
  assumes "\<forall>x\<in>set c. status_of s x = Some NsSkipped"
  shows "status_of (cancel_bfs g w ts q c s) y =
    (if y \<in> downstream g s (set q) then Some NsSkipped else status_of s y)"
  using assms
proof (induction g w ts q c s rule: cancel_bfs.induct)
  case (1 g w ts c s)
  then show ?case by (simp add: downstream_def)
next
  case (2 g w ts t q c s)
  show ?case
  proof (cases "t \<in> set c \<or> status_of s t \<in> {None, Some NsCompleted, Some NsSkipped}")
    case True
    then have "\<not> cancellable s t" using "2.prems" by (auto simp: cancellable_def)
    from downstream_stuck [OF this, of g "set q"] "2.IH"(1) [OF True "2.prems"] True show ?thesis
      by (auto simp only: cancel_bfs.simps if_True list.set)
  next
    case False
    then have can: "cancellable s t" by (simp add: cancellable_def)
    have c': "\<forall>x\<in>set (c @ [t]). status_of (skip_node w ts t s) x = Some NsSkipped"
      using "2.prems" False by (auto simp: status_skip_node)
    have "set (q @ List.map_filter (edge_target g) (outbound_in g t)) = set q \<union> set (graph_succs g t)"
      by (simp add: graph_succs_def)
    with "2.IH"(2) [OF False c'] False downstream_skip [OF can, of g "set q" w ts] show ?thesis
      using can by (auto simp: status_skip_node cancellable_def)
  qed
qed

section \<open>History\<close>

definition same_record :: "node_attempt \<Rightarrow> node_attempt \<Rightarrow> bool" where
  "same_record a b \<longleftrightarrow> at_attempt a = at_attempt b \<and> at_dispatchLineageId a = at_dispatchLineageId b \<and>
     at_governanceDecision a = at_governanceDecision b \<and> at_startedAt a = at_startedAt b"

definition records_kept :: "node_run_state \<Rightarrow> node_run_state \<Rightarrow> bool" where
  "records_kept ns ns' \<longleftrightarrow>
     list_all2 same_record (ns_attempts ns) (take (length (ns_attempts ns)) (ns_attempts ns'))"

definition history_kept :: "run_state \<Rightarrow> run_state \<Rightarrow> bool" where
  "history_kept s s' \<longleftrightarrow> prefix (rs_dispatchLineage s) (rs_dispatchLineage s') \<and>
     (\<forall>y. rel_option records_kept (node_state s y) (node_state s' y))"

lemma same_record_refl [simp]: "same_record a a"
  by (simp add: same_record_def)

lemma records_kept_same: "ns_attempts ns' = ns_attempts ns \<Longrightarrow> records_kept ns ns'"
  by (simp add: records_kept_def list_all2_refl)

lemma records_kept_trans:
  assumes "records_kept a b" and "records_kept b c"
  shows "records_kept a c"
proof -
  let ?n = "length (ns_attempts a)"
  have ab: "list_all2 same_record (ns_attempts a) (take ?n (ns_attempts b))"
    using assms(1) by (simp add: records_kept_def)
  then have len: "?n \<le> length (ns_attempts b)" by (auto dest: list_all2_lengthD)
  have "list_all2 same_record (take ?n (ns_attempts b)) (take ?n (take (length (ns_attempts b)) (ns_attempts c)))"
    using assms(2) unfolding records_kept_def by (rule list_all2_takeI)
  then have "list_all2 same_record (take ?n (ns_attempts b)) (take ?n (ns_attempts c))"
    using len by (simp add: min_def)
  with ab have "list_all2 same_record (ns_attempts a) (take ?n (ns_attempts c))"
    by (rule list_all2_trans [rotated]) (auto simp: same_record_def)
  then show ?thesis by (simp add: records_kept_def)
qed

lemma history_kept_trans: "history_kept s t \<Longrightarrow> history_kept t u \<Longrightarrow> history_kept s u"
proof -
  assume a: "history_kept s t" "history_kept t u"
  have "rel_option records_kept (node_state s y) (node_state u y)" for y
  proof -
    have "rel_option records_kept (node_state s y) (node_state t y)" "rel_option records_kept (node_state t y) (node_state u y)"
      using a by (simp_all add: history_kept_def)
    then show ?thesis
      by (cases "node_state s y"; cases "node_state t y"; cases "node_state u y") (auto intro: records_kept_trans)
  qed
  moreover have "prefix (rs_dispatchLineage s) (rs_dispatchLineage u)"
    using a prefix_order.trans by (auto simp: history_kept_def)
  ultimately show ?thesis by (simp add: history_kept_def)
qed

lemma evolves_history: "evolves s s' \<Longrightarrow> history_kept s s'"
proof -
  assume e: "evolves s s'"
  have "rel_option records_kept (node_state s y) (node_state s' y)" for y
  proof -
    have "rel_option kept (node_state s y) (node_state s' y)" using e by (simp add: evolves_def)
    then show ?thesis
      by (rule option.rel_mono_strong) (simp add: kept_def records_kept_same)
  qed
  with e show ?thesis by (simp add: history_kept_def evolves_def)
qed

lemma history_same_nodes:
  "rs_nodeStates s' = rs_nodeStates s \<Longrightarrow> rs_dispatchLineage s' = rs_dispatchLineage s \<Longrightarrow> history_kept s s'"
proof -
  assume a: "rs_nodeStates s' = rs_nodeStates s" "rs_dispatchLineage s' = rs_dispatchLineage s"
  have "rel_option records_kept (node_state s y) (node_state s' y)" for y
    using a(1) by (cases "node_state s y") (auto simp: node_state_def records_kept_same)
  with a(2) show ?thesis by (simp add: history_kept_def)
qed

lemma history_with_node:
  assumes "\<And>ns. node_state s x = Some ns \<Longrightarrow> records_kept ns (f ns)"
  shows "history_kept s (with_node x f s)"
proof -
  have "rel_option records_kept (node_state s y) (node_state (with_node x f s) y)" for y
    using assms by (cases "node_state s y") (auto simp: records_kept_same)
  then show ?thesis by (simp add: history_kept_def)
qed

lemma history_outcome:
  assumes "applyAttemptOutcome env g x a r t s = Inr s'"
  shows "history_kept s s'"
proof -
  let ?s1 = "with_node x (note_result r (occurredAt env (Some t) (Some (rs_updatedAt s)))) (leave_queues x s)"
  have "evolves s ?s1"
    by (rule evolves_trans [OF evolves_leave_queues evolves_with_node]) (simp add: kept_def)
  then have h1: "history_kept s ?s1" by (rule evolves_history)
  have "history_kept ?s1 s'"
  proof (cases "er_outcome r")
    case OcCompleted
    then show ?thesis
      using assms by (auto simp: applyAttemptOutcome_def Let_def intro: evolves_history evolves_finish_node)
  next
    case OcWaiting
    have "history_kept ?s1 (enter_waiting g x k ?s1)" for k
      unfolding enter_waiting_def Let_def
      by (rule history_kept_trans [OF history_kept_trans [OF history_same_nodes history_with_node] history_with_node])
        (simp_all add: records_kept_same)
    with OcWaiting show ?thesis using assms by (auto simp: applyAttemptOutcome_def Let_def)
  next
    case OcBlocked
    have "history_kept ?s1 (enter_blocked g x k ?s1)" for k
      unfolding enter_blocked_def
      by (rule history_kept_trans [OF history_same_nodes history_with_node]) (simp_all add: records_kept_same)
    with OcBlocked show ?thesis using assms by (auto simp: applyAttemptOutcome_def Let_def)
  next
    case OcFailed
    then have "s' = with_node x (\<lambda>ns. ns\<lparr>ns_activeAttempt := None\<rparr>) ?s1"
      using assms by (simp add: applyAttemptOutcome_def Let_def)
    moreover have "history_kept ?s1 (with_node x (\<lambda>ns. ns\<lparr>ns_activeAttempt := None\<rparr>) ?s1)"
      by (rule history_with_node) (simp add: records_kept_same)
    ultimately show ?thesis by simp
  qed
  with h1 show ?thesis by (rule history_kept_trans)
qed

lemma history_settle:
  assumes "env_ok env" and "settle_execution env i ts attempt s = Inr s'"
  shows "history_kept s s'"
proof -
  let ?u = "updateCheckpointFields (ei_checkpointState i) (ei_lastPreparedCheckpointId i) (ei_lastCommittedCheckpointId i) s"
  obtain s1 where s1: "applyAttemptOutcome env (ei_graph i) (ei_nodeDefinitionId i) attempt (ei_result i) (ei_transition i) ?u = Inr s1"
    and s': "env_parse env (settle_status (stamp_run (ei_transition i) ts s1)) = Inr s'"
    using assms(2) by (auto simp: settle_execution_def elim!: bindR_InrE)
  have "history_kept s ?u" by (rule history_same_nodes) simp_all
  moreover have "history_kept s1 s'"
    using env_parse_Inr [OF assms(1) s'] by (intro history_same_nodes) simp_all
  ultimately show ?thesis using history_outcome [OF s1] history_kept_trans by blast
qed

lemma history_execute:
  assumes "env_ok env" and "recordWorkflowNodeExecution env i = Inr s'"
  shows "history_kept (ei_state i) s'"
proof -
  obtain attempt lineage ts where e: "settle_execution env i ts attempt (with_attempt (ei_nodeDefinitionId i) attempt lineage (ei_state i)) = Inr s'"
    using assms(2) by (auto simp: recordWorkflowNodeExecution_def Let_def with_attempt_def split: option.splits if_splits)
  have "history_kept (ei_state i) (push_lineage lineage (ei_state i))"
    by (rule evolves_history [OF evolves_push])
  moreover have "history_kept (push_lineage lineage (ei_state i)) (with_attempt (ei_nodeDefinitionId i) attempt lineage (ei_state i))"
    unfolding with_attempt_def by (rule history_with_node) (simp add: records_kept_def list_all2_refl)
  ultimately show ?thesis using history_settle [OF assms(1) e] history_kept_trans by blast
qed

lemma list_all2_update_first:
  assumes "\<And>a. R a a" and "\<And>a. R a (f a)"
  shows "list_all2 R xs (update_first P f xs)"
  using assms by (induction xs) (auto simp: list_all2_refl)

lemma history_continue:
  assumes "env_ok env" and "resolveWorkflowNodeContinuation env i = Inr s'"
  shows "history_kept (ei_state i) s'"
proof -
  obtain k attempt ts f where e: "settle_execution env i ts (f attempt) (with_continued (ei_nodeDefinitionId i) k f (ei_state i)) = Inr s'"
    and f: "f = continue_attempt ts (ei_result i)"
    using assms(2)
    by (auto simp: resolveWorkflowNodeContinuation_def Let_def with_continued_def split: option.splits)
  have "list_all2 same_record xs (update_first P f xs)" for xs P
    by (rule list_all2_update_first) (simp_all add: f same_record_def continue_attempt_def)
  moreover have f_number: "at_attempt (f a) = at_attempt a" for a by (simp add: f)
  ultimately have "history_kept (ei_state i) (with_continued (ei_nodeDefinitionId i) k f (ei_state i))"
    unfolding with_continued_def
    by (intro history_with_node)
      (simp add: records_kept_def map_update_first(2) [where h = at_attempt, OF f_number])
  then show ?thesis using history_settle [OF assms(1) e] history_kept_trans by blast
qed

lemma history_complete:
  assumes "env_ok env" and "completeWorkflowNodeInRunState env s g x t = Inr s'"
  shows "history_kept s s'"
proof -
  let ?ts = "occurredAt env (Some t) (Some (rs_updatedAt s))"
  let ?f = "\<lambda>n. n\<lparr>ns_status := NsCompleted, ns_reasonCode := Some (tn_reasonCode t),
      ns_evidenceRefs := tn_evidenceRefs t, ns_updatedAt := ?ts, ns_activeWaitState := None\<rparr>"
  let ?u = "add_completed g x (leave_queues x (with_node x ?f s))"
  obtain b s3 where s3: "activateSuccessors env g x t b ?u = Inr s3"
    and s': "env_parse env (settle_status (stamp_run t ?ts s3)) = Inr s'"
    using assms(2) by (auto simp: completeWorkflowNodeInRunState_def Let_def elim!: bindR_InrE split: option.splits if_splits)
  have "evolves s (with_node x ?f s)" by (rule evolves_with_node) (simp add: kept_def)
  from evolves_trans [OF this evolves_trans [OF evolves_leave_queues evolves_add_completed]]
  have "history_kept s ?u" by (rule evolves_history)
  moreover have "history_kept ?u s3" by (rule evolves_history [OF evolves_activateSuccessors [OF s3]])
  moreover have "history_kept s3 s'"
    using env_parse_Inr [OF assms(1) s'] by (intro history_same_nodes) simp_all
  ultimately show ?thesis using history_kept_trans by blast
qed

lemma history_cancel:
  assumes "env_ok env" and "cancelWorkflowRunState env s t = Inr s'"
  shows "history_kept s s'"
proof -
  let ?ts = "occurredAt env (Some t) (Some (rs_updatedAt s))"
  let ?c = "fold (cancel_node t ?ts) (uniq (rs_activeNodeIds s @ rs_readyNodeIds s @ rs_waitingNodeIds s @ rs_blockedNodeIds s)) s"
  have "s' = (stamp_run t ?ts ?c)\<lparr>rs_status := RsCanceled, rs_activeNodeIds := [], rs_readyNodeIds := [],
      rs_waitingNodeIds := [], rs_blockedNodeIds := [], rs_checkpointState := CkIdle\<rparr>"
    using assms(2) env_parse_Inr [OF assms(1)] by (auto simp: cancelWorkflowRunState_def Let_def split: if_splits)
  then have "history_kept ?c s'" by (intro history_same_nodes) simp_all
  moreover have "rel_option records_kept (node_state s y) (node_state ?c y)" for y
    by (cases "node_state s y") (simp_all add: cancel_nodes_state records_kept_same)
  then have "history_kept s ?c" by (simp add: history_kept_def)
  ultimately show ?thesis using history_kept_trans by blast
qed

lemma history_op:
  assumes "env_ok env" and "apply_op env g op s = Inr s'"
  shows "history_kept s s'"
proof (cases op)
  case (OpPause t)
  then show ?thesis
    using assms(2) by (intro history_same_nodes) (auto simp: pauseWorkflowRunState_def split: if_splits dest!: env_parse_Inr [OF assms(1)])
next
  case (OpResume t)
  then show ?thesis
    using assms(2) by (intro history_same_nodes) (auto simp: resumeWorkflowRunState_def split: if_splits dest!: env_parse_Inr [OF assms(1)])
next
  case (OpCancel t)
  then show ?thesis using history_cancel assms by simp
next
  case (OpComplete x t)
  then show ?thesis using history_complete assms by simp
next
  case (OpExecute x r t ck p c)
  then show ?thesis using history_execute [OF assms(1), of "mk_input g s x r t ck p c"] assms(2) by (simp add: mk_input_def)
next
  case (OpContinue x r t ck p c)
  then show ?thesis using history_continue [OF assms(1), of "mk_input g s x r t ck p c"] assms(2) by (simp add: mk_input_def)
qed

section \<open>The status of a run\<close>

lemma resolve_ignores:
  assumes "rs_status s \<noteq> RsPaused" and "st \<noteq> RsPaused"
  shows "resolveRunStatus (s\<lparr>rs_status := st\<rparr>) = resolveRunStatus s"
  using assms by (simp add: resolveRunStatus_def Let_def status_of_def)

lemma resolve_not_paused: "rs_status s \<noteq> RsPaused \<Longrightarrow> resolveRunStatus s \<noteq> RsPaused"
  by (simp add: resolveRunStatus_def Let_def)

lemma resolve_paused: "rs_status s = RsPaused \<Longrightarrow> resolveRunStatus s = RsPaused"
  by (simp add: resolveRunStatus_def)

lemma resolve_settled: "resolveRunStatus (settle_status s) = resolveRunStatus s"
proof (cases "rs_status s = RsPaused")
  case True
  then show ?thesis by (simp add: resolve_paused)
next
  case False
  then show ?thesis
    unfolding settle_status_def using resolve_ignores resolve_not_paused by blast
qed

definition status_settled :: "run_state \<Rightarrow> bool" where
  "status_settled s \<longleftrightarrow> rs_status s \<in> {RsPaused, RsCanceled, RsReady} \<or> rs_status s = resolveRunStatus s"

lemma settled_settle: "status_settled (settle_status s)"
  by (simp add: status_settled_def resolve_settled)

lemma status_settled_op:
  assumes "env_ok env" and "apply_op env g op s = Inr s'"
  shows "status_settled s'"
proof -
  have fin: "env_parse env (settle_status u) = Inr s' \<Longrightarrow> status_settled s'" for u
    using env_parse_Inr [OF assms(1)] settled_settle by metis
  show ?thesis
  proof (cases op)
    case (OpPause t)
    then show ?thesis
      using assms(2) by (auto simp: pauseWorkflowRunState_def status_settled_def split: if_splits dest!: env_parse_Inr [OF assms(1)])
  next
    case (OpResume t)
    then show ?thesis using assms(2) fin by (auto simp: resumeWorkflowRunState_def split: if_splits)
  next
    case (OpCancel t)
    then show ?thesis
      using assms(2) by (auto simp: cancelWorkflowRunState_def Let_def status_settled_def split: if_splits dest!: env_parse_Inr [OF assms(1)])
  next
    case (OpComplete x t)
    then show ?thesis
      using assms(2) fin by (auto simp: completeWorkflowNodeInRunState_def Let_def elim!: bindR_InrE split: option.splits if_splits)
  next
    case (OpExecute x r t ck p c)
    then show ?thesis
      using assms(2) fin
      by (auto simp: recordWorkflowNodeExecution_def settle_execution_def Let_def elim!: bindR_InrE split: option.splits if_splits)
  next
    case (OpContinue x r t ck p c)
    then show ?thesis
      using assms(2) fin
      by (auto simp: resolveWorkflowNodeContinuation_def settle_execution_def Let_def elim!: bindR_InrE split: option.splits)
  qed
qed

lemma reachable_settled:
  assumes "run_reachable env g live s" and "env_ok env"
  shows "status_settled s"
  using assms(1)
proof (cases rule: run_reachable.cases)
  case (start input)
  then have "s = initial_run_state env input"
    using env_parse_Inr [OF assms(2)] by (auto simp: createInitialWorkflowRunState_def split: if_splits)
  then show ?thesis by (simp add: initial_run_state_def Let_def status_settled_def)
next
  case (step live' u op)
  then show ?thesis using status_settled_op [OF assms(2)] by blast
qed

lemma resolve_completed:
  assumes "resolveRunStatus s = RsCompleted"
  shows "rs_readyNodeIds s = []" and "rs_waitingNodeIds s = []" and "rs_blockedNodeIds s = []"
    and "rs_checkpointState s = CkIdle" and "\<forall>ns\<in>set (obj_values (rs_nodeStates s)). ns_status ns \<noteq> NsFailed"
    and "\<forall>x\<in>set (rs_activeNodeIds s). status_of s x \<in> {Some NsCompleted, Some NsSkipped}"
  using assms by (auto simp: resolveRunStatus_def Let_def list_all_iff list_ex_iff split: if_splits)

end
