(* ===== verification/Run_Theorems.thy ===== *)
theory Run_Theorems
  imports Run_Laws
begin

text \<open>
  The properties of workflow runs, each over the states \<open>run_reachable\<close> reaches, and the
  sample environment, results and runs that their witnesses evaluate.
\<close>

section \<open>Samples\<close>

definition sample_env :: wf_env where
  "sample_env = \<lparr>env_now = ''t0'', env_lineageId = (\<lambda>n. CHR ''L'' # show_nat n),
     env_nodeRunId = (\<lambda>n. CHR ''N'' # show_nat n), env_freshId = (\<lambda>n. CHR ''F'' # show_nat n),
     env_parse = parse_run_state\<rparr>"

lemma sample_env_ok: "env_ok sample_env"
  by (simp add: env_ok_def sample_env_def run_state_schema.schema_parser_axioms)

lemma sample_zod: "zod_errors sample_env"
  by (simp add: zod_errors_def sample_env_def parse_run_state_def)

definition sample_explanation :: behavior_explanation where
  "sample_explanation = \<lparr>ex_patternId = ''pat'', ex_outcomeRef = ''out'', ex_evidenceRefs = [],
     ex_distillationRef = None, ex_policyRef = None, ex_controlStateRef = None\<rparr>"

definition sample_decision :: governance_decision where
  "sample_decision = \<lparr>gd_outcome = AllowAutonomy, gd_reasonCode = CgrAllowAutonomy, gd_governance = GovMay,
     gd_actionCategory = ActTracePersist, gd_projectControlState = Some CtlRunning, gd_patternId = ''pat'',
     gd_confidence = 1, gd_confidenceTier = TierHigh, gd_supportingSignals = 10, gd_decayState = None,
     gd_autonomyAllowed = True, gd_requiresConfirmation = False, gd_highRiskOverrideApplied = False,
     gd_evidenceRefs = [], gd_explanation = sample_explanation, gd_escalationSignal = None\<rparr>"

definition sample_result :: "outcome \<Rightarrow> string option \<Rightarrow> execution_result" where
  "sample_result oc branch = \<lparr>er_outcome = oc, er_governanceDecision = sample_decision, er_waitState = None,
     er_correctionArc = None, er_sideEffectStatus = EfNone, er_outputRef = None, er_checkpointId = None,
     er_selectedBranchKey = branch, er_reasonCode = ''done'', er_evidenceRefs = [''e'']\<rparr>"

definition sample_transition :: transition_input where
  "sample_transition = \<lparr>tn_reasonCode = ''step'', tn_evidenceRefs = [''e''], tn_occurredAt = None\<rparr>"

definition sample_input :: "workflow_graph \<Rightarrow> create_input" where
  "sample_input g = \<lparr>ci_runId = ''run'', ci_graph = g,
     ci_admission = \<lparr>ad_allowed = True, ad_reasonCode = ''workflow_admitted'', ad_evidenceRefs = [''e''], ad_policyRef = None\<rparr>,
     ci_triggerContext = None, ci_transition = None, ci_startedAt = Some ''t0''\<rparr>"

definition run_node :: "string \<Rightarrow> outcome \<Rightarrow> string option \<Rightarrow> run_op" where
  "run_node x oc branch = OpExecute x (sample_result oc branch) sample_transition None None None"

definition run_ops :: "workflow_graph \<Rightarrow> run_op list \<Rightarrow> run_state result" where
  "run_ops g ops = bindR (createInitialWorkflowRunState sample_env (sample_input g)) (foldR (apply_op sample_env g) ops)"

text \<open>What a test would look at.\<close>

definition summary :: "run_state \<Rightarrow> run_status \<times> string list \<times> string list \<times> string list \<times> string list" where
  "summary s = (rs_status s, rs_readyNodeIds s, rs_waitingNodeIds s, rs_completedNodeIds s, rs_activeNodeIds s)"

definition summarize :: "run_state result \<Rightarrow> (run_status \<times> string list \<times> string list \<times> string list \<times> string list) option" where
  "summarize r = (case r of Inl e \<Rightarrow> None | Inr s \<Rightarrow> Some (summary s))"

lemma diamond_run:
  "summarize (run_ops diamond_graph [run_node ''a'' OcCompleted None, run_node ''b'' OcCompleted None]) =
   Some (RsRunning, [''c'', ''d''], [], [''a'', ''b''], [''a'', ''b'', ''c'', ''d''])"
  by code_simp

lemma foldR_reachable:
  assumes "run_reachable env g live s" and "foldR (apply_op env g) ops s = Inr s'"
  shows "run_reachable env g (live \<and> list_all (\<lambda>op. \<not> is_cancel op) ops) s'"
  using assms
proof (induction ops arbitrary: live s)
  case Nil
  then show ?case by simp
next
  case (Cons op ops)
  then obtain u where u: "apply_op env g op s = Inr u" and rest: "foldR (apply_op env g) ops u = Inr s'"
    by (auto elim: bindR_InrE)
  from Cons.IH [OF run_reachable.step [OF Cons.prems(1) u] rest] show ?case by (simp add: conj_assoc)
qed

lemma run_ops_reachable:
  assumes "run_ops g ops = Inr s"
  shows "run_reachable sample_env g (list_all (\<lambda>op. \<not> is_cancel op) ops) s"
proof -
  obtain u where u: "createInitialWorkflowRunState sample_env (sample_input g) = Inr u"
    and rest: "foldR (apply_op sample_env g) ops u = Inr s"
    using assms by (auto simp: run_ops_def elim: bindR_InrE)
  have "run_reachable sample_env g True u"
    by (rule run_reachable.start [OF _ u]) (simp add: sample_input_def)
  from foldR_reachable [OF this rest] show ?thesis by simp
qed

lemma summarize_Some: "summarize r = Some v \<longleftrightarrow> (\<exists>s. r = Inr s \<and> summary s = v)"
  by (cases r) (auto simp: summarize_def)

lemma diamond_run_state:
  "\<exists>s. run_ops diamond_graph [run_node ''a'' OcCompleted None, run_node ''b'' OcCompleted None] = Inr s \<and>
     run_reachable sample_env diamond_graph True s"
proof -
  obtain s where "run_ops diamond_graph [run_node ''a'' OcCompleted None, run_node ''b'' OcCompleted None] = Inr s"
    using diamond_run by (auto simp: summarize_Some)
  then show ?thesis using run_ops_reachable by (fastforce simp: run_node_def)
qed

section \<open>Properties\<close>

text \<open>C1: In every reachable state of a run the lists and the node statuses agree: a ready-listed
  node is ready, completed-listed exactly the completed ones, a waiting-listed one waiting or
  ready, attempts are numbered 1 to n, no list repeats a node and the node table covers the
  graph. Until the run is canceled the converse holds too: every ready, waiting or blocked
  node is in its list, with a pending attempt when it waits or is blocked.\<close>

theorem reachable_run_consistent:
  assumes "run_reachable env g live s" and "env_ok env" and "graph_ok g"
  shows "run_inv live g s \<and>
    (\<forall>y ns. node_state s y = Some ns \<longrightarrow>
       (y \<in> set (rs_completedNodeIds s) \<longleftrightarrow> ns_status ns = NsCompleted) \<and>
       (y \<in> set (rs_readyNodeIds s) \<longrightarrow> ns_status ns = NsReady) \<and>
       (y \<in> set (rs_waitingNodeIds s) \<longrightarrow> ns_status ns \<in> {NsWaiting, NsReady}) \<and>
       map at_attempt (ns_attempts ns) = [1..<Suc (length (ns_attempts ns))] \<and>
       (live \<longrightarrow>
          (ns_status ns = NsReady \<longrightarrow> y \<in> set (rs_readyNodeIds s)) \<and>
          (ns_status ns = NsWaiting \<longrightarrow> y \<in> set (rs_waitingNodeIds s) \<and> ns_activeAttempt ns \<noteq> None) \<and>
          (ns_status ns = NsBlocked \<longrightarrow> y \<in> set (rs_blockedNodeIds s) \<and> ns_activeAttempt ns \<noteq> None)))"
proof (rule conjI, rule run_reachable_inv [OF assms], intro allI impI)
  fix y ns
  assume ns: "node_state s y = Some ns"
  have inv: "run_inv live g s" by (rule run_reachable_inv [OF assms])
  then have "placed live s y" and "attempts_ok ns"
    using ns by (auto simp: run_inv_def all_placed_def all_attempts_ok_def)
  then show "(y \<in> set (rs_completedNodeIds s) \<longleftrightarrow> ns_status ns = NsCompleted) \<and>
       (y \<in> set (rs_readyNodeIds s) \<longrightarrow> ns_status ns = NsReady) \<and>
       (y \<in> set (rs_waitingNodeIds s) \<longrightarrow> ns_status ns \<in> {NsWaiting, NsReady}) \<and>
       map at_attempt (ns_attempts ns) = [1..<Suc (length (ns_attempts ns))] \<and>
       (live \<longrightarrow>
          (ns_status ns = NsReady \<longrightarrow> y \<in> set (rs_readyNodeIds s)) \<and>
          (ns_status ns = NsWaiting \<longrightarrow> y \<in> set (rs_waitingNodeIds s) \<and> ns_activeAttempt ns \<noteq> None) \<and>
          (ns_status ns = NsBlocked \<longrightarrow> y \<in> set (rs_blockedNodeIds s) \<and> ns_activeAttempt ns \<noteq> None))"
    by (simp add: placed_Some [OF ns] attempts_ok_def)
qed

theorem reachable_run_consistent_witness:
  "\<exists>s. run_ops diamond_graph [run_node ''a'' OcCompleted None, run_node ''b'' OcCompleted None] = Inr s \<and>
     run_inv True diamond_graph s"
  using diamond_run_state reachable_run_consistent [OF _ sample_env_ok diamond_graph_ok] by blast

text \<open>C35: No operation on a reachable run of a coherent graph, as every definition without repeated
  entry nodes gives, fails with a \<open>TypeError\<close>: every node state the code reads without a check
  exists. The only errors are its own messages and the schema's.\<close>

theorem run_never_type_error:
  assumes "run_reachable env g live s" and "env_ok env" and "zod_errors env" and "graph_ok g"
    and "apply_op env g op s = Inl e"
  shows "e \<noteq> TypeError"
  by (rule op_error [OF run_reachable_inv [OF assms(1,2,4)] assms(3,5)])

lemma diamond_pause_twice:
  "(case run_ops diamond_graph [OpPause sample_transition] of
      Inl _ \<Rightarrow> False
    | Inr s \<Rightarrow> apply_op sample_env diamond_graph (OpPause sample_transition) s
        = Inl (JsError ''Workflow run run cannot be paused from status paused''))"
  by code_simp

theorem run_never_type_error_witness:
  "\<exists>s e. run_ops diamond_graph [OpPause sample_transition] = Inr s \<and>
     apply_op sample_env diamond_graph (OpPause sample_transition) s = Inl e \<and> e \<noteq> TypeError"
proof -
  obtain s where s: "run_ops diamond_graph [OpPause sample_transition] = Inr s"
    and e: "apply_op sample_env diamond_graph (OpPause sample_transition) s
        = Inl (JsError ''Workflow run run cannot be paused from status paused'')"
    using diamond_pause_twice by (auto split: sum.splits)
  from run_never_type_error [OF run_ops_reachable [OF s] sample_env_ok sample_zod diamond_graph_ok e] s e
  show ?thesis by blast
qed

text \<open>An operation never rewrites history: the dispatch lineage only grows at its end, and
  every recorded attempt keeps its number, its lineage entry, its governance decision and its
  start.\<close>

theorem run_history_append_only:
  assumes "env_ok env" and "apply_op env g op s = Inr s'"
  shows "prefix (rs_dispatchLineage s) (rs_dispatchLineage s') \<and>
    (\<forall>y. rel_option (\<lambda>ns ns'. list_all2 same_record (ns_attempts ns) (take (length (ns_attempts ns)) (ns_attempts ns')))
       (node_state s y) (node_state s' y))"
  using history_op [OF assms] by (simp add: history_kept_def records_kept_def [abs_def])

theorem run_history_append_only_witness:
  "\<exists>s s'. run_ops diamond_graph [] = Inr s \<and>
     apply_op sample_env diamond_graph (run_node ''a'' OcCompleted None) s = Inr s' \<and>
     prefix (rs_dispatchLineage s) (rs_dispatchLineage s')"
proof -
  obtain s s' where s: "run_ops diamond_graph [] = Inr s"
    and s': "apply_op sample_env diamond_graph (run_node ''a'' OcCompleted None) s = Inr s'"
    using diamond_run by (auto simp: summarize_Some run_ops_def elim!: bindR_InrE)
  with run_history_append_only [OF sample_env_ok s'] show ?thesis by blast
qed

text \<open>A run that was never canceled and is reported completed has nothing left to do: no node
  is ready, waiting, blocked or failed, every node that was ever activated is completed or
  skipped, and no checkpoint is pending.\<close>

theorem completed_run_is_done:
  assumes "run_reachable env g True s" and "env_ok env" and "graph_ok g" and "rs_status s = RsCompleted"
  shows "(\<forall>y. status_of s y \<in> {None, Some NsPending, Some NsCompleted, Some NsSkipped}) \<and>
    (\<forall>y\<in>set (rs_activeNodeIds s). status_of s y \<in> {Some NsCompleted, Some NsSkipped}) \<and>
    rs_readyNodeIds s = [] \<and> rs_waitingNodeIds s = [] \<and> rs_blockedNodeIds s = [] \<and> rs_checkpointState s = CkIdle"
proof -
  have inv: "run_inv True g s" by (rule run_reachable_inv [OF assms(1-3)])
  have res: "resolveRunStatus s = RsCompleted"
    using reachable_settled [OF assms(1,2)] assms(4) by (auto simp: status_settled_def)
  note idle = resolve_completed [OF res]
  have "status_of s y \<in> {None, Some NsPending, Some NsCompleted, Some NsSkipped}" for y
  proof (cases "node_state s y")
    case None
    then show ?thesis by (simp add: status_of_def)
  next
    case (Some ns)
    have "placed True s y" using inv by (simp add: run_inv_def all_placed_def)
    then have "ns_status ns \<notin> {NsReady, NsWaiting, NsBlocked, NsRunning}"
      using idle(1-3) Some by (auto simp: placed_Some)
    moreover have "ns \<in> set (obj_values (rs_nodeStates s))"
      using Some obj_get_in_values by (simp add: node_state_def)
    then have "ns_status ns \<noteq> NsFailed" using idle(5) by blast
    ultimately show ?thesis using Some by (cases "ns_status ns") (auto simp: status_of_def)
  qed
  with idle show ?thesis by blast
qed

lemma diamond_completed:
  "summarize (run_ops diamond_graph (map (\<lambda>x. run_node x OcCompleted None) [''a'', ''b'', ''c'', ''d''])) =
   Some (RsCompleted, [], [], [''a'', ''b'', ''c'', ''d''], [''a'', ''b'', ''c'', ''d''])"
  by code_simp

theorem completed_run_is_done_witness:
  "\<exists>s. run_ops diamond_graph (map (\<lambda>x. run_node x OcCompleted None) [''a'', ''b'', ''c'', ''d'']) = Inr s \<and>
     rs_status s = RsCompleted \<and> (\<forall>y. status_of s y \<noteq> Some NsFailed)"
proof -
  let ?ops = "map (\<lambda>x. run_node x OcCompleted None) [''a'', ''b'', ''c'', ''d'']"
  obtain s where s: "run_ops diamond_graph ?ops = Inr s" and st: "rs_status s = RsCompleted"
    using diamond_completed unfolding summarize_Some by (auto simp: summary_def)
  have "run_reachable sample_env diamond_graph True s"
    using run_ops_reachable [OF s] by (simp add: run_node_def)
  from completed_run_is_done [OF this sample_env_ok diamond_graph_ok st]
  have "\<forall>y. status_of s y \<noteq> Some NsFailed" by (metis insertE empty_iff node_status.distinct option.distinct(1) option.inject)
  with s st show ?thesis by blast
qed

text \<open>When a branch of a race completes, exactly the unfinished nodes that the other branches
  reach through unfinished nodes are skipped, and no other status changes.\<close>

theorem race_losers_skipped:
  "status_of (cancelRaceLosers env g winner t s) y =
     (if y \<in> downstream g s (set (race_siblings g winner s)) then Some NsSkipped else status_of s y)"
  unfolding cancelRaceLosers_def by (rule cancel_bfs_status) simp

text \<open>Pausing a run and resuming it gives back the same run: apart from the reason, the
  evidence and the time of the update nothing has changed, and the status is again the one the
  nodes determine.\<close>

theorem pause_resume_roundtrip:
  assumes "env_ok env" and "pauseWorkflowRunState env s t1 = Inr s1" and "resumeWorkflowRunState env s1 t2 = Inr s2"
  shows "s2 = s\<lparr>rs_status := resolveRunStatus s, rs_reasonCode := Some (tn_reasonCode t2),
      rs_evidenceRefs := tn_evidenceRefs t2, rs_updatedAt := rs_updatedAt s2\<rparr>"
proof -
  have np: "rs_status s \<noteq> RsPaused" and s1: "s1 = stamp_run t1 (occurredAt env (Some t1) (Some (rs_updatedAt s))) (s\<lparr>rs_status := RsPaused\<rparr>)"
    using assms(2) by (auto simp: pauseWorkflowRunState_def split: if_splits dest!: env_parse_Inr [OF assms(1)])
  let ?ts = "occurredAt env (Some t2) (Some (rs_updatedAt s1))"
  have s2: "s2 = settle_status (stamp_run t2 ?ts (s1\<lparr>rs_status := RsRunning\<rparr>))"
    using assms(3) by (auto simp: resumeWorkflowRunState_def split: if_splits dest!: env_parse_Inr [OF assms(1)])
  have eq: "stamp_run t2 ?ts (s1\<lparr>rs_status := RsRunning\<rparr>) = stamp_run t2 ?ts (s\<lparr>rs_status := RsRunning\<rparr>)"
    by (simp add: s1 stamp_run_def)
  have "resolveRunStatus (stamp_run t2 ?ts (s\<lparr>rs_status := RsRunning\<rparr>)) = resolveRunStatus (s\<lparr>rs_status := RsRunning\<rparr>)"
    by (simp add: resolveRunStatus_def Let_def status_of_def)
  then show ?thesis
    unfolding s2 eq settle_status_def using resolve_ignores [OF np, of RsRunning] by (simp add: stamp_run_def)
qed

lemma diamond_pause_resume:
  "(case run_ops diamond_graph [] of
      Inl _ \<Rightarrow> False
    | Inr s \<Rightarrow> (case pauseWorkflowRunState sample_env s sample_transition of
        Inl _ \<Rightarrow> False
      | Inr s1 \<Rightarrow> (case resumeWorkflowRunState sample_env s1 sample_transition of Inl _ \<Rightarrow> False | Inr _ \<Rightarrow> resolveRunStatus s = RsReady)))"
  by code_simp

theorem pause_resume_roundtrip_witness:
  "\<exists>s s1 s2. run_ops diamond_graph [] = Inr s \<and> pauseWorkflowRunState sample_env s sample_transition = Inr s1 \<and>
     resumeWorkflowRunState sample_env s1 sample_transition = Inr s2 \<and> rs_status s2 = RsReady"
proof -
  obtain s s1 s2 where s: "run_ops diamond_graph [] = Inr s" "pauseWorkflowRunState sample_env s sample_transition = Inr s1"
    "resumeWorkflowRunState sample_env s1 sample_transition = Inr s2" "resolveRunStatus s = RsReady"
    using diamond_pause_resume by (auto split: sum.splits)
  from arg_cong [OF pause_resume_roundtrip [OF sample_env_ok s(2,3)], of rs_status] s(4)
  have "rs_status s2 = RsReady" by simp
  with s show ?thesis by blast
qed

text \<open>A failed execution activates nothing: the node leaves the ready list, no edge is
  activated, no node becomes ready, and the run is failed (or stays paused). So an error-handler
  whose only upstream fails is never dispatched.\<close>

theorem failure_activates_nothing:
  assumes "env_ok env" and "er_outcome r = OcFailed"
    and "apply_op env g (OpExecute x r t ck p c) s = Inr s'"
  shows "rs_readyNodeIds s' = removeNodeId (rs_readyNodeIds s) x \<and> rs_activatedEdgeIds s' = rs_activatedEdgeIds s \<and>
    (\<forall>y. y \<noteq> x \<longrightarrow> node_state s' y = node_state s y) \<and>
    rs_status s' = (if rs_status s = RsPaused then RsPaused else RsFailed)"
proof -
  let ?ts = "occurredAt env (Some t) (Some (rs_updatedAt s))"
  obtain ns attempt lineage where ns: "node_state s x = Some ns"
    and e: "settle_execution env (mk_input g s x r t ck p c) ?ts attempt (with_attempt x attempt lineage s) = Inr s'"
    using assms(3) by (auto simp: recordWorkflowNodeExecution_def Let_def with_attempt_def mk_input_def split: option.splits if_splits)
  define u where "u = with_node x (\<lambda>ns. ns\<lparr>ns_activeAttempt := None\<rparr>)
      (with_node x (note_result r ?ts) (leave_queues x (updateCheckpointFields ck p c (with_attempt x attempt lineage s))))"
  have s': "s' = settle_status (stamp_run t ?ts u)"
    using e assms(2) unfolding u_def
    by (auto simp: settle_execution_def applyAttemptOutcome_def Let_def mk_input_def with_attempt_def push_lineage_def
        dest!: env_parse_Inr [OF assms(1)])
  have "\<exists>ns'. node_state u x = Some ns' \<and> ns_status ns' = NsFailed"
    using ns assms(2) by (simp add: u_def with_attempt_def)
  then have "\<exists>ns'\<in>set (obj_values (rs_nodeStates u)). ns_status ns' = NsFailed"
    using obj_get_in_values by (force simp: node_state_def)
  moreover have "rs_status u = rs_status s"
    by (simp add: u_def with_attempt_def) (simp add: leave_queues_def push_lineage_def)
  ultimately have "resolveRunStatus (stamp_run t ?ts u) = (if rs_status s = RsPaused then RsPaused else RsFailed)"
    by (auto simp: resolveRunStatus_def list_ex_iff)
  moreover have "rs_activatedEdgeIds u = rs_activatedEdgeIds s"
    by (simp add: u_def with_attempt_def) (simp add: leave_queues_def push_lineage_def)
  moreover have "rs_readyNodeIds u = removeNodeId (rs_readyNodeIds s) x" by (simp add: u_def with_attempt_def)
  moreover have "\<forall>y. y \<noteq> x \<longrightarrow> node_state u y = node_state s y" by (simp add: u_def with_attempt_def)
  ultimately show ?thesis by (simp add: s')
qed

lemma diamond_failure:
  "summarize (run_ops diamond_graph [run_node ''a'' OcFailed None]) = Some (RsFailed, [], [], [], [''a''])"
  by code_simp

theorem failure_activates_nothing_witness:
  "\<exists>s s'. run_ops diamond_graph [] = Inr s \<and>
     apply_op sample_env diamond_graph (run_node ''a'' OcFailed None) s = Inr s' \<and>
     rs_activatedEdgeIds s' = rs_activatedEdgeIds s"
proof -
  obtain s s' where s: "run_ops diamond_graph [] = Inr s"
    and s': "apply_op sample_env diamond_graph (run_node ''a'' OcFailed None) s = Inr s'"
    using diamond_failure by (auto simp: summarize_Some run_ops_def elim!: bindR_InrE)
  have "er_outcome (sample_result OcFailed None) = OcFailed" by (simp add: sample_result_def)
  from failure_activates_nothing [OF sample_env_ok this s' [unfolded run_node_def]] s s' show ?thesis by blast
qed

section \<open>A loop\<close>

definition loop_edge :: "string \<Rightarrow> string \<Rightarrow> string \<Rightarrow> string \<Rightarrow> edge_definition" where
  "loop_edge i f t branch = (mk_edge i f t)\<lparr>ed_branchKey := Some branch\<rparr>"

definition wide_loop :: workflow_definition where
  "wide_loop = mk_definition [''L'']
     [mk_node ''L'' (LoopConfig 3 ''exit://done'' (Some 100)), transform_node ''b1'', transform_node ''b2'',
      transform_node ''b3'', transform_node ''z'']
     [loop_edge ''1'' ''L'' ''b1'' ''loop'', loop_edge ''2'' ''L'' ''b2'' ''loop'', mk_edge ''3'' ''b1'' ''b3'',
      loop_edge ''4'' ''L'' ''z'' ''exit'']"

definition wide_loop_graph :: workflow_graph where
  "wide_loop_graph = derive_graph (\<lambda>t. ''digest'') wide_loop [''L'', ''b1'', ''b2'', ''z'', ''b3'']"

lemma wide_loop_valid:
  "validateWorkflowDefinition parse_definition wide_loop = Valid [''L'', ''b1'', ''b2'', ''z'', ''b3'']"
  by code_simp

lemma wide_loop_build:
  "buildDerivedWorkflowGraph parse_definition parse_graph (\<lambda>t. ''digest'') wide_loop = Inr wide_loop_graph"
proof -
  have "gr_version wide_loop_graph = wd_version wide_loop" "gr_entryNodeIds wide_loop_graph = js_sort localeCompare (wd_entryNodeIds wide_loop)"
    by (simp_all add: wide_loop_graph_def derive_graph_def Let_def)
  then have "parse_graph wide_loop_graph = Inr wide_loop_graph"
    by (simp add: parse_graph_def wide_loop_def mk_definition_def)
  then show ?thesis
    by (simp add: buildDerivedWorkflowGraph_def wide_loop_valid wide_loop_graph_def)
qed

lemma wide_loop_graph_code [code]:
  "wide_loop_graph = \<lparr>gr_workflowDefinitionId = ''wf'', gr_projectId = ''p'', gr_version = ''1'',
     gr_graphDigest = ''digest'', gr_entryNodeIds = [''L''],
     gr_topologicalOrder = [''L'', ''b1'', ''b2'', ''z'', ''b3''],
     gr_nodes =
       [(''L'', \<lparr>dn_definition = mk_node ''L'' (LoopConfig 3 ''exit://done'' (Some 100)), dn_inboundEdgeIds = [], dn_outboundEdgeIds = [''1'', ''2'', ''4''], dn_topologicalIndex = 0\<rparr>),
        (''b1'', \<lparr>dn_definition = transform_node ''b1'', dn_inboundEdgeIds = [''1''], dn_outboundEdgeIds = [''3''], dn_topologicalIndex = 1\<rparr>),
        (''b2'', \<lparr>dn_definition = transform_node ''b2'', dn_inboundEdgeIds = [''2''], dn_outboundEdgeIds = [], dn_topologicalIndex = 2\<rparr>),
        (''b3'', \<lparr>dn_definition = transform_node ''b3'', dn_inboundEdgeIds = [''3''], dn_outboundEdgeIds = [], dn_topologicalIndex = 4\<rparr>),
        (''z'', \<lparr>dn_definition = transform_node ''z'', dn_inboundEdgeIds = [''4''], dn_outboundEdgeIds = [], dn_topologicalIndex = 3\<rparr>)],
     gr_edges =
       [(''1'', loop_edge ''1'' ''L'' ''b1'' ''loop''), (''2'', loop_edge ''2'' ''L'' ''b2'' ''loop''),
        (''3'', mk_edge ''3'' ''b1'' ''b3''), (''4'', loop_edge ''4'' ''L'' ''z'' ''exit'')]\<rparr>"
proof -
  have edges: "sortEdges (wd_edges wide_loop) =
      [loop_edge ''1'' ''L'' ''b1'' ''loop'', loop_edge ''2'' ''L'' ''b2'' ''loop'',
       mk_edge ''3'' ''b1'' ''b3'', loop_edge ''4'' ''L'' ''z'' ''exit'']"
    by code_simp
  have nodes: "from_entries [] (map (derive_node (sortEdges (wd_edges wide_loop)) (index_map [''L'', ''b1'', ''b2'', ''z'', ''b3''])) (wd_nodes wide_loop)) =
      [(''L'', \<lparr>dn_definition = mk_node ''L'' (LoopConfig 3 ''exit://done'' (Some 100)), dn_inboundEdgeIds = [], dn_outboundEdgeIds = [''1'', ''2'', ''4''], dn_topologicalIndex = 0\<rparr>),
        (''b1'', \<lparr>dn_definition = transform_node ''b1'', dn_inboundEdgeIds = [''1''], dn_outboundEdgeIds = [''3''], dn_topologicalIndex = 1\<rparr>),
        (''b2'', \<lparr>dn_definition = transform_node ''b2'', dn_inboundEdgeIds = [''2''], dn_outboundEdgeIds = [], dn_topologicalIndex = 2\<rparr>),
        (''b3'', \<lparr>dn_definition = transform_node ''b3'', dn_inboundEdgeIds = [''3''], dn_outboundEdgeIds = [], dn_topologicalIndex = 4\<rparr>),
        (''z'', \<lparr>dn_definition = transform_node ''z'', dn_inboundEdgeIds = [''4''], dn_outboundEdgeIds = [], dn_topologicalIndex = 3\<rparr>)]"
    by code_simp
  have ids: "wd_id wide_loop = ''wf''" "wd_projectId wide_loop = ''p''" "wd_version wide_loop = ''1''"
    "js_sort localeCompare (wd_entryNodeIds wide_loop) = [''L'']"
    by code_simp+
  show ?thesis
    unfolding wide_loop_graph_def derive_graph_def Let_def nodes
    unfolding ids buildGraphDigest_def edges
    by (simp add: loop_edge_def mk_edge_def)
qed

section \<open>Demonstrations\<close>

text \<open>Leaving a loop dispatches its body once more. Activated edges are never
  deactivated, so when the loop node completes with the branch \<open>exit\<close> the edges of its earlier
  \<open>loop\<close> choice still count as activated, and the body nodes, reset for the next round, become
  ready together with the exit node z.\<close>

theorem loop_exit_redispatches_body:
  "summarize (run_ops wide_loop_graph
     [run_node ''L'' OcCompleted (Some ''loop''), run_node ''b1'' OcCompleted None, run_node ''b2'' OcCompleted None,
      run_node ''b3'' OcCompleted None]) =
   Some (RsRunning, [''L''], [], [''b3''], [''L'', ''b1'', ''b2'', ''b3'']) \<and>
   summarize (run_ops wide_loop_graph
     [run_node ''L'' OcCompleted (Some ''loop''), run_node ''b1'' OcCompleted None, run_node ''b2'' OcCompleted None,
      run_node ''b3'' OcCompleted None, run_node ''L'' OcCompleted (Some ''exit'')]) =
   Some (RsRunning, [''b1'', ''b2'', ''z''], [], [''L'', ''b3''], [''L'', ''b1'', ''b2'', ''z'', ''b3''])"
  by (rule conjI; code_simp)

text \<open>The loop node runs again as soon as a direct child of it completes, not when the
  terminal node of its body does, and it is put on the ready list without leaving the waiting
  list: here it becomes ready while b3 has not run, and later is both waiting for its
  backoff and ready.\<close>

theorem loop_restarts_early:
  "summarize (run_ops wide_loop_graph
     [run_node ''L'' OcCompleted (Some ''loop''), run_node ''b1'' OcCompleted None]) =
   Some (RsReady, [''L'', ''b2'', ''b3''], [], [], [''L'', ''b1'', ''b2'', ''b3'']) \<and>
   summarize (run_ops wide_loop_graph
     [run_node ''L'' OcCompleted (Some ''loop''), run_node ''b1'' OcCompleted None,
      run_node ''L'' OcWaiting (Some ''loop''), run_node ''b2'' OcCompleted None]) =
   Some (RsWaiting, [''L'', ''b3''], [''L''], [], [''L'', ''b1'', ''b2'', ''b3''])"
  by (rule conjI; code_simp)

text \<open>A canceled run can be revived: canceling empties the lists but leaves the node
  statuses, and executing a node that was ready does not look at the run's status. The run
  is running again afterwards.\<close>

theorem canceled_run_revived:
  "summarize (run_ops diamond_graph [OpCancel sample_transition]) =
     Some (RsCanceled, [], [], [], []) \<and>
   summarize (run_ops diamond_graph [OpCancel sample_transition, run_node ''a'' OcCompleted None]) =
     Some (RsRunning, [''b'', ''c''], [], [''a''], [''b'', ''c''])"
  by (rule conjI; code_simp)

end
