(* ===== verification/Governance.thy ===== *)
theory Governance
  imports Workflow_Types
begin

text \<open>
  The confidence-governance decision: the evaluation input and result schemas of
  \<open>self/shared/src/types/confidence-governance.ts\<close> and the evaluator of
  \<open>self/cortex/pfc/src/confidence-governance-runtime.ts\<close>, which the workflow engine
  consults before it runs a node. The evaluator throws \<open>ValidationError\<close> on a bad input;
  here that is the \<open>JsError\<close> with its message. The formats of identifiers and dates stay
  with the schema library.
\<close>

section \<open>Texts\<close>

fun tier_text :: "confidence_tier \<Rightarrow> string" where
  "tier_text TierLow = ''low''"
| "tier_text TierMedium = ''medium''"
| "tier_text TierHigh = ''high''"

fun decay_text :: "decay_state \<Rightarrow> string" where
  "decay_text DecayStable = ''stable''"
| "decay_text DecayDecaying = ''decaying''"
| "decay_text DecayFlaggedRetirement = ''flagged_retirement''"

fun decision_outcome_text :: "governance_outcome \<Rightarrow> string" where
  "decision_outcome_text AllowAutonomy = ''allow_autonomy''"
| "decision_outcome_text AllowWithFlag = ''allow_with_flag''"
| "decision_outcome_text Escalate = ''escalate''"
| "decision_outcome_text Defer = ''defer''"
| "decision_outcome_text Deny = ''deny''"

fun escalation_reason_text :: "escalation_reason \<Rightarrow> string" where
  "escalation_reason_text ConfLow = ''CONF-LOW''"
| "escalation_reason_text ConfContradiction = ''CONF-CONTRADICTION''"
| "escalation_reason_text ConfStaleness = ''CONF-STALENESS''"
| "escalation_reason_text ConfRetirement = ''CONF-RETIREMENT''"

section \<open>Evidence references\<close>

definition trace_evidence_entries :: "trace_evidence \<Rightarrow> (string \<times> json) list" where
  \<comment> \<open>\<open>Object.entries(ref)\<close>\<close>
  "trace_evidence_entries r = (case trace_evidence_json r of JObj kvs \<Rightarrow> kvs | _ \<Rightarrow> [])"

definition compareEntryKeys :: "string \<times> json \<Rightarrow> string \<times> json \<Rightarrow> int" where
  "compareEntryKeys left right = localeCompare (fst left) (fst right)"

interpretation entry_cmp: js_comparator compareEntryKeys
  by (rule js_comparator_by_key [of _ "\<lambda>e. collation_key (fst e)"])
    (simp add: compareEntryKeys_def localeCompare_le)

definition evidenceRefKey :: "trace_evidence \<Rightarrow> string" where
  "evidenceRefKey ref =
     stringify (JArr (map (\<lambda>e. JArr [JStr (fst e), snd e])
       (js_sort compareEntryKeys (trace_evidence_entries ref))))"

definition isEvidenceSubset :: "trace_evidence list \<Rightarrow> trace_evidence list \<Rightarrow> bool" where
  "isEvidenceSubset sub super =
     (let allowed = map evidenceRefKey super in list_all (\<lambda>ref. evidenceRefKey ref \<in> set allowed) sub)"

definition mergeEvidenceRefs :: "trace_evidence list list \<Rightarrow> trace_evidence list" where
  "mergeEvidenceRefs collections =
     obj_values (from_entries [] (map (\<lambda>ref. (evidenceRefKey ref, ref)) (concat collections)))"

section \<open>The schemas\<close>

definition unit_interval :: "rat \<Rightarrow> bool" where
  "unit_interval x \<longleftrightarrow> 0 \<le> x \<and> x \<le> 1"

text \<open>The checks of \<open>superRefine\<close> on the input, and the bounds of its fields.\<close>

definition governance_input_refined :: "governance_input \<Rightarrow> bool" where
  "governance_input_refined v \<longleftrightarrow>
     dp_evidenceRefs (gi_pattern v) \<noteq> [] \<and>
     ex_patternId (gi_explanation v) = dp_id (gi_pattern v) \<and>
     (truthy (cs_patternId (gi_confidenceSignal v)) \<longrightarrow>
        cs_patternId (gi_confidenceSignal v) = Some (dp_id (gi_pattern v))) \<and>
     (truthy (cs_entryId (gi_confidenceSignal v)) \<longrightarrow>
        cs_entryId (gi_confidenceSignal v) = Some (dp_id (gi_pattern v))) \<and>
     (let signalPattern = Option.bind (gi_escalationSignal v) es_patternId in
        truthy signalPattern \<longrightarrow> signalPattern = Some (dp_id (gi_pattern v))) \<and>
     isEvidenceSubset (ex_evidenceRefs (gi_explanation v)) (dp_evidenceRefs (gi_pattern v))"

definition explanation_fields_ok :: "behavior_explanation \<Rightarrow> bool" where
  "explanation_fields_ok x \<longleftrightarrow> ex_outcomeRef x \<noteq> [] \<and> ex_evidenceRefs x \<noteq> []"

definition signal_fields_ok :: "escalation_signal option \<Rightarrow> bool" where
  "signal_fields_ok x = (case x of None \<Rightarrow> True | Some s \<Rightarrow> es_evidenceRefs s \<noteq> [])"

definition governance_input_ok :: "governance_input \<Rightarrow> bool" where
  "governance_input_ok v \<longleftrightarrow>
     unit_interval (dp_confidence (gi_pattern v)) \<and>
     unit_interval (cs_confidence (gi_confidenceSignal v)) \<and>
     explanation_fields_ok (gi_explanation v) \<and> signal_fields_ok (gi_escalationSignal v) \<and>
     governance_input_refined v"

definition parse_governance_input :: "governance_input \<Rightarrow> governance_input result" where
  "parse_governance_input v = (if governance_input_ok v then Inr v else Inl ZodError)"

definition governance_decision_ok :: "governance_decision \<Rightarrow> bool" where
  "governance_decision_ok v \<longleftrightarrow>
     unit_interval (gd_confidence v) \<and> gd_evidenceRefs v \<noteq> [] \<and>
     explanation_fields_ok (gd_explanation v) \<and> signal_fields_ok (gd_escalationSignal v) \<and>
     governance_decision_refined v"

definition parse_governance_decision :: "governance_decision \<Rightarrow> governance_decision result" where
  "parse_governance_decision v = (if governance_decision_ok v then Inr v else Inl ZodError)"

interpretation governance_input_schema: schema_parser parse_governance_input
  by unfold_locales (auto simp: parse_governance_input_def split: if_splits)

interpretation governance_decision_schema: schema_parser parse_governance_decision
  by unfold_locales (auto simp: parse_governance_decision_def split: if_splits)

section \<open>The mapping from tiers to autonomy\<close>

record governance_mapping =
  gm_tier :: confidence_tier
  gm_escalationRequired :: bool
  gm_mayAutonomyAllowed :: bool
  gm_shouldFlagDeviations :: bool
  gm_maxGovernanceForAutonomy :: "governance_level option"

definition CANONICAL_CONFIDENCE_GOVERNANCE_MAPPING :: "governance_mapping list" where
  "CANONICAL_CONFIDENCE_GOVERNANCE_MAPPING =
     [\<lparr>gm_tier = TierLow, gm_escalationRequired = True, gm_mayAutonomyAllowed = False,
       gm_shouldFlagDeviations = True, gm_maxGovernanceForAutonomy = None\<rparr>,
      \<lparr>gm_tier = TierMedium, gm_escalationRequired = False, gm_mayAutonomyAllowed = False,
       gm_shouldFlagDeviations = True, gm_maxGovernanceForAutonomy = None\<rparr>,
      \<lparr>gm_tier = TierHigh, gm_escalationRequired = False, gm_mayAutonomyAllowed = True,
       gm_shouldFlagDeviations = False, gm_maxGovernanceForAutonomy = Some GovMay\<rparr>]"

definition HIGH_RISK_ACTION_CATEGORIES :: "action_category list" where
  "HIGH_RISK_ACTION_CATEGORIES = [ActToolExecute, ActMemoryWrite, ActOpctlCommand]"

section \<open>The decision\<close>

definition buildResult ::
  "governance_input \<Rightarrow> governance_outcome \<Rightarrow> governance_reason \<Rightarrow> bool \<Rightarrow> bool \<Rightarrow> bool \<Rightarrow> governance_decision result" where
  "buildResult input outcome reason autonomy confirmation override =
     parse_governance_decision
       \<lparr>gd_outcome = outcome, gd_reasonCode = reason, gd_governance = gi_governance input,
        gd_actionCategory = gi_actionCategory input,
        gd_projectControlState = gi_projectControlState input,
        gd_patternId = dp_id (gi_pattern input),
        gd_confidence = cs_confidence (gi_confidenceSignal input),
        gd_confidenceTier = cs_tier (gi_confidenceSignal input),
        gd_supportingSignals = cs_supportingSignals (gi_confidenceSignal input),
        gd_decayState = cs_decayState (gi_confidenceSignal input),
        gd_autonomyAllowed = autonomy, gd_requiresConfirmation = confirmation,
        gd_highRiskOverrideApplied = override,
        gd_evidenceRefs = mergeEvidenceRefs
          [dp_evidenceRefs (gi_pattern input), ex_evidenceRefs (gi_explanation input),
           (case gi_escalationSignal input of None \<Rightarrow> [] | Some s \<Rightarrow> es_evidenceRefs s)],
        gd_explanation = gi_explanation input, gd_escalationSignal = gi_escalationSignal input\<rparr>"

fun resolveEscalationReasonCode :: "escalation_reason \<Rightarrow> governance_reason" where
  "resolveEscalationReasonCode ConfContradiction = CgrEscalateContradiction"
| "resolveEscalationReasonCode ConfStaleness = CgrEscalateStaleness"
| "resolveEscalationReasonCode ConfRetirement = CgrEscalateRetirement"
| "resolveEscalationReasonCode ConfLow = CgrEscalateLowConfidence"

definition resolveStableDecision :: "governance_input \<Rightarrow> governance_decision result" where
  "resolveStableDecision input =
     (case find (\<lambda>entry. gm_tier entry = cs_tier (gi_confidenceSignal input)) CANONICAL_CONFIDENCE_GOVERNANCE_MAPPING of
        None \<Rightarrow> Inl (JsError (''Missing confidence-governance mapping for tier '' @ tier_text (cs_tier (gi_confidenceSignal input))))
      | Some mapping \<Rightarrow>
          if gi_governance input = GovMust then
            buildResult input Deny CgrDenyGovernanceCeiling False False False
          else if gi_governance input = GovMay \<and> gm_mayAutonomyAllowed mapping
             \<and> gm_maxGovernanceForAutonomy mapping = Some GovMay then
            buildResult input AllowAutonomy CgrAllowAutonomy True False False
          else buildResult input AllowWithFlag CgrAllowWithFlag False False False)"

definition requires_escalation :: "confidence_signal \<Rightarrow> bool" where
  "requires_escalation signal \<longleftrightarrow> cs_tier signal = TierLow \<or> cs_decayState signal \<noteq> Some DecayStable"

definition decide_governance :: "governance_input \<Rightarrow> governance_decision result" where
  \<comment> \<open>the evaluator after the input has parsed\<close>
  "decide_governance input =
     (if gi_projectControlState input = Some CtlHardStopped then
        buildResult input Deny CgrDenyHardStopped False False False
      else if gi_projectControlState input = Some CtlPausedReview then
        buildResult input Defer CgrDeferPausedReview False False False
      else if gi_projectControlState input = Some CtlResuming then
        buildResult input Defer CgrDeferResuming False False False
      else if gi_actionCategory input \<in> set HIGH_RISK_ACTION_CATEGORIES then
        buildResult input Defer CgrDeferHighRiskConfirmation False True True
      else if requires_escalation (gi_confidenceSignal input) then
        (case gi_escalationSignal input of
           None \<Rightarrow> buildResult input Deny CgrDenyMissingEscalationContext False False False
         | Some s \<Rightarrow> buildResult input Escalate (resolveEscalationReasonCode (es_reasonCode s)) False False False)
      else resolveStableDecision input)"

definition evaluateConfidenceGovernanceRuntime :: "governance_input \<Rightarrow> governance_decision result" where
  "evaluateConfidenceGovernanceRuntime input =
     (case parse_governance_input input of
        Inl e \<Rightarrow> Inl (JsError ''Invalid ConfidenceGovernanceEvaluationInput'')
      | Inr evaluationInput \<Rightarrow> decide_governance evaluationInput)"

section \<open>What an observer sees\<close>

datatype cg_value = CvText string | CvNum rat | CvBool bool | CvUndefined

datatype cg_event =
    CgMetric string nat "(string \<times> cg_value) list"
  | CgLog string "(string \<times> cg_value) list"

definition cv_opt :: "('a \<Rightarrow> string) \<Rightarrow> 'a option \<Rightarrow> cg_value" where
  "cv_opt f x = (case x of None \<Rightarrow> CvUndefined | Some a \<Rightarrow> CvText (f a))"

definition decision_log_fields :: "governance_decision \<Rightarrow> (string \<times> cg_value) list" where
  "decision_log_fields d =
     [(''patternId'', CvText (gd_patternId d)), (''governance'', CvText (governance_level_text (gd_governance d))),
      (''actionCategory'', CvText (action_category_text (gd_actionCategory d))),
      (''projectControlState'', cv_opt control_state_text (gd_projectControlState d)),
      (''confidence'', CvNum (gd_confidence d)), (''confidenceTier'', CvText (tier_text (gd_confidenceTier d))),
      (''supportingSignals'', CvNum (of_nat (gd_supportingSignals d))),
      (''decayState'', cv_opt decay_text (gd_decayState d)),
      (''outcome'', CvText (decision_outcome_text (gd_outcome d))),
      (''reasonCode'', CvText (governance_reason_text (gd_reasonCode d))),
      (''requiresConfirmation'', CvBool (gd_requiresConfirmation d)),
      (''highRiskOverrideApplied'', CvBool (gd_highRiskOverrideApplied d)),
      (''evidenceRefCount'', CvNum (of_nat (length (gd_evidenceRefs d)))),
      (''escalationReasonCode'', cv_opt (\<lambda>s. escalation_reason_text (es_reasonCode s)) (gd_escalationSignal d))]"

definition observeConfidenceGovernanceDecision :: "governance_decision \<Rightarrow> cg_event list" where
  \<comment> \<open>the calls an observer receives, in order\<close>
  "observeConfidenceGovernanceDecision d =
     [CgMetric ''confidence_governance_decision_total'' 1
        [(''outcome'', CvText (decision_outcome_text (gd_outcome d))),
         (''reasonCode'', CvText (governance_reason_text (gd_reasonCode d))),
         (''governance'', CvText (governance_level_text (gd_governance d))),
         (''tier'', CvText (tier_text (gd_confidenceTier d))),
         (''actionCategory'', CvText (action_category_text (gd_actionCategory d)))]]
     @ (if gd_reasonCode d \<in> {CgrDenyHardStopped, CgrDeferPausedReview, CgrDeferResuming} then
          [CgMetric ''confidence_governance_control_state_block_total'' 1
             [(''controlState'', CvText (case gd_projectControlState d of None \<Rightarrow> ''unknown'' | Some c \<Rightarrow> control_state_text c)),
              (''outcome'', CvText (decision_outcome_text (gd_outcome d)))]]
        else [])
     @ (if gd_highRiskOverrideApplied d then
          [CgMetric ''confidence_governance_high_risk_override_total'' 1
             [(''actionCategory'', CvText (action_category_text (gd_actionCategory d)))]]
        else [])
     @ (if gd_outcome d = Escalate then
          [CgMetric ''confidence_governance_escalation_total'' 1
             [(''reasonCode'', CvText (governance_reason_text (gd_reasonCode d))),
              (''governance'', CvText (governance_level_text (gd_governance d))),
              (''tier'', CvText (tier_text (gd_confidenceTier d)))]]
        else [])
     @ (if gd_reasonCode d = CgrDenyMissingEscalationContext then
          [CgMetric ''confidence_governance_missing_context_total'' 1
             [(''missingField'', CvText ''escalationSignal'')]]
        else [])
     @ [CgLog ''confidence_governance.runtime.decision'' (decision_log_fields d)]"

section \<open>Correctness\<close>

text \<open>The evaluator's own specification: outcome and reason of a valid input, as a table.\<close>

definition stable_spec :: "governance_input \<Rightarrow> governance_outcome \<times> governance_reason" where
  "stable_spec i =
     (if gi_governance i = GovMust then (Deny, CgrDenyGovernanceCeiling)
      else if gi_governance i = GovMay \<and> cs_tier (gi_confidenceSignal i) = TierHigh then (AllowAutonomy, CgrAllowAutonomy)
      else (AllowWithFlag, CgrAllowWithFlag))"

definition decision_spec :: "governance_input \<Rightarrow> governance_outcome \<times> governance_reason" where
  "decision_spec i =
     (case gi_projectControlState i of
        Some CtlHardStopped \<Rightarrow> (Deny, CgrDenyHardStopped)
      | Some CtlPausedReview \<Rightarrow> (Defer, CgrDeferPausedReview)
      | Some CtlResuming \<Rightarrow> (Defer, CgrDeferResuming)
      | _ \<Rightarrow>
        if gi_actionCategory i \<in> {ActToolExecute, ActMemoryWrite, ActOpctlCommand} then (Defer, CgrDeferHighRiskConfirmation)
        else if cs_tier (gi_confidenceSignal i) = TierLow \<or> cs_decayState (gi_confidenceSignal i) \<noteq> Some DecayStable then
          (case gi_escalationSignal i of
             None \<Rightarrow> (Deny, CgrDenyMissingEscalationContext)
           | Some s \<Rightarrow> (Escalate, resolveEscalationReasonCode (es_reasonCode s)))
        else stable_spec i)"

lemma from_entries_nonempty: "ob \<noteq> [] \<or> kvs \<noteq> [] \<Longrightarrow> from_entries ob kvs \<noteq> []"
proof (induction kvs arbitrary: ob)
  case Nil
  then show ?case by simp
next
  case (Cons kv kvs)
  have "obj_set (fst kv) (snd kv) ob \<noteq> []"
    by (cases ob) (auto simp: obj_set_def)
  then show ?case using Cons.IH by (cases kv) simp
qed

lemma mergeEvidenceRefs_nonempty: "concat collections \<noteq> [] \<Longrightarrow> mergeEvidenceRefs collections \<noteq> []"
  unfolding mergeEvidenceRefs_def obj_values_def map_is_Nil_conv
  by (rule from_entries_nonempty) simp

lemma escalation_reason_simps [simp]:
  "resolveEscalationReasonCode r \<noteq> CgrDeferHighRiskConfirmation"
  "resolveEscalationReasonCode r \<noteq> CgrDenyMissingEscalationContext"
  "resolveEscalationReasonCode r \<noteq> CgrAllowAutonomy"
  by (cases r; simp)+

text \<open>When the flags are consistent with the outcome and the reason, building cannot fail.\<close>

definition flags_consistent :: "governance_input \<Rightarrow> governance_outcome \<Rightarrow> governance_reason \<Rightarrow> bool \<Rightarrow> bool \<Rightarrow> bool \<Rightarrow> bool" where
  "flags_consistent i out reason autonomy confirmation override \<longleftrightarrow>
     autonomy = (out = AllowAutonomy) \<and>
     confirmation = (reason = CgrDeferHighRiskConfirmation) \<and> override = confirmation \<and>
     (reason = CgrDeferHighRiskConfirmation \<longrightarrow> out = Defer) \<and>
     (out = Escalate \<longrightarrow> gi_escalationSignal i \<noteq> None) \<and>
     (reason = CgrDenyMissingEscalationContext \<longrightarrow> gi_escalationSignal i = None)"

definition yields :: "governance_decision result \<Rightarrow> governance_outcome \<times> governance_reason \<Rightarrow> bool" where
  "yields m p \<longleftrightarrow> (\<exists>d. m = Inr d \<and> governance_decision_ok d \<and> (gd_outcome d, gd_reasonCode d) = p)"

lemma buildResult_yields:
  assumes "governance_input_ok i" and "flags_consistent i out reason autonomy confirmation override"
  shows "yields (buildResult i out reason autonomy confirmation override) (out, reason)"
proof -
  have "dp_evidenceRefs (gi_pattern i) \<noteq> []"
    using assms(1) by (simp add: governance_input_ok_def governance_input_refined_def)
  then have "mergeEvidenceRefs [dp_evidenceRefs (gi_pattern i), ex_evidenceRefs (gi_explanation i),
      (case gi_escalationSignal i of None \<Rightarrow> [] | Some s \<Rightarrow> es_evidenceRefs s)] \<noteq> []"
    by (intro mergeEvidenceRefs_nonempty) simp
  with assms show ?thesis
    unfolding buildResult_def parse_governance_decision_def yields_def
    by (auto simp: governance_decision_ok_def governance_decision_refined_def governance_input_ok_def flags_consistent_def)
qed

lemma stable_decision_yields:
  assumes "governance_input_ok i"
  shows "yields (resolveStableDecision i) (stable_spec i)"
proof -
  have "flags_consistent i Deny CgrDenyGovernanceCeiling False False False"
    "flags_consistent i AllowAutonomy CgrAllowAutonomy True False False"
    "flags_consistent i AllowWithFlag CgrAllowWithFlag False False False"
    by (simp_all add: flags_consistent_def)
  note built = this [THEN buildResult_yields [OF assms]]
  show ?thesis
    using built
    by (cases "cs_tier (gi_confidenceSignal i)")
      (auto simp: resolveStableDecision_def stable_spec_def CANONICAL_CONFIDENCE_GOVERNANCE_MAPPING_def)
qed

lemma decide_governance_yields:
  assumes "governance_input_ok i"
  shows "yields (decide_governance i) (decision_spec i)"
proof -
  have flags: "flags_consistent i Deny CgrDenyHardStopped False False False"
    "flags_consistent i Defer CgrDeferPausedReview False False False"
    "flags_consistent i Defer CgrDeferResuming False False False"
    "flags_consistent i Defer CgrDeferHighRiskConfirmation False True True"
    "gi_escalationSignal i = None \<Longrightarrow> flags_consistent i Deny CgrDenyMissingEscalationContext False False False"
    "\<And>s. gi_escalationSignal i = Some s \<Longrightarrow>
       flags_consistent i Escalate (resolveEscalationReasonCode (es_reasonCode s)) False False False"
    by (auto simp: flags_consistent_def)
  note built = flags [THEN buildResult_yields [OF assms]]
  show ?thesis
    using built stable_decision_yields [OF assms]
    by (cases "gi_projectControlState i"; cases "gi_escalationSignal i"; cases "the (gi_projectControlState i)")
      (simp_all add: decide_governance_def decision_spec_def HIGH_RISK_ACTION_CATEGORIES_def requires_escalation_def)
qed

lemma evaluate_InrD:
  assumes "evaluateConfidenceGovernanceRuntime i = Inr d"
  shows "governance_input_ok i" and "decide_governance i = Inr d"
  using assms by (auto simp: evaluateConfidenceGovernanceRuntime_def parse_governance_input_def split: if_splits)

lemma evaluate_decision:
  assumes "evaluateConfidenceGovernanceRuntime i = Inr d"
  shows "governance_decision_ok d" and "(gd_outcome d, gd_reasonCode d) = decision_spec i"
  using decide_governance_yields [OF evaluate_InrD(1) [OF assms]] evaluate_InrD(2) [OF assms]
  by (auto simp: yields_def)

lemma evaluate_total:
  assumes "governance_input_ok i"
  shows "\<exists>d. evaluateConfidenceGovernanceRuntime i = Inr d"
  using decide_governance_yields [OF assms] assms
  by (auto simp: yields_def evaluateConfidenceGovernanceRuntime_def parse_governance_input_def)

lemma autonomy_iff_outcome: "governance_decision_ok d \<Longrightarrow> gd_autonomyAllowed d \<longleftrightarrow> gd_outcome d = AllowAutonomy"
  unfolding governance_decision_ok_def governance_decision_refined_def by blast

lemma decision_spec_autonomy:
  "fst (decision_spec i) = AllowAutonomy \<longleftrightarrow>
      gi_governance i = GovMay \<and> cs_tier (gi_confidenceSignal i) = TierHigh \<and>
      cs_decayState (gi_confidenceSignal i) = Some DecayStable \<and>
      gi_actionCategory i \<notin> set HIGH_RISK_ACTION_CATEGORIES \<and>
      gi_projectControlState i \<in> {None, Some CtlRunning}"
  by (cases "gi_projectControlState i"; cases "gi_escalationSignal i"; cases "the (gi_projectControlState i)")
    (auto simp: decision_spec_def stable_spec_def HIGH_RISK_ACTION_CATEGORIES_def)

lemma decision_spec_high_risk:
  "gi_actionCategory i \<in> set HIGH_RISK_ACTION_CATEGORIES \<Longrightarrow> fst (decision_spec i) \<in> {Deny, Defer}"
  by (cases "gi_projectControlState i"; cases "gi_escalationSignal i"; cases "the (gi_projectControlState i)")
    (auto simp: decision_spec_def stable_spec_def HIGH_RISK_ACTION_CATEGORIES_def)

text \<open>C10: The evaluator answers every valid input with a decision that passes the result schema, and
  refuses an invalid one. A node acts autonomously only under the narrowest conditions: the level is
  \<open>may\<close>, the confidence tier high and its state stable, the category not a high-risk one, and the
  project neither stopped, paused nor resuming; under these conditions it always may. A high-risk
  category is never let through, whatever the confidence.\<close>

theorem autonomy_conditions:
  "if governance_input_ok i
   then \<exists>d. evaluateConfidenceGovernanceRuntime i = Inr d \<and> governance_decision_ok d \<and>
     (gd_autonomyAllowed d \<longleftrightarrow>
       gi_governance i = GovMay \<and> cs_tier (gi_confidenceSignal i) = TierHigh \<and>
       cs_decayState (gi_confidenceSignal i) = Some DecayStable \<and>
       gi_actionCategory i \<notin> set HIGH_RISK_ACTION_CATEGORIES \<and>
       gi_projectControlState i \<in> {None, Some CtlRunning}) \<and>
     (gi_actionCategory i \<in> set HIGH_RISK_ACTION_CATEGORIES \<longrightarrow> gd_outcome d \<in> {Deny, Defer})
   else evaluateConfidenceGovernanceRuntime i = Inl (JsError ''Invalid ConfidenceGovernanceEvaluationInput'')"
proof (cases "governance_input_ok i")
  case True
  then obtain d where d: "evaluateConfidenceGovernanceRuntime i = Inr d" using evaluate_total by blast
  have "gd_outcome d = fst (decision_spec i)"
    using evaluate_decision(2) [OF d] by (metis fst_conv)
  then show ?thesis
    using d True evaluate_decision(1) [OF d] autonomy_iff_outcome [OF evaluate_decision(1) [OF d]]
      decision_spec_autonomy [of i] decision_spec_high_risk [of i]
    by simp
next
  case False
  then show ?thesis by (simp add: evaluateConfidenceGovernanceRuntime_def parse_governance_input_def)
qed

definition sample_governance_input :: "governance_level \<Rightarrow> action_category \<Rightarrow> governance_input" where
  "sample_governance_input level category =
     (let ref = \<lparr>ev_actionCategory = category, ev_authorizationEventId = Some ''event'', ev_completionEventId = None,
                 ev_invariantEventId = None, ev_verificationReportId = None\<rparr> in
      \<lparr>gi_governance = level, gi_actionCategory = category, gi_projectControlState = Some CtlRunning,
       gi_pattern = \<lparr>dp_id = ''pattern'', dp_content = ''c'', dp_confidence = 1, dp_basedOn = [], dp_supersedes = [],
         dp_evidenceRefs = [ref], dp_projectId = None, dp_scope = ScopeProject, dp_tags = [],
         dp_createdAt = ''t0'', dp_updatedAt = ''t0''\<rparr>,
       gi_confidenceSignal = \<lparr>cs_tier = TierHigh, cs_confidence = 1, cs_supportingSignals = 16,
         cs_patternId = Some ''pattern'', cs_entryId = None, cs_decayState = Some DecayStable\<rparr>,
       gi_explanation = \<lparr>ex_patternId = ''pattern'', ex_outcomeRef = ''o'', ex_evidenceRefs = [ref],
         ex_distillationRef = None, ex_policyRef = None, ex_controlStateRef = None\<rparr>,
       gi_escalationSignal = None\<rparr>)"

lemma sample_governance_input_ok: "governance_input_ok (sample_governance_input level category)"
  by (simp add: sample_governance_input_def Let_def governance_input_ok_def governance_input_refined_def
      unit_interval_def explanation_fields_ok_def signal_fields_ok_def isEvidenceSubset_def)

theorem autonomy_conditions_witness:
  "\<exists>d d'. evaluateConfidenceGovernanceRuntime (sample_governance_input GovMay ActTracePersist) = Inr d \<and> gd_autonomyAllowed d \<and>
     evaluateConfidenceGovernanceRuntime (sample_governance_input GovMay ActToolExecute) = Inr d' \<and> gd_outcome d' \<in> {Deny, Defer}"
proof -
  have risky: "ActToolExecute \<in> set HIGH_RISK_ACTION_CATEGORIES" "ActTracePersist \<notin> set HIGH_RISK_ACTION_CATEGORIES"
    by (simp_all add: HIGH_RISK_ACTION_CATEGORIES_def)
  have fields: "gi_governance (sample_governance_input l c) = l" "gi_actionCategory (sample_governance_input l c) = c"
    "cs_tier (gi_confidenceSignal (sample_governance_input l c)) = TierHigh"
    "cs_decayState (gi_confidenceSignal (sample_governance_input l c)) = Some DecayStable"
    "gi_projectControlState (sample_governance_input l c) = Some CtlRunning" for l c
    by (simp_all add: sample_governance_input_def Let_def)
  show ?thesis
    using autonomy_conditions [of "sample_governance_input GovMay ActTracePersist"]
      autonomy_conditions [of "sample_governance_input GovMay ActToolExecute"]
    by (auto simp: sample_governance_input_ok fields risky)
qed

end
