(* ===== verification/Services.thy ===== *)
theory Services
  imports Run_Types Governance
begin

text \<open>
  The services a workflow engine calls while it runs a node: model router, tool executor,
  PFC engine, observer, checkpoint manager, event bus. They are parameters of the model. A
  computation is a function of the calls made so far and returns its result, or the error
  it throws, with the calls extended; a service may answer with anything that depends on
  those calls, so a stateful service is one too. \<open>invoke\<close> makes a call.
\<close>

section \<open>Calls\<close>

datatype recovery_domain =
  StepDomain | AgentDomain | AgentSetDomain | ProjectRunDomain | RuntimeDomain

record checkpoint_snapshot =
  sn_domain_scope :: recovery_domain
  sn_state_vector_hash :: string
  sn_policy_epoch :: string
  sn_scheduler_cursor :: string
  sn_tool_side_effect_journal_hwm :: nat
  sn_memory_write_journal_hwm :: nat
  sn_idempotency_key_set_hash :: string

datatype run_outcome = RunCompleted | RunFailed | RunCancelled

datatype bus_event =
    NodeStatusChanged string string string node_status \<comment> \<open>run, node, project, status\<close>
  | RunFinished string string run_outcome \<comment> \<open>run, project, outcome\<close>

datatype call =
    CallRoute model_role string
  | CallTool string json string
  | CallGovernance governance_input
  | CallObserve string "(string \<times> json) list"
  | CallPrepare string string checkpoint_snapshot
  | CallCommit string string string
  | CallPublish bus_event

section \<open>Computations\<close>

type_synonym 'a io = "call list \<Rightarrow> 'a result \<times> call list"

definition returnIO :: "'a \<Rightarrow> 'a io" where
  "returnIO x = (\<lambda>calls. (Inr x, calls))"

definition throwIO :: "js_error \<Rightarrow> 'a io" where
  "throwIO e = (\<lambda>calls. (Inl e, calls))"

definition liftIO :: "'a result \<Rightarrow> 'a io" where
  "liftIO r = (\<lambda>calls. (r, calls))"

definition bindIO :: "'a io \<Rightarrow> ('a \<Rightarrow> 'b io) \<Rightarrow> 'b io" where
  "bindIO m f = (\<lambda>calls. case m calls of
       (Inl e, calls') \<Rightarrow> (Inl e, calls')
     | (Inr x, calls') \<Rightarrow> f x calls')"

definition invoke :: "call \<Rightarrow> (call list \<Rightarrow> 'a result) \<Rightarrow> 'a io" where
  "invoke c answer = (\<lambda>calls. (answer calls, calls @ [c]))"

definition fresh :: "wf_env \<Rightarrow> string io" where
  \<comment> \<open>\<open>randomUUID()\<close>\<close>
  "fresh env = (\<lambda>calls. (Inr (env_freshId env (length calls)), calls))"

named_theorems io_simps \<open>evaluation of computations\<close>

lemma io_apply [io_simps]:
  "returnIO x calls = (Inr x, calls)"
  "throwIO e calls = (Inl e, calls)"
  "liftIO r calls = (r, calls)"
  "invoke c answer calls = (answer calls, calls @ [c])"
  "fresh env calls = (Inr (env_freshId env (length calls)), calls)"
  by (simp_all add: returnIO_def throwIO_def liftIO_def invoke_def fresh_def)

lemma bindIO_apply:
  "bindIO m f calls = (case m calls of (Inl e, calls') \<Rightarrow> (Inl e, calls') | (Inr x, calls') \<Rightarrow> f x calls')"
  by (simp add: bindIO_def)

lemma bindIO_simps [io_simps]:
  "bindIO (returnIO x) f calls = f x calls"
  "bindIO (throwIO e) f calls = (Inl e, calls)"
  "bindIO (liftIO r) f calls = (case r of Inl e \<Rightarrow> (Inl e, calls) | Inr x \<Rightarrow> f x calls)"
  "bindIO (invoke c answer) f calls =
     (case answer calls of Inl e \<Rightarrow> (Inl e, calls @ [c]) | Inr x \<Rightarrow> f x (calls @ [c]))"
  by (simp_all add: bindIO_def io_apply split: sum.split)

lemma bindIO_fresh [io_simps]: "bindIO (fresh env) f calls = f (env_freshId env (length calls)) calls"
  by (simp add: bindIO_def io_apply)

lemma bindIO_InrE:
  assumes "bindIO m f calls = (Inr y, calls')"
  obtains x calls1 where "m calls = (Inr x, calls1)" and "f x calls1 = (Inr y, calls')"
  using assms by (auto simp: bindIO_def split: prod.splits sum.splits)

text \<open>Every result a computation can give satisfies \<open>P\<close>, and every call it makes \<open>Q\<close>.\<close>

definition gives :: "'a io \<Rightarrow> ('a \<Rightarrow> bool) \<Rightarrow> bool" where
  "gives m P \<longleftrightarrow> (\<forall>calls x calls'. m calls = (Inr x, calls') \<longrightarrow> P x)"

definition makes :: "'a io \<Rightarrow> (call \<Rightarrow> bool) \<Rightarrow> bool" where
  "makes m Q \<longleftrightarrow> (\<forall>calls. \<exists>new. snd (m calls) = calls @ new \<and> list_all Q new)"

lemma gives_intros:
  "P x \<Longrightarrow> gives (returnIO x) P"
  "gives (throwIO e) P"
  "(\<And>x. r = Inr x \<Longrightarrow> P x) \<Longrightarrow> gives (liftIO r) P"
  by (auto simp: gives_def io_apply)

lemma gives_bind: "(\<And>x. gives (f x) P) \<Longrightarrow> gives (bindIO m f) P"
  by (auto simp: gives_def bindIO_def split: prod.splits sum.splits)

lemma gives_mono: "gives m P \<Longrightarrow> (\<And>x. P x \<Longrightarrow> Q x) \<Longrightarrow> gives m Q"
  by (auto simp: gives_def)

lemma givesD: "gives m P \<Longrightarrow> m calls = (Inr x, calls') \<Longrightarrow> P x"
  by (auto simp: gives_def)

lemma makes_pure:
  "makes (returnIO x) Q" "makes (throwIO e) Q" "makes (liftIO r) Q" "makes (fresh env) Q"
  by (auto simp: makes_def io_apply)

lemma makes_invoke: "Q c \<Longrightarrow> makes (invoke c answer) Q"
  by (auto simp: makes_def io_apply)

lemma makes_bind:
  assumes "makes m Q" and "\<And>x. makes (f x) Q"
  shows "makes (bindIO m f) Q"
  unfolding makes_def
proof
  fix calls
  obtain r calls1 where m: "m calls = (r, calls1)" by fastforce
  with assms(1) obtain new1 where n1: "calls1 = calls @ new1" "list_all Q new1"
    unfolding makes_def by (metis snd_conv)
  show "\<exists>new. snd (bindIO m f calls) = calls @ new \<and> list_all Q new"
  proof (cases r)
    case (Inl e)
    then show ?thesis using m n1 by (simp add: bindIO_def)
  next
    case (Inr x)
    obtain new2 where "snd (f x calls1) = calls1 @ new2" "list_all Q new2"
      using assms(2) unfolding makes_def by blast
    then show ?thesis using m n1 Inr by (intro exI [of _ "new1 @ new2"]) (simp add: bindIO_def)
  qed
qed

lemma makes_mono: "makes m Q \<Longrightarrow> (\<And>c. Q c \<Longrightarrow> R c) \<Longrightarrow> makes m R"
  unfolding makes_def list_all_iff by meson

lemma makesD: "makes m Q \<Longrightarrow> m calls = (r, calls') \<Longrightarrow> \<exists>new. calls' = calls @ new \<and> list_all Q new"
  unfolding makes_def by (metis snd_conv)

lemmas makes_intros = makes_pure makes_invoke makes_bind

section \<open>The services\<close>

record tool_result =
  to_success :: bool
  to_error :: "string option"

record prepare_result =
  pp_success :: bool
  pp_checkpoint_id :: "string option"

record checkpoint_service =
  cm_prepare :: "call list \<Rightarrow> string \<Rightarrow> string \<Rightarrow> checkpoint_snapshot \<Rightarrow> prepare_result result"
  cm_commit :: "call list \<Rightarrow> string \<Rightarrow> string \<Rightarrow> string \<Rightarrow> bool result"

type_synonym node_handler = "execution_context \<Rightarrow> execution_result io"

record services =
  sv_route :: "(call list \<Rightarrow> model_role \<Rightarrow> string \<Rightarrow> string result) option"
  sv_tool :: "(call list \<Rightarrow> string \<Rightarrow> json \<Rightarrow> string \<Rightarrow> tool_result result) option"
  sv_pfc :: "(call list \<Rightarrow> governance_input \<Rightarrow> governance_decision result) option"
  sv_observer :: "(call list \<Rightarrow> string \<Rightarrow> (string \<times> json) list \<Rightarrow> unit result) option"
  sv_checkpoints :: "checkpoint_service option"
  sv_bus :: "(call list \<Rightarrow> bus_event \<Rightarrow> unit result) option"
  sv_overrides :: "(node_kind \<times> node_handler) list"
  sv_sha256 :: "string \<Rightarrow> string"

end
