(* ===== verification/Handlers.thy ===== *)
theory Handlers
  imports Services Run_State
begin

text \<open>
  The node handlers, \<open>self/subcortex/workflows/src/handlers/\<close>: one definition per handler
  class, with the check of its configuration, and the registry of \<open>handlers/index.ts\<close>. The
  locale \<open>node_handler\<close> is the contract of \<open>IWorkflowNodeHandler\<close> the engine relies on:
  a result keeps the governance decision it was given, a waiting result and only that
  carries a wait state, and every reason is a text. Each handler interprets it.
\<close>

section \<open>Parts of a result\<close>

definition mk_result :: "execution_context \<Rightarrow> outcome \<Rightarrow> effect_status \<Rightarrow> string \<Rightarrow> string list \<Rightarrow> execution_result" where
  \<comment> \<open>the fields every result sets; the optional ones are absent\<close>
  "mk_result ctx out effect reason refs =
     \<lparr>er_outcome = out, er_governanceDecision = xc_governanceDecision ctx, er_waitState = None,
      er_correctionArc = None, er_sideEffectStatus = effect, er_outputRef = None, er_checkpointId = None,
      er_selectedBranchKey = None, er_reasonCode = reason, er_evidenceRefs = refs\<rparr>"

definition lineage_evidence :: "dispatch_lineage \<Rightarrow> string list" where
  "lineage_evidence l = dl_evidenceRefs l @ [''workflow_dispatch_lineage_id='' @ dl_id l]"

definition side_effect :: "execution_context \<Rightarrow> effect_status \<Rightarrow> effect_status" where
  "side_effect ctx d = getOr (payload_field pl_sideEffectStatus (xc_payload ctx)) d"

definition ctx_config :: "execution_context \<Rightarrow> node_config" where
  "ctx_config ctx = nd_config (xc_nodeDefinition ctx)"

definition node_attempts :: "execution_context \<Rightarrow> nat option" where
  \<comment> \<open>\<open>context.runState.nodeStates[context.nodeDefinition.id]?.attempts.length\<close>\<close>
  "node_attempts ctx =
     map_option (\<lambda>ns. length (ns_attempts ns)) (node_state (xc_runState ctx) (nd_id (xc_nodeDefinition ctx)))"

definition bad_config :: "string \<Rightarrow> string \<Rightarrow> js_error" where
  "bad_config handler kind = JsError (handler @ ''WorkflowNodeHandler received non '' @ kind @ '' config'')"

definition wait_on :: "wf_env \<Rightarrow> wait_kind \<Rightarrow> string \<Rightarrow> string list \<Rightarrow> string option \<Rightarrow> string option \<Rightarrow> wait_state" where
  "wait_on env kind reason refs token ext =
     \<lparr>ws_kind = kind, ws_reasonCode = reason, ws_evidenceRefs = refs, ws_requestedAt = env_now env,
      ws_resumeToken = token, ws_externalRef = ext\<rparr>"

section \<open>Handlers without services\<close>

definition condition_execute :: "execution_context \<Rightarrow> execution_result result" where
  "condition_execute ctx =
     (case ctx_config ctx of
        ConditionConfig predicateRef trueBranchKey falseBranchKey \<Rightarrow>
          (let passes = getOr (payload_field pl_conditionResult (xc_payload ctx))
                 (if truthy (payload_field pl_selectedBranchKey (xc_payload ctx))
                  then payload_field pl_selectedBranchKey (xc_payload ctx) = Some trueBranchKey else True);
               selectedBranchKey = (if passes then trueBranchKey else falseBranchKey)
           in Inr ((mk_result ctx OcCompleted (side_effect ctx EfNone) ''workflow_condition_evaluated''
                     (lineage_evidence (xc_dispatchLineage ctx) @ [''selected_branch_key='' @ selectedBranchKey]))
                   \<lparr>er_selectedBranchKey := Some selectedBranchKey\<rparr>))
      | _ \<Rightarrow> Inl (bad_config ''Condition'' ''condition''))"

definition transform_execute :: "execution_context \<Rightarrow> execution_result result" where
  "transform_execute ctx =
     (case ctx_config ctx of
        TransformConfig transformRef inputMappingRef \<Rightarrow>
          Inr ((mk_result ctx OcCompleted (side_effect ctx EfNone) ''workflow_transform_completed''
                 (lineage_evidence (xc_dispatchLineage ctx)))
               \<lparr>er_outputRef := Some (getOr (payload_field pl_outputRef (xc_payload ctx))
                  (''transform:'' @ transformRef @ '':'' @ inputMappingRef))\<rparr>)
      | _ \<Rightarrow> Inl (bad_config ''Transform'' ''transform''))"

definition failed_ids :: "execution_context \<Rightarrow> string list \<Rightarrow> string list" where
  "failed_ids ctx ids = filter (\<lambda>i. status_of (xc_runState ctx) i = Some NsFailed) ids"

definition caught :: "execution_context \<Rightarrow> string list \<Rightarrow> string list \<Rightarrow> execution_result" where
  "caught ctx refs failedNodeIds =
     (mk_result ctx OcCompleted EfNone ''workflow_error_handler_caught''
        (refs @ map (\<lambda>i. ''failed_node_id='' @ i) failedNodeIds))
     \<lparr>er_selectedBranchKey := Some ''error'', er_outputRef := Some (join '','' failedNodeIds)\<rparr>"

definition error_handler_execute :: "execution_context \<Rightarrow> execution_result result" where
  "error_handler_execute ctx =
     (case ctx_config ctx of
        ErrorHandlerConfig scope targets \<Rightarrow>
          (let refs = lineage_evidence (xc_dispatchLineage ctx) @ [''catch_scope='' @ catch_scope_text scope];
               targetNodeIds = getOr targets [];
               invalid = filter (\<lambda>i. obj_get i (gr_nodes (xc_graph ctx)) = None) targetNodeIds;
               upstream = upstream_ids (xc_graph ctx) (nd_id (xc_nodeDefinition ctx));
               passthrough = mk_result ctx OcCompleted EfNone ''workflow_error_handler_passthrough'' refs
           in Inr
             (if scope = CatchSpecific then
                (if invalid \<noteq> [] then
                   mk_result ctx OcFailed EfNone ''workflow_error_handler_invalid_target''
                     (refs @ map (\<lambda>i. ''invalid_target_node_id='' @ i) invalid)
                 else if failed_ids ctx targetNodeIds \<noteq> [] then caught ctx refs (failed_ids ctx targetNodeIds)
                 else passthrough)
              else if failed_ids ctx upstream \<noteq> [] then caught ctx refs (failed_ids ctx upstream)
              else passthrough))
      | _ \<Rightarrow> Inl (bad_config ''ErrorHandler'' ''error-handler''))"

definition loop_execute :: "wf_env \<Rightarrow> execution_context \<Rightarrow> execution_result result" where
  "loop_execute env ctx =
     (case ctx_config ctx of
        LoopConfig maxIterations exitConditionRef backoffMs \<Rightarrow>
          (let iterationCount = getOr (node_attempts ctx) 0 + 1;
               refs = lineage_evidence (xc_dispatchLineage ctx)
                 @ [''iteration='' @ show_nat iterationCount, ''max_iterations='' @ show_nat maxIterations];
               branch = (\<lambda>reason key. (mk_result ctx OcCompleted EfNone reason refs)\<lparr>er_selectedBranchKey := Some key\<rparr>)
           in Inr
             (if maxIterations < iterationCount then branch ''workflow_loop_max_iterations'' ''exit''
              else if payload_field pl_conditionResult (xc_payload ctx) = Some True then
                branch ''workflow_loop_exit_condition_met'' ''exit''
              else if 0 < getOr backoffMs 0 then
                (mk_result ctx OcWaiting EfNone ''workflow_loop_backoff'' refs)
                  \<lparr>er_waitState := Some (wait_on env WkLoopBackoff ''workflow_loop_backoff'' refs None
                     (Some (''backoff_ms='' @ show_nat (getOr backoffMs 0)))),
                   er_selectedBranchKey := Some ''loop''\<rparr>
              else branch ''workflow_loop_continue'' ''loop''))
      | _ \<Rightarrow> Inl (bad_config ''Loop'' ''loop''))"

definition parallel_split_execute :: "execution_context \<Rightarrow> execution_result result" where
  "parallel_split_execute ctx =
     (case ctx_config ctx of
        ParallelSplitConfig mode branches \<Rightarrow>
          (let refs = lineage_evidence (xc_dispatchLineage ctx) @ [''split_mode='' @ split_mode_text mode]
           in Inr
             (if outbound_in (xc_graph ctx) (nd_id (xc_nodeDefinition ctx)) = [] then
                mk_result ctx OcFailed EfNone ''workflow_parallel_split_no_branches'' (refs @ [''error=no_outbound_edges''])
              else mk_result ctx OcCompleted EfNone ''workflow_parallel_split_activated'' refs))
      | _ \<Rightarrow> Inl (bad_config ''ParallelSplit'' ''parallel-split''))"

definition required_upstream :: "join_mode \<Rightarrow> nat option \<Rightarrow> nat \<Rightarrow> nat option" where
  \<comment> \<open>\<open>None\<close>: more upstream nodes are required than there are\<close>
  "required_upstream mode requiredCount totalUpstream =
     (case mode of
        JoinAll \<Rightarrow> Some totalUpstream
      | JoinAny \<Rightarrow> Some 1
      | JoinNofM \<Rightarrow>
          (case requiredCount of
             None \<Rightarrow> Some totalUpstream
           | Some k \<Rightarrow> if totalUpstream < k then None else Some k))"

definition join_condition :: "join_mode \<Rightarrow> nat \<Rightarrow> node_status option list \<Rightarrow> bool" where
  "join_condition mode required statuses =
     (let completed = filter (\<lambda>s. s = Some NsCompleted) statuses;
          resolved = filter (\<lambda>s. s = Some NsCompleted \<or> s = Some NsSkipped) statuses
      in required \<le> length completed \<or> (mode = JoinAll \<and> length resolved = length statuses))"

definition parallel_join_execute :: "wf_env \<Rightarrow> execution_context \<Rightarrow> execution_result result" where
  "parallel_join_execute env ctx =
     (case ctx_config ctx of
        ParallelJoinConfig mode requiredCount timeoutMs \<Rightarrow>
          (let nodeId = nd_id (xc_nodeDefinition ctx);
               refs = lineage_evidence (xc_dispatchLineage ctx) @ [''join_mode='' @ join_mode_text mode];
               upstream = upstream_ids (xc_graph ctx) nodeId;
               totalUpstream = length upstream;
               completed = filter (\<lambda>i. status_of (xc_runState ctx) i = Some NsCompleted) upstream
           in if inbound_in (xc_graph ctx) nodeId = [] then
                Inr (mk_result ctx OcFailed EfNone ''workflow_parallel_join_no_upstream'' (refs @ [''error=no_inbound_edges'']))
              else case required_upstream mode requiredCount totalUpstream of
                None \<Rightarrow> Inr (mk_result ctx OcFailed EfNone ''workflow_parallel_join_invalid_required_count''
                  (refs @ [''error=required_count_'' @ show_nat (getOr requiredCount 0)
                     @ ''_exceeds_upstream_count_'' @ show_nat totalUpstream]))
              | Some required \<Rightarrow>
                  (let counted = refs @ [''completed_count='' @ show_nat (length completed),
                         ''required_count='' @ show_nat required, ''total_upstream='' @ show_nat totalUpstream]
                   in Inr
                     (if join_condition mode required (map (status_of (xc_runState ctx)) upstream) then
                        (mk_result ctx OcCompleted EfNone ''workflow_parallel_join_completed'' counted)
                          \<lparr>er_outputRef := Some (join '','' completed)\<rparr>
                      else
                        (mk_result ctx OcWaiting EfNone ''workflow_parallel_join_waiting'' counted)
                          \<lparr>er_waitState := Some (wait_on env WkParallelJoin ''workflow_parallel_join_waiting'' counted None
                             (map_option (\<lambda>t. ''timeout_ms='' @ show_nat t) timeoutMs))\<rparr>)))
      | _ \<Rightarrow> Inl (bad_config ''ParallelJoin'' ''parallel-join''))"

section \<open>Handlers with services\<close>

definition human_decision_execute :: "wf_env \<Rightarrow> node_handler" where
  "human_decision_execute env ctx =
     (case ctx_config ctx of
        HumanDecisionConfig decisionRef timeoutMs defaultOnTimeout \<Rightarrow>
          (let refs = lineage_evidence (xc_dispatchLineage ctx) in
           bindIO (fresh env) (\<lambda>token. returnIO
             ((mk_result ctx OcWaiting (side_effect ctx EfNone) ''workflow_human_decision_required'' refs)
               \<lparr>er_waitState := Some (wait_on env WkHumanDecision ''workflow_human_decision_required'' refs
                  (Some token) (Some decisionRef))\<rparr>)))
      | _ \<Rightarrow> throwIO (bad_config ''HumanDecision'' ''human-decision''))"

definition correction_of :: "failure_action \<Rightarrow> correction_arc_type option" where
  "correction_of action =
     (case action of FailBlock \<Rightarrow> None | FailReprompt \<Rightarrow> Some ArcReprompt | FailRollback \<Rightarrow> Some ArcRollback)"

definition quality_gate_execute :: "wf_env \<Rightarrow> node_handler" where
  \<comment> \<open>the number of a missing node state's next attempt is NaN, which the run-state schema
      refuses; here it is 0, which the schema refuses too\<close>
  "quality_gate_execute env ctx =
     (case ctx_config ctx of
        QualityGateConfig evaluatorRef passThresholdRef failureAction \<Rightarrow>
          (let refs = lineage_evidence (xc_dispatchLineage ctx);
               reason = ''workflow_quality_gate_'' @ failure_action_text failureAction @ ''_required''
           in if getOr (payload_field pl_qualityGatePassed (xc_payload ctx)) True then
                returnIO ((mk_result ctx OcCompleted (side_effect ctx EfNone) ''workflow_quality_gate_passed'' refs)
                  \<lparr>er_outputRef := Some (getOr (payload_field pl_outputRef (xc_payload ctx))
                     (''quality-gate:'' @ evaluatorRef @ '':pass''))\<rparr>)
              else case correction_of failureAction of
                None \<Rightarrow> returnIO (mk_result ctx OcBlocked (side_effect ctx EfNone) ''workflow_quality_gate_blocked'' refs)
              | Some arcType \<Rightarrow>
                  bindIO (fresh env) (\<lambda>arcId. returnIO
                    ((mk_result ctx OcBlocked (side_effect ctx EfNone) reason refs)
                      \<lparr>er_correctionArc := Some
                        \<lparr>ca_id = arcId, ca_runId = rs_runId (xc_runState ctx),
                         ca_nodeDefinitionId = nd_id (xc_nodeDefinition ctx), ca_type = arcType,
                         ca_sourceAttempt = (case node_attempts ctx of None \<Rightarrow> 0 | Some n \<Rightarrow> n + 1),
                         ca_targetAttempt = None, ca_checkpointId = None, ca_reasonCode = reason,
                         ca_evidenceRefs = refs, ca_occurredAt = env_now env\<rparr>\<rparr>)))
      | _ \<Rightarrow> throwIO (bad_config ''QualityGate'' ''quality-gate''))"

definition await_batch :: "wf_env \<Rightarrow> execution_context \<Rightarrow> effect_status \<Rightarrow> string \<Rightarrow> execution_result io" where
  "await_batch env ctx effect externalRef =
     (let refs = lineage_evidence (xc_dispatchLineage ctx) in
      bindIO (fresh env) (\<lambda>token. returnIO
        ((mk_result ctx OcWaiting (side_effect ctx effect) ''workflow_node_waiting_async_batch'' refs)
          \<lparr>er_waitState := Some (wait_on env WkAsyncBatch ''workflow_node_waiting_async_batch'' refs (Some token)
             (Some (getOr (payload_field pl_externalRef (xc_payload ctx)) externalRef))),
           er_outputRef := payload_field pl_outputRef (xc_payload ctx)\<rparr>)))"

definition model_call_execute :: "services \<Rightarrow> wf_env \<Rightarrow> node_handler" where
  "model_call_execute sv env ctx =
     (case ctx_config ctx of
        ModelCallConfig modelRole promptRef outputSchemaRef \<Rightarrow>
          if nd_executionModel (xc_nodeDefinition ctx) = AsyncBatch then
            await_batch env ctx EfNone (''model:'' @ model_role_text modelRole @ '':'' @ promptRef)
          else
            bindIO (case sv_route sv of
                None \<Rightarrow> returnIO ''unrouted''
              | Some route \<Rightarrow> invoke (CallRoute modelRole (xc_projectId ctx)) (\<lambda>calls. route calls modelRole (xc_projectId ctx)))
              (\<lambda>providerId. returnIO
                ((mk_result ctx OcCompleted (side_effect ctx EfNone) ''workflow_model_call_completed''
                   (lineage_evidence (xc_dispatchLineage ctx)))
                 \<lparr>er_outputRef := Some (getOr (payload_field pl_outputRef (xc_payload ctx))
                    (''model:'' @ providerId @ '':'' @ promptRef))\<rparr>))
      | _ \<Rightarrow> throwIO (bad_config ''ModelCall'' ''model-call''))"

definition param_or :: "string \<Rightarrow> json option \<Rightarrow> (string \<times> json) list \<Rightarrow> (string \<times> json) list" where
  \<comment> \<open>\<open>key: key in params ? params[key] : default\<close>; an undefined property is absent\<close>
  "param_or key d params =
     (case obj_get key params of
        Some v \<Rightarrow> params
      | None \<Rightarrow> (case d of None \<Rightarrow> params | Some v \<Rightarrow> obj_set key v params))"

definition buildToolParams :: "wf_env \<Rightarrow> execution_context \<Rightarrow> string \<Rightarrow> string \<Rightarrow> json" where
  "buildToolParams env ctx toolName inputMappingRef =
     (let given = payload_field pl_toolParams (xc_payload ctx);
          params = (if given \<noteq> None \<and> given \<noteq> Some JNull then the given
                    else JObj [(''inputMappingRef'', JStr inputMappingRef)]);
          refresh = (\<lambda>v. if toolName = ''refresh_project_knowledge'' then Some v else None)
      in case params of
           JObj kvs \<Rightarrow> JObj
             (param_or ''reasonCode'' (refresh (JStr ''workflow_tool_refresh''))
               (param_or ''requestedAt'' (refresh (JStr (env_now env)))
                 (param_or ''trigger'' (refresh (JStr ''workflow''))
                   (param_or ''projectId'' (refresh (JStr (xc_projectId ctx)))
                     (param_or ''dispatchLineageId'' (Some (JStr (dl_id (xc_dispatchLineage ctx))))
                       (param_or ''workflowRunId'' (Some (JStr (rs_runId (xc_runState ctx)))) kvs))))))
         | _ \<Rightarrow> params)"

definition tool_execution_execute :: "services \<Rightarrow> wf_env \<Rightarrow> node_handler" where
  "tool_execution_execute sv env ctx =
     (case ctx_config ctx of
        ToolExecutionConfig toolName inputMappingRef resultSchemaRef \<Rightarrow>
          (let refs = lineage_evidence (xc_dispatchLineage ctx) in
           if nd_executionModel (xc_nodeDefinition ctx) = AsyncBatch then
             await_batch env ctx EfIdempotent (''tool:'' @ toolName @ '':batch'')
           else case sv_tool sv of
             None \<Rightarrow> returnIO (mk_result ctx OcBlocked (side_effect ctx EfIdempotent) ''workflow_tool_executor_unavailable'' refs)
           | Some execute \<Rightarrow>
               (let params = buildToolParams env ctx toolName inputMappingRef in
                bindIO (invoke (CallTool toolName params (xc_projectId ctx)) (\<lambda>calls. execute calls toolName params (xc_projectId ctx)))
                  (\<lambda>toolResult. returnIO
                    (if \<not> to_success toolResult then
                       mk_result ctx OcFailed (side_effect ctx EfUnknownExternalEffect) ''workflow_tool_execution_failed''
                         (refs @ [getOr (to_error toolResult) ''tool_error=unknown''])
                     else
                       (mk_result ctx OcCompleted (side_effect ctx EfIdempotent) ''workflow_tool_execution_completed'' refs)
                         \<lparr>er_outputRef := Some (getOr (payload_field pl_outputRef (xc_payload ctx))
                            (''tool:'' @ toolName @ '':completed''))\<rparr>))))
      | _ \<Rightarrow> throwIO (bad_config ''ToolExecution'' ''tool-execution''))"

section \<open>The registry\<close>

definition createWorkflowNodeHandlerRegistry :: "services \<Rightarrow> wf_env \<Rightarrow> (node_kind \<times> node_handler) list" where
  "createWorkflowNodeHandlerRegistry sv env =
     [(KModelCall, model_call_execute sv env), (KToolExecution, tool_execution_execute sv env),
      (KCondition, \<lambda>ctx. liftIO (condition_execute ctx)), (KTransform, \<lambda>ctx. liftIO (transform_execute ctx)),
      (KQualityGate, quality_gate_execute env), (KHumanDecision, human_decision_execute env),
      (KParallelSplit, \<lambda>ctx. liftIO (parallel_split_execute ctx)),
      (KParallelJoin, \<lambda>ctx. liftIO (parallel_join_execute env ctx)),
      (KLoop, \<lambda>ctx. liftIO (loop_execute env ctx)), (KErrorHandler, \<lambda>ctx. liftIO (error_handler_execute ctx))]"

section \<open>The contract of a handler\<close>

definition result_contract :: "governance_decision \<Rightarrow> execution_result \<Rightarrow> bool" where
  "result_contract d r \<longleftrightarrow>
     er_governanceDecision r = d \<and> (er_waitState r \<noteq> None \<longleftrightarrow> er_outcome r = OcWaiting) \<and>
     er_reasonCode r \<noteq> [] \<and> er_evidenceRefs r \<noteq> [] \<and> er_checkpointId r = None"

fun work_call :: "call \<Rightarrow> bool" where
  \<comment> \<open>the calls a handler may make: it routes a model or runs a tool, nothing else\<close>
  "work_call (CallRoute _ _) = True"
| "work_call (CallTool _ _ _) = True"
| "work_call _ = False"

locale node_handler =
  fixes handle :: node_handler
  assumes contract: "gives (handle ctx) (result_contract (xc_governanceDecision ctx))"
    and work_only: "makes (handle ctx) work_call"
begin

lemma result:
  assumes "handle ctx calls = (Inr r, calls')"
  shows "result_contract (xc_governanceDecision ctx) r"
    and "\<exists>new. calls' = calls @ new \<and> list_all work_call new"
  using givesD [OF contract assms] makesD [OF work_only assms] by simp_all

end

lemma lineage_evidence_nonempty [simp]: "lineage_evidence l \<noteq> []"
  by (simp add: lineage_evidence_def)

lemma mk_result_contract [simp]:
  "result_contract (xc_governanceDecision ctx) (mk_result ctx out effect reason refs) \<longleftrightarrow>
     out \<noteq> OcWaiting \<and> reason \<noteq> [] \<and> refs \<noteq> []"
  by (auto simp: result_contract_def mk_result_def)

lemma result_contract_update [simp]:
  "result_contract d (r\<lparr>er_outputRef := x\<rparr>) = result_contract d r"
  "result_contract d (r\<lparr>er_selectedBranchKey := k\<rparr>) = result_contract d r"
  "result_contract d (r\<lparr>er_correctionArc := c\<rparr>) = result_contract d r"
  by (simp_all add: result_contract_def)

lemma waiting_contract [simp]:
  "result_contract (xc_governanceDecision ctx) ((mk_result ctx OcWaiting effect reason refs)\<lparr>er_waitState := Some w\<rparr>) \<longleftrightarrow>
     reason \<noteq> [] \<and> refs \<noteq> []"
  by (auto simp: result_contract_def mk_result_def)

lemma caught_contract [simp]: "refs \<noteq> [] \<Longrightarrow> result_contract (xc_governanceDecision ctx) (caught ctx refs ids)"
  by (simp add: caught_def)

lemma pure_handler:
  assumes "\<And>ctx r. f ctx = Inr r \<Longrightarrow> result_contract (xc_governanceDecision ctx) r"
  shows "node_handler (\<lambda>ctx. liftIO (f ctx))"
  by unfold_locales (auto intro: gives_intros makes_pure assms)

interpretation condition_handler: node_handler "\<lambda>ctx. liftIO (condition_execute ctx)"
  by (rule pure_handler) (auto simp: condition_execute_def Let_def split: node_config.splits)

interpretation transform_handler: node_handler "\<lambda>ctx. liftIO (transform_execute ctx)"
  by (rule pure_handler) (auto simp: transform_execute_def split: node_config.splits)

interpretation error_handler: node_handler "\<lambda>ctx. liftIO (error_handler_execute ctx)"
  by (rule pure_handler) (auto simp: error_handler_execute_def Let_def split: node_config.splits if_splits)

interpretation loop_handler: node_handler "\<lambda>ctx. liftIO (loop_execute env ctx)"
  by (rule pure_handler) (auto simp: loop_execute_def Let_def split: node_config.splits if_splits)

interpretation parallel_split_handler: node_handler "\<lambda>ctx. liftIO (parallel_split_execute ctx)"
  by (rule pure_handler) (auto simp: parallel_split_execute_def Let_def split: node_config.splits if_splits)

interpretation parallel_join_handler: node_handler "\<lambda>ctx. liftIO (parallel_join_execute env ctx)"
  by (rule pure_handler)
    (auto simp: parallel_join_execute_def Let_def split: node_config.splits if_splits option.splits)

interpretation human_decision_handler: node_handler "human_decision_execute env"
  by unfold_locales
    (auto simp: human_decision_execute_def Let_def intro!: gives_bind gives_intros makes_intros split: node_config.split)

interpretation quality_gate_handler: node_handler "quality_gate_execute env"
  by unfold_locales
    (auto simp: quality_gate_execute_def Let_def intro!: gives_bind gives_intros makes_intros
      split: node_config.split option.split)

lemma await_batch_gives: "gives (await_batch env ctx effect ref) (result_contract (xc_governanceDecision ctx))"
  by (auto simp: await_batch_def Let_def intro!: gives_bind gives_intros)

lemma await_batch_makes: "makes (await_batch env ctx effect ref) Q"
  by (auto simp: await_batch_def Let_def intro!: makes_intros)

interpretation model_call_handler: node_handler "model_call_execute sv env"
  by unfold_locales
    (auto simp: model_call_execute_def intro!: await_batch_gives await_batch_makes gives_bind gives_intros makes_intros
      split: node_config.split option.split)

interpretation tool_execution_handler: node_handler "tool_execution_execute sv env"
  by unfold_locales
    (auto simp: tool_execution_execute_def Let_def intro!: await_batch_gives await_batch_makes gives_bind gives_intros makes_intros
      split: node_config.split option.split)

lemma registry_handlers:
  assumes "(kind, handler) \<in> set (createWorkflowNodeHandlerRegistry sv env)"
  shows "node_handler handler"
proof -
  have "handler \<in> snd ` set (createWorkflowNodeHandlerRegistry sv env)"
    using assms by force
  then show ?thesis
    unfolding createWorkflowNodeHandlerRegistry_def
    by (auto intro: model_call_handler.node_handler_axioms tool_execution_handler.node_handler_axioms
        condition_handler.node_handler_axioms transform_handler.node_handler_axioms
        quality_gate_handler.node_handler_axioms human_decision_handler.node_handler_axioms
        parallel_split_handler.node_handler_axioms parallel_join_handler.node_handler_axioms
        loop_handler.node_handler_axioms error_handler.node_handler_axioms)
qed

end
