(* ===== verification/Coordinator.thy ===== *)
theory Coordinator
  imports Handlers Run_Theorems
begin

text \<open>
  \<open>self/subcortex/workflows/src/execution-coordinator.ts\<close>: a node runs only after the PFC
  engine has decided on its governance input; a decision that denies, defers or escalates
  becomes the result of the node without its handler being called. The locale
  \<open>governance_engine\<close> states what the coordinator's guarantees need from the PFC engine;
  the evaluator of theory \<open>Governance\<close> interprets it.
\<close>

section \<open>The default governance input\<close>

definition DEFAULT_PATTERN_ID :: string where
  "DEFAULT_PATTERN_ID = ''550e8400-e29b-41d4-a716-446655440801''"

definition DEFAULT_EVENT_ID :: string where
  "DEFAULT_EVENT_ID = ''550e8400-e29b-41d4-a716-446655440802''"

fun actionCategoryByNodeType :: "node_kind \<Rightarrow> action_category" where
  "actionCategoryByNodeType KModelCall = ActModelInvoke"
| "actionCategoryByNodeType KToolExecution = ActToolExecute"
| "actionCategoryByNodeType KHumanDecision = ActOpctlCommand"
| "actionCategoryByNodeType KCondition = ActTracePersist"
| "actionCategoryByNodeType KTransform = ActTracePersist"
| "actionCategoryByNodeType KQualityGate = ActTracePersist"
| "actionCategoryByNodeType KSubworkflow = ActTracePersist"
| "actionCategoryByNodeType KParallelSplit = ActTracePersist"
| "actionCategoryByNodeType KParallelJoin = ActTracePersist"
| "actionCategoryByNodeType KLoop = ActTracePersist"
| "actionCategoryByNodeType KErrorHandler = ActTracePersist"

definition default_evidence :: "action_category \<Rightarrow> trace_evidence" where
  "default_evidence category =
     \<lparr>ev_actionCategory = category, ev_authorizationEventId = Some DEFAULT_EVENT_ID, ev_completionEventId = None,
      ev_invariantEventId = None, ev_verificationReportId = None\<rparr>"

definition buildDefaultGovernanceInput :: "node_definition \<Rightarrow> control_state \<Rightarrow> governance_input" where
  "buildDefaultGovernanceInput nodeDefinition controlState =
     (let actionCategory = actionCategoryByNodeType (nd_type nodeDefinition) in
      \<lparr>gi_governance = nd_governance nodeDefinition, gi_actionCategory = actionCategory,
       gi_projectControlState = Some controlState,
       gi_pattern =
         \<lparr>dp_id = DEFAULT_PATTERN_ID, dp_content = ''workflow node '' @ nd_id nodeDefinition,
          dp_confidence = 95 / 100, dp_basedOn = [], dp_supersedes = [],
          dp_evidenceRefs = [default_evidence actionCategory], dp_projectId = None, dp_scope = ScopeProject,
          dp_tags = [''workflow-runtime''], dp_createdAt = ''2026-03-09T00:00:00.000Z'',
          dp_updatedAt = ''2026-03-09T00:00:00.000Z''\<rparr>,
       gi_confidenceSignal =
         \<lparr>cs_tier = TierHigh, cs_confidence = 95 / 100, cs_supportingSignals = 16,
          cs_patternId = Some DEFAULT_PATTERN_ID, cs_entryId = Some DEFAULT_PATTERN_ID,
          cs_decayState = Some DecayStable\<rparr>,
       gi_explanation =
         \<lparr>ex_patternId = DEFAULT_PATTERN_ID, ex_outcomeRef = ''workflow:'' @ nd_id nodeDefinition,
          ex_evidenceRefs = [default_evidence actionCategory], ex_distillationRef = None,
          ex_policyRef = None, ex_controlStateRef = None\<rparr>,
       gi_escalationSignal = None\<rparr>)"

section \<open>Execution\<close>

definition stringifiedEvidenceRefs :: "governance_decision \<Rightarrow> string list \<Rightarrow> string list" where
  "stringifiedEvidenceRefs decision fallback =
     (if gd_evidenceRefs decision \<noteq> [] then map (\<lambda>ref. stringify (trace_evidence_json ref)) (gd_evidenceRefs decision)
      else fallback)"

definition governed_result :: "governance_decision \<Rightarrow> outcome \<Rightarrow> wait_state option \<Rightarrow> string list \<Rightarrow> execution_result" where
  "governed_result decision out wait refs =
     \<lparr>er_outcome = out, er_governanceDecision = decision, er_waitState = wait, er_correctionArc = None,
      er_sideEffectStatus = EfNone, er_outputRef = None, er_checkpointId = None, er_selectedBranchKey = None,
      er_reasonCode = governance_reason_text (gd_reasonCode decision), er_evidenceRefs = refs\<rparr>"

definition buildGovernanceOnlyResult ::
  "wf_env \<Rightarrow> governance_decision \<Rightarrow> node_definition \<Rightarrow> dispatch_lineage \<Rightarrow> execution_result" where
  "buildGovernanceOnlyResult env decision nodeDefinition dispatchLineage =
     (let evidenceRefs = stringifiedEvidenceRefs decision (lineage_evidence dispatchLineage) in
      if gd_outcome decision = Deny then governed_result decision OcBlocked None evidenceRefs
      else if gd_outcome decision = Defer \<or> gd_outcome decision = Escalate then
        governed_result decision OcWaiting
          (Some (wait_on env
            (if nd_type nodeDefinition = KHumanDecision \<or> gd_requiresConfirmation decision then WkHumanDecision
             else WkRetryBackoff)
            (governance_reason_text (gd_reasonCode decision)) evidenceRefs None None)) evidenceRefs
      else governed_result decision OcCompleted None evidenceRefs)"

record execute_input =
  xi_projectId :: string
  xi_graph :: workflow_graph
  xi_runState :: run_state
  xi_nodeDefinition :: node_definition
  xi_dispatchLineage :: dispatch_lineage
  xi_controlState :: control_state
  xi_governanceInput :: "governance_input option"
  xi_payload :: "execution_payload option"

definition observe :: "services \<Rightarrow> string \<Rightarrow> (string \<times> json) list \<Rightarrow> unit io" where
  \<comment> \<open>\<open>await observer?.event(name, fields)\<close>\<close>
  "observe sv name info =
     (case sv_observer sv of
        None \<Rightarrow> returnIO ()
      | Some notify \<Rightarrow> invoke (CallObserve name info) (\<lambda>calls. notify calls name info))"

definition handler_registry :: "services \<Rightarrow> wf_env \<Rightarrow> (node_kind \<times> node_handler) list" where
  "handler_registry sv env =
     fold (\<lambda>(kind, override). obj_set kind override) (sv_overrides sv) (createWorkflowNodeHandlerRegistry sv env)"

definition held :: "governance_decision \<Rightarrow> bool" where
  "held d \<longleftrightarrow> gd_outcome d \<in> {Deny, Defer, Escalate}"

definition node_context :: "execute_input \<Rightarrow> governance_input \<Rightarrow> governance_decision \<Rightarrow> execution_context" where
  "node_context input governanceInput decision =
     \<lparr>xc_projectId = xi_projectId input, xc_graph = xi_graph input, xc_runState = xi_runState input,
      xc_nodeDefinition = xi_nodeDefinition input, xc_dispatchLineage = xi_dispatchLineage input,
      xc_controlState = xi_controlState input, xc_governanceInput = governanceInput,
      xc_governanceDecision = decision, xc_payload = xi_payload input\<rparr>"

lemma node_context_fields [simp]:
  "xc_governanceDecision (node_context i gi d) = d"
  "xc_nodeDefinition (node_context i gi d) = xi_nodeDefinition i"
  "xc_runState (node_context i gi d) = xi_runState i"
  "xc_graph (node_context i gi d) = xi_graph i"
  "xc_dispatchLineage (node_context i gi d) = xi_dispatchLineage i"
  "xc_projectId (node_context i gi d) = xi_projectId i"
  "xc_payload (node_context i gi d) = xi_payload i"
  by (simp_all add: node_context_def)

definition unavailable_result :: "governance_decision \<Rightarrow> dispatch_lineage \<Rightarrow> execution_result" where
  "unavailable_result decision dispatchLineage =
     \<lparr>er_outcome = OcBlocked, er_governanceDecision = decision, er_waitState = None, er_correctionArc = None,
      er_sideEffectStatus = EfNone, er_outputRef = None, er_checkpointId = None, er_selectedBranchKey = None,
      er_reasonCode = ''workflow_handler_unavailable'',
      er_evidenceRefs = lineage_evidence dispatchLineage\<rparr>"

definition dispatch_node :: "services \<Rightarrow> wf_env \<Rightarrow> execute_input \<Rightarrow> governance_input \<Rightarrow> governance_decision \<Rightarrow> execution_result io" where
  \<comment> \<open>the part after the governance decision has been observed\<close>
  "dispatch_node sv env input governanceInput decision =
     (if held decision then
        returnIO (buildGovernanceOnlyResult env decision (xi_nodeDefinition input) (xi_dispatchLineage input))
      else case obj_get (nd_type (xi_nodeDefinition input)) (handler_registry sv env) of
        None \<Rightarrow> returnIO
          (unavailable_result decision (xi_dispatchLineage input))
      | Some handler \<Rightarrow> handler (node_context input governanceInput decision))"

definition executeWorkflowNode ::
  "services \<Rightarrow> (call list \<Rightarrow> governance_input \<Rightarrow> governance_decision result) \<Rightarrow> wf_env \<Rightarrow> execute_input \<Rightarrow> execution_result io" where
  "executeWorkflowNode sv pfc env input =
     (let governanceInput = getOr (xi_governanceInput input)
            (buildDefaultGovernanceInput (xi_nodeDefinition input) (xi_controlState input)) in
      bindIO (invoke (CallGovernance governanceInput) (\<lambda>calls. pfc calls governanceInput)) (\<lambda>answer.
      bindIO (liftIO (parse_governance_decision answer)) (\<lambda>decision.
      bindIO (observe sv ''workflow_node_governance_evaluated''
        [(''runId'', JStr (rs_runId (xi_runState input))),
         (''nodeDefinitionId'', JStr (nd_id (xi_nodeDefinition input))),
         (''outcome'', JStr (decision_outcome_text (gd_outcome decision))),
         (''reasonCode'', JStr (governance_reason_text (gd_reasonCode decision))),
         (''controlState'', JStr (control_state_text (xi_controlState input)))]) (\<lambda>_.
      dispatch_node sv env input governanceInput decision))))"

section \<open>The contract of a result\<close>

lemma governance_reason_text_nonempty [simp]: "governance_reason_text r \<noteq> []"
  by (cases r) simp_all

lemma stringified_nonempty [simp]: "fallback \<noteq> [] \<Longrightarrow> stringifiedEvidenceRefs d fallback \<noteq> []"
  by (simp add: stringifiedEvidenceRefs_def)

lemma governance_only_contract:
  "result_contract d (buildGovernanceOnlyResult env d node lineage)"
  by (simp add: buildGovernanceOnlyResult_def Let_def governed_result_def result_contract_def)

lemma unavailable_contract: "result_contract d (unavailable_result d lineage)"
  by (simp add: unavailable_result_def result_contract_def)

text \<open>
  What an overriding handler must keep: the contract, and to call no service but the model
  router and the tool executor.
\<close>

definition overrides_ok :: "services \<Rightarrow> bool" where
  "overrides_ok sv \<longleftrightarrow> (\<forall>(kind, handler)\<in>set (sv_overrides sv). node_handler handler)"

lemma obj_set_subset: "set (obj_set k v ob) \<subseteq> insert (k, v) (set ob)"
proof (induction ob)
  case (Cons kv ob)
  then show ?case by (cases kv) (auto simp: obj_set_def)
qed (simp add: obj_set_def)

lemma handler_registry_ok:
  assumes "overrides_ok sv" and "(kind, handler) \<in> set (handler_registry sv env)"
  shows "node_handler handler"
proof -
  have "\<forall>(k, h)\<in>set (fold (\<lambda>(kind, override). obj_set kind override) os reg). node_handler h"
    if "\<forall>(k, h)\<in>set os. node_handler h" and "\<forall>(k, h)\<in>set reg. node_handler h" for os reg
    using that
  proof (induction os arbitrary: reg)
    case Nil
    then show ?case by simp
  next
    case (Cons kh os)
    have "\<forall>(k, h)\<in>set (obj_set (fst kh) (snd kh) reg). node_handler h"
      using Cons.prems obj_set_subset [of "fst kh" "snd kh" reg] by fastforce
    with Cons.IH Cons.prems show ?case by (simp add: split_beta)
  qed
  from this [of "sv_overrides sv" "createWorkflowNodeHandlerRegistry sv env"] show ?thesis
    using assms registry_handlers unfolding overrides_ok_def handler_registry_def by fast
qed

lemma dispatch_node_run:
  assumes "\<not> held d" and "obj_get (nd_type (xi_nodeDefinition input)) (handler_registry sv env) = Some handler"
  shows "dispatch_node sv env input gi d = handler (node_context input gi d)"
  using assms by (simp add: dispatch_node_def)

lemma registered_handler:
  assumes "overrides_ok sv" and "obj_get kind (handler_registry sv env) = Some handler"
  shows "node_handler handler"
  using assms(2) by (intro handler_registry_ok [OF assms(1), of kind _ env]) (simp add: obj_get_def map_of_SomeD)

lemma dispatch_node_ok:
  assumes "overrides_ok sv"
  shows "gives (dispatch_node sv env input gi d) (result_contract d)"
    and "makes (dispatch_node sv env input gi d) work_call"
proof -
  have "gives (dispatch_node sv env input gi d) (result_contract d) \<and> makes (dispatch_node sv env input gi d) work_call"
  proof (cases "held d \<or> obj_get (nd_type (xi_nodeDefinition input)) (handler_registry sv env) = None")
    case True
    then show ?thesis
      by (auto simp: dispatch_node_def governance_only_contract unavailable_contract
          intro!: gives_intros makes_intros)
  next
    case False
    then obtain handler where h: "\<not> held d"
      "obj_get (nd_type (xi_nodeDefinition input)) (handler_registry sv env) = Some handler" by auto
    note ok = registered_handler [OF assms h(2)]
    show ?thesis
      using node_handler.contract [OF ok, of "node_context input gi d"]
        node_handler.work_only [OF ok, of "node_context input gi d"]
      by (simp add: dispatch_node_run [OF h])
  qed
  then show "gives (dispatch_node sv env input gi d) (result_contract d)"
    and "makes (dispatch_node sv env input gi d) work_call" by simp_all
qed

fun held_call :: "call \<Rightarrow> bool" where
  \<comment> \<open>the calls made while no node work is done\<close>
  "held_call (CallGovernance _) = True"
| "held_call (CallObserve _ _) = True"
| "held_call _ = False"

lemma observe_makes: "makes (observe sv name info) held_call"
  by (auto simp: observe_def intro!: makes_intros split: option.split)

section \<open>What the coordinator needs of the PFC engine\<close>

locale governance_engine =
  fixes decide :: "call list \<Rightarrow> governance_input \<Rightarrow> governance_decision result"
  assumes decides_ok: "decide calls i = Inr d \<Longrightarrow> governance_decision_ok d"
    and holds_high_risk:
      "decide calls i = Inr d \<Longrightarrow> gi_actionCategory i \<in> set HIGH_RISK_ACTION_CATEGORIES \<Longrightarrow> held d"
    and holds_stopped:
      "decide calls i = Inr d \<Longrightarrow> gi_projectControlState i \<notin> {None, Some CtlRunning} \<Longrightarrow> held d"

text \<open>One execution, step by step.\<close>

definition input_governance :: "execute_input \<Rightarrow> governance_input" where
  "input_governance input =
     getOr (xi_governanceInput input) (buildDefaultGovernanceInput (xi_nodeDefinition input) (xi_controlState input))"

lemma executeWorkflowNode_InrE:
  assumes "executeWorkflowNode sv pfc env input calls = (Inr r, calls')"
  obtains d seen where "pfc calls (input_governance input) = Inr d" and "governance_decision_ok d"
    and "list_all held_call seen" "seen \<noteq> []" "hd seen = CallGovernance (input_governance input)"
    and "dispatch_node sv env input (input_governance input) d (calls @ seen) = (Inr r, calls')"
proof -
  from assms obtain d calls1 calls2 where pfc: "pfc calls (input_governance input) = Inr d"
    and parse: "parse_governance_decision d = Inr d"
    and obs: "\<exists>name info. observe sv name info (calls @ [CallGovernance (input_governance input)]) = (Inr calls1, calls2)"
    and run: "dispatch_node sv env input (input_governance input) d calls2 = (Inr r, calls')"
    unfolding executeWorkflowNode_def input_governance_def [symmetric] Let_def
    by (elim bindIO_InrE) (auto simp: io_simps dest: governance_decision_schema.parse_id)
  obtain new where "calls2 = (calls @ [CallGovernance (input_governance input)]) @ new" "list_all held_call new"
    using obs makesD [OF observe_makes] by blast
  moreover have "governance_decision_ok d"
    using parse by (simp add: parse_governance_decision_def split: if_splits)
  ultimately show ?thesis
    using pfc run by (intro that [of d "CallGovernance (input_governance input) # new"]) simp_all
qed

lemma held_result:
  assumes "held d" and "dispatch_node sv env input gi d calls = (Inr r, calls')"
  shows "calls' = calls" and "r = buildGovernanceOnlyResult env d (xi_nodeDefinition input) (xi_dispatchLineage input)"
  using assms by (auto simp: dispatch_node_def io_simps)

lemma held_outcome:
  assumes "held d"
  shows "er_outcome (buildGovernanceOnlyResult env d n l) = (if gd_outcome d = Deny then OcBlocked else OcWaiting)"
    and "er_sideEffectStatus (buildGovernanceOnlyResult env d n l) = EfNone"
  using assms by (auto simp: held_def buildGovernanceOnlyResult_def Let_def governed_result_def)

section \<open>The handler a node is given\<close>

fun builtin_handler :: "services \<Rightarrow> wf_env \<Rightarrow> node_kind \<Rightarrow> node_handler option" where
  \<comment> \<open>what runs a node of each type when the deployment overrides nothing\<close>
  "builtin_handler sv env KModelCall = Some (model_call_execute sv env)"
| "builtin_handler sv env KToolExecution = Some (tool_execution_execute sv env)"
| "builtin_handler sv env KCondition = Some (\<lambda>ctx. liftIO (condition_execute ctx))"
| "builtin_handler sv env KTransform = Some (\<lambda>ctx. liftIO (transform_execute ctx))"
| "builtin_handler sv env KQualityGate = Some (quality_gate_execute env)"
| "builtin_handler sv env KHumanDecision = Some (human_decision_execute env)"
| "builtin_handler sv env KParallelSplit = Some (\<lambda>ctx. liftIO (parallel_split_execute ctx))"
| "builtin_handler sv env KParallelJoin = Some (\<lambda>ctx. liftIO (parallel_join_execute env ctx))"
| "builtin_handler sv env KLoop = Some (\<lambda>ctx. liftIO (loop_execute env ctx))"
| "builtin_handler sv env KErrorHandler = Some (\<lambda>ctx. liftIO (error_handler_execute ctx))"
| "builtin_handler sv env KSubworkflow = None"

definition chosen_handler :: "services \<Rightarrow> wf_env \<Rightarrow> node_kind \<Rightarrow> node_handler option" where
  \<comment> \<open>the last override given for the type, else the handler the runtime brings\<close>
  "chosen_handler sv env kind =
     (case map_of (rev (sv_overrides sv)) kind of Some h \<Rightarrow> Some h | None \<Rightarrow> builtin_handler sv env kind)"

lemma get_registered: "obj_get kind (createWorkflowNodeHandlerRegistry sv env) = builtin_handler sv env kind"
  by (cases kind) (simp_all add: createWorkflowNodeHandlerRegistry_def obj_get_def)

lemma get_overridden:
  "obj_get k (fold (\<lambda>(kind, override). obj_set kind override) os reg) =
     (case map_of (rev os) k of Some h \<Rightarrow> Some h | None \<Rightarrow> obj_get k reg)"
proof (induction os arbitrary: reg)
  case (Cons kh os)
  then show ?case by (cases kh) (auto simp: map_add_def split: option.split)
qed simp

lemma handler_registry_get: "obj_get kind (handler_registry sv env) = chosen_handler sv env kind"
  by (simp add: handler_registry_def chosen_handler_def get_overridden get_registered split: option.split)

text \<open>C2: No node works before it is governed, and then the right handler does. Every execution
  rests on a well-formed decision of the PFC engine, which is asked first. If the decision denies,
  defers or escalates, no model is routed and no tool is run, the node is blocked or waits, and no
  side effect is recorded. Otherwise the node's result is what the handler of its type answers to
  the decided context (the last override of that type, else the runtime's own), called once the
  governance step is over and calling nothing but the model router and the tool executor; a type
  without a handler blocks the node. The result always keeps the decision it was made under and
  carries a wait state exactly when it waits. Overriding handlers keep the contract of a handler.\<close>

theorem governed_execution:
  assumes "overrides_ok sv" and "executeWorkflowNode sv pfc env input calls = (Inr r, calls')"
  shows "\<exists>d seen work. calls' = calls @ seen @ work \<and> list_all held_call seen \<and> list_all work_call work \<and>
    seen \<noteq> [] \<and> hd seen = CallGovernance (input_governance input) \<and>
    pfc calls (input_governance input) = Inr d \<and> governance_decision_ok d \<and> result_contract d r \<and>
    (if held d then work = [] \<and> er_outcome r = (if gd_outcome d = Deny then OcBlocked else OcWaiting)
         \<and> er_sideEffectStatus r = EfNone
     else case chosen_handler sv env (nd_type (xi_nodeDefinition input)) of
         None \<Rightarrow> work = [] \<and> r = unavailable_result d (xi_dispatchLineage input)
       | Some handler \<Rightarrow>
           handler (node_context input (input_governance input) d) (calls @ seen) = (Inr r, calls'))"
  using assms(2)
proof (rule executeWorkflowNode_InrE)
  fix d seen
  assume d: "pfc calls (input_governance input) = Inr d" "governance_decision_ok d"
    and seen: "list_all held_call seen" "seen \<noteq> []" "hd seen = CallGovernance (input_governance input)"
    and run: "dispatch_node sv env input (input_governance input) d (calls @ seen) = (Inr r, calls')"
  note ok = givesD [OF dispatch_node_ok(1) [OF assms(1)] run]
  obtain work where work: "calls' = (calls @ seen) @ work" "list_all work_call work"
    using makesD [OF dispatch_node_ok(2) [OF assms(1)] run] by blast
  have "if held d then work = [] \<and> er_outcome r = (if gd_outcome d = Deny then OcBlocked else OcWaiting)
         \<and> er_sideEffectStatus r = EfNone
     else case chosen_handler sv env (nd_type (xi_nodeDefinition input)) of
         None \<Rightarrow> work = [] \<and> r = unavailable_result d (xi_dispatchLineage input)
       | Some handler \<Rightarrow> handler (node_context input (input_governance input) d) (calls @ seen) = (Inr r, calls')"
  proof (cases "held d")
    case True
    with held_result [OF True run] held_outcome [OF True] work show ?thesis by simp
  next
    case False
    with run work show ?thesis
      by (auto simp: dispatch_node_def handler_registry_get io_simps split: option.splits)
  qed
  then show ?thesis
    using d seen ok work by (intro exI [of _ d] exI [of _ seen] exI [of _ work]) simp
qed

context governance_engine
begin

lemma held_run:
  assumes "executeWorkflowNode sv decide env input calls = (Inr r, calls')"
    and "gi_actionCategory (input_governance input) \<in> set HIGH_RISK_ACTION_CATEGORIES \<or>
      gi_projectControlState (input_governance input) \<notin> {None, Some CtlRunning}"
  shows "\<exists>d new. decide calls (input_governance input) = Inr d \<and> calls' = calls @ new \<and> list_all held_call new \<and>
    r = buildGovernanceOnlyResult env d (xi_nodeDefinition input) (xi_dispatchLineage input) \<and> held d"
  using assms(1)
proof (rule executeWorkflowNode_InrE)
  fix d seen
  assume d: "decide calls (input_governance input) = Inr d" and seen: "list_all held_call seen"
    and run: "dispatch_node sv env input (input_governance input) d (calls @ seen) = (Inr r, calls')"
  have "held d" using assms(2) holds_high_risk [OF d] holds_stopped [OF d] by blast
  from held_result [OF this run] d seen this show ?thesis by (intro exI [of _ d] exI [of _ seen]) simp
qed

end

section \<open>The evaluator as the PFC engine\<close>

definition pfc_engine :: "call list \<Rightarrow> governance_input \<Rightarrow> governance_decision result" where
  \<comment> \<open>\<open>PfcEngine.evaluateConfidenceGovernance\<close>; its log lines and thought events are left out\<close>
  "pfc_engine calls input = evaluateConfidenceGovernanceRuntime input"

lemma decision_spec_stopped:
  "gi_projectControlState i \<notin> {None, Some CtlRunning} \<Longrightarrow> fst (decision_spec i) \<in> {Deny, Defer}"
  by (cases "gi_projectControlState i"; cases "the (gi_projectControlState i)") (auto simp: decision_spec_def)

lemma evaluate_outcome: "evaluateConfidenceGovernanceRuntime i = Inr d \<Longrightarrow> gd_outcome d = fst (decision_spec i)"
  using evaluate_decision(2) by (metis fst_conv)

interpretation pfc: governance_engine pfc_engine
proof
  fix calls i d
  assume "pfc_engine calls i = Inr d"
  then have d: "evaluateConfidenceGovernanceRuntime i = Inr d" by (simp add: pfc_engine_def)
  then show "governance_decision_ok d" by (rule evaluate_decision)
  show "held d" if "gi_actionCategory i \<in> set HIGH_RISK_ACTION_CATEGORIES"
    using decision_spec_high_risk [OF that] evaluate_outcome [OF d] by (auto simp: held_def)
  show "held d" if "gi_projectControlState i \<notin> {None, Some CtlRunning}"
    using decision_spec_stopped [OF that] evaluate_outcome [OF d] by (auto simp: held_def)
qed

lemma default_input_ok: "governance_input_ok (buildDefaultGovernanceInput n c)"
  by (simp add: buildDefaultGovernanceInput_def Let_def governance_input_ok_def governance_input_refined_def
      unit_interval_def explanation_fields_ok_def signal_fields_ok_def isEvidenceSubset_def)

lemma default_input_fields [simp]:
  "gi_actionCategory (buildDefaultGovernanceInput n c) = actionCategoryByNodeType (nd_type n)"
  "gi_projectControlState (buildDefaultGovernanceInput n c) = Some c"
  "gi_governance (buildDefaultGovernanceInput n c) = nd_governance n"
  "gi_escalationSignal (buildDefaultGovernanceInput n c) = None"
  "cs_tier (gi_confidenceSignal (buildDefaultGovernanceInput n c)) = TierHigh"
  "cs_decayState (gi_confidenceSignal (buildDefaultGovernanceInput n c)) = Some DecayStable"
  by (simp_all add: buildDefaultGovernanceInput_def Let_def)

text \<open>What the default governance input leads to in a running project: tool and human-decision
  nodes are always deferred for confirmation, every other node is denied when its governance level
  is \<open>must\<close> (the level projects default to), autonomous when it is \<open>may\<close>, and let through with a
  flag when it is \<open>should\<close>. The default input is always valid.\<close>

theorem default_governance_table:
  "\<exists>d. evaluateConfidenceGovernanceRuntime (buildDefaultGovernanceInput n CtlRunning) = Inr d \<and>
     gd_outcome d =
       (if nd_type n = KToolExecution \<or> nd_type n = KHumanDecision then Defer
        else case nd_governance n of GovMust \<Rightarrow> Deny | GovShould \<Rightarrow> AllowWithFlag | GovMay \<Rightarrow> AllowAutonomy)"
proof -
  obtain d where d: "evaluateConfidenceGovernanceRuntime (buildDefaultGovernanceInput n CtlRunning) = Inr d"
    using evaluate_total [OF default_input_ok] by blast
  have "fst (decision_spec (buildDefaultGovernanceInput n CtlRunning)) =
       (if nd_type n = KToolExecution \<or> nd_type n = KHumanDecision then Defer
        else case nd_governance n of GovMust \<Rightarrow> Deny | GovShould \<Rightarrow> AllowWithFlag | GovMay \<Rightarrow> AllowAutonomy)"
    by (cases "nd_type n"; cases "nd_governance n") (simp_all add: decision_spec_def stable_spec_def)
  with d show ?thesis using evaluate_outcome [OF d] by auto
qed

text \<open>With the evaluator as PFC engine a tool-execution node that is executed with the default
  governance input never runs its tool, whatever the project's control state, the payload and the
  services are: it is deferred. In a running project it waits for a human decision.\<close>

theorem default_tool_node_never_runs:
  assumes "nd_type (xi_nodeDefinition input) = KToolExecution" and "xi_governanceInput input = None"
    and "executeWorkflowNode sv pfc_engine env input calls = (Inr r, calls')"
  shows "(\<exists>new. calls' = calls @ new \<and> list_all held_call new) \<and> er_outcome r \<in> {OcBlocked, OcWaiting} \<and>
    (xi_controlState input = CtlRunning \<longrightarrow> map_option ws_kind (er_waitState r) = Some WkHumanDecision)"
proof -
  let ?i = "input_governance input"
  have i: "?i = buildDefaultGovernanceInput (xi_nodeDefinition input) (xi_controlState input)"
    using assms(2) by (simp add: input_governance_def)
  have "gi_actionCategory ?i \<in> set HIGH_RISK_ACTION_CATEGORIES"
    using assms(1) by (simp add: i HIGH_RISK_ACTION_CATEGORIES_def)
  from pfc.held_run [OF assms(3)] this obtain d new where d: "evaluateConfidenceGovernanceRuntime ?i = Inr d"
    and new: "calls' = calls @ new" "list_all held_call new" and "held d"
    and r: "r = buildGovernanceOnlyResult env d (xi_nodeDefinition input) (xi_dispatchLineage input)"
    by (auto simp: pfc_engine_def)
  have "(gd_outcome d, gd_reasonCode d) = decision_spec ?i" and ok: "governance_decision_ok d"
    using evaluate_decision [OF d] by simp_all
  then have "gd_outcome d = Defer \<and> gd_requiresConfirmation d" if "xi_controlState input = CtlRunning"
    using that assms(1) by (auto simp: i decision_spec_def governance_decision_ok_def governance_decision_refined_def)
  then show ?thesis
    using new held_outcome [OF \<open>held d\<close>]
    by (auto simp: r buildGovernanceOnlyResult_def Let_def governed_result_def wait_on_def)
qed

section \<open>Witnesses\<close>

definition no_services :: services where
  "no_services = \<lparr>sv_route = None, sv_tool = None, sv_pfc = Some pfc_engine, sv_observer = None, sv_checkpoints = None,
     sv_bus = None, sv_overrides = [], sv_sha256 = id\<rparr>"

definition sample_lineage :: dispatch_lineage where
  "sample_lineage = createDispatchLineage sample_env [] ''run'' ''a'' None None None 0 ''start'' [''e''] ''t0''"

definition sample_execution :: "node_definition \<Rightarrow> execute_input" where
  "sample_execution n =
     \<lparr>xi_projectId = ''p'', xi_graph = diamond_graph, xi_runState = initial_run_state sample_env (sample_input diamond_graph),
      xi_nodeDefinition = n, xi_dispatchLineage = sample_lineage, xi_controlState = CtlRunning,
      xi_governanceInput = None, xi_payload = None\<rparr>"

definition tool_node :: node_definition where
  "tool_node = mk_node ''a'' (ToolExecutionConfig ''publish'' ''mapping://m'' None)"

lemma overrides_ok_none: "overrides_ok no_services"
  by (simp add: overrides_ok_def no_services_def)

lemma execute_default:
  assumes "xi_governanceInput input = None" and "sv_observer sv = None"
  obtains d where "evaluateConfidenceGovernanceRuntime (input_governance input) = Inr d"
    and "executeWorkflowNode sv pfc_engine env input calls =
      dispatch_node sv env input (input_governance input) d (calls @ [CallGovernance (input_governance input)])"
proof -
  have "governance_input_ok (input_governance input)"
    using assms(1) by (simp add: input_governance_def default_input_ok)
  then obtain d where d: "evaluateConfidenceGovernanceRuntime (input_governance input) = Inr d"
    using evaluate_total by blast
  moreover have "parse_governance_decision d = Inr d"
    using evaluate_decision(1) [OF d] by (simp add: parse_governance_decision_def)
  ultimately show ?thesis
    using assms(2)
    by (intro that [of d])
      (simp_all add: executeWorkflowNode_def Let_def io_simps observe_def pfc_engine_def input_governance_def [symmetric])
qed

lemma tool_node_execution:
  "\<exists>r calls'. executeWorkflowNode no_services pfc_engine sample_env (sample_execution tool_node) [] = (Inr r, calls')"
proof (rule execute_default [of "sample_execution tool_node" no_services sample_env "[]"])
  fix d
  assume d: "evaluateConfidenceGovernanceRuntime (input_governance (sample_execution tool_node)) = Inr d"
    and run: "executeWorkflowNode no_services pfc_engine sample_env (sample_execution tool_node) [] =
      dispatch_node no_services sample_env (sample_execution tool_node) (input_governance (sample_execution tool_node)) d
        ([] @ [CallGovernance (input_governance (sample_execution tool_node))])"
  have "held d"
    using pfc.holds_high_risk [of "[]" "input_governance (sample_execution tool_node)" d] d
    by (simp add: pfc_engine_def input_governance_def sample_execution_def tool_node_def mk_node_def HIGH_RISK_ACTION_CATEGORIES_def)
  then show ?thesis unfolding run by (simp add: dispatch_node_def io_simps)
qed (simp_all add: sample_execution_def no_services_def)

theorem default_tool_node_never_runs_witness:
  "\<exists>r calls'. executeWorkflowNode no_services pfc_engine sample_env (sample_execution tool_node) [] = (Inr r, calls') \<and>
     list_all held_call calls' \<and> map_option ws_kind (er_waitState r) = Some WkHumanDecision"
proof -
  obtain r calls' where run: "executeWorkflowNode no_services pfc_engine sample_env (sample_execution tool_node) [] = (Inr r, calls')"
    using tool_node_execution by blast
  have "nd_type (xi_nodeDefinition (sample_execution tool_node)) = KToolExecution"
    "xi_governanceInput (sample_execution tool_node) = None" "xi_controlState (sample_execution tool_node) = CtlRunning"
    by (simp_all add: sample_execution_def tool_node_def mk_node_def)
  from default_tool_node_never_runs [OF this(1,2) run] this(3) show ?thesis
    using run by auto
qed

theorem governed_execution_witness:
  "\<exists>r calls' d. executeWorkflowNode no_services pfc_engine sample_env (sample_execution tool_node) [] = (Inr r, calls') \<and>
     result_contract d r"
proof -
  obtain r calls' where run: "executeWorkflowNode no_services pfc_engine sample_env (sample_execution tool_node) [] = (Inr r, calls')"
    using tool_node_execution by blast
  from governed_execution [OF overrides_ok_none run] show ?thesis using run by blast
qed

end
