(* ===== verification/Handler_Properties.thy ===== *)
theory Handler_Properties
  imports Coordinator
begin

text \<open>
  What the handlers decide: the bound of a loop, the condition of a parallel join against its
  declarative reading, what an error handler catches, and the parameters a tool is given.
\<close>

section \<open>Parallel join\<close>

text \<open>The condition of a join as the modes are meant.\<close>

definition join_met :: "join_mode \<Rightarrow> nat \<Rightarrow> node_status option list \<Rightarrow> bool" where
  "join_met mode required statuses =
     (case mode of
        JoinAll \<Rightarrow> set statuses \<subseteq> {Some NsCompleted, Some NsSkipped}
      | JoinAny \<Rightarrow> Some NsCompleted \<in> set statuses
      | JoinNofM \<Rightarrow> required \<le> count (mset statuses) (Some NsCompleted))"

lemma length_filter_all: "length (filter P xs) = length xs \<longleftrightarrow> (\<forall>x\<in>set xs. P x)"
  by (metis filter_True filter_id_conv length_filter_less less_irrefl)

lemma length_filter_eq_count: "length (filter (\<lambda>x. x = a) xs) = count (mset xs) a"
  by (induction xs) auto

lemma all_resolved_iff:
  "join_condition JoinAll (length statuses) statuses \<longleftrightarrow> set statuses \<subseteq> {Some NsCompleted, Some NsSkipped}"
proof -
  have "length statuses \<le> length (filter (\<lambda>s. s = Some NsCompleted) statuses) \<longleftrightarrow> (\<forall>s\<in>set statuses. s = Some NsCompleted)"
    using length_filter_all [of "\<lambda>s. s = Some NsCompleted" statuses]
      length_filter_le [of "\<lambda>s. s = Some NsCompleted" statuses] by linarith
  then show ?thesis
    unfolding join_condition_def Let_def length_filter_all by auto
qed

lemma join_condition_met:
  assumes "required_upstream mode k (length statuses) = Some required"
  shows "join_condition mode required statuses \<longleftrightarrow> join_met mode required statuses"
proof (cases mode)
  case JoinAll
  then have "required = length statuses" using assms by (simp add: required_upstream_def)
  with JoinAll show ?thesis using all_resolved_iff [of statuses] by (simp add: join_met_def)
next
  case JoinAny
  then have "required = 1" using assms by (simp add: required_upstream_def)
  with JoinAny show ?thesis
    by (auto simp: join_met_def join_condition_def Let_def Suc_le_eq filter_empty_conv)
next
  case JoinNofM
  then show ?thesis by (simp add: join_met_def join_condition_def length_filter_eq_count)
qed

lemma join_result:
  assumes "ctx_config ctx = ParallelJoinConfig mode k timeout"
    and "inbound_in (xc_graph ctx) (nd_id (xc_nodeDefinition ctx)) \<noteq> []"
    and "required_upstream mode k (length (upstream_ids (xc_graph ctx) (nd_id (xc_nodeDefinition ctx)))) = Some required"
  shows "\<exists>r. parallel_join_execute env ctx = Inr r \<and>
    er_outcome r = (if join_condition mode required
        (map (status_of (xc_runState ctx)) (upstream_ids (xc_graph ctx) (nd_id (xc_nodeDefinition ctx))))
      then OcCompleted else OcWaiting)"
  using assms by (simp add: parallel_join_execute_def Let_def mk_result_def)

text \<open>The parallel-join handler implements its modes: \<open>all\<close> completes when every upstream node is
  completed or was skipped by a race, \<open>any\<close> when one is completed, \<open>n-of-m\<close> when the required
  number is; otherwise the join waits. The number required is the one the run state records in
  the join's progress, so the two computations of it agree.\<close>

theorem parallel_join_refines_modes:
  assumes "obj_get (nd_id (xc_nodeDefinition ctx)) (gr_nodes (xc_graph ctx)) = Some n"
    and "dn_definition n = xc_nodeDefinition ctx"
    and "ctx_config ctx = ParallelJoinConfig mode k timeout" and "dn_inboundEdgeIds n \<noteq> []"
    and "required_upstream mode k (length (upstream_ids (xc_graph ctx) (nd_id (xc_nodeDefinition ctx)))) = Some required"
  shows "\<exists>r. parallel_join_execute env ctx = Inr r \<and>
    er_outcome r = (if join_met mode required
        (map (status_of (xc_runState ctx)) (upstream_ids (xc_graph ctx) (nd_id (xc_nodeDefinition ctx))))
      then OcCompleted else OcWaiting) \<and>
    jp_requiredCount (initial_join_progress (xc_graph ctx) (nd_id (xc_nodeDefinition ctx)) s) = required"
proof -
  let ?up = "upstream_ids (xc_graph ctx) (nd_id (xc_nodeDefinition ctx))"
  have "inbound_in (xc_graph ctx) (nd_id (xc_nodeDefinition ctx)) \<noteq> []"
    using assms(1,4) by (simp add: inbound_in_def)
  from join_result [OF assms(3) this assms(5)] obtain r where "parallel_join_execute env ctx = Inr r"
    and "er_outcome r = (if join_condition mode required (map (status_of (xc_runState ctx)) ?up) then OcCompleted else OcWaiting)"
    by blast
  moreover have "jp_requiredCount (initial_join_progress (xc_graph ctx) (nd_id (xc_nodeDefinition ctx)) s) = required"
    using assms by (auto simp: initial_join_progress_def Let_def ctx_config_def required_upstream_def
        split: join_mode.splits option.splits if_splits)
  ultimately show ?thesis
    using join_condition_met [of mode k "map (status_of (xc_runState ctx)) ?up" required] assms(5) by simp
qed

section \<open>Loop\<close>

text \<open>A loop handler goes round again only while the node has fewer attempts than its maximum,
  and only if its exit condition is not met; otherwise it takes its exit. There is no third branch.\<close>

theorem loop_handler_bounded:
  assumes "ctx_config ctx = LoopConfig maxIterations exitRef backoff"
  shows "\<exists>r. loop_execute env ctx = Inr r \<and>
    er_selectedBranchKey r =
      (if getOr (node_attempts ctx) 0 < maxIterations \<and> payload_field pl_conditionResult (xc_payload ctx) \<noteq> Some True
       then Some ''loop'' else Some ''exit'') \<and>
    (er_selectedBranchKey r = Some ''exit'' \<longrightarrow> er_outcome r = OcCompleted)"
  using assms by (simp add: loop_execute_def Let_def mk_result_def)

section \<open>Error handler\<close>

definition watched_ids :: "execution_context \<Rightarrow> catch_scope \<Rightarrow> string list option \<Rightarrow> string list" where
  "watched_ids ctx scope targets =
     (if scope = CatchSpecific then getOr targets []
      else upstream_ids (xc_graph ctx) (nd_id (xc_nodeDefinition ctx)))"

text \<open>An error handler selects its \<open>error\<close> branch exactly when one of the nodes it watches has
  failed; it fails itself only when a target it names is not in the graph, and otherwise passes
  through.\<close>

theorem error_handler_catches:
  assumes "ctx_config ctx = ErrorHandlerConfig scope targets"
    and "\<forall>i\<in>set (getOr targets []). obj_get i (gr_nodes (xc_graph ctx)) \<noteq> None"
  shows "\<exists>r. error_handler_execute ctx = Inr r \<and> er_outcome r = OcCompleted \<and>
    (er_selectedBranchKey r = Some ''error'' \<longleftrightarrow>
       (\<exists>i\<in>set (watched_ids ctx scope targets). status_of (xc_runState ctx) i = Some NsFailed)) \<and>
    er_selectedBranchKey r \<in> {None, Some ''error''}"
proof -
  have "filter (\<lambda>i. obj_get i (gr_nodes (xc_graph ctx)) = None) (getOr targets []) = []"
    using assms(2) by (simp add: filter_empty_conv)
  then show ?thesis
    using assms(1)
    by (auto simp: error_handler_execute_def Let_def watched_ids_def caught_def mk_result_def failed_ids_def filter_empty_conv)
qed

section \<open>Tool parameters\<close>

lemma param_or_get:
  "obj_get k (param_or key d params) = (if k = key then orElse (obj_get key params) d else obj_get k params)"
  by (cases "obj_get key params"; cases d) (auto simp: param_or_def)

text \<open>A tool is called with every parameter the payload gives, unchanged, together with the run
  and the lineage it is called for unless the payload names them; only the knowledge-refresh tool
  gets further defaults.\<close>

theorem tool_params_complete:
  assumes "payload_field pl_toolParams (xc_payload ctx) = Some (JObj kvs)"
  shows "\<exists>sent. buildToolParams env ctx tool mapping = JObj sent \<and>
    (\<forall>k v. obj_get k kvs = Some v \<longrightarrow> obj_get k sent = Some v) \<and>
    obj_get ''workflowRunId'' sent = Some (getOr (obj_get ''workflowRunId'' kvs) (JStr (rs_runId (xc_runState ctx)))) \<and>
    obj_get ''dispatchLineageId'' sent = Some (getOr (obj_get ''dispatchLineageId'' kvs) (JStr (dl_id (xc_dispatchLineage ctx)))) \<and>
    (tool \<noteq> ''refresh_project_knowledge'' \<longrightarrow>
       (\<forall>k. k \<notin> {''workflowRunId'', ''dispatchLineageId''} \<longrightarrow> obj_get k sent = obj_get k kvs))"
proof -
  have getOr_or: "orElse x (Some d) = Some (getOr x d)" for x and d :: json
    by (cases x) simp_all
  have orElse_None: "orElse x None = x" for x :: "json option" by (cases x) simp_all
  show ?thesis
    using assms by (simp add: buildToolParams_def Let_def param_or_get getOr_or orElse_None)
qed

section \<open>Witnesses\<close>

definition sample_context :: "node_definition \<Rightarrow> execution_payload option \<Rightarrow> execution_context" where
  "sample_context n pl =
     (node_context ((sample_execution n)\<lparr>xi_payload := pl\<rparr>) (input_governance (sample_execution n)) sample_decision)"

definition join_node :: node_definition where
  "join_node = mk_node ''d'' (ParallelJoinConfig JoinAny None None)"

definition join_graph :: workflow_graph where
  "join_graph = diamond_graph\<lparr>gr_nodes := obj_modify ''d'' (\<lambda>n. n\<lparr>dn_definition := join_node\<rparr>) (gr_nodes diamond_graph)\<rparr>"

definition join_context :: execution_context where
  "join_context = (sample_context join_node None)\<lparr>xc_graph := join_graph\<rparr>"

definition empty_payload :: execution_payload where
  "empty_payload = \<lparr>pl_modelInput = None, pl_toolParams = None, pl_conditionResult = None, pl_transformOutput = None,
     pl_qualityGatePassed = None, pl_humanDecision = None, pl_outputRef = None, pl_externalRef = None,
     pl_selectedBranchKey = None, pl_sideEffectStatus = None, pl_checkpointCommitMode = None, pl_detail = []\<rparr>"

lemma sample_context_fields [simp]:
  "xc_nodeDefinition (sample_context n pl) = n" "ctx_config (sample_context n pl) = nd_config n"
  "xc_payload (sample_context n pl) = pl" "xc_graph (sample_context n pl) = diamond_graph"
  by (simp_all add: sample_context_def sample_execution_def node_context_def ctx_config_def)

lemma join_graph_node:
  "\<exists>n. obj_get ''d'' (gr_nodes join_graph) = Some n \<and> dn_definition n = join_node \<and> dn_inboundEdgeIds n = [''3'', ''4'']"
proof -
  have "obj_get ''d'' (gr_nodes diamond_graph) = Some \<lparr>dn_definition = transform_node ''d'',
      dn_inboundEdgeIds = [''3'', ''4''], dn_outboundEdgeIds = [], dn_topologicalIndex = 3\<rparr>"
    unfolding diamond_graph_code by simp
  then show ?thesis by (simp add: join_graph_def obj_get_modify)
qed

theorem parallel_join_refines_modes_witness:
  "\<exists>r. parallel_join_execute sample_env join_context = Inr r \<and> er_outcome r = OcWaiting"
proof -
  let ?up = "upstream_ids join_graph ''d''" and ?s = "xc_runState join_context"
  have fields: "xc_nodeDefinition join_context = join_node" "xc_graph join_context = join_graph"
    "ctx_config join_context = ParallelJoinConfig JoinAny None None" "nd_id join_node = ''d''"
    by (simp_all add: join_context_def join_node_def mk_node_def ctx_config_def)
  have up: "\<not> join_met JoinAny 1 (map (status_of ?s) ?up)"
    by code_simp
  obtain n where n: "obj_get ''d'' (gr_nodes join_graph) = Some n" "dn_definition n = join_node" "dn_inboundEdgeIds n \<noteq> []"
    using join_graph_node by auto
  have "required_upstream JoinAny None (length ?up) = Some 1" by (simp add: required_upstream_def)
  with parallel_join_refines_modes [of join_context n JoinAny None None 1 sample_env ?s] n up show ?thesis
    by (auto simp: fields)
qed

theorem loop_handler_bounded_witness:
  "\<exists>r. loop_execute sample_env (sample_context (mk_node ''a'' (LoopConfig 1 ''exit://x'' None)) None) = Inr r \<and>
     er_selectedBranchKey r = Some ''loop''"
proof -
  let ?ctx = "sample_context (mk_node ''a'' (LoopConfig 1 ''exit://x'' None)) None"
  have "getOr (node_attempts ?ctx) 0 = 0" by code_simp
  moreover have "ctx_config ?ctx = LoopConfig 1 ''exit://x'' None" by (simp add: mk_node_def)
  ultimately show ?thesis
    using loop_handler_bounded [of ?ctx 1 "''exit://x''" None sample_env] by (auto simp: payload_field_def)
qed

theorem error_handler_catches_witness:
  "\<exists>r. error_handler_execute (sample_context (mk_node ''d'' (ErrorHandlerConfig CatchSpecific (Some [''b'']))) None) = Inr r \<and>
     er_selectedBranchKey r \<noteq> Some ''error''"
proof -
  let ?ctx = "sample_context (mk_node ''d'' (ErrorHandlerConfig CatchSpecific (Some [''b'']))) None"
  have "ctx_config ?ctx = ErrorHandlerConfig CatchSpecific (Some [''b''])" by (simp add: mk_node_def)
  moreover have "\<forall>i\<in>set (getOr (Some [''b'']) []). obj_get i (gr_nodes (xc_graph ?ctx)) \<noteq> None"
    unfolding sample_context_fields diamond_graph_code by simp
  moreover have "status_of (xc_runState ?ctx) ''b'' = Some NsPending" by code_simp
  ultimately show ?thesis
    using error_handler_catches [of ?ctx CatchSpecific "Some [''b'']"] by (auto simp: watched_ids_def)
qed

theorem tool_params_complete_witness:
  "\<exists>sent. buildToolParams sample_env
      (sample_context tool_node (Some (empty_payload\<lparr>pl_toolParams := Some (JObj [(''x'', JNum 1)])\<rparr>))) ''publish'' ''m'' = JObj sent \<and>
     obj_get ''x'' sent = Some (JNum 1)"
proof -
  let ?ctx = "sample_context tool_node (Some (empty_payload\<lparr>pl_toolParams := Some (JObj [(''x'', JNum 1)])\<rparr>))"
  have "payload_field pl_toolParams (xc_payload ?ctx) = Some (JObj [(''x'', JNum 1)])"
    by (simp add: payload_field_def)
  from tool_params_complete [OF this, of sample_env "''publish''" "''m''"] show ?thesis by auto
qed

end
