(* ===== verification/Recovery.thy ===== *)
theory Recovery
  imports Services
begin

text \<open>
  Recovery, \<open>self/cortex/core/src/recovery/\<close>: the in-memory ledger of events, sealed segments
  and checkpoint records, the two-phase checkpoint manager over it, the retry and rollback
  policies and the orchestrator. The ledger is passed as a value and returned updated. Times
  are the milliseconds \<open>Date.getTime\<close> gives; \<open>sha256\<close>, the clock and the drawn identifiers are
  arguments.
\<close>

section \<open>Data\<close>

datatype failure_class =
  FcRetryableTransient | FcNonRetryableDeterministic | FcPolicyOrInvariantViolation | FcUnknownExternalEffect

datatype operation_class = OpReversible | OpCompensatable | OpIrreversible

datatype terminal_state = RecoveryCompleted | RecoveryBlockedReviewRequired | RecoveryFailedHardStop

datatype retry_result = RetryAllowed | RetryBlocked | RetryEscalate

datatype rollback_result = RollbackAllowed | CompensationRequired | RollbackBlocked | ReviewRequired

datatype rollback_effect = RbIdempotent | RbCompensatable | RbUnknownExternalEffect

fun recovery_domain_text :: "recovery_domain \<Rightarrow> string" where
  "recovery_domain_text StepDomain = ''step_domain''"
| "recovery_domain_text AgentDomain = ''agent_domain''"
| "recovery_domain_text AgentSetDomain = ''agent_set_domain''"
| "recovery_domain_text ProjectRunDomain = ''project_run_domain''"
| "recovery_domain_text RuntimeDomain = ''runtime_domain''"

record recovery_checkpoint =
  rc_checkpoint_id :: string
  rc_run_id :: string
  rc_project_id :: string
  rc_domain_scope :: recovery_domain
  rc_state_vector_hash :: string
  rc_policy_epoch :: string
  rc_scheduler_cursor :: string
  rc_tool_side_effect_journal_hwm :: nat
  rc_memory_write_journal_hwm :: nat
  rc_idempotency_key_set_hash :: string
  rc_checkpoint_prev_hash :: "string option"
  rc_created_at :: nat
  rc_committed_at :: "nat option"
  rc_witness_checkpoint_ref :: "string option"

record recovery_event =
  re_event_type :: string
  re_run_id :: string
  re_project_id :: string
  re_domain_scope :: recovery_domain
  re_payload_hash :: string
  re_occurred_at :: string

record recovery_segment =
  sg_segment_id :: string
  sg_segment_seq_start :: nat
  sg_segment_seq_end :: nat
  sg_prev_segment_hash :: "string option"
  sg_segment_hash :: string
  sg_sealed_at :: nat

record stored_event =
  sv_event :: recovery_event
  sv_event_hash :: string
  sv_sequence :: nat
  sv_segment_id :: string

record stored_checkpoint =
  sc_checkpoint :: recovery_checkpoint
  sc_is_committed :: bool

record ledger =
  lg_events :: "stored_event list"
  lg_segments :: "(string \<times> recovery_segment) list"
  lg_checkpoints :: "(string \<times> stored_checkpoint list) list"
  lg_lastSegmentHash :: "string option"
  lg_currentSegmentId :: "string option"
  lg_nextSequence :: nat

definition empty_ledger :: ledger where
  "empty_ledger = \<lparr>lg_events = [], lg_segments = [], lg_checkpoints = [], lg_lastSegmentHash = None,
     lg_currentSegmentId = None, lg_nextSequence = 0\<rparr>"

definition recovery_hash :: "string \<Rightarrow> bool" where
  \<comment> \<open>\<open>RECOVERY_HASH_REGEX\<close>: 64 lowercase hexadecimal digits\<close>
  "recovery_hash s \<longleftrightarrow> length s = 64 \<and> list_all (\<lambda>c. c \<in> set ''0123456789abcdef'') s"

definition checkpoint_fields_ok :: "recovery_checkpoint \<Rightarrow> bool" where
  "checkpoint_fields_ok c \<longleftrightarrow>
     recovery_hash (rc_state_vector_hash c) \<and> rc_policy_epoch c \<noteq> [] \<and> rc_scheduler_cursor c \<noteq> [] \<and>
     recovery_hash (rc_idempotency_key_set_hash c) \<and>
     (case rc_checkpoint_prev_hash c of None \<Rightarrow> True | Some h \<Rightarrow> recovery_hash h) \<and>
     rc_witness_checkpoint_ref c \<noteq> Some []"

definition parse_checkpoint :: "recovery_checkpoint \<Rightarrow> recovery_checkpoint result" where
  "parse_checkpoint c = (if checkpoint_fields_ok c then Inr c else Inl ZodError)"

interpretation checkpoint_schema: schema_parser parse_checkpoint
  by unfold_locales (auto simp: parse_checkpoint_def split: if_splits)

definition parse_segment :: "recovery_segment \<Rightarrow> recovery_segment result" where
  "parse_segment s =
     (if recovery_hash (sg_segment_hash s) \<and>
         (case sg_prev_segment_hash s of None \<Rightarrow> True | Some h \<Rightarrow> recovery_hash h)
      then Inr s else Inl ZodError)"

interpretation segment_schema: schema_parser parse_segment
  by unfold_locales (auto simp: parse_segment_def split: if_splits)

section \<open>The ledger\<close>

definition event_payload :: "recovery_event \<Rightarrow> string option \<Rightarrow> string" where
  "event_payload e prevHash = stringify (JObj
     [(''event_type'', JStr (re_event_type e)), (''run_id'', JStr (re_run_id e)),
      (''project_id'', JStr (re_project_id e)), (''domain_scope'', JStr (recovery_domain_text (re_domain_scope e))),
      (''payload_hash'', JStr (re_payload_hash e)),
      (''prev_event_hash'', case prevHash of None \<Rightarrow> JNull | Some h \<Rightarrow> JStr h),
      (''occurred_at'', JStr (re_occurred_at e))])"

definition last_event_hash :: "stored_event list \<Rightarrow> string option" where
  "last_event_hash es = (if es = [] then None else Some (sv_event_hash (last es)))"

definition ledger_append :: "(string \<Rightarrow> string) \<Rightarrow> string \<Rightarrow> recovery_event \<Rightarrow> ledger \<Rightarrow> (string \<times> nat) \<times> ledger" where
  \<comment> \<open>the identifier is the one drawn when no segment is open; the result is the segment and
      the sequence number\<close>
  "ledger_append sha256 drawn event l =
     (let segmentId = getOr (lg_currentSegmentId l) drawn;
          prevHash = last_event_hash (lg_events l);
          eventHash = sha256 (event_payload event prevHash @ getOr prevHash []);
          sequence = Suc (lg_nextSequence l)
      in ((segmentId, sequence),
          l\<lparr>lg_currentSegmentId := (if truthy (lg_currentSegmentId l) then lg_currentSegmentId l else Some segmentId),
            lg_events := lg_events l @
              [\<lparr>sv_event = event, sv_event_hash = eventHash, sv_sequence = sequence, sv_segment_id = segmentId\<rparr>],
            lg_nextSequence := sequence\<rparr>))"

definition ledger_seal :: "(string \<Rightarrow> string) \<Rightarrow> nat \<Rightarrow> string \<Rightarrow> string \<Rightarrow> ledger \<Rightarrow> (bool \<times> ledger) result" where
  "ledger_seal sha256 now segmentId witnessRef l =
     (let segmentEvents = filter (\<lambda>e. sv_segment_id e = segmentId) (lg_events l) in
      if segmentEvents = [] then Inr (False, l)
      else
        (let segmentHash = sha256 (concat (map sv_event_hash segmentEvents) @ getOr (lg_lastSegmentHash l) [] @ witnessRef)
         in bindR (parse_segment
              \<lparr>sg_segment_id = segmentId, sg_segment_seq_start = sv_sequence (hd segmentEvents),
               sg_segment_seq_end = sv_sequence (last segmentEvents), sg_prev_segment_hash = lg_lastSegmentHash l,
               sg_segment_hash = segmentHash, sg_sealed_at = now\<rparr>)
              (\<lambda>segment. Inr (True,
                 l\<lparr>lg_segments := obj_set segmentId segment (lg_segments l),
                   lg_lastSegmentHash := Some segmentHash, lg_currentSegmentId := None\<rparr>))))"

definition compareSeqEnd :: "recovery_segment \<Rightarrow> recovery_segment \<Rightarrow> int" where
  "compareSeqEnd a b = int (sg_segment_seq_end b) - int (sg_segment_seq_end a)"

interpretation seq_end_cmp: js_comparator compareSeqEnd
  by (rule js_comparator_by_key [of _ "\<lambda>s. - int (sg_segment_seq_end s)"]) (auto simp: compareSeqEnd_def)

definition getLastSegment :: "ledger \<Rightarrow> recovery_segment option" where
  "getLastSegment l =
     (case js_sort compareSeqEnd (obj_values (lg_segments l)) of [] \<Rightarrow> None | s # _ \<Rightarrow> Some s)"

definition run_checkpoints :: "string \<Rightarrow> ledger \<Rightarrow> stored_checkpoint list" where
  "run_checkpoints runId l = getOr (obj_get runId (lg_checkpoints l)) []"

definition compareCommitted :: "recovery_checkpoint \<Rightarrow> recovery_checkpoint \<Rightarrow> int" where
  \<comment> \<open>\<open>new Date(null).getTime()\<close> is 0\<close>
  "compareCommitted a b = int (getOr (rc_committed_at a) 0) - int (getOr (rc_committed_at b) 0)"

interpretation committed_cmp: js_comparator compareCommitted
  by (rule js_comparator_by_key [of _ "\<lambda>c. getOr (rc_committed_at c) 0"]) (auto simp: compareCommitted_def)

definition getCheckpoints :: "string \<Rightarrow> ledger \<Rightarrow> recovery_checkpoint list" where
  "getCheckpoints runId l =
     js_sort compareCommitted (map sc_checkpoint (filter sc_is_committed (run_checkpoints runId l)))"

definition appendCheckpoint :: "recovery_checkpoint \<Rightarrow> bool \<Rightarrow> ledger \<Rightarrow> ledger" where
  "appendCheckpoint checkpoint isCommitted l =
     l\<lparr>lg_checkpoints := obj_set (rc_run_id checkpoint)
         (run_checkpoints (rc_run_id checkpoint) l @ [\<lparr>sc_checkpoint = checkpoint, sc_is_committed = isCommitted\<rparr>])
         (lg_checkpoints l)\<rparr>"

section \<open>The checkpoint manager\<close>

definition getLastCommitted :: "string \<Rightarrow> ledger \<Rightarrow> recovery_checkpoint option" where
  "getLastCommitted runId l =
     (case getCheckpoints runId l of [] \<Rightarrow> None | c # cs \<Rightarrow> Some (last (c # cs)))"

definition prepared_checkpoint :: "nat \<Rightarrow> string \<Rightarrow> string \<Rightarrow> string \<Rightarrow> checkpoint_snapshot \<Rightarrow> ledger \<Rightarrow> recovery_checkpoint" where
  "prepared_checkpoint now checkpointId runId projectId snapshot l =
     \<lparr>rc_checkpoint_id = checkpointId, rc_run_id = runId, rc_project_id = projectId,
      rc_domain_scope = sn_domain_scope snapshot, rc_state_vector_hash = sn_state_vector_hash snapshot,
      rc_policy_epoch = sn_policy_epoch snapshot, rc_scheduler_cursor = sn_scheduler_cursor snapshot,
      rc_tool_side_effect_journal_hwm = sn_tool_side_effect_journal_hwm snapshot,
      rc_memory_write_journal_hwm = sn_memory_write_journal_hwm snapshot,
      rc_idempotency_key_set_hash = sn_idempotency_key_set_hash snapshot,
      rc_checkpoint_prev_hash = map_option rc_state_vector_hash (getLastCommitted runId l),
      rc_created_at = now, rc_committed_at = None, rc_witness_checkpoint_ref = None\<rparr>"

definition manager_prepare ::
  "nat \<Rightarrow> string \<Rightarrow> string \<Rightarrow> string \<Rightarrow> checkpoint_snapshot \<Rightarrow> ledger \<Rightarrow> (prepare_result \<times> ledger) result" where
  "manager_prepare now checkpointId runId projectId snapshot l =
     bindR (parse_checkpoint (prepared_checkpoint now checkpointId runId projectId snapshot l))
       (\<lambda>checkpoint. Inr (\<lparr>pp_success = True, pp_checkpoint_id = Some checkpointId\<rparr>, appendCheckpoint checkpoint False l))"

definition prepare_record :: "string \<Rightarrow> string \<Rightarrow> ledger \<Rightarrow> stored_checkpoint option" where
  "prepare_record runId checkpointId l =
     find (\<lambda>r. \<not> sc_is_committed r \<and> rc_checkpoint_id (sc_checkpoint r) = checkpointId) (run_checkpoints runId l)"

definition manager_commit :: "nat \<Rightarrow> string \<Rightarrow> string \<Rightarrow> string \<Rightarrow> ledger \<Rightarrow> (bool \<times> ledger) result" where
  "manager_commit now runId checkpointId witnessRef l =
     (case prepare_record runId checkpointId l of
        None \<Rightarrow> Inr (False, l)
      | Some r \<Rightarrow>
          bindR (parse_checkpoint ((sc_checkpoint r)\<lparr>rc_committed_at := Some now, rc_witness_checkpoint_ref := Some witnessRef\<rparr>))
            (\<lambda>committed. Inr (True, appendCheckpoint committed True l)))"

fun chain_links :: "string option \<Rightarrow> recovery_checkpoint list \<Rightarrow> string option" where
  \<comment> \<open>the loop of \<open>validateChain\<close>: the first error, given the state hash of the checkpoint
      before, which is absent at the start\<close>
  "chain_links prev [] = None"
| "chain_links prev (c # cs) =
     (if prev \<noteq> None \<and> rc_checkpoint_prev_hash c \<noteq> prev then Some ''chain link mismatch''
      else if prev = None \<and> rc_checkpoint_prev_hash c \<noteq> None then Some ''first checkpoint must have null prev_hash''
      else if \<not> recovery_hash (rc_state_vector_hash c) then Some ''invalid hash''
      else chain_links (Some (rc_state_vector_hash c)) cs)"

definition validateChain :: "string \<Rightarrow> ledger \<Rightarrow> string option" where
  \<comment> \<open>\<open>None\<close> is \<open>{ valid: true }\<close>, otherwise the error\<close>
  "validateChain runId l = chain_links None (getCheckpoints runId l)"

section \<open>Policies and orchestration\<close>

definition evaluate_retry :: "failure_class \<Rightarrow> nat \<Rightarrow> nat \<Rightarrow> bool \<Rightarrow> retry_result" where
  "evaluate_retry failureClass attempt budget idempotent =
     (if failureClass \<noteq> FcRetryableTransient then RetryBlocked
      else if budget \<le> attempt then RetryEscalate
      else if \<not> idempotent then RetryBlocked
      else RetryAllowed)"

definition evaluate_rollback ::
  "operation_class \<Rightarrow> recovery_domain \<Rightarrow> recovery_domain \<Rightarrow> bool \<Rightarrow> rollback_effect \<Rightarrow> rollback_result" where
  "evaluate_rollback operation fromDomain toDomain escalated effect =
     (if effect = RbUnknownExternalEffect then ReviewRequired
      else if operation = OpIrreversible then RollbackBlocked
      else if operation = OpCompensatable then CompensationRequired
      else if fromDomain \<noteq> toDomain \<and> \<not> escalated then RollbackBlocked
      else RollbackAllowed)"

record recovery_context =
  rx_run_id :: string
  rx_failure_class :: failure_class
  rx_validateChain :: "string \<Rightarrow> string option"
  rx_getLastCommitted :: "string \<Rightarrow> recovery_checkpoint option"
  rx_retry :: "failure_class \<Rightarrow> nat \<Rightarrow> nat \<Rightarrow> bool \<Rightarrow> retry_result"
  rx_rollback :: "operation_class \<Rightarrow> recovery_domain \<Rightarrow> recovery_domain \<Rightarrow> bool \<Rightarrow> rollback_effect \<Rightarrow> rollback_result"

definition orchestrate :: "recovery_context \<Rightarrow> terminal_state" where
  "orchestrate ctx =
     (if rx_validateChain ctx (rx_run_id ctx) \<noteq> None then RecoveryBlockedReviewRequired
      else case rx_getLastCommitted ctx (rx_run_id ctx) of
        None \<Rightarrow> RecoveryFailedHardStop
      | Some lastCheckpoint \<Rightarrow>
          (let retry = rx_retry ctx (rx_failure_class ctx) 0 3 True;
               rollback = rx_rollback ctx OpReversible (rc_domain_scope lastCheckpoint)
                 (rc_domain_scope lastCheckpoint) False RbIdempotent
           in if retry = RetryEscalate then RecoveryBlockedReviewRequired
              else if retry = RetryBlocked then RecoveryBlockedReviewRequired
              else if rollback = ReviewRequired then RecoveryBlockedReviewRequired
              else if rollback = RollbackBlocked then RecoveryFailedHardStop
              else if rollback = CompensationRequired then RecoveryBlockedReviewRequired
              else RecoveryCompleted))"

end
