(* ===== verification/Recovery_Properties.thy ===== *)
theory Recovery_Properties
  imports Recovery
begin

text \<open>
  Properties of the recovery ledger and the checkpoint manager. The operations are steps of
  an event system (\<open>ledger_run\<close>), and what holds of the ledger after any sequence of them is
  an invariant: events form a hash chain numbered without gaps, and each committed checkpoint
  has a prepared one of the same run. A run whose checkpoints are committed one at a time
  (\<open>disciplined\<close>) has a valid chain; two preparations before a commit break it.
\<close>

section \<open>Steps of the ledger\<close>

datatype ledger_op =
    LAppend string recovery_event
  | LSeal nat string string
  | LPrepare nat string string string checkpoint_snapshot
  | LCommit nat string string string

fun ledger_step :: "(string \<Rightarrow> string) \<Rightarrow> ledger_op \<Rightarrow> ledger \<Rightarrow> ledger" where
  \<comment> \<open>an operation that throws leaves the ledger as it was\<close>
  "ledger_step sha (LAppend drawn e) l = snd (ledger_append sha drawn e l)"
| "ledger_step sha (LSeal now s w) l = (case ledger_seal sha now s w l of Inl _ \<Rightarrow> l | Inr (_, l') \<Rightarrow> l')"
| "ledger_step sha (LPrepare now c r p snapshot) l =
     (case manager_prepare now c r p snapshot l of Inl _ \<Rightarrow> l | Inr (_, l') \<Rightarrow> l')"
| "ledger_step sha (LCommit now r c w) l =
     (case manager_commit now r c w l of Inl _ \<Rightarrow> l | Inr (_, l') \<Rightarrow> l')"

definition ledger_run :: "(string \<Rightarrow> string) \<Rightarrow> ledger_op list \<Rightarrow> ledger" where
  "ledger_run sha ops = fold (ledger_step sha) ops empty_ledger"

lemma ledger_run_invariant:
  assumes "P empty_ledger" and "\<And>op l. P l \<Longrightarrow> P (ledger_step sha op l)"
  shows "P (ledger_run sha ops)"
proof -
  have "P (fold (ledger_step sha) ops l)" if "P l" for l
    using that by (induction ops arbitrary: l) (auto intro: assms(2))
  then show ?thesis by (simp add: ledger_run_def assms(1))
qed

lemma run_checkpoints_empty [simp]: "run_checkpoints r empty_ledger = []"
  by (simp add: run_checkpoints_def empty_ledger_def)

lemma run_checkpoints_append [simp]:
  "run_checkpoints r (appendCheckpoint c b l) =
     (if r = rc_run_id c then run_checkpoints r l @ [\<lparr>sc_checkpoint = c, sc_is_committed = b\<rparr>]
      else run_checkpoints r l)"
  by (simp add: run_checkpoints_def appendCheckpoint_def)

lemma append_checkpoint_events [simp]:
  "lg_events (appendCheckpoint c b l) = lg_events l" "lg_nextSequence (appendCheckpoint c b l) = lg_nextSequence l"
  by (simp_all add: appendCheckpoint_def)

text \<open>What a successful phase of the protocol does to the ledger.\<close>

lemma manager_prepare_InrE:
  assumes "manager_prepare now c r p snapshot l = Inr (res, l')"
  obtains "checkpoint_fields_ok (prepared_checkpoint now c r p snapshot l)"
    and "res = \<lparr>pp_success = True, pp_checkpoint_id = Some c\<rparr>"
    and "l' = appendCheckpoint (prepared_checkpoint now c r p snapshot l) False l"
  using assms by (auto simp: manager_prepare_def parse_checkpoint_def split: if_splits)

definition committed_of :: "recovery_checkpoint \<Rightarrow> nat \<Rightarrow> string \<Rightarrow> recovery_checkpoint" where
  "committed_of c now w = c\<lparr>rc_committed_at := Some now, rc_witness_checkpoint_ref := Some w\<rparr>"

lemma committed_of_simps [simp]:
  "rc_run_id (committed_of c now w) = rc_run_id c"
  "rc_checkpoint_id (committed_of c now w) = rc_checkpoint_id c"
  "rc_committed_at (committed_of c now w) = Some now"
  "rc_witness_checkpoint_ref (committed_of c now w) = Some w"
  "rc_state_vector_hash (committed_of c now w) = rc_state_vector_hash c"
  "rc_checkpoint_prev_hash (committed_of c now w) = rc_checkpoint_prev_hash c"
  by (simp_all add: committed_of_def)

lemma prepare_record_SomeD:
  assumes "prepare_record r c l = Some s"
  shows "s \<in> set (run_checkpoints r l) \<and> \<not> sc_is_committed s \<and> rc_checkpoint_id (sc_checkpoint s) = c"
  using assms by (auto simp: prepare_record_def find_Some_iff)

lemma manager_commit_InrE:
  assumes "manager_commit now r c w l = Inr (ok, l')"
  obtains (missing) "prepare_record r c l = None" "\<not> ok" "l' = l"
  | (committed) s where "prepare_record r c l = Some s" "ok"
      "checkpoint_fields_ok (committed_of (sc_checkpoint s) now w)"
      "l' = appendCheckpoint (committed_of (sc_checkpoint s) now w) True l"
  using assms
  by (auto simp: manager_commit_def parse_checkpoint_def committed_of_def split: option.splits if_splits)

section \<open>The event chain\<close>

definition events_chained :: "(string \<Rightarrow> string) \<Rightarrow> stored_event list \<Rightarrow> bool" where
  \<comment> \<open>what a reader of the ledger can recompute: each hash covers the event and the hash
      before, and the numbers count the events\<close>
  "events_chained sha es \<longleftrightarrow>
     (\<forall>i < length es. sv_sequence (es ! i) = Suc i \<and>
        sv_event_hash (es ! i) =
          (let prev = if i = 0 then None else Some (sv_event_hash (es ! (i - 1)))
           in sha (event_payload (sv_event (es ! i)) prev @ getOr prev [])))"

lemma events_chained_snoc:
  assumes "events_chained sha es" and "sv_sequence e = Suc (length es)"
    and "sv_event_hash e = sha (event_payload (sv_event e) (last_event_hash es) @ getOr (last_event_hash es) [])"
  shows "events_chained sha (es @ [e])"
proof -
  have "last_event_hash es = (if length es = 0 then None else Some (sv_event_hash (es ! (length es - 1))))"
    by (simp add: last_event_hash_def last_conv_nth)
  then show ?thesis using assms
    by (auto simp: events_chained_def nth_append less_Suc_eq Let_def)
qed

definition event_log_ok :: "(string \<Rightarrow> string) \<Rightarrow> ledger \<Rightarrow> bool" where
  "event_log_ok sha l \<longleftrightarrow> lg_nextSequence l = length (lg_events l) \<and> events_chained sha (lg_events l)"

lemma event_log_append: "event_log_ok sha l \<Longrightarrow> event_log_ok sha (snd (ledger_append sha drawn e l))"
  by (auto simp: event_log_ok_def ledger_append_def Let_def intro!: events_chained_snoc)

lemma seal_events:
  "ledger_seal sha now s w l = Inr (ok, l') \<Longrightarrow> lg_events l' = lg_events l \<and> lg_nextSequence l' = lg_nextSequence l"
  by (auto simp: ledger_seal_def Let_def bindR_Inr_iff split: if_splits)

lemma append_checkpoints [simp]:
  "run_checkpoints r (snd (ledger_append sha drawn e l)) = run_checkpoints r l"
  by (simp add: run_checkpoints_def ledger_append_def Let_def)

lemma seal_checkpoints: "ledger_seal sha now s w l = Inr (ok, l') \<Longrightarrow> run_checkpoints r l' = run_checkpoints r l"
  by (auto simp: ledger_seal_def Let_def bindR_Inr_iff run_checkpoints_def split: if_splits)

text \<open>A step appends an event, seals without touching events and checkpoints, files a prepared
  or a committed checkpoint, or changes nothing.\<close>

lemma ledger_step_cases:
  obtains (same) "ledger_step sha op l = l"
  | (append) drawn e where "ledger_step sha op l = snd (ledger_append sha drawn e l)"
  | (seal) l' where "ledger_step sha op l = l'" "lg_events l' = lg_events l" "lg_nextSequence l' = lg_nextSequence l"
      "\<And>r. run_checkpoints r l' = run_checkpoints r l"
  | (prepare) now c r p snapshot res l' where "ledger_step sha op l = l'"
      "manager_prepare now c r p snapshot l = Inr (res, l')"
  | (commit) now c r w ok l' where "ledger_step sha op l = l'" "manager_commit now r c w l = Inr (ok, l')"
proof (cases op)
  case (LAppend drawn e)
  then show ?thesis using append by simp
next
  case (LSeal now s w)
  show ?thesis
  proof (cases "ledger_seal sha now s w l")
    case (Inr res)
    obtain ok l' where res: "res = (ok, l')" by fastforce
    show ?thesis
      by (rule seal [of l']) (use LSeal Inr res in \<open>auto simp: seal_checkpoints dest: seal_events\<close>)
  qed (use same LSeal in simp)
next
  case (LPrepare now c r p snapshot)
  then show ?thesis using prepare same
    by (cases "manager_prepare now c r p snapshot l") auto
next
  case (LCommit now r c w)
  then show ?thesis using commit same
    by (cases "manager_commit now r c w l") auto
qed

lemma checkpoint_step_events:
  "manager_prepare now c r p snapshot l = Inr (res, l') \<Longrightarrow>
     lg_events l' = lg_events l \<and> lg_nextSequence l' = lg_nextSequence l"
  "manager_commit now r c w l = Inr (ok, l') \<Longrightarrow>
     lg_events l' = lg_events l \<and> lg_nextSequence l' = lg_nextSequence l"
  by (auto elim!: manager_prepare_InrE manager_commit_InrE)

lemma event_log_step: "event_log_ok sha l \<Longrightarrow> event_log_ok sha (ledger_step sha op l)"
  by (rule ledger_step_cases [of sha op l])
    (auto simp: event_log_append event_log_ok_def [of sha l] event_log_ok_def [of sha "ledger_step sha op l"]
      dest: checkpoint_step_events event_log_append)

lemma events_grow: "\<exists>new. lg_events (ledger_step sha op l) = lg_events l @ new"
  by (rule ledger_step_cases [of sha op l])
    (auto simp: ledger_append_def Let_def dest: checkpoint_step_events)

lemma events_grow_fold: "\<exists>new. lg_events (fold (ledger_step sha) ops l) = lg_events l @ new"
proof (induction ops arbitrary: l)
  case (Cons op ops)
  obtain new1 where "lg_events (ledger_step sha op l) = lg_events l @ new1" using events_grow by blast
  moreover obtain new2 where "lg_events (fold (ledger_step sha) ops (ledger_step sha op l)) =
      lg_events (ledger_step sha op l) @ new2"
    using Cons by blast
  ultimately show ?case by simp
qed simp

text \<open>After any sequence of appends, seals, preparations and commits, the events of the
  ledger are numbered 1, 2, 3, ... and each event's hash is the hash of its payload chained
  with the hash of the event before it; and the log is append-only: what a prefix of the
  operations recorded is a prefix of what all of them record.\<close>

theorem ledger_events_chained:
  "events_chained sha (lg_events (ledger_run sha ops)) \<and>
   lg_nextSequence (ledger_run sha ops) = length (lg_events (ledger_run sha ops)) \<and>
   (\<exists>new. lg_events (ledger_run sha (ops @ later)) = lg_events (ledger_run sha ops) @ new)"
proof -
  have "event_log_ok sha empty_ledger" by (simp add: event_log_ok_def events_chained_def empty_ledger_def)
  then have "event_log_ok sha (ledger_run sha ops)" by (rule ledger_run_invariant) (rule event_log_step)
  then show ?thesis
    using events_grow_fold [of sha later "ledger_run sha ops"] by (simp add: event_log_ok_def ledger_run_def)
qed

section \<open>Two phases\<close>

definition two_phase :: "ledger \<Rightarrow> bool" where
  \<comment> \<open>every record is filed under its run, and a committed one is a prepared one of that run
      with the time and the witness filled in\<close>
  "two_phase l \<longleftrightarrow> (\<forall>r. \<forall>s \<in> set (run_checkpoints r l).
     rc_run_id (sc_checkpoint s) = r \<and> checkpoint_fields_ok (sc_checkpoint s) \<and>
     (if sc_is_committed s
      then \<exists>p \<in> set (run_checkpoints r l). \<not> sc_is_committed p \<and>
             (\<exists>now w. sc_checkpoint s = committed_of (sc_checkpoint p) now w)
      else rc_committed_at (sc_checkpoint s) = None))"

lemma two_phase_prepare:
  assumes "two_phase l" and "manager_prepare now c r p snapshot l = Inr (res, l')"
  shows "two_phase l'"
  using assms(2)
proof (rule manager_prepare_InrE)
  assume ok: "checkpoint_fields_ok (prepared_checkpoint now c r p snapshot l)"
    and l': "l' = appendCheckpoint (prepared_checkpoint now c r p snapshot l) False l"
  have "rc_run_id (prepared_checkpoint now c r p snapshot l) = r"
    "rc_committed_at (prepared_checkpoint now c r p snapshot l) = None"
    by (simp_all add: prepared_checkpoint_def)
  with ok assms(1) show ?thesis
    unfolding two_phase_def l' by (auto simp: Ball_def Bex_def) (metis+)
qed

lemma two_phase_commit:
  assumes "two_phase l" and "manager_commit now r c w l = Inr (ok, l')"
  shows "two_phase l'"
  using assms(2)
proof (cases rule: manager_commit_InrE)
  case (committed s)
  note s = prepare_record_SomeD [OF committed(1)]
  then have "rc_run_id (sc_checkpoint s) = r" using assms(1) unfolding two_phase_def by blast
  with s committed assms(1) show ?thesis
    unfolding two_phase_def by (auto simp: Ball_def Bex_def) (metis+)
qed (simp add: assms(1))

lemma two_phase_cong: "two_phase l \<Longrightarrow> (\<And>r. run_checkpoints r l' = run_checkpoints r l) \<Longrightarrow> two_phase l'"
  by (simp add: two_phase_def)

lemma two_phase_step: "two_phase l \<Longrightarrow> two_phase (ledger_step sha op l)"
  by (rule ledger_step_cases [of sha op l])
    (auto intro: two_phase_prepare two_phase_commit two_phase_cong simp del: ledger_step.simps)

section \<open>One checkpoint at a time\<close>

definition committed_list :: "string \<Rightarrow> ledger \<Rightarrow> recovery_checkpoint list" where
  "committed_list r l = map sc_checkpoint (filter sc_is_committed (run_checkpoints r l))"

lemma getCheckpoints_committed: "getCheckpoints r l = js_sort compareCommitted (committed_list r l)"
  by (simp add: getCheckpoints_def committed_list_def)

lemma committed_list_append [simp]:
  "committed_list r (appendCheckpoint c b l) =
     (if r = rc_run_id c \<and> b then committed_list r l @ [c] else committed_list r l)"
  by (simp add: committed_list_def)

definition last_hash :: "recovery_checkpoint list \<Rightarrow> string option" where
  "last_hash cs = (if cs = [] then None else Some (rc_state_vector_hash (last cs)))"

lemma last_hash_simps [simp]:
  "last_hash [] = None" "last_hash (cs @ [c]) = Some (rc_state_vector_hash c)"
  "last_hash [c] = Some (rc_state_vector_hash c)" "cs \<noteq> [] \<Longrightarrow> last_hash (c # cs) = last_hash cs"
  by (simp_all add: last_hash_def)

lemma chain_links_snoc:
  "chain_links prev (cs @ [c]) =
     (case chain_links prev cs of Some e \<Rightarrow> Some e
      | None \<Rightarrow> chain_links (if cs = [] then prev else last_hash cs) [c])"
proof (induction prev cs rule: chain_links.induct)
  case (2 prev d ds)
  then show ?case by (cases "ds = []") (auto split: option.splits)
qed simp

definition commit_sorted :: "nat \<Rightarrow> recovery_checkpoint list \<Rightarrow> bool" where
  "commit_sorted t cs \<longleftrightarrow> sorted (map (\<lambda>c. getOr (rc_committed_at c) 0) cs) \<and>
     (\<forall>c \<in> set cs. getOr (rc_committed_at c) 0 \<le> t)"

lemma commit_sorted_id: "commit_sorted t cs \<Longrightarrow> js_sort compareCommitted cs = cs"
  by (rule committed_cmp.js_sort_id)
    (auto simp: commit_sorted_def compareCommitted_def sorted_wrt_map)

lemma commit_sorted_snoc:
  "commit_sorted t cs \<Longrightarrow> t \<le> now \<Longrightarrow> rc_committed_at c = Some now \<Longrightarrow> commit_sorted now (cs @ [c])"
  by (auto simp: commit_sorted_def sorted_append intro: order_trans)

lemma commit_sorted_mono: "commit_sorted t cs \<Longrightarrow> t \<le> now \<Longrightarrow> commit_sorted now cs"
  by (auto simp: commit_sorted_def intro: order_trans)

lemma getLastCommitted_last:
  "getLastCommitted r l = (if getCheckpoints r l = [] then None else Some (last (getCheckpoints r l)))"
  by (simp add: getLastCommitted_def split: list.splits)

lemma getLastCommitted_sorted:
  "commit_sorted t (committed_list r l) \<Longrightarrow>
   map_option rc_state_vector_hash (getLastCommitted r l) = last_hash (committed_list r l)"
  by (auto simp: getLastCommitted_def getCheckpoints_committed commit_sorted_id last_hash_def split: list.splits)

text \<open>At most one preparation of a run is outstanding; it is committed, or given up, before
  the next. Identifiers are fresh and time does not run backwards. Runs interleave freely.\<close>

inductive disciplined :: "ledger \<Rightarrow> nat \<Rightarrow> (string \<Rightarrow> string option) \<Rightarrow> bool" where
  start: "disciplined empty_ledger 0 (\<lambda>r. None)"
| prepare: "\<lbrakk>disciplined l t pending; t \<le> now; pending r = None;
     c \<notin> (rc_checkpoint_id \<circ> sc_checkpoint) ` set (run_checkpoints r l);
     manager_prepare now c r p snapshot l = Inr (res, l')\<rbrakk> \<Longrightarrow> disciplined l' now (pending(r \<mapsto> c))"
| commit: "\<lbrakk>disciplined l t pending; t \<le> now; pending r = Some c;
     manager_commit now r c w l = Inr (ok, l')\<rbrakk> \<Longrightarrow> disciplined l' now (pending(r := None))"
| abandon: "disciplined l t pending \<Longrightarrow> disciplined l t (pending(r := None))"

definition chain_ok :: "ledger \<Rightarrow> nat \<Rightarrow> (string \<Rightarrow> string option) \<Rightarrow> bool" where
  "chain_ok l t pending \<longleftrightarrow> two_phase l \<and> (\<forall>r.
     commit_sorted t (committed_list r l) \<and> chain_links None (committed_list r l) = None \<and>
     (\<forall>c. pending r = Some c \<longrightarrow> (\<exists>s. prepare_record r c l = Some s \<and>
        rc_checkpoint_prev_hash (sc_checkpoint s) = last_hash (committed_list r l))))"

lemma chain_okD:
  assumes "chain_ok l t pending"
  shows "two_phase l" and "commit_sorted t (committed_list r l)" and "chain_links None (committed_list r l) = None"
    and "pending r = Some c \<Longrightarrow> \<exists>s. prepare_record r c l = Some s \<and>
      rc_checkpoint_prev_hash (sc_checkpoint s) = last_hash (committed_list r l)"
  using assms by (auto simp: chain_ok_def)

lemma prepare_record_append:
  "prepare_record r c (appendCheckpoint d b l) =
     (if r = rc_run_id d
      then case prepare_record r c l of Some s \<Rightarrow> Some s
           | None \<Rightarrow> if \<not> b \<and> rc_checkpoint_id d = c then Some \<lparr>sc_checkpoint = d, sc_is_committed = b\<rparr> else None
      else prepare_record r c l)"
proof -
  have "find P (xs @ [x]) = (case find P xs of Some s \<Rightarrow> Some s | None \<Rightarrow> if P x then Some x else None)"
    for P :: "stored_checkpoint \<Rightarrow> bool" and xs x
    by (induction xs) auto
  then show ?thesis by (simp add: prepare_record_def)
qed

lemma prepared_simps [simp]:
  "rc_run_id (prepared_checkpoint now c r p snapshot l) = r"
  "rc_checkpoint_id (prepared_checkpoint now c r p snapshot l) = c"
  "rc_state_vector_hash (prepared_checkpoint now c r p snapshot l) = sn_state_vector_hash snapshot"
  "rc_checkpoint_prev_hash (prepared_checkpoint now c r p snapshot l) =
     map_option rc_state_vector_hash (getLastCommitted r l)"
  by (simp_all add: prepared_checkpoint_def)

lemma fresh_prepare_record:
  assumes "c \<notin> (rc_checkpoint_id \<circ> sc_checkpoint) ` set (run_checkpoints r l)"
  shows "prepare_record r c l = None"
  using assms by (auto simp: prepare_record_def find_None_iff)

lemma chain_ok_prepare:
  assumes "chain_ok l t pending" and "t \<le> now"
    and "c \<notin> (rc_checkpoint_id \<circ> sc_checkpoint) ` set (run_checkpoints r l)"
    and "manager_prepare now c r p snapshot l = Inr (res, l')"
  shows "chain_ok l' now (pending(r \<mapsto> c))"
proof -
  note ok = chain_okD [OF assms(1)]
  from assms(4) have l': "l' = appendCheckpoint (prepared_checkpoint now c r p snapshot l) False l"
    by (rule manager_prepare_InrE)
  have "two_phase l'" using two_phase_prepare ok(1) assms(4) by blast
  moreover have "commit_sorted now (committed_list q l')" "chain_links None (committed_list q l') = None" for q
    using commit_sorted_mono ok(2,3) assms(2) by (auto simp: l')
  moreover have "\<exists>s. prepare_record q d l' = Some s \<and>
      rc_checkpoint_prev_hash (sc_checkpoint s) = last_hash (committed_list q l')"
    if "(pending(r \<mapsto> c)) q = Some d" for q d
  proof (cases "q = r")
    case True
    then show ?thesis using that fresh_prepare_record [OF assms(3)] getLastCommitted_sorted [OF ok(2)]
      by (simp add: l' prepare_record_append)
  next
    case False
    then show ?thesis using that ok(4) by (auto simp: l' prepare_record_append)
  qed
  ultimately show ?thesis by (simp add: chain_ok_def)
qed

lemma chain_links_one:
  "checkpoint_fields_ok c \<Longrightarrow> chain_links prev [c] =
     (if rc_checkpoint_prev_hash c = prev then None
      else if prev \<noteq> None then Some ''chain link mismatch'' else Some ''first checkpoint must have null prev_hash'')"
  by (auto simp: checkpoint_fields_ok_def)

lemma chain_links_extend:
  "chain_links None cs = None \<Longrightarrow> checkpoint_fields_ok c \<Longrightarrow>
   chain_links None (cs @ [c]) = None \<longleftrightarrow> rc_checkpoint_prev_hash c = last_hash cs"
  unfolding chain_links_snoc by (simp add: chain_links_one last_hash_def del: chain_links.simps)

lemma commit_prepared:
  assumes "prepare_record r c l = Some s" and "rc_run_id (sc_checkpoint s) = r"
    and "manager_commit now r c w l = Inr (ok, l')"
  shows "ok" and "checkpoint_fields_ok (committed_of (sc_checkpoint s) now w)"
    and "committed_list r l' = committed_list r l @ [committed_of (sc_checkpoint s) now w]"
    and "prepare_record q d l' = prepare_record q d l"
  using assms by (auto elim!: manager_commit_InrE simp: prepare_record_append split: option.splits)

lemma chain_ok_commit:
  assumes "chain_ok l t pending" and "t \<le> now" and "pending r = Some c"
    and "manager_commit now r c w l = Inr (ok, l')"
  shows "ok \<and> chain_ok l' now (pending(r := None)) \<and> last_hash (committed_list r l') =
     Some (rc_state_vector_hash (sc_checkpoint (the (prepare_record r c l))))"
proof -
  note inv = chain_okD [OF assms(1)]
  obtain s where s: "prepare_record r c l = Some s"
    and prev: "rc_checkpoint_prev_hash (sc_checkpoint s) = last_hash (committed_list r l)"
    using inv(4) assms(3) by blast
  let ?c = "committed_of (sc_checkpoint s) now w"
  from assms(4) s have ok: "ok" and fields: "checkpoint_fields_ok ?c" and l': "l' = appendCheckpoint ?c True l"
    by (auto elim!: manager_commit_InrE)
  have run: "rc_run_id (sc_checkpoint s) = r"
    using prepare_record_SomeD [OF s] inv(1) by (auto simp: two_phase_def)
  have "two_phase l'" using two_phase_commit inv(1) assms(4) by blast
  moreover have "commit_sorted now (committed_list q l')" for q
    using commit_sorted_mono [OF inv(2) assms(2)] commit_sorted_snoc [OF inv(2) assms(2)] by (auto simp: l')
  moreover have "chain_links None (committed_list q l') = None" for q
    using inv(3) [of r] inv(3) [of q] prev chain_links_one [OF fields]
    by (auto simp: l' run chain_links_snoc last_hash_def)
  moreover have "\<exists>s. prepare_record q d l' = Some s \<and>
      rc_checkpoint_prev_hash (sc_checkpoint s) = last_hash (committed_list q l')"
    if "(pending(r := None)) q = Some d" for q d
    using that inv(4) by (auto simp: l' prepare_record_append run split: if_splits)
  ultimately have "chain_ok l' now (pending(r := None))" by (simp add: chain_ok_def)
  with ok show ?thesis by (simp add: l' run s last_hash_def)
qed

lemma disciplined_chain_ok: "disciplined l t pending \<Longrightarrow> chain_ok l t pending"
proof (induction rule: disciplined.induct)
  case start
  show ?case by (simp add: chain_ok_def two_phase_def committed_list_def commit_sorted_def)
next
  case (prepare l t pending now r c p snapshot res l')
  then show ?case by (intro chain_ok_prepare)
next
  case (commit l t pending now r c w ok l')
  then show ?case using chain_ok_commit by blast
next
  case (abandon l t pending r)
  then show ?case by (auto simp: chain_ok_def)
qed

text \<open>C9: When the checkpoints of each run are prepared and committed one at a time, with fresh
  identifiers and a clock that does not run backwards, however the runs interleave and
  whichever preparations are given up, the chain of every run is valid; and a commit of the
  outstanding preparation never reports that the record is missing and becomes the last
  committed checkpoint of the run.\<close>

theorem disciplined_chain_valid:
  assumes "disciplined l t pending"
  shows "validateChain r l = None \<and>
    (pending r = Some c \<and> t \<le> now \<and> manager_commit now r c w l = Inr (ok, l') \<longrightarrow>
       ok \<and> validateChain r l' = None \<and>
       (\<exists>d. getLastCommitted r l' = Some d \<and> rc_committed_at d = Some now \<and> rc_checkpoint_id d = c))"
proof -
  have ok: "chain_ok l t pending" by (rule disciplined_chain_ok) fact
  note inv = chain_okD [OF ok]
  have valid: "validateChain r l = None"
    using inv(2,3) [of r] by (simp add: validateChain_def getCheckpoints_committed commit_sorted_id)
  {
    assume a: "pending r = Some c" "t \<le> now" "manager_commit now r c w l = Inr (ok, l')"
    note step = chain_ok_commit [OF ok a(2,1,3)]
    then have inv': "commit_sorted now (committed_list r l')" "chain_links None (committed_list r l') = None"
      using chain_okD(2,3) by blast+
    obtain s where s: "prepare_record r c l = Some s" using inv(4) a(1) by blast
    have "rc_run_id (sc_checkpoint s) = r"
      using prepare_record_SomeD [OF s] inv(1) by (auto simp: two_phase_def)
    with a(3) s have "committed_list r l' = committed_list r l @ [committed_of (sc_checkpoint s) now w]"
      by (auto elim!: manager_commit_InrE)
    with inv' s step have "ok \<and> validateChain r l' = None \<and>
        (\<exists>d. getLastCommitted r l' = Some d \<and> rc_committed_at d = Some now \<and> rc_checkpoint_id d = c)"
      using prepare_record_SomeD [OF s]
      by (auto simp: validateChain_def getCheckpoints_committed commit_sorted_id getLastCommitted_last)
  }
  with valid show ?thesis by blast
qed

text \<open>After any sequence of ledger operations every checkpoint that \<open>getCheckpoints\<close> offers
  for recovery belongs to that run, satisfies the schema and is a prepared record of the run
  with the commit time and the witness filled in: nothing is committed that was not prepared.
  A preparation alone changes the list of no run.\<close>

theorem only_prepared_committed:
  "(d \<in> set (getCheckpoints r (ledger_run sha ops)) \<longrightarrow>
     rc_run_id d = r \<and> checkpoint_fields_ok d \<and>
     (\<exists>p now w. \<lparr>sc_checkpoint = p, sc_is_committed = False\<rparr> \<in> set (run_checkpoints r (ledger_run sha ops)) \<and>
        rc_committed_at p = None \<and> d = committed_of p now w)) \<and>
   (manager_prepare now c q p snapshot l = Inr (res, l') \<longrightarrow> getCheckpoints r l' = getCheckpoints r l)"
proof -
  have "two_phase (ledger_run sha ops)"
    by (rule ledger_run_invariant) (simp_all add: two_phase_step, simp add: two_phase_def)
  moreover have "\<exists>s \<in> set (run_checkpoints r (ledger_run sha ops)). sc_is_committed s \<and> sc_checkpoint s = d"
    if "d \<in> set (getCheckpoints r (ledger_run sha ops))"
    using that by (auto simp: getCheckpoints_committed committed_list_def)
  moreover have "s = \<lparr>sc_checkpoint = sc_checkpoint s, sc_is_committed = False\<rparr>" if "\<not> sc_is_committed s"
    for s :: stored_checkpoint
    using that by (cases s) simp
  ultimately have "d \<in> set (getCheckpoints r (ledger_run sha ops)) \<longrightarrow>
     rc_run_id d = r \<and> checkpoint_fields_ok d \<and>
     (\<exists>p now w. \<lparr>sc_checkpoint = p, sc_is_committed = False\<rparr> \<in> set (run_checkpoints r (ledger_run sha ops)) \<and>
        rc_committed_at p = None \<and> d = committed_of p now w)"
    unfolding two_phase_def by metis
  then show ?thesis by (auto elim!: manager_prepare_InrE simp: getCheckpoints_committed)
qed

section \<open>Overlapping preparations\<close>

text \<open>If a run is prepared twice before a commit, committing both preparations in order
  makes the chain of the run invalid, unless the state hash of the first equals that of the
  checkpoint before: the second was linked to the checkpoint before the first.\<close>

theorem overlapping_prepares_break_chain:
  assumes "disciplined l t pending" and "pending r = None" and "t \<le> t1" and "t1 \<le> t2" and "t2 \<le> t3" and "t3 \<le> t4"
    and "manager_prepare t1 c1 r p s1 l = Inr (res1, l1)" and "manager_prepare t2 c2 r p s2 l1 = Inr (res2, l2)"
    and "c1 \<notin> (rc_checkpoint_id \<circ> sc_checkpoint) ` set (run_checkpoints r l)"
    and "c2 \<notin> (rc_checkpoint_id \<circ> sc_checkpoint) ` set (run_checkpoints r l)" and "c1 \<noteq> c2"
    and "manager_commit t3 r c1 w1 l2 = Inr (ok1, l3)" and "manager_commit t4 r c2 w2 l3 = Inr (ok2, l4)"
  shows "ok1 \<and> ok2 \<and> validateChain r l3 = None \<and>
    (validateChain r l4 = None \<longleftrightarrow>
       map_option rc_state_vector_hash (getLastCommitted r l) = Some (sn_state_vector_hash s1))"
proof -
  have ok: "chain_ok l t pending" by (rule disciplined_chain_ok) fact
  let ?d1 = "prepared_checkpoint t1 c1 r p s1 l" and ?d2 = "prepared_checkpoint t2 c2 r p s2 l1"
  let ?cs = "committed_list r l"
  have l1: "l1 = appendCheckpoint ?d1 False l" using assms(7) by (rule manager_prepare_InrE)
  have l2: "l2 = appendCheckpoint ?d2 False l1" using assms(8) by (rule manager_prepare_InrE)
  have last: "map_option rc_state_vector_hash (getLastCommitted r l) = last_hash ?cs"
    "map_option rc_state_vector_hash (getLastCommitted r l1) = last_hash ?cs"
    using getLastCommitted_sorted [OF chain_okD(2) [OF ok]] getLastCommitted_sorted [of t r l1] chain_okD(2) [OF ok]
    by (simp_all add: l1)
  have find: "prepare_record r c1 l = None" "prepare_record r c2 l = None"
    using fresh_prepare_record assms(9,10) by blast+
  have s1: "prepare_record r c1 l2 = Some \<lparr>sc_checkpoint = ?d1, sc_is_committed = False\<rparr>"
    and s2: "prepare_record r c2 l2 = Some \<lparr>sc_checkpoint = ?d2, sc_is_committed = False\<rparr>"
    using find assms(11) by (simp_all add: l1 l2 prepare_record_append)
  note 3 = commit_prepared [OF s1 _ assms(12), simplified]
  note 4 = commit_prepared [OF s2 [folded 3(4) [of r c2]] _ assms(13), simplified]
  define cs3 where "cs3 = ?cs @ [committed_of ?d1 t3 w1]"
  have cs: "committed_list r l3 = cs3" "committed_list r l4 = cs3 @ [committed_of ?d2 t4 w2]"
    using 3(3) 4(3) by (simp_all add: cs3_def l1 l2)
  have sorted3: "commit_sorted t3 cs3"
    unfolding cs3_def by (rule commit_sorted_snoc [OF chain_okD(2) [OF ok]]) (use assms in simp_all)
  have sorted4: "commit_sorted t4 (cs3 @ [committed_of ?d2 t4 w2])"
    by (rule commit_sorted_snoc [OF sorted3]) (use assms in simp_all)
  have valid3: "chain_links None cs3 = None"
    unfolding cs3_def using chain_links_extend [OF chain_okD(3) [OF ok] 3(2)] last by simp
  have "chain_links None (cs3 @ [committed_of ?d2 t4 w2]) = None \<longleftrightarrow> last_hash ?cs = Some (sn_state_vector_hash s1)"
    using chain_links_extend [OF valid3 4(2)] last by (simp add: cs3_def)
  with 3(1) 4(1) valid3 sorted3 sorted4 last show ?thesis
    by (simp add: validateChain_def getCheckpoints_committed commit_sorted_id cs)
qed

section \<open>A run of the protocol\<close>

definition sample_hash :: "char \<Rightarrow> string" where
  "sample_hash c = replicate 64 c"

lemma recovery_hash_sample [simp]: "c \<in> set ''0123456789abcdef'' \<Longrightarrow> recovery_hash (sample_hash c)"
  by (simp add: recovery_hash_def sample_hash_def list_all_iff)

lemma sample_hash_eq [simp]: "sample_hash c = sample_hash d \<longleftrightarrow> c = d"
  by (simp add: sample_hash_def)

definition sample_snapshot :: "char \<Rightarrow> checkpoint_snapshot" where
  "sample_snapshot c = \<lparr>sn_domain_scope = StepDomain, sn_state_vector_hash = sample_hash c, sn_policy_epoch = ''epoch'',
     sn_scheduler_cursor = ''cursor'', sn_tool_side_effect_journal_hwm = 0, sn_memory_write_journal_hwm = 0,
     sn_idempotency_key_set_hash = sample_hash CHR ''0''\<rparr>"

lemmas protocol_simps = manager_prepare_def manager_commit_def prepare_record_append parse_checkpoint_def
  checkpoint_fields_ok_def prepared_checkpoint_def sample_snapshot_def getLastCommitted_last
  getCheckpoints_committed committed_list_append

lemma empty_ledger_queries [simp]:
  "prepare_record r c empty_ledger = None" "committed_list r empty_ledger = []"
  "getCheckpoints r empty_ledger = []" "getLastCommitted r empty_ledger = None"
  by (simp_all add: prepare_record_def committed_list_def getCheckpoints_committed getLastCommitted_last)

definition ledger_prepared :: ledger where
  "ledger_prepared = appendCheckpoint (prepared_checkpoint 1 ''c1'' ''run'' ''p'' (sample_snapshot CHR ''a'') empty_ledger) False empty_ledger"

lemma ledger_prepared_steps:
  "manager_prepare 1 ''c1'' ''run'' ''p'' (sample_snapshot CHR ''a'') empty_ledger =
     Inr (\<lparr>pp_success = True, pp_checkpoint_id = Some ''c1''\<rparr>, ledger_prepared)"
  by (simp add: protocol_simps ledger_prepared_def)

lemma ledger_prepared_disciplined: "disciplined ledger_prepared 1 [''run'' \<mapsto> ''c1'']"
  by (rule disciplined.prepare [OF disciplined.start _ _ _ ledger_prepared_steps]) simp_all

theorem disciplined_chain_valid_witness:
  "validateChain ''run'' ledger_prepared = None \<and>
   (\<exists>l'. manager_commit 2 ''run'' ''c1'' ''w'' ledger_prepared = Inr (True, l') \<and> validateChain ''run'' l' = None)"
proof -
  have "\<exists>l'. manager_commit 2 ''run'' ''c1'' ''w'' ledger_prepared = Inr (True, l')"
    by (simp add: protocol_simps ledger_prepared_def)
  then show ?thesis using disciplined_chain_valid [OF ledger_prepared_disciplined, of "''run''" "''c1''" 2 "''w''"] by auto
qed

theorem only_prepared_committed_witness:
  "let ops = [LPrepare 1 ''c1'' ''run'' ''p'' (sample_snapshot CHR ''a''), LCommit 2 ''run'' ''c1'' ''w'']
   in \<exists>d. getCheckpoints ''run'' (ledger_run id ops) = [d] \<and> checkpoint_fields_ok d"
proof -
  let ?ops = "[LPrepare 1 ''c1'' ''run'' ''p'' (sample_snapshot CHR ''a''), LCommit 2 ''run'' ''c1'' ''w'']"
  obtain d where d: "getCheckpoints ''run'' (ledger_run id ?ops) = [d]"
    using ledger_prepared_steps by (simp add: ledger_run_def) (simp add: protocol_simps ledger_prepared_def)
  with only_prepared_committed [of d "''run''" id ?ops] show ?thesis by auto
qed

theorem overlapping_prepares_break_chain_witness:
  "\<exists>l1 l2 l3 l4.
     manager_prepare 1 ''c1'' ''run'' ''p'' (sample_snapshot CHR ''a'') empty_ledger = Inr (\<lparr>pp_success = True, pp_checkpoint_id = Some ''c1''\<rparr>, l1) \<and>
     manager_prepare 2 ''c2'' ''run'' ''p'' (sample_snapshot CHR ''b'') l1 = Inr (\<lparr>pp_success = True, pp_checkpoint_id = Some ''c2''\<rparr>, l2) \<and>
     manager_commit 3 ''run'' ''c1'' ''w'' l2 = Inr (True, l3) \<and> manager_commit 4 ''run'' ''c2'' ''w'' l3 = Inr (True, l4) \<and>
     validateChain ''run'' l3 = None \<and> validateChain ''run'' l4 \<noteq> None"
proof -
  obtain l2 where 2: "manager_prepare 2 ''c2'' ''run'' ''p'' (sample_snapshot CHR ''b'') ledger_prepared =
      Inr (\<lparr>pp_success = True, pp_checkpoint_id = Some ''c2''\<rparr>, l2)"
    by (simp add: protocol_simps ledger_prepared_def)
  obtain l3 where 3: "manager_commit 3 ''run'' ''c1'' ''w'' l2 = Inr (True, l3)"
    using 2 by (auto simp: protocol_simps ledger_prepared_def)
  obtain l4 where 4: "manager_commit 4 ''run'' ''c2'' ''w'' l3 = Inr (True, l4)"
    using 2 3 by (auto simp: protocol_simps ledger_prepared_def)
  show ?thesis
    using ledger_prepared_steps 2 3 4 overlapping_prepares_break_chain [OF disciplined.start _ _ _ _ _
      ledger_prepared_steps 2 _ _ _ 3 4] by auto
qed

section \<open>Outcome of recovery\<close>

definition run_recovery :: "string \<Rightarrow> failure_class \<Rightarrow> ledger \<Rightarrow> terminal_state" where
  \<comment> \<open>the orchestrator over the ledger's checkpoint manager and the two policy evaluators\<close>
  "run_recovery r failureClass l = orchestrate
     \<lparr>rx_run_id = r, rx_failure_class = failureClass, rx_validateChain = \<lambda>q. validateChain q l,
      rx_getLastCommitted = \<lambda>q. getLastCommitted q l, rx_retry = evaluate_retry, rx_rollback = evaluate_rollback\<rparr>"

text \<open>With the ledger's manager and the two policy evaluators, recovery of a run completes
  exactly when the run has a committed checkpoint, its chain is valid and the failure is
  transient; it stops hard exactly when nothing was committed; everything else is a review.
  Attempt count, idempotency evidence, operation class and side effects have no influence:
  the orchestrator passes fixed values to the policies.\<close>

theorem recovery_outcome:
  "run_recovery r failureClass l =
     (if getCheckpoints r l = [] then RecoveryFailedHardStop
      else if validateChain r l = None \<and> failureClass = FcRetryableTransient then RecoveryCompleted
      else RecoveryBlockedReviewRequired)"
proof -
  have "validateChain r l = None" if "getCheckpoints r l = []" using that by (simp add: validateChain_def)
  then show ?thesis
    by (auto simp: run_recovery_def orchestrate_def getLastCommitted_last evaluate_retry_def
        evaluate_rollback_def Let_def)
qed

end
