(* ===== verification/Checkpoint_Runtime.thy ===== *)
theory Checkpoint_Runtime
  imports Coordinator Recovery_Properties
begin

text \<open>
  \<open>self/subcortex/workflows/src/checkpoint-runtime.ts\<close>: how the workflow engine prepares and
  commits a checkpoint around a node. The manager it calls is a parameter; the locale
  \<open>checkpoint_protocol\<close> says what the engine relies on, and the recovery manager, run over the
  calls made so far, is an instance of it.
\<close>

section \<open>Capture and commit\<close>

record capture_result =
  cc_checkpointState :: checkpoint_state
  cc_checkpointId :: "string option"
  cc_lastPreparedCheckpointId :: "string option"
  cc_lastCommittedCheckpointId :: "string option"

record commit_result =
  cw_committed :: bool
  cw_checkpointState :: checkpoint_state
  cw_checkpointId :: "string option"
  cw_lastPreparedCheckpointId :: "string option"
  cw_lastCommittedCheckpointId :: "string option"

definition node_snapshot :: "(string \<Rightarrow> string) \<Rightarrow> string \<Rightarrow> string \<Rightarrow> checkpoint_snapshot" where
  "node_snapshot sha256 runId nodeDefinitionId =
     \<lparr>sn_domain_scope = ProjectRunDomain,
      sn_state_vector_hash = sha256 (runId @ '':'' @ nodeDefinitionId @ '':state''),
      sn_policy_epoch = ''workflow-runtime-v1'',
      sn_scheduler_cursor = ''workflow-node:'' @ nodeDefinitionId,
      sn_tool_side_effect_journal_hwm = 1, sn_memory_write_journal_hwm = 0,
      sn_idempotency_key_set_hash = sha256 (runId @ '':'' @ nodeDefinitionId @ '':idempotency'')\<rparr>"

definition captured :: "checkpoint_state \<Rightarrow> string option \<Rightarrow> string option \<Rightarrow> capture_result" where
  "captured st prepared committed =
     \<lparr>cc_checkpointState = st, cc_checkpointId = prepared, cc_lastPreparedCheckpointId = prepared,
      cc_lastCommittedCheckpointId = committed\<rparr>"

definition captureWorkflowCheckpoint ::
  "services \<Rightarrow> run_state \<Rightarrow> string \<Rightarrow> effect_status \<Rightarrow> commit_mode option \<Rightarrow> capture_result io" where
  "captureWorkflowCheckpoint sv runState nodeDefinitionId effect commitMode =
     (case sv_checkpoints sv of
        None \<Rightarrow> returnIO (captured CkIdle None None)
      | Some manager \<Rightarrow>
          if effect = EfNone then returnIO (captured CkIdle None None)
          else
            (let runId = rs_runId runState; projectId = rs_projectId runState;
                 snapshot = node_snapshot (sv_sha256 sv) runId nodeDefinitionId
             in bindIO (invoke (CallPrepare runId projectId snapshot) (\<lambda>calls. cm_prepare manager calls runId projectId snapshot))
               (\<lambda>prepared.
                  if \<not> pp_success prepared \<or> \<not> truthy (pp_checkpoint_id prepared)
                  then returnIO (captured CkPreparePending None None)
                  else if commitMode = Some CommitDeferred
                  then returnIO (captured CkCommitPending (pp_checkpoint_id prepared) None)
                  else
                    (let checkpointId = getOr (pp_checkpoint_id prepared) [];
                         witness = ''workflow:'' @ runId @ '':'' @ nodeDefinitionId
                     in bindIO (invoke (CallCommit runId checkpointId witness) (\<lambda>calls. cm_commit manager calls runId checkpointId witness))
                       (\<lambda>committed.
                          if \<not> committed then returnIO (captured CkCommitPending (pp_checkpoint_id prepared) None)
                          else returnIO (captured CkIdle (pp_checkpoint_id prepared) (pp_checkpoint_id prepared)))))))"

definition commitWorkflowCheckpoint ::
  "services \<Rightarrow> run_state \<Rightarrow> string option \<Rightarrow> string option \<Rightarrow> commit_result io" where
  "commitWorkflowCheckpoint sv runState checkpointId witnessRef =
     (let cid = orElse checkpointId (orElse (rs_lastPreparedCheckpointId runState) (rs_lastCommittedCheckpointId runState));
          unchanged = \<lparr>cw_committed = False, cw_checkpointState = rs_checkpointState runState, cw_checkpointId = cid,
            cw_lastPreparedCheckpointId = rs_lastPreparedCheckpointId runState,
            cw_lastCommittedCheckpointId = rs_lastCommittedCheckpointId runState\<rparr>
      in case sv_checkpoints sv of
           None \<Rightarrow> returnIO unchanged
         | Some manager \<Rightarrow>
             if \<not> truthy cid then returnIO unchanged
             else
               (let runId = rs_runId runState; c = getOr cid [];
                    witness = getOr witnessRef (''workflow:'' @ runId @ '':resume'');
                    prepared = orElse (rs_lastPreparedCheckpointId runState) cid
                in bindIO (invoke (CallCommit runId c witness) (\<lambda>calls. cm_commit manager calls runId c witness))
                  (\<lambda>committed. returnIO
                     (if committed then unchanged\<lparr>cw_committed := True, cw_checkpointState := CkIdle,
                        cw_lastPreparedCheckpointId := prepared, cw_lastCommittedCheckpointId := cid\<rparr>
                      else unchanged\<lparr>cw_checkpointState := CkCommitPending, cw_lastPreparedCheckpointId := prepared\<rparr>))))"

section \<open>What the runtime relies on\<close>

text \<open>A manager answers from the calls made so far. It commits what it has prepared for the
  same run, if a witness is named, and nothing else.\<close>

locale checkpoint_protocol =
  fixes prepare :: "call list \<Rightarrow> string \<Rightarrow> string \<Rightarrow> checkpoint_snapshot \<Rightarrow> prepare_result result"
    and commit :: "call list \<Rightarrow> string \<Rightarrow> string \<Rightarrow> string \<Rightarrow> bool result"
  assumes prepare_names: "prepare calls r p s = Inr res \<Longrightarrow> pp_success res \<and> truthy (pp_checkpoint_id res)"
    and commit_prepared: "prepare calls r p s = Inr res \<Longrightarrow> pp_checkpoint_id res = Some c \<Longrightarrow> w \<noteq> [] \<Longrightarrow>
      commit (calls @ CallPrepare r p s # later) r c w = Inr True"
    and commit_only_prepared: "commit calls r c w = Inr True \<Longrightarrow>
      \<exists>earlier p s later res. calls = earlier @ CallPrepare r p s # later \<and> prepare earlier r p s = Inr res \<and>
        pp_checkpoint_id res = Some c"
begin

definition service :: checkpoint_service where
  "service = \<lparr>cm_prepare = prepare, cm_commit = commit\<rparr>"

lemma capture_result:
  assumes "sv_checkpoints sv = Some service" and "effect \<noteq> EfNone"
    and "captureWorkflowCheckpoint sv s n effect mode calls = (Inr res, calls')"
  shows "\<exists>c snapshot ans. prepare calls (rs_runId s) (rs_projectId s) snapshot = Inr ans \<and>
    pp_checkpoint_id ans = Some c \<and> c \<noteq> [] \<and>
    (if mode = Some CommitDeferred
     then res = captured CkCommitPending (Some c) None \<and> calls' = calls @ [CallPrepare (rs_runId s) (rs_projectId s) snapshot]
     else res = captured CkIdle (Some c) (Some c))"
proof -
  let ?snapshot = "node_snapshot (sv_sha256 sv) (rs_runId s) n"
  obtain ans where ans: "prepare calls (rs_runId s) (rs_projectId s) ?snapshot = Inr ans"
    using assms by (auto simp: captureWorkflowCheckpoint_def service_def Let_def io_simps split: sum.splits)
  obtain c where c: "pp_success ans" "pp_checkpoint_id ans = Some c" "c \<noteq> []"
    using prepare_names [OF ans] by (auto simp: truthy_def split: option.splits)
  have "commit (calls @ [CallPrepare (rs_runId s) (rs_projectId s) ?snapshot]) (rs_runId s) c w = Inr True"
    if "w \<noteq> []" for w
    using commit_prepared [OF ans c(2) that] by simp
  with assms ans c show ?thesis
    by (auto simp: captureWorkflowCheckpoint_def service_def Let_def io_simps split: if_splits)
qed

lemma deferred_commit:
  assumes "sv_checkpoints sv = Some service" and "effect \<noteq> EfNone"
    and "captureWorkflowCheckpoint sv s n effect (Some CommitDeferred) calls = (Inr res, calls')"
    and "rs_runId t = rs_runId s" and "witnessRef \<noteq> Some []"
  shows "\<exists>res2. commitWorkflowCheckpoint sv t (cc_checkpointId res) witnessRef (calls' @ later) =
      (Inr res2, calls' @ later @ [CallCommit (rs_runId s) (getOr (cc_checkpointId res) [])
         (getOr witnessRef (''workflow:'' @ rs_runId s @ '':resume''))]) \<and>
    cw_committed res2 \<and> cw_checkpointState res2 = CkIdle \<and> cw_lastCommittedCheckpointId res2 = cc_checkpointId res"
proof -
  obtain c snapshot ans where ans: "prepare calls (rs_runId s) (rs_projectId s) snapshot = Inr ans"
      "pp_checkpoint_id ans = Some c" "c \<noteq> []" "res = captured CkCommitPending (Some c) None"
      "calls' = calls @ [CallPrepare (rs_runId s) (rs_projectId s) snapshot]"
    using capture_result [OF assms(1-3)] by auto
  have "getOr witnessRef (''workflow:'' @ rs_runId s @ '':resume'') \<noteq> []"
    using assms(5) by (cases witnessRef) auto
  from commit_prepared [OF ans(1,2) this] ans show ?thesis
    by (simp add: commitWorkflowCheckpoint_def assms(1,4) service_def captured_def Let_def io_simps)
qed

lemma commit_only_captured:
  assumes "sv_checkpoints sv = Some service"
    and "commitWorkflowCheckpoint sv s cid witnessRef calls = (Inr res, calls')" and "cw_committed res"
  shows "\<exists>p snapshot. CallPrepare (rs_runId s) p snapshot \<in> set calls"
  using assms(2,3) commit_only_prepared
  by (fastforce simp: commitWorkflowCheckpoint_def assms(1) service_def Let_def io_simps
      split: if_splits sum.splits)

end

section \<open>The recovery manager over the calls\<close>

text \<open>The \<open>i\<close>-th call is made at time \<open>i\<close> and draws the identifier \<open>ids i\<close>.\<close>

fun replay_from :: "(nat \<Rightarrow> string) \<Rightarrow> nat \<Rightarrow> call list \<Rightarrow> ledger \<Rightarrow> ledger" where
  "replay_from ids i [] l = l"
| "replay_from ids i (c # cs) l = replay_from ids (Suc i) cs
     (case c of
        CallPrepare r p s \<Rightarrow> ledger_step id (LPrepare i (ids i) r p s) l
      | CallCommit r k w \<Rightarrow> ledger_step id (LCommit i r k w) l
      | _ \<Rightarrow> l)"

definition replay :: "(nat \<Rightarrow> string) \<Rightarrow> call list \<Rightarrow> ledger" where
  "replay ids calls = replay_from ids 0 calls empty_ledger"

definition ledger_prepare :: "(nat \<Rightarrow> string) \<Rightarrow> call list \<Rightarrow> string \<Rightarrow> string \<Rightarrow> checkpoint_snapshot \<Rightarrow> prepare_result result" where
  "ledger_prepare ids calls r p s =
     map_sum id fst (manager_prepare (length calls) (ids (length calls)) r p s (replay ids calls))"

definition ledger_commit :: "(nat \<Rightarrow> string) \<Rightarrow> call list \<Rightarrow> string \<Rightarrow> string \<Rightarrow> string \<Rightarrow> bool result" where
  "ledger_commit ids calls r c w = map_sum id fst (manager_commit (length calls) r c w (replay ids calls))"

text \<open>A preparation stays in the ledger; a commit finds it.\<close>

lemma replay_from_append:
  "replay_from ids i (cs @ ds) l = replay_from ids (i + length cs) ds (replay_from ids i cs l)"
  by (induction ids i cs l rule: replay_from.induct) simp_all

lemma replay_snoc_prepare:
  "ledger_prepare ids calls r p s = Inr res \<Longrightarrow>
   \<exists>l'. manager_prepare (length calls) (ids (length calls)) r p s (replay ids calls) = Inr (res, l') \<and>
     replay ids (calls @ [CallPrepare r p s]) = l'"
  by (cases "manager_prepare (length calls) (ids (length calls)) r p s (replay ids calls)")
    (auto simp: ledger_prepare_def replay_def replay_from_append)

lemma ledger_prepare_names:
  "ledger_prepare ids calls r p s = Inr res \<Longrightarrow> pp_success res \<and> pp_checkpoint_id res = Some (ids (length calls))"
  by (auto dest!: replay_snoc_prepare elim!: manager_prepare_InrE)

lemma prepare_record_step:
  assumes "prepare_record r c l = Some s"
  shows "prepare_record r c (ledger_step sha op l) = Some s"
proof (rule ledger_step_cases [of sha op l])
  fix l' assume "ledger_step sha op l = l'" "\<And>r. run_checkpoints r l' = run_checkpoints r l"
  then show ?thesis using assms by (simp add: prepare_record_def)
next
  fix drawn e assume "ledger_step sha op l = snd (ledger_append sha drawn e l)"
  then show ?thesis using assms by (simp add: prepare_record_def)
qed (use assms in \<open>auto elim!: manager_prepare_InrE manager_commit_InrE simp: prepare_record_append\<close>)

lemma prepare_record_replay_from:
  "prepare_record r c l = Some s \<Longrightarrow> prepare_record r c (replay_from ids i cs l) = Some s"
proof (induction ids i cs l rule: replay_from.induct)
  case (2 ids i k cs l)
  have "prepare_record r c (case k of CallPrepare r p s \<Rightarrow> ledger_step id (LPrepare i (ids i) r p s) l
      | CallCommit r k w \<Rightarrow> ledger_step id (LCommit i r k w) l | _ \<Rightarrow> l) = Some s"
    using 2(2) prepare_record_step by (cases k) (simp_all del: ledger_step.simps)
  then show ?case using 2(1) by simp
qed simp

definition prepared_in :: "(nat \<Rightarrow> string) \<Rightarrow> call list \<Rightarrow> string \<Rightarrow> string \<Rightarrow> bool" where
  "prepared_in ids calls r c \<longleftrightarrow> (\<exists>earlier p s later res. calls = earlier @ CallPrepare r p s # later \<and>
     ledger_prepare ids earlier r p s = Inr res \<and> pp_checkpoint_id res = Some c)"

lemma prepare_record_replay:
  "prepare_record r c (replay ids calls) \<noteq> None \<Longrightarrow> prepared_in ids calls r c"
proof (induction calls rule: rev_induct)
  case (snoc k calls)
  have mono: "prepared_in ids (calls @ [k]) r c" if "prepared_in ids calls r c"
    using that unfolding prepared_in_def by fastforce
  have replay: "replay ids (calls @ [k]) = (case k of
        CallPrepare r p s \<Rightarrow> ledger_step id (LPrepare (length calls) (ids (length calls)) r p s) (replay ids calls)
      | CallCommit r k w \<Rightarrow> ledger_step id (LCommit (length calls) r k w) (replay ids calls)
      | _ \<Rightarrow> replay ids calls)"
    by (cases k) (simp_all add: replay_def replay_from_append)
  show ?case
  proof (cases k)
    case (CallPrepare q p s)
    show ?thesis
    proof (cases "manager_prepare (length calls) (ids (length calls)) q p s (replay ids calls)")
      case (Inr res)
      obtain ans l' where res: "res = (ans, l')" by fastforce
      show ?thesis
      proof (cases "prepare_record r c (replay ids calls)")
        case None
        with snoc.prems replay CallPrepare Inr res have "r = q" "c = ids (length calls)"
          by (auto elim!: manager_prepare_InrE simp: prepare_record_append split: if_splits)
        moreover have "ledger_prepare ids calls q p s = Inr ans" by (simp add: ledger_prepare_def Inr res)
        ultimately show ?thesis
          unfolding prepared_in_def CallPrepare using ledger_prepare_names by blast
      qed (use snoc mono in simp)
    qed (use snoc replay CallPrepare mono in simp)
  next
    case (CallCommit q d w)
    have "prepare_record r c (ledger_step id (LCommit (length calls) q d w) (replay ids calls)) =
        prepare_record r c (replay ids calls)"
      by (auto elim!: manager_commit_InrE simp: prepare_record_append split: sum.splits option.splits)
    then show ?thesis using snoc replay CallCommit mono by simp
  qed (use snoc replay mono in auto)
qed (simp add: replay_def)

lemma prepared_fields:
  assumes "two_phase l" and "prepare_record r c l = Some s"
  shows "checkpoint_fields_ok (sc_checkpoint s)"
  using assms prepare_record_SomeD [OF assms(2)] by (auto simp: two_phase_def)

lemma two_phase_replay_from: "two_phase l \<Longrightarrow> two_phase (replay_from ids i cs l)"
proof (induction ids i cs l rule: replay_from.induct)
  case (2 ids i k cs l)
  have "two_phase (case k of CallPrepare r p s \<Rightarrow> ledger_step id (LPrepare i (ids i) r p s) l
      | CallCommit r k w \<Rightarrow> ledger_step id (LCommit i r k w) l | _ \<Rightarrow> l)"
    using 2(2) by (cases k) (auto intro: two_phase_step simp del: ledger_step.simps)
  then show ?case using 2(1) by simp
qed simp

lemma two_phase_replay: "two_phase (replay ids calls)"
  unfolding replay_def by (rule two_phase_replay_from) (simp add: two_phase_def)

interpretation recovery: checkpoint_protocol "ledger_prepare (\<lambda>n. ''cp-'' @ ids n)" "ledger_commit (\<lambda>n. ''cp-'' @ ids n)"
  for ids
proof
  fix calls r p s res
  let ?ids = "\<lambda>n. ''cp-'' @ ids n"
  assume prep: "ledger_prepare ?ids calls r p s = Inr res"
  then show "pp_success res \<and> truthy (pp_checkpoint_id res)"
    using ledger_prepare_names by (fastforce simp: truthy_def)
  fix c w :: string and later
  assume c: "pp_checkpoint_id res = Some c" and w: "w \<noteq> []"
  obtain l' where l': "manager_prepare (length calls) (?ids (length calls)) r p s (replay ?ids calls) = Inr (res, l')"
      "replay ?ids (calls @ [CallPrepare r p s]) = l'"
    using replay_snoc_prepare [OF prep] by blast
  have "prepare_record r c l' \<noteq> None"
    using l'(1) c by (auto elim!: manager_prepare_InrE simp: prepare_record_append split: option.splits)
  then obtain q where q: "prepare_record r c (replay ?ids (calls @ CallPrepare r p s # later)) = Some q"
    using prepare_record_replay_from [of r c l'] l'(2) replay_from_append [of ?ids 0 "calls @ [CallPrepare r p s]" later]
    by (fastforce simp: replay_def)
  have "checkpoint_fields_ok (committed_of (sc_checkpoint q) (length calls + Suc (length later)) w)"
    using prepared_fields [OF two_phase_replay q] w by (simp add: checkpoint_fields_ok_def committed_of_def)
  with q show "ledger_commit ?ids (calls @ CallPrepare r p s # later) r c w = Inr True"
    by (simp add: ledger_commit_def manager_commit_def parse_checkpoint_def committed_of_def)
next
  fix calls r c w
  let ?ids = "\<lambda>n. ''cp-'' @ ids n"
  assume "ledger_commit ?ids calls r c w = Inr True"
  then have "prepare_record r c (replay ?ids calls) \<noteq> None"
    by (auto simp: ledger_commit_def manager_commit_def split: option.splits sum.splits)
  then show "\<exists>earlier p s later res. calls = earlier @ CallPrepare r p s # later \<and>
      ledger_prepare ?ids earlier r p s = Inr res \<and> pp_checkpoint_id res = Some c"
    using prepare_record_replay unfolding prepared_in_def by blast
qed


section \<open>Checkpoints of a run\<close>

definition recovery_service :: "(nat \<Rightarrow> string) \<Rightarrow> checkpoint_service" where
  \<comment> \<open>the recovery manager, its identifiers non-empty as \<open>randomUUID\<close> gives them\<close>
  "recovery_service ids =
     \<lparr>cm_prepare = ledger_prepare (\<lambda>n. ''cp-'' @ ids n), cm_commit = ledger_commit (\<lambda>n. ''cp-'' @ ids n)\<rparr>"

lemma recovery_service_eq: "recovery_service ids = recovery.service ids"
  unfolding recovery_service_def recovery.service_def ..

text \<open>C12: Over the recovery manager, a capture that returns names a checkpoint unless the node
  had no side effect, and is committed at once unless deferring was asked for. A deferred
  capture leaves the commit pending, and whatever is called in between, a later commit of the
  named checkpoint for that run succeeds, makes the run idle and makes it the run's last
  committed checkpoint.\<close>

theorem deferred_checkpoint_completes:
  assumes "sv_checkpoints sv = Some (recovery_service ids)" and "effect \<noteq> EfNone"
    and "captureWorkflowCheckpoint sv s n effect mode calls = (Inr res, calls1)"
    and "rs_runId t = rs_runId s" and "witnessRef \<noteq> Some []"
  shows "(mode \<noteq> Some CommitDeferred \<longrightarrow>
      (\<exists>c. c \<noteq> [] \<and> res = captured CkIdle (Some c) (Some c))) \<and>
    (mode = Some CommitDeferred \<longrightarrow> (\<exists>c res2 calls2. c \<noteq> [] \<and> res = captured CkCommitPending (Some c) None \<and>
      commitWorkflowCheckpoint sv t (cc_checkpointId res) witnessRef (calls1 @ later) = (Inr res2, calls2) \<and>
      cw_committed res2 \<and> cw_checkpointState res2 = CkIdle \<and> cw_lastCommittedCheckpointId res2 = Some c))"
proof (cases "mode = Some CommitDeferred")
  case True
  from recovery.deferred_commit [OF assms(1) [unfolded recovery_service_eq] assms(2) assms(3) [unfolded True] assms(4,5)]
    recovery.capture_result [OF assms(1) [unfolded recovery_service_eq] assms(2,3)]
  show ?thesis by (fastforce simp: True captured_def)
next
  case False
  then show ?thesis
    using recovery.capture_result [OF assms(1) [unfolded recovery_service_eq] assms(2,3)] by auto
qed

definition checkpoint_services :: services where
  "checkpoint_services = no_services\<lparr>sv_checkpoints := Some (recovery_service show_nat),
     sv_sha256 := (\<lambda>text. sample_hash CHR ''a'')\<rparr>"

lemma sample_prepare:
  "\<exists>l'. manager_prepare t c r p (node_snapshot (sv_sha256 checkpoint_services) r n) empty_ledger =
     Inr (\<lparr>pp_success = True, pp_checkpoint_id = Some c\<rparr>, l')"
  by (simp add: protocol_simps node_snapshot_def checkpoint_services_def)

lemma sample_capture:
  "\<exists>res calls1. captureWorkflowCheckpoint checkpoint_services s ''a'' EfIdempotent (Some CommitDeferred) [] = (Inr res, calls1)"
  using sample_prepare [of 0 "''cp-'' @ show_nat 0" "rs_runId s" "rs_projectId s" "''a''"]
  by (auto simp: captureWorkflowCheckpoint_def checkpoint_services_def recovery_service_def ledger_prepare_def
      replay_def io_simps Let_def truthy_def)

theorem deferred_checkpoint_completes_witness:
  "let s = initial_run_state sample_env (sample_input diamond_graph) in
   \<exists>res calls1 res2 calls2.
     captureWorkflowCheckpoint checkpoint_services s ''a'' EfIdempotent (Some CommitDeferred) [] = (Inr res, calls1) \<and>
     cc_checkpointState res = CkCommitPending \<and>
     commitWorkflowCheckpoint checkpoint_services s (cc_checkpointId res) (Some ''w'') (calls1 @ [CallTool ''t'' JNull ''p'']) =
       (Inr res2, calls2) \<and> cw_committed res2"
proof -
  let ?s = "initial_run_state sample_env (sample_input diamond_graph)"
  obtain res calls1 where cap:
    "captureWorkflowCheckpoint checkpoint_services ?s ''a'' EfIdempotent (Some CommitDeferred) [] = (Inr res, calls1)"
    using sample_capture by blast
  have "sv_checkpoints checkpoint_services = Some (recovery_service show_nat)" by (simp add: checkpoint_services_def)
  from deferred_checkpoint_completes [OF this _ cap refl, of "Some ''w''" "[CallTool ''t'' JNull ''p'']"] cap
  show ?thesis by (fastforce simp: Let_def captured_def)
qed

end
