(* ===== verification/Continuations.thy ===== *)
theory Continuations
  imports Handler_Properties
begin

text \<open>
  \<open>self/subcortex/workflows/src/continuations.ts\<close>: what becomes of a waiting attempt when it
  is continued, one branch per gate and per kind of wait. Every branch of the code is a
  branch here; \<open>continued\<close> holds the fields all results share.
\<close>

section \<open>Results of a continuation\<close>

definition buildCorrectionArc ::
  "wf_env \<Rightarrow> run_state \<Rightarrow> node_definition \<Rightarrow> node_attempt \<Rightarrow> correction_arc_type \<Rightarrow> string \<Rightarrow> string list
   \<Rightarrow> string option \<Rightarrow> correction_arc io" where
  "buildCorrectionArc env runState nodeDefinition activeAttempt arcType reason refs checkpointId =
     bindIO (fresh env) (\<lambda>arcId. returnIO
       \<lparr>ca_id = arcId, ca_runId = rs_runId runState, ca_nodeDefinitionId = nd_id nodeDefinition,
        ca_type = arcType, ca_sourceAttempt = at_attempt activeAttempt, ca_targetAttempt = None,
        ca_checkpointId = checkpointId, ca_reasonCode = reason, ca_evidenceRefs = refs,
        ca_occurredAt = env_now env\<rparr>)"

definition continued :: "node_attempt \<Rightarrow> outcome \<Rightarrow> effect_status \<Rightarrow> string \<Rightarrow> string list \<Rightarrow> execution_result" where
  "continued a out effect reason refs =
     \<lparr>er_outcome = out, er_governanceDecision = at_governanceDecision a, er_waitState = None,
      er_correctionArc = None, er_sideEffectStatus = effect, er_outputRef = None, er_checkpointId = None,
      er_selectedBranchKey = None, er_reasonCode = reason, er_evidenceRefs = refs\<rparr>"

record continuation_input =
  cx_runState :: run_state
  cx_nodeDefinition :: node_definition
  cx_nodeState :: node_run_state
  cx_activeAttempt :: node_attempt
  cx_request :: continue_node_request

definition with_arc :: "wf_env \<Rightarrow> continuation_input \<Rightarrow> correction_arc_type \<Rightarrow> string list \<Rightarrow> execution_result \<Rightarrow> execution_result io" where
  \<comment> \<open>the arc of a result has its reason and evidence and the attempt's checkpoint\<close>
  "with_arc env i arcType refs r =
     bindIO (buildCorrectionArc env (cx_runState i) (cx_nodeDefinition i) (cx_activeAttempt i) arcType
               (er_reasonCode r) refs (at_checkpointId (cx_activeAttempt i)))
       (\<lambda>arc. returnIO (r\<lparr>er_correctionArc := Some arc\<rparr>))"

definition continuation_evidence :: "continuation_input \<Rightarrow> string list" where
  "continuation_evidence i =
     tn_evidenceRefs (cr_transition (cx_request i))
     @ [''workflow_node_id='' @ nd_id (cx_nodeDefinition i),
        ''workflow_attempt='' @ show_nat (at_attempt (cx_activeAttempt i))]"

definition pending_fields :: "node_attempt \<Rightarrow> wait_state \<Rightarrow> execution_result \<Rightarrow> execution_result" where
  \<comment> \<open>a result that keeps waiting carries the attempt's checkpoint, output and branch\<close>
  "pending_fields a w r =
     r\<lparr>er_waitState := Some w, er_checkpointId := at_checkpointId a, er_outputRef := at_outputRef a,
       er_selectedBranchKey := at_selectedBranchKey a\<rparr>"

section \<open>The kinds of wait\<close>

definition human_decision_result :: "wf_env \<Rightarrow> continuation_input \<Rightarrow> string list \<Rightarrow> execution_result io" where
  "human_decision_result env i refs =
     (let a = cx_activeAttempt i; request = cx_request i in
      if payload_field pl_humanDecision (cr_payload request) = Some HdRejected \<or> cr_action request = ActReject then
        with_arc env i ArcRollback refs
          ((continued a OcBlocked (at_sideEffectStatus a) ''workflow_human_decision_rejected'' refs)
            \<lparr>er_checkpointId := at_checkpointId a\<rparr>)
      else
        with_arc env i ArcResume refs
          ((continued a OcCompleted (at_sideEffectStatus a) ''workflow_human_decision_approved'' refs)
            \<lparr>er_checkpointId := at_checkpointId a,
             er_outputRef := Some (getOr (orElse (payload_field pl_outputRef (cr_payload request)) (at_outputRef a))
               (''human-decision:'' @ nd_id (cx_nodeDefinition i) @ '':approved''))\<rparr>))"

definition review_approved :: "continue_node_request \<Rightarrow> bool" where
  \<comment> \<open>\<open>payload?.detail?.reviewApproved === true\<close>\<close>
  "review_approved request =
     (case cr_payload request of
        None \<Rightarrow> False
      | Some pl \<Rightarrow> obj_get ''reviewApproved'' (pl_detail pl) = Some (JBool True))"

definition timed_out :: "continue_node_request \<Rightarrow> bool" where
  "timed_out request =
     (case cr_payload request of
        None \<Rightarrow> False
      | Some pl \<Rightarrow> obj_get ''timedOut'' (pl_detail pl) = Some (JBool True))"

definition async_batch_result :: "wf_env \<Rightarrow> continuation_input \<Rightarrow> string list \<Rightarrow> execution_result io" where
  "async_batch_result env i refs =
     (let a = cx_activeAttempt i; request = cx_request i in
      if at_sideEffectStatus a = EfUnknownExternalEffect \<and> \<not> review_approved request then
        with_arc env i ArcResume refs
          ((continued a OcBlocked (at_sideEffectStatus a) ''workflow_resume_review_required'' refs)
            \<lparr>er_checkpointId := at_checkpointId a\<rparr>)
      else
        with_arc env i ArcResume refs
          ((continued a OcCompleted
              (getOr (payload_field pl_sideEffectStatus (cr_payload request)) (at_sideEffectStatus a))
              ''workflow_async_batch_completed'' refs)
            \<lparr>er_checkpointId := at_checkpointId a,
             er_outputRef := Some (getOr (orElse (payload_field pl_outputRef (cr_payload request)) (at_outputRef a))
               (''async:'' @ nd_id (cx_nodeDefinition i) @ '':completed'')),
             er_selectedBranchKey := orElse (payload_field pl_selectedBranchKey (cr_payload request)) (at_selectedBranchKey a)\<rparr>))"

definition checkpoint_commit_result :: "wf_env \<Rightarrow> continuation_input \<Rightarrow> wait_state \<Rightarrow> string list \<Rightarrow> execution_result io" where
  "checkpoint_commit_result env i w refs =
     (let a = cx_activeAttempt i; request = cx_request i in
      if cr_action request \<noteq> ActComplete \<and> cr_action request \<noteq> ActResume then
        returnIO (pending_fields a w
          (continued a OcWaiting (at_sideEffectStatus a) ''workflow_checkpoint_commit_pending'' refs))
      else
        with_arc env i ArcResume refs
          ((continued a OcCompleted (at_sideEffectStatus a) ''workflow_checkpoint_commit_completed'' refs)
            \<lparr>er_checkpointId := orElse (cr_checkpointId request) (at_checkpointId a),
             er_outputRef := orElse (payload_field pl_outputRef (cr_payload request)) (at_outputRef a),
             er_selectedBranchKey := at_selectedBranchKey a\<rparr>))"

definition parallel_join_result :: "continuation_input \<Rightarrow> string list \<Rightarrow> execution_result io" where
  "parallel_join_result i refs =
     (let a = cx_activeAttempt i in
      if timed_out (cx_request i) then
        returnIO ((continued a OcCompleted EfNone ''workflow_parallel_join_timeout'' refs)
          \<lparr>er_selectedBranchKey := Some ''timeout''\<rparr>)
      else returnIO (continued a OcCompleted EfNone ''workflow_parallel_join_continued'' refs))"

definition loop_backoff_result :: "continuation_input \<Rightarrow> string list \<Rightarrow> execution_result io" where
  "loop_backoff_result i refs =
     returnIO ((continued (cx_activeAttempt i) OcCompleted EfNone ''workflow_loop_backoff_resolved'' refs)
       \<lparr>er_selectedBranchKey := Some ''loop''\<rparr>)"

definition retry_backoff_result :: "wf_env \<Rightarrow> continuation_input \<Rightarrow> string list \<Rightarrow> execution_result io" where
  "retry_backoff_result env i refs =
     (let a = cx_activeAttempt i in
      with_arc env i (if cr_action (cx_request i) = ActReprompt then ArcReprompt else ArcRetry) refs
        ((continued a OcBlocked (at_sideEffectStatus a) ''workflow_retry_backoff_resolution_required'' refs)
          \<lparr>er_checkpointId := at_checkpointId a\<rparr>))"

definition kind_result :: "wf_env \<Rightarrow> continuation_input \<Rightarrow> wait_state \<Rightarrow> string list \<Rightarrow> execution_result io" where
  \<comment> \<open>the switch\<close>
  "kind_result env i w refs =
     (case ws_kind w of
        WkHumanDecision \<Rightarrow> human_decision_result env i refs
      | WkAsyncBatch \<Rightarrow> async_batch_result env i refs
      | WkCheckpointCommit \<Rightarrow> checkpoint_commit_result env i w refs
      | WkParallelJoin \<Rightarrow> parallel_join_result i refs
      | WkLoopBackoff \<Rightarrow> loop_backoff_result i refs
      | WkRetryBackoff \<Rightarrow> retry_backoff_result env i refs)"

section \<open>The gates\<close>

definition token_mismatch :: "continue_node_request \<Rightarrow> wait_state \<Rightarrow> bool" where
  "token_mismatch request w \<longleftrightarrow>
     truthy (cr_continuationToken request) \<and> truthy (ws_resumeToken w) \<and>
     cr_continuationToken request \<noteq> ws_resumeToken w"

definition resolveWorkflowContinuation :: "wf_env \<Rightarrow> continuation_input \<Rightarrow> execution_result io" where
  "resolveWorkflowContinuation env i =
     (let request = cx_request i; a = cx_activeAttempt i; refs = continuation_evidence i in
      case ns_activeWaitState (cx_nodeState i) of
        None \<Rightarrow> throwIO (JsError (''Workflow node '' @ nd_id (cx_nodeDefinition i) @ '' is not waiting''))
      | Some w \<Rightarrow>
          if token_mismatch request w then
            with_arc env i ArcResume refs
              (continued a OcBlocked (at_sideEffectStatus a) ''workflow_continuation_token_mismatch'' refs)
          else if cr_controlState request = CtlHardStopped then
            with_arc env i ArcResume refs
              (continued a OcBlocked (at_sideEffectStatus a) ''workflow_resume_denied_hard_stopped'' refs)
          else if cr_controlState request = CtlPausedReview \<or> cr_controlState request = CtlResuming then
            (let reason = (if cr_controlState request = CtlPausedReview then ''workflow_wait_paused_review''
                           else ''workflow_wait_resuming'')
             in returnIO (pending_fields a (w\<lparr>ws_reasonCode := reason, ws_evidenceRefs := refs\<rparr>)
                  (continued a OcWaiting (at_sideEffectStatus a) reason refs)))
          else kind_result env i w refs)"

section \<open>Correctness\<close>

lemma continuation_evidence_nonempty [simp]: "continuation_evidence i \<noteq> []"
  by (simp add: continuation_evidence_def)

text \<open>The result contract of a handler, without the checkpoint: continuations carry the
  attempt's checkpoint along.\<close>

definition continuation_contract :: "governance_decision \<Rightarrow> execution_result \<Rightarrow> bool" where
  "continuation_contract d r \<longleftrightarrow>
     er_governanceDecision r = d \<and> (er_waitState r \<noteq> None \<longleftrightarrow> er_outcome r = OcWaiting) \<and>
     er_reasonCode r \<noteq> [] \<and> er_evidenceRefs r \<noteq> []"

lemma continued_fields [simp]:
  "er_outcome (continued a out e reason refs) = out"
  "er_governanceDecision (continued a out e reason refs) = at_governanceDecision a"
  "er_waitState (continued a out e reason refs) = None"
  "er_reasonCode (continued a out e reason refs) = reason"
  "er_evidenceRefs (continued a out e reason refs) = refs"
  "er_sideEffectStatus (continued a out e reason refs) = e"
  "er_selectedBranchKey (continued a out e reason refs) = None"
  by (simp_all add: continued_def)

lemma pending_fields_simps [simp]:
  "er_outcome (pending_fields a w r) = er_outcome r" "er_waitState (pending_fields a w r) = Some w"
  "er_governanceDecision (pending_fields a w r) = er_governanceDecision r"
  "er_reasonCode (pending_fields a w r) = er_reasonCode r" "er_evidenceRefs (pending_fields a w r) = er_evidenceRefs r"
  "er_selectedBranchKey (pending_fields a w r) = at_selectedBranchKey a"
  by (simp_all add: pending_fields_def)

lemma with_arc_gives: "(\<And>arc. P (r\<lparr>er_correctionArc := Some arc\<rparr>)) \<Longrightarrow> gives (with_arc env i t refs r) P"
  by (auto simp: with_arc_def intro!: gives_bind gives_intros)

lemma with_arc_makes: "makes (with_arc env i t refs r) Q"
  by (auto simp: with_arc_def buildCorrectionArc_def intro!: makes_intros)

lemmas result_defs = human_decision_result_def async_batch_result_def checkpoint_commit_result_def
  parallel_join_result_def loop_backoff_result_def retry_backoff_result_def

lemma kind_result_gives:
  assumes "refs \<noteq> []"
  shows "gives (kind_result env i w refs) (continuation_contract (at_governanceDecision (cx_activeAttempt i)))"
  using assms
  by (cases "ws_kind w")
    (auto simp: kind_result_def result_defs Let_def continuation_contract_def intro!: with_arc_gives gives_intros)

lemma continuation_gives:
  "gives (resolveWorkflowContinuation env i) (continuation_contract (at_governanceDecision (cx_activeAttempt i)))"
  by (auto simp: resolveWorkflowContinuation_def Let_def continuation_contract_def
      intro!: with_arc_gives gives_intros kind_result_gives kind_result_gives [unfolded continuation_contract_def] split: option.split)

lemma continuation_makes: "makes (resolveWorkflowContinuation env i) Q"
proof -
  have "makes (kind_result env i w refs) Q" for w refs
    by (cases "ws_kind w") (auto simp: kind_result_def result_defs Let_def intro!: with_arc_makes makes_intros)
  then show ?thesis
    by (auto simp: resolveWorkflowContinuation_def Let_def intro!: with_arc_makes makes_intros split: option.split)
qed

text \<open>When a wait may end in completion.\<close>

definition kind_allows :: "continuation_input \<Rightarrow> wait_kind \<Rightarrow> bool" where
  "kind_allows i k =
     (case k of
        WkHumanDecision \<Rightarrow> payload_field pl_humanDecision (cr_payload (cx_request i)) \<noteq> Some HdRejected
           \<and> cr_action (cx_request i) \<noteq> ActReject
      | WkAsyncBatch \<Rightarrow> at_sideEffectStatus (cx_activeAttempt i) = EfUnknownExternalEffect \<longrightarrow> review_approved (cx_request i)
      | WkCheckpointCommit \<Rightarrow> cr_action (cx_request i) \<in> {ActComplete, ActResume}
      | WkParallelJoin \<Rightarrow> True
      | WkLoopBackoff \<Rightarrow> True
      | WkRetryBackoff \<Rightarrow> False)"

lemma with_arc_outcome:
  "with_arc env i t refs r calls = (Inr r', calls') \<Longrightarrow> er_outcome r' = er_outcome r"
  by (auto simp: with_arc_def buildCorrectionArc_def io_simps bindIO_def)

lemma kind_result_outcome:
  assumes "kind_result env i w refs calls = (Inr r, calls')"
  shows "er_outcome r =
      (if kind_allows i (ws_kind w) then OcCompleted
       else if ws_kind w = WkCheckpointCommit then OcWaiting else OcBlocked)"
    and "er_outcome r = OcWaiting \<Longrightarrow> er_waitState r = Some w"
  using assms
  by (cases "ws_kind w";
    auto simp: kind_result_def result_defs Let_def kind_allows_def io_simps dest!: with_arc_outcome split: if_splits)+

lemma continuation_outcome:
  assumes "resolveWorkflowContinuation env i calls = (Inr r, calls')"
    and "ns_activeWaitState (cx_nodeState i) = Some w"
  shows "er_outcome r =
      (if token_mismatch (cx_request i) w \<or> cr_controlState (cx_request i) = CtlHardStopped then OcBlocked
       else if cr_controlState (cx_request i) \<noteq> CtlRunning then OcWaiting
       else if kind_allows i (ws_kind w) then OcCompleted
       else if ws_kind w = WkCheckpointCommit then OcWaiting else OcBlocked)"
    and "er_outcome r = OcWaiting \<Longrightarrow>
      \<exists>w'. er_waitState r = Some w' \<and> ws_kind w' = ws_kind w \<and> ws_resumeToken w' = ws_resumeToken w"
  using assms
  by (cases "cr_controlState (cx_request i)";
    auto simp: resolveWorkflowContinuation_def Let_def io_simps dest: with_arc_outcome kind_result_outcome split: if_splits)+

lemma with_arc_total: "\<exists>r'. with_arc env i t refs r calls = (Inr r', calls)"
  by (auto simp: with_arc_def buildCorrectionArc_def bindIO_def io_simps)

lemma kind_result_total: "\<exists>r. kind_result env i w refs calls = (Inr r, calls)"
  using with_arc_total [of env i _ refs _ calls]
  by (cases "ws_kind w") (auto simp: kind_result_def result_defs Let_def io_simps)

lemma continuation_total:
  assumes "ns_activeWaitState (cx_nodeState i) = Some w"
  shows "\<exists>r. resolveWorkflowContinuation env i calls = (Inr r, calls)"
  using with_arc_total [of env i _ _ _ calls] kind_result_total [of env i w _ calls]
  by (auto simp: resolveWorkflowContinuation_def Let_def io_simps assms)

text \<open>When a continuation completes a node. A node that does not wait cannot be continued. A
  wrong token or a stopped project blocks the node; a paused or resuming project keeps it
  waiting, with the same kind of wait and the same token; in a running project the node completes
  unless its decision was rejected, its unknown external effect is unreviewed or its commit was
  not asked for, and a retry backoff never completes. The governance decision of the attempt
  stays.\<close>

theorem continuation_gates:
  assumes "resolveWorkflowContinuation env i calls = (Inr r, calls')"
  shows "\<exists>w. ns_activeWaitState (cx_nodeState i) = Some w \<and>
    er_outcome r =
      (if token_mismatch (cx_request i) w \<or> cr_controlState (cx_request i) = CtlHardStopped then OcBlocked
       else if cr_controlState (cx_request i) \<noteq> CtlRunning then OcWaiting
       else if kind_allows i (ws_kind w) then OcCompleted
       else if ws_kind w = WkCheckpointCommit then OcWaiting else OcBlocked) \<and>
    (er_outcome r = OcWaiting \<longrightarrow>
      (\<exists>w'. er_waitState r = Some w' \<and> ws_kind w' = ws_kind w \<and> ws_resumeToken w' = ws_resumeToken w)) \<and>
    continuation_contract (at_governanceDecision (cx_activeAttempt i)) r"
proof (cases "ns_activeWaitState (cx_nodeState i)")
  case None
  with assms show ?thesis by (simp add: resolveWorkflowContinuation_def Let_def io_simps)
next
  case (Some w)
  show ?thesis
    using continuation_outcome [OF assms Some] givesD [OF continuation_gives assms] Some
    by (intro exI [of _ w]) simp
qed

definition sample_wait :: "wait_kind \<Rightarrow> wait_state" where
  "sample_wait k = wait_on sample_env k ''waiting'' [''e''] (Some ''token'') None"

definition sample_attempt :: node_attempt where
  "sample_attempt = new_attempt 1 ''L1'' ''t0'' ((sample_result OcWaiting None)\<lparr>er_waitState := Some (sample_wait WkHumanDecision)\<rparr>)"

definition sample_node_state :: "wait_kind \<Rightarrow> node_run_state" where
  "sample_node_state k =
     \<lparr>ns_id = ''N0'', ns_nodeDefinitionId = ''a'', ns_status = NsWaiting, ns_attempts = [sample_attempt],
      ns_activeAttempt = Some 1, ns_latestGovernanceDecision = Some sample_decision,
      ns_activeWaitState = Some (sample_wait k), ns_lastCommittedCheckpointId = None, ns_selectedBranchKey = None,
      ns_correctionArcs = [], ns_reasonCode = Some ''waiting'', ns_evidenceRefs = [''e''],
      ns_lastDispatchLineageId = Some ''L1'', ns_joinProgress = None, ns_updatedAt = ''t0''\<rparr>"

definition sample_continue :: "continuation_action \<Rightarrow> string option \<Rightarrow> continue_node_request" where
  "sample_continue act token =
     \<lparr>cr_executionId = ''run'', cr_nodeDefinitionId = ''a'', cr_controlState = CtlRunning, cr_action = act,
      cr_continuationToken = token, cr_payload = None, cr_transition = sample_transition, cr_checkpointId = None,
      cr_witnessRef = None\<rparr>"

definition sample_continuation :: "wait_kind \<Rightarrow> continuation_action \<Rightarrow> string option \<Rightarrow> continuation_input" where
  "sample_continuation k act token =
     \<lparr>cx_runState = initial_run_state sample_env (sample_input diamond_graph), cx_nodeDefinition = transform_node ''a'',
      cx_nodeState = sample_node_state k, cx_activeAttempt = sample_attempt, cx_request = sample_continue act token\<rparr>"

theorem continuation_gates_witness:
  "\<exists>r calls'. resolveWorkflowContinuation sample_env (sample_continuation WkHumanDecision ActComplete (Some ''token'')) [] = (Inr r, calls') \<and>
     er_outcome r = OcCompleted"
proof -
  let ?i = "sample_continuation WkHumanDecision ActComplete (Some ''token'')"
  have w: "ns_activeWaitState (cx_nodeState ?i) = Some (sample_wait WkHumanDecision)"
    by (simp add: sample_continuation_def sample_node_state_def)
  have gates: "\<not> token_mismatch (cx_request ?i) (sample_wait WkHumanDecision)" "cr_controlState (cx_request ?i) = CtlRunning"
    "kind_allows ?i WkHumanDecision" "ws_kind (sample_wait WkHumanDecision) = WkHumanDecision"
    by (simp_all add: sample_continuation_def sample_continue_def sample_wait_def wait_on_def token_mismatch_def
        kind_allows_def payload_field_def)
  obtain r where run: "resolveWorkflowContinuation sample_env ?i [] = (Inr r, [])"
    using continuation_total [OF w] by blast
  from continuation_gates [OF run] w gates run show ?thesis by auto
qed

end
