(* ===== verification/Workflow_Engine.thy ===== *)
theory Workflow_Engine
  imports Checkpoint_Runtime Continuations Graph_Builder Admission
begin

text \<open>
  \<open>self/subcortex/workflows/src/workflow-engine.ts\<close>: the engine that owns the runs of a
  process. Its three maps are the record \<open>engine\<close>; an operation takes the engine and gives
  its result with the engine updated, in the computations of \<open>Services\<close>. Every operation
  stores its new state as the last thing that can throw, so an operation that throws leaves
  the engine as it was. Resolution of installed packages and the schema parsers are
  parameters (\<open>engine_deps\<close>).
\<close>

section \<open>Configuration and requests\<close>

record package_binding =
  pb_workflowDefinitionId :: string
  pb_workflowPackageId :: string
  pb_workflowPackageVersion :: "string option"
  pb_entrypoint :: string
  pb_boundAt :: string
  pb_manifestRef :: string
  pb_flowRef :: "string option"

record workflow_configuration =
  wc_definitions :: "workflow_definition list"
  wc_packageBindings :: "package_binding list"
  wc_defaultWorkflowDefinitionId :: "string option"
  wc_specYamlStore :: "(string \<times> string) list option"

record project_config =
  pc_id :: string
  pc_workflow :: "workflow_configuration option"

datatype source_kind = ProjectInline | InstalledPackage | LegacyHybridBridge

record definition_source =
  ds_workflowDefinitionId :: string
  ds_sourceKind :: source_kind
  ds_packageId :: "string option"
  ds_packageVersion :: "string option"
  ds_rootRef :: "string option"
  ds_manifestRef :: "string option"
  ds_bindingRef :: "string option"

record start_request =
  sr_projectConfig :: project_config
  sr_workflowDefinitionId :: "string option"
  sr_runId :: "string option"
  sr_workmodeId :: string
  sr_sourceActor :: authority_actor
  sr_targetActor :: "authority_actor option"
  sr_controlState :: "control_state option"
  sr_triggerContext :: "trigger_context option"
  sr_admissionEvidenceRefs :: "string list option"
  sr_startedAt :: "string option"

datatype start_result = AdmissionBlocked admission_result | Started workflow_graph run_state

record engine_deps =
  ed_services :: services
  ed_installed :: "(call list \<Rightarrow> project_config \<Rightarrow> package_binding \<Rightarrow> (workflow_definition \<times> definition_source) result) option"
  ed_safeParse :: "workflow_definition \<Rightarrow> zod_issue list + workflow_definition"
  ed_parseGraph :: "workflow_graph \<Rightarrow> workflow_graph result"
  ed_parseExecute :: "execute_node_request \<Rightarrow> execute_node_request result"
  ed_parseContinue :: "continue_node_request \<Rightarrow> continue_node_request result"
  ed_errorText :: "js_error \<Rightarrow> string"

definition error_message :: "engine_deps \<Rightarrow> js_error \<Rightarrow> string" where
  "error_message deps e = (case e of JsError m \<Rightarrow> m | _ \<Rightarrow> ed_errorText deps e)"

record engine =
  en_graphs :: "(string \<times> workflow_graph) list"
  en_states :: "(string \<times> run_state) list"
  en_projectConfigs :: "(string \<times> project_config) list"

definition empty_engine :: engine where
  "empty_engine = \<lparr>en_graphs = [], en_states = [], en_projectConfigs = []\<rparr>"

definition attemptIO :: "'a io \<Rightarrow> 'a result io" where
  \<comment> \<open>the body of a \<open>try\<close>: its error is a value\<close>
  "attemptIO m = (\<lambda>calls. case m calls of (r, calls') \<Rightarrow> (Inr r, calls'))"

definition is_some_or :: "js_error \<Rightarrow> 'a option \<Rightarrow> 'a result" where
  "is_some_or e v = (case v of None \<Rightarrow> Inl e | Some x \<Rightarrow> Inr x)"

definition findNodeDefinition :: "workflow_graph \<Rightarrow> string \<Rightarrow> node_definition result" where
  "findNodeDefinition graph nodeDefinitionId =
     (case obj_get nodeDefinitionId (gr_nodes graph) of
        None \<Rightarrow> Inl (unknown_node nodeDefinitionId)
      | Some node \<Rightarrow> Inr (dn_definition node))"

definition pending_wait :: "wf_env \<Rightarrow> string \<Rightarrow> execution_result \<Rightarrow> string option \<Rightarrow> wait_state" where
  "pending_wait env token r checkpointId =
     \<lparr>ws_kind = WkCheckpointCommit, ws_reasonCode = ''workflow_checkpoint_commit_pending'',
      ws_evidenceRefs = (if er_evidenceRefs r \<noteq> [] then er_evidenceRefs r else [''workflow_checkpoint_commit_pending'']),
      ws_requestedAt = env_now env, ws_resumeToken = Some token, ws_externalRef = checkpointId\<rparr>"

definition buildCheckpointPendingResult :: "wf_env \<Rightarrow> execution_result \<Rightarrow> string option \<Rightarrow> execution_result io" where
  "buildCheckpointPendingResult env r checkpointId =
     bindIO (fresh env) (\<lambda>token. returnIO
       (r\<lparr>er_outcome := OcWaiting, er_waitState := Some (pending_wait env token r checkpointId),
          er_checkpointId := checkpointId, er_reasonCode := ''workflow_checkpoint_commit_pending''\<rparr>))"

section \<open>Events\<close>

definition publish :: "services \<Rightarrow> bus_event \<Rightarrow> unit io" where
  \<comment> \<open>nothing without a bus, and what \<open>publish\<close> throws is swallowed\<close>
  "publish sv ev = (case sv_bus sv of None \<Rightarrow> returnIO () | Some _ \<Rightarrow> invoke (CallPublish ev) (\<lambda>calls. Inr ()))"

definition emitNodeStatusChanged :: "services \<Rightarrow> run_state \<Rightarrow> string \<Rightarrow> node_status \<Rightarrow> unit io" where
  "emitNodeStatusChanged sv s nodeDefinitionId status =
     publish sv (NodeStatusChanged (rs_runId s) nodeDefinitionId (rs_projectId s) status)"

definition emitRunCompleted :: "services \<Rightarrow> run_state \<Rightarrow> run_outcome \<Rightarrow> unit io" where
  "emitRunCompleted sv s result = publish sv (RunFinished (rs_runId s) (rs_projectId s) result)"

fun terminal_outcome :: "run_status \<Rightarrow> run_outcome option" where
  "terminal_outcome RsCompleted = Some RunCompleted"
| "terminal_outcome RsFailed = Some RunFailed"
| "terminal_outcome RsCanceled = Some RunCancelled"
| "terminal_outcome _ = None"

definition emitRunTerminalIfNeeded :: "services \<Rightarrow> run_status \<Rightarrow> run_state \<Rightarrow> unit io" where
  "emitRunTerminalIfNeeded sv prevStatus nextState =
     (case terminal_outcome (rs_status nextState) of
        None \<Rightarrow> returnIO ()
      | Some result \<Rightarrow>
          if terminal_outcome prevStatus = None then emitRunCompleted sv nextState result else returnIO ())"

section \<open>Resolving the definition\<close>

definition resolveInstalledBindingSelection ::
  "engine_deps \<Rightarrow> project_config \<Rightarrow> package_binding \<Rightarrow> (workflow_definition \<times> definition_source) io" where
  "resolveInstalledBindingSelection deps projectConfig binding =
     (case ed_installed deps of
        None \<Rightarrow> throwIO (JsError ''workflow installed definition resolution requires runtime access'')
      | Some resolve \<Rightarrow> (\<lambda>calls. (resolve calls projectConfig binding, calls)))"

definition inline_selection :: "workflow_definition \<Rightarrow> workflow_definition \<times> definition_source" where
  "inline_selection d =
     (d, \<lparr>ds_workflowDefinitionId = wd_id d, ds_sourceKind = ProjectInline, ds_packageId = None,
          ds_packageVersion = None, ds_rootRef = None, ds_manifestRef = None, ds_bindingRef = None\<rparr>)"

definition select_by_id ::
  "engine_deps \<Rightarrow> project_config \<Rightarrow> workflow_definition list \<Rightarrow> package_binding list \<Rightarrow> string \<Rightarrow> js_error
   \<Rightarrow> (workflow_definition \<times> definition_source) io" where
  \<comment> \<open>an inline definition with the identifier, or else a binding of it\<close>
  "select_by_id deps projectConfig definitions bindings wanted missing =
     (case find (\<lambda>d. wd_id d = wanted) definitions of
        Some d \<Rightarrow> returnIO (inline_selection d)
      | None \<Rightarrow>
          (case find (\<lambda>b. pb_workflowDefinitionId b = wanted) bindings of
             Some b \<Rightarrow> resolveInstalledBindingSelection deps projectConfig b
           | None \<Rightarrow> throwIO missing))"

definition resolveDefinitionSelection ::
  "engine_deps \<Rightarrow> project_config \<Rightarrow> string option \<Rightarrow> (workflow_definition \<times> definition_source) io" where
  "resolveDefinitionSelection deps projectConfig workflowDefinitionId =
     (case pc_workflow projectConfig of
        None \<Rightarrow> throwIO (JsError ''workflow definition not configured for project'')
      | Some config \<Rightarrow>
          (let definitions = wc_definitions config; bindings = wc_packageBindings config in
           if definitions = [] \<and> bindings = [] then throwIO (JsError ''workflow definition not configured for project'')
           else if truthy workflowDefinitionId then
             (let wanted = getOr workflowDefinitionId []
              in select_by_id deps projectConfig definitions bindings wanted
                   (JsError (''workflow definition '' @ wanted @ '' not found in project config'')))
           else if truthy (wc_defaultWorkflowDefinitionId config) then
             (let wanted = getOr (wc_defaultWorkflowDefinitionId config) []
              in select_by_id deps projectConfig definitions bindings wanted
                   (JsError (''default workflow definition '' @ wanted @ '' not found'')))
           else
             (case (definitions, bindings) of
                ([d], []) \<Rightarrow> returnIO (inline_selection d)
              | ([], [b]) \<Rightarrow> resolveInstalledBindingSelection deps projectConfig b
              | _ \<Rightarrow> throwIO (JsError ''multiple workflow definitions configured without defaultWorkflowDefinitionId''))))"

definition resolveDefinition :: "engine_deps \<Rightarrow> project_config \<Rightarrow> string option \<Rightarrow> workflow_definition io" where
  "resolveDefinition deps projectConfig workflowDefinitionId =
     bindIO (resolveDefinitionSelection deps projectConfig workflowDefinitionId) (\<lambda>selection. returnIO (fst selection))"

definition resolveDefinitionSource :: "engine_deps \<Rightarrow> project_config \<Rightarrow> string option \<Rightarrow> definition_source io" where
  "resolveDefinitionSource deps projectConfig workflowDefinitionId =
     bindIO (resolveDefinitionSelection deps projectConfig workflowDefinitionId) (\<lambda>selection. returnIO (snd selection))"

section \<open>Starting a run\<close>

definition refused :: "string \<Rightarrow> string list \<Rightarrow> admission_result" where
  "refused reason refs = \<lparr>ad_allowed = False, ad_reasonCode = reason, ad_evidenceRefs = refs, ad_policyRef = None\<rparr>"

definition admission_of :: "start_request \<Rightarrow> workflow_definition \<Rightarrow> admission_result" where
  "admission_of request d = evaluateWorkflowAdmission
     \<lparr>ar_projectId = pc_id (sr_projectConfig request), ar_workflowDefinitionId = wd_id d,
      ar_workmodeId = sr_workmodeId request, ar_sourceActor = sr_sourceActor request,
      ar_targetActor = Some (getOr (sr_targetActor request) WorkerAgent), ar_controlState = sr_controlState request\<rparr>"

definition run_input :: "start_request \<Rightarrow> workflow_definition \<Rightarrow> workflow_graph \<Rightarrow> string \<Rightarrow> create_input" where
  "run_input request d graph runId =
     \<lparr>ci_runId = runId, ci_graph = graph, ci_admission = admission_of request d,
      ci_triggerContext = sr_triggerContext request,
      ci_transition = Some \<lparr>tn_reasonCode = ''workflow_started'',
        tn_evidenceRefs = getOr (sr_admissionEvidenceRefs request) [''workflow_definition_id='' @ wd_id d],
        tn_occurredAt = None\<rparr>,
      ci_startedAt = sr_startedAt request\<rparr>"

definition engine_start :: "engine_deps \<Rightarrow> wf_env \<Rightarrow> start_request \<Rightarrow> engine \<Rightarrow> (start_result \<times> engine) io" where
  "engine_start deps env request en =
     (let config = sr_projectConfig request in
      bindIO (attemptIO (resolveDefinition deps config (sr_workflowDefinitionId request))) (\<lambda>resolved.
        case resolved of
          Inl e \<Rightarrow> returnIO (AdmissionBlocked (refused ''workflow_definition_unavailable'' [error_message deps e]), en)
        | Inr d \<Rightarrow>
            if wd_projectId d \<noteq> pc_id config then
              returnIO (AdmissionBlocked (refused ''AUTH-SCOPE-MISMATCH''
                [''project_id='' @ pc_id config, ''definition_project_id='' @ wd_projectId d]), en)
            else
              (case buildDerivedWorkflowGraph (ed_safeParse deps) (ed_parseGraph deps) (sv_sha256 (ed_services deps)) d of
                 Inl e \<Rightarrow> returnIO (AdmissionBlocked (refused ''workflow_definition_invalid'' [error_message deps e]), en)
               | Inr graph \<Rightarrow>
                   if \<not> ad_allowed (admission_of request d) then returnIO (AdmissionBlocked (admission_of request d), en)
                   else
                     bindIO (case sr_runId request of Some r \<Rightarrow> returnIO r | None \<Rightarrow> fresh env) (\<lambda>runId.
                     bindIO (liftIO (createInitialWorkflowRunState env (run_input request d graph runId))) (\<lambda>runState.
                       returnIO (Started graph runState,
                         en\<lparr>en_graphs := obj_set runId graph (en_graphs en),
                            en_states := obj_set runId runState (en_states en),
                            en_projectConfigs := obj_set runId config (en_projectConfigs en)\<rparr>))))))"

section \<open>Moving a run\<close>

definition unknown_run :: "string \<Rightarrow> js_error" where
  "unknown_run executionId = JsError (''Unknown workflow run id: '' @ executionId)"

definition store_state :: "string \<Rightarrow> run_state \<Rightarrow> engine \<Rightarrow> engine" where
  "store_state executionId s en = en\<lparr>en_states := obj_set executionId s (en_states en)\<rparr>"

definition engine_resume :: "engine_deps \<Rightarrow> wf_env \<Rightarrow> string \<Rightarrow> transition_input \<Rightarrow> engine \<Rightarrow> (run_state \<times> engine) io" where
  "engine_resume deps env executionId transition en =
     bindIO (liftIO (is_some_or (unknown_run executionId) (obj_get executionId (en_states en)))) (\<lambda>s.
     bindIO (liftIO (resumeWorkflowRunState env s transition)) (\<lambda>s'.
     bindIO (emitRunTerminalIfNeeded (ed_services deps) (rs_status s) s') (\<lambda>_.
       returnIO (s', store_state executionId s' en))))"

definition engine_pause :: "engine_deps \<Rightarrow> wf_env \<Rightarrow> string \<Rightarrow> transition_input \<Rightarrow> engine \<Rightarrow> (run_state \<times> engine) io" where
  "engine_pause deps env executionId transition en =
     bindIO (liftIO (is_some_or (unknown_run executionId) (obj_get executionId (en_states en)))) (\<lambda>s.
     bindIO (liftIO (pauseWorkflowRunState env s transition)) (\<lambda>s'.
       returnIO (s', store_state executionId s' en)))"

definition engine_cancel :: "engine_deps \<Rightarrow> wf_env \<Rightarrow> string \<Rightarrow> transition_input \<Rightarrow> engine \<Rightarrow> (run_state \<times> engine) io" where
  "engine_cancel deps env executionId transition en =
     bindIO (liftIO (is_some_or (unknown_run executionId) (obj_get executionId (en_states en)))) (\<lambda>s.
     bindIO (liftIO (cancelWorkflowRunState env s transition)) (\<lambda>s'.
     bindIO (emitRunTerminalIfNeeded (ed_services deps) (rs_status s) s') (\<lambda>_.
       returnIO (s', store_state executionId s' en))))"

definition both :: "'a option \<Rightarrow> 'b option \<Rightarrow> ('a \<times> 'b) option" where
  "both x y = Option.bind x (\<lambda>a. map_option (Pair a) y)"

definition engine_completeNode ::
  "engine_deps \<Rightarrow> wf_env \<Rightarrow> string \<Rightarrow> string \<Rightarrow> transition_input \<Rightarrow> engine \<Rightarrow> (run_state \<times> engine) io" where
  "engine_completeNode deps env executionId nodeDefinitionId transition en =
     bindIO (liftIO (is_some_or (unknown_run executionId)
       (both (obj_get executionId (en_states en)) (obj_get executionId (en_graphs en))))) (\<lambda>(s, graph).
     bindIO (liftIO (completeWorkflowNodeInRunState env s graph nodeDefinitionId transition)) (\<lambda>s'.
     bindIO (emitNodeStatusChanged (ed_services deps) s' nodeDefinitionId NsCompleted) (\<lambda>_.
     bindIO (emitRunTerminalIfNeeded (ed_services deps) (rs_status s) s') (\<lambda>_.
       returnIO (s', store_state executionId s' en)))))"

section \<open>Executing a node\<close>

text \<open>The execution of a node reads the engine once, before its first \<open>await\<close>: \<open>execution_begin\<close>
  gives the run, graph and configuration it read, \<open>execution_work\<close> everything up to the new
  state, and \<open>execution_finish\<close> stores that state in the engine as it is then.\<close>

record snapshot =
  sp_state :: run_state
  sp_graph :: workflow_graph
  sp_projectId :: string
  sp_lineage :: dispatch_lineage

definition execution_begin :: "engine_deps \<Rightarrow> execute_node_request \<Rightarrow> engine \<Rightarrow> snapshot result" where
  "execution_begin deps request en =
     (let executionId = xr_executionId request; nodeId = xr_nodeDefinitionId request in
      bindR (is_some_or (unknown_run executionId)
        (both (both (obj_get executionId (en_states en)) (obj_get executionId (en_graphs en)))
          (obj_get executionId (en_projectConfigs en)))) (\<lambda>((s, graph), config).
      bindR (is_some_or (JsError ''DeterministicWorkflowEngine requires pfcEngine for executeReadyNode'')
        (sv_pfc (ed_services deps))) (\<lambda>_.
      bindR (is_some_or (unknown_node nodeId) (node_state s nodeId)) (\<lambda>ns.
      bindR (is_some_or (JsError (''Workflow node '' @ nodeId @ '' is missing dispatch lineage''))
        (find (\<lambda>l. Some (dl_id l) = ns_lastDispatchLineageId ns) (rs_dispatchLineage s))) (\<lambda>lineage.
        Inr \<lparr>sp_state = s, sp_graph = graph, sp_projectId = pc_id config, sp_lineage = lineage\<rparr>)))))"

definition governed_input :: "snapshot \<Rightarrow> execute_node_request \<Rightarrow> node_definition \<Rightarrow> execute_input" where
  "governed_input sp request node =
     \<lparr>xi_projectId = sp_projectId sp, xi_graph = sp_graph sp, xi_runState = sp_state sp, xi_nodeDefinition = node,
      xi_dispatchLineage = sp_lineage sp, xi_controlState = xr_controlState request,
      xi_governanceInput = xr_governanceInput request, xi_payload = xr_payload request\<rparr>"

definition recorded :: "snapshot \<Rightarrow> execute_node_request \<Rightarrow> execution_result \<Rightarrow> capture_result \<Rightarrow> execution_input" where
  "recorded sp request r capture =
     \<lparr>ei_state = sp_state sp, ei_graph = sp_graph sp, ei_nodeDefinitionId = xr_nodeDefinitionId request,
      ei_result = r, ei_transition = xr_transition request, ei_checkpointState = Some (cc_checkpointState capture),
      ei_lastPreparedCheckpointId = cc_lastPreparedCheckpointId capture,
      ei_lastCommittedCheckpointId = cc_lastCommittedCheckpointId capture\<rparr>"

definition node_run :: "services \<Rightarrow> wf_env \<Rightarrow> execute_input \<Rightarrow> execution_result io" where
  "node_run sv env input =
     (case sv_pfc sv of
        None \<Rightarrow> throwIO TypeError
      | Some pfc \<Rightarrow> executeWorkflowNode sv pfc env input)"

definition execution_work :: "engine_deps \<Rightarrow> wf_env \<Rightarrow> execute_node_request \<Rightarrow> snapshot \<Rightarrow> run_state io" where
  "execution_work deps env request sp =
     (let sv = ed_services deps; nodeId = xr_nodeDefinitionId request in
      bindIO (emitNodeStatusChanged sv (sp_state sp) nodeId NsRunning) (\<lambda>_.
      bindIO (liftIO (findNodeDefinition (sp_graph sp) nodeId)) (\<lambda>node.
      bindIO (node_run sv env (governed_input sp request node)) (\<lambda>r.
      bindIO (captureWorkflowCheckpoint sv (sp_state sp) nodeId (er_sideEffectStatus r)
        (payload_field pl_checkpointCommitMode (xr_payload request))) (\<lambda>capture.
      bindIO (if er_outcome r = OcCompleted \<and> cc_checkpointState capture = CkCommitPending
              then buildCheckpointPendingResult env r (cc_checkpointId capture)
              else returnIO (r\<lparr>er_checkpointId := orElse (cc_checkpointId capture) (er_checkpointId r)\<rparr>)) (\<lambda>final.
        liftIO (recordWorkflowNodeExecution env (recorded sp request final capture))))))))"

definition emit_resolved :: "services \<Rightarrow> (node_status \<Rightarrow> bool) \<Rightarrow> run_state \<Rightarrow> string \<Rightarrow> unit io" where
  \<comment> \<open>the status the node has in the new state, unless it is one that is not announced\<close>
  "emit_resolved sv announced s nodeId =
     (case status_of s nodeId of
        None \<Rightarrow> returnIO ()
      | Some status \<Rightarrow> if announced status then emitNodeStatusChanged sv s nodeId status else returnIO ())"

definition execution_finish ::
  "engine_deps \<Rightarrow> (node_status \<Rightarrow> bool) \<Rightarrow> string \<Rightarrow> string \<Rightarrow> run_state \<Rightarrow> run_state \<Rightarrow> engine \<Rightarrow> (run_state \<times> engine) io" where
  "execution_finish deps announced executionId nodeId s s' en =
     bindIO (emit_resolved (ed_services deps) announced s' nodeId) (\<lambda>_.
     bindIO (emitRunTerminalIfNeeded (ed_services deps) (rs_status s) s') (\<lambda>_.
       returnIO (s', store_state executionId s' en)))"

definition engine_executeReadyNode ::
  "engine_deps \<Rightarrow> wf_env \<Rightarrow> execute_node_request \<Rightarrow> engine \<Rightarrow> (run_state \<times> engine) io" where
  "engine_executeReadyNode deps env request en =
     bindIO (liftIO (ed_parseExecute deps request)) (\<lambda>parsed.
     bindIO (liftIO (execution_begin deps parsed en)) (\<lambda>sp.
     bindIO (execution_work deps env parsed sp) (\<lambda>s'.
       execution_finish deps (\<lambda>status. status \<noteq> NsRunning) (xr_executionId parsed) (xr_nodeDefinitionId parsed)
         (sp_state sp) s' en)))"

section \<open>Continuing a node\<close>

definition active_attempt :: "node_run_state \<Rightarrow> node_attempt option" where
  "active_attempt ns =
     (case ns_activeAttempt ns of None \<Rightarrow> None | Some k \<Rightarrow> find (\<lambda>a. at_attempt a = k) (ns_attempts ns))"

definition waits_for_commit :: "node_run_state \<Rightarrow> bool" where
  "waits_for_commit ns \<longleftrightarrow> map_option ws_kind (ns_activeWaitState ns) = Some WkCheckpointCommit"

definition still_pending :: "continue_node_request \<Rightarrow> node_run_state \<Rightarrow> node_attempt \<Rightarrow> execution_result" where
  "still_pending request ns a =
     \<lparr>er_outcome = OcWaiting, er_governanceDecision = at_governanceDecision a, er_waitState = ns_activeWaitState ns,
      er_correctionArc = None, er_sideEffectStatus = at_sideEffectStatus a, er_outputRef = at_outputRef a,
      er_checkpointId = at_checkpointId a, er_selectedBranchKey = at_selectedBranchKey a,
      er_reasonCode = ''workflow_checkpoint_commit_pending'',
      er_evidenceRefs = (if tn_evidenceRefs (cr_transition request) \<noteq> [] then tn_evidenceRefs (cr_transition request)
                         else [''workflow_checkpoint_commit_pending''])\<rparr>"

definition continued_input :: "run_state \<Rightarrow> workflow_graph \<Rightarrow> continue_node_request \<Rightarrow> execution_result \<Rightarrow> commit_result option \<Rightarrow> execution_input" where
  "continued_input s graph request r commit =
     \<lparr>ei_state = s, ei_graph = graph, ei_nodeDefinitionId = cr_nodeDefinitionId request,
      ei_result = r\<lparr>er_checkpointId := orElse (Option.bind commit cw_checkpointId) (er_checkpointId r)\<rparr>,
      ei_transition = cr_transition request, ei_checkpointState = map_option cw_checkpointState commit,
      ei_lastPreparedCheckpointId = Option.bind commit cw_lastPreparedCheckpointId,
      ei_lastCommittedCheckpointId = Option.bind commit cw_lastCommittedCheckpointId\<rparr>"

definition continuation_commit :: "services \<Rightarrow> run_state \<Rightarrow> node_run_state \<Rightarrow> node_attempt \<Rightarrow> continue_node_request \<Rightarrow> commit_result option io" where
  "continuation_commit sv s ns a request =
     (if waits_for_commit ns \<or> rs_checkpointState s = CkCommitPending
      then bindIO (commitWorkflowCheckpoint sv s (orElse (cr_checkpointId request) (at_checkpointId a)) (cr_witnessRef request))
             (\<lambda>commit. returnIO (Some commit))
      else returnIO None)"

definition continuation_result ::
  "wf_env \<Rightarrow> run_state \<Rightarrow> workflow_graph \<Rightarrow> node_run_state \<Rightarrow> node_attempt \<Rightarrow> continue_node_request \<Rightarrow> commit_result option
   \<Rightarrow> execution_result io" where
  "continuation_result env s graph ns a request commit =
     (if commit \<noteq> None \<and> waits_for_commit ns \<and> map_option cw_committed commit = Some False
      then buildCheckpointPendingResult env (still_pending request ns a) (Option.bind commit cw_checkpointId)
      else bindIO (liftIO (findNodeDefinition graph (cr_nodeDefinitionId request))) (\<lambda>node.
        resolveWorkflowContinuation env
          \<lparr>cx_runState = s, cx_nodeDefinition = node, cx_nodeState = ns, cx_activeAttempt = a,
           cx_request = request\<lparr>cr_checkpointId := orElse (Option.bind commit cw_checkpointId) (cr_checkpointId request)\<rparr>\<rparr>))"

definition continuation_work :: "engine_deps \<Rightarrow> wf_env \<Rightarrow> continue_node_request \<Rightarrow> run_state \<Rightarrow> workflow_graph \<Rightarrow> run_state io" where
  "continuation_work deps env request s graph =
     (let nodeId = cr_nodeDefinitionId request in
      bindIO (liftIO (is_some_or (unknown_node nodeId) (node_state s nodeId))) (\<lambda>ns.
      bindIO (liftIO (is_some_or (JsError (''Workflow node '' @ nodeId @ '' has no active attempt'')) (active_attempt ns))) (\<lambda>a.
      bindIO (continuation_commit (ed_services deps) s ns a request) (\<lambda>commit.
      bindIO (continuation_result env s graph ns a request commit) (\<lambda>r.
        liftIO (resolveWorkflowNodeContinuation env (continued_input s graph request r commit)))))))"

definition engine_continueNode ::
  "engine_deps \<Rightarrow> wf_env \<Rightarrow> continue_node_request \<Rightarrow> engine \<Rightarrow> (run_state \<times> engine) io" where
  "engine_continueNode deps env request en =
     bindIO (liftIO (ed_parseContinue deps request)) (\<lambda>parsed.
     bindIO (liftIO (is_some_or (unknown_run (cr_executionId parsed))
       (both (obj_get (cr_executionId parsed) (en_states en)) (obj_get (cr_executionId parsed) (en_graphs en))))) (\<lambda>(s, graph).
     bindIO (continuation_work deps env parsed s graph) (\<lambda>s'.
       execution_finish deps (\<lambda>status. True) (cr_executionId parsed) (cr_nodeDefinitionId parsed) s s' en)))"

section \<open>Queries\<close>

definition getState :: "string \<Rightarrow> engine \<Rightarrow> run_state option" where
  "getState executionId en = obj_get executionId (en_states en)"

definition getRunGraph :: "string \<Rightarrow> engine \<Rightarrow> workflow_graph option" where
  "getRunGraph executionId en = obj_get executionId (en_graphs en)"

definition compareRuns :: "run_state \<Rightarrow> run_state \<Rightarrow> int" where
  "compareRuns left right =
     js_or (localeCompare (rs_updatedAt right) (rs_updatedAt left))
       (js_or (localeCompare (rs_startedAt right) (rs_startedAt left))
         (localeCompare (rs_runId right) (rs_runId left)))"

lemma js_comparator_by_key_desc:
  fixes key :: "'a \<Rightarrow> 'k::linorder"
  assumes "\<And>x y. cmp x y \<le> 0 \<longleftrightarrow> key y \<le> key x"
  shows "js_comparator cmp"
proof
  fix x y
  assume "0 < cmp x y"
  then have "\<not> key y \<le> key x" by (simp flip: assms)
  then show "cmp y x \<le> 0" by (simp add: assms)
next
  fix x y z
  assume "cmp x y \<le> 0" "cmp y z \<le> 0"
  then show "cmp x z \<le> 0" using assms order_trans by metis
qed

definition recency :: "run_state \<Rightarrow> (nat list \<times> nat list) \<times> ((nat list \<times> nat list) \<times> (nat list \<times> nat list))" where
  "recency s = (collation_key (rs_updatedAt s), collation_key (rs_startedAt s), collation_key (rs_runId s))"

lemma compareRuns_key: "compareRuns x y \<le> 0 \<longleftrightarrow> recency y \<le> recency x"
  unfolding compareRuns_def recency_def
  by (intro js_or_le_key localeCompare_key localeCompare_le)

interpretation runs_cmp: js_comparator compareRuns
  by (rule js_comparator_by_key_desc) (rule compareRuns_key)

definition listProjectRuns :: "string \<Rightarrow> engine \<Rightarrow> run_state list" where
  "listProjectRuns projectId en =
     js_sort compareRuns (filter (\<lambda>s. rs_projectId s = projectId) (obj_values (en_states en)))"

end
