(* ===== verification/Engine_Properties.thy ===== *)
theory Engine_Properties
  imports Workflow_Engine
begin

text \<open>
  Properties of the engine. Each operation is a step of the machine \<open>apply_op\<close> on one stored
  run, or a new run, or nothing (\<open>engine_step_cases\<close>), so what the run operations keep the
  engine keeps for every run. The rest is about the calls an operation makes: the events it
  publishes, and which operations run node work.
\<close>

section \<open>Operations as steps\<close>

datatype engine_op =
    EStart start_request
  | EResume string transition_input
  | EPause string transition_input
  | ECancel string transition_input
  | EComplete string string transition_input
  | EExecute execute_node_request
  | EContinue continue_node_request

fun engine_apply :: "engine_deps \<Rightarrow> wf_env \<Rightarrow> engine_op \<Rightarrow> engine \<Rightarrow> engine io" where
  "engine_apply deps env (EStart request) en = bindIO (engine_start deps env request en) (\<lambda>(_, en'). returnIO en')"
| "engine_apply deps env (EResume rid t) en = bindIO (engine_resume deps env rid t en) (\<lambda>(_, en'). returnIO en')"
| "engine_apply deps env (EPause rid t) en = bindIO (engine_pause deps env rid t en) (\<lambda>(_, en'). returnIO en')"
| "engine_apply deps env (ECancel rid t) en = bindIO (engine_cancel deps env rid t en) (\<lambda>(_, en'). returnIO en')"
| "engine_apply deps env (EComplete rid n t) en = bindIO (engine_completeNode deps env rid n t en) (\<lambda>(_, en'). returnIO en')"
| "engine_apply deps env (EExecute request) en = bindIO (engine_executeReadyNode deps env request en) (\<lambda>(_, en'). returnIO en')"
| "engine_apply deps env (EContinue request) en = bindIO (engine_continueNode deps env request en) (\<lambda>(_, en'). returnIO en')"

fun op_run :: "engine_op \<Rightarrow> string option" where
  "op_run (EStart _) = None"
| "op_run (EResume rid _) = Some rid"
| "op_run (EPause rid _) = Some rid"
| "op_run (ECancel rid _) = Some rid"
| "op_run (EComplete rid _ _) = Some rid"
| "op_run (EExecute request) = Some (xr_executionId request)"
| "op_run (EContinue request) = Some (cr_executionId request)"

definition deps_ok :: "engine_deps \<Rightarrow> bool" where
  \<comment> \<open>the parsers return what they accept\<close>
  "deps_ok deps \<longleftrightarrow> schema_parser (ed_safeParse deps) \<and> schema_parser (ed_parseGraph deps) \<and>
     schema_parser (ed_parseExecute deps) \<and> schema_parser (ed_parseContinue deps)"

lemma deps_parse:
  assumes "deps_ok deps"
  shows "ed_parseExecute deps request = Inr x \<Longrightarrow> x = request"
    and "ed_parseContinue deps request' = Inr y \<Longrightarrow> y = request'"
  using assms schema_parser.parse_id unfolding deps_ok_def by metis+

lemma liftIO_Inr: "liftIO r calls = (Inr x, calls') \<longleftrightarrow> r = Inr x \<and> calls' = calls"
  by (auto simp: liftIO_def)

lemma returnIO_Inr: "returnIO x calls = (Inr y, calls') \<longleftrightarrow> y = x \<and> calls' = calls"
  by (auto simp: returnIO_def)

lemma is_some_or_Inr: "is_some_or e v = Inr x \<longleftrightarrow> v = Some x"
  by (simp add: is_some_or_def split: option.split)

lemma both_Some: "both x y = Some (a, b) \<longleftrightarrow> x = Some a \<and> y = Some b"
  by (cases x; cases y) (auto simp: both_def)

lemmas io_steps = liftIO_Inr returnIO_Inr is_some_or_Inr both_Some

lemma bindIO_lift_Inr: "bindIO (liftIO r) f calls = (Inr y, calls') \<longleftrightarrow> (\<exists>x. r = Inr x \<and> f x calls = (Inr y, calls'))"
  by (cases r) (simp_all add: io_simps)

lemma finish_Inr:
  "execution_finish deps f rid n s s' en calls = (Inr (u, en'), calls') \<Longrightarrow> u = s' \<and> en' = store_state rid s' en"
  by (auto simp: execution_finish_def io_steps elim!: bindIO_InrE)

lemma execution_begin_Inr:
  "execution_begin deps request en = Inr sp \<Longrightarrow>
   obj_get (xr_executionId request) (en_states en) = Some (sp_state sp) \<and>
   obj_get (xr_executionId request) (en_graphs en) = Some (sp_graph sp)"
  by (auto simp: execution_begin_def Let_def bindR_Inr_iff io_steps)

lemma execution_work_Inr:
  assumes "execution_work deps env request sp calls = (Inr s', calls')"
  shows "\<exists>rop. apply_op env (sp_graph sp) rop (sp_state sp) = Inr s' \<and> \<not> is_cancel rop"
proof -
  obtain r capture where "recordWorkflowNodeExecution env (recorded sp request r capture) = Inr s'"
    using assms by (auto simp: execution_work_def Let_def io_steps elim!: bindIO_InrE)
  then show ?thesis
    by (intro exI [of _ "OpExecute (xr_nodeDefinitionId request) r (xr_transition request)
        (Some (cc_checkpointState capture)) (cc_lastPreparedCheckpointId capture) (cc_lastCommittedCheckpointId capture)"])
      (simp add: recorded_def mk_input_def)
qed

lemma continuation_work_Inr:
  assumes "continuation_work deps env request s graph calls = (Inr s', calls')"
  shows "\<exists>rop. apply_op env graph rop s = Inr s' \<and> \<not> is_cancel rop"
proof -
  obtain r commit where "resolveWorkflowNodeContinuation env (continued_input s graph request r commit) = Inr s'"
    using assms by (auto simp: continuation_work_def Let_def io_steps elim!: bindIO_InrE)
  then show ?thesis
    by (intro exI [of _ "OpContinue (cr_nodeDefinitionId request) (r\<lparr>er_checkpointId := orElse (Option.bind commit cw_checkpointId) (er_checkpointId r)\<rparr>)
        (cr_transition request) (map_option cw_checkpointState commit)
        (Option.bind commit cw_lastPreparedCheckpointId) (Option.bind commit cw_lastCommittedCheckpointId)"])
      (simp add: continued_input_def mk_input_def)
qed

text \<open>One step of the engine.\<close>

inductive engine_step :: "engine_deps \<Rightarrow> wf_env \<Rightarrow> engine_op \<Rightarrow> engine \<Rightarrow> engine \<Rightarrow> bool"
  for deps :: engine_deps and env :: wf_env where
  refuse: "engine_step deps env (EStart request) en en"
| begin_run: "\<lbrakk>wd_projectId d = pc_id (sr_projectConfig request); ad_allowed (admission_of request d);
     buildDerivedWorkflowGraph (ed_safeParse deps) (ed_parseGraph deps) (sv_sha256 (ed_services deps)) d = Inr g;
     createInitialWorkflowRunState env (run_input request d g rid) = Inr s\<rbrakk> \<Longrightarrow>
   engine_step deps env (EStart request) en
     (en\<lparr>en_graphs := obj_set rid g (en_graphs en), en_states := obj_set rid s (en_states en),
         en_projectConfigs := obj_set rid (sr_projectConfig request) (en_projectConfigs en)\<rparr>)"
| move_run: "\<lbrakk>op_run eop = Some rid; obj_get rid (en_states en) = Some s;
     \<And>g. obj_get rid (en_graphs en) = Some g \<Longrightarrow> \<exists>rop. apply_op env g rop s = Inr s' \<and> (is_cancel rop \<longrightarrow> (\<exists>t. eop = ECancel rid t))\<rbrakk> \<Longrightarrow>
   engine_step deps env eop en (store_state rid s' en)"

lemma start_step:
  assumes "engine_start deps env request en calls = (Inr (res, en'), calls')"
  shows "engine_step deps env (EStart request) en en'"
  using assms
  by (auto simp: engine_start_def Let_def io_steps elim!: bindIO_InrE split: sum.splits if_splits
      intro!: engine_step.refuse engine_step.begin_run)

lemma execute_InrE:
  assumes "deps_ok deps" and "engine_apply deps env (EExecute request) en calls = (Inr en', calls')"
  obtains sp s' calls1 where "execution_begin deps request en = Inr sp"
    and "execution_work deps env request sp calls = (Inr s', calls1)"
    and "execution_finish deps (\<lambda>status. status \<noteq> NsRunning) (xr_executionId request) (xr_nodeDefinitionId request)
      (sp_state sp) s' en calls1 = (Inr (s', en'), calls')"
proof -
  from assms(2) obtain u where run: "engine_executeReadyNode deps env request en calls = (Inr (u, en'), calls')"
    by (auto simp: returnIO_Inr elim!: bindIO_InrE)
  then obtain x sp where x: "ed_parseExecute deps request = Inr x" "execution_begin deps x en = Inr sp"
    and rest: "bindIO (execution_work deps env x sp) (\<lambda>s'.
       execution_finish deps (\<lambda>status. status \<noteq> NsRunning) (xr_executionId x) (xr_nodeDefinitionId x)
         (sp_state sp) s' en) calls = (Inr (u, en'), calls')"
    by (auto simp: engine_executeReadyNode_def bindIO_lift_Inr)
  have [simp]: "x = request" by (rule deps_parse(1) [OF assms(1) x(1)])
  from rest obtain s' c2 where parts: "execution_work deps env request sp calls = (Inr s', c2)"
      "execution_finish deps (\<lambda>status. status \<noteq> NsRunning) (xr_executionId request) (xr_nodeDefinitionId request)
         (sp_state sp) s' en c2 = (Inr (u, en'), calls')"
    by (auto elim: bindIO_InrE)
  have begun: "execution_begin deps request en = Inr sp" using x(2) by simp
  have "u = s'" using finish_Inr [OF parts(2)] by simp
  with parts begun show thesis by (intro that) simp_all
qed

lemma continue_InrE:
  assumes "deps_ok deps" and "engine_apply deps env (EContinue request) en calls = (Inr en', calls')"
  obtains s g s' calls1 where "obj_get (cr_executionId request) (en_states en) = Some s"
    and "obj_get (cr_executionId request) (en_graphs en) = Some g"
    and "continuation_work deps env request s g calls = (Inr s', calls1)"
    and "execution_finish deps (\<lambda>status. True) (cr_executionId request) (cr_nodeDefinitionId request) s s' en calls1 =
      (Inr (s', en'), calls')"
proof -
  from assms(2) obtain u where run: "engine_continueNode deps env request en calls = (Inr (u, en'), calls')"
    by (auto simp: returnIO_Inr elim!: bindIO_InrE)
  then obtain x s g where x: "ed_parseContinue deps request = Inr x"
    and found: "obj_get (cr_executionId x) (en_states en) = Some s" "obj_get (cr_executionId x) (en_graphs en) = Some g"
    and rest: "bindIO (continuation_work deps env x s g) (\<lambda>s'.
       execution_finish deps (\<lambda>status. True) (cr_executionId x) (cr_nodeDefinitionId x) s s' en) calls = (Inr (u, en'), calls')"
    by (auto simp: engine_continueNode_def bindIO_lift_Inr io_steps)
  have [simp]: "x = request" by (rule deps_parse(2) [OF assms(1) x])
  from rest obtain s' c2 where parts: "continuation_work deps env request s g calls = (Inr s', c2)"
      "execution_finish deps (\<lambda>status. True) (cr_executionId request) (cr_nodeDefinitionId request) s s' en c2 =
        (Inr (u, en'), calls')"
    by (auto elim: bindIO_InrE)
  have "u = s'" using finish_Inr [OF parts(2)] by simp
  with parts found show thesis by (intro that) simp_all
qed

lemma engine_apply_step:
  assumes "deps_ok deps" and "engine_apply deps env eop en calls = (Inr en', calls')"
  shows "engine_step deps env eop en en'"
proof (cases eop)
  case (EStart request)
  then show ?thesis using assms(2) start_step by (auto simp: io_steps elim!: bindIO_InrE)
next
  case (EResume rid t)
  then obtain s s' where "obj_get rid (en_states en) = Some s" "resumeWorkflowRunState env s t = Inr s'" "en' = store_state rid s' en"
    using assms(2) by (auto simp: engine_resume_def io_steps elim!: bindIO_InrE)
  then show ?thesis using EResume by (auto intro!: engine_step.move_run exI [of _ "OpResume t"])
next
  case (EPause rid t)
  then obtain s s' where "obj_get rid (en_states en) = Some s" "pauseWorkflowRunState env s t = Inr s'" "en' = store_state rid s' en"
    using assms(2) by (auto simp: engine_pause_def io_steps elim!: bindIO_InrE)
  then show ?thesis using EPause by (auto intro!: engine_step.move_run exI [of _ "OpPause t"])
next
  case (ECancel rid t)
  then obtain s s' where "obj_get rid (en_states en) = Some s" "cancelWorkflowRunState env s t = Inr s'" "en' = store_state rid s' en"
    using assms(2) by (auto simp: engine_cancel_def io_steps elim!: bindIO_InrE)
  then show ?thesis using ECancel by (auto intro!: engine_step.move_run exI [of _ "OpCancel t"])
next
  case (EComplete rid n t)
  then obtain s g s' where "obj_get rid (en_states en) = Some s" "obj_get rid (en_graphs en) = Some g"
      "completeWorkflowNodeInRunState env s g n t = Inr s'" "en' = store_state rid s' en"
    using assms(2) by (auto simp: engine_completeNode_def io_steps elim!: bindIO_InrE)
  then show ?thesis using EComplete by (auto intro!: engine_step.move_run exI [of _ "OpComplete n t"])
next
  case (EExecute request)
  from execute_InrE [OF assms(1) assms(2) [unfolded EExecute]] obtain sp s' c1 c2 where
    "execution_begin deps request en = Inr sp" "execution_work deps env request sp calls = (Inr s', c1)"
    "en' = store_state (xr_executionId request) s' en"
    using finish_Inr by metis
  then show ?thesis
    using EExecute execution_begin_Inr [of deps request en sp] execution_work_Inr [of deps env request sp calls s' c1]
    by (auto intro!: engine_step.move_run)
next
  case (EContinue request)
  from continue_InrE [OF assms(1) assms(2) [unfolded EContinue]] obtain s g s' c1 where
    "obj_get (cr_executionId request) (en_states en) = Some s" "obj_get (cr_executionId request) (en_graphs en) = Some g"
    "continuation_work deps env request s g calls = (Inr s', c1)" "en' = store_state (cr_executionId request) s' en"
    using finish_Inr by metis
  then show ?thesis
    using EContinue continuation_work_Inr [of deps env request s g calls s' c1]
    by (auto intro!: engine_step.move_run)
qed

section \<open>Reachable engines\<close>

text \<open>The surroundings (clock, identifiers) may differ from operation to operation.\<close>

inductive engine_reachable :: "engine_deps \<Rightarrow> engine \<Rightarrow> bool" for deps :: engine_deps where
  empty: "engine_reachable deps empty_engine"
| operate: "engine_reachable deps en \<Longrightarrow> env_ok env \<Longrightarrow> engine_apply deps env eop en calls = (Inr en', calls') \<Longrightarrow>
    engine_reachable deps en'"

definition engine_ok :: "engine \<Rightarrow> bool" where
  "engine_ok en \<longleftrightarrow> obj_keys (en_graphs en) = obj_keys (en_states en) \<and> distinct (obj_keys (en_states en)) \<and>
     (\<forall>rid s g. obj_get rid (en_states en) = Some s \<and> obj_get rid (en_graphs en) = Some g \<and> graph_ok g \<longrightarrow>
        (\<exists>live. run_inv live g s))"

lemma engine_okD:
  assumes "engine_ok en" and "obj_get rid (en_states en) = Some s"
  shows "\<exists>g. obj_get rid (en_graphs en) = Some g"
    and "obj_get rid (en_graphs en) = Some g \<Longrightarrow> graph_ok g \<Longrightarrow> \<exists>live. run_inv live g s"
proof -
  have "rid \<in> set (obj_keys (en_graphs en))"
    using assms(1) obj_get_in_keys [OF assms(2)] by (simp add: engine_ok_def)
  then show "\<exists>g. obj_get rid (en_graphs en) = Some g" by (rule in_keys_obj_get)
  show "obj_get rid (en_graphs en) = Some g \<Longrightarrow> graph_ok g \<Longrightarrow> \<exists>live. run_inv live g s"
    using assms by (simp add: engine_ok_def)
qed

lemma obj_keys_set: "obj_keys (obj_set k v ob) = (if k \<in> set (obj_keys ob) then obj_keys ob else obj_keys ob @ [k])"
proof (induction ob)
  case (Cons kv ob)
  then show ?case by (cases kv) (auto simp: obj_keys_def)
qed (simp add: obj_keys_def)

lemma engine_ok_step:
  assumes "engine_step deps env eop en en'" and "env_ok env" and "engine_ok en"
  shows "engine_ok en'"
  using assms(1)
proof cases
  case refuse
  then show ?thesis using assms(3) by simp
next
  case (begin_run d request g rid s)
  have "s = initial_run_state env (run_input request d g rid)"
    using begin_run(6) env_parse_Inr [OF assms(2)] by (auto simp: createInitialWorkflowRunState_def split: if_splits)
  moreover have "ci_graph (run_input request d g rid) = g" by (simp add: run_input_def)
  ultimately have "run_inv True g s" if "graph_ok g" using run_inv_initial [of "run_input request d g rid" env] that by simp
  then show ?thesis using assms(3) begin_run(2) distinct_keys_obj_set
    by (auto simp: engine_ok_def obj_keys_set split: if_splits)
next
  case (move_run rid s s')
  have inv: "\<exists>live. run_inv live g s'" if g: "obj_get rid (en_graphs en) = Some g" "graph_ok g" for g
  proof -
    obtain live where "run_inv live g s" using assms(3) g move_run(3) unfolding engine_ok_def by blast
    with move_run(4) [OF g(1)] show ?thesis using run_inv_step [OF assms(2)] by blast
  qed
  have "rid \<in> set (obj_keys (en_states en))" using move_run(3) by (rule obj_get_in_keys)
  with inv assms(3) show ?thesis
    by (auto simp: engine_ok_def move_run(1) store_state_def obj_keys_set split: if_splits)
qed

lemma engine_reachable_ok:
  assumes "engine_reachable deps en" and "deps_ok deps"
  shows "engine_ok en"
  using assms(1)
proof induction
  case empty
  show ?case by (simp add: engine_ok_def empty_engine_def obj_keys_def)
next
  case (operate en env eop calls en' calls')
  from engine_ok_step [OF engine_apply_step [OF assms(2) operate(3)] operate(2,4)] show ?case .
qed

text \<open>Graphs enter the engine only through the graph builder.\<close>

definition graph_derived :: "engine_deps \<Rightarrow> workflow_graph \<Rightarrow> bool" where
  "graph_derived deps g \<longleftrightarrow>
     (\<exists>d. buildDerivedWorkflowGraph (ed_safeParse deps) (ed_parseGraph deps) (sv_sha256 (ed_services deps)) d = Inr g)"

definition graphs_derived :: "engine_deps \<Rightarrow> engine \<Rightarrow> bool" where
  "graphs_derived deps en \<longleftrightarrow> (\<forall>rid g. obj_get rid (en_graphs en) = Some g \<longrightarrow> graph_derived deps g)"

lemma graphs_derived_step: "engine_step deps env eop en en' \<Longrightarrow> graphs_derived deps en \<Longrightarrow> graphs_derived deps en'"
  by (induction rule: engine_step.induct) (auto simp: graphs_derived_def graph_derived_def store_state_def)

lemma engine_reachable_derived:
  assumes "engine_reachable deps en" and "deps_ok deps"
  shows "graphs_derived deps en"
  using assms(1)
proof induction
  case empty
  show ?case by (simp add: graphs_derived_def empty_engine_def)
next
  case (operate en env eop calls en' calls')
  from graphs_derived_step [OF engine_apply_step [OF assms(2) operate(3)] operate(4)] show ?case .
qed

lemma graph_derived_ok:
  assumes "deps_ok deps" and "graph_derived deps g" and "distinct (gr_entryNodeIds g)"
  shows "graph_ok g"
proof -
  from assms(2) obtain d where d:
    "buildDerivedWorkflowGraph (ed_safeParse deps) (ed_parseGraph deps) (sv_sha256 (ed_services deps)) d = Inr g"
    unfolding graph_derived_def by blast
  have parsers: "schema_parser (ed_safeParse deps)" "schema_parser (ed_parseGraph deps)"
    using assms(1) by (simp_all add: deps_ok_def)
  obtain order where "g = derive_graph (sv_sha256 (ed_services deps)) d order" using build_InrD [OF parsers(2) d] .
  then have "distinct (wd_entryNodeIds d)" using assms(3) by (simp add: derive_graph_def Let_def)
  from build_graph_ok [OF parsers this d] show ?thesis .
qed

section \<open>The calls of an operation\<close>

fun finished_call :: "call \<Rightarrow> bool" where
  "finished_call (CallPublish (RunFinished _ _ _)) = True"
| "finished_call _ = False"

fun commit_or_event :: "call \<Rightarrow> bool" where
  "commit_or_event (CallCommit _ _ _) = True"
| "commit_or_event (CallPublish _) = True"
| "commit_or_event _ = False"

lemma work_not_finished: "work_call c \<Longrightarrow> \<not> finished_call c" "held_call c \<Longrightarrow> \<not> finished_call c"
  by (cases c; simp)+

lemma publish_makes: "Q (CallPublish ev) \<Longrightarrow> makes (publish sv ev) Q"
  by (auto simp: publish_def intro: makes_intros split: option.split)

lemma status_event_makes: "(\<And>r n p st. Q (CallPublish (NodeStatusChanged r n p st))) \<Longrightarrow> makes (emitNodeStatusChanged sv s x st) Q"
  by (simp add: emitNodeStatusChanged_def publish_makes)

lemma execute_makes:
  assumes "overrides_ok sv"
  shows "makes (executeWorkflowNode sv pfc env input) (\<lambda>c. held_call c \<or> work_call c)"
  unfolding executeWorkflowNode_def Let_def
  by (intro makes_bind makes_invoke makes_pure makes_mono [OF observe_makes] makes_mono [OF dispatch_node_ok(2) [OF assms]])
    simp_all

lemma capture_makes:
  assumes "\<And>r p s. Q (CallPrepare r p s)" and "\<And>r c w. Q (CallCommit r c w)"
  shows "makes (captureWorkflowCheckpoint sv s n effect mode) Q"
  using assms by (auto simp: captureWorkflowCheckpoint_def Let_def intro!: makes_intros split: option.split)

lemma commit_makes: "(\<And>r c w. Q (CallCommit r c w)) \<Longrightarrow> makes (commitWorkflowCheckpoint sv s c w) Q"
  by (auto simp: commitWorkflowCheckpoint_def Let_def intro!: makes_intros split: option.split)

lemma pending_result_makes: "makes (buildCheckpointPendingResult env r c) Q"
  by (auto simp: buildCheckpointPendingResult_def intro!: makes_intros)

lemma execution_work_makes:
  assumes "overrides_ok (ed_services deps)"
  shows "makes (execution_work deps env request sp) (\<lambda>c. \<not> finished_call c)"
proof -
  have node: "makes (node_run (ed_services deps) env input) (\<lambda>c. \<not> finished_call c)" for input
    by (auto simp: node_run_def intro!: makes_pure makes_mono [OF execute_makes [OF assms]]
        dest: work_not_finished split: option.split)
  show ?thesis
    unfolding execution_work_def Let_def
    by (intro makes_bind status_event_makes makes_pure node capture_makes) (auto intro: pending_result_makes makes_pure)
qed

lemma continuation_work_makes:
  assumes "\<And>r c w. Q (CallCommit r c w)"
  shows "makes (continuation_work deps env request s g) Q"
proof -
  have "makes (continuation_commit sv s ns a request) Q" for sv ns a
    using assms by (auto simp: continuation_commit_def intro!: makes_bind makes_pure commit_makes)
  moreover have "makes (continuation_result env s g ns a request commit) Q" for ns a commit
    by (auto simp: continuation_result_def intro!: makes_bind makes_pure pending_result_makes continuation_makes)
  ultimately show ?thesis
    unfolding continuation_work_def Let_def by (intro makes_bind makes_pure)
qed

definition terminal_events :: "services \<Rightarrow> run_status \<Rightarrow> run_state \<Rightarrow> call list" where
  \<comment> \<open>one event, when the status becomes terminal and was not\<close>
  "terminal_events sv prev s' =
     (case terminal_outcome (rs_status s') of
        None \<Rightarrow> []
      | Some result \<Rightarrow>
          if terminal_outcome prev = None \<and> sv_bus sv \<noteq> None
          then [CallPublish (RunFinished (rs_runId s') (rs_projectId s') result)] else [])"

lemma emitRunTerminal_apply: "emitRunTerminalIfNeeded sv prev s' calls = (Inr (), calls @ terminal_events sv prev s')"
  by (auto simp: emitRunTerminalIfNeeded_def terminal_events_def emitRunCompleted_def publish_def io_simps
      split: option.split)

lemma filter_terminal_events [simp]: "filter finished_call (terminal_events sv prev s') = terminal_events sv prev s'"
  by (auto simp: terminal_events_def split: option.split)

lemma makes_quiet:
  assumes "makes m (\<lambda>c. \<not> finished_call c)" and "m calls = (r, calls')"
  shows "\<exists>new. calls' = calls @ new \<and> filter finished_call new = []"
  using makesD [OF assms] by (auto simp: list_all_iff filter_empty_conv)

lemma emit_resolved_makes:
  "(\<And>r n p st. Q (CallPublish (NodeStatusChanged r n p st))) \<Longrightarrow> makes (emit_resolved sv f s x) Q"
  by (auto simp: emit_resolved_def intro!: makes_pure status_event_makes split: option.split)

lemma execution_finish_calls:
  assumes "execution_finish deps f rid n s s' en calls = (Inr (u, en'), calls')"
  shows "\<exists>new. calls' = calls @ new \<and> filter finished_call new = terminal_events (ed_services deps) (rs_status s) s'"
proof -
  obtain x calls1 where m: "emit_resolved (ed_services deps) f s' n calls = (Inr x, calls1)"
    and rest: "calls' = calls1 @ terminal_events (ed_services deps) (rs_status s) s'"
    using assms by (auto simp: execution_finish_def emitRunTerminal_apply io_steps elim!: bindIO_InrE)
  have "makes (emit_resolved (ed_services deps) f s' n) (\<lambda>c. \<not> finished_call c)" by (rule emit_resolved_makes) simp
  from makes_quiet [OF this m] rest show ?thesis by auto
qed

lemma makes_then_finish:
  assumes "makes m (\<lambda>c. \<not> finished_call c)" and "m calls = (Inr s', calls1)"
    and "execution_finish deps f rid n s s' en calls1 = (Inr (u, en'), calls')"
  shows "\<exists>v new. obj_get rid (en_states en') = Some v \<and> calls' = calls @ new \<and>
    filter finished_call new = terminal_events (ed_services deps) (rs_status s) v"
proof -
  obtain new1 where "calls1 = calls @ new1" "filter finished_call new1 = []"
    using makes_quiet [OF assms(1,2)] by blast
  moreover obtain new2 where "calls' = calls1 @ new2"
      "filter finished_call new2 = terminal_events (ed_services deps) (rs_status s) s'"
    using execution_finish_calls [OF assms(3)] by blast
  moreover have "obj_get rid (en_states en') = Some s'" using finish_Inr [OF assms(3)] by (simp add: store_state_def)
  ultimately show ?thesis by (intro exI [of _ s'] exI [of _ "new1 @ new2"]) simp
qed

section \<open>Properties\<close>

text \<open>C3: Every operation of the engine that returns is a step of the abstract machine: a start
  refuses and changes nothing, or adds one admitted run in its initial state with its derived
  graph; any other operation applies one operation of the run machine to the one run it
  names, a cancellation only when asked to cancel, and touches no other run.\<close>

theorem engine_refines_machine:
  assumes "deps_ok deps" and "engine_apply deps env eop en calls = (Inr en', calls')"
  shows "engine_step deps env eop en en'"
  using assms by (rule engine_apply_step)

text \<open>C4: In every engine that operations can reach, each stored run has its graph, derived by
  the graph builder from some definition. Unless that definition repeats an entry node the graph is
  coherent and the run is consistent with it: lists and node statuses agree, attempts are numbered
  from 1 and completed nodes are exactly the completed-listed ones.\<close>

theorem engine_runs_consistent:
  assumes "engine_reachable deps en" and "deps_ok deps" and "obj_get rid (en_states en) = Some s"
  shows "\<exists>g d. obj_get rid (en_graphs en) = Some g \<and>
    buildDerivedWorkflowGraph (ed_safeParse deps) (ed_parseGraph deps) (sv_sha256 (ed_services deps)) d = Inr g \<and>
    (distinct (gr_entryNodeIds g) \<longrightarrow> graph_ok g \<and> (\<exists>live. run_inv live g s) \<and>
      (\<forall>y ns. node_state s y = Some ns \<longrightarrow>
         (y \<in> set (rs_completedNodeIds s) \<longleftrightarrow> ns_status ns = NsCompleted) \<and>
         map at_attempt (ns_attempts ns) = [1..<Suc (length (ns_attempts ns))]))"
proof -
  note ok = engine_okD [OF engine_reachable_ok [OF assms(1,2)]]
  obtain g where g: "obj_get rid (en_graphs en) = Some g" using ok(1) [OF assms(3)] by blast
  then have derived: "graph_derived deps g"
    using engine_reachable_derived [OF assms(1,2)] by (simp add: graphs_derived_def)
  have "graph_ok g \<and> (\<exists>live. run_inv live g s)" if "distinct (gr_entryNodeIds g)"
    using graph_derived_ok [OF assms(2) derived that] ok(2) [OF assms(3) g] by blast
  moreover have "(y \<in> set (rs_completedNodeIds s) \<longleftrightarrow> ns_status ns = NsCompleted) \<and>
       map at_attempt (ns_attempts ns) = [1..<Suc (length (ns_attempts ns))]"
    if "run_inv live g s" "node_state s y = Some ns" for live y ns
  proof -
    have "placed live s y" "attempts_ok ns" using that by (auto simp: run_inv_def all_placed_def all_attempts_ok_def)
    then show ?thesis using that(2) by (simp add: placed_Some attempts_ok_def)
  qed
  ultimately show ?thesis using g derived unfolding graph_derived_def by blast
qed

lemma pause_status: "env_ok env \<Longrightarrow> pauseWorkflowRunState env s t = Inr s' \<Longrightarrow> rs_status s' = RsPaused"
  by (auto simp: pauseWorkflowRunState_def stamp_run_def split: if_splits dest!: env_parse_Inr)

text \<open>C11: An operation on a run publishes the run's terminal event exactly when it takes the
  status from a non-terminal to a terminal one, once, with the outcome of the new status, and
  publishes none otherwise.\<close>

theorem terminal_event_exact:
  assumes "deps_ok deps" and "overrides_ok (ed_services deps)" and "env_ok env"
    and "engine_apply deps env eop en calls = (Inr en', calls')" and "op_run eop = Some rid"
    and "obj_get rid (en_states en) = Some s"
  shows "\<exists>s' new. obj_get rid (en_states en') = Some s' \<and> calls' = calls @ new \<and>
    filter finished_call new = terminal_events (ed_services deps) (rs_status s) s'"
proof (cases eop)
  case (EStart request)
  then show ?thesis using assms(5) by simp
next
  case (EResume _ t)
  then show ?thesis using assms(4-6)
    by (auto simp: engine_resume_def io_steps emitRunTerminal_apply store_state_def elim!: bindIO_InrE)
next
  case (EPause _ t)
  then show ?thesis using assms(4-6) pause_status [OF assms(3)]
    by (fastforce simp: engine_pause_def io_steps store_state_def terminal_events_def elim!: bindIO_InrE)
next
  case (ECancel _ t)
  then show ?thesis using assms(4-6)
    by (auto simp: engine_cancel_def io_steps emitRunTerminal_apply store_state_def elim!: bindIO_InrE)
next
  case (EComplete _ n t)
  then obtain s' x calls1 where m: "emitNodeStatusChanged (ed_services deps) s' n NsCompleted calls = (Inr x, calls1)"
    and rest: "calls' = calls1 @ terminal_events (ed_services deps) (rs_status s) s'" "en' = store_state rid s' en"
    using assms(4-6) by (auto simp: engine_completeNode_def io_steps emitRunTerminal_apply elim!: bindIO_InrE)
  have "makes (emitNodeStatusChanged (ed_services deps) s' n NsCompleted) (\<lambda>c. \<not> finished_call c)"
    by (rule status_event_makes) simp
  from makes_quiet [OF this m] rest show ?thesis by (auto simp: store_state_def)
next
  case (EExecute request)
  from execute_InrE [OF assms(1) assms(4) [unfolded EExecute]] obtain sp s' calls1 where
    sp: "execution_begin deps request en = Inr sp" and work: "execution_work deps env request sp calls = (Inr s', calls1)"
    and fin: "execution_finish deps (\<lambda>status. status \<noteq> NsRunning) (xr_executionId request) (xr_nodeDefinitionId request)
      (sp_state sp) s' en calls1 = (Inr (s', en'), calls')" .
  have rid: "rid = xr_executionId request" using EExecute assms(5) by simp
  have "sp_state sp = s" using execution_begin_Inr [OF sp] assms(6) rid by simp
  with makes_then_finish [OF execution_work_makes [OF assms(2)] work fin] rid show ?thesis by simp
next
  case (EContinue request)
  from continue_InrE [OF assms(1) assms(4) [unfolded EContinue]] obtain u g s' calls1 where
    u: "obj_get (cr_executionId request) (en_states en) = Some u"
    and work: "continuation_work deps env request u g calls = (Inr s', calls1)"
    and fin: "execution_finish deps (\<lambda>status. True) (cr_executionId request) (cr_nodeDefinitionId request) u s' en calls1 =
      (Inr (s', en'), calls')" .
  have rid: "rid = cr_executionId request" using EContinue assms(5) by simp
  have "makes (continuation_work deps env request u g) (\<lambda>c. \<not> finished_call c)" by (rule continuation_work_makes) simp
  from makes_then_finish [OF this work fin] u assms(6) rid show ?thesis by simp
qed

text \<open>Continuing a node routes no model and runs no tool: every call it makes commits a
  checkpoint or publishes an event, even when it throws. So a node that governance deferred to
  a human is completed by the approval without its work having been done.\<close>

theorem continuing_does_no_work:
  "\<exists>new. snd (engine_continueNode deps env request en calls) = calls @ new \<and> list_all commit_or_event new"
proof -
  have "makes (execution_finish deps f rid n s s' en) commit_or_event" for f rid n s s'
  proof -
    have "makes (emitRunTerminalIfNeeded (ed_services deps) (rs_status s) s') commit_or_event"
      by (auto simp: emitRunTerminalIfNeeded_def emitRunCompleted_def intro!: makes_pure publish_makes split: option.split)
    then show ?thesis
      unfolding execution_finish_def by (intro makes_bind makes_pure emit_resolved_makes) simp_all
  qed
  then have "makes (case sg of (s, g) \<Rightarrow> bindIO (continuation_work deps env x s g) (\<lambda>s'.
      execution_finish deps (\<lambda>status. True) (cr_executionId x) (cr_nodeDefinitionId x) s s' en)) commit_or_event" for sg x
    by (cases sg) (simp add: makes_bind continuation_work_makes)
  then have "makes (engine_continueNode deps env request en) commit_or_event"
    unfolding engine_continueNode_def by (intro makes_bind makes_pure)
  then show ?thesis unfolding makes_def by blast
qed

end
