(* ===== verification/Engine_Runs.thy ===== *)
theory Engine_Runs
  imports Engine_Properties
begin

text \<open>
  What the engine does where an execution does not go as planned: nodes that are not ready,
  nodes blocked without a wait, and operations that overlap. The last section is an engine
  with one run, for the witnesses.
\<close>

section \<open>Failing operations\<close>

lemma bindIO_Inl: "m calls = (Inl e, calls') \<Longrightarrow> bindIO m f calls = (Inl e, calls')"
  by (simp add: bindIO_def)

definition fails :: "'a io \<Rightarrow> bool" where
  "fails m \<longleftrightarrow> (\<forall>calls. \<exists>e calls'. m calls = (Inl e, calls'))"

lemma fails_throw: "fails (throwIO e)"
  by (simp add: fails_def throwIO_def)

lemma fails_lift: "r = Inl e \<Longrightarrow> fails (liftIO r)"
  by (simp add: fails_def liftIO_def)

lemma fails_bind1: "fails m \<Longrightarrow> fails (bindIO m f)"
  unfolding fails_def bindIO_apply by (metis (mono_tags, lifting) case_prod_conv old.sum.simps(5))

lemma fails_bind2:
  assumes "\<And>x. fails (f x)"
  shows "fails (bindIO m f)"
  unfolding fails_def
proof
  fix calls
  obtain r calls1 where m: "m calls = (r, calls1)" by fastforce
  show "\<exists>e calls'. bindIO m f calls = (Inl e, calls')"
    using assms m by (cases r) (auto simp: fails_def bindIO_apply)
qed

lemma fails_bind_lift: "(\<And>x. r = Inr x \<Longrightarrow> fails (f x)) \<Longrightarrow> fails (bindIO (liftIO r) f)"
  by (cases r) (simp_all add: fails_def io_simps)

lemma record_not_ready:
  assumes "node_state s n = Some ns" and "ns_status ns \<noteq> NsReady"
    and "ei_state i = s" and "ei_nodeDefinitionId i = n"
  shows "recordWorkflowNodeExecution env i = Inl (node_error n ''executed'' ns)"
  using assms by (simp add: recordWorkflowNodeExecution_def Let_def)

lemma execution_begin_run:
  "execution_begin deps request en = Inr sp \<Longrightarrow> obj_get (xr_executionId request) (en_states en) = Some s \<Longrightarrow> sp_state sp = s"
  using execution_begin_Inr [of deps request en sp] by simp

lemma execution_work_not_ready:
  assumes "node_state (sp_state sp) (xr_nodeDefinitionId request) = Some ns" and "ns_status ns \<noteq> NsReady"
  shows "fails (execution_work deps env request sp)"
  unfolding execution_work_def Let_def
  by (intro fails_bind2) (rule fails_lift, rule record_not_ready [OF assms], simp_all add: recorded_def)

text \<open>C38: A node that is blocked with no wait state is stuck: every execution, continuation or
  completion of it fails, whatever the request, the services and the surroundings. This is the
  state a mismatched continuation token, a hard stop or a retry backoff leaves, and the one a
  denial by governance leaves.\<close>

theorem blocked_node_stuck:
  assumes "deps_ok deps" and "obj_get rid (en_states en) = Some s" and "node_state s n = Some ns"
    and "ns_status ns = NsBlocked" and "ns_activeWaitState ns = None"
    and "eop \<in> {EComplete rid n t} \<or> (\<exists>request. eop = EExecute request \<and> xr_executionId request = rid \<and> xr_nodeDefinitionId request = n) \<or>
      (\<exists>request. eop = EContinue request \<and> cr_executionId request = rid \<and> cr_nodeDefinitionId request = n)"
  shows "\<exists>e calls'. engine_apply deps env eop en calls = (Inl e, calls')"
proof -
  consider (complete) "eop = EComplete rid n t"
    | (execute) request where "eop = EExecute request" "xr_executionId request = rid" "xr_nodeDefinitionId request = n"
    | (continue) request where "eop = EContinue request" "cr_executionId request = rid" "cr_nodeDefinitionId request = n"
    using assms(6) by blast
  then have "fails (engine_apply deps env eop en)"
  proof cases
    case complete
    have "completeWorkflowNodeInRunState env s g n t = Inl (node_error n ''completed'' ns)" for g
      using assms(3,4) by (simp add: completeWorkflowNodeInRunState_def)
    then have "fails (engine_completeNode deps env rid n t en)"
      unfolding engine_completeNode_def using assms(2)
      by (intro fails_bind_lift) (auto simp: io_steps intro!: fails_bind1 fails_lift)
    then show ?thesis by (simp add: complete fails_bind1)
  next
    case execute
    have "fails (execution_work deps env request sp)" if "execution_begin deps request en = Inr sp" for sp
      using execution_work_not_ready [of sp request ns] execution_begin_run [OF that] assms(2-4) execute by simp
    then have "fails (engine_executeReadyNode deps env request en)"
      unfolding engine_executeReadyNode_def using deps_parse(1) [OF assms(1)]
      by (auto intro!: fails_bind_lift intro: fails_bind1)
    then show ?thesis by (simp add: execute fails_bind1)
  next
    case continue
    have "fails (resolveWorkflowContinuation env \<lparr>cx_runState = s, cx_nodeDefinition = d, cx_nodeState = ns,
        cx_activeAttempt = a, cx_request = q\<rparr>)" for d a q
      using assms(5) by (simp add: resolveWorkflowContinuation_def Let_def fails_throw)
    then have "fails (continuation_result env s g ns a request commit)" for g a commit
      using assms(5) by (auto simp: continuation_result_def waits_for_commit_def intro!: fails_bind2)
    then have "fails (continuation_work deps env request s g)" for g
      using assms(3) unfolding continuation_work_def Let_def continue(3)
      by (intro fails_bind_lift fails_bind2 [where m = "continuation_commit _ _ _ _ _"] fails_bind1) (simp add: is_some_or_Inr)
    moreover have "q = request \<and> a = s" if "ed_parseContinue deps request = Inr q"
      "obj_get (cr_executionId q) (en_states en) = Some a" for q a
      using that deps_parse(2) [OF assms(1) that(1)] assms(2) continue(2) by simp
    ultimately have "fails (engine_continueNode deps env request en)"
      unfolding engine_continueNode_def by (intro fails_bind_lift) (auto simp: io_steps intro!: fails_bind1)
    then show ?thesis by (simp add: continue fails_bind1)
  qed
  then show ?thesis unfolding fails_def by blast
qed

text \<open>Executing a node that is not ready fails with the run's own message, but only after
  the node's handler has run: the calls made are exactly those of an execution, governance,
  handler and checkpoint included.\<close>

theorem late_readiness_check:
  assumes "ed_parseExecute deps request = Inr request" and "execution_begin deps request en = Inr sp"
    and "node_state (sp_state sp) (xr_nodeDefinitionId request) = Some ns" and "ns_status ns \<noteq> NsReady"
    and "findNodeDefinition (sp_graph sp) (xr_nodeDefinitionId request) = Inr node"
    and "emitNodeStatusChanged (ed_services deps) (sp_state sp) (xr_nodeDefinitionId request) NsRunning calls = (Inr (), calls1)"
    and "node_run (ed_services deps) env (governed_input sp request node) calls1 = (Inr r, calls2)"
    and "captureWorkflowCheckpoint (ed_services deps) (sp_state sp) (xr_nodeDefinitionId request) (er_sideEffectStatus r)
      (payload_field pl_checkpointCommitMode (xr_payload request)) calls2 = (Inr capture, calls3)"
  shows "engine_executeReadyNode deps env request en calls =
    (Inl (node_error (xr_nodeDefinitionId request) ''executed'' ns), calls3)"
proof -
  have "recordWorkflowNodeExecution env (recorded sp request final capture) =
      Inl (node_error (xr_nodeDefinitionId request) ''executed'' ns)" for final
    by (rule record_not_ready [OF assms(3,4)]) (simp_all add: recorded_def)
  then have "execution_work deps env request sp calls =
      (Inl (node_error (xr_nodeDefinitionId request) ''executed'' ns), calls3)"
    using assms(5)
    by (simp add: execution_work_def Let_def bindIO_apply assms(6-8)
        io_apply buildCheckpointPendingResult_def)
  then show ?thesis
    using assms(1,2) by (simp add: engine_executeReadyNode_def io_simps bindIO_Inl)
qed

section \<open>Overlapping operations\<close>

lemma recorded_not_canceled:
  assumes "env_ok env" and "recordWorkflowNodeExecution env i = Inr s'"
  shows "rs_status s' \<noteq> RsCanceled"
proof -
  have "rs_status (settle_status u) \<noteq> RsCanceled" for u
    by (simp add: settle_status_def resolveRunStatus_def Let_def)
  then show ?thesis
    using assms(2)
    by (auto dest!: env_parse_Inr [OF assms(1)] simp: recordWorkflowNodeExecution_def settle_execution_def Let_def elim!: bindR_InrE
        split: option.splits if_splits)
qed

text \<open>C39: If a run is canceled while one of its nodes executes, the cancellation is lost: the
  execution stores the state it computed from the run as it was before, which is not canceled,
  although the cancellation had been stored, returned and announced.\<close>

theorem cancel_during_execution_lost:
  assumes "env_ok env" and "env_ok env'" and "execution_begin deps request en = Inr sp"
    and "engine_cancel deps env' (xr_executionId request) t en calls = (Inr (c, en1), calls1)"
    and "execution_work deps env request sp calls2 = (Inr s', calls3)"
    and "execution_finish deps f (xr_executionId request) (xr_nodeDefinitionId request) (sp_state sp) s' en1 calls4 =
      (Inr (s'', en2), calls5)"
  shows "obj_get (xr_executionId request) (en_states en1) = Some c \<and> rs_status c = RsCanceled \<and>
    obj_get (xr_executionId request) (en_states en2) = Some s' \<and> rs_status s' \<noteq> RsCanceled"
proof -
  have "en1 = store_state (xr_executionId request) c en" "rs_status c = RsCanceled"
    using assms(4)
    by (auto dest!: env_parse_Inr [OF assms(2)] simp: engine_cancel_def bindIO_lift_Inr io_steps cancelWorkflowRunState_def Let_def elim!: bindIO_InrE split: if_splits)
  moreover obtain i where "recordWorkflowNodeExecution env i = Inr s'"
    using assms(5) by (auto simp: execution_work_def Let_def io_steps elim!: bindIO_InrE)
  ultimately show ?thesis
    using finish_Inr [OF assms(6)] recorded_not_canceled [OF assms(1)] by (simp add: store_state_def)
qed

lemma publish_total: "\<exists>calls'. publish sv ev calls = (Inr (), calls')"
  by (cases "sv_bus sv") (simp_all add: publish_def io_apply)

lemma execution_finish_total: "\<exists>en' calls'. execution_finish deps f rid n s s' en calls = (Inr (s', en'), calls')"
proof -
  have "\<exists>calls'. emit_resolved (ed_services deps) f s' n calls = (Inr (), calls')"
    using publish_total by (auto simp: emit_resolved_def emitNodeStatusChanged_def io_apply split: option.split)
  then show ?thesis by (auto simp: execution_finish_def bindIO_apply emitRunTerminal_apply io_apply)
qed

section \<open>An engine with one run\<close>

definition demo_decision :: governance_decision where
  "demo_decision = sample_decision\<lparr>gd_evidenceRefs := [default_evidence ActTracePersist],
     gd_explanation := sample_explanation\<lparr>ex_evidenceRefs := [default_evidence ActTracePersist]\<rparr>\<rparr>"

definition demo_services :: services where
  "demo_services = no_services\<lparr>sv_pfc := Some (\<lambda>calls i. Inr demo_decision), sv_bus := Some (\<lambda>calls ev. Inr ()),
     sv_sha256 := (\<lambda>t. ''digest'')\<rparr>"

definition demo_deps :: engine_deps where
  "demo_deps = \<lparr>ed_services = demo_services, ed_installed = None, ed_safeParse = parse_definition,
     ed_parseGraph = parse_graph, ed_parseExecute = Inr, ed_parseContinue = Inr, ed_errorText = (\<lambda>e. ''error'')\<rparr>"

definition demo_config :: project_config where
  "demo_config = \<lparr>pc_id = ''p'', pc_workflow = Some \<lparr>wc_definitions = [diamond], wc_packageBindings = [],
     wc_defaultWorkflowDefinitionId = None, wc_specYamlStore = None\<rparr>\<rparr>"

definition demo_engine :: "run_state \<Rightarrow> engine" where
  "demo_engine s = \<lparr>en_graphs = [(''run'', diamond_graph)], en_states = [(''run'', s)], en_projectConfigs = [(''run'', demo_config)]\<rparr>"

definition demo_request :: "string \<Rightarrow> execute_node_request" where
  "demo_request n = \<lparr>xr_executionId = ''run'', xr_nodeDefinitionId = n, xr_controlState = CtlRunning,
     xr_governanceInput = None, xr_payload = None, xr_transition = sample_transition\<rparr>"

lemma demo_deps_ok: "deps_ok demo_deps"
  by (simp add: deps_ok_def demo_deps_def definition_schema.schema_parser_axioms graph_schema.schema_parser_axioms)
    (simp add: schema_parser_def)

lemma demo_services_deps [simp]: "ed_services demo_deps = demo_services" "sv_checkpoints demo_services = None"
  "overrides_ok demo_services"
  by (simp_all add: demo_deps_def demo_services_def no_services_def overrides_ok_def)

text \<open>Evaluations. \<open>returned\<close> says that a computation gives a result.\<close>

definition returned :: "'a result \<times> call list \<Rightarrow> bool" where
  "returned r = (case fst r of Inl _ \<Rightarrow> False | Inr _ \<Rightarrow> True)"

lemma returnedD: "returned r \<Longrightarrow> \<exists>x calls. r = (Inr x, calls)"
  by (cases r) (auto simp: returned_def split: sum.splits)

definition first_state :: run_state where
  "first_state = initial_run_state sample_env (sample_input diamond_graph)"

definition after_a :: "outcome \<Rightarrow> run_state" where
  "after_a oc = (case run_ops diamond_graph [run_node ''a'' oc None] of Inl _ \<Rightarrow> first_state | Inr s \<Rightarrow> s)"

lemma demo_execute: "returned (engine_apply demo_deps sample_env (EExecute (demo_request ''a'')) (demo_engine first_state) [])"
  by code_simp

theorem engine_refines_machine_witness:
  "\<exists>en' calls'. engine_apply demo_deps sample_env (EExecute (demo_request ''a'')) (demo_engine first_state) [] = (Inr en', calls') \<and>
     engine_step demo_deps sample_env (EExecute (demo_request ''a'')) (demo_engine first_state) en'"
  using returnedD [OF demo_execute] engine_refines_machine [OF demo_deps_ok] by blast

definition demo_start :: start_request where
  "demo_start = \<lparr>sr_projectConfig = demo_config, sr_workflowDefinitionId = None, sr_runId = Some ''run'',
     sr_workmodeId = ''system:implementation'', sr_sourceActor = NousCortex, sr_targetActor = None,
     sr_controlState = Some CtlRunning, sr_triggerContext = None, sr_admissionEvidenceRefs = None, sr_startedAt = Some ''t0''\<rparr>"

lemma demo_started:
  "case engine_apply demo_deps sample_env (EStart demo_start) empty_engine [] of
     (Inl e, calls') \<Rightarrow> False
   | (Inr en', calls') \<Rightarrow> obj_get ''run'' (en_states en') \<noteq> None \<and>
       map_option (\<lambda>g. distinct (gr_entryNodeIds g)) (obj_get ''run'' (en_graphs en')) = Some True"
  by code_simp

theorem engine_runs_consistent_witness:
  "\<exists>en' calls' s g. engine_apply demo_deps sample_env (EStart demo_start) empty_engine [] = (Inr en', calls') \<and>
     obj_get ''run'' (en_states en') = Some s \<and> obj_get ''run'' (en_graphs en') = Some g \<and>
     graph_ok g \<and> (\<exists>live. run_inv live g s)"
proof -
  obtain en' calls' s g where run: "engine_apply demo_deps sample_env (EStart demo_start) empty_engine [] = (Inr en', calls')"
    and s: "obj_get ''run'' (en_states en') = Some s"
    and g: "obj_get ''run'' (en_graphs en') = Some g" "distinct (gr_entryNodeIds g)"
    using demo_started by (auto split: prod.splits sum.splits)
  have "engine_reachable demo_deps en'"
    by (rule engine_reachable.operate [OF engine_reachable.empty sample_env_ok run])
  from engine_runs_consistent [OF this demo_deps_ok s] show ?thesis using run s g by auto
qed

lemma demo_cancel: "returned (engine_apply demo_deps sample_env (ECancel ''run'' sample_transition) (demo_engine first_state) [])"
  by code_simp

theorem terminal_event_exact_witness:
  "\<exists>en' calls' s'. engine_apply demo_deps sample_env (ECancel ''run'' sample_transition) (demo_engine first_state) [] = (Inr en', calls') \<and>
     obj_get ''run'' (en_states en') = Some s' \<and> filter finished_call calls' = terminal_events demo_services RsReady s'"
proof -
  obtain en' calls' where run: "engine_apply demo_deps sample_env (ECancel ''run'' sample_transition) (demo_engine first_state) [] = (Inr en', calls')"
    using returnedD [OF demo_cancel] by blast
  have "obj_get ''run'' (en_states (demo_engine first_state)) = Some first_state" by (simp add: demo_engine_def)
  from terminal_event_exact [OF demo_deps_ok _ sample_env_ok run _ this] show ?thesis
    using run by (auto simp: first_state_def initial_run_state_def Let_def)
qed

lemma demo_blocked:
  "map_option (\<lambda>ns. (ns_status ns, ns_activeWaitState ns)) (node_state (after_a OcBlocked) ''a'') = Some (NsBlocked, None)"
  by code_simp

theorem blocked_node_stuck_witness:
  "\<exists>e calls'. engine_apply demo_deps sample_env (EExecute (demo_request ''a'')) (demo_engine (after_a OcBlocked)) [] = (Inl e, calls')"
proof -
  obtain ns where "node_state (after_a OcBlocked) ''a'' = Some ns" "ns_status ns = NsBlocked" "ns_activeWaitState ns = None"
    using demo_blocked by auto
  then show ?thesis
    by (intro blocked_node_stuck [OF demo_deps_ok, of "''run''"]) (simp_all add: demo_engine_def demo_request_def)
qed

text \<open>The parts of an execution of node a, one after the other.\<close>

definition demo_parts :: "run_state \<Rightarrow> (snapshot \<times> execution_result) option" where
  "demo_parts s =
     (case execution_begin demo_deps (demo_request ''a'') (demo_engine s) of
        Inl e \<Rightarrow> None
      | Inr sp \<Rightarrow>
          (case node_run demo_services sample_env (governed_input sp (demo_request ''a'') (transform_node ''a''))
             [CallPublish (NodeStatusChanged (rs_runId s) ''a'' (rs_projectId s) NsRunning)] of
             (Inl e, _) \<Rightarrow> None
           | (Inr r, _) \<Rightarrow> Some (sp, r)))"

lemma demo_parts_run: "demo_parts (after_a OcCompleted) \<noteq> None"
  by code_simp

lemma demo_completed: "status_of (after_a OcCompleted) ''a'' = Some NsCompleted"
  by code_simp

theorem late_readiness_check_witness:
  "\<exists>r calls2 ns. node_run demo_services sample_env
      (governed_input (case execution_begin demo_deps (demo_request ''a'') (demo_engine (after_a OcCompleted)) of Inr sp \<Rightarrow> sp)
        (demo_request ''a'') (transform_node ''a''))
      [CallPublish (NodeStatusChanged (rs_runId (after_a OcCompleted)) ''a'' (rs_projectId (after_a OcCompleted)) NsRunning)] =
      (Inr r, calls2) \<and>
    engine_executeReadyNode demo_deps sample_env (demo_request ''a'') (demo_engine (after_a OcCompleted)) [] =
      (Inl (node_error ''a'' ''executed'' ns), calls2)"
proof -
  let ?s = "after_a OcCompleted"
  obtain sp r calls2 where sp: "execution_begin demo_deps (demo_request ''a'') (demo_engine ?s) = Inr sp"
    and run: "node_run demo_services sample_env (governed_input sp (demo_request ''a'') (transform_node ''a''))
      [CallPublish (NodeStatusChanged (rs_runId ?s) ''a'' (rs_projectId ?s) NsRunning)] = (Inr r, calls2)"
    using demo_parts_run by (auto simp: demo_parts_def split: sum.splits prod.splits)
  have [simp]: "sp_state sp = ?s" "sp_graph sp = diamond_graph"
    using execution_begin_Inr [OF sp] by (simp_all add: demo_engine_def demo_request_def)
  obtain ns where ns: "node_state ?s ''a'' = Some ns" "ns_status ns = NsCompleted"
    using demo_completed by (auto simp: status_of_def)
  have "engine_executeReadyNode demo_deps sample_env (demo_request ''a'') (demo_engine ?s) [] =
      (Inl (node_error (xr_nodeDefinitionId (demo_request ''a'')) ''executed'' ns), calls2)"
    by (rule late_readiness_check [where sp = sp and node = "transform_node ''a''" and r = r
          and capture = "captured CkIdle None None" and ?calls2.0 = calls2
          and ?calls1.0 = "[CallPublish (NodeStatusChanged (rs_runId ?s) ''a'' (rs_projectId ?s) NsRunning)]"])
      (use ns run sp in \<open>simp_all add: demo_deps_def demo_request_def findNodeDefinition_def diamond_graph_code
        emitNodeStatusChanged_def publish_def demo_services_def io_simps captureWorkflowCheckpoint_def no_services_def\<close>)
  with run sp show ?thesis by (auto simp: demo_request_def)
qed

definition demo_work :: "(snapshot \<times> run_state) option" where
  "demo_work =
     (case execution_begin demo_deps (demo_request ''a'') (demo_engine first_state) of
        Inl e \<Rightarrow> None
      | Inr sp \<Rightarrow>
          (case execution_work demo_deps sample_env (demo_request ''a'') sp [] of
             (Inl e, _) \<Rightarrow> None
           | (Inr s', _) \<Rightarrow> Some (sp, s')))"

lemma demo_work_run: "demo_work \<noteq> None"
  by code_simp

lemma demo_cancel_run: "returned (engine_cancel demo_deps sample_env ''run'' sample_transition (demo_engine first_state) [])"
  by code_simp

theorem cancel_during_execution_lost_witness:
  "\<exists>sp c en1 calls1 s' en2 calls2.
     execution_begin demo_deps (demo_request ''a'') (demo_engine first_state) = Inr sp \<and>
     engine_cancel demo_deps sample_env ''run'' sample_transition (demo_engine first_state) [] = (Inr (c, en1), calls1) \<and>
     execution_finish demo_deps (\<lambda>st. st \<noteq> NsRunning) ''run'' ''a'' (sp_state sp) s' en1 calls1 = (Inr (s', en2), calls2) \<and>
     rs_status c = RsCanceled \<and> getState ''run'' en2 = Some s' \<and> rs_status s' \<noteq> RsCanceled"
proof -
  let ?f = "\<lambda>st. st \<noteq> NsRunning"
  obtain sp s' calls3 where sp: "execution_begin demo_deps (demo_request ''a'') (demo_engine first_state) = Inr sp"
    and work: "execution_work demo_deps sample_env (demo_request ''a'') sp [] = (Inr s', calls3)"
    using demo_work_run by (auto simp: demo_work_def split: sum.splits prod.splits)
  obtain c en1 calls1 where cancel: "engine_cancel demo_deps sample_env (xr_executionId (demo_request ''a'')) sample_transition
      (demo_engine first_state) [] = (Inr (c, en1), calls1)"
    using returnedD [OF demo_cancel_run] by (auto simp: demo_request_def)
  obtain en2 calls2 where fin: "execution_finish demo_deps ?f (xr_executionId (demo_request ''a'')) (xr_nodeDefinitionId (demo_request ''a''))
      (sp_state sp) s' en1 calls1 = (Inr (s', en2), calls2)"
    using execution_finish_total by blast
  from cancel_during_execution_lost [OF sample_env_ok sample_env_ok sp cancel work fin] sp cancel fin
  show ?thesis by (fastforce simp: demo_request_def getState_def)
qed

end
