(* ===== verification/Dispatch_Harness.thy ===== *)
theory Dispatch_Harness
  imports Engine_Properties
begin

text \<open>
  \<open>self/subcortex/workflows/src/workflow-dispatch-harness.ts\<close>: the loop that drives a run by
  executing internal nodes through the engine and dispatching the others to agents. An
  action (\<open>act\<close>) takes the whole state, engine and calls included, and keeps what it changed
  when it throws, as the code does. Whenever the harness awaits, other users of the engine may
  run operations of their own on it (\<open>hc_others\<close>). The agents, the clock, those users and the order
  in which the promises of a batch settle are parameters. \<open>while (true)\<close> has fuel; a run that needs more is \<open>None\<close>.
\<close>

section \<open>Dispatch table and agent results\<close>

datatype execution_mode = ModeInternal | ModeDispatched

datatype agent_class = AgOrchestrator | AgWorker

fun WORKFLOW_NODE_DISPATCH_MAP :: "node_kind \<Rightarrow> execution_mode \<times> agent_class option" where
  "WORKFLOW_NODE_DISPATCH_MAP KModelCall = (ModeDispatched, Some AgWorker)"
| "WORKFLOW_NODE_DISPATCH_MAP KToolExecution = (ModeDispatched, Some AgWorker)"
| "WORKFLOW_NODE_DISPATCH_MAP KSubworkflow = (ModeDispatched, Some AgOrchestrator)"
| "WORKFLOW_NODE_DISPATCH_MAP _ = (ModeInternal, None)"

fun agent_class_json :: "agent_class option \<Rightarrow> json" where
  "agent_class_json None = JNull"
| "agent_class_json (Some AgOrchestrator) = JStr ''Orchestrator''"
| "agent_class_json (Some AgWorker) = JStr ''Worker''"

datatype agent_status =
  AgCompleted | AgEscalated | AgAborted | AgBudgetExhausted | AgError | AgSuspended

fun agent_status_text :: "agent_status \<Rightarrow> string" where
  "agent_status_text AgCompleted = ''completed''"
| "agent_status_text AgEscalated = ''escalated''"
| "agent_status_text AgAborted = ''aborted''"
| "agent_status_text AgBudgetExhausted = ''budget_exhausted''"
| "agent_status_text AgError = ''error''"
| "agent_status_text AgSuspended = ''suspended''"

record agent_result =
  ag_status :: agent_status
  ag_tokensUsed :: "nat option"

fun mapAgentResultToNodeOutcome :: "agent_status \<Rightarrow> bool \<times> string" where
  \<comment> \<open>whether the node counts as completed, and the reason\<close>
  "mapAgentResultToNodeOutcome AgCompleted = (True, ''node_completed_by_agent'')"
| "mapAgentResultToNodeOutcome AgEscalated = (False, ''agent_escalated'')"
| "mapAgentResultToNodeOutcome AgAborted = (False, ''agent_aborted'')"
| "mapAgentResultToNodeOutcome AgBudgetExhausted = (False, ''agent_budget_exhausted'')"
| "mapAgentResultToNodeOutcome AgError = (False, ''agent_error'')"
| "mapAgentResultToNodeOutcome AgSuspended = (False, ''agent_suspended'')"

datatype dispatch =
    ToWorker string string \<comment> \<open>node, instructions\<close>
  | ToOrchestrator string string string \<comment> \<open>node, skill, instructions\<close>

fun dispatch_node_of :: "dispatch \<Rightarrow> string" where
  "dispatch_node_of (ToWorker n _) = n"
| "dispatch_node_of (ToOrchestrator n _ _) = n"

section \<open>State of a harness run\<close>

record token_usage =
  tu_inputTokens :: nat
  tu_outputTokens :: nat
  tu_totalTokens :: nat

record node_result =
  nr_nodeDefinitionId :: string
  nr_executionMode :: execution_mode
  nr_agentResult :: "agent_result option"
  nr_engineResult :: "run_state option"
  nr_usage :: "nat option"

record harness_config =
  hc_deps :: engine_deps
  hc_agent :: "dispatch list \<Rightarrow> dispatch \<Rightarrow> agent_result result"
  hc_concurrencyLimit :: "nat option"
  hc_maxNodeAttempts :: "nat option"
  hc_env :: "call list \<Rightarrow> wf_env"
  hc_elapsed :: "call list \<Rightarrow> nat"
  hc_settles :: "dispatch list \<Rightarrow> dispatch list \<Rightarrow> dispatch list"
  hc_others :: "nat \<Rightarrow> (wf_env \<times> engine_op) list" \<comment> \<open>what others do to the engine at the n-th await\<close>

record harness =
  hs_engine :: engine
  hs_calls :: "call list"
  hs_awaits :: nat
  hs_dispatches :: "dispatch list"
  hs_currentState :: run_state
  hs_nodeResults :: "(string \<times> node_result) list"
  hs_nodeAttemptCounts :: "(string \<times> nat) list"
  hs_totalUsage :: token_usage

record harness_result =
  hr_finalRunState :: run_state
  hr_nodeResults :: "(string \<times> node_result) list"
  hr_totalUsage :: token_usage
  hr_suspended :: bool

definition concurrency_limit :: "harness_config \<Rightarrow> nat" where
  "concurrency_limit cfg = getOr (hc_concurrencyLimit cfg) 6"

definition max_node_attempts :: "harness_config \<Rightarrow> nat" where
  "max_node_attempts cfg = getOr (hc_maxNodeAttempts cfg) 3"

section \<open>Actions\<close>

type_synonym 'a act = "harness \<Rightarrow> 'a result \<times> harness"

definition returnA :: "'a \<Rightarrow> 'a act" where
  "returnA x = (\<lambda>h. (Inr x, h))"

definition bindA :: "'a act \<Rightarrow> ('a \<Rightarrow> 'b act) \<Rightarrow> 'b act" where
  "bindA m f = (\<lambda>h. case m h of (Inl e, h') \<Rightarrow> (Inl e, h') | (Inr x, h') \<Rightarrow> f x h')"

definition catchA :: "'a act \<Rightarrow> 'a act \<Rightarrow> 'a act" where
  "catchA m handle = (\<lambda>h. case m h of (Inl e, h') \<Rightarrow> handle h' | (Inr x, h') \<Rightarrow> (Inr x, h'))"

definition settleA :: "'a act \<Rightarrow> unit act" where
  \<comment> \<open>a promise of \<open>Promise.allSettled\<close>\<close>
  "settleA m = (\<lambda>h. (Inr (), snd (m h)))"

fun eachA :: "('a \<Rightarrow> unit act) \<Rightarrow> 'a list \<Rightarrow> unit act" where
  "eachA f [] = returnA ()"
| "eachA f (x # xs) = bindA (f x) (\<lambda>_. eachA f xs)"

definition readA :: "(harness \<Rightarrow> 'a) \<Rightarrow> 'a act" where
  "readA f = (\<lambda>h. (Inr (f h), h))"

definition updateA :: "(harness \<Rightarrow> harness) \<Rightarrow> unit act" where
  "updateA f = (\<lambda>h. (Inr (), f h))"

definition other_apply :: "engine_deps \<Rightarrow> wf_env \<times> engine_op \<Rightarrow> harness \<Rightarrow> harness" where
  \<comment> \<open>an operation of another user of the engine; one that throws stores nothing\<close>
  "other_apply deps = (\<lambda>(env, eop) h.
     case engine_apply deps env eop (hs_engine h) (hs_calls h) of
       (Inl e, calls) \<Rightarrow> h\<lparr>hs_calls := calls\<rparr>
     | (Inr en, calls) \<Rightarrow> h\<lparr>hs_engine := en, hs_calls := calls\<rparr>)"

definition meanwhile :: "harness_config \<Rightarrow> harness \<Rightarrow> harness" where
  \<comment> \<open>what happens while the harness awaits\<close>
  "meanwhile cfg h =
     fold (other_apply (hc_deps cfg)) (hc_others cfg (hs_awaits h)) (h\<lparr>hs_awaits := Suc (hs_awaits h)\<rparr>)"

definition awaitA :: "harness_config \<Rightarrow> unit act" where
  "awaitA cfg = (\<lambda>h. (Inr (), meanwhile cfg h))"

definition engineA :: "harness_config \<Rightarrow> (wf_env \<Rightarrow> engine \<Rightarrow> (run_state \<times> engine) io) \<Rightarrow> run_state act" where
  \<comment> \<open>\<open>await this.engine.operation(...)\<close>\<close>
  "engineA cfg operation = (\<lambda>h.
     case operation (hc_env cfg (hs_calls h)) (hs_engine h) (hs_calls h) of
       (Inl e, calls) \<Rightarrow> (Inl e, meanwhile cfg (h\<lparr>hs_calls := calls\<rparr>))
     | (Inr (s, en), calls) \<Rightarrow> (Inr s, meanwhile cfg (h\<lparr>hs_engine := en, hs_calls := calls\<rparr>)))"

definition observeA :: "harness_config \<Rightarrow> string \<Rightarrow> (string \<times> json) list \<Rightarrow> unit act" where
  \<comment> \<open>\<open>await this.observer?.event(...)\<close>\<close>
  "observeA cfg name info = (\<lambda>h.
     case observe (ed_services (hc_deps cfg)) name info (hs_calls h) of
       (r, calls) \<Rightarrow> (r, meanwhile cfg (h\<lparr>hs_calls := calls\<rparr>)))"

definition countAttempt :: "string \<Rightarrow> nat act" where
  "countAttempt n = bindA (readA (\<lambda>h. getOr (obj_get n (hs_nodeAttemptCounts h)) 0 + 1)) (\<lambda>attempts.
     bindA (updateA (\<lambda>h. h\<lparr>hs_nodeAttemptCounts := obj_set n attempts (hs_nodeAttemptCounts h)\<rparr>)) (\<lambda>_.
       returnA attempts))"

definition setCurrent :: "run_state \<Rightarrow> unit act" where
  "setCurrent s = updateA (\<lambda>h. h\<lparr>hs_currentState := s\<rparr>)"

definition setResult :: "string \<Rightarrow> execution_mode \<Rightarrow> agent_result option \<Rightarrow> run_state option \<Rightarrow> unit act" where
  "setResult n mode agent engineState = updateA (\<lambda>h. h\<lparr>hs_nodeResults := obj_set n
     \<lparr>nr_nodeDefinitionId = n, nr_executionMode = mode, nr_agentResult = agent, nr_engineResult = engineState,
      nr_usage = Option.bind agent ag_tokensUsed\<rparr> (hs_nodeResults h)\<rparr>)"

definition give_up :: "harness_config \<Rightarrow> string \<Rightarrow> execution_mode \<Rightarrow> string \<Rightarrow> string \<Rightarrow> (string \<times> json) list \<Rightarrow> unit act" where
  \<comment> \<open>the code's way to fail a node: complete it in the engine with the reason, note it and
      report it as failed\<close>
  "give_up cfg runId mode n reason extra =
     bindA (engineA cfg (\<lambda>env. engine_completeNode (hc_deps cfg) env runId n
       \<lparr>tn_reasonCode = reason, tn_evidenceRefs = [], tn_occurredAt = None\<rparr>)) (\<lambda>s.
     bindA (setCurrent s) (\<lambda>_.
     bindA (setResult n mode None None) (\<lambda>_.
       observeA cfg ''harness:node_failed''
         ([(''runId'', JStr runId), (''nodeDefinitionId'', JStr n), (''reasonCode'', JStr reason)] @ extra))))"

definition elapsed :: "harness_config \<Rightarrow> harness \<Rightarrow> (string \<times> json) list" where
  "elapsed cfg h = [(''durationMs'', JNum (hc_elapsed cfg (hs_calls h)))]"

definition report_dispatch :: "harness_config \<Rightarrow> string \<Rightarrow> string \<Rightarrow> execution_mode \<Rightarrow> agent_class option \<Rightarrow> unit act" where
  "report_dispatch cfg runId n mode agentClass = observeA cfg ''harness:node_dispatched''
     [(''runId'', JStr runId), (''nodeDefinitionId'', JStr n),
      (''executionMode'', JStr (if mode = ModeInternal then ''internal'' else ''dispatched'')),
      (''agentClass'', agent_class_json agentClass)]"

section \<open>Internal nodes\<close>

definition internal_request :: "string \<Rightarrow> string \<Rightarrow> execute_node_request" where
  "internal_request runId n =
     \<lparr>xr_executionId = runId, xr_nodeDefinitionId = n, xr_controlState = CtlRunning, xr_governanceInput = None,
      xr_payload = None, xr_transition = \<lparr>tn_reasonCode = ''harness_execute_internal'', tn_evidenceRefs = [],
        tn_occurredAt = None\<rparr>\<rparr>"

definition execute_internal :: "harness_config \<Rightarrow> string \<Rightarrow> string \<Rightarrow> bool act" where
  \<comment> \<open>the \<open>try\<close> block\<close>
  "execute_internal cfg runId n =
     bindA (engineA cfg (\<lambda>env. engine_executeReadyNode (hc_deps cfg) env (internal_request runId n))) (\<lambda>s.
     bindA (setCurrent s) (\<lambda>_.
     bindA (setResult n ModeInternal None (Some s)) (\<lambda>_.
     bindA (readA (elapsed cfg)) (\<lambda>duration.
     bindA (observeA cfg ''harness:node_completed''
       ([(''runId'', JStr runId), (''nodeDefinitionId'', JStr n), (''outcome'', JStr ''completed'')] @ duration)) (\<lambda>_.
       returnA True)))))"

definition recover_internal :: "harness_config \<Rightarrow> string \<Rightarrow> string \<Rightarrow> bool act" where
  \<comment> \<open>the \<open>catch\<close> block; \<open>False\<close> breaks out of the loop over the nodes\<close>
  "recover_internal cfg runId n =
     bindA (catchA
       (bindA (engineA cfg (\<lambda>env. engine_completeNode (hc_deps cfg) env runId n
          \<lparr>tn_reasonCode = ''engine_execution_error'', tn_evidenceRefs = [], tn_occurredAt = None\<rparr>)) (\<lambda>s.
        bindA (setCurrent s) (\<lambda>_. returnA True)))
       (returnA False)) (\<lambda>completed.
     if \<not> completed then returnA False
     else
       bindA (setResult n ModeInternal None None) (\<lambda>_.
       bindA (readA (elapsed cfg)) (\<lambda>duration.
       bindA (observeA cfg ''harness:node_failed''
         ([(''runId'', JStr runId), (''nodeDefinitionId'', JStr n), (''reasonCode'', JStr ''engine_execution_error'')] @ duration)) (\<lambda>_.
         returnA True))))"

definition internal_node :: "harness_config \<Rightarrow> string \<Rightarrow> string \<Rightarrow> bool act" where
  "internal_node cfg runId n =
     bindA (countAttempt n) (\<lambda>attempts.
     if max_node_attempts cfg < attempts
     then bindA (give_up cfg runId ModeInternal n ''max_node_attempts_exceeded'' []) (\<lambda>_. returnA True)
     else bindA (report_dispatch cfg runId n ModeInternal None) (\<lambda>_.
       catchA (execute_internal cfg runId n) (recover_internal cfg runId n)))"

fun run_internal :: "harness_config \<Rightarrow> string \<Rightarrow> string list \<Rightarrow> unit act" where
  "run_internal cfg runId [] = returnA ()"
| "run_internal cfg runId (n # ns) =
     bindA (internal_node cfg runId n) (\<lambda>continue. if continue then run_internal cfg runId ns else returnA ())"

section \<open>Dispatched nodes\<close>

definition dispatch_for :: "string \<Rightarrow> node_definition \<Rightarrow> dispatch" where
  "dispatch_for n d =
     (if nd_type d = KSubworkflow
      then ToOrchestrator n (nd_name d) (''Execute subworkflow node: '' @ nd_name d)
      else ToWorker n (''Execute workflow node: '' @ nd_name d @ '' ('' @ node_kind_text (nd_type d) @ '')''))"

text \<open>A promise runs to its first \<open>await\<close> on the agent when it is created (\<open>start_dispatch\<close>), and
  from there when the agent has answered (\<open>finish_dispatch\<close>).\<close>

definition start_dispatch :: "harness_config \<Rightarrow> string \<Rightarrow> workflow_graph \<Rightarrow> string \<Rightarrow> dispatch option act" where
  "start_dispatch cfg runId graph n =
     (case obj_get n (gr_nodes graph) of
        None \<Rightarrow> returnA None
      | Some node \<Rightarrow>
          bindA (countAttempt n) (\<lambda>attempts.
          if max_node_attempts cfg < attempts
          then bindA (give_up cfg runId ModeDispatched n ''max_node_attempts_exceeded'' []) (\<lambda>_. returnA None)
          else
            (let d = dn_definition node in
             bindA (report_dispatch cfg runId n ModeDispatched (snd (WORKFLOW_NODE_DISPATCH_MAP (nd_type d)))) (\<lambda>_.
             bindA (updateA (\<lambda>h. h\<lparr>hs_dispatches := hs_dispatches h @ [dispatch_for n d]\<rparr>)) (\<lambda>_.
               returnA (Some (dispatch_for n d)))))))"

definition add_usage :: "nat option \<Rightarrow> token_usage \<Rightarrow> token_usage" where
  "add_usage tokens u =
     u\<lparr>tu_inputTokens := tu_inputTokens u + getOr tokens 0, tu_totalTokens := tu_totalTokens u + getOr tokens 0\<rparr>"

definition node_report :: "harness_config \<Rightarrow> string \<Rightarrow> string \<Rightarrow> (string \<times> json) list \<Rightarrow> string \<Rightarrow> unit act" where
  "node_report cfg runId n info name =
     bindA (readA (elapsed cfg)) (\<lambda>duration.
       observeA cfg name ([(''runId'', JStr runId), (''nodeDefinitionId'', JStr n)] @ info @ duration))"

definition finish_dispatch :: "harness_config \<Rightarrow> string \<Rightarrow> dispatch \<Rightarrow> unit act" where
  "finish_dispatch cfg runId dis =
     (let n = dispatch_node_of dis in
      bindA (awaitA cfg) (\<lambda>_.
      bindA (readA (\<lambda>h. hc_agent cfg (hs_dispatches h) dis)) (\<lambda>answer.
      case answer of
        Inl e \<Rightarrow> bindA (readA (elapsed cfg)) (\<lambda>duration. give_up cfg runId ModeDispatched n ''dispatch_exception'' duration)
      | Inr agent \<Rightarrow>
          if ag_status agent = AgSuspended then
            bindA (node_report cfg runId n [(''outcome'', JStr ''waiting'')] ''harness:node_completed'') (\<lambda>_.
              setResult n ModeDispatched (Some agent) None)
          else
            (let (completed, reason) = mapAgentResultToNodeOutcome (ag_status agent) in
             bindA (engineA cfg (\<lambda>env. engine_completeNode (hc_deps cfg) env runId n
               \<lparr>tn_reasonCode = reason, tn_evidenceRefs = [], tn_occurredAt = None\<rparr>)) (\<lambda>s.
             bindA (setCurrent s) (\<lambda>_.
             bindA (updateA (\<lambda>h. h\<lparr>hs_totalUsage := add_usage (ag_tokensUsed agent) (hs_totalUsage h)\<rparr>)) (\<lambda>_.
             bindA (setResult n ModeDispatched (Some agent) None) (\<lambda>_.
               node_report cfg runId n
                 [(''outcome'', JStr (if completed then ''completed'' else ''failed'')), (''reasonCode'', JStr reason),
                  (''agentStatus'', JStr (agent_status_text (ag_status agent)))]
                 (if completed then ''harness:node_completed'' else ''harness:node_failed'')))))))))"

fun start_batch :: "harness_config \<Rightarrow> string \<Rightarrow> workflow_graph \<Rightarrow> string list \<Rightarrow> dispatch list act" where
  \<comment> \<open>a promise that throws before its agent is called settles\<close>
  "start_batch cfg runId graph [] = returnA []"
| "start_batch cfg runId graph (n # ns) =
     bindA (catchA (start_dispatch cfg runId graph n) (returnA None)) (\<lambda>started.
     bindA (start_batch cfg runId graph ns) (\<lambda>rest.
       returnA (case started of None \<Rightarrow> rest | Some d \<Rightarrow> d # rest)))"

definition run_batch :: "harness_config \<Rightarrow> string \<Rightarrow> workflow_graph \<Rightarrow> string list \<Rightarrow> unit act" where
  "run_batch cfg runId graph batch =
     bindA (start_batch cfg runId graph batch) (\<lambda>started.
     bindA (readA (\<lambda>h. hc_settles cfg (hs_dispatches h) started)) (\<lambda>order.
     bindA (eachA (\<lambda>dis. settleA (finish_dispatch cfg runId dis)) order) (\<lambda>_.
       awaitA cfg)))"

function batchNodes :: "nat \<Rightarrow> 'a list \<Rightarrow> 'a list list option" where
  \<comment> \<open>\<open>None\<close>: with a batch size of 0 the loop of the code does not end\<close>
  "batchNodes batchSize xs =
     (if xs = [] then Some [] else if batchSize = 0 then None
      else map_option ((#) (take batchSize xs)) (batchNodes batchSize (drop batchSize xs)))"
  by auto
termination by (relation "measure (\<lambda>(batchSize, xs). length xs)") auto

declare batchNodes.simps [simp del]

section \<open>The loop\<close>

definition nodes_of_mode :: "workflow_graph \<Rightarrow> execution_mode \<Rightarrow> string list \<Rightarrow> string list" where
  "nodes_of_mode graph mode ids = filter
     (\<lambda>n. case obj_get n (gr_nodes graph) of None \<Rightarrow> False
          | Some node \<Rightarrow> fst (WORKFLOW_NODE_DISPATCH_MAP (nd_type (dn_definition node))) = mode) ids"

definition human_decision_nodes :: "workflow_graph \<Rightarrow> string list \<Rightarrow> string list" where
  "human_decision_nodes graph ids = filter (\<lambda>n. node_kind_of graph n = Some KHumanDecision) ids"

definition refreshA :: "harness_config \<Rightarrow> string \<Rightarrow> unit act" where
  \<comment> \<open>\<open>currentState = (await this.engine.getState(runId)) ?? currentState\<close>\<close>
  "refreshA cfg runId =
     bindA (readA (\<lambda>h. getState runId (hs_engine h))) (\<lambda>refreshed.
     bindA (awaitA cfg) (\<lambda>_.
       updateA (\<lambda>h. h\<lparr>hs_currentState := getOr refreshed (hs_currentState h)\<rparr>)))"

datatype loop_control = LoopAgain | LoopBreak | LoopSuspend | LoopStuck

definition harness_round :: "harness_config \<Rightarrow> string \<Rightarrow> workflow_graph \<Rightarrow> loop_control act" where
  "harness_round cfg runId graph =
     bindA (readA (\<lambda>h. rs_readyNodeIds (hs_currentState h))) (\<lambda>ready.
     if ready = [] then returnA LoopBreak
     else if human_decision_nodes graph ready \<noteq> [] then
       bindA (observeA cfg ''harness:run_suspended''
         [(''runId'', JStr runId), (''humanDecisionNodeIds'', JArr (map JStr (human_decision_nodes graph ready)))]) (\<lambda>_.
         returnA LoopSuspend)
     else
       bindA (run_internal cfg runId (nodes_of_mode graph ModeInternal ready)) (\<lambda>_.
       (case batchNodes (concurrency_limit cfg) (nodes_of_mode graph ModeDispatched ready) of
          None \<Rightarrow> returnA LoopStuck
        | Some batches \<Rightarrow>
            bindA (eachA (run_batch cfg runId graph) batches) (\<lambda>_.
            bindA (refreshA cfg runId) (\<lambda>_.
              readA (\<lambda>h. if rs_status (hs_currentState h) \<in> {RsCompleted, RsFailed, RsCanceled} then LoopBreak else LoopAgain))))))"

definition conclude :: "bool \<Rightarrow> harness_result act" where
  "conclude suspended = readA (\<lambda>h.
     \<lparr>hr_finalRunState = hs_currentState h, hr_nodeResults = hs_nodeResults h, hr_totalUsage = hs_totalUsage h,
      hr_suspended = suspended\<rparr>)"

definition report_completion :: "harness_config \<Rightarrow> string \<Rightarrow> unit act" where
  "report_completion cfg runId =
     bindA (readA (\<lambda>h. h)) (\<lambda>h. observeA cfg ''harness:run_completed''
       [(''runId'', JStr runId), (''status'', JStr (run_status_text (rs_status (hs_currentState h)))),
        (''totalNodes'', JNum (length (hs_nodeResults h))),
        (''totalUsage'', JObj [(''inputTokens'', JNum (tu_inputTokens (hs_totalUsage h))),
           (''outputTokens'', JNum (tu_outputTokens (hs_totalUsage h))),
           (''totalTokens'', JNum (tu_totalTokens (hs_totalUsage h)))])])"

fun harness_loop :: "nat \<Rightarrow> harness_config \<Rightarrow> string \<Rightarrow> workflow_graph \<Rightarrow> harness \<Rightarrow> (harness_result result \<times> harness) option" where
  "harness_loop 0 cfg runId graph h = None"
| "harness_loop (Suc fuel) cfg runId graph h =
     (case harness_round cfg runId graph h of
        (Inl e, h') \<Rightarrow> Some (Inl e, h')
      | (Inr LoopStuck, h') \<Rightarrow> None
      | (Inr LoopAgain, h') \<Rightarrow> harness_loop fuel cfg runId graph h'
      | (Inr LoopSuspend, h') \<Rightarrow> Some (conclude True h')
      | (Inr LoopBreak, h') \<Rightarrow> Some (bindA (report_completion cfg runId) (\<lambda>_. conclude False) h'))"

definition initial_harness :: "engine \<Rightarrow> run_state \<Rightarrow> harness" where
  "initial_harness en initialRunState =
     \<lparr>hs_engine = en, hs_calls = [], hs_awaits = 0, hs_dispatches = [], hs_currentState = initialRunState, hs_nodeResults = [],
      hs_nodeAttemptCounts = [], hs_totalUsage = \<lparr>tu_inputTokens = 0, tu_outputTokens = 0, tu_totalTokens = 0\<rparr>\<rparr>"

definition harness_run :: "nat \<Rightarrow> harness_config \<Rightarrow> string \<Rightarrow> workflow_graph \<Rightarrow> run_state \<Rightarrow> engine \<Rightarrow> (harness_result result \<times> harness) option" where
  "harness_run fuel cfg runId graph initialRunState en =
     harness_loop fuel cfg runId graph (initial_harness en initialRunState)"

end
