(* ===== verification/Harness_Properties.thy ===== *)
theory Harness_Properties
  imports Engine_Runs Dispatch_Harness
begin

text \<open>
  What the dispatch harness keeps: the number and the shape of its dispatches, the agreement
  of its cached run state with the engine, and the consistency of the run it drives. The
  lemmas on actions (\<open>keeps\<close>) are shared: an invariant is proved for the steps of the loop once
  and lifted to the loop.
\<close>

section \<open>Actions that keep a condition\<close>

named_theorems keeps_intros

definition keeps :: "(harness \<Rightarrow> bool) \<Rightarrow> 'a act \<Rightarrow> bool" where
  "keeps P m \<longleftrightarrow> (\<forall>h. P h \<longrightarrow> P (snd (m h)))"

lemma keepsI: "(\<And>h. P h \<Longrightarrow> P (snd (m h))) \<Longrightarrow> keeps P m"
  by (simp add: keeps_def)

lemma keepsD: "keeps P m \<Longrightarrow> P h \<Longrightarrow> P (snd (m h))"
  by (simp add: keeps_def)

lemma keeps_return [keeps_intros]: "keeps P (returnA x)"
  by (simp add: keeps_def returnA_def)

lemma keeps_read [keeps_intros]: "keeps P (readA f)"
  by (simp add: keeps_def readA_def)

lemma keeps_update [keeps_intros]: "(\<And>h. P h \<Longrightarrow> P (f h)) \<Longrightarrow> keeps P (updateA f)"
  by (simp add: keeps_def updateA_def)

lemma keeps_bind [keeps_intros]: "keeps P m \<Longrightarrow> (\<And>x. keeps P (f x)) \<Longrightarrow> keeps P (bindA m f)"
  by (auto simp: keeps_def bindA_def split: prod.split sum.split)

lemma keeps_catch [keeps_intros]: "keeps P m \<Longrightarrow> keeps P handle \<Longrightarrow> keeps P (catchA m handle)"
  by (auto simp: keeps_def catchA_def split: prod.split sum.split)

lemma keeps_settle [keeps_intros]: "keeps P m \<Longrightarrow> keeps P (settleA m)"
  by (simp add: keeps_def settleA_def)

lemma keeps_each [keeps_intros]: "(\<And>x. x \<in> set xs \<Longrightarrow> keeps P (f x)) \<Longrightarrow> keeps P (eachA f xs)"
  by (induction xs) (auto intro!: keeps_intros)

lemma keeps_if [keeps_intros]: "(b \<Longrightarrow> keeps P m) \<Longrightarrow> (\<not> b \<Longrightarrow> keeps P m') \<Longrightarrow> keeps P (if b then m else m')"
  by simp

section \<open>Batches\<close>

lemma batchNodes_zero: "batchNodes 0 xs = (if xs = [] then Some [] else None)"
  by (subst batchNodes.simps) simp

lemma batchNodes_partition:
  "0 < k \<Longrightarrow> \<exists>bs. batchNodes k xs = Some bs \<and> concat bs = xs \<and> (\<forall>b\<in>set bs. b \<noteq> [] \<and> length b \<le> k)"
proof (induction k xs rule: batchNodes.induct)
  case (1 k xs)
  show ?case
  proof (cases "xs = []")
    case True
    then show ?thesis by (subst batchNodes.simps) simp
  next
    case False
    with 1 obtain bs where "batchNodes k (drop k xs) = Some bs" "concat bs = drop k xs"
      "\<forall>b\<in>set bs. b \<noteq> [] \<and> length b \<le> k" by auto
    with False 1(2) show ?thesis by (subst batchNodes.simps) simp
  qed
qed

lemma batchNodes_members:
  assumes "batchNodes k xs = Some bs" and "b \<in> set bs" and "n \<in> set b"
  shows "n \<in> set xs"
proof (cases "0 < k")
  case True
  with batchNodes_partition [of k xs] assms(1) have "concat bs = xs" by auto
  with assms(2,3) show ?thesis by auto
next
  case False
  with assms show ?thesis by (auto simp: batchNodes_zero split: if_splits)
qed

section \<open>Lifting to the loop\<close>

lemma keeps_run_batch:
  assumes "\<And>n. n \<in> set ns \<Longrightarrow> keeps P (start_dispatch cfg rid g n)"
    and "\<And>d. keeps P (finish_dispatch cfg rid d)" and "keeps P (awaitA cfg)"
  shows "keeps P (run_batch cfg rid g ns)"
proof -
  have "keeps P (start_batch cfg rid g ns)"
    using assms(1) by (induction ns) (auto intro!: keeps_intros)
  with assms(2,3) show ?thesis by (auto simp: run_batch_def intro!: keeps_intros)
qed

lemma keeps_round:
  assumes "\<And>n. keeps P (internal_node cfg rid n)"
    and "\<And>ids n. n \<in> set (nodes_of_mode g ModeDispatched ids) \<Longrightarrow> keeps P (start_dispatch cfg rid g n)"
    and "\<And>d. keeps P (finish_dispatch cfg rid d)"
    and "\<And>name info. keeps P (observeA cfg name info)"
    and "keeps P (awaitA cfg)" and "keeps P (refreshA cfg rid)"
  shows "keeps P (harness_round cfg rid g)"
proof -
  have internal: "keeps P (run_internal cfg rid ns)" for ns
    using assms(1) by (induction ns) (auto intro!: keeps_intros)
  have batches: "keeps P (run_batch cfg rid g b)"
    if "batchNodes k (nodes_of_mode g ModeDispatched ids) = Some bs" "b \<in> set bs" for k ids bs b
    using assms(2,3,5) batchNodes_members [OF that] by (blast intro: keeps_run_batch)
  show ?thesis
    unfolding harness_round_def using internal batches assms(4,6)
    by (auto split: option.split intro!: keeps_intros)
qed

lemma keeps_loop:
  assumes "keeps P (harness_round cfg rid g)" and "\<And>name info. keeps P (observeA cfg name info)"
    and "harness_loop fuel cfg rid g h = Some (r, h')" and "P h"
  shows "P h'"
  using assms(3,4)
proof (induction fuel arbitrary: h)
  case (Suc fuel)
  obtain x h1 where round: "harness_round cfg rid g h = (x, h1)" by fastforce
  with keepsD [OF assms(1) Suc.prems(2)] have "P h1" by simp
  have stop: "keeps P (bindA (report_completion cfg rid) (\<lambda>_. conclude False))" "keeps P (conclude True)"
    using assms(2) by (auto simp: report_completion_def conclude_def intro!: keeps_intros)
  show ?case
    using Suc round \<open>P h1\<close> keepsD [OF stop(1) \<open>P h1\<close>] keepsD [OF stop(2) \<open>P h1\<close>]
    by (auto split: sum.splits loop_control.splits)
qed simp

lemma loop_result:
  assumes "harness_loop fuel cfg rid g h = Some (Inr res, h')"
  shows "hr_finalRunState res = hs_currentState h'"
  using assms
proof (induction fuel arbitrary: h)
  case (Suc fuel)
  obtain x h1 where round: "harness_round cfg rid g h = (x, h1)" by fastforce
  show ?case
    using Suc round
    by (auto simp: conclude_def readA_def bindA_def split: sum.splits loop_control.splits prod.splits)
qed simp

section \<open>The dispatches of a run\<close>

abbreviation attempts_of :: "harness \<Rightarrow> string \<Rightarrow> nat" where
  "attempts_of h n \<equiv> getOr (obj_get n (hs_nodeAttemptCounts h)) 0"

abbreviation dispatches_of :: "harness \<Rightarrow> string \<Rightarrow> nat" where
  "dispatches_of h n \<equiv> count_list (map dispatch_node_of (hs_dispatches h)) n"

definition dispatched_as :: "workflow_graph \<Rightarrow> dispatch \<Rightarrow> bool" where
  \<comment> \<open>an existing node of a dispatched kind, sent to the agent of its kind\<close>
  "dispatched_as g d \<longleftrightarrow> (case obj_get (dispatch_node_of d) (gr_nodes g) of
     None \<Rightarrow> False
   | Some node \<Rightarrow> fst (WORKFLOW_NODE_DISPATCH_MAP (nd_type (dn_definition node))) = ModeDispatched \<and>
       d = dispatch_for (dispatch_node_of d) (dn_definition node))"

definition dispatch_inv :: "harness_config \<Rightarrow> workflow_graph \<Rightarrow> harness \<Rightarrow> bool" where
  "dispatch_inv cfg g h \<longleftrightarrow>
     (\<forall>n. dispatches_of h n \<le> attempts_of h n \<and> dispatches_of h n \<le> max_node_attempts cfg) \<and>
     (\<forall>d\<in>set (hs_dispatches h). dispatched_as g d)"

definition quiet :: "'a act \<Rightarrow> bool" where
  \<comment> \<open>it neither dispatches nor counts an attempt\<close>
  "quiet m \<longleftrightarrow> (\<forall>h. hs_dispatches (snd (m h)) = hs_dispatches h \<and> hs_nodeAttemptCounts (snd (m h)) = hs_nodeAttemptCounts h)"

lemma quiet_bind [keeps_intros]: "quiet m \<Longrightarrow> (\<And>x. quiet (f x)) \<Longrightarrow> quiet (bindA m f)"
  unfolding quiet_def bindA_def by (metis (mono_tags, lifting) old.prod.case prod.collapse snd_conv sum.case sum.exhaust)

lemma quiet_catch [keeps_intros]: "quiet m \<Longrightarrow> quiet handle \<Longrightarrow> quiet (catchA m handle)"
  unfolding quiet_def catchA_def by (metis (mono_tags, lifting) old.prod.case prod.collapse snd_conv sum.case sum.exhaust)

lemma other_apply_quiet [simp]:
  "hs_dispatches (other_apply deps x h) = hs_dispatches h"
  "hs_nodeAttemptCounts (other_apply deps x h) = hs_nodeAttemptCounts h"
  "hs_currentState (other_apply deps x h) = hs_currentState h"
  by (auto simp: other_apply_def split: prod.split sum.split)

lemma others_quiet [simp]:
  "hs_dispatches (fold (other_apply deps) xs h) = hs_dispatches h"
  "hs_nodeAttemptCounts (fold (other_apply deps) xs h) = hs_nodeAttemptCounts h"
  "hs_currentState (fold (other_apply deps) xs h) = hs_currentState h"
  by (induction xs arbitrary: h) simp_all

lemma meanwhile_quiet [simp]:
  "hs_dispatches (meanwhile cfg h) = hs_dispatches h"
  "hs_nodeAttemptCounts (meanwhile cfg h) = hs_nodeAttemptCounts h"
  "hs_currentState (meanwhile cfg h) = hs_currentState h"
  by (simp_all add: meanwhile_def)

lemma quiet_steps [keeps_intros]:
  "quiet (returnA x)" "quiet (readA f)" "quiet (setCurrent s)" "quiet (setResult n mode agent es)"
  "quiet (engineA cfg operation)" "quiet (observeA cfg name info)" "quiet (awaitA cfg)"
  "quiet (updateA (\<lambda>h. h\<lparr>hs_currentState := f' h\<rparr>))"
  by (auto simp: quiet_def returnA_def readA_def setCurrent_def setResult_def engineA_def observeA_def updateA_def awaitA_def
      split: sum.split prod.split)

lemma quiet_refresh: "quiet (refreshA cfg rid)"
  unfolding refreshA_def by (intro keeps_intros)

lemma quiet_give_up [keeps_intros]: "quiet (give_up cfg rid mode n reason extra)"
  unfolding give_up_def by (intro keeps_intros)

lemma quiet_report [keeps_intros]: "quiet (report_dispatch cfg rid n mode ag)" "quiet (node_report cfg rid n info name)"
  by (auto simp: report_dispatch_def node_report_def intro!: keeps_intros)

lemma quiet_internal: "quiet (execute_internal cfg rid n)" "quiet (recover_internal cfg rid n)"
  by (auto simp: execute_internal_def recover_internal_def intro!: keeps_intros)

lemma quiet_usage: "quiet (updateA (\<lambda>h. h\<lparr>hs_totalUsage := f h\<rparr>))"
  by (simp add: quiet_def updateA_def)

lemma quiet_finish: "quiet (finish_dispatch cfg rid d)"
  unfolding finish_dispatch_def Let_def
  by (auto intro!: keeps_intros quiet_usage split: sum.split prod.split)

lemma quiet_keeps:
  assumes "quiet m"
  shows "keeps (dispatch_inv cfg g) m"
  using assms by (auto simp: keeps_def quiet_def dispatch_inv_def)

lemma countAttempt_eq:
  "countAttempt n h = (Inr (Suc (attempts_of h n)),
     h\<lparr>hs_nodeAttemptCounts := obj_set n (Suc (attempts_of h n)) (hs_nodeAttemptCounts h)\<rparr>)"
  by (simp add: countAttempt_def bindA_def readA_def updateA_def returnA_def)

lemma count_keeps: "keeps (dispatch_inv cfg g) (countAttempt n)"
  by (rule keepsI) (auto simp: countAttempt_eq dispatch_inv_def obj_get_set le_SucI)

lemma start_keeps:
  assumes "n \<in> set (nodes_of_mode g ModeDispatched ids)"
  shows "keeps (dispatch_inv cfg g) (start_dispatch cfg rid g n)"
proof (rule keepsI)
  fix h assume inv: "dispatch_inv cfg g h"
  obtain node where node: "obj_get n (gr_nodes g) = Some node"
      "fst (WORKFLOW_NODE_DISPATCH_MAP (nd_type (dn_definition node))) = ModeDispatched"
    using assms by (auto simp: nodes_of_mode_def split: option.splits)
  let ?h = "snd (countAttempt n h)"
  let ?d = "dispatch_for n (dn_definition node)"
  have d: "dispatch_node_of ?d = n" "dispatched_as g ?d"
    using node by (auto simp: dispatch_for_def dispatched_as_def)
  have counted: "dispatch_inv cfg g ?h" "dispatches_of ?h n < attempts_of ?h n"
    using keepsD [OF count_keeps inv] inv by (auto simp: countAttempt_eq obj_get_set dispatch_inv_def less_Suc_eq_le)
  show "dispatch_inv cfg g (snd (start_dispatch cfg rid g n h))"
  proof (cases "max_node_attempts cfg < attempts_of ?h n")
    case True
    then show ?thesis
      using keepsD [OF quiet_keeps counted(1), of "bindA (give_up cfg rid ModeDispatched n ''max_node_attempts_exceeded'' []) (\<lambda>_. returnA None)"] node
      by (simp add: start_dispatch_def countAttempt_eq bindA_def [of "countAttempt n"] obj_get_set keeps_intros)
  next
    case False
    obtain r h2 where rep: "report_dispatch cfg rid n ModeDispatched (snd (WORKFLOW_NODE_DISPATCH_MAP (nd_type (dn_definition node)))) ?h = (r, h2)"
      by fastforce
    have h2: "hs_dispatches h2 = hs_dispatches ?h" "hs_nodeAttemptCounts h2 = hs_nodeAttemptCounts ?h"
      using quiet_report(1) [of cfg rid n ModeDispatched "snd (WORKFLOW_NODE_DISPATCH_MAP (nd_type (dn_definition node)))"] rep
      by (auto simp: quiet_def dest!: spec [of _ ?h])
    have "dispatch_inv cfg g h2" "dispatch_inv cfg g (h2\<lparr>hs_dispatches := hs_dispatches h2 @ [?d]\<rparr>)"
      using counted d False by (auto simp: h2 dispatch_inv_def)
    then show ?thesis using False node rep
      by (cases r) (simp_all add: start_dispatch_def countAttempt_eq bindA_def obj_get_set Let_def updateA_def returnA_def)
  qed
qed

lemma round_dispatches: "keeps (dispatch_inv cfg g) (harness_round cfg rid g)"
proof (rule keeps_round)
  show "keeps (dispatch_inv cfg g) (internal_node cfg rid n)" for n
    unfolding internal_node_def
    by (intro keeps_bind keeps_catch keeps_if keeps_return count_keeps quiet_keeps [OF quiet_report(1)]
        quiet_keeps [OF quiet_internal(1)] quiet_keeps [OF quiet_internal(2)] quiet_keeps [OF quiet_give_up])
qed (auto intro: start_keeps quiet_keeps quiet_finish quiet_steps quiet_refresh)

text \<open>The state after a number of rounds, whether or not the loop ends with them.\<close>

fun harness_rounds :: "nat \<Rightarrow> harness_config \<Rightarrow> string \<Rightarrow> workflow_graph \<Rightarrow> harness \<Rightarrow> harness" where
  "harness_rounds 0 cfg rid g h = h"
| "harness_rounds (Suc k) cfg rid g h = harness_rounds k cfg rid g (snd (harness_round cfg rid g h))"

lemma keeps_rounds: "keeps P (harness_round cfg rid g) \<Longrightarrow> P h \<Longrightarrow> P (harness_rounds k cfg rid g h)"
  by (induction k arbitrary: h) (auto dest: keepsD)

text \<open>C14: However many rounds a run takes, the harness dispatches each node to an agent at most
  \<open>maxNodeAttempts\<close> times, only nodes of the run's graph whose kind is a dispatched one, and
  each to the agent of its kind.\<close>

theorem dispatches_bounded:
  "dispatches_of (harness_rounds k cfg rid g (initial_harness en s)) n \<le> max_node_attempts cfg \<and>
   list_all (dispatched_as g) (hs_dispatches (harness_rounds k cfg rid g (initial_harness en s)))"
proof -
  have "dispatch_inv cfg g (initial_harness en s)" by (simp add: dispatch_inv_def initial_harness_def)
  from keeps_rounds [OF round_dispatches this, of k rid] show ?thesis
    by (simp add: dispatch_inv_def list_all_iff)
qed

section \<open>The run and its cached state\<close>

definition harness_ok :: "harness_config \<Rightarrow> bool" where
  "harness_ok cfg \<longleftrightarrow> deps_ok (hc_deps cfg) \<and> (\<forall>calls. env_ok (hc_env cfg calls)) \<and>
     (\<forall>k. \<forall>(env, eop)\<in>set (hc_others cfg k). env_ok env)"

inductive others_lead :: "harness_config \<Rightarrow> engine \<Rightarrow> engine \<Rightarrow> bool" for cfg :: harness_config and en :: engine where
  \<comment> \<open>operations of other users take one engine to the other\<close>
  stay: "others_lead cfg en en"
| other: "\<lbrakk>others_lead cfg en en1; (env, eop) \<in> set (hc_others cfg k);
     engine_apply (hc_deps cfg) env eop en1 calls = (Inr en2, calls')\<rbrakk> \<Longrightarrow> others_lead cfg en en2"

lemma others_lead_trans: "others_lead cfg en1 en2 \<Longrightarrow> others_lead cfg en en1 \<Longrightarrow> others_lead cfg en en2"
  by (induction rule: others_lead.induct) (auto intro: others_lead.intros)

lemma alone_leads: "others_lead cfg en en' \<Longrightarrow> \<forall>k. hc_others cfg k = [] \<Longrightarrow> en' = en"
  by (induction rule: others_lead.induct) auto

lemma others_reachable:
  assumes "others_lead cfg en en'" and "harness_ok cfg" and "engine_reachable (hc_deps cfg) en"
  shows "engine_reachable (hc_deps cfg) en'"
  using assms(1)
proof induction
  case stay
  show ?case using assms(3) .
next
  case (other en1 env eop k calls en2 calls')
  have "env_ok env" using assms(2) other(2) unfolding harness_ok_def by blast
  from engine_reachable.operate [OF other(4) this other(3)] show ?case .
qed

lemma others_fold:
  assumes "set xs \<subseteq> set (hc_others cfg k)"
  shows "others_lead cfg (hs_engine h) (hs_engine (fold (other_apply (hc_deps cfg)) xs h))"
  using assms
proof (induction xs arbitrary: h)
  case Nil
  show ?case by (simp add: others_lead.stay)
next
  case (Cons x xs)
  obtain env eop where x: "x = (env, eop)" by fastforce
  have "others_lead cfg (hs_engine h) (hs_engine (other_apply (hc_deps cfg) x h))"
    using Cons.prems others_lead.other [OF others_lead.stay, of env eop cfg k]
    by (auto simp: x other_apply_def others_lead.stay split: prod.split sum.split)
  with Cons.IH [of "other_apply (hc_deps cfg) x h"] Cons.prems show ?case by (auto intro: others_lead_trans)
qed

lemma meanwhile_leads: "others_lead cfg (hs_engine h) (hs_engine (meanwhile cfg h))"
  using others_fold [of "hc_others cfg (hs_awaits h)" cfg "hs_awaits h" "h\<lparr>hs_awaits := Suc (hs_awaits h)\<rparr>"]
  by (simp add: meanwhile_def)

definition tracks :: "harness_config \<Rightarrow> string \<Rightarrow> harness \<Rightarrow> bool" where
  \<comment> \<open>the cached state is one the engine held, and only others have moved the engine since\<close>
  "tracks cfg rid h \<longleftrightarrow> (\<exists>en. engine_reachable (hc_deps cfg) en \<and> getState rid en = Some (hs_currentState h) \<and>
     others_lead cfg en (hs_engine h))"

lemma tracks_lead:
  assumes "tracks cfg rid h" and "others_lead cfg (hs_engine h) (hs_engine h')" and "hs_currentState h' = hs_currentState h"
  shows "tracks cfg rid h'"
  using assms others_lead_trans unfolding tracks_def by metis

lemma tracks_meanwhile: "tracks cfg rid h \<Longrightarrow> tracks cfg rid (meanwhile cfg h)"
  by (rule tracks_lead) (simp_all add: meanwhile_leads)

lemma tracks_reachable: "tracks cfg rid h \<Longrightarrow> harness_ok cfg \<Longrightarrow> engine_reachable (hc_deps cfg) (hs_engine h)"
  unfolding tracks_def using others_reachable by blast

definition stores :: "harness_config \<Rightarrow> string \<Rightarrow> (wf_env \<Rightarrow> engine \<Rightarrow> (run_state \<times> engine) io) \<Rightarrow> bool" where
  \<comment> \<open>an engine operation on the run that returns the state it stores\<close>
  "stores cfg rid operation \<longleftrightarrow> (\<forall>env en calls s en' calls'. env_ok env \<longrightarrow> engine_reachable (hc_deps cfg) en \<longrightarrow>
     operation env en calls = (Inr (s, en'), calls') \<longrightarrow>
     engine_reachable (hc_deps cfg) en' \<and> getState rid en' = Some s)"

lemma storesD:
  assumes "stores cfg rid operation" and "operation env en calls = (Inr (s, en'), calls')"
    and "env_ok env" and "engine_reachable (hc_deps cfg) en"
  shows "engine_reachable (hc_deps cfg) en' \<and> getState rid en' = Some s"
  using assms unfolding stores_def by blast

lemma stores_complete: "stores cfg rid (\<lambda>env. engine_completeNode (hc_deps cfg) env rid n t)"
proof (unfold stores_def, intro allI impI)
  fix env en calls s en' calls'
  assume ok: "env_ok env" and reach: "engine_reachable (hc_deps cfg) en"
    and run: "engine_completeNode (hc_deps cfg) env rid n t en calls = (Inr (s, en'), calls')"
  from run have "engine_apply (hc_deps cfg) env (EComplete rid n t) en calls = (Inr en', calls')"
    by (simp add: bindIO_def returnIO_def)
  note engine_reachable.operate [OF reach ok this]
  moreover from run have "en' = store_state rid s en"
    by (auto simp: engine_completeNode_def io_steps elim!: bindIO_InrE)
  ultimately show "engine_reachable (hc_deps cfg) en' \<and> getState rid en' = Some s"
    by (simp add: getState_def store_state_def)
qed

lemma stores_execute:
  assumes "deps_ok (hc_deps cfg)"
  shows "stores cfg rid (\<lambda>env. engine_executeReadyNode (hc_deps cfg) env (internal_request rid n))"
proof (unfold stores_def, intro allI impI)
  fix env en calls s en' calls'
  assume ok: "env_ok env" and reach: "engine_reachable (hc_deps cfg) en"
    and run: "engine_executeReadyNode (hc_deps cfg) env (internal_request rid n) en calls = (Inr (s, en'), calls')"
  from run have applied: "engine_apply (hc_deps cfg) env (EExecute (internal_request rid n)) en calls = (Inr en', calls')"
    by (simp add: bindIO_def returnIO_def)
  have "en' = store_state rid s en"
    using run by (auto simp: engine_executeReadyNode_def bindIO_lift_Inr internal_request_def
        dest!: finish_Inr deps_parse(1) [OF assms] elim!: bindIO_InrE)
  then show "engine_reachable (hc_deps cfg) en' \<and> getState rid en' = Some s"
    using engine_reachable.operate [OF reach ok applied] by (simp add: getState_def store_state_def)
qed

lemma tracks_calls: "tracks cfg rid (h\<lparr>hs_calls := calls\<rparr>) \<longleftrightarrow> tracks cfg rid h"
  by (simp add: tracks_def)

lemma tracks_engine:
  assumes "harness_ok cfg" and "stores cfg rid operation" and "\<And>s. keeps (tracks cfg rid) (k s)"
  shows "keeps (tracks cfg rid) (bindA (engineA cfg operation) (\<lambda>s. bindA (setCurrent s) (\<lambda>_. k s)))"
proof (rule keepsI)
  fix h assume h: "tracks cfg rid h"
  obtain r calls where run: "operation (hc_env cfg (hs_calls h)) (hs_engine h) (hs_calls h) = (r, calls)" by fastforce
  show "tracks cfg rid (snd (bindA (engineA cfg operation) (\<lambda>s. bindA (setCurrent s) (\<lambda>_. k s)) h))"
  proof (cases r)
    case (Inl e)
    then show ?thesis using tracks_meanwhile [of cfg rid "h\<lparr>hs_calls := calls\<rparr>"] h run
      by (simp add: bindA_def engineA_def tracks_calls)
  next
    case (Inr p)
    obtain s en where p: "p = (s, en)" by fastforce
    let ?h = "meanwhile cfg (h\<lparr>hs_engine := en, hs_calls := calls\<rparr>)"
    have "engine_reachable (hc_deps cfg) en \<and> getState rid en = Some s"
      using storesD [OF assms(2) run [unfolded Inr p]] assms(1) tracks_reachable [OF h assms(1)] by (simp add: harness_ok_def)
    moreover have "others_lead cfg en (hs_engine ?h)"
      using meanwhile_leads [of cfg "h\<lparr>hs_engine := en, hs_calls := calls\<rparr>"] by simp
    ultimately have "tracks cfg rid (?h\<lparr>hs_currentState := s\<rparr>)" by (auto simp: tracks_def)
    from keepsD [OF assms(3) this] show ?thesis
      by (simp add: bindA_def engineA_def run Inr p setCurrent_def updateA_def)
  qed
qed

lemma tracks_refresh:
  assumes "harness_ok cfg"
  shows "keeps (tracks cfg rid) (refreshA cfg rid)"
proof (rule keepsI)
  fix h assume h: "tracks cfg rid h"
  have "tracks cfg rid ((meanwhile cfg h)\<lparr>hs_currentState := s\<rparr>)" if "getState rid (hs_engine h) = Some s" for s
    using tracks_reachable [OF h assms] that meanwhile_leads [of cfg h] by (auto simp: tracks_def)
  then show "tracks cfg rid (snd (refreshA cfg rid h))"
    using tracks_meanwhile [OF h]
    by (cases "getState rid (hs_engine h)")
      (auto simp: refreshA_def bindA_def readA_def awaitA_def updateA_def tracks_def)
qed

lemma tracks_steps [keeps_intros]:
  "keeps (tracks cfg rid) (setResult n mode agent es)" "keeps (tracks cfg rid) (observeA cfg name info)"
  "keeps (tracks cfg rid) (countAttempt n)" "keeps (tracks cfg rid) (updateA (\<lambda>h. h\<lparr>hs_totalUsage := f h\<rparr>))"
  "keeps (tracks cfg rid) (updateA (\<lambda>h. h\<lparr>hs_dispatches := f' h\<rparr>))" "keeps (tracks cfg rid) (awaitA cfg)"
proof -
  show "keeps (tracks cfg rid) (observeA cfg name info)"
    by (rule keepsI) (simp add: observeA_def tracks_meanwhile tracks_calls split: prod.split)
  show "keeps (tracks cfg rid) (awaitA cfg)"
    by (rule keepsI) (simp add: awaitA_def tracks_meanwhile)
qed (auto simp: keeps_def tracks_def setResult_def countAttempt_eq updateA_def)

lemma tracks_reports [keeps_intros]:
  "keeps (tracks cfg rid) (report_dispatch cfg rid n mode ag)" "keeps (tracks cfg rid) (node_report cfg rid n info name)"
  by (auto simp: report_dispatch_def node_report_def intro!: keeps_intros)

lemma tracks_give_up: "harness_ok cfg \<Longrightarrow> keeps (tracks cfg rid) (give_up cfg rid mode n reason extra)"
  unfolding give_up_def by (intro tracks_engine stores_complete keeps_intros)

lemma tracks_execute: "harness_ok cfg \<Longrightarrow> keeps (tracks cfg rid) (execute_internal cfg rid n)"
  unfolding execute_internal_def by (intro tracks_engine stores_execute keeps_intros) (simp_all add: harness_ok_def)

lemma tracks_recover: "harness_ok cfg \<Longrightarrow> keeps (tracks cfg rid) (recover_internal cfg rid n)"
  unfolding recover_internal_def by (intro keeps_bind keeps_catch keeps_if tracks_engine stores_complete keeps_intros)

lemma tracks_internal: "harness_ok cfg \<Longrightarrow> keeps (tracks cfg rid) (internal_node cfg rid n)"
  unfolding internal_node_def
  by (intro keeps_bind keeps_catch keeps_if keeps_return tracks_steps tracks_reports tracks_give_up tracks_execute tracks_recover)

lemma tracks_start: "harness_ok cfg \<Longrightarrow> keeps (tracks cfg rid) (start_dispatch cfg rid g n)"
  unfolding start_dispatch_def Let_def
  by (cases "obj_get n (gr_nodes g)")
    (auto intro!: keeps_bind keeps_if keeps_return tracks_steps tracks_reports tracks_give_up)

lemma tracks_finish: "harness_ok cfg \<Longrightarrow> keeps (tracks cfg rid) (finish_dispatch cfg rid d)"
  unfolding finish_dispatch_def Let_def
  by (auto intro!: keeps_bind keeps_read keeps_if tracks_steps tracks_reports tracks_give_up
      tracks_engine [of cfg rid, OF _ stores_complete] split: sum.split prod.split)

lemma round_tracks:
  assumes "harness_ok cfg"
  shows "keeps (tracks cfg rid) (harness_round cfg rid g)"
  by (rule keeps_round)
    (use assms in \<open>auto intro: tracks_internal tracks_start tracks_finish tracks_steps tracks_refresh\<close>)

text \<open>C13: What the harness works on. Other users may run any operations on the engine whenever
  the harness awaits. Started on a run the engine holds, the harness ends - or throws - with a
  cached run state that the engine held and that is consistent with the run's graph (unless the
  definition behind it repeats an entry node); nobody but those other users has moved the engine
  since. So the harness never loses a state of its own, and when it has the engine to itself its
  copy equals the engine's state. The state it reports is its cached one.\<close>

theorem harness_tracks_engine:
  assumes "harness_run fuel cfg rid g s en = Some (r, h)" and "harness_ok cfg"
    and "engine_reachable (hc_deps cfg) en" and "getState rid en = Some s"
  shows "\<exists>en1 g'. engine_reachable (hc_deps cfg) en1 \<and> getState rid en1 = Some (hs_currentState h) \<and>
    others_lead cfg en1 (hs_engine h) \<and> getRunGraph rid en1 = Some g' \<and>
    (distinct (gr_entryNodeIds g') \<longrightarrow> graph_ok g' \<and> (\<exists>live. run_inv live g' (hs_currentState h))) \<and>
    ((\<forall>k. hc_others cfg k = []) \<longrightarrow> getState rid (hs_engine h) = Some (hs_currentState h)) \<and>
    (\<forall>res. r = Inr res \<longrightarrow> hr_finalRunState res = hs_currentState h)"
proof -
  have "tracks cfg rid (initial_harness en s)"
    using assms(3,4) others_lead.stay by (auto simp: tracks_def initial_harness_def)
  from keeps_loop [OF round_tracks [OF assms(2)] tracks_steps(2) assms(1) [unfolded harness_run_def] this]
  obtain en1 where en1: "engine_reachable (hc_deps cfg) en1" "getState rid en1 = Some (hs_currentState h)"
    "others_lead cfg en1 (hs_engine h)" unfolding tracks_def by blast
  have deps: "deps_ok (hc_deps cfg)" using assms(2) by (simp add: harness_ok_def)
  note ok = engine_okD [OF engine_reachable_ok [OF en1(1) deps] en1(2) [unfolded getState_def]]
  obtain g' where g': "obj_get rid (en_graphs en1) = Some g'" using ok(1) by blast
  then have derived: "graph_derived (hc_deps cfg) g'"
    using engine_reachable_derived [OF en1(1) deps] by (simp add: graphs_derived_def)
  have "graph_ok g' \<and> (\<exists>live. run_inv live g' (hs_currentState h))" if "distinct (gr_entryNodeIds g')"
    using graph_derived_ok [OF deps derived that] ok(2) [OF g'] by blast
  moreover have "hr_finalRunState res = hs_currentState h" if "r = Inr res" for res
    using assms(1) loop_result that by (simp add: harness_run_def)
  moreover have "getState rid (hs_engine h) = Some (hs_currentState h)" if "\<forall>k. hc_others cfg k = []"
    using alone_leads [OF en1(3) that] en1(2) by simp
  ultimately show ?thesis using en1 g' unfolding getRunGraph_def by blast
qed

section \<open>Runs\<close>

definition harness_demo :: "agent_status \<Rightarrow> nat option \<Rightarrow> harness_config" where
  "harness_demo st attempts = \<lparr>hc_deps = demo_deps, hc_agent = (\<lambda>ds d. Inr \<lparr>ag_status = st, ag_tokensUsed = Some 5\<rparr>),
     hc_concurrencyLimit = None, hc_maxNodeAttempts = attempts, hc_env = (\<lambda>calls. sample_env), hc_elapsed = (\<lambda>calls. 0),
     hc_settles = (\<lambda>ds started. started), hc_others = (\<lambda>k. [])\<rparr>"

definition held_run :: "workflow_graph \<Rightarrow> harness" where
  "held_run g = (let s = initial_run_state sample_env (sample_input g) in
     initial_harness \<lparr>en_graphs = [(''run'', g)], en_states = [(''run'', s)], en_projectConfigs = [(''run'', demo_config)]\<rparr> s)"

definition agent_graph :: workflow_graph where
  "agent_graph = derive_graph (\<lambda>t. ''digest'')
     (mk_definition [''m''] [mk_node ''m'' (ModelCallConfig Workers ''prompt://p'' None)] []) [''m'']"

definition agent_run :: "agent_status \<Rightarrow> (run_status \<times> nat) option" where
  \<comment> \<open>how a run of one agent node ends when every answer has the status, and the number of dispatches\<close>
  "agent_run st =
     (case harness_loop 6 (harness_demo st None) ''run'' agent_graph (held_run agent_graph) of
        Some (Inr res, h) \<Rightarrow> if hr_suspended res then None else Some (rs_status (hr_finalRunState res), length (hs_dispatches h))
      | _ \<Rightarrow> None)"

text \<open>Whatever the agent of a node answers - that it failed, escalated, was aborted or ran
  out of budget - the run is completed after one dispatch; an agent that answers that it is
  suspended is dispatched again at once until its attempts are used up, and then the run is
  completed too. No answer fails or suspends a run.\<close>

theorem agents_never_fail_run:
  "map agent_run [AgCompleted, AgEscalated, AgAborted, AgBudgetExhausted, AgError] = replicate 5 (Some (RsCompleted, 1)) \<and>
   agent_run AgSuspended = Some (RsCompleted, 3)"
proof -
  have "agent_run AgCompleted = Some (RsCompleted, 1)" by code_simp
  moreover have "agent_run AgEscalated = Some (RsCompleted, 1)" by code_simp
  moreover have "agent_run AgAborted = Some (RsCompleted, 1)" by code_simp
  moreover have "agent_run AgBudgetExhausted = Some (RsCompleted, 1)" by code_simp
  moreover have "agent_run AgError = Some (RsCompleted, 1)" by code_simp
  moreover have "agent_run AgSuspended = Some (RsCompleted, 3)" by code_simp
  ultimately show ?thesis by (simp add: numeral_eq_Suc)
qed

definition looping_graph :: workflow_graph where
  "looping_graph = derive_graph (\<lambda>t. ''digest'')
     (mk_definition [''l''] [mk_node ''l'' (LoopConfig 2 ''exit://e'' None), transform_node ''b'', transform_node ''x'']
       [(mk_edge ''1'' ''l'' ''b'')\<lparr>ed_branchKey := Some ''loop''\<rparr>, (mk_edge ''2'' ''l'' ''x'')\<lparr>ed_branchKey := Some ''exit''\<rparr>])
     [''l'', ''b'', ''x'']"

definition loop_look :: "harness \<Rightarrow> string list \<times> (string \<times> nat) list \<times> (string \<times> nat) list" where
  \<comment> \<open>the ready nodes, the attempts the harness counted and those the engine recorded\<close>
  "loop_look h = (rs_readyNodeIds (hs_currentState h), hs_nodeAttemptCounts h,
     map (\<lambda>(n, ns). (n, length (ns_attempts ns))) (rs_nodeStates (hs_currentState h)))"

text \<open>A loop of two iterations under a bound of one attempt per node: six rounds later, after
  three turns, the loop handler has run once and the exit is not ready, because a loop node that
  is given up is completed with the branch it chose last.\<close>

lemma exhausted_loop_goes_on:
  "loop_look (harness_rounds 6 (harness_demo AgCompleted (Some 1)) ''run'' looping_graph (held_run looping_graph)) =
     ([''l''], [(''l'', 3), (''b'', 3)], [(''l'', 1), (''b'', 1), (''x'', 0)])"
  by code_simp

text \<open>A run that waits for a human decision is canceled while the harness reports that it
  suspends: the harness answers with the copy it has, the engine holds the canceled run.\<close>

definition human_graph :: workflow_graph where
  "human_graph = derive_graph (\<lambda>t. ''digest'')
     (mk_definition [''h''] [mk_node ''h'' (HumanDecisionConfig ''decision://d'' None None)] []) [''h'']"

lemma suspended_copy_stale:
  "case harness_loop 1 ((harness_demo AgCompleted None)\<lparr>hc_others := (\<lambda>k. [(sample_env, ECancel ''run'' sample_transition)])\<rparr>)
      ''run'' human_graph (held_run human_graph) of
     Some (Inr res, h) \<Rightarrow> hr_suspended res \<and> rs_status (hr_finalRunState res) \<noteq> RsCanceled \<and>
       map_option rs_status (getState ''run'' (hs_engine h)) = Some RsCanceled
   | _ \<Rightarrow> False"
  by code_simp

text \<open>The harness on a run the engine started.\<close>

definition single :: workflow_definition where
  "single = mk_definition [''b''] [transform_node ''b''] []"

definition single_start :: start_request where
  "single_start = demo_start\<lparr>sr_projectConfig := demo_config\<lparr>pc_workflow := Some \<lparr>wc_definitions = [single],
     wc_packageBindings = [], wc_defaultWorkflowDefinitionId = None, wc_specYamlStore = None\<rparr>\<rparr>\<rparr>"

definition started_run :: "(harness_result result \<times> harness) option" where
  "started_run =
     (case engine_apply demo_deps sample_env (EStart single_start) empty_engine [] of
        (Inl e, calls) \<Rightarrow> None
      | (Inr en, calls) \<Rightarrow>
          Option.bind (getState ''run'' en) (\<lambda>s. harness_run 2 (harness_demo AgCompleted None) ''run''
            (derive_graph (\<lambda>t. ''digest'') single [''b'']) s en))"

lemma started_run_ends:
  "case started_run of Some (Inr res, h) \<Rightarrow> rs_status (hr_finalRunState res) = RsCompleted | _ \<Rightarrow> False"
  by code_simp

theorem harness_tracks_engine_witness:
  "\<exists>res h. started_run = Some (Inr res, h) \<and> rs_status (hr_finalRunState res) = RsCompleted \<and>
     getState ''run'' (hs_engine h) = Some (hr_finalRunState res)"
proof -
  obtain res h where ended: "started_run = Some (Inr res, h)" "rs_status (hr_finalRunState res) = RsCompleted"
    using started_run_ends by (auto split: option.splits prod.splits sum.splits)
  then obtain en calls s where run: "engine_apply demo_deps sample_env (EStart single_start) empty_engine [] = (Inr en, calls)"
    and s: "getState ''run'' en = Some s"
    and harness: "harness_run 2 (harness_demo AgCompleted None) ''run'' (derive_graph (\<lambda>t. ''digest'') single [''b'']) s en = Some (Inr res, h)"
    by (auto simp: started_run_def bind_eq_Some_conv split: prod.splits sum.splits)
  have deps: "hc_deps (harness_demo AgCompleted None) = demo_deps" by (simp add: harness_demo_def)
  have "harness_ok (harness_demo AgCompleted None)"
    using demo_deps_ok sample_env_ok by (simp add: harness_ok_def harness_demo_def)
  moreover have "engine_reachable demo_deps en"
    by (rule engine_reachable.operate [OF engine_reachable.empty sample_env_ok run])
  ultimately have "\<exists>en1. ((\<forall>k. hc_others (harness_demo AgCompleted None) k = []) \<longrightarrow>
      getState ''run'' (hs_engine h) = Some (hs_currentState h)) \<and> (\<forall>x. Inr res = Inr x \<longrightarrow> hr_finalRunState x = hs_currentState h)"
    using harness_tracks_engine [OF harness _ _ s] unfolding deps by blast
  with ended show ?thesis by (intro exI [of _ res] exI [of _ h]) (simp add: harness_demo_def)
qed

end
