(* ===== verification/Opctl.thy ===== *)
theory Opctl
  imports Json Workflow_Types
begin

text \<open>
  Operator control (\<open>self/subcortex/opctl/src\<close>): the control commands and their data types
  (\<open>shared/src/types/opctl.ts\<close>), \<open>arbitration.ts\<close>, \<open>confirmation.ts\<close>, \<open>scope.ts\<close> and the four
  in-memory stores. The stores are the interfaces of the service; each is an instance of a
  locale that states what the service relies on. Times are the texts \<open>toISOString\<close> gives and
  are compared as texts, as the code does.
\<close>

section \<open>Commands\<close>

datatype control_actor = CaPrincipal | CaOrchestrationAgent | CaWorkerAgent | CaSystemAgent

datatype scope_class = ScNous | ScProjectRun | ScExecution

datatype scope_kind = SkSingleAgent | SkAgentSet | SkProjectRun

record control_scope =
  cs_class :: scope_class
  cs_kind :: scope_kind
  cs_target_ids :: "string list"
  cs_project_id :: "string option"

datatype control_action =
    AcPause | AcResume | AcCancel | AcHardStop | AcRevert | AcRetry | AcEdit | AcStopResponse
  | AcRetryStep | AcRevertToPreviousState | AcEditSubmittedPrompt

datatype tier = T0 | T1 | T2 | T3

record envelope =
  ce_control_command_id :: string
  ce_actor_type :: control_actor
  ce_actor_id :: string
  ce_actor_session_id :: string
  ce_actor_seq :: nat
  ce_nonce :: string
  ce_issued_at :: string
  ce_expires_at :: string
  ce_scope :: control_scope
  ce_payload_hash :: string
  ce_command_signature :: string
  ce_action :: control_action
  ce_payload :: "json option"

record proof_request =
  pq_scope :: control_scope
  pq_action :: control_action
  pq_tier :: tier
  pq_reason :: "string option"

record confirmation_proof =
  cp_proof_id :: string
  cp_issued_at :: string
  cp_expires_at :: string
  cp_scope_hash :: string
  cp_action :: control_action
  cp_tier :: tier
  cp_signature :: string

record scope_snapshot =
  ss_scope :: control_scope
  ss_target_ids :: "string list"
  ss_target_ids_hash :: string
  ss_target_count :: nat
  ss_resolved_at :: string

datatype submit_status = SbApplied | SbBlocked | SbRejected

record submit_result =
  sb_status :: submit_status
  sb_control_command_id :: string
  sb_reason :: "string option"
  sb_reason_code :: "string option"
  sb_target_ids_hash :: "string option"
  sb_degraded_integrity :: "bool option"

fun scope_class_text :: "scope_class \<Rightarrow> string" where
  "scope_class_text ScNous = ''nous_scope''"
| "scope_class_text ScProjectRun = ''project_run_scope''"
| "scope_class_text ScExecution = ''execution_scope''"

fun scope_kind_text :: "scope_kind \<Rightarrow> string" where
  "scope_kind_text SkSingleAgent = ''single_agent''"
| "scope_kind_text SkAgentSet = ''agent_set''"
| "scope_kind_text SkProjectRun = ''project_run''"

fun control_action_text :: "control_action \<Rightarrow> string" where
  "control_action_text AcPause = ''pause''"
| "control_action_text AcResume = ''resume''"
| "control_action_text AcCancel = ''cancel''"
| "control_action_text AcHardStop = ''hard_stop''"
| "control_action_text AcRevert = ''revert''"
| "control_action_text AcRetry = ''retry''"
| "control_action_text AcEdit = ''edit''"
| "control_action_text AcStopResponse = ''stop_response''"
| "control_action_text AcRetryStep = ''retry_step''"
| "control_action_text AcRevertToPreviousState = ''revert_to_previous_state''"
| "control_action_text AcEditSubmittedPrompt = ''edit_submitted_prompt''"

fun ACTION_TIER_MAP :: "control_action \<Rightarrow> tier" where
  "ACTION_TIER_MAP AcPause = T0"
| "ACTION_TIER_MAP AcResume = T0"
| "ACTION_TIER_MAP AcCancel = T1"
| "ACTION_TIER_MAP AcHardStop = T3"
| "ACTION_TIER_MAP AcRevert = T2"
| "ACTION_TIER_MAP AcRetry = T1"
| "ACTION_TIER_MAP AcEdit = T0"
| "ACTION_TIER_MAP AcStopResponse = T0"
| "ACTION_TIER_MAP AcRetryStep = T1"
| "ACTION_TIER_MAP AcRevertToPreviousState = T2"
| "ACTION_TIER_MAP AcEditSubmittedPrompt = T0"

section \<open>Arbitration\<close>

definition PRECEDENCE_ORDER :: "control_action list" where
  "PRECEDENCE_ORDER = [AcHardStop, AcCancel, AcPause, AcRevertToPreviousState, AcRevert, AcResume, AcRetryStep,
     AcRetry, AcEditSubmittedPrompt, AcEdit, AcStopResponse]"

definition getPrecedence :: "control_action \<Rightarrow> nat" where
  "getPrecedence action =
     getOr (obj_get action (from_entries [] (zip PRECEDENCE_ORDER [0..<length PRECEDENCE_ORDER]))) 999"

definition hasHigherPrecedence :: "control_action \<Rightarrow> control_action \<Rightarrow> bool" where
  "hasHigherPrecedence action1 action2 \<longleftrightarrow> getPrecedence action1 < getPrecedence action2"

lemma getPrecedence_simps:
  "getPrecedence AcHardStop = 0" "getPrecedence AcCancel = 1" "getPrecedence AcPause = 2"
  "getPrecedence AcRevertToPreviousState = 3" "getPrecedence AcRevert = 4" "getPrecedence AcResume = 5"
  "getPrecedence AcRetryStep = 6" "getPrecedence AcRetry = 7" "getPrecedence AcEditSubmittedPrompt = 8"
  "getPrecedence AcEdit = 9" "getPrecedence AcStopResponse = 10"
  by code_simp+

section \<open>Confirmation\<close>

definition hashScope :: "(string \<Rightarrow> string) \<Rightarrow> control_scope \<Rightarrow> string" where
  "hashScope sha256 scope = sha256 (stringify (JObj
     [(''class'', JStr (scope_class_text (cs_class scope))), (''kind'', JStr (scope_kind_text (cs_kind scope))),
      (''target_ids'', JArr (map JStr (cs_target_ids scope))),
      (''project_id'', case cs_project_id scope of None \<Rightarrow> JNull | Some p \<Rightarrow> JStr p)]))"

definition issueConfirmationProof ::
  "(string \<Rightarrow> string) \<Rightarrow> string \<Rightarrow> string \<Rightarrow> string \<Rightarrow> proof_request \<Rightarrow> confirmation_proof" where
  \<comment> \<open>identifier, the time and the time five minutes later are arguments; the request parses\<close>
  "issueConfirmationProof sha256 proofId now expiresAt params =
     \<lparr>cp_proof_id = proofId, cp_issued_at = now, cp_expires_at = expiresAt,
      cp_scope_hash = hashScope sha256 (pq_scope params), cp_action = pq_action params, cp_tier = pq_tier params,
      cp_signature = ''stub-sig''\<rparr>"

definition validateConfirmationProof :: "(string \<Rightarrow> string) \<Rightarrow> string \<Rightarrow> confirmation_proof \<Rightarrow> envelope \<Rightarrow> bool" where
  "validateConfirmationProof sha256 now proof env =
     (if cp_expires_at proof < now then False
      else if cp_action proof \<noteq> ce_action env then False
      else cp_scope_hash proof = hashScope sha256 (ce_scope env))"

definition getRequiredTier :: "control_action \<Rightarrow> tier" where
  "getRequiredTier action =
     (if action = AcHardStop \<or> action = AcResume then T3
      else if action = AcCancel \<or> action = AcRevertToPreviousState \<or> action = AcEditSubmittedPrompt then T2
      else if action = AcPause \<or> action = AcStopResponse \<or> action = AcRetryStep then T1
      else T0)"

section \<open>Scope\<close>

definition resolveScope ::
  "(string \<Rightarrow> string) \<Rightarrow> (scope_snapshot \<Rightarrow> scope_snapshot result) \<Rightarrow> string \<Rightarrow> control_scope \<Rightarrow> scope_snapshot result \<times> control_scope" where
  \<comment> \<open>the second component is the scope afterwards: \<open>sort()\<close> sorts its own array in place\<close>
  "resolveScope sha256 parse now scope =
     (let given = cs_target_ids scope \<noteq> [];
          targetIds = (if given then js_sort codeUnitCompare (cs_target_ids scope)
                       else case cs_project_id scope of Some p \<Rightarrow> if p = [] then [] else [p] | None \<Rightarrow> []);
          scope' = (if given then scope\<lparr>cs_target_ids := targetIds\<rparr> else scope)
      in (parse \<lparr>ss_scope = scope', ss_target_ids = targetIds,
            ss_target_ids_hash = sha256 (stringify (JArr (map JStr targetIds))), ss_target_count = length targetIds,
            ss_resolved_at = now\<rparr>, scope'))"

section \<open>Stores\<close>

text \<open>A set of flags: the used command identifiers and nonces of \<open>ReplayStore\<close>, and \<open>StartLockStore\<close>.\<close>

locale flag_store =
  fixes flagged :: "string \<Rightarrow> 's \<Rightarrow> bool" and set_flag :: "string \<Rightarrow> bool \<Rightarrow> 's \<Rightarrow> 's"
  assumes flagged_set: "flagged k' (set_flag k b s) = (if k' = k then b else flagged k' s)"
begin

lemma flagged_mark: "flagged k (set_flag k True s)"
  by (simp add: flagged_set)

lemma only_unset_removes: "flagged k s \<Longrightarrow> \<not> flagged k (set_flag k' b s) \<Longrightarrow> k' = k \<and> \<not> b"
  by (auto simp: flagged_set split: if_splits)

end

text \<open>A map with deletion: \<open>ProjectControlStateStore\<close> and the sequence numbers of \<open>ReplayStore\<close>.\<close>

locale keyed_store =
  fixes lookup :: "string \<Rightarrow> 's \<Rightarrow> 'v option" and store :: "string \<Rightarrow> 'v option \<Rightarrow> 's \<Rightarrow> 's"
  assumes lookup_store: "lookup k' (store k v s) = (if k' = k then v else lookup k' s)"

record replay_store =
  rp_usedCommandIds :: "string list"
  rp_usedNonces :: "string list"
  rp_actorSeqs :: "(string \<times> nat) list"

definition has :: "string \<Rightarrow> string list \<Rightarrow> bool" where
  "has k s \<longleftrightarrow> k \<in> set s"

definition put :: "string \<Rightarrow> bool \<Rightarrow> string list \<Rightarrow> string list" where
  \<comment> \<open>\<open>Set.add\<close> and \<open>Set.delete\<close>\<close>
  "put k b s = (if b then (if k \<in> set s then s else s @ [k]) else filter (\<lambda>x. x \<noteq> k) s)"

interpretation flags: flag_store has put
  by unfold_locales (auto simp: has_def put_def)

definition markCommandIdUsed :: "string \<Rightarrow> replay_store \<Rightarrow> replay_store" where
  "markCommandIdUsed i r = r\<lparr>rp_usedCommandIds := put i True (rp_usedCommandIds r)\<rparr>"

definition isCommandIdUsed :: "string \<Rightarrow> replay_store \<Rightarrow> bool" where
  "isCommandIdUsed i r = has i (rp_usedCommandIds r)"

definition markNonceUsed :: "string \<Rightarrow> replay_store \<Rightarrow> replay_store" where
  "markNonceUsed n r = r\<lparr>rp_usedNonces := put n True (rp_usedNonces r)\<rparr>"

definition isNonceUsed :: "string \<Rightarrow> replay_store \<Rightarrow> bool" where
  "isNonceUsed n r = has n (rp_usedNonces r)"

definition getLastActorSeq :: "string \<Rightarrow> replay_store \<Rightarrow> nat option" where
  "getLastActorSeq sid r = obj_get sid (rp_actorSeqs r)"

definition setActorSeq :: "string \<Rightarrow> nat \<Rightarrow> replay_store \<Rightarrow> replay_store" where
  "setActorSeq sid n r = r\<lparr>rp_actorSeqs := obj_set sid n (rp_actorSeqs r)\<rparr>"

definition hasStartLock :: "string \<Rightarrow> string list \<Rightarrow> bool" where
  "hasStartLock p s = has p s"

definition setStartLock :: "string \<Rightarrow> bool \<Rightarrow> string list \<Rightarrow> string list" where
  "setStartLock p b s = put p b s"

definition state_put :: "string \<Rightarrow> control_state option \<Rightarrow> (string \<times> control_state) list \<Rightarrow> (string \<times> control_state) list" where
  \<comment> \<open>\<open>set\<close> and \<open>clear\<close>\<close>
  "state_put p v s = (case v of Some c \<Rightarrow> obj_set p c s | None \<Rightarrow> obj_delete p s)"

interpretation control_states: keyed_store obj_get state_put
  by unfold_locales (simp add: state_put_def split: option.split)

section \<open>Scope locks\<close>

record holder =
  ho_action :: control_action
  ho_commandId :: string

record waiter =
  wa_action :: control_action
  wa_commandId :: string
  wa_task :: nat \<comment> \<open>the submission its \<open>resolve\<close> continues\<close>

record scope_locks =
  sl_holders :: "(string \<times> holder) list"
  sl_waiters :: "(string \<times> waiter list) list"

datatype acquire_result = Acquired | Outranked control_action | Queued

definition waiting_at :: "string \<Rightarrow> scope_locks \<Rightarrow> waiter list" where
  "waiting_at k l = getOr (obj_get k (sl_waiters l)) []"

definition acquire :: "string \<Rightarrow> control_action \<Rightarrow> string \<Rightarrow> nat \<Rightarrow> scope_locks \<Rightarrow> acquire_result \<times> scope_locks" where
  \<comment> \<open>\<open>Queued\<close>: the promise is pending\<close>
  "acquire scopeKey action commandId task l =
     (case obj_get scopeKey (sl_holders l) of
        None \<Rightarrow> (Acquired, l\<lparr>sl_holders := obj_set scopeKey \<lparr>ho_action = action, ho_commandId = commandId\<rparr> (sl_holders l)\<rparr>)
      | Some h \<Rightarrow>
          if getPrecedence (ho_action h) < getPrecedence action then (Outranked (ho_action h), l)
          else (Queued, l\<lparr>sl_waiters := obj_set scopeKey
                 (waiting_at scopeKey l @ [\<lparr>wa_action = action, wa_commandId = commandId, wa_task = task\<rparr>]) (sl_waiters l)\<rparr>))"

definition by_precedence :: "waiter \<Rightarrow> waiter \<Rightarrow> int" where
  "by_precedence a b = int (getPrecedence (wa_action a)) - int (getPrecedence (wa_action b))"

definition release :: "string \<Rightarrow> scope_locks \<Rightarrow> nat option \<times> scope_locks" where
  \<comment> \<open>the submission that is woken, if any; a submission waits at most once, so its number stands
      for the identity of the waiter\<close>
  "release scopeKey l =
     (let l' = l\<lparr>sl_holders := obj_delete scopeKey (sl_holders l)\<rparr> in
      case js_sort by_precedence (waiting_at scopeKey l) of
        [] \<Rightarrow> (None, l')
      | first # _ \<Rightarrow>
          (Some (wa_task first),
           l'\<lparr>sl_holders := obj_set scopeKey \<lparr>ho_action = wa_action first, ho_commandId = wa_commandId first\<rparr> (sl_holders l'),
              sl_waiters := obj_set scopeKey (filter (\<lambda>w. wa_task w \<noteq> wa_task first) (waiting_at scopeKey l)) (sl_waiters l)\<rparr>))"

interpretation precedence_cmp: js_comparator by_precedence
  by (rule js_comparator_by_key [of _ "\<lambda>w. int (getPrecedence (wa_action w))"]) (auto simp: by_precedence_def)

end
