(* ===== verification/Opctl_Service.thy ===== *)
theory Opctl_Service
  imports Opctl
begin

text \<open>
  \<open>envelope.ts\<close> and \<open>opctl-service.ts\<close>. The methods are asynchronous and the stores are shared,
  so a call is a task that runs from one \<open>await\<close> to the next and other tasks may run in between:
  a program counter (\<open>pc\<close>) names the \<open>await\<close> a task is suspended at and holds what the call
  has read so far, \<open>run_task\<close> runs its next part. A store method acts when it is called and
  its promise settles later. The clock and the answers of the witness service are inputs of a
  step; whether a witness service and a control state store are configured, and the schema
  parsers, are parameters.
\<close>

section \<open>Tasks\<close>

record opctl_deps =
  od_sha256 :: "string \<Rightarrow> string"
  od_parseEnvelope :: "envelope \<Rightarrow> envelope result"
  od_parseSnapshot :: "scope_snapshot \<Rightarrow> scope_snapshot result"
  od_parseResult :: "submit_result \<Rightarrow> submit_result result"
  od_witnessService :: bool
  od_projectControlStateStore :: bool

datatype opctl_call =
    SubmitCommand envelope "confirmation_proof option"
  | SetStartLock string bool control_actor

record locked_command =
  lc_envelope :: envelope
  lc_snapshot :: scope_snapshot

datatype pc =
    Received
  | CommandIdRead envelope bool
  | NonceRead envelope bool
  | SeqRead envelope "nat option"
  | Waiting locked_command
  | Locked locked_command
  | IdMarked locked_command
  | NonceMarked locked_command
  | SeqMarked locked_command
  | Authorizing locked_command
  | Completing locked_command string
  | Applying locked_command
  | Settling locked_command
  | Answered "submit_result result"
  | Unlocking string
  | LockSet "unit result"

record task =
  tk_call :: opctl_call
  tk_pc :: pc

fun mapActorToWitness :: "control_actor \<Rightarrow> string" where
  "mapActorToWitness CaPrincipal = ''principal''"
| "mapActorToWitness CaOrchestrationAgent = ''orchestration_agent''"
| "mapActorToWitness CaSystemAgent = ''subcortex''"
| "mapActorToWitness CaWorkerAgent = ''worker_agent''"

datatype witness_call =
    AppendAuthorization "string option" string string control_action string
      \<comment> \<open>project, actor, command, action, targets hash\<close>
  | AppendCompletion string "string option" string string string
      \<comment> \<open>authorization, project, actor, command, targets hash\<close>

record opctl =
  oc_replay :: replay_store
  oc_startLocks :: "string list"
  oc_controlStates :: "(string \<times> control_state) list"
  oc_locks :: scope_locks
  oc_witnessCalls :: "witness_call list"
  oc_tasks :: "task list"

record step_input =
  in_now :: string
  in_answer :: "string option" \<comment> \<open>the id of the witness event, or nothing when the call throws\<close>

definition goto :: "nat \<Rightarrow> pc \<Rightarrow> opctl \<Rightarrow> opctl" where
  "goto i next st = st\<lparr>oc_tasks := (oc_tasks st)[i := (oc_tasks st ! i)\<lparr>tk_pc := next\<rparr>]\<rparr>"

definition resumed :: "pc \<Rightarrow> pc" where
  "resumed p = (case p of Waiting c \<Rightarrow> Locked c | _ \<Rightarrow> p)"

section \<open>Answers\<close>

definition refusal :: "submit_status \<Rightarrow> envelope \<Rightarrow> string \<Rightarrow> string \<Rightarrow> submit_result" where
  "refusal status env reason code =
     \<lparr>sb_status = status, sb_control_command_id = ce_control_command_id env, sb_reason = Some reason,
      sb_reason_code = Some code, sb_target_ids_hash = None, sb_degraded_integrity = None\<rparr>"

definition isEmergencyHardStop :: "opctl_deps \<Rightarrow> envelope \<Rightarrow> bool" where
  "isEmergencyHardStop deps env \<longleftrightarrow> ce_action env = AcHardStop \<and> \<not> od_witnessService deps"

definition applied_result :: "opctl_deps \<Rightarrow> locked_command \<Rightarrow> submit_result" where
  "applied_result deps c =
     \<lparr>sb_status = SbApplied, sb_control_command_id = ce_control_command_id (lc_envelope c), sb_reason = None,
      sb_reason_code = None, sb_target_ids_hash = Some (ss_target_ids_hash (lc_snapshot c)),
      sb_degraded_integrity = (if isEmergencyHardStop deps (lc_envelope c) then Some True else None)\<rparr>"

definition answer :: "opctl_deps \<Rightarrow> nat \<Rightarrow> submit_result \<Rightarrow> opctl \<Rightarrow> opctl" where
  "answer deps i r = goto i (Answered (od_parseResult deps r))"

definition scope_key :: "locked_command \<Rightarrow> string" where
  "scope_key c = ss_target_ids_hash (lc_snapshot c)"

definition let_go :: "string \<Rightarrow> opctl \<Rightarrow> opctl" where
  \<comment> \<open>\<open>release\<close> with the \<open>resolve\<close> it calls\<close>
  "let_go k st =
     (case release k (oc_locks st) of
        (None, locks) \<Rightarrow> st\<lparr>oc_locks := locks\<rparr>
      | (Some j, locks) \<Rightarrow> goto j (resumed (tk_pc (oc_tasks st ! j))) (st\<lparr>oc_locks := locks\<rparr>))"

definition finish :: "opctl_deps \<Rightarrow> nat \<Rightarrow> locked_command \<Rightarrow> submit_result \<Rightarrow> opctl \<Rightarrow> opctl" where
  \<comment> \<open>a return from inside the \<open>try\<close> block\<close>
  "finish deps i c r st = let_go (scope_key c) (answer deps i r st)"

section \<open>Parts of a submission\<close>

definition receive_command :: "opctl_deps \<Rightarrow> step_input \<Rightarrow> nat \<Rightarrow> envelope \<Rightarrow> opctl \<Rightarrow> opctl" where
  "receive_command deps inp i raw st =
     (case od_parseEnvelope deps raw of
        Inl e \<Rightarrow> answer deps i (refusal SbRejected raw ''Invalid envelope structure'' ''OPCTL-001'') st
      | Inr env \<Rightarrow>
          if ce_expires_at env < in_now inp then answer deps i (refusal SbRejected raw ''Command expired'' ''OPCTL-002'') st
          else goto i (CommandIdRead env (isCommandIdUsed (ce_control_command_id env) (oc_replay st))) st)"

definition check_command_id :: "opctl_deps \<Rightarrow> nat \<Rightarrow> envelope \<Rightarrow> bool \<Rightarrow> opctl \<Rightarrow> opctl" where
  "check_command_id deps i env used st =
     (if used then answer deps i (refusal SbRejected env ''Replay detected: command ID already used'' ''OPCTL-002'') st
      else goto i (NonceRead env (isNonceUsed (ce_nonce env) (oc_replay st))) st)"

definition check_nonce :: "opctl_deps \<Rightarrow> nat \<Rightarrow> envelope \<Rightarrow> bool \<Rightarrow> opctl \<Rightarrow> opctl" where
  "check_nonce deps i env used st =
     (if used then answer deps i (refusal SbRejected env ''Replay detected: nonce reused'' ''OPCTL-002'') st
      else goto i (SeqRead env (getLastActorSeq (ce_actor_session_id env) (oc_replay st))) st)"

definition unconfirmed :: "opctl_deps \<Rightarrow> string \<Rightarrow> envelope \<Rightarrow> confirmation_proof option \<Rightarrow> string option" where
  \<comment> \<open>why the confirmation does not suffice\<close>
  "unconfirmed deps now env confirmation =
     (if getRequiredTier (ce_action env) = T0 then None
      else case confirmation of
        None \<Rightarrow> Some ''Confirmation proof required''
      | Some proof \<Rightarrow>
          if validateConfirmationProof (od_sha256 deps) now proof env then None
          else Some ''Invalid or expired confirmation proof'')"

definition take_lock :: "opctl_deps \<Rightarrow> nat \<Rightarrow> locked_command \<Rightarrow> opctl \<Rightarrow> opctl" where
  "take_lock deps i c st =
     (case acquire (scope_key c) (ce_action (lc_envelope c)) (ce_control_command_id (lc_envelope c)) i (oc_locks st) of
        (Acquired, locks) \<Rightarrow> goto i (Locked c) (st\<lparr>oc_locks := locks\<rparr>)
      | (Queued, locks) \<Rightarrow> goto i (Waiting c) (st\<lparr>oc_locks := locks\<rparr>)
      | (Outranked action, locks) \<Rightarrow>
          answer deps i (refusal SbBlocked (lc_envelope c)
            (''Concurrent command conflict: holder has higher precedence ('' @ control_action_text action @ '')'')
            ''opctl_conflict_resolved'') (st\<lparr>oc_locks := locks\<rparr>))"

definition check_seq :: "opctl_deps \<Rightarrow> step_input \<Rightarrow> nat \<Rightarrow> confirmation_proof option \<Rightarrow> envelope \<Rightarrow> nat option \<Rightarrow> opctl \<Rightarrow> opctl" where
  "check_seq deps inp i confirmation env lastSeq st =
     (if (case lastSeq of None \<Rightarrow> False | Some n \<Rightarrow> ce_actor_seq env \<le> n)
      then answer deps i (refusal SbRejected env ''Out-of-order actor_seq'' ''OPCTL-002'') st
      else case unconfirmed deps (in_now inp) env confirmation of
        Some reason \<Rightarrow> answer deps i (refusal SbBlocked env reason ''OPCTL-003'') st
      | None \<Rightarrow>
          (case resolveScope (od_sha256 deps) (od_parseSnapshot deps) (in_now inp) (ce_scope env) of
             (Inl e, scope) \<Rightarrow> goto i (Answered (Inl e)) st
           | (Inr snapshot, scope) \<Rightarrow>
               take_lock deps i \<lparr>lc_envelope = env\<lparr>ce_scope := scope\<rparr>, lc_snapshot = snapshot\<rparr> st))"

definition project_of :: "locked_command \<Rightarrow> string option" where
  "project_of c = (case cs_project_id (ce_scope (lc_envelope c)) of None \<Rightarrow> None | Some p \<Rightarrow> if p = [] then None else Some p)"

definition apply_command :: "opctl_deps \<Rightarrow> nat \<Rightarrow> locked_command \<Rightarrow> opctl \<Rightarrow> opctl" where
  \<comment> \<open>to the first \<open>await\<close> of a store, or to the end\<close>
  "apply_command deps i c st =
     (case project_of c of
        None \<Rightarrow> finish deps i c (applied_result deps c) st
      | Some p \<Rightarrow>
          if od_projectControlStateStore deps then
            (if ce_action (lc_envelope c) = AcPause then
               goto i (Settling c) (st\<lparr>oc_controlStates := state_put p (Some CtlPausedReview) (oc_controlStates st)\<rparr>)
             else if ce_action (lc_envelope c) = AcResume then
               goto i (Applying c) (st\<lparr>oc_startLocks := setStartLock p False (oc_startLocks st)\<rparr>)
             else if ce_action (lc_envelope c) = AcHardStop then
               goto i (Applying c) (st\<lparr>oc_startLocks := setStartLock p True (oc_startLocks st)\<rparr>)
             else finish deps i c (applied_result deps c) st)
          else if ce_action (lc_envelope c) = AcHardStop then
            goto i (Settling c) (st\<lparr>oc_startLocks := setStartLock p True (oc_startLocks st)\<rparr>)
          else finish deps i c (applied_result deps c) st)"

definition apply_rest :: "nat \<Rightarrow> locked_command \<Rightarrow> opctl \<Rightarrow> opctl" where
  \<comment> \<open>the second store call of \<open>resume\<close> and \<open>hard_stop\<close>\<close>
  "apply_rest i c st =
     (case project_of c of
        None \<Rightarrow> st
      | Some p \<Rightarrow> goto i (Settling c) (st\<lparr>oc_controlStates := state_put p
          (if ce_action (lc_envelope c) = AcResume then Some CtlResuming else None) (oc_controlStates st)\<rparr>))"

definition begin_witness :: "opctl_deps \<Rightarrow> nat \<Rightarrow> locked_command \<Rightarrow> opctl \<Rightarrow> opctl" where
  "begin_witness deps i c st =
     (let env = lc_envelope c in
      if isEmergencyHardStop deps env then apply_command deps i c st
      else if od_witnessService deps then
        goto i (Authorizing c) (st\<lparr>oc_witnessCalls := oc_witnessCalls st @
          [AppendAuthorization (cs_project_id (ce_scope env)) (mapActorToWitness (ce_actor_type env))
            (ce_control_command_id env) (ce_action env) (scope_key c)]\<rparr>)
      else finish deps i c (refusal SbBlocked env ''Witness service unavailable'' ''OPCTL-006'') st)"

definition witness_failed :: "opctl_deps \<Rightarrow> nat \<Rightarrow> locked_command \<Rightarrow> opctl \<Rightarrow> opctl" where
  "witness_failed deps i c = finish deps i c (refusal SbBlocked (lc_envelope c) ''Witness write failed'' ''OPCTL-006'')"

definition authorized :: "opctl_deps \<Rightarrow> step_input \<Rightarrow> nat \<Rightarrow> locked_command \<Rightarrow> opctl \<Rightarrow> opctl" where
  "authorized deps inp i c st =
     (case in_answer inp of
        None \<Rightarrow> witness_failed deps i c st
      | Some auth \<Rightarrow> goto i (Completing c auth) (st\<lparr>oc_witnessCalls := oc_witnessCalls st @
          [AppendCompletion auth (cs_project_id (ce_scope (lc_envelope c))) (mapActorToWitness (ce_actor_type (lc_envelope c)))
            (ce_control_command_id (lc_envelope c)) (scope_key c)]\<rparr>))"

definition completed :: "opctl_deps \<Rightarrow> step_input \<Rightarrow> nat \<Rightarrow> locked_command \<Rightarrow> opctl \<Rightarrow> opctl" where
  "completed deps inp i c st =
     (case in_answer inp of None \<Rightarrow> witness_failed deps i c st | Some _ \<Rightarrow> apply_command deps i c st)"

section \<open>Start locks and project states\<close>

definition set_start_lock :: "opctl_deps \<Rightarrow> nat \<Rightarrow> string \<Rightarrow> bool \<Rightarrow> control_actor \<Rightarrow> opctl \<Rightarrow> opctl" where
  "set_start_lock deps i p locked actor st =
     (if actor \<noteq> CaPrincipal \<and> \<not> locked then
        goto i (LockSet (Inl (JsError ''Only principal may release start lock''))) st
      else goto i (if \<not> locked \<and> od_projectControlStateStore deps then Unlocking p else LockSet (Inr ()))
             (st\<lparr>oc_startLocks := setStartLock p locked (oc_startLocks st)\<rparr>))"

definition clear_state :: "nat \<Rightarrow> string \<Rightarrow> opctl \<Rightarrow> opctl" where
  "clear_state i p st = goto i (LockSet (Inr ())) (st\<lparr>oc_controlStates := state_put p None (oc_controlStates st)\<rparr>)"

definition getProjectControlState :: "opctl_deps \<Rightarrow> string \<Rightarrow> opctl \<Rightarrow> opctl \<Rightarrow> control_state" where
  \<comment> \<open>the two reads see the stores at two times\<close>
  "getProjectControlState deps p st st' =
     (if hasStartLock p (oc_startLocks st) then CtlHardStopped
      else
        (let stored = (if od_projectControlStateStore deps then obj_get p (oc_controlStates st') else None) in
         if stored = Some CtlPausedReview \<or> stored = Some CtlResuming then the stored else CtlRunning))"

section \<open>Steps\<close>

definition run_task :: "opctl_deps \<Rightarrow> step_input \<Rightarrow> nat \<Rightarrow> opctl \<Rightarrow> opctl" where
  "run_task deps inp i st =
     (case tk_pc (oc_tasks st ! i) of
        Received \<Rightarrow>
          (case tk_call (oc_tasks st ! i) of
             SubmitCommand raw confirmation \<Rightarrow> receive_command deps inp i raw st
           | SetStartLock p locked actor \<Rightarrow> set_start_lock deps i p locked actor st)
      | CommandIdRead env used \<Rightarrow> check_command_id deps i env used st
      | NonceRead env used \<Rightarrow> check_nonce deps i env used st
      | SeqRead env lastSeq \<Rightarrow>
          (case tk_call (oc_tasks st ! i) of
             SubmitCommand raw confirmation \<Rightarrow> check_seq deps inp i confirmation env lastSeq st
           | SetStartLock p locked actor \<Rightarrow> st)
      | Locked c \<Rightarrow> goto i (IdMarked c) (st\<lparr>oc_replay := markCommandIdUsed (ce_control_command_id (lc_envelope c)) (oc_replay st)\<rparr>)
      | IdMarked c \<Rightarrow> goto i (NonceMarked c) (st\<lparr>oc_replay := markNonceUsed (ce_nonce (lc_envelope c)) (oc_replay st)\<rparr>)
      | NonceMarked c \<Rightarrow> goto i (SeqMarked c) (st\<lparr>oc_replay :=
          setActorSeq (ce_actor_session_id (lc_envelope c)) (ce_actor_seq (lc_envelope c)) (oc_replay st)\<rparr>)
      | SeqMarked c \<Rightarrow> begin_witness deps i c st
      | Authorizing c \<Rightarrow> authorized deps inp i c st
      | Completing c auth \<Rightarrow> completed deps inp i c st
      | Applying c \<Rightarrow> apply_rest i c st
      | Settling c \<Rightarrow> finish deps i c (applied_result deps c) st
      | Unlocking p \<Rightarrow> clear_state i p st
      | Waiting c \<Rightarrow> st
      | Answered r \<Rightarrow> st
      | LockSet r \<Rightarrow> st)"

fun may_run :: "pc \<Rightarrow> bool" where
  "may_run (Waiting c) = False"
| "may_run (Answered r) = False"
| "may_run (LockSet r) = False"
| "may_run _ = True"

definition arrive :: "opctl_call \<Rightarrow> opctl \<Rightarrow> opctl" where
  "arrive call st = st\<lparr>oc_tasks := oc_tasks st @ [\<lparr>tk_call = call, tk_pc = Received\<rparr>]\<rparr>"

definition idle_opctl :: opctl where
  "idle_opctl = \<lparr>oc_replay = \<lparr>rp_usedCommandIds = [], rp_usedNonces = [], rp_actorSeqs = []\<rparr>, oc_startLocks = [],
     oc_controlStates = [], oc_locks = \<lparr>sl_holders = [], sl_waiters = []\<rparr>, oc_witnessCalls = [], oc_tasks = []\<rparr>"

inductive opctl_step :: "opctl_deps \<Rightarrow> opctl \<Rightarrow> opctl \<Rightarrow> bool" for deps :: opctl_deps where
  call: "opctl_step deps st (arrive call st)"
| run: "i < length (oc_tasks st) \<Longrightarrow> may_run (tk_pc (oc_tasks st ! i)) \<Longrightarrow> opctl_step deps st (run_task deps inp i st)"

inductive opctl_reachable :: "opctl_deps \<Rightarrow> opctl \<Rightarrow> bool" for deps :: opctl_deps where
  idle: "opctl_reachable deps idle_opctl"
| step: "opctl_reachable deps st \<Longrightarrow> opctl_step deps st st' \<Longrightarrow> opctl_reachable deps st'"

inductive_cases opctl_stepE: "opctl_step deps st st'"

end
