(* ===== verification/Opctl_Properties.thy ===== *)
theory Opctl_Properties
  imports Opctl_Service
begin

text \<open>
  What operator control guarantees under every interleaving of its calls: the scope lock
  (\<open>lock_inv\<close> on the roles of the tasks), that no waiting command is lost and every call ends,
  who can take a start lock off, and what the replay check catches and misses.
\<close>

section \<open>Roles\<close>

datatype role = Outside | Waits locked_command | Holds locked_command

fun role_of :: "pc \<Rightarrow> role" where
  "role_of (Waiting c) = Waits c"
| "role_of (Locked c) = Holds c"
| "role_of (IdMarked c) = Holds c"
| "role_of (NonceMarked c) = Holds c"
| "role_of (SeqMarked c) = Holds c"
| "role_of (Authorizing c) = Holds c"
| "role_of (Completing c auth) = Holds c"
| "role_of (Applying c) = Holds c"
| "role_of (Settling c) = Holds c"
| "role_of _ = Outside"

definition pc_at :: "opctl \<Rightarrow> nat \<Rightarrow> pc" where
  "pc_at st i = (if i < length (oc_tasks st) then tk_pc (oc_tasks st ! i) else LockSet (Inr ()))"

definition roles :: "opctl \<Rightarrow> nat \<Rightarrow> role" where
  "roles st i = role_of (pc_at st i)"

definition holder_of :: "locked_command \<Rightarrow> holder" where
  "holder_of c = \<lparr>ho_action = ce_action (lc_envelope c), ho_commandId = ce_control_command_id (lc_envelope c)\<rparr>"

definition waiter_of :: "locked_command \<Rightarrow> nat \<Rightarrow> waiter" where
  "waiter_of c i = \<lparr>wa_action = ce_action (lc_envelope c), wa_commandId = ce_control_command_id (lc_envelope c), wa_task = i\<rparr>"

lemma waiter_of_fields [simp]: "wa_task (waiter_of c i) = i" "wa_action (waiter_of c i) = ce_action (lc_envelope c)"
  "wa_commandId (waiter_of c i) = ce_control_command_id (lc_envelope c)"
  by (simp_all add: waiter_of_def)

definition lock_inv :: "(nat \<Rightarrow> role) \<Rightarrow> scope_locks \<Rightarrow> bool" where
  "lock_inv R l \<longleftrightarrow>
     (\<forall>i c. R i = Holds c \<longrightarrow> obj_get (scope_key c) (sl_holders l) = Some (holder_of c)) \<and>
     (\<forall>i j c d. R i = Holds c \<longrightarrow> R j = Holds d \<longrightarrow> scope_key c = scope_key d \<longrightarrow> i = j) \<and>
     (\<forall>k h. obj_get k (sl_holders l) = Some h \<longrightarrow> (\<exists>i c. R i = Holds c \<and> scope_key c = k)) \<and>
     (\<forall>k w. w \<in> set (waiting_at k l) \<longleftrightarrow> (\<exists>i c. R i = Waits c \<and> scope_key c = k \<and> w = waiter_of c i)) \<and>
     (\<forall>k. distinct (map wa_task (waiting_at k l))) \<and>
     (\<forall>k. waiting_at k l \<noteq> [] \<longrightarrow> obj_get k (sl_holders l) \<noteq> None)"

lemma lock_invD:
  assumes "lock_inv R l"
  shows "R i = Holds c \<Longrightarrow> obj_get (scope_key c) (sl_holders l) = Some (holder_of c)"
    and "R i = Holds c \<Longrightarrow> R j = Holds d \<Longrightarrow> scope_key c = scope_key d \<Longrightarrow> i = j"
    and "obj_get k (sl_holders l) = Some h \<Longrightarrow> \<exists>i c. R i = Holds c \<and> scope_key c = k"
    and "w \<in> set (waiting_at k l) \<longleftrightarrow> (\<exists>i c. R i = Waits c \<and> scope_key c = k \<and> w = waiter_of c i)"
    and "distinct (map wa_task (waiting_at k l))"
    and "waiting_at k l \<noteq> [] \<Longrightarrow> obj_get k (sl_holders l) \<noteq> None"
  using assms unfolding lock_inv_def by blast+

text \<open>The three ways a lock changes hands.\<close>

lemma lock_inv_acquired:
  assumes inv: "lock_inv R l" and "R i = Outside" and "acquire (scope_key c) (ce_action (lc_envelope c)) (ce_control_command_id (lc_envelope c)) i l = (Acquired, l')"
  shows "lock_inv (R(i := Holds c)) l'"
proof -
  have free: "obj_get (scope_key c) (sl_holders l) = None"
    and l': "l' = l\<lparr>sl_holders := obj_set (scope_key c) (holder_of c) (sl_holders l)\<rparr>"
    using assms(3) by (auto simp: acquire_def holder_of_def split: option.splits if_splits)
  have w: "waiting_at k l' = waiting_at k l" for k by (simp add: l' waiting_at_def)
  have none: "R j = Holds d \<Longrightarrow> scope_key d \<noteq> scope_key c" for j d
    using lock_invD(1) [OF inv, of j d] free by auto
  show ?thesis
    unfolding lock_inv_def w
  proof (intro conjI allI impI)
    fix k h assume "obj_get k (sl_holders l') = Some h"
    then show "\<exists>j d. (R(i := Holds c)) j = Holds d \<and> scope_key d = k"
      using lock_invD(3) [OF inv, of k h] assms(2) by (auto simp: l' split: if_splits) (metis role.distinct(3))
  next
    fix k w show "(w \<in> set (waiting_at k l)) \<longleftrightarrow> (\<exists>j d. (R(i := Holds c)) j = Waits d \<and> scope_key d = k \<and> w = waiter_of d j)"
      using lock_invD(4) [OF inv, of w k] assms(2) by (auto split: if_splits) (metis role.distinct(1))
  qed (use assms(2) none lock_invD(1,2,5,6) [OF inv] in \<open>auto simp: l' split: if_splits\<close>)
qed

lemma lock_inv_queued:
  assumes inv: "lock_inv R l" and "R i = Outside" and "acquire (scope_key c) (ce_action (lc_envelope c)) (ce_control_command_id (lc_envelope c)) i l = (Queued, l')"
  shows "lock_inv (R(i := Waits c)) l'"
proof -
  obtain h where h: "obj_get (scope_key c) (sl_holders l) = Some h"
    and l': "l' = l\<lparr>sl_waiters := obj_set (scope_key c) (waiting_at (scope_key c) l @ [waiter_of c i]) (sl_waiters l)\<rparr>"
    using assms(3) by (auto simp: acquire_def waiter_of_def split: option.splits if_splits)
  have w: "waiting_at k l' = (if k = scope_key c then waiting_at k l @ [waiter_of c i] else waiting_at k l)" for k
    by (simp add: l' waiting_at_def)
  have hl: "sl_holders l' = sl_holders l" by (simp add: l')
  have new: "wa_task w \<noteq> i" if "w \<in> set (waiting_at k l)" for w k
    using lock_invD(4) [OF inv, of w k] that assms(2) by auto
  show ?thesis
    unfolding lock_inv_def
  proof (intro conjI allI impI)
    fix k h assume "obj_get k (sl_holders l') = Some h"
    then show "\<exists>j d. (R(i := Waits c)) j = Holds d \<and> scope_key d = k"
      using lock_invD(3) [OF inv, of k h] assms(2) by (auto simp: l') (metis role.distinct(3))
  next
    fix k w show "(w \<in> set (waiting_at k l')) \<longleftrightarrow> (\<exists>j d. (R(i := Waits c)) j = Waits d \<and> scope_key d = k \<and> w = waiter_of d j)"
      using lock_invD(4) [OF inv, of w k] assms(2) by (auto simp: w split: if_splits) (metis role.distinct(1))+
  next
    fix k show "distinct (map wa_task (waiting_at k l'))"
      using lock_invD(5) [OF inv, of k] new by (auto simp: w)
  next
    fix k assume "waiting_at k l' \<noteq> []"
    then show "obj_get k (sl_holders l') \<noteq> None"
      using lock_invD(6) [OF inv, of k] h hl by (auto simp: w split: if_splits)
  qed (use assms(2) lock_invD(1,2) [OF inv] in \<open>auto simp: l' split: if_splits\<close>)
qed

lemma lock_inv_released:
  assumes inv: "lock_inv R l" and holds: "R i = Holds c" and out: "\<not> (\<exists>d. r = Waits d)" "\<not> (\<exists>d. r = Holds d)"
    and rel: "release (scope_key c) l = (woken, l')"
  shows "case woken of None \<Rightarrow> lock_inv (R(i := r)) l'
    | Some j \<Rightarrow> \<exists>d. R j = Waits d \<and> scope_key d = scope_key c \<and> lock_inv (R(i := r, j := Holds d)) l'"
proof (cases "js_sort by_precedence (waiting_at (scope_key c) l)")
  case Nil
  then have empty: "waiting_at (scope_key c) l = []" by (metis length_0_conv length_js_sort)
  have l': "woken = None" "l' = l\<lparr>sl_holders := obj_delete (scope_key c) (sl_holders l)\<rparr>"
    using rel Nil by (auto simp: release_def Let_def)
  have w: "waiting_at k l' = waiting_at k l" for k by (simp add: l' waiting_at_def)
  have "lock_inv (R(i := r)) l'"
    unfolding lock_inv_def w
  proof (intro conjI allI impI)
    fix k h assume "obj_get k (sl_holders l') = Some h"
    then have k: "k \<noteq> scope_key c" "obj_get k (sl_holders l) = Some h" by (auto simp: l' split: if_splits)
    obtain j d where j: "R j = Holds d" "scope_key d = k" using lock_invD(3) [OF inv k(2)] by blast
    have "j \<noteq> i" using j holds k(1) by auto
    with j show "\<exists>j d. (R(i := r)) j = Holds d \<and> scope_key d = k" by auto
  next
    fix k w show "(w \<in> set (waiting_at k l)) \<longleftrightarrow> (\<exists>j d. (R(i := r)) j = Waits d \<and> scope_key d = k \<and> w = waiter_of d j)"
      using lock_invD(4) [OF inv, of w k] holds out by (auto split: if_splits) (metis role.distinct(5))
  next
    fix j d assume "(R(i := r)) j = Holds d"
    then have j: "j \<noteq> i" "R j = Holds d" using out by (auto split: if_splits)
    then have "scope_key d \<noteq> scope_key c" using lock_invD(2) [OF inv j(2) holds] by blast
    then show "obj_get (scope_key d) (sl_holders l') = Some (holder_of d)"
      using lock_invD(1) [OF inv j(2)] by (simp add: l')
  next
    fix k assume "waiting_at k l \<noteq> []"
    then show "obj_get k (sl_holders l') \<noteq> None"
      using lock_invD(6) [OF inv, of k] empty by (auto simp: l')
  next
    fix m m' e e' assume "(R(i := r)) m = Holds e" "(R(i := r)) m' = Holds e'" "scope_key e = scope_key e'"
    then show "m = m'" using lock_invD(2) [OF inv, of m e m' e'] out by (simp split: if_splits)
  next
    fix k show "distinct (map wa_task (waiting_at k l))" by (rule lock_invD(5) [OF inv])
  qed
  then show ?thesis by (simp add: l')
next
  case (Cons first rest)
  then have "first \<in> set (waiting_at (scope_key c) l)" by (metis list.set_intros(1) set_js_sort)
  then obtain j d where j: "R j = Waits d" "scope_key d = scope_key c" "first = waiter_of d j"
    using lock_invD(4) [OF inv, of first] by blast
  have l': "woken = Some j" "l' = l\<lparr>sl_holders := obj_set (scope_key c) (holder_of d) (obj_delete (scope_key c) (sl_holders l)),
      sl_waiters := obj_set (scope_key c) (filter (\<lambda>w. wa_task w \<noteq> j) (waiting_at (scope_key c) l)) (sl_waiters l)\<rparr>"
    using rel Cons j(3) by (auto simp: release_def Let_def holder_of_def)
  have hl: "obj_get k (sl_holders l') = (if k = scope_key c then Some (holder_of d) else obj_get k (sl_holders l))" for k
    by (simp add: l')
  have w: "waiting_at k l' = (if k = scope_key c then filter (\<lambda>w. wa_task w \<noteq> j) (waiting_at k l) else waiting_at k l)" for k
    by (simp add: l' waiting_at_def)
  have neq: "i \<noteq> j" using holds j(1) by auto
  let ?R = "R(i := r, j := Holds d)"
  have others: "scope_key e \<noteq> scope_key c" if "R m = Holds e" "m \<noteq> i" for m e
    using lock_invD(2) [OF inv that(1) holds] that(2) by auto
  have holder: "(m = j \<and> e = d) \<or> (m \<noteq> j \<and> m \<noteq> i \<and> R m = Holds e \<and> scope_key e \<noteq> scope_key c)"
    if "?R m = Holds e" for m e using that out others [of m e] by (cases "m = j"; cases "m = i") simp_all
  have "lock_inv ?R l'"
    unfolding lock_inv_def
  proof (intro conjI allI impI)
    fix k h assume "obj_get k (sl_holders l') = Some h"
    then show "\<exists>m e. ?R m = Holds e \<and> scope_key e = k"
    proof (cases "k = scope_key c")
      case True
      then show ?thesis using j(2) by (intro exI [of _ j] exI [of _ d]) simp
    next
      case False
      with \<open>obj_get k (sl_holders l') = Some h\<close> obtain m e where m: "R m = Holds e" "scope_key e = k"
        using lock_invD(3) [OF inv, of k h] by (auto simp: hl)
      moreover have "m \<noteq> i" "m \<noteq> j" using m False holds j(1) by auto
      ultimately show ?thesis by (intro exI [of _ m] exI [of _ e]) simp
    qed
  next
    fix m e assume "?R m = Holds e"
    then show "obj_get (scope_key e) (sl_holders l') = Some (holder_of e)"
      using holder [of m e] lock_invD(1) [OF inv, of m e] j(2) by (auto simp: hl)
  next
    fix m m' e e' assume "?R m = Holds e" "?R m' = Holds e'" "scope_key e = scope_key e'"
    with holder [of m e] holder [of m' e'] show "m = m'"
      using lock_invD(2) [OF inv, of m e m' e'] j(2) by metis
  next
    fix k w
    show "(w \<in> set (waiting_at k l')) \<longleftrightarrow> (\<exists>m e. ?R m = Waits e \<and> scope_key e = k \<and> w = waiter_of e m)"
    proof
      assume "w \<in> set (waiting_at k l')"
      then have "w \<in> set (waiting_at k l)" "k = scope_key c \<longrightarrow> wa_task w \<noteq> j" by (auto simp: w split: if_splits)
      moreover from this(1) obtain m e where m: "R m = Waits e" "scope_key e = k" "w = waiter_of e m"
        using lock_invD(4) [OF inv, of w k] by blast
      moreover have "m \<noteq> i" using m(1) holds by auto
      ultimately show "\<exists>m e. ?R m = Waits e \<and> scope_key e = k \<and> w = waiter_of e m"
        using j by (intro exI [of _ m] exI [of _ e]) auto
    next
      assume "\<exists>m e. ?R m = Waits e \<and> scope_key e = k \<and> w = waiter_of e m"
      then obtain m e where m: "?R m = Waits e" "scope_key e = k" "w = waiter_of e m" by blast
      then have "m \<noteq> j" "m \<noteq> i" "R m = Waits e" using out by (auto split: if_splits)
      then show "w \<in> set (waiting_at k l')" using lock_invD(4) [OF inv, of w k] m(2,3) by (auto simp: w)
    qed
  next
    fix k show "distinct (map wa_task (waiting_at k l'))"
      using lock_invD(5) [OF inv, of k] by (cases "k = scope_key c") (auto simp: w distinct_map_filter)
  next
    fix k assume "waiting_at k l' \<noteq> []"
    then show "obj_get k (sl_holders l') \<noteq> None"
      using lock_invD(6) [OF inv, of k] by (auto simp: w hl split: if_splits)
  qed
  then show ?thesis using j l' by auto
qed

section \<open>Steps of a task\<close>

lemma length_goto [simp]: "length (oc_tasks (goto i p st)) = length (oc_tasks st)"
  by (simp add: goto_def)

lemma goto_fields [simp]:
  "oc_locks (goto i p st) = oc_locks st" "oc_replay (goto i p st) = oc_replay st"
  "oc_startLocks (goto i p st) = oc_startLocks st" "oc_controlStates (goto i p st) = oc_controlStates st"
  by (simp_all add: goto_def)

lemma pc_at_goto [simp]: "i < length (oc_tasks st) \<Longrightarrow> pc_at (goto i p st) j = (if j = i then p else pc_at st j)"
  by (auto simp: pc_at_def goto_def)

lemma call_goto [simp]: "tk_call (oc_tasks (goto i p st) ! j) = tk_call (oc_tasks st ! j)"
  by (cases "i < length (oc_tasks st)"; cases "j = i") (auto simp: goto_def list_update_beyond)

lemma pc_at_updates [simp]:
  "pc_at (st\<lparr>oc_replay := r\<rparr>) i = pc_at st i" "pc_at (st\<lparr>oc_startLocks := sl\<rparr>) i = pc_at st i"
  "pc_at (st\<lparr>oc_controlStates := cs\<rparr>) i = pc_at st i" "pc_at (st\<lparr>oc_locks := l\<rparr>) i = pc_at st i"
  "pc_at (st\<lparr>oc_witnessCalls := w\<rparr>) i = pc_at st i"
  by (simp_all add: pc_at_def)

lemma pc_at_arrive: "pc_at (arrive call st) i = (if i = length (oc_tasks st) then Received else pc_at st i)"
  by (auto simp: pc_at_def arrive_def nth_append)

lemma roles_locks [simp]: "roles (st\<lparr>oc_locks := l\<rparr>) = roles st"
  by (rule ext) (simp add: roles_def)

lemma roles_goto:
  "oc_tasks s = oc_tasks st \<Longrightarrow> i < length (oc_tasks st) \<Longrightarrow> roles (goto i p s) = (roles st)(i := role_of p)"
  by (rule ext) (auto simp: roles_def pc_at_def goto_def)

text \<open>A step of a task moves its program counter, and the lock of its scope when it takes or
  leaves it. \<open>moves\<close> lists what a step can do to the task that runs and to the locks.\<close>

inductive moves :: "opctl_deps \<Rightarrow> nat \<Rightarrow> opctl \<Rightarrow> opctl \<Rightarrow> bool" for deps :: opctl_deps and i :: nat and st :: opctl where
  inner: "\<lbrakk>role_of p = roles st i; oc_locks st' = oc_locks st; oc_tasks st' = oc_tasks st\<rbrakk> \<Longrightarrow> moves deps i st (goto i p st')"
| take: "\<lbrakk>roles st i = Outside; oc_tasks st' = oc_tasks st;
    acquire (scope_key c) (ce_action (lc_envelope c)) (ce_control_command_id (lc_envelope c)) i (oc_locks st) = (r, oc_locks st');
    p = (case r of Acquired \<Rightarrow> Locked c | Queued \<Rightarrow> Waiting c | Outranked a \<Rightarrow> Answered x)\<rbrakk> \<Longrightarrow> moves deps i st (goto i p st')"
| leave: "\<lbrakk>roles st i = Holds c; oc_tasks st' = oc_tasks st; oc_locks st' = oc_locks st\<rbrakk> \<Longrightarrow> moves deps i st (finish deps i c r st')"

lemma moves_lock_inv:
  assumes "moves deps i st st'" and "i < length (oc_tasks st)" and inv: "lock_inv (roles st) (oc_locks st)"
  shows "lock_inv (roles st') (oc_locks st')"
  using assms(1)
proof cases
  case (inner p s)
  then have "roles st' = roles st"
    using roles_goto [of s st i p] assms(2) by (simp add: fun_upd_idem)
  with inner inv show ?thesis by simp
next
  case (take s c r p x)
  have R: "roles (goto i q s) = (roles st)(i := role_of q)" for q
    by (rule roles_goto [OF take(3) assms(2)])
  show ?thesis
  proof (cases r)
    case Acquired
    with take lock_inv_acquired [OF inv, of i c "oc_locks s"] show ?thesis by (simp add: R)
  next
    case Queued
    with take lock_inv_queued [OF inv, of i c "oc_locks s"] show ?thesis by (simp add: R)
  next
    case (Outranked a)
    with take have "oc_locks s = oc_locks st" "role_of p = Outside"
      by (auto simp: acquire_def split: option.splits if_splits)
    with take R inv show ?thesis by (metis fun_upd_triv goto_fields(1))
  qed
next
  case (leave c s r)
  obtain woken l where rel: "release (scope_key c) (oc_locks st) = (woken, l)" by fastforce
  have R: "roles (answer deps i r s) = (roles st)(i := Outside)"
    using roles_goto [OF leave(3) assms(2)] by (simp add: answer_def)
  have st': "st' = let_go (scope_key c) (answer deps i r s)" by (simp add: leave(1) finish_def)
  note released = lock_inv_released [OF inv leave(2), of Outside, OF _ _ rel]
  show ?thesis
  proof (cases woken)
    case None
    then show ?thesis using released rel leave(4) R by (simp add: st' let_go_def answer_def)
  next
    case (Some j)
    then obtain d where d: "roles st j = Waits d" "lock_inv ((roles st)(i := Outside, j := Holds d)) l"
      using released by auto
    have j: "j < length (oc_tasks st)" "pc_at st j = Waiting d" "j \<noteq> i"
      using d(1) leave(2) by (auto simp: roles_def pc_at_def split: if_splits elim: role_of.elims)
    have pc: "tk_pc (oc_tasks (answer deps i r s) ! j) = Waiting d"
      using j leave(3) by (simp add: answer_def goto_def pc_at_def)
    have "st' = goto j (Locked d) ((answer deps i r s)\<lparr>oc_locks := l\<rparr>)"
      using rel Some leave(4) pc by (simp add: st' let_go_def resumed_def answer_def)
    moreover have "roles (goto j (Locked d) ((answer deps i r s)\<lparr>oc_locks := l\<rparr>)) = (roles st)(i := Outside, j := Holds d)"
      using roles_goto [of "(answer deps i r s)\<lparr>oc_locks := l\<rparr>" "answer deps i r s" j] j(1) leave(3) R by (simp add: answer_def)
    ultimately show ?thesis using d(2) by simp
  qed
qed

text \<open>What a task carries from the call it serves.\<close>

definition opctl_deps_ok :: "opctl_deps \<Rightarrow> bool" where
  "opctl_deps_ok deps \<longleftrightarrow> schema_parser (od_parseEnvelope deps) \<and> schema_parser (od_parseResult deps)"

definition parsed_from :: "opctl_deps \<Rightarrow> opctl_call \<Rightarrow> envelope \<Rightarrow> bool" where
  "parsed_from deps call env \<longleftrightarrow> (\<exists>raw conf. call = SubmitCommand raw conf \<and> od_parseEnvelope deps raw = Inr env)"

definition confirmed_from :: "opctl_deps \<Rightarrow> opctl_call \<Rightarrow> locked_command \<Rightarrow> bool" where
  \<comment> \<open>the command of the call, confirmed when it asked for the lock\<close>
  "confirmed_from deps call c \<longleftrightarrow> (\<exists>raw conf env now.
     call = SubmitCommand raw conf \<and> od_parseEnvelope deps raw = Inr env \<and> unconfirmed deps now env conf = None \<and>
     resolveScope (od_sha256 deps) (od_parseSnapshot deps) now (ce_scope env) = (Inr (lc_snapshot c), ce_scope (lc_envelope c)) \<and>
     lc_envelope c = env\<lparr>ce_scope := ce_scope (lc_envelope c)\<rparr>)"

fun task_ok :: "opctl_deps \<Rightarrow> opctl_call \<Rightarrow> pc \<Rightarrow> bool" where
  "task_ok deps call (CommandIdRead env used) = parsed_from deps call env"
| "task_ok deps call (NonceRead env used) = parsed_from deps call env"
| "task_ok deps call (SeqRead env n) = parsed_from deps call env"
| "task_ok deps call (Applying c) = (project_of c \<noteq> None \<and> confirmed_from deps call c)"
| "task_ok deps call (Answered (Inr r)) = (sb_status r = SbApplied \<longrightarrow> (\<exists>c. confirmed_from deps call c \<and> r = applied_result deps c))"
| "task_ok deps call p = (case role_of p of Outside \<Rightarrow> True | Waits c \<Rightarrow> confirmed_from deps call c | Holds c \<Rightarrow> confirmed_from deps call c)"

definition tasks_ok :: "opctl_deps \<Rightarrow> opctl \<Rightarrow> bool" where
  "tasks_ok deps st \<longleftrightarrow> (\<forall>i < length (oc_tasks st). task_ok deps (tk_call (oc_tasks st ! i)) (pc_at st i))"

lemma answer_moves: "roles st i = Outside \<Longrightarrow> moves deps i st (answer deps i r st)"
  unfolding answer_def by (rule moves.inner) simp_all

lemma finish_moves: "roles st i = Holds c \<Longrightarrow> moves deps i st (finish deps i c r st)"
  by (rule moves.leave) simp_all

lemma take_lock_moves:
  assumes "roles st i = Outside"
  shows "moves deps i st (take_lock deps i c st)"
proof -
  obtain r l where acq: "acquire (scope_key c) (ce_action (lc_envelope c)) (ce_control_command_id (lc_envelope c)) i (oc_locks st) = (r, l)"
    by fastforce
  show ?thesis
    unfolding take_lock_def acq answer_def
    by (cases r) (simp_all, (rule moves.take [OF assms, of "st\<lparr>oc_locks := l\<rparr>" c r], simp_all add: acq)+)
qed

lemma apply_command_moves:
  assumes "roles st i = Holds c"
  shows "moves deps i st (apply_command deps i c st)"
  using assms unfolding apply_command_def
  by (auto intro!: finish_moves moves.inner split: option.split)

lemma run_task_moves:
  assumes "i < length (oc_tasks st)" and "may_run (pc_at st i)" and "task_ok deps (tk_call (oc_tasks st ! i)) (pc_at st i)"
  shows "moves deps i st (run_task deps inp i st)"
proof -
  have pc: "tk_pc (oc_tasks st ! i) = pc_at st i" using assms(1) by (simp add: pc_at_def)
  show ?thesis
  proof (cases "pc_at st i")
    case Received
    then have out: "roles st i = Outside" by (simp add: roles_def)
    then show ?thesis
      by (auto simp: run_task_def pc Received receive_command_def set_start_lock_def
          intro!: answer_moves moves.inner split: opctl_call.split sum.split)
  next
    case (CommandIdRead env used)
    then show ?thesis
      by (auto simp: run_task_def pc check_command_id_def roles_def intro!: answer_moves moves.inner)
  next
    case (NonceRead env used)
    then show ?thesis
      by (auto simp: run_task_def pc check_nonce_def roles_def intro!: answer_moves moves.inner)
  next
    case (SeqRead env n)
    then obtain raw conf where call: "tk_call (oc_tasks st ! i) = SubmitCommand raw conf"
      using assms(3) by (auto simp: parsed_from_def)
    have "roles st i = Outside" using SeqRead by (simp add: roles_def)
    then show ?thesis
      by (auto simp: run_task_def pc SeqRead call check_seq_def intro!: answer_moves take_lock_moves moves.inner
          split: option.split prod.split sum.split)
  next
    case (SeqMarked c)
    then show ?thesis
      by (auto simp: run_task_def pc begin_witness_def roles_def Let_def intro!: finish_moves apply_command_moves moves.inner)
  next
    case (Authorizing c)
    then show ?thesis
      by (auto simp: run_task_def pc authorized_def witness_failed_def roles_def
          intro!: finish_moves moves.inner split: option.split)
  next
    case (Completing c auth)
    then show ?thesis
      by (auto simp: run_task_def pc completed_def witness_failed_def roles_def
          intro!: finish_moves apply_command_moves split: option.split)
  next
    case (Applying c)
    then obtain p where "project_of c = Some p" using assms(3) by auto
    then show ?thesis using Applying
      by (auto simp: run_task_def pc apply_rest_def roles_def intro!: moves.inner)
  next
    case (Settling c)
    then show ?thesis by (auto simp: run_task_def pc roles_def intro!: finish_moves)
  qed (use assms(2) in \<open>auto simp: run_task_def pc roles_def clear_state_def intro!: moves.inner\<close>)
qed

text \<open>Every part of a call brings it nearer to its end (\<open>remaining\<close>).\<close>

fun remaining :: "pc \<Rightarrow> nat" where
  "remaining Received = 13"
| "remaining (CommandIdRead env used) = 12"
| "remaining (NonceRead env used) = 11"
| "remaining (SeqRead env n) = 10"
| "remaining (Waiting c) = 9"
| "remaining (Locked c) = 8"
| "remaining (IdMarked c) = 7"
| "remaining (NonceMarked c) = 6"
| "remaining (SeqMarked c) = 5"
| "remaining (Authorizing c) = 4"
| "remaining (Completing c auth) = 3"
| "remaining (Applying c) = 2"
| "remaining (Settling c) = 1"
| "remaining (Unlocking p) = 1"
| "remaining (Answered r) = 0"
| "remaining (LockSet r) = 0"

lemma pc_at_let_go: "pc_at (let_go k st) j = pc_at st j \<or> (\<exists>c. pc_at st j = Waiting c \<and> pc_at (let_go k st) j = Locked c)"
proof -
  obtain woken l where rel: "release k (oc_locks st) = (woken, l)" by fastforce
  show ?thesis
  proof (cases woken)
    case (Some m)
    then show ?thesis using rel
      by (cases "m < length (oc_tasks st)")
        (auto simp: let_go_def resumed_def goto_def pc_at_def list_update_beyond nth_list_update split: pc.splits)
  qed (simp add: let_go_def rel)
qed

lemma let_go_shape [simp]: "length (oc_tasks (let_go k st)) = length (oc_tasks st)"
  "tk_call (oc_tasks (let_go k st) ! j) = tk_call (oc_tasks st ! j)"
  by (auto simp: let_go_def split: option.split prod.split)

lemma pc_at_answer [simp]: "i < length (oc_tasks st) \<Longrightarrow> pc_at (answer deps i r st) i = Answered (od_parseResult deps r)"
  by (simp add: answer_def)

lemma pc_at_finish [simp]: "i < length (oc_tasks st) \<Longrightarrow> pc_at (finish deps i c r st) i = Answered (od_parseResult deps r)"
  using pc_at_let_go [of "scope_key c" "answer deps i r st" i] by (auto simp: finish_def)

lemma answer_ok:
  assumes "opctl_deps_ok deps" and "sb_status r = SbApplied \<Longrightarrow> \<exists>c. confirmed_from deps call c \<and> r = applied_result deps c"
  shows "task_ok deps call (Answered (od_parseResult deps r))"
proof (cases "od_parseResult deps r")
  case (Inr x)
  with assms(1) have "x = r" by (simp add: opctl_deps_ok_def schema_parser_def)
  with Inr assms(2) show ?thesis by simp
qed simp

lemma refusal_status [simp]: "sb_status (refusal status env reason code) = status"
  by (simp add: refusal_def)

definition goes_on :: "opctl_deps \<Rightarrow> nat \<Rightarrow> opctl \<Rightarrow> opctl \<Rightarrow> bool" where
  "goes_on deps i st st' \<longleftrightarrow> task_ok deps (tk_call (oc_tasks st ! i)) (pc_at st' i) \<and> remaining (pc_at st' i) < remaining (pc_at st i)"

lemma goes_on_goto:
  "i < length (oc_tasks s) \<Longrightarrow> task_ok deps (tk_call (oc_tasks st ! i)) p \<Longrightarrow> remaining p < remaining (pc_at st i) \<Longrightarrow>
   goes_on deps i st (goto i p s)"
  by (simp add: goes_on_def)

lemma goes_on_answer:
  assumes "opctl_deps_ok deps" and "i < length (oc_tasks s)" and "0 < remaining (pc_at st i)" and "sb_status r \<noteq> SbApplied"
  shows "goes_on deps i st (answer deps i r s)" and "goes_on deps i st (finish deps i c r s)"
  using assms answer_ok [OF assms(1), of r] by (auto simp: goes_on_def)

lemma goes_on_applied:
  assumes "opctl_deps_ok deps" and "i < length (oc_tasks s)" and "0 < remaining (pc_at st i)"
    and "confirmed_from deps (tk_call (oc_tasks st ! i)) c"
  shows "goes_on deps i st (finish deps i c (applied_result deps c) s)"
  using assms answer_ok [OF assms(1), of "applied_result deps c"] by (auto simp: goes_on_def)

lemma goes_on_apply:
  assumes "opctl_deps_ok deps" and "i < length (oc_tasks st)" and "2 < remaining (pc_at st i)"
    and "confirmed_from deps (tk_call (oc_tasks st ! i)) c"
  shows "goes_on deps i st (apply_command deps i c st)"
  using assms unfolding apply_command_def
  by (auto intro!: goes_on_applied goes_on_goto split: option.split)

lemma goes_on_take_lock:
  assumes "opctl_deps_ok deps" and "i < length (oc_tasks st)" and "9 < remaining (pc_at st i)"
    and "confirmed_from deps (tk_call (oc_tasks st ! i)) c"
  shows "goes_on deps i st (take_lock deps i c st)"
  using assms unfolding take_lock_def
  by (auto intro!: goes_on_answer goes_on_goto split: acquire_result.split prod.split)

lemma run_task_goes_on:
  assumes "opctl_deps_ok deps" and "i < length (oc_tasks st)" and "may_run (pc_at st i)"
    and "task_ok deps (tk_call (oc_tasks st ! i)) (pc_at st i)"
  shows "goes_on deps i st (run_task deps inp i st)"
proof -
  have pc: "tk_pc (oc_tasks st ! i) = pc_at st i" using assms(2) by (simp add: pc_at_def)
  note rules = goes_on_goto goes_on_answer goes_on_applied goes_on_apply goes_on_take_lock
  show ?thesis
  proof (cases "pc_at st i")
    case Received
    then show ?thesis using assms
      by (auto simp: run_task_def pc Received receive_command_def set_start_lock_def parsed_from_def
          intro!: rules split: opctl_call.split sum.split)
  next
    case (CommandIdRead env used)
    then show ?thesis using assms by (auto simp: run_task_def pc check_command_id_def intro!: rules)
  next
    case (NonceRead env used)
    then show ?thesis using assms by (auto simp: run_task_def pc check_nonce_def intro!: rules)
  next
    case (SeqRead env n)
    then obtain raw conf where call: "tk_call (oc_tasks st ! i) = SubmitCommand raw conf" "od_parseEnvelope deps raw = Inr env"
      using assms(4) by (auto simp: parsed_from_def)
    have confirmed: "confirmed_from deps (tk_call (oc_tasks st ! i)) \<lparr>lc_envelope = env\<lparr>ce_scope := scope\<rparr>, lc_snapshot = snapshot\<rparr>"
      if "unconfirmed deps (in_now inp) env conf = None"
        "resolveScope (od_sha256 deps) (od_parseSnapshot deps) (in_now inp) (ce_scope env) = (Inr snapshot, scope)" for snapshot scope
      using that call by (auto simp: confirmed_from_def)
    show ?thesis using assms confirmed SeqRead
      by (auto simp: run_task_def pc SeqRead call check_seq_def intro!: rules split: option.split prod.split sum.split)
  next
    case (SeqMarked c)
    then show ?thesis using assms by (auto simp: run_task_def pc begin_witness_def Let_def intro!: rules)
  next
    case (Authorizing c)
    then show ?thesis using assms by (auto simp: run_task_def pc authorized_def witness_failed_def intro!: rules split: option.split)
  next
    case (Completing c auth)
    then show ?thesis using assms by (auto simp: run_task_def pc completed_def witness_failed_def intro!: rules split: option.split)
  next
    case (Applying c)
    then obtain p where "project_of c = Some p" using assms(4) by auto
    then show ?thesis using assms Applying by (auto simp: run_task_def pc apply_rest_def intro!: rules)
  next
    case (Settling c)
    then show ?thesis using assms by (auto simp: run_task_def pc intro!: rules)
  qed (use assms in \<open>auto simp: run_task_def pc clear_state_def intro!: rules\<close>)
qed

section \<open>Reachable states\<close>

lemma moves_others:
  assumes "moves deps i st st'" and "i < length (oc_tasks st)"
  shows "length (oc_tasks st') = length (oc_tasks st)" and "tk_call (oc_tasks st' ! j) = tk_call (oc_tasks st ! j)"
    and "j \<noteq> i \<Longrightarrow> pc_at st' j = pc_at st j \<or> (\<exists>c. pc_at st j = Waiting c \<and> pc_at st' j = Locked c)"
proof -
  have same: "pc_at s j = pc_at st j" if "oc_tasks s = oc_tasks st" for s using that by (simp add: pc_at_def)
  show "length (oc_tasks st') = length (oc_tasks st)" "tk_call (oc_tasks st' ! j) = tk_call (oc_tasks st ! j)"
    using assms(1) by (cases; simp add: finish_def answer_def)+
  show "pc_at st' j = pc_at st j \<or> (\<exists>c. pc_at st j = Waiting c \<and> pc_at st' j = Locked c)" if "j \<noteq> i"
    using assms(1)
  proof cases
    case (leave c s r)
    then show ?thesis
      using pc_at_let_go [of "scope_key c" "answer deps i r s" j] that assms(2) same [of s] by (simp add: finish_def answer_def)
  next
    case (inner p s)
    then show ?thesis using that assms(2) same [of s] by simp
  next
    case (take s c r p x)
    then show ?thesis using that assms(2) same [of s] by simp
  qed
qed

lemma task_ok_woken: "task_ok deps call (Waiting c) \<Longrightarrow> task_ok deps call (Locked c)"
  by simp

lemma tasks_ok_moves:
  assumes "moves deps i st st'" and "i < length (oc_tasks st)" and "tasks_ok deps st" and "goes_on deps i st st'"
  shows "tasks_ok deps st'"
  unfolding tasks_ok_def
proof (intro allI impI)
  fix j assume "j < length (oc_tasks st')"
  then have "task_ok deps (tk_call (oc_tasks st ! j)) (pc_at st j)"
    using assms(3) moves_others(1) [OF assms(1,2)] by (simp add: tasks_ok_def)
  then show "task_ok deps (tk_call (oc_tasks st' ! j)) (pc_at st' j)"
    using moves_others(2,3) [OF assms(1,2), of j] assms(4) by (cases "j = i") (auto simp: goes_on_def)
qed

definition opctl_inv :: "opctl_deps \<Rightarrow> opctl \<Rightarrow> bool" where
  "opctl_inv deps st \<longleftrightarrow> lock_inv (roles st) (oc_locks st) \<and> tasks_ok deps st"

lemma run_task_inv:
  assumes "opctl_deps_ok deps" and "opctl_inv deps st" and "i < length (oc_tasks st)" and "may_run (pc_at st i)"
  shows "opctl_inv deps (run_task deps inp i st)" and "moves deps i st (run_task deps inp i st)"
    and "goes_on deps i st (run_task deps inp i st)"
proof -
  have ok: "task_ok deps (tk_call (oc_tasks st ! i)) (pc_at st i)" using assms(2,3) by (simp add: opctl_inv_def tasks_ok_def)
  show moves: "moves deps i st (run_task deps inp i st)" by (rule run_task_moves [OF assms(3,4) ok])
  show goes: "goes_on deps i st (run_task deps inp i st)" by (rule run_task_goes_on [OF assms(1,3,4) ok])
  show "opctl_inv deps (run_task deps inp i st)"
    using moves_lock_inv [OF moves assms(3)] tasks_ok_moves [OF moves assms(3) _ goes] assms(2) by (simp add: opctl_inv_def)
qed

lemma arrive_inv:
  assumes "opctl_inv deps st"
  shows "opctl_inv deps (arrive call st)"
proof -
  have "roles (arrive call st) = roles st"
  proof (rule ext)
    fix j show "roles (arrive call st) j = roles st j"
      by (cases "j = length (oc_tasks st)") (simp_all add: roles_def pc_at_arrive, simp add: pc_at_def)
  qed
  moreover have "oc_locks (arrive call st) = oc_locks st" by (simp add: arrive_def)
  moreover have "tasks_ok deps (arrive call st)"
    using assms by (auto simp: opctl_inv_def tasks_ok_def pc_at_arrive) (auto simp: arrive_def nth_append less_Suc_eq)
  ultimately show ?thesis using assms by (simp add: opctl_inv_def)
qed

lemma may_run_pc_at: "i < length (oc_tasks st) \<Longrightarrow> tk_pc (oc_tasks st ! i) = pc_at st i"
  by (simp add: pc_at_def)

lemma opctl_reachable_inv:
  assumes "opctl_reachable deps st" and "opctl_deps_ok deps"
  shows "opctl_inv deps st"
  using assms(1)
proof induction
  case idle
  then show ?case
    by (auto simp: opctl_inv_def idle_opctl_def lock_inv_def roles_def pc_at_def waiting_at_def tasks_ok_def)
next
  case (step st st')
  from step(2) show ?case
    by cases (auto intro: arrive_inv [OF step(3)] run_task_inv(1) [OF assms(2) step(3)] simp: may_run_pc_at)
qed

text \<open>C5: Under every interleaving of calls, at most one command of a scope is between taking
  the scope lock and its answer, the lock store names exactly that command as the holder, and
  only commands whose confirmation sufficed when they asked for the lock get there.\<close>

theorem scope_lock_exclusive:
  assumes "opctl_reachable deps st" and "opctl_deps_ok deps" and "roles st i = Holds c"
  shows "confirmed_from deps (tk_call (oc_tasks st ! i)) c \<and>
    obj_get (scope_key c) (sl_holders (oc_locks st)) = Some (holder_of c) \<and>
    (\<forall>j d. roles st j = Holds d \<and> scope_key d = scope_key c \<longrightarrow> j = i)"
proof -
  have inv: "lock_inv (roles st) (oc_locks st)" "tasks_ok deps st"
    using opctl_reachable_inv [OF assms(1,2)] by (simp_all add: opctl_inv_def)
  have "i < length (oc_tasks st)" using assms(3) by (auto simp: roles_def pc_at_def split: if_splits)
  then have "task_ok deps (tk_call (oc_tasks st ! i)) (pc_at st i)" using inv(2) by (simp add: tasks_ok_def)
  then have "confirmed_from deps (tk_call (oc_tasks st ! i)) c"
    using assms(3) by (cases "pc_at st i") (auto simp: roles_def)
  then show ?thesis using lock_invD(1) [OF inv(1) assms(3)] lock_invD(2) [OF inv(1) _ assms(3)] by blast
qed

section \<open>Every call ends\<close>

fun schedule :: "opctl_deps \<Rightarrow> (nat \<times> step_input) list \<Rightarrow> opctl \<Rightarrow> opctl option" where
  \<comment> \<open>running the given tasks one part at a time; each must be able to run\<close>
  "schedule deps [] st = Some st"
| "schedule deps ((i, inp) # xs) st =
     (if i < length (oc_tasks st) \<and> may_run (tk_pc (oc_tasks st ! i)) then schedule deps xs (run_task deps inp i st) else None)"

definition work_left :: "opctl \<Rightarrow> nat" where
  "work_left st = (\<Sum>i < length (oc_tasks st). remaining (pc_at st i))"

lemma run_task_work:
  assumes "opctl_deps_ok deps" and "opctl_inv deps st" and "i < length (oc_tasks st)" and "may_run (pc_at st i)"
  shows "work_left (run_task deps inp i st) < work_left st"
proof -
  note run = run_task_inv [OF assms, of inp]
  have "remaining (pc_at (run_task deps inp i st) j) \<le> remaining (pc_at st j)" for j
    using moves_others(3) [OF run(2) assms(3), of j] run(3) by (cases "j = i") (auto simp: goes_on_def)
  moreover have "remaining (pc_at (run_task deps inp i st) i) < remaining (pc_at st i)" using run(3) by (simp add: goes_on_def)
  ultimately show ?thesis
    unfolding work_left_def moves_others(1) [OF run(2) assms(3)]
    using assms(3) by (intro sum_strict_mono_ex1) auto
qed

lemma schedule_work:
  assumes "opctl_deps_ok deps"
  shows "opctl_inv deps st \<Longrightarrow> schedule deps xs st = Some st' \<Longrightarrow> opctl_inv deps st' \<and> length xs + work_left st' \<le> work_left st"
proof (induction xs arbitrary: st)
  case (Cons x xs)
  obtain i inp where x: "x = (i, inp)" by fastforce
  then have i: "i < length (oc_tasks st)" "may_run (pc_at st i)" and rest: "schedule deps xs (run_task deps inp i st) = Some st'"
    using Cons.prems(2) by (auto simp: pc_at_def split: if_splits)
  show ?case
    using Cons.IH [OF run_task_inv(1) [OF assms Cons.prems(1) i] rest] run_task_work [OF assms Cons.prems(1) i, of inp] by simp
qed simp

lemma remaining_bound: "remaining p \<le> 13"
  by (cases p) auto

lemma waiting_has_holder:
  assumes "lock_inv (roles st) (oc_locks st)" and "pc_at st i = Waiting c"
  shows "\<exists>j d. j < length (oc_tasks st) \<and> roles st j = Holds d \<and> scope_key d = scope_key c"
proof -
  have "\<exists>j d. roles st j = Waits d \<and> scope_key d = scope_key c \<and> waiter_of c i = waiter_of d j"
    using assms(2) by (intro exI [of _ i] exI [of _ c]) (simp add: roles_def)
  then have "waiter_of c i \<in> set (waiting_at (scope_key c) (oc_locks st))"
    using lock_invD(4) [OF assms(1)] by blast
  then have "obj_get (scope_key c) (sl_holders (oc_locks st)) \<noteq> None"
    using lock_invD(6) [OF assms(1), of "scope_key c"] by (metis empty_iff list.set(1))
  then obtain j d where "roles st j = Holds d" "scope_key d = scope_key c" using lock_invD(3) [OF assms(1)] by blast
  then show ?thesis by (auto simp: roles_def pc_at_def split: if_splits)
qed

lemma holds_may_run: "roles st j = Holds d \<Longrightarrow> may_run (pc_at st j)"
  by (cases "pc_at st j") (auto simp: roles_def)

text \<open>C6: Every call ends. Whatever the order in which the calls run, they take at most 13
  parts each; a command waits only while another of its scope, which can run, holds the lock;
  and when no call can run, each has been answered - none is left waiting for a lock.\<close>

theorem opctl_calls_end:
  assumes "opctl_reachable deps st" and "opctl_deps_ok deps" and "schedule deps xs st = Some st'"
  shows "length xs \<le> 13 * length (oc_tasks st) \<and>
    ((\<exists>i < length (oc_tasks st'). may_run (pc_at st' i)) \<or>
     (\<forall>i < length (oc_tasks st'). (\<exists>r. pc_at st' i = Answered r) \<or> (\<exists>r. pc_at st' i = LockSet r)))"
proof -
  note inv = schedule_work [OF assms(2) opctl_reachable_inv [OF assms(1,2)] assms(3)]
  have "work_left st \<le> 13 * length (oc_tasks st)"
    using sum_bounded_above [of "{..<length (oc_tasks st)}" "\<lambda>i. remaining (pc_at st i)" 13] remaining_bound
    by (simp add: work_left_def mult.commute)
  moreover have "(\<exists>r. pc_at st' i = Answered r) \<or> (\<exists>r. pc_at st' i = LockSet r)"
    if stuck: "\<not> (\<exists>i < length (oc_tasks st'). may_run (pc_at st' i))" and i: "i < length (oc_tasks st')" for i
  proof (cases "pc_at st' i")
    case (Waiting c)
    have "lock_inv (roles st') (oc_locks st')" using inv by (simp add: opctl_inv_def)
    from waiting_has_holder [OF this Waiting] obtain j d where "j < length (oc_tasks st')" "roles st' j = Holds d" by blast
    then show ?thesis using stuck holds_may_run by blast
  qed (use stuck i in auto)
  ultimately show ?thesis using inv by (meson add_leD1 le_trans)
qed

section \<open>Start locks\<close>

lemma stores_unchanged [simp]:
  "oc_startLocks (let_go k st) = oc_startLocks st" "oc_startLocks (answer deps i r st) = oc_startLocks st"
  "oc_startLocks (finish deps i c r st) = oc_startLocks st" "oc_startLocks (take_lock deps i c st) = oc_startLocks st"
  "oc_replay (let_go k st) = oc_replay st" "oc_replay (answer deps i r st) = oc_replay st"
  "oc_replay (finish deps i c r st) = oc_replay st" "oc_replay (take_lock deps i c st) = oc_replay st"
  by (auto simp: let_go_def answer_def finish_def take_lock_def split: option.split prod.split acquire_result.split)

lemma apply_command_locks:
  "oc_startLocks (apply_command deps i c st) = oc_startLocks st \<or>
   (\<exists>p b. project_of c = Some p \<and> oc_startLocks (apply_command deps i c st) = setStartLock p b (oc_startLocks st) \<and>
      ce_action (lc_envelope c) = (if b then AcHardStop else AcResume))"
  by (auto simp: apply_command_def split: option.split)

lemma run_task_locks:
  assumes "i < length (oc_tasks st)"
  shows "oc_startLocks (run_task deps inp i st) = oc_startLocks st \<or>
    (\<exists>p b. oc_startLocks (run_task deps inp i st) = setStartLock p b (oc_startLocks st) \<and>
       ((\<exists>a. tk_call (oc_tasks st ! i) = SetStartLock p b a \<and> pc_at st i = Received \<and> (a = CaPrincipal \<or> b)) \<or>
        (\<exists>c. roles st i = Holds c \<and> project_of c = Some p \<and> ce_action (lc_envelope c) = (if b then AcHardStop else AcResume))))"
proof -
  have pc: "tk_pc (oc_tasks st ! i) = pc_at st i" using assms by (simp add: pc_at_def)
  have apply_case: ?thesis if "run_task deps inp i st = apply_command deps i c st" "roles st i = Holds c" for c
    using apply_command_locks [of deps i c st]
  proof (elim disjE exE conjE)
    fix p b assume "project_of c = Some p" "oc_startLocks (apply_command deps i c st) = setStartLock p b (oc_startLocks st)"
      "ce_action (lc_envelope c) = (if b then AcHardStop else AcResume)"
    with that show ?thesis by (intro disjI2 exI [of _ p] exI [of _ b] conjI disjI2 exI [of _ c]) simp_all
  qed (simp add: that)
  show ?thesis
  proof (cases "pc_at st i")
    case Received
    show ?thesis
    proof (cases "tk_call (oc_tasks st ! i)")
      case (SubmitCommand raw conf)
      then show ?thesis by (auto simp: run_task_def pc Received receive_command_def split: sum.split)
    next
      case (SetStartLock p b a)
      show ?thesis
      proof (cases "a = CaPrincipal \<or> b")
        case True
        then have "oc_startLocks (run_task deps inp i st) = setStartLock p b (oc_startLocks st)"
          by (auto simp: run_task_def pc Received SetStartLock set_start_lock_def)
        with True Received SetStartLock show ?thesis by blast
      qed (simp add: run_task_def pc Received SetStartLock set_start_lock_def)
    qed
  next
    case (SeqMarked c)
    then show ?thesis using apply_case [of c]
      by (cases "isEmergencyHardStop deps (lc_envelope c)")
        (auto simp: run_task_def pc begin_witness_def Let_def roles_def)
  next
    case (Completing c auth)
    then show ?thesis using apply_case [of c]
      by (cases "in_answer inp") (auto simp: run_task_def pc completed_def witness_failed_def roles_def)
  next
    case (Applying c)
    then show ?thesis by (auto simp: run_task_def pc apply_rest_def split: option.split)
  next
    case (SeqRead env n)
    then show ?thesis
      by (auto simp: run_task_def pc check_seq_def split: opctl_call.split option.split prod.split sum.split)
  qed (auto simp: run_task_def pc check_command_id_def check_nonce_def authorized_def witness_failed_def clear_state_def
      split: option.split)
qed

text \<open>A project's start lock, once set, is taken off only by the principal's own release or by
  a confirmed resume command for that project while it holds the lock of its scope. Nothing
  checks who sent that command.\<close>

theorem start_lock_released_by:
  assumes "opctl_reachable deps st" and "opctl_deps_ok deps" and "opctl_step deps st st'"
    and "hasStartLock p (oc_startLocks st)" and "\<not> hasStartLock p (oc_startLocks st')"
  shows "\<exists>i < length (oc_tasks st). tk_call (oc_tasks st ! i) = SetStartLock p False CaPrincipal \<or>
    (\<exists>c. roles st i = Holds c \<and> confirmed_from deps (tk_call (oc_tasks st ! i)) c \<and>
       ce_action (lc_envelope c) = AcResume \<and> project_of c = Some p)"
  using assms(3)
proof (cases rule: opctl_step.cases)
  case (call call)
  then show ?thesis using assms(4,5) by (simp add: arrive_def)
next
  case (run i inp)
  have flag: "q = p \<and> \<not> b" if "oc_startLocks st' = setStartLock q b (oc_startLocks st)" for q b
    using flags.only_unset_removes [of p "oc_startLocks st" q b] assms(4,5) that by (simp add: hasStartLock_def setStartLock_def)
  have inv: "lock_inv (roles st) (oc_locks st)" "tasks_ok deps st"
    using opctl_reachable_inv [OF assms(1,2)] by (simp_all add: opctl_inv_def)
  have confirmed: "confirmed_from deps (tk_call (oc_tasks st ! i)) c" if "roles st i = Holds c" for c
    using that inv(2) run(2) by (cases "pc_at st i") (auto simp: roles_def tasks_ok_def dest: spec [of _ i])
  show ?thesis
    using run_task_locks [OF run(2), of deps inp] flag confirmed run(1,2) assms(4,5) by (metis (full_types))
qed

text \<open>The tiers the service requires and those of the published table.\<close>

lemma tiers_disagree:
  "filter (\<lambda>a. getRequiredTier a \<noteq> ACTION_TIER_MAP a) PRECEDENCE_ORDER =
     [AcCancel, AcPause, AcRevert, AcResume, AcRetry, AcEditSubmittedPrompt, AcStopResponse]"
  by code_simp

section \<open>Replay\<close>

lemma used_stays:
  assumes "i < length (oc_tasks st)" and "isCommandIdUsed k (oc_replay st)"
  shows "isCommandIdUsed k (oc_replay (run_task deps inp i st))"
proof -
  have mark: "isCommandIdUsed k (markCommandIdUsed k' r)" "isCommandIdUsed k (markNonceUsed n r)"
    "isCommandIdUsed k (setActorSeq sid m r)" if "isCommandIdUsed k r" for k' n sid m r
    using that by (simp_all add: isCommandIdUsed_def markCommandIdUsed_def markNonceUsed_def setActorSeq_def flags.flagged_set)
  have apply_case: "oc_replay (apply_command deps i c st) = oc_replay st" for c
    by (auto simp: apply_command_def split: option.split)
  show ?thesis
    using assms(2)
    by (cases "tk_pc (oc_tasks st ! i)")
      (auto simp: run_task_def receive_command_def set_start_lock_def check_command_id_def check_nonce_def check_seq_def mark
        begin_witness_def Let_def apply_case authorized_def completed_def witness_failed_def apply_rest_def clear_state_def
        split: opctl_call.split sum.split option.split prod.split)
qed

definition spent :: "opctl_deps \<Rightarrow> nat \<Rightarrow> opctl \<Rightarrow> bool" where
  \<comment> \<open>a submission of a used command that is on its way to being refused\<close>
  "spent deps i st \<longleftrightarrow> i < length (oc_tasks st) \<and>
     (\<exists>raw conf. tk_call (oc_tasks st ! i) = SubmitCommand raw conf \<and> isCommandIdUsed (ce_control_command_id raw) (oc_replay st)) \<and>
     (case pc_at st i of
        Received \<Rightarrow> True
      | CommandIdRead env used \<Rightarrow> used
      | Answered (Inr r) \<Rightarrow> sb_status r = SbRejected
      | Answered (Inl e) \<Rightarrow> True
      | _ \<Rightarrow> False)"

lemma rejected_answer:
  assumes "opctl_deps_ok deps" and "od_parseResult deps (refusal SbRejected env reason code) = Inr r"
  shows "sb_status r = SbRejected"
  using assms by (metis opctl_deps_ok_def refusal_status schema_parser.parse_id)

lemma spent_run_self:
  assumes "opctl_deps_ok deps" and "spent deps i st" and "may_run (pc_at st i)"
  shows "spent deps i (run_task deps inp i st)"
proof -
  obtain raw conf where i: "i < length (oc_tasks st)" and call: "tk_call (oc_tasks st ! i) = SubmitCommand raw conf"
    and used: "isCommandIdUsed (ce_control_command_id raw) (oc_replay st)"
    using assms(2) by (auto simp: spent_def)
  have pc: "tk_pc (oc_tasks st ! i) = pc_at st i" using i by (simp add: pc_at_def)
  have parsed: "od_parseEnvelope deps raw = Inr env \<Longrightarrow> env = raw" for env
    using assms(1) by (simp add: opctl_deps_ok_def schema_parser_def)
  note stays = used_stays [OF i used, of deps inp]
  consider "pc_at st i = Received" | env where "pc_at st i = CommandIdRead env True"
    using assms(2,3) by (cases "pc_at st i") (auto simp: spent_def)
  then show ?thesis
  proof cases
    case 1
    then show ?thesis using i call used stays parsed rejected_answer [OF assms(1)]
      by (auto simp: spent_def run_task_def pc receive_command_def split: sum.split) (auto simp: answer_def)
  next
    case 2
    then show ?thesis using i call used stays rejected_answer [OF assms(1)]
      by (auto simp: spent_def run_task_def pc check_command_id_def split: sum.split) (auto simp: answer_def)
  qed
qed

lemma spent_step:
  assumes "opctl_deps_ok deps" and "opctl_inv deps st" and "opctl_step deps st st'" and "spent deps i st"
  shows "spent deps i st'"
  using assms(3)
proof cases
  case (call call)
  have "pc_at st' i = pc_at st i" "tk_call (oc_tasks st' ! i) = tk_call (oc_tasks st ! i)" "oc_replay st' = oc_replay st"
    "length (oc_tasks st) < length (oc_tasks st')"
    using assms(4) by (auto simp: call spent_def pc_at_arrive) (auto simp: arrive_def nth_append)
  then show ?thesis using assms(4) unfolding spent_def by auto
next
  case (run j inp)
  have may: "may_run (pc_at st j)" using run(2,3) by (simp add: pc_at_def)
  show ?thesis
  proof (cases "j = i")
    case True
    then show ?thesis using spent_run_self [OF assms(1,4), of inp] may run(1) by simp
  next
    case False
    note moved = moves_others [OF run_task_inv(2) [OF assms(1,2) run(2) may, of inp] run(2)]
    have "pc_at st' i = pc_at st i" using moved(3) [of i] False assms(4) run(1) by (auto simp: spent_def)
    then show ?thesis
      using assms(4) moved(1,2) used_stays [OF run(2), of _ deps inp] unfolding run(1) spent_def by auto
  qed
qed

text \<open>C25: A command whose identifier has been marked as used is refused for ever: a submission
  that arrives afterwards never takes or waits for a lock, however the calls interleave, and any
  answer it gets is a rejection.\<close>

theorem used_command_refused:
  assumes "opctl_reachable deps st" and "opctl_deps_ok deps"
    and "isCommandIdUsed (ce_control_command_id raw) (oc_replay st)"
    and "(opctl_step deps)\<^sup>*\<^sup>* (arrive (SubmitCommand raw conf) st) st'"
  shows "roles st' (length (oc_tasks st)) = Outside \<and>
    (\<forall>r. pc_at st' (length (oc_tasks st)) = Answered (Inr r) \<longrightarrow> sb_status r = SbRejected)"
proof -
  let ?i = "length (oc_tasks st)"
  have "spent deps ?i (arrive (SubmitCommand raw conf) st)"
    using assms(3) by (simp add: spent_def pc_at_arrive) (simp add: arrive_def)
  moreover have "opctl_reachable deps (arrive (SubmitCommand raw conf) st)"
    by (rule opctl_reachable.step [OF assms(1) opctl_step.call])
  ultimately have "spent deps ?i st' \<and> opctl_reachable deps st'"
    using assms(4)
  proof (induction rule: rtranclp_induct [OF assms(4)])
    case (2 y z)
    then show ?case
      using spent_step [OF assms(2) opctl_reachable_inv [OF _ assms(2)]] opctl_reachable.step by blast
  qed blast
  then show ?thesis by (cases "pc_at st' ?i") (auto simp: spent_def roles_def)
qed

end
