(* ===== verification/Opctl_Runs.thy ===== *)
theory Opctl_Runs
  imports Opctl_Properties
begin

text \<open>
  Runs of operator control: a worker agent that resumes a stopped project with a proof it
  issued itself, a command submitted twice at once, and the witnesses of the properties of
  \<open>Opctl_Properties\<close>.
\<close>

definition demo_opctl :: opctl_deps where
  "demo_opctl = \<lparr>od_sha256 = (\<lambda>t. t), od_parseEnvelope = Inr, od_parseSnapshot = Inr, od_parseResult = Inr,
     od_witnessService = True, od_projectControlStateStore = True\<rparr>"

lemma demo_opctl_ok: "opctl_deps_ok demo_opctl"
  by (simp add: opctl_deps_ok_def schema_parser_def demo_opctl_def)

definition demo_scope :: control_scope where
  "demo_scope = \<lparr>cs_class = ScProjectRun, cs_kind = SkProjectRun, cs_target_ids = [], cs_project_id = Some ''p''\<rparr>"

definition worker_resume :: envelope where
  "worker_resume = \<lparr>ce_control_command_id = ''c1'', ce_actor_type = CaWorkerAgent, ce_actor_id = ''w'',
     ce_actor_session_id = ''s'', ce_actor_seq = 1, ce_nonce = ''n1'', ce_issued_at = ''2025-01-01T00:00:00.000Z'',
     ce_expires_at = ''2025-01-01T01:00:00.000Z'', ce_scope = demo_scope, ce_payload_hash = ''h'',
     ce_command_signature = ''sig'', ce_action = AcResume, ce_payload = None\<rparr>"

definition own_proof :: confirmation_proof where
  \<comment> \<open>anyone can ask for it, and at the lowest tier\<close>
  "own_proof = issueConfirmationProof (od_sha256 demo_opctl) ''proof'' ''2025-01-01T00:00:00.000Z'' ''2025-01-01T00:05:00.000Z''
     \<lparr>pq_scope = demo_scope, pq_action = AcResume, pq_tier = T0, pq_reason = None\<rparr>"

definition minute_one :: step_input where
  "minute_one = \<lparr>in_now = ''2025-01-01T00:01:00.000Z'', in_answer = Some ''event''\<rparr>"

definition three_calls :: opctl where
  \<comment> \<open>the principal stops the project; the worker's command arrives twice\<close>
  "three_calls = arrive (SubmitCommand worker_resume (Some own_proof)) (arrive (SubmitCommand worker_resume (Some own_proof))
     (arrive (SetStartLock ''p'' True CaPrincipal) idle_opctl))"

lemma three_calls_reachable: "opctl_reachable demo_opctl three_calls"
  unfolding three_calls_def by (intro opctl_reachable.step [OF _ opctl_step.call] opctl_reachable.idle)

lemma schedule_reachable:
  "opctl_reachable deps st \<Longrightarrow> schedule deps xs st = Some st' \<Longrightarrow> opctl_reachable deps st'"
proof (induction deps xs st rule: schedule.induct)
  case (2 deps i inp xs st)
  then show ?case by (auto split: if_splits intro: opctl_reachable.step opctl_step.run)
qed simp

definition turns :: "nat list \<Rightarrow> opctl option" where
  "turns is = schedule demo_opctl (map (\<lambda>i. (i, minute_one)) is) three_calls"

lemma schedule_append: "schedule deps (xs @ ys) st = Option.bind (schedule deps xs st) (schedule deps ys)"
  by (induction deps xs st rule: schedule.induct) auto

lemma schedule_steps: "schedule deps xs st = Some st' \<Longrightarrow> (opctl_step deps)\<^sup>*\<^sup>* st st'"
proof (induction deps xs st rule: schedule.induct)
  case (2 deps i inp xs st)
  then show ?case by (auto split: if_splits intro: converse_rtranclp_into_rtranclp opctl_step.run)
qed simp

definition look :: "(opctl \<Rightarrow> 'a) \<Rightarrow> nat list \<Rightarrow> 'a option" where
  "look f xs = map_option f (turns xs)"

lemma lookD: "look f xs = Some v \<Longrightarrow> \<exists>st. turns xs = Some st \<and> opctl_reachable demo_opctl st \<and> f st = v"
  using schedule_reachable [OF three_calls_reachable] by (auto simp: look_def turns_def)

lemma turns_step: "turns xs = Some st \<Longrightarrow> turns (xs @ [i]) = Some st' \<Longrightarrow> opctl_step demo_opctl st st'"
  by (auto simp: turns_def schedule_append split: if_splits intro: opctl_step.run)

text \<open>The worker's command holds the lock of its scope; one part later it has taken the start lock off.\<close>

definition before_release :: "nat list" where
  "before_release = 0 # replicate 9 1"

definition locked_and_held :: "opctl \<Rightarrow> bool \<times> bool list" where
  "locked_and_held st = (hasStartLock ''p'' (oc_startLocks st),
     map (\<lambda>t. case role_of (tk_pc t) of Holds c \<Rightarrow> True | _ \<Rightarrow> False) (oc_tasks st))"

lemma before_release_look: "look locked_and_held before_release = Some (True, [False, True, False])"
  by code_simp

lemma after_release_look: "look locked_and_held (before_release @ [1]) = Some (False, [False, True, False])"
  by code_simp

lemma holds_second:
  assumes "locked_and_held st = (b, [False, True, False])"
  shows "\<exists>c. roles st 1 = Holds c"
proof -
  have "length (oc_tasks st) = 3" using arg_cong [OF assms, of "length \<circ> snd"] by (simp add: locked_and_held_def)
  moreover have "snd (locked_and_held st) ! 1" using assms by simp
  ultimately show ?thesis
    by (auto simp: locked_and_held_def roles_def pc_at_def split: role.splits)
qed

theorem scope_lock_exclusive_witness:
  "\<exists>st c. turns before_release = Some st \<and> roles st 1 = Holds c \<and>
     confirmed_from demo_opctl (tk_call (oc_tasks st ! 1)) c \<and>
     obj_get (scope_key c) (sl_holders (oc_locks st)) = Some (holder_of c)"
proof -
  obtain st where st: "turns before_release = Some st" "opctl_reachable demo_opctl st" "locked_and_held st = (True, [False, True, False])"
    using lookD [OF before_release_look] by blast
  obtain c where c: "roles st 1 = Holds c" using holds_second [OF st(3)] by blast
  from scope_lock_exclusive [OF st(2) demo_opctl_ok c] show ?thesis using st(1) c by blast
qed

theorem start_lock_released_by_witness:
  "\<exists>st st'. turns before_release = Some st \<and> opctl_step demo_opctl st st' \<and> \<not> hasStartLock ''p'' (oc_startLocks st') \<and>
     (\<exists>i < length (oc_tasks st). tk_call (oc_tasks st ! i) = SetStartLock ''p'' False CaPrincipal \<or>
        (\<exists>c. roles st i = Holds c \<and> ce_action (lc_envelope c) = AcResume))"
proof -
  obtain st where st: "turns before_release = Some st" "opctl_reachable demo_opctl st" "locked_and_held st = (True, [False, True, False])"
    using lookD [OF before_release_look] by blast
  obtain st' where st': "turns (before_release @ [1]) = Some st'" "locked_and_held st' = (False, [False, True, False])"
    using lookD [OF after_release_look] by blast
  have step: "opctl_step demo_opctl st st'" by (rule turns_step [OF st(1) st'(1)])
  have "hasStartLock ''p'' (oc_startLocks st)" "\<not> hasStartLock ''p'' (oc_startLocks st')"
    using st(3) st'(2) by (simp_all add: locked_and_held_def)
  from start_lock_released_by [OF st(2) demo_opctl_ok step this] show ?thesis
    using st(1) step \<open>\<not> hasStartLock ''p'' (oc_startLocks st')\<close> by blast
qed

text \<open>Both copies of the command, checked before either was marked as used.\<close>

definition both_copies :: "nat list" where
  "both_copies = 0 # replicate 4 1 @ replicate 4 2 @ replicate 8 1 @ replicate 8 2"

definition statuses :: "opctl \<Rightarrow> submit_status option list" where
  "statuses st = map (\<lambda>t. case tk_pc t of Answered (Inr r) \<Rightarrow> Some (sb_status r) | _ \<Rightarrow> None) (oc_tasks st)"

lemma both_copies_look: "look statuses both_copies = Some [None, Some SbApplied, Some SbApplied]"
  by code_simp

text \<open>The replay check reads before it locks: two submissions of one signed command that
  arrive together are both checked before either marks the command as used, the second waits for
  the scope lock, and both are applied.\<close>

theorem duplicate_command_applied_twice:
  "\<exists>st. opctl_reachable demo_opctl st \<and> tk_call (oc_tasks st ! 1) = tk_call (oc_tasks st ! 2) \<and>
     statuses st = [None, Some SbApplied, Some SbApplied]"
proof -
  obtain st where st: "turns both_copies = Some st" "opctl_reachable demo_opctl st" "statuses st = [None, Some SbApplied, Some SbApplied]"
    using lookD [OF both_copies_look] by blast
  have "look (\<lambda>st. map tk_call (oc_tasks st)) both_copies = Some (map tk_call (oc_tasks three_calls))" by code_simp
  then have calls: "map tk_call (oc_tasks st) = map tk_call (oc_tasks three_calls)" using st(1) by (simp add: look_def)
  have "length (oc_tasks three_calls) = 3" "length (oc_tasks st) = 3"
    using arg_cong [OF calls, of length] by (simp_all add: three_calls_def arrive_def idle_opctl_def)
  then have "tk_call (oc_tasks st ! 1) = tk_call (oc_tasks st ! 2)"
    using arg_cong [OF calls, of "\<lambda>xs. xs ! 1"] arg_cong [OF calls, of "\<lambda>xs. xs ! 2"]
    by (simp add: three_calls_def arrive_def idle_opctl_def)
  then show ?thesis using st by blast
qed

theorem opctl_calls_end_witness:
  "\<exists>st. schedule demo_opctl (map (\<lambda>i. (i, minute_one)) both_copies) three_calls = Some st \<and> length both_copies \<le> 13 * 3"
proof -
  obtain st where st: "turns both_copies = Some st" using lookD [OF both_copies_look] by blast
  from opctl_calls_end [OF three_calls_reachable demo_opctl_ok st [unfolded turns_def]] show ?thesis
    using st by (simp add: turns_def three_calls_def arrive_def idle_opctl_def)
qed

lemma first_copy_look: "look (\<lambda>st. (isCommandIdUsed ''c1'' (oc_replay st), length (oc_tasks st))) (0 # replicate 12 1) = Some (True, 3)"
  by code_simp

theorem used_command_refused_witness:
  "\<exists>st. turns (0 # replicate 12 1) = Some st \<and>
     roles (arrive (SubmitCommand worker_resume (Some own_proof)) st) (length (oc_tasks st)) = Outside"
proof -
  obtain st where st: "turns (0 # replicate 12 1) = Some st" "opctl_reachable demo_opctl st" "isCommandIdUsed ''c1'' (oc_replay st)"
    using lookD [OF first_copy_look] by auto
  have "isCommandIdUsed (ce_control_command_id worker_resume) (oc_replay st)" using st(3) by (simp add: worker_resume_def)
  from used_command_refused [OF st(2) demo_opctl_ok this rtranclp.rtrancl_refl] show ?thesis using st(1) by blast
qed

end
