(* ===== verification/Calendar.thy ===== *)
theory Calendar
  imports Prelude
begin

text \<open>
  What the code uses of \<open>Date\<close>: milliseconds since 1970, UTC months and weekdays, and
  \<open>toISOString\<close>. A month is counted from January 1970; times are integers, and the calendar is
  modelled from 1970 on. \<open>computePeriodBounds\<close> of \<open>self/subcortex/cost/src/cost-governance-service.ts\<close>
  is built on it.
\<close>

definition day_ms :: int where
  "day_ms = 86400000"

definition leap_year :: "nat \<Rightarrow> bool" where
  "leap_year y \<longleftrightarrow> y mod 4 = 0 \<and> (y mod 100 \<noteq> 0 \<or> y mod 400 = 0)"

definition days_in_month :: "nat \<Rightarrow> nat" where
  "days_in_month k = [31, if leap_year (1970 + k div 12) then 29 else 28, 31, 30, 31, 30, 31, 31, 30, 31, 30, 31] ! (k mod 12)"

lemma days_in_month_pos: "0 < days_in_month k"
proof -
  have "list_all ((<) 0) [31, if leap_year y then 29 else 28, 31, 30, 31, 30, 31, 31, 30, 31, 30, 31 :: nat]" for y by simp
  then show ?thesis unfolding days_in_month_def list_all_length by simp
qed

fun month_start :: "nat \<Rightarrow> nat" where
  \<comment> \<open>the days before the month\<close>
  "month_start 0 = 0"
| "month_start (Suc k) = month_start k + days_in_month k"

function month_from :: "nat \<Rightarrow> nat \<Rightarrow> nat \<times> nat" where
  \<comment> \<open>counting months off a number of days: the month and the day in it\<close>
  "month_from k d = (if d < days_in_month k then (k, d) else month_from (Suc k) (d - days_in_month k))"
  by auto
termination by (relation "measure snd") (use days_in_month_pos in \<open>auto simp: not_less intro: diff_less less_le_trans\<close>)

declare month_from.simps [simp del]

definition month_of_day :: "nat \<Rightarrow> nat" where
  "month_of_day d = fst (month_from 0 d)"

lemma month_from_sound:
  "month_from k d = (m, r) \<Longrightarrow> month_start k + d = month_start m + r \<and> r < days_in_month m"
proof (induction k d rule: month_from.induct)
  case (1 k d)
  show ?case
  proof (cases "d < days_in_month k")
    case True
    then show ?thesis using 1(2) by (subst (asm) month_from.simps) simp
  next
    case False
    then have "month_from (Suc k) (d - days_in_month k) = (m, r)"
      using 1(2) by (subst (asm) month_from.simps) simp
    from 1(1) [OF False this] False show ?thesis by simp
  qed
qed

lemma month_of_day_bounds: "month_start (month_of_day d) \<le> d" "d < month_start (Suc (month_of_day d))"
  using month_from_sound [of 0 d "fst (month_from 0 d)" "snd (month_from 0 d)"] by (auto simp: month_of_day_def)

definition day_of :: "int \<Rightarrow> nat" where
  "day_of t = nat (t div day_ms)"

definition weekday :: "nat \<Rightarrow> nat" where
  \<comment> \<open>\<open>getUTCDay\<close>: 1970 began on a Thursday\<close>
  "weekday d = (d + 4) mod 7"

datatype period_type = Monthly | Weekly

definition computePeriodBounds :: "int \<Rightarrow> period_type \<Rightarrow> int \<times> int" where
  "computePeriodBounds now periodType =
     (case periodType of
        Monthly \<Rightarrow>
          (let k = month_of_day (day_of now) in (int (month_start k) * day_ms, int (month_start (k + 1)) * day_ms))
      | Weekly \<Rightarrow>
          (let dayOfWeek = weekday (day_of now);
               diffToMonday = (if dayOfWeek = 0 then -6 else 1 - int dayOfWeek);
               start = (int (day_of now) + diffToMonday) * day_ms
           in (start, start + 7 * day_ms)))"

lemma day_of_bounds: "0 \<le> t \<Longrightarrow> int (day_of t) * day_ms \<le> t" "0 \<le> t \<Longrightarrow> t < (int (day_of t) + 1) * day_ms"
proof -
  assume "0 \<le> t"
  then have "0 \<le> t div day_ms" by (simp add: day_ms_def)
  then have d: "int (day_of t) = t div day_ms" by (simp add: day_of_def)
  show "int (day_of t) * day_ms \<le> t" "t < (int (day_of t) + 1) * day_ms"
    unfolding d day_ms_def by (simp_all add: minus_mod_eq_div_mult [symmetric] algebra_simps)
qed

lemma monthly_bounds:
  assumes "0 \<le> now"
  shows "fst (computePeriodBounds now Monthly) \<le> now" and "now < snd (computePeriodBounds now Monthly)"
proof -
  let ?k = "month_of_day (day_of now)"
  have "int (month_start ?k) \<le> int (day_of now)" "int (day_of now) + 1 \<le> int (month_start (Suc ?k))"
    using month_of_day_bounds [of "day_of now"] by linarith+
  then have "int (month_start ?k) * day_ms \<le> int (day_of now) * day_ms"
    "(int (day_of now) + 1) * day_ms \<le> int (month_start (Suc ?k)) * day_ms"
    by (simp_all add: day_ms_def)
  then show "fst (computePeriodBounds now Monthly) \<le> now" "now < snd (computePeriodBounds now Monthly)"
    using day_of_bounds [OF assms] by (auto simp: computePeriodBounds_def Let_def)
qed

lemma weekly_bounds:
  assumes "0 \<le> now"
  shows "fst (computePeriodBounds now Weekly) \<le> now" and "now < snd (computePeriodBounds now Weekly)"
proof -
  define w where "w = weekday (day_of now)"
  have "w < 7" by (simp add: w_def weekday_def)
  then have "w = 0 \<or> w = 1 \<or> w = 2 \<or> w = 3 \<or> w = 4 \<or> w = 5 \<or> w = 6" by linarith
  then show "fst (computePeriodBounds now Weekly) \<le> now" "now < snd (computePeriodBounds now Weekly)"
    using day_of_bounds [OF assms] unfolding computePeriodBounds_def Let_def w_def [symmetric] period_type.case
    by (auto simp: day_ms_def algebra_simps)
qed

lemma monday_before_sunday: "(y + 10) mod 7 = 0 \<Longrightarrow> (y + 4) mod 7 = 1" for y :: nat
  by presburger

lemma monday_before: "(y + w + 3) mod 7 = w \<Longrightarrow> w < 7 \<Longrightarrow> (y + 4) mod 7 = 1" for y w :: nat
  by presburger

text \<open>A budget period contains the moment it is computed for: it begins at or before it and
  ends (exclusively) after it. A weekly one is seven days long and begins on a Monday, a monthly
  one begins with a month and ends where the next begins.\<close>

theorem period_contains_now:
  assumes "0 \<le> now" and "computePeriodBounds now periodType = (s, e)"
  shows "s \<le> now \<and> now < e \<and>
    (case periodType of
       Weekly \<Rightarrow> e = s + 7 * day_ms \<and> (0 \<le> s \<longrightarrow> s mod day_ms = 0 \<and> weekday (day_of s) = 1)
     | Monthly \<Rightarrow> (\<exists>k. s = int (month_start k) * day_ms \<and> e = int (month_start (Suc k)) * day_ms))"
proof (cases periodType)
  case Monthly
  with assms(2) monthly_bounds [OF assms(1)] show ?thesis by (auto simp: computePeriodBounds_def Let_def)
next
  case Weekly
  define w where "w = weekday (day_of now)"
  have s: "s = (int (day_of now) + (if w = 0 then -6 else 1 - int w)) * day_ms" "e = s + 7 * day_ms"
    using assms(2) by (auto simp: Weekly computePeriodBounds_def Let_def w_def)
  have monday: "weekday (day_of s) = 1" if "0 \<le> s"
  proof -
    define x where "x = int (day_of now) + (if w = 0 then -6 else 1 - int w)"
    have x: "0 \<le> x" "day_of s = nat x" using that s(1) by (simp_all add: day_of_def day_ms_def x_def zero_le_mult_iff)
    have w: "w = (day_of now + 4) mod 7" by (simp add: w_def weekday_def)
    show ?thesis
    proof (cases "w = 0")
      case True
      then have "x = int (day_of now) - 6" by (simp add: x_def)
      then have "nat x + 10 = day_of now + 4" using x(1) by linarith
      with True w have "(nat x + 10) mod 7 = 0" by (simp only:)
      from monday_before_sunday [OF this] have "(nat x + 4) mod 7 = 1" .
      then show ?thesis by (simp add: x weekday_def)
    next
      case False
      have "w < 7" using w by simp
      from False have "x = int (day_of now) + (1 - int w)" by (simp add: x_def)
      then have "nat x + w + 3 = day_of now + 4" using x(1) by linarith
      then have "(nat x + w + 3) mod 7 = w" by (simp only: w [symmetric])
      from monday_before [OF this \<open>w < 7\<close>] have "(nat x + 4) mod 7 = 1" .
      then show ?thesis by (simp add: x weekday_def)
    qed
  qed
  have "s mod day_ms = 0" by (simp add: s(1))
  with s(2) monday Weekly assms(2) weekly_bounds [OF assms(1)] show ?thesis by auto
qed

text \<open>\<open>toISOString\<close>.\<close>

fun padded :: "nat \<Rightarrow> nat \<Rightarrow> string" where
  "padded width n = (let t = show_nat n in replicate (width - length t) (CHR ''0'') @ t)"

definition toISOString :: "int \<Rightarrow> string" where
  "toISOString t =
     (let (k, d) = month_from 0 (day_of t); ms = nat (t mod day_ms) in
      padded 4 (1970 + k div 12) @ ''-'' @ padded 2 (k mod 12 + 1) @ ''-'' @ padded 2 (d + 1) @ ''T'' @
      padded 2 (ms div 3600000) @ '':'' @ padded 2 (ms div 60000 mod 60) @ '':'' @ padded 2 (ms div 1000 mod 60) @
      ''.'' @ padded 3 (ms mod 1000) @ ''Z'')"

theorem period_contains_now_witness:
  "\<exists>s e. computePeriodBounds 1709210096789 Weekly = (s, e) \<and> s \<le> 1709210096789 \<and> 1709210096789 < e"
proof -
  obtain s e where se: "computePeriodBounds 1709210096789 Weekly = (s, e)" by (rule prod.exhaust)
  have "(0 :: int) \<le> 1709210096789" by simp
  from period_contains_now [OF this se] se show ?thesis by blast
qed

end
