(* ===== verification/Doubles.thy ===== *)
theory Doubles
  imports Prelude Complex_Main
begin

text \<open>
  The numbers of JavaScript as the cost components use them: finite doubles, as rationals. An
  arithmetic operation is the exact one, rounded to 53 significant bits, half to even, with
  exponents from \<open>-1074\<close> on; results below \<open>2^1024\<close> only, so infinities and \<open>NaN\<close> do not arise.
\<close>

section \<open>Rounding\<close>

function bits :: "int \<Rightarrow> int" where
  \<comment> \<open>the length of the binary numeral\<close>
  "bits n = (if n \<le> 0 then 0 else 1 + bits (n div 2))"
  by auto
termination by (relation "measure nat") auto

declare bits.simps [simp del]

lemma bits_bounds: "0 < n \<Longrightarrow> 0 < bits n \<and> 2 ^ nat (bits n - 1) \<le> n \<and> n < 2 ^ nat (bits n)"
proof (induction n rule: bits.induct)
  case (1 n)
  show ?case
  proof (cases "n div 2 \<le> 0")
    case True
    then have "n = 1" using 1(2) by presburger
    then show ?thesis by (simp add: bits.simps)
  next
    case False
    then have ih: "2 ^ nat (bits (n div 2) - 1) \<le> n div 2" "n div 2 < 2 ^ nat (bits (n div 2))" "0 < bits (n div 2)"
      using 1 by auto
    have b: "bits n = 1 + bits (n div 2)" using 1(2) by (subst bits.simps) simp
    have "nat (bits n - 1) = Suc (nat (bits (n div 2) - 1))" "nat (bits n) = Suc (nat (bits (n div 2)))"
      using ih(3) by (simp_all add: b nat_add_distrib)
    moreover have "2 * (n div 2) \<le> n" "n < 2 * (n div 2) + 2" by presburger+
    ultimately show ?thesis using ih b by simp
  qed
qed

definition exponent :: "rat \<Rightarrow> int" where
  \<comment> \<open>of the leading bit\<close>
  "exponent x =
     (let (p, q) = quotient_of x; k = bits p - bits q in
      if 2 powi k \<le> x then k else k - 1)"

definition ulp :: "rat \<Rightarrow> rat" where
  "ulp x = 2 powi (max (exponent \<bar>x\<bar> - 52) (-1074))"

definition half_even :: "rat \<Rightarrow> int" where
  "half_even x =
     (let n = \<lfloor>x\<rfloor>; d = x - of_int n in
      if d < 1 / 2 then n else if 1 / 2 < d then n + 1 else if even n then n else n + 1)"

definition rounded :: "rat \<Rightarrow> rat" where
  "rounded x = (if x = 0 then 0 else of_int (half_even (x / ulp x)) * ulp x)"

definition double :: "rat \<Rightarrow> bool" where
  "double x \<longleftrightarrow> (\<exists>m e. x = of_int m * 2 powi e \<and> \<bar>m\<bar> \<le> 2 ^ 53 \<and> -1074 \<le> e)"

lemma half_even_bounds: "\<lfloor>x\<rfloor> \<le> half_even x" "half_even x \<le> \<lceil>x\<rceil>"
proof -
  show "\<lfloor>x\<rfloor> \<le> half_even x" by (simp add: half_even_def Let_def)
  show "half_even x \<le> \<lceil>x\<rceil>"
  proof (cases "x = of_int \<lfloor>x\<rfloor>")
    case True
    then have "x - of_int \<lfloor>x\<rfloor> = 0" by simp
    then show ?thesis unfolding half_even_def Let_def by (simp add: le_ceiling_iff)
  next
    case False
    then have "\<lceil>x\<rceil> = \<lfloor>x\<rfloor> + 1" by (metis ceiling_altdef)
    then show ?thesis by (simp add: half_even_def Let_def)
  qed
qed

lemma exponent_bounds:
  assumes "0 < x"
  shows "2 powi exponent x \<le> x" "x < 2 powi (exponent x + 1)"
proof -
  obtain p q where pq: "quotient_of x = (p, q)" by (rule prod.exhaust)
  have q: "0 < q" using quotient_of_denom_pos [OF pq] .
  have x: "x = of_int p / of_int q" using quotient_of_div [OF pq] .
  have p: "0 < p" using assms q by (simp add: x zero_less_divide_iff)
  define a where "a = nat (bits p)"
  define b where "b = nat (bits q)"
  have a: "2 ^ (a - 1) \<le> p" "p < 2 ^ a" "0 < a" "bits p = int a"
    using bits_bounds [OF p] by (auto simp: a_def nat_diff_distrib)
  have b: "2 ^ (b - 1) \<le> q" "q < 2 ^ b" "0 < b" "bits q = int b"
    using bits_bounds [OF q] by (auto simp: b_def nat_diff_distrib)
  have hi: "of_int p < (2 :: rat) ^ a" "of_int q < (2 :: rat) ^ b"
    using a(2) b(2) by (metis of_int_less_iff of_int_numeral of_int_power)+
  have lo: "(2 :: rat) ^ (a - 1) \<le> of_int p" "(2 :: rat) ^ (b - 1) \<le> of_int q"
    using a(1) b(1) by (metis of_int_le_iff of_int_numeral of_int_power)+
  define k where "k = int a - int b"
  have up: "x < 2 powi (k + 1)"
  proof -
    have "x < 2 ^ a / 2 ^ (b - 1)" unfolding x using hi(1) lo(2) p by (intro frac_less) auto
    also have "\<dots> = 2 powi (int a - int (b - 1))" by (simp add: power_int_diff power_int_of_nat)
    finally show ?thesis using b(3) by (simp add: k_def of_nat_diff algebra_simps)
  qed
  have down: "2 powi (k - 1) \<le> x"
  proof -
    have "2 powi (int (a - 1) - int b) = (2 :: rat) ^ (a - 1) / 2 ^ b" by (simp add: power_int_diff power_int_of_nat)
    also have "\<dots> \<le> x" unfolding x using lo(1) hi(2) p q by (intro frac_le) auto
    finally show ?thesis using a(3) by (simp add: k_def of_nat_diff algebra_simps)
  qed
  have e: "exponent x = (if 2 powi k \<le> x then k else k - 1)"
    by (simp add: exponent_def pq Let_def k_def a(4) b(4))
  show "2 powi exponent x \<le> x" "x < 2 powi (exponent x + 1)" using up down by (auto simp: e)
qed

lemma ulp_pos [simp]: "0 < ulp x"
  by (simp add: ulp_def zero_less_power_int)

lemma ulp_exponent: "\<exists>e. ulp x = 2 powi e \<and> -1074 \<le> e \<and> (0 < x \<longrightarrow> x < 2 powi (e + 53) \<and> (-1074 < e \<longrightarrow> 2 powi (e + 52) \<le> x))"
proof -
  define e where "e = max (exponent \<bar>x\<bar> - 52) (-1074)"
  have "x < 2 powi (e + 53)" if "0 < x"
  proof -
    have "x < 2 powi (exponent x + 1)" using exponent_bounds(2) [OF that] .
    also have "\<dots> \<le> 2 powi (e + 53)" using that by (intro power_int_increasing) (auto simp: e_def)
    finally show ?thesis .
  qed
  moreover have "2 powi (e + 52) \<le> x" if "0 < x" "-1074 < e"
    using exponent_bounds(1) [OF that(1)] that by (auto simp: e_def max_def split: if_splits)
  ultimately show ?thesis by (intro exI [of _ e]) (auto simp: ulp_def e_def)
qed

lemma power_int_shift: "e \<le> e' \<Longrightarrow> (2 :: rat) powi e' = of_int (2 ^ nat (e' - e)) * 2 powi e"
  by (simp add: power_int_add [symmetric] flip: power_int_of_nat)

text \<open>A double below a number stays below it when that number is rounded, and one above it above.\<close>

lemma double_le_rounded:
  assumes "double a" "a \<le> x" "0 < x"
  shows "a \<le> rounded x"
proof -
  obtain m e where a: "a = of_int m * 2 powi e" "\<bar>m\<bar> \<le> 2 ^ 53" "-1074 \<le> e" using assms(1) by (auto simp: double_def)
  obtain u where u: "ulp x = 2 powi u" "-1074 \<le> u" "-1074 < u \<Longrightarrow> 2 powi (u + 52) \<le> x"
    using ulp_exponent [of x] assms(3) by auto
  have r: "rounded x = of_int (half_even (x / ulp x)) * ulp x" using assms(3) by (simp add: rounded_def)
  have "\<exists>n. a \<le> of_int n * ulp x \<and> of_int n * ulp x \<le> x"
  proof (cases "u \<le> e")
    case True
    then have "a = of_int (m * 2 ^ nat (e - u)) * ulp x" by (simp add: a(1) u(1) power_int_shift [OF True])
    with assms(2) show ?thesis by (intro exI [of _ "m * 2 ^ nat (e - u)"]) simp
  next
    case False
    then have "-1074 < u" using a(3) by simp
    have "of_int m \<le> (2 :: rat) ^ 53" using a(2) by (metis abs_le_D1 of_int_le_iff of_int_numeral of_int_power)
    then have "a \<le> 2 ^ 53 * 2 powi e" by (simp add: a(1) mult_right_mono)
    also have "\<dots> = 2 powi (53 + e)" by (simp add: power_int_add)
    also have "\<dots> \<le> 2 powi (52 + u)" using False by (intro power_int_increasing) auto
    also have "\<dots> = of_int (2 ^ 52) * ulp x" by (simp add: power_int_add u(1))
    finally have "a \<le> of_int (2 ^ 52) * ulp x" .
    moreover have "of_int (2 ^ 52) * ulp x \<le> x"
      using u(3) [OF \<open>-1074 < u\<close>] by (simp add: power_int_add u(1) mult.commute)
    ultimately show ?thesis by blast
  qed
  then obtain n where n: "a \<le> of_int n * ulp x" "of_int n * ulp x \<le> x" by blast
  have "of_int n \<le> x / ulp x" using n(2) by (simp add: pos_le_divide_eq)
  then have "n \<le> half_even (x / ulp x)" using half_even_bounds(1) [of "x / ulp x"] le_floor_iff [of n] by linarith
  then have "of_int n * ulp x \<le> rounded x" by (simp add: r)
  with n(1) show ?thesis by simp
qed

lemma rounded_le_double:
  assumes "double a" "x \<le> a" "0 < x"
  shows "rounded x \<le> a"
proof -
  obtain m e where a: "a = of_int m * 2 powi e" "\<bar>m\<bar> \<le> 2 ^ 53" "-1074 \<le> e" using assms(1) by (auto simp: double_def)
  obtain u where u: "ulp x = 2 powi u" "-1074 < u \<Longrightarrow> 2 powi (u + 52) \<le> x" "-1074 \<le> u"
    using ulp_exponent [of x] assms(3) by auto
  have "\<exists>n. a = of_int n * ulp x"
  proof (cases "u \<le> e")
    case True
    then have "a = of_int (m * 2 ^ nat (e - u)) * ulp x" by (simp add: a(1) u(1) power_int_shift [OF True])
    then show ?thesis by blast
  next
    case False
    then have "-1074 < u" using a(3) by simp
    have "of_int m \<le> (2 :: rat) ^ 53" using a(2) by (metis abs_le_D1 of_int_le_iff of_int_numeral of_int_power)
    then have "a \<le> 2 ^ 53 * 2 powi e" by (simp add: a(1) mult_right_mono)
    also have "\<dots> = 2 powi (53 + e)" by (simp add: power_int_add)
    also have "\<dots> \<le> 2 powi (52 + u)" using False by (intro power_int_increasing) auto
    finally have "a = 2 powi (52 + u)" using assms(2) u(2) [OF \<open>-1074 < u\<close>] by (simp add: add.commute)
    then have "a = of_int (2 ^ 52) * ulp x" by (simp add: power_int_add u(1))
    then show ?thesis by blast
  qed
  then obtain n where n: "a = of_int n * ulp x" by blast
  have "x / ulp x \<le> of_int n" using assms(2) by (simp add: n pos_divide_le_eq)
  then have "\<lceil>x / ulp x\<rceil> \<le> n" by (simp add: ceiling_le_iff)
  then have "half_even (x / ulp x) \<le> n" using half_even_bounds(2) [of "x / ulp x"] by linarith
  then have "of_int (half_even (x / ulp x)) * ulp x \<le> a" by (simp add: n)
  then show ?thesis using assms(3) by (simp add: rounded_def)
qed

lemma rounded_double: "double a \<Longrightarrow> 0 \<le> a \<Longrightarrow> rounded a = a"
  using double_le_rounded [of a a] rounded_le_double [of a a] by (cases "a = 0") (auto simp: rounded_def)

lemma rounded_nonneg: "0 \<le> x \<Longrightarrow> 0 \<le> rounded x"
  using double_le_rounded [of 0 x] by (cases "x = 0") (auto simp: double_def rounded_def intro: exI [of _ 0])

lemma double_rounded: "0 \<le> x \<Longrightarrow> double (rounded x)"
proof (cases "x = 0")
  case True
  then show ?thesis by (auto simp: rounded_def double_def intro: exI [of _ 0])
next
  case False
  assume "0 \<le> x"
  with False have x: "0 < x" by simp
  obtain u where u: "ulp x = 2 powi u" "-1074 \<le> u" "x < 2 powi (u + 53)"
    using ulp_exponent [of x] x by auto
  have "x / ulp x < of_int (2 ^ 53)" using u(3) by (simp add: u(1) divide_less_eq power_int_add mult.commute)
  then have "\<lceil>x / ulp x\<rceil> \<le> 2 ^ 53" by (simp add: ceiling_le_iff del: of_int_power of_int_numeral)
  then have "half_even (x / ulp x) \<le> 2 ^ 53" using half_even_bounds(2) [of "x / ulp x"] by linarith
  moreover have "0 \<le> half_even (x / ulp x)"
    using half_even_bounds(1) [of "x / ulp x"] x by (meson divide_nonneg_pos less_imp_le order_trans ulp_pos zero_le_floor)
  ultimately show ?thesis
    unfolding double_def rounded_def using x u(1,2)
    by (intro exI [of _ "half_even (x / ulp x)"] exI [of _ u]) simp
qed

section \<open>Arithmetic\<close>

definition js_add :: "rat \<Rightarrow> rat \<Rightarrow> rat" where
  "js_add x y = rounded (x + y)"

definition js_mult :: "rat \<Rightarrow> rat \<Rightarrow> rat" where
  "js_mult x y = rounded (x * y)"

definition js_div :: "rat \<Rightarrow> rat \<Rightarrow> rat" where
  \<comment> \<open>by a number other than zero\<close>
  "js_div x y = rounded (x / y)"

definition js_literal :: "rat \<Rightarrow> rat" where
  "js_literal x = rounded x"

definition toFixed0 :: "rat \<Rightarrow> string" where
  \<comment> \<open>\<open>toFixed(0)\<close> of a number from 0 up to \<open>10^21\<close>\<close>
  "toFixed0 x = show_nat (nat \<lfloor>x + 1 / 2\<rfloor>)"

lemma js_add_nonneg: "0 \<le> x \<Longrightarrow> 0 \<le> y \<Longrightarrow> 0 \<le> js_add x y"
  by (simp add: js_add_def rounded_nonneg)

lemma js_mult_nonneg: "0 \<le> x \<Longrightarrow> 0 \<le> y \<Longrightarrow> 0 \<le> js_mult x y"
  by (simp add: js_mult_def rounded_nonneg)

lemma js_div_nonneg: "0 \<le> x \<Longrightarrow> 0 \<le> y \<Longrightarrow> 0 \<le> js_div x y"
  by (simp add: js_div_def rounded_nonneg)

lemma double_js_add: "0 \<le> x \<Longrightarrow> 0 \<le> y \<Longrightarrow> double (js_add x y)"
  by (simp add: js_add_def double_rounded)

lemma js_add_increases:
  assumes "double x" "0 \<le> x" "0 \<le> y"
  shows "x \<le> js_add x y"
proof (cases "x + y = 0")
  case True
  then have "x = 0" using assms by linarith
  then show ?thesis using js_add_nonneg [OF assms(2,3)] by simp
next
  case False
  then show ?thesis unfolding js_add_def using assms by (intro double_le_rounded) auto
qed

lemma js_add_zero: "double x \<Longrightarrow> 0 \<le> x \<Longrightarrow> js_add 0 x = x"
  by (simp add: js_add_def rounded_double)

lemma double_zero [simp]: "double 0"
  by (auto simp: double_def intro: exI [of _ 0])

text \<open>As in every JavaScript engine, \<open>0.1\<close> is not a tenth and \<open>0.1 + 0.2\<close> is not \<open>0.3\<close>.\<close>

lemma double_examples:
  "js_literal (1 / 10) = 3602879701896397 / 36028797018963968"
  "js_add (js_literal (1 / 10)) (js_literal (2 / 10)) = 5404319552844596 / 18014398509481984"
  "js_literal (3 / 10) = 5404319552844595 / 18014398509481984"
  by code_simp+

end
