(* ===== verification/Js_Text.thy ===== *)
theory Js_Text
  imports Prelude
begin

text \<open>Splitting and searching text: \<open>split\<close> with a separator of one character and \<open>includes\<close>.\<close>

fun split_at :: "char \<Rightarrow> string \<Rightarrow> string list" where
  "split_at c [] = [[]]"
| "split_at c (x # xs) =
     (if x = c then [] # split_at c xs
      else (case split_at c xs of [] \<Rightarrow> [[x]] | w # ws \<Rightarrow> (x # w) # ws))"

lemma split_at_none: "c \<notin> set s \<Longrightarrow> split_at c s = [s]"
  by (induction s) auto

lemma split_at_append: "c \<notin> set s \<Longrightarrow> split_at c (s @ c # t) = s # split_at c t"
  by (induction s) auto

lemma split_at_nonempty [simp]: "split_at c s \<noteq> []"
  by (induction s) (auto split: list.split)

lemma join_split_at: "join [c] (split_at c s) = s"
proof (induction s)
  case Nil
  then show ?case by simp
next
  case (Cons x s)
  obtain w ws where w: "split_at c s = w # ws" by (cases "split_at c s") auto
  then show ?case using Cons by (cases ws) auto
qed

fun text_includes :: "string \<Rightarrow> string \<Rightarrow> bool" where
  "text_includes p [] \<longleftrightarrow> p = []"
| "text_includes p (c # s) \<longleftrightarrow> startsWith p (c # s) \<or> text_includes p s"

end
