(* ===== verification/Cost.thy ===== *)
theory Cost
  imports Calendar Doubles Js_Text Opctl_Service "HOL-Library.Word"
begin

unbundle bit_operations_syntax

text \<open>
  Cost governance (\<open>self/subcortex/cost/src\<close> and \<open>shared/src/types/cost.ts\<close>): the pricing table,
  the service that turns inference events into spending and watches the budgets, the enforcement
  that submits a pause to operator control, and the grouping by model of
  \<open>apps/shared-server/src/trpc/routers/cost.ts\<close>. Amounts are doubles (\<open>Doubles\<close>), times
  milliseconds (\<open>Calendar\<close>). What the service publishes, raises and triggers is a list of outputs
  in the order the code makes the calls; each read of the clock is an input of its own.
\<close>

section \<open>Types\<close>

record cost_event =
  ct_id :: string
  ct_timestamp :: int
  ct_projectId :: string
  ct_providerId :: string
  ct_modelId :: string
  ct_agentClass :: string
  ct_correlationRunId :: string
  ct_correlationParentId :: "string option"
  ct_inputTokens :: nat
  ct_outputTokens :: nat
  ct_inputCostUsd :: rat
  ct_outputCostUsd :: rat
  ct_totalCostUsd :: rat
  ct_pricingMiss :: "bool option"

record budget_policy =
  bp_enabled :: bool
  bp_period :: period_type
  bp_softThresholdPercent :: rat
  bp_hardCeilingUsd :: rat
  bp_perAgentCaps :: "(string \<times> rat) list option"

record budget_status =
  bs_hasBudget :: bool
  bs_currentSpendUsd :: rat
  bs_budgetCeilingUsd :: rat
  bs_utilizationPercent :: rat
  bs_softAlertFired :: bool
  bs_hardCeilingFired :: bool
  bs_periodStart :: string
  bs_periodEnd :: string
  bs_projectControlState :: control_state

record breakdown_entry =
  be_key :: string
  be_totalCostUsd :: rat
  be_inputCostUsd :: rat
  be_outputCostUsd :: rat
  be_eventCount :: nat

record cost_summary =
  cu_totalCostUsd :: rat
  cu_totalInputCostUsd :: rat
  cu_totalOutputCostUsd :: rat
  cu_totalEvents :: nat
  cu_periodStart :: string
  cu_periodEnd :: string
  cu_topProvider :: "string option"
  cu_topModel :: "string option"

record series_bucket =
  sr_bucketStart :: string
  sr_totalCostUsd :: rat
  sr_eventCount :: nat

record cost_snapshot =
  sn_projectId :: string
  sn_periodStart :: string
  sn_periodEnd :: string
  sn_totalSpendUsd :: rat
  sn_budgetCeilingUsd :: rat
  sn_utilizationPercent :: rat
  sn_byProvider :: "(string \<times> rat) list"
  sn_byAgentClass :: "(string \<times> rat) list"

record pricing_tier =
  pt_providerId :: string
  pt_modelId :: string
  pt_inputCostPerMillionTokens :: rat
  pt_outputCostPerMillionTokens :: rat

type_synonym pricing_table = "(string \<times> pricing_tier) list"

record inference_payload =
  ip_providerId :: string
  ip_modelId :: string
  ip_agentClass :: "string option"
  ip_traceId :: string
  ip_projectId :: "string option"
  ip_inputTokens :: "nat option"
  ip_outputTokens :: "nat option"
  ip_correlationRunId :: "string option"
  ip_correlationParentId :: "string option"

section \<open>Pricing\<close>

definition default_tier :: "string \<Rightarrow> string \<Rightarrow> rat \<Rightarrow> rat \<Rightarrow> pricing_tier" where
  "default_tier provider model i out =
     \<lparr>pt_providerId = provider, pt_modelId = model, pt_inputCostPerMillionTokens = js_literal i,
      pt_outputCostPerMillionTokens = js_literal out\<rparr>"

definition DEFAULT_TIERS :: "pricing_tier list" where
  "DEFAULT_TIERS =
     [default_tier ''anthropic'' ''claude-sonnet-4-20250514'' 3 15,
      default_tier ''anthropic'' ''claude-haiku-3-20240307'' (25 / 100) (125 / 100),
      default_tier ''anthropic'' ''claude-opus-4-20250514'' 15 75,
      default_tier ''openai'' ''gpt-4o'' (25 / 10) 10,
      default_tier ''openai'' ''gpt-4o-mini'' (15 / 100) (6 / 10),
      default_tier ''openai'' ''gpt-4-turbo'' 10 30,
      default_tier ''ollama'' ''llama3'' 0 0,
      default_tier ''ollama'' ''mistral'' 0 0,
      default_tier ''ollama'' ''codellama'' 0 0]"

definition tierKey :: "string \<Rightarrow> string \<Rightarrow> string" where
  "tierKey providerId modelId = providerId @ '':'' @ modelId"

definition add_tiers :: "pricing_tier list \<Rightarrow> pricing_table \<Rightarrow> pricing_table" where
  "add_tiers tiers table = from_entries table (map (\<lambda>t. (tierKey (pt_providerId t) (pt_modelId t), t)) tiers)"

definition createPricingTable :: "pricing_tier list option \<Rightarrow> pricing_table" where
  "createPricingTable overrides =
     (let table = add_tiers DEFAULT_TIERS [] in case overrides of None \<Rightarrow> table | Some tiers \<Rightarrow> add_tiers tiers table)"

definition lookupPricingTier :: "pricing_table \<Rightarrow> string \<Rightarrow> string \<Rightarrow> pricing_tier option" where
  "lookupPricingTier table providerId modelId = obj_get (tierKey providerId modelId) table"

definition computeCost :: "nat \<Rightarrow> nat \<Rightarrow> pricing_tier \<Rightarrow> rat \<times> rat \<times> rat" where
  \<comment> \<open>input, output and total\<close>
  "computeCost inputTokens outputTokens t =
     (let inputCostUsd = js_mult (js_div (of_nat inputTokens) 1000000) (pt_inputCostPerMillionTokens t);
          outputCostUsd = js_mult (js_div (of_nat outputTokens) 1000000) (pt_outputCostPerMillionTokens t)
      in (inputCostUsd, outputCostUsd, js_add inputCostUsd outputCostUsd))"

section \<open>State\<close>

record agg_entry =
  gg_totalCostUsd :: rat
  gg_inputCostUsd :: rat
  gg_outputCostUsd :: rat
  gg_eventCount :: nat

type_synonym aggregation = "(string \<times> agg_entry) list"

record project_cost =
  pj_periodStart :: int
  pj_periodEnd :: int
  pj_periodType :: period_type
  pj_totalSpend :: rat
  pj_byProviderModel :: aggregation
  pj_byAgentClass :: aggregation
  pj_byCorrelationRoot :: aggregation
  pj_softAlertFiredThisPeriod :: bool
  pj_hardCeilingFiredThisPeriod :: bool
  pj_correlationRootCache :: "(string \<times> string) list"
  pj_currentHardCeilingUsd :: "rat option"

datatype cost_output =
    EventRecorded cost_event
  | BudgetExceeded string string rat rat rat
      \<comment> \<open>project, message, utilization, spend, ceiling\<close>
  | BudgetWarning string string rat rat rat rat
      \<comment> \<open>and the threshold\<close>
  | TriggerPause string rat rat
  | SnapshotPublished cost_snapshot

record budget_config =
  pg_budgetPolicy :: "budget_policy option"

record cost_deps =
  gd_pricingTable :: pricing_table
  gd_getProjectConfig :: "string \<Rightarrow> budget_config option"
  gd_notificationService :: bool

record cost_gov =
  cg_costEvents :: "cost_event list"
  cg_projectStates :: "(string \<times> project_cost) list"
  cg_budgetPolicies :: "(string \<times> budget_policy) list"
  cg_snapshotTimer :: bool
  cg_subscribed :: bool
  cg_disposed :: bool
  cg_outputs :: "cost_output list"

definition new_cost_gov :: cost_gov where
  "new_cost_gov = \<lparr>cg_costEvents = [], cg_projectStates = [], cg_budgetPolicies = [], cg_snapshotTimer = True,
     cg_subscribed = True, cg_disposed = False, cg_outputs = []\<rparr>"

definition emit :: "cost_output list \<Rightarrow> cost_gov \<Rightarrow> cost_gov" where
  "emit outs st = st\<lparr>cg_outputs := cg_outputs st @ outs\<rparr>"

section \<open>Correlation roots\<close>

definition event_of_run :: "string \<Rightarrow> cost_event list \<Rightarrow> cost_event option" where
  "event_of_run run evs = List.find (\<lambda>e. ct_correlationRunId e = run) evs"

definition cached_root :: "string \<Rightarrow> (string \<times> string) list \<Rightarrow> string option" where
  \<comment> \<open>an empty root counts as none\<close>
  "cached_root run cache = (case obj_get run cache of None \<Rightarrow> None | Some r \<Rightarrow> if r = [] then None else Some r)"

definition parent_run :: "string \<Rightarrow> cost_event list \<Rightarrow> string option" where
  "parent_run run evs =
     (case event_of_run run evs of
        None \<Rightarrow> None
      | Some e \<Rightarrow> (case ct_correlationParentId e of None \<Rightarrow> None | Some p \<Rightarrow> if p = [] then None else Some p))"

lemma parent_run_known: "parent_run run evs = Some p \<Longrightarrow> run \<in> ct_correlationRunId ` set evs"
  by (auto simp: parent_run_def event_of_run_def find_Some_iff split: option.splits if_splits)

lemma unvisited_decreases:
  assumes "x \<notin> set visited" and "x \<in> K" and "finite K"
  shows "card (K - set (visited @ [x])) < card (K - set visited)"
proof -
  have "K - set (visited @ [x]) = (K - set visited) - {x}" by auto
  moreover have "x \<in> K - set visited" using assms(1,2) by simp
  ultimately show ?thesis using assms(3) by (metis card_Diff1_less finite_Diff)
qed

function climb :: "(string \<times> string) list \<Rightarrow> cost_event list \<Rightarrow> string list \<Rightarrow> string \<Rightarrow> (string \<times> string list) option" where
  \<comment> \<open>the loop: the root and the runs visited, or nothing when a run comes a second time\<close>
  "climb cache evs visited current =
     (if current \<in> set visited then None
      else
        (let visited' = visited @ [current] in
         case cached_root current cache of
           Some r \<Rightarrow> Some (r, visited')
         | None \<Rightarrow>
             (case parent_run current evs of
                None \<Rightarrow> Some (current, visited')
              | Some p \<Rightarrow> climb cache evs visited' p)))"
  by auto
termination
  by (relation "measure (\<lambda>(cache, evs, visited, current). card (ct_correlationRunId ` set evs - set visited))",
      simp, simp only: in_measure prod.case, rule unvisited_decreases, assumption, erule parent_run_known, simp)

declare climb.simps [simp del]

definition resolveCorrelationRoot ::
  "string \<Rightarrow> string option \<Rightarrow> (string \<times> string) list \<Rightarrow> cost_event list \<Rightarrow> string \<times> (string \<times> string) list" where
  \<comment> \<open>the root and the cache afterwards\<close>
  "resolveCorrelationRoot run parent cache evs =
     (case cached_root run cache of
        Some r \<Rightarrow> (r, cache)
      | None \<Rightarrow>
          if \<not> truthy parent then (run, obj_set run run cache)
          else
            (case climb cache evs [run] (the parent) of
               Some (r, visited) \<Rightarrow> (r, from_entries cache (map (\<lambda>i. (i, r)) visited))
             | None \<Rightarrow> (run, obj_set run run cache)))"

section \<open>Aggregation\<close>

definition addToAggregation :: "string \<Rightarrow> rat \<Rightarrow> rat \<Rightarrow> rat \<Rightarrow> aggregation \<Rightarrow> aggregation" where
  "addToAggregation key inputCostUsd outputCostUsd totalCostUsd m =
     obj_set key
       (case obj_get key m of
          Some g \<Rightarrow> \<lparr>gg_totalCostUsd = js_add (gg_totalCostUsd g) totalCostUsd,
              gg_inputCostUsd = js_add (gg_inputCostUsd g) inputCostUsd,
              gg_outputCostUsd = js_add (gg_outputCostUsd g) outputCostUsd, gg_eventCount = gg_eventCount g + 1\<rparr>
        | None \<Rightarrow> \<lparr>gg_totalCostUsd = totalCostUsd, gg_inputCostUsd = inputCostUsd, gg_outputCostUsd = outputCostUsd,
              gg_eventCount = 1\<rparr>) m"

definition createEmptyProjectState :: "period_type \<Rightarrow> int \<Rightarrow> project_cost" where
  "createEmptyProjectState periodType now =
     (let (s, e) = computePeriodBounds now periodType in
      \<lparr>pj_periodStart = s, pj_periodEnd = e, pj_periodType = periodType, pj_totalSpend = 0, pj_byProviderModel = [],
       pj_byAgentClass = [], pj_byCorrelationRoot = [], pj_softAlertFiredThisPeriod = False,
       pj_hardCeilingFiredThisPeriod = False, pj_correlationRootCache = [], pj_currentHardCeilingUsd = None\<rparr>)"

definition resetProjectState :: "int \<Rightarrow> project_cost \<Rightarrow> project_cost" where
  "resetProjectState now ps =
     (let (s, e) = computePeriodBounds now (pj_periodType ps) in
      ps\<lparr>pj_periodStart := s, pj_periodEnd := e, pj_totalSpend := 0, pj_byProviderModel := [], pj_byAgentClass := [],
         pj_byCorrelationRoot := [], pj_softAlertFiredThisPeriod := False, pj_hardCeilingFiredThisPeriod := False,
         pj_correlationRootCache := []\<rparr>)"

section \<open>Budgets\<close>

definition policy_for :: "cost_deps \<Rightarrow> string \<Rightarrow> cost_gov \<Rightarrow> budget_policy option" where
  "policy_for deps p st =
     orElse (obj_get p (cg_budgetPolicies st)) (Option.bind (gd_getProjectConfig deps p) pg_budgetPolicy)"

definition utilization :: "rat \<Rightarrow> rat \<Rightarrow> rat" where
  "utilization spend cap = js_mult (js_div spend cap) 100"

definition spending_at :: "rat \<Rightarrow> string" where
  "spending_at u = ''Spending at '' @ toFixed0 u @ ''%''"

definition evaluateBudget :: "cost_deps \<Rightarrow> string \<Rightarrow> budget_policy option \<Rightarrow> project_cost \<Rightarrow> cost_output list \<times> project_cost" where
  "evaluateBudget deps projectId policy ps =
     (case policy of
        None \<Rightarrow> ([], ps)
      | Some b \<Rightarrow>
          if \<not> bp_enabled b then ([], ps)
          else if bp_hardCeilingUsd b \<le> 0 then ([], ps)
          else
            (let u = utilization (pj_totalSpend ps) (bp_hardCeilingUsd b);
                 hard = bp_hardCeilingUsd b \<le> pj_totalSpend ps \<and> \<not> pj_hardCeilingFiredThisPeriod ps;
                 soft = bp_softThresholdPercent b \<le> u \<and> \<not> pj_softAlertFiredThisPeriod ps;
                 exceeded = (if gd_notificationService deps
                   then [BudgetExceeded projectId (spending_at u @ '' '' @ [CHR 0xE2, CHR 0x80, CHR 0x94] @ '' operations paused'')
                           u (pj_totalSpend ps) (bp_hardCeilingUsd b)] else []);
                 warning = (if gd_notificationService deps
                   then [BudgetWarning projectId (spending_at u @ '' of budget ceiling'') u (pj_totalSpend ps)
                           (bp_hardCeilingUsd b) (bp_softThresholdPercent b)] else [])
             in ((if hard then exceeded @ [TriggerPause projectId (pj_totalSpend ps) (bp_hardCeilingUsd b)] else [])
                   @ (if soft then warning else []),
                 ps\<lparr>pj_hardCeilingFiredThisPeriod := pj_hardCeilingFiredThisPeriod ps \<or> hard,
                    pj_softAlertFiredThisPeriod := pj_softAlertFiredThisPeriod ps \<or> soft\<rparr>)))"

section \<open>Inference events\<close>

record cost_input =
  ci_id :: string
  ci_timestamp :: int
  ci_created :: int
  ci_checked :: int

definition cost_event_of :: "cost_deps \<Rightarrow> cost_input \<Rightarrow> inference_payload \<Rightarrow> cost_event" where
  "cost_event_of deps inp payload =
     (let inputTokens = getOr (ip_inputTokens payload) 0;
          outputTokens = getOr (ip_outputTokens payload) 0;
          tier = lookupPricingTier (gd_pricingTable deps) (ip_providerId payload) (ip_modelId payload);
          (i, out, t) = (case tier of None \<Rightarrow> (0, 0, 0) | Some p \<Rightarrow> computeCost inputTokens outputTokens p)
      in \<lparr>ct_id = ci_id inp, ct_timestamp = ci_timestamp inp, ct_projectId = getOr (ip_projectId payload) ''_system'',
          ct_providerId = ip_providerId payload, ct_modelId = ip_modelId payload,
          ct_agentClass = getOr (ip_agentClass payload) ''Unknown'',
          ct_correlationRunId = getOr (ip_correlationRunId payload) (ip_traceId payload),
          ct_correlationParentId = ip_correlationParentId payload, ct_inputTokens = inputTokens,
          ct_outputTokens = outputTokens, ct_inputCostUsd = i, ct_outputCostUsd = out, ct_totalCostUsd = t,
          ct_pricingMiss = (if tier = None then Some True else None)\<rparr>)"

definition getOrCreateProjectState :: "cost_deps \<Rightarrow> int \<Rightarrow> string \<Rightarrow> cost_gov \<Rightarrow> project_cost" where
  "getOrCreateProjectState deps now projectId st =
     (case obj_get projectId (cg_projectStates st) of
        Some ps \<Rightarrow> ps
      | None \<Rightarrow>
          (let policy = policy_for deps projectId st;
               ps = createEmptyProjectState (getOr (map_option bp_period policy) Monthly) now
           in (case policy of None \<Rightarrow> ps | Some b \<Rightarrow> ps\<lparr>pj_currentHardCeilingUsd := Some (bp_hardCeilingUsd b)\<rparr>)))"

definition checkPeriodBoundary :: "int \<Rightarrow> project_cost \<Rightarrow> project_cost" where
  "checkPeriodBoundary now ps = (if pj_periodEnd ps \<le> now then resetProjectState now ps else ps)"

definition accumulate :: "cost_event \<Rightarrow> cost_event list \<Rightarrow> project_cost \<Rightarrow> project_cost" where
  "accumulate e evs ps =
     (let i = ct_inputCostUsd e; out = ct_outputCostUsd e; t = ct_totalCostUsd e;
          (rootRunId, cache) = resolveCorrelationRoot (ct_correlationRunId e) (ct_correlationParentId e)
            (pj_correlationRootCache ps) evs
      in ps\<lparr>pj_totalSpend := js_add (pj_totalSpend ps) t,
            pj_byProviderModel := addToAggregation (tierKey (ct_providerId e) (ct_modelId e)) i out t (pj_byProviderModel ps),
            pj_byAgentClass := addToAggregation (ct_agentClass e) i out t (pj_byAgentClass ps),
            pj_correlationRootCache := cache,
            pj_byCorrelationRoot := addToAggregation rootRunId i out t (pj_byCorrelationRoot ps)\<rparr>)"

definition handleInferenceEvent :: "cost_deps \<Rightarrow> cost_input \<Rightarrow> inference_payload \<Rightarrow> cost_gov \<Rightarrow> cost_gov" where
  "handleInferenceEvent deps inp payload st =
     (if cg_disposed st then st
      else
        (let e = cost_event_of deps inp payload;
             p = ct_projectId e;
             st = emit [EventRecorded e] (st\<lparr>cg_costEvents := cg_costEvents st @ [e]\<rparr>);
             ps = checkPeriodBoundary (ci_checked inp) (getOrCreateProjectState deps (ci_created inp) p st);
             (outs, ps) = evaluateBudget deps p (policy_for deps p st) (accumulate e (cg_costEvents st) ps)
         in emit outs (st\<lparr>cg_projectStates := obj_set p ps (cg_projectStates st)\<rparr>)))"

section \<open>Snapshots and queries\<close>

definition period_texts :: "int \<Rightarrow> int \<Rightarrow> string \<times> string" where
  \<comment> \<open>the exclusive end is shown as the last millisecond\<close>
  "period_texts s e = (toISOString s, toISOString (e - 1))"

definition used_percent :: "rat \<Rightarrow> rat \<Rightarrow> rat" where
  "used_percent spend cap = (if 0 < cap then utilization spend cap else 0)"

definition snapshot_of :: "cost_deps \<Rightarrow> cost_gov \<Rightarrow> string \<times> project_cost \<Rightarrow> cost_output" where
  "snapshot_of deps st entry =
     (case entry of (p, ps) \<Rightarrow>
        (let cap = getOr (map_option bp_hardCeilingUsd (policy_for deps p st)) 0;
             (s, e) = period_texts (pj_periodStart ps) (pj_periodEnd ps)
         in SnapshotPublished \<lparr>sn_projectId = p, sn_periodStart = s, sn_periodEnd = e, sn_totalSpendUsd = pj_totalSpend ps,
              sn_budgetCeilingUsd = cap, sn_utilizationPercent = used_percent (pj_totalSpend ps) cap,
              sn_byProvider = map (\<lambda>(k, g). (k, gg_totalCostUsd g)) (pj_byProviderModel ps),
              sn_byAgentClass = map (\<lambda>(k, g). (k, gg_totalCostUsd g)) (pj_byAgentClass ps)\<rparr>))"

definition emitSnapshots :: "cost_deps \<Rightarrow> cost_gov \<Rightarrow> cost_gov" where
  "emitSnapshots deps st =
     (if cg_disposed st then st else emit (map (snapshot_of deps st) (cg_projectStates st)) st)"

definition getBudgetStatus :: "cost_deps \<Rightarrow> int \<Rightarrow> string \<Rightarrow> cost_gov \<Rightarrow> budget_status" where
  "getBudgetStatus deps now projectId st =
     (case (policy_for deps projectId st, obj_get projectId (cg_projectStates st)) of
        (Some b, Some ps) \<Rightarrow>
          (let (s, e) = period_texts (pj_periodStart ps) (pj_periodEnd ps) in
           \<lparr>bs_hasBudget = bp_enabled b, bs_currentSpendUsd = pj_totalSpend ps, bs_budgetCeilingUsd = bp_hardCeilingUsd b,
            bs_utilizationPercent = used_percent (pj_totalSpend ps) (bp_hardCeilingUsd b),
            bs_softAlertFired = pj_softAlertFiredThisPeriod ps, bs_hardCeilingFired = pj_hardCeilingFiredThisPeriod ps,
            bs_periodStart = s, bs_periodEnd = e, bs_projectControlState = CtlRunning\<rparr>)
      | (policy, _) \<Rightarrow>
          (let (s, e) = computePeriodBounds now (getOr (map_option bp_period policy) Monthly);
               (ts, te) = period_texts s e
           in \<lparr>bs_hasBudget = False, bs_currentSpendUsd = 0, bs_budgetCeilingUsd = 0, bs_utilizationPercent = 0,
               bs_softAlertFired = False, bs_hardCeilingFired = False, bs_periodStart = ts, bs_periodEnd = te,
               bs_projectControlState = CtlRunning\<rparr>))"

definition sum_js :: "('a \<Rightarrow> rat) \<Rightarrow> 'a list \<Rightarrow> rat" where
  \<comment> \<open>\<open>reduce((s, e) => s + e.field, 0)\<close>\<close>
  "sum_js f xs = foldl (\<lambda>s x. js_add s (f x)) 0 xs"

datatype breakdown_group = ByProject | ByProvider | ByAgentClass | ByCorrelationRoot

definition breakdown_entry_of :: "string \<times> agg_entry \<Rightarrow> breakdown_entry" where
  "breakdown_entry_of kg =
     \<lparr>be_key = fst kg, be_totalCostUsd = gg_totalCostUsd (snd kg), be_inputCostUsd = gg_inputCostUsd (snd kg),
      be_outputCostUsd = gg_outputCostUsd (snd kg), be_eventCount = gg_eventCount (snd kg)\<rparr>"

fun getCostBreakdown :: "string \<Rightarrow> breakdown_group \<Rightarrow> cost_gov \<Rightarrow> breakdown_entry list" where
  "getCostBreakdown projectId groupBy st =
     (case obj_get projectId (cg_projectStates st) of
        None \<Rightarrow> []
      | Some ps \<Rightarrow>
          (case groupBy of
             ByProject \<Rightarrow>
               (let gs = obj_values (pj_byProviderModel ps) in
                [\<lparr>be_key = projectId, be_totalCostUsd = pj_totalSpend ps, be_inputCostUsd = sum_js gg_inputCostUsd gs,
                  be_outputCostUsd = sum_js gg_outputCostUsd gs, be_eventCount = sum_list (map gg_eventCount gs)\<rparr>])
           | ByProvider \<Rightarrow> map breakdown_entry_of (pj_byProviderModel ps)
           | ByAgentClass \<Rightarrow> map breakdown_entry_of (pj_byAgentClass ps)
           | ByCorrelationRoot \<Rightarrow> map breakdown_entry_of (pj_byCorrelationRoot ps)))"

definition add_to_bucket :: "int \<Rightarrow> int \<Rightarrow> cost_event \<Rightarrow> (int \<times> rat \<times> nat) list \<Rightarrow> (int \<times> rat \<times> nat) list" where
  "add_to_bucket periodStartMs bucketMs e buckets =
     (let bucketIndex = \<lfloor>js_div (of_int (ct_timestamp e - periodStartMs)) (of_int bucketMs)\<rfloor>;
          bucketStartMs = periodStartMs + bucketIndex * bucketMs
      in obj_set bucketStartMs
           (case obj_get bucketStartMs buckets of
              Some (t, n) \<Rightarrow> (js_add t (ct_totalCostUsd e), n + 1)
            | None \<Rightarrow> (ct_totalCostUsd e, 1)) buckets)"

definition period_events :: "string \<Rightarrow> project_cost \<Rightarrow> cost_event list \<Rightarrow> cost_event list" where
  "period_events projectId ps evs =
     filter (\<lambda>e. ct_projectId e = projectId \<and> pj_periodStart ps \<le> ct_timestamp e \<and> ct_timestamp e < pj_periodEnd ps) evs"

definition by_start :: "int \<times> 'a \<Rightarrow> int \<times> 'a \<Rightarrow> int" where
  "by_start a b = fst a - fst b"

definition series_of :: "project_cost \<Rightarrow> int \<Rightarrow> cost_event list \<Rightarrow> (int \<times> rat \<times> nat) list" where
  "series_of ps bucketMinutes projectEvents =
     js_sort by_start (fold (add_to_bucket (pj_periodStart ps) (bucketMinutes * 60 * 1000)) projectEvents [])"

definition getCostTimeSeries :: "string \<Rightarrow> int \<Rightarrow> cost_gov \<Rightarrow> series_bucket list" where
  \<comment> \<open>buckets of a positive number of minutes\<close>
  "getCostTimeSeries projectId bucketMinutes st =
     (case obj_get projectId (cg_projectStates st) of
        None \<Rightarrow> []
      | Some ps \<Rightarrow>
          map (\<lambda>(s, t, n). \<lparr>sr_bucketStart = toISOString s, sr_totalCostUsd = t, sr_eventCount = n\<rparr>)
            (series_of ps bucketMinutes (period_events projectId ps (cg_costEvents st))))"

definition costlier :: "string option \<times> rat \<Rightarrow> string \<times> agg_entry \<Rightarrow> string option \<times> rat" where
  "costlier best kg = (if snd best < gg_totalCostUsd (snd kg) then (Some (fst kg), gg_totalCostUsd (snd kg)) else best)"

definition getCostSummary :: "int \<Rightarrow> string \<Rightarrow> cost_gov \<Rightarrow> cost_summary" where
  "getCostSummary now projectId st =
     (case obj_get projectId (cg_projectStates st) of
        None \<Rightarrow>
          (let (s, e) = computePeriodBounds now Monthly; (ts, te) = period_texts s e in
           \<lparr>cu_totalCostUsd = 0, cu_totalInputCostUsd = 0, cu_totalOutputCostUsd = 0, cu_totalEvents = 0,
            cu_periodStart = ts, cu_periodEnd = te, cu_topProvider = None, cu_topModel = None\<rparr>)
      | Some ps \<Rightarrow>
          (let gs = obj_values (pj_byProviderModel ps);
               top = fst (foldl costlier (None, 0) (pj_byProviderModel ps));
               (ts, te) = period_texts (pj_periodStart ps) (pj_periodEnd ps)
           in \<lparr>cu_totalCostUsd = pj_totalSpend ps, cu_totalInputCostUsd = sum_js gg_inputCostUsd gs,
               cu_totalOutputCostUsd = sum_js gg_outputCostUsd gs, cu_totalEvents = sum_list (map gg_eventCount gs),
               cu_periodStart = ts, cu_periodEnd = te, cu_topProvider = top,
               cu_topModel = (case top of None \<Rightarrow> None | Some k \<Rightarrow>
                 if k = [] then None
                 else (let parts = split_at (CHR '':'') k in if 1 < length parts then Some (parts ! 1) else None))\<rparr>))"

section \<open>Policies and disposal\<close>

definition setBudgetPolicy :: "int \<Rightarrow> string \<Rightarrow> budget_policy \<Rightarrow> cost_gov \<Rightarrow> cost_gov" where
  "setBudgetPolicy now projectId policy st =
     (let previous = obj_get projectId (cg_budgetPolicies st);
          st = st\<lparr>cg_budgetPolicies := obj_set projectId policy (cg_budgetPolicies st)\<rparr>
      in case obj_get projectId (cg_projectStates st) of
           None \<Rightarrow> st
         | Some ps \<Rightarrow>
             (let ps = (if pj_periodType ps = bp_period policy then ps
                        else (let (s, e) = computePeriodBounds now (bp_period policy) in
                              ps\<lparr>pj_periodType := bp_period policy, pj_periodStart := s, pj_periodEnd := e\<rparr>));
                  previousCeiling = orElse (map_option bp_hardCeilingUsd previous) (pj_currentHardCeilingUsd ps);
                  ps = (if previousCeiling \<noteq> None \<and> previousCeiling \<noteq> Some (bp_hardCeilingUsd policy)
                        then ps\<lparr>pj_hardCeilingFiredThisPeriod := False\<rparr> else ps);
                  ps = ps\<lparr>pj_currentHardCeilingUsd := Some (bp_hardCeilingUsd policy)\<rparr>
              in st\<lparr>cg_projectStates := obj_set projectId ps (cg_projectStates st)\<rparr>))"

definition removeBudgetPolicy :: "string \<Rightarrow> cost_gov \<Rightarrow> cost_gov" where
  "removeBudgetPolicy projectId st = st\<lparr>cg_budgetPolicies := obj_delete projectId (cg_budgetPolicies st)\<rparr>"

definition getBudgetPolicy :: "cost_deps \<Rightarrow> string \<Rightarrow> cost_gov \<Rightarrow> budget_policy option" where
  "getBudgetPolicy deps projectId st = policy_for deps projectId st"

definition dispose :: "cost_gov \<Rightarrow> cost_gov" where
  "dispose st = st\<lparr>cg_disposed := True, cg_snapshotTimer := False, cg_subscribed := False\<rparr>"

section \<open>Enforcement\<close>

definition derived_bytes :: "8 word list \<Rightarrow> 8 word list" where
  \<comment> \<open>version 5 and the RFC variant written into the digest\<close>
  "derived_bytes digest =
     (let bytes = digest[6 := (digest ! 6 AND 0x0f) OR 0x50] in bytes[8 := (bytes ! 8 AND 0x3f) OR 0x80])"

definition hex_text :: "8 word list \<Rightarrow> string" where
  "hex_text bytes = concat (map (\<lambda>b. [hex_digit (unat b div 16), hex_digit (unat b)]) bytes)"

definition hex_slice :: "nat \<Rightarrow> nat \<Rightarrow> string \<Rightarrow> string" where
  "hex_slice a b s = take (b - a) (drop a s)"

definition deriveActorId :: "(string \<Rightarrow> 8 word list) \<Rightarrow> string" where
  \<comment> \<open>of the SHA-256 of a text as bytes\<close>
  "deriveActorId sha256_bytes =
     (let h = hex_text (derived_bytes (sha256_bytes ''cost-governance-service'')) in
      join ''-'' [hex_slice 0 8 h, hex_slice 8 12 h, hex_slice 12 16 h, hex_slice 16 20 h, hex_slice 20 32 h])"

record enforcement_record =
  er_timestamp :: int
  er_projectId :: string
  er_spendAtTrigger :: rat
  er_ceilingUsd :: rat
  er_success :: bool

record enforcement =
  nf_actorId :: string
  nf_actorSessionId :: string
  nf_actorSeq :: nat
  nf_enforcementLog :: "enforcement_record list"

definition new_enforcement :: "(string \<Rightarrow> 8 word list) \<Rightarrow> string \<Rightarrow> enforcement" where
  "new_enforcement sha256_bytes uuid =
     \<lparr>nf_actorId = deriveActorId sha256_bytes, nf_actorSessionId = uuid, nf_actorSeq = 0, nf_enforcementLog = []\<rparr>"

record pause_input =
  pa_commandId :: string
  pa_nonce :: string
  pa_now :: int
  pa_number :: "rat \<Rightarrow> json" \<comment> \<open>a number as a JSON value; those of the model are natural\<close>

definition pause_envelope :: "(string \<Rightarrow> string) \<Rightarrow> pause_input \<Rightarrow> string \<Rightarrow> rat \<Rightarrow> rat \<Rightarrow> enforcement \<Rightarrow> envelope" where
  "pause_envelope sha256 inp projectId spendAtTrigger ceilingUsd nf =
     \<lparr>ce_control_command_id = pa_commandId inp, ce_actor_type = CaSystemAgent, ce_actor_id = nf_actorId nf,
      ce_actor_session_id = nf_actorSessionId nf, ce_actor_seq = nf_actorSeq nf, ce_nonce = pa_nonce inp,
      ce_issued_at = toISOString (pa_now inp), ce_expires_at = toISOString (pa_now inp + 60000),
      ce_scope = \<lparr>cs_class = ScProjectRun, cs_kind = SkProjectRun, cs_target_ids = [], cs_project_id = Some projectId\<rparr>,
      ce_payload_hash = sha256 (stringify (JObj [(''action'', JStr ''pause''), (''project_id'', JStr projectId)])),
      ce_command_signature = ''cost-governance-system-sig'', ce_action = AcPause,
      ce_payload = Some (JObj [(''reason'', JStr ''Budget hard ceiling exceeded''),
        (''spendAtTrigger'', pa_number inp spendAtTrigger), (''ceilingUsd'', pa_number inp ceilingUsd)])\<rparr>"

definition triggerPause ::
  "(string \<Rightarrow> string) \<Rightarrow> pause_input \<Rightarrow> string \<Rightarrow> rat \<Rightarrow> rat \<Rightarrow> control_state option \<Rightarrow> enforcement \<Rightarrow> opctl_call option \<times> enforcement" where
  \<comment> \<open>up to the submission, with the control state that was read, if it could be\<close>
  "triggerPause sha256 inp projectId spendAtTrigger ceilingUsd controlState nf =
     (if controlState = Some CtlPausedReview \<or> controlState = Some CtlHardStopped then (None, nf)
      else (Some (SubmitCommand (pause_envelope sha256 inp projectId spendAtTrigger ceilingUsd nf) None),
            nf\<lparr>nf_actorSeq := nf_actorSeq nf + 1\<rparr>))"

definition pause_submitted :: "int \<Rightarrow> string \<Rightarrow> rat \<Rightarrow> rat \<Rightarrow> submit_result result \<Rightarrow> enforcement \<Rightarrow> enforcement" where
  \<comment> \<open>the rest, when the submission has settled\<close>
  "pause_submitted now projectId spendAtTrigger ceilingUsd settled nf =
     nf\<lparr>nf_enforcementLog := nf_enforcementLog nf @
       [\<lparr>er_timestamp = now, er_projectId = projectId, er_spendAtTrigger = spendAtTrigger, er_ceilingUsd = ceilingUsd,
         er_success = (case settled of Inl e \<Rightarrow> False | Inr r \<Rightarrow> True)\<rparr>]\<rparr>"

section \<open>The router\<close>

definition model_key :: "string \<Rightarrow> string" where
  "model_key k = join '':'' (drop 1 (split_at (CHR '':'') k))"

definition add_model :: "breakdown_entry \<Rightarrow> aggregation \<Rightarrow> aggregation" where
  "add_model b m =
     obj_set (model_key (be_key b))
       (case obj_get (model_key (be_key b)) m of
          Some g \<Rightarrow> \<lparr>gg_totalCostUsd = js_add (gg_totalCostUsd g) (be_totalCostUsd b),
              gg_inputCostUsd = js_add (gg_inputCostUsd g) (be_inputCostUsd b),
              gg_outputCostUsd = js_add (gg_outputCostUsd g) (be_outputCostUsd b),
              gg_eventCount = gg_eventCount g + be_eventCount b\<rparr>
        | None \<Rightarrow> \<lparr>gg_totalCostUsd = be_totalCostUsd b, gg_inputCostUsd = be_inputCostUsd b,
              gg_outputCostUsd = be_outputCostUsd b, gg_eventCount = be_eventCount b\<rparr>) m"

definition model_breakdown :: "string \<Rightarrow> cost_gov \<Rightarrow> breakdown_entry list" where
  "model_breakdown projectId st =
     map breakdown_entry_of (fold add_model (getCostBreakdown projectId ByProvider st) [])"

definition budget_status_answer :: "cost_deps \<Rightarrow> int \<Rightarrow> string \<Rightarrow> control_state option \<Rightarrow> cost_gov \<Rightarrow> budget_status" where
  \<comment> \<open>the control state overlaid when operator control could be asked\<close>
  "budget_status_answer deps now projectId controlState st =
     (let status = getBudgetStatus deps now projectId st in
      case controlState of None \<Rightarrow> status | Some c \<Rightarrow> status\<lparr>bs_projectControlState := c\<rparr>)"

end
