(* ===== verification/Cost_Properties.thy ===== *)
theory Cost_Properties
  imports Cost Opctl_Properties
begin

text \<open>
  What cost governance promises: its running totals are the books of the period (a ledger of the
  counted events, the abstract state), spending only grows within a period, the hard ceiling fires
  once, and a correlation root is the end of its chain.
\<close>

section \<open>The ledger\<close>

type_synonym cost_ledger = "(cost_event \<times> string) list" \<comment> \<open>the events counted in the period, with their roots\<close>

definition entry_for :: "(cost_event \<times> string \<Rightarrow> string) \<Rightarrow> string \<Rightarrow> cost_ledger \<Rightarrow> agg_entry option" where
  "entry_for key k L =
     (let xs = map fst (filter (\<lambda>x. key x = k) L) in
      if xs = [] then None
      else Some \<lparr>gg_totalCostUsd = sum_js ct_totalCostUsd xs, gg_inputCostUsd = sum_js ct_inputCostUsd xs,
             gg_outputCostUsd = sum_js ct_outputCostUsd xs, gg_eventCount = length xs\<rparr>)"

definition model_of :: "cost_event \<times> string \<Rightarrow> string" where
  "model_of x = tierKey (ct_providerId (fst x)) (ct_modelId (fst x))"

definition class_of :: "cost_event \<times> string \<Rightarrow> string" where
  "class_of x = ct_agentClass (fst x)"

definition books :: "project_cost \<Rightarrow> cost_ledger \<Rightarrow> bool" where
  "books ps L \<longleftrightarrow>
     pj_totalSpend ps = sum_js ct_totalCostUsd (map fst L) \<and>
     (\<forall>k. obj_get k (pj_byProviderModel ps) = entry_for model_of k L \<and>
          obj_get k (pj_byAgentClass ps) = entry_for class_of k L \<and>
          obj_get k (pj_byCorrelationRoot ps) = entry_for snd k L)"

definition ledger_after :: "cost_deps \<Rightarrow> cost_input \<Rightarrow> inference_payload \<Rightarrow> cost_gov \<Rightarrow> (string \<Rightarrow> cost_ledger) \<Rightarrow> string \<Rightarrow> cost_ledger" where
  "ledger_after deps inp payload st L =
     (if cg_disposed st then L
      else
        (let e = cost_event_of deps inp payload; p = ct_projectId e;
             found = getOrCreateProjectState deps (ci_created inp) p st;
             current = checkPeriodBoundary (ci_checked inp) found;
             rootRunId = fst (resolveCorrelationRoot (ct_correlationRunId e) (ct_correlationParentId e)
               (pj_correlationRootCache current) (cg_costEvents st @ [e]))
         in L(p := (if ci_checked inp < pj_periodEnd found then L p else []) @ [(e, rootRunId)])))"

inductive cost_reachable :: "cost_deps \<Rightarrow> cost_gov \<Rightarrow> (string \<Rightarrow> cost_ledger) \<Rightarrow> bool" for deps :: cost_deps where
  fresh: "cost_reachable deps new_cost_gov (\<lambda>p. [])"
| event: "cost_reachable deps st L \<Longrightarrow>
    cost_reachable deps (handleInferenceEvent deps inp payload st) (ledger_after deps inp payload st L)"
| snapshots: "cost_reachable deps st L \<Longrightarrow> cost_reachable deps (emitSnapshots deps st) L"
| policy_set: "cost_reachable deps st L \<Longrightarrow> cost_reachable deps (setBudgetPolicy now p b st) L"
| policy_removed: "cost_reachable deps st L \<Longrightarrow> cost_reachable deps (removeBudgetPolicy p st) L"
| disposed: "cost_reachable deps st L \<Longrightarrow> cost_reachable deps (dispose st) L"

section \<open>Amounts\<close>

definition amount :: "rat \<Rightarrow> bool" where
  "amount x \<longleftrightarrow> 0 \<le> x \<and> double x"

definition amounts :: "cost_event \<Rightarrow> bool" where
  "amounts e \<longleftrightarrow> amount (ct_inputCostUsd e) \<and> amount (ct_outputCostUsd e) \<and> amount (ct_totalCostUsd e)"

definition priced :: "pricing_table \<Rightarrow> bool" where
  \<comment> \<open>\<open>z.number().nonnegative()\<close>\<close>
  "priced table \<longleftrightarrow> (\<forall>t \<in> snd ` set table. 0 \<le> pt_inputCostPerMillionTokens t \<and> 0 \<le> pt_outputCostPerMillionTokens t)"

lemma amount_zero [simp]: "amount 0"
  by (simp add: amount_def)

lemma amount_add: "amount x \<Longrightarrow> amount y \<Longrightarrow> amount (js_add x y)"
  by (simp add: amount_def js_add_nonneg double_js_add)

lemma amount_mult: "0 \<le> x \<Longrightarrow> 0 \<le> y \<Longrightarrow> amount (js_mult x y)"
  by (simp add: amount_def js_mult_nonneg) (simp add: js_mult_def double_rounded)

lemma computeCost_amounts:
  assumes "0 \<le> pt_inputCostPerMillionTokens t" "0 \<le> pt_outputCostPerMillionTokens t" "computeCost m n t = (i, out, tot)"
  shows "amount i" "amount out" "amount tot"
proof -
  have "0 \<le> js_div (of_nat k) 1000000" for k by (simp add: js_div_nonneg)
  then show "amount i" "amount out" "amount tot"
    using assms by (auto simp: computeCost_def Let_def amount_mult amount_add)
qed

lemma amounts_cost_event:
  assumes "priced (gd_pricingTable deps)"
  shows "amounts (cost_event_of deps inp payload)"
proof (cases "lookupPricingTier (gd_pricingTable deps) (ip_providerId payload) (ip_modelId payload)")
  case None
  then show ?thesis by (simp add: cost_event_of_def Let_def amounts_def)
next
  case (Some t)
  obtain i out tot where c: "computeCost (getOr (ip_inputTokens payload) 0) (getOr (ip_outputTokens payload) 0) t = (i, out, tot)"
    by (rule prod_cases3)
  have "t \<in> snd ` set (gd_pricingTable deps)"
    using Some by (force simp: lookupPricingTier_def obj_get_def dest: map_of_SomeD)
  then have "amount i" "amount out" "amount tot"
    using computeCost_amounts [OF _ _ c] assms by (auto simp: priced_def)
  then show ?thesis by (simp add: cost_event_of_def Let_def amounts_def Some c)
qed

lemma amount_sum_js: "list_all (\<lambda>x. amount (f x)) xs \<Longrightarrow> amount (sum_js f xs)"
  unfolding sum_js_def by (induction xs rule: rev_induct) (auto simp: amount_add)

lemma sum_js_snoc [simp]: "sum_js f (xs @ [x]) = js_add (sum_js f xs) (f x)"
  by (simp add: sum_js_def)

lemma sum_js_Nil [simp]: "sum_js f [] = 0"
  by (simp add: sum_js_def)

section \<open>Aggregation\<close>

lemma addToAggregation_entry:
  assumes "\<And>k. obj_get k m = entry_for key k L" and "amounts e" and "key (e, r) = key0"
  shows "obj_get k (addToAggregation key0 (ct_inputCostUsd e) (ct_outputCostUsd e) (ct_totalCostUsd e) m)
    = entry_for key k (L @ [(e, r)])"
proof (cases "filter (\<lambda>x. key x = key0) L = []")
  case True
  then have "obj_get key0 m = None" by (simp add: assms(1) entry_for_def)
  then show ?thesis
    using True assms(2,3) by (auto simp: addToAggregation_def assms(1) entry_for_def Let_def js_add_zero amounts_def amount_def
        sum_js_snoc [of _ "[]", simplified])
next
  case False
  then show ?thesis
    using assms(3) by (auto simp: addToAggregation_def assms(1) entry_for_def Let_def)
qed

lemma books_empty: "pj_totalSpend ps = 0 \<Longrightarrow> pj_byProviderModel ps = [] \<Longrightarrow> pj_byAgentClass ps = [] \<Longrightarrow>
    pj_byCorrelationRoot ps = [] \<Longrightarrow> books ps []"
  by (simp add: books_def entry_for_def)

lemma books_accumulate:
  assumes "books ps L" and "amounts e"
    and "rootRunId = fst (resolveCorrelationRoot (ct_correlationRunId e) (ct_correlationParentId e) (pj_correlationRootCache ps) evs)"
  shows "books (accumulate e evs ps) (L @ [(e, rootRunId)])"
proof -
  obtain cache where c: "resolveCorrelationRoot (ct_correlationRunId e) (ct_correlationParentId e) (pj_correlationRootCache ps) evs = (rootRunId, cache)"
    using assms(3) by (metis prod.collapse)
  note entry = addToAggregation_entry [OF _ assms(2)]
  show ?thesis
    using assms(1) unfolding books_def accumulate_def Let_def c prod.case
    by (auto intro!: entry simp: model_of_def class_of_def)
qed

definition same_books :: "project_cost \<Rightarrow> project_cost \<Rightarrow> bool" where
  "same_books ps ps' \<longleftrightarrow> pj_totalSpend ps' = pj_totalSpend ps \<and> pj_byProviderModel ps' = pj_byProviderModel ps \<and>
     pj_byAgentClass ps' = pj_byAgentClass ps \<and> pj_byCorrelationRoot ps' = pj_byCorrelationRoot ps"

lemma books_same: "same_books ps ps' \<Longrightarrow> books ps L \<Longrightarrow> books ps' L"
  by (simp add: same_books_def books_def)

lemma evaluateBudget_same: "same_books ps (snd (evaluateBudget deps p policy ps))"
  by (simp add: evaluateBudget_def same_books_def Let_def split: option.split)

lemma reset_empty: "books (resetProjectState now ps) []"
  by (rule books_empty) (simp_all add: resetProjectState_def split: prod.split)

lemma created_empty: "obj_get p (cg_projectStates st) = None \<Longrightarrow> books (getOrCreateProjectState deps now p st) []"
  by (rule books_empty) (simp_all add: getOrCreateProjectState_def createEmptyProjectState_def Let_def split: prod.split option.split)

section \<open>What every state satisfies\<close>

definition counts_once :: "aggregation \<Rightarrow> nat \<Rightarrow> bool" where
  "counts_once m n \<longleftrightarrow> distinct (obj_keys m) \<and> sum_list (map gg_eventCount (obj_values m)) = n"

lemma counts_obj_set:
  assumes "distinct (obj_keys m)"
  shows "sum_list (map f (obj_values (obj_set k v m))) + (case obj_get k m of None \<Rightarrow> 0 | Some w \<Rightarrow> f w)
    = sum_list (map f (obj_values m)) + (f v :: nat)"
  using assms
proof (induction m)
  case Nil
  then show ?case by (simp add: obj_values_def)
next
  case (Cons kw m)
  obtain k' w where kw: "kw = (k', w)" by (rule prod.exhaust)
  have "k' \<notin> set (obj_keys m)" using Cons.prems by (simp add: kw obj_keys_def)
  then have "obj_get k' m = None" by (simp add: obj_get_None_iff)
  with Cons show ?case by (auto simp: kw obj_values_def obj_keys_def split: option.splits)
qed

lemma counts_once_add:
  assumes "counts_once m n"
  shows "counts_once (addToAggregation k i out t m) (Suc n)"
proof -
  have d: "distinct (obj_keys m)" and n: "sum_list (map gg_eventCount (obj_values m)) = n"
    using assms by (simp_all add: counts_once_def)
  show ?thesis
  proof (cases "obj_get k m")
    case None
    with counts_obj_set [OF d, of gg_eventCount k] show ?thesis
      by (simp add: counts_once_def addToAggregation_def d n distinct_keys_obj_set)
  next
    case (Some g)
    define v where "v = \<lparr>gg_totalCostUsd = js_add (gg_totalCostUsd g) t, gg_inputCostUsd = js_add (gg_inputCostUsd g) i,
      gg_outputCostUsd = js_add (gg_outputCostUsd g) out, gg_eventCount = gg_eventCount g + 1\<rparr>"
    have "sum_list (map gg_eventCount (obj_values (obj_set k v m))) = Suc n"
      using counts_obj_set [OF d, of gg_eventCount k v] by (simp add: Some n) (simp add: v_def)
    then show ?thesis by (simp add: counts_once_def addToAggregation_def Some v_def d distinct_keys_obj_set)
  qed
qed

definition all_counted :: "project_cost \<Rightarrow> cost_ledger \<Rightarrow> bool" where
  "all_counted ps L \<longleftrightarrow> counts_once (pj_byProviderModel ps) (length L) \<and> counts_once (pj_byAgentClass ps) (length L) \<and>
     counts_once (pj_byCorrelationRoot ps) (length L)"

lemma counts_once_empty [simp]: "counts_once [] 0"
  by (simp add: counts_once_def obj_keys_def obj_values_def)

lemma all_counted_accumulate: "all_counted ps L \<Longrightarrow> all_counted (accumulate e evs ps) (L @ [x])"
  by (simp add: all_counted_def accumulate_def Let_def counts_once_add split: prod.split)

lemma all_counted_same: "same_books ps ps' \<Longrightarrow> all_counted ps L \<Longrightarrow> all_counted ps' L"
  by (simp add: same_books_def all_counted_def)

definition kept_books :: "project_cost \<Rightarrow> cost_ledger \<Rightarrow> bool" where
  "kept_books ps L \<longleftrightarrow> books ps L \<and> all_counted ps L \<and> (\<forall>x \<in> set L. amounts (fst x))"

lemma kept_same: "same_books ps ps' \<Longrightarrow> kept_books ps L \<Longrightarrow> kept_books ps' L"
  by (simp add: kept_books_def books_same all_counted_same)

lemma kept_empty: "pj_totalSpend ps = 0 \<Longrightarrow> pj_byProviderModel ps = [] \<Longrightarrow> pj_byAgentClass ps = [] \<Longrightarrow>
    pj_byCorrelationRoot ps = [] \<Longrightarrow> kept_books ps []"
  by (simp add: kept_books_def books_empty all_counted_def)

lemma kept_reset: "kept_books (resetProjectState now ps) []"
  by (rule kept_empty) (simp_all add: resetProjectState_def split: prod.split)

definition cost_inv :: "cost_gov \<Rightarrow> (string \<Rightarrow> cost_ledger) \<Rightarrow> bool" where
  "cost_inv st L \<longleftrightarrow>
     (\<forall>p. case obj_get p (cg_projectStates st) of None \<Rightarrow> L p = [] | Some ps \<Rightarrow> kept_books ps (L p))"

lemma cost_inv_found:
  assumes "cost_inv st L"
  shows "kept_books (getOrCreateProjectState deps now p st) (L p)"
proof (cases "obj_get p (cg_projectStates st)")
  case None
  with assms have "L p = []" unfolding cost_inv_def by (metis option.simps(4))
  moreover have "kept_books (getOrCreateProjectState deps now p st) []"
    by (rule kept_empty) (simp_all add: None getOrCreateProjectState_def createEmptyProjectState_def Let_def split: prod.split option.split)
  ultimately show ?thesis by simp
next
  case (Some ps)
  then show ?thesis using assms unfolding cost_inv_def getOrCreateProjectState_def by (metis option.simps(5))
qed

lemma getOrCreate_events: "getOrCreateProjectState deps now p (emit outs (st\<lparr>cg_costEvents := evs\<rparr>)) = getOrCreateProjectState deps now p st"
  by (simp add: getOrCreateProjectState_def policy_for_def emit_def split: option.split)

definition handled_state :: "cost_deps \<Rightarrow> cost_input \<Rightarrow> inference_payload \<Rightarrow> cost_gov \<Rightarrow> project_cost" where
  \<comment> \<open>the project after accumulation, before the budget is evaluated\<close>
  "handled_state deps inp payload st =
     (let e = cost_event_of deps inp payload in
      accumulate e (cg_costEvents st @ [e])
        (checkPeriodBoundary (ci_checked inp) (getOrCreateProjectState deps (ci_created inp) (ct_projectId e) st)))"

lemma handle_states:
  fixes deps inp payload
  assumes "\<not> cg_disposed st"
  defines "e \<equiv> cost_event_of deps inp payload"
  shows "cg_projectStates (handleInferenceEvent deps inp payload st) = obj_set (ct_projectId e)
      (snd (evaluateBudget deps (ct_projectId e) (policy_for deps (ct_projectId e) st) (handled_state deps inp payload st)))
      (cg_projectStates st)"
    and "cg_outputs (handleInferenceEvent deps inp payload st) = cg_outputs st @ EventRecorded e #
      fst (evaluateBudget deps (ct_projectId e) (policy_for deps (ct_projectId e) st) (handled_state deps inp payload st))"
    and "cg_budgetPolicies (handleInferenceEvent deps inp payload st) = cg_budgetPolicies st"
    and "cg_disposed (handleInferenceEvent deps inp payload st) = cg_disposed st"
    and "cg_costEvents (handleInferenceEvent deps inp payload st) = cg_costEvents st @ [e]"
  using assms(1)
  by (simp_all add: handleInferenceEvent_def handled_state_def Let_def getOrCreate_events e_def split: prod.split)
     (simp_all add: emit_def policy_for_def)

lemma kept_accumulate:
  assumes "kept_books ps L" and "amounts e"
  shows "kept_books (accumulate e evs ps)
    (L @ [(e, fst (resolveCorrelationRoot (ct_correlationRunId e) (ct_correlationParentId e) (pj_correlationRootCache ps) evs))])"
  using assms books_accumulate [of ps L e _ evs] all_counted_accumulate [of ps L e evs] by (auto simp: kept_books_def)

lemma cost_inv_handle:
  assumes inv: "cost_inv st L" and "priced (gd_pricingTable deps)"
  shows "cost_inv (handleInferenceEvent deps inp payload st) (ledger_after deps inp payload st L)"
proof (cases "cg_disposed st")
  case True
  with inv show ?thesis by (simp add: handleInferenceEvent_def ledger_after_def)
next
  case False
  define e where "e = cost_event_of deps inp payload"
  define found where "found = getOrCreateProjectState deps (ci_created inp) (ct_projectId e) st"
  define current where "current = checkPeriodBoundary (ci_checked inp) found"
  define kept where "kept = (if ci_checked inp < pj_periodEnd found then L (ct_projectId e) else [])"
  have "kept_books found (L (ct_projectId e))" unfolding found_def by (rule cost_inv_found [OF inv])
  then have "kept_books current kept" by (simp add: current_def kept_def checkPeriodBoundary_def kept_reset)
  moreover have "amounts e" unfolding e_def by (rule amounts_cost_event [OF assms(2)])
  ultimately have kept: "kept_books (handled_state deps inp payload st) (kept @ [(e,
      fst (resolveCorrelationRoot (ct_correlationRunId e) (ct_correlationParentId e) (pj_correlationRootCache current) (cg_costEvents st @ [e])))])"
    unfolding handled_state_def Let_def current_def found_def e_def [symmetric] by (rule kept_accumulate)
  have L: "ledger_after deps inp payload st L = L(ct_projectId e := kept @ [(e,
      fst (resolveCorrelationRoot (ct_correlationRunId e) (ct_correlationParentId e) (pj_correlationRootCache current) (cg_costEvents st @ [e])))])"
    using False by (simp add: ledger_after_def Let_def e_def found_def current_def kept_def)
  have "kept_books (snd (evaluateBudget deps (ct_projectId e) (policy_for deps (ct_projectId e) st) (handled_state deps inp payload st)))
      (ledger_after deps inp payload st L (ct_projectId e))"
    using kept_same [OF evaluateBudget_same kept] by (simp add: L)
  then have here: "kept_books (snd (evaluateBudget deps (ct_projectId e) (policy_for deps (ct_projectId e) st) (handled_state deps inp payload st)))
      (ledger_after deps inp payload st L (ct_projectId e))" .
  show ?thesis
    unfolding cost_inv_def handle_states(1) [OF False] e_def [symmetric]
  proof
    fix p
    show "case obj_get p (obj_set (ct_projectId e) (snd (evaluateBudget deps (ct_projectId e) (policy_for deps (ct_projectId e) st)
        (handled_state deps inp payload st))) (cg_projectStates st)) of None \<Rightarrow> ledger_after deps inp payload st L p = []
        | Some ps \<Rightarrow> kept_books ps (ledger_after deps inp payload st L p)"
      using inv [unfolded cost_inv_def, rule_format, of p] here by (cases "p = ct_projectId e") (simp_all add: L split: option.splits)
  qed
qed

lemma policy_same_books:
  assumes "obj_get q (cg_projectStates (setBudgetPolicy now p b st)) = Some ps'"
  shows "\<exists>ps. obj_get q (cg_projectStates st) = Some ps \<and> same_books ps ps'"
  using assms
  by (auto simp: setBudgetPolicy_def Let_def same_books_def split: option.splits if_splits prod.splits)

lemma policy_none:
  "obj_get q (cg_projectStates (setBudgetPolicy now p b st)) = None \<longleftrightarrow> obj_get q (cg_projectStates st) = None"
  by (auto simp: setBudgetPolicy_def Let_def split: option.splits)

lemma cost_inv_reachable: "cost_reachable deps st L \<Longrightarrow> priced (gd_pricingTable deps) \<Longrightarrow> cost_inv st L"
proof (induction rule: cost_reachable.induct)
  case fresh
  then show ?case by (simp add: cost_inv_def new_cost_gov_def)
next
  case (event st L inp payload)
  then show ?case by (simp add: cost_inv_handle)
next
  case (policy_set st L now p b)
  then have inv: "cost_inv st L" by simp
  show ?case
    unfolding cost_inv_def
  proof
    fix q
    show "case obj_get q (cg_projectStates (setBudgetPolicy now p b st)) of None \<Rightarrow> L q = [] | Some ps \<Rightarrow> kept_books ps (L q)"
      using inv policy_none [of q now p b st] policy_same_books [of q now p b st] kept_same
      unfolding cost_inv_def by (fastforce split: option.splits)
  qed
qed (simp_all add: cost_inv_def emitSnapshots_def emit_def removeBudgetPolicy_def dispose_def)

text \<open>C36: The running totals of a project are the books of its period: whatever events, snapshots and
  policy changes came before, the total spend is the sum of the costs counted since the period
  began, in their order, every entry of the three breakdowns (by model, agent class and
  correlation root) sums exactly the counted events of its key, and each breakdown counts every
  event once.\<close>

theorem aggregation_refines_ledger:
  assumes "cost_reachable deps st L" and "priced (gd_pricingTable deps)"
    and "obj_get p (cg_projectStates st) = Some ps"
  shows "pj_totalSpend ps = sum_js ct_totalCostUsd (map fst (L p)) \<and>
    (\<forall>k. obj_get k (pj_byProviderModel ps) = entry_for model_of k (L p) \<and>
         obj_get k (pj_byAgentClass ps) = entry_for class_of k (L p) \<and>
         obj_get k (pj_byCorrelationRoot ps) = entry_for snd k (L p)) \<and>
    (\<forall>m \<in> {pj_byProviderModel ps, pj_byAgentClass ps, pj_byCorrelationRoot ps}.
       sum_list (map gg_eventCount (obj_values m)) = length (L p))"
proof -
  have "kept_books ps (L p)"
    using cost_inv_reachable [OF assms(1,2), unfolded cost_inv_def, rule_format, of p] assms(3) by simp
  then show ?thesis by (simp add: kept_books_def books_def all_counted_def counts_once_def)
qed

section \<open>Budgets\<close>

fun is_pause_of :: "string \<Rightarrow> cost_output \<Rightarrow> bool" where
  "is_pause_of p (TriggerPause q spend cap) = (q = p)"
| "is_pause_of p _ = False"

definition pauses :: "string \<Rightarrow> cost_gov \<Rightarrow> nat" where
  "pauses p st = length (filter (is_pause_of p) (cg_outputs st))"

definition fired :: "string \<Rightarrow> cost_gov \<Rightarrow> bool" where
  "fired p st \<longleftrightarrow> (case obj_get p (cg_projectStates st) of None \<Rightarrow> False | Some ps \<Rightarrow> pj_hardCeilingFiredThisPeriod ps)"

fun handle_all :: "cost_deps \<Rightarrow> (cost_input \<times> inference_payload) list \<Rightarrow> cost_gov \<Rightarrow> cost_gov" where
  "handle_all deps [] st = st"
| "handle_all deps ((inp, payload) # xs) st = handle_all deps xs (handleInferenceEvent deps inp payload st)"

lemma evaluateBudget_pauses:
  assumes "evaluateBudget deps p policy ps = (outs, ps')"
  shows "length (filter (is_pause_of q) outs) =
      (if q = p \<and> pj_hardCeilingFiredThisPeriod ps' \<and> \<not> pj_hardCeilingFiredThisPeriod ps then 1 else 0)"
    and "pj_hardCeilingFiredThisPeriod ps \<Longrightarrow> pj_hardCeilingFiredThisPeriod ps'"
    and "pj_periodEnd ps' = pj_periodEnd ps"
  using assms by (auto simp: evaluateBudget_def Let_def split: option.splits if_splits)

lemma accumulate_fields [simp]:
  "pj_periodEnd (accumulate e evs ps) = pj_periodEnd ps"
  "pj_hardCeilingFiredThisPeriod (accumulate e evs ps) = pj_hardCeilingFiredThisPeriod ps"
  "pj_totalSpend (accumulate e evs ps) = js_add (pj_totalSpend ps) (ct_totalCostUsd e)"
  by (simp_all add: accumulate_def Let_def split: prod.split)

lemma handled_in_period:
  assumes "obj_get (ct_projectId (cost_event_of deps inp payload)) (cg_projectStates st) = Some ps" and "ci_checked inp < pj_periodEnd ps"
  shows "handled_state deps inp payload st =
    accumulate (cost_event_of deps inp payload) (cg_costEvents st @ [cost_event_of deps inp payload]) ps"
  using assms by (simp add: handled_state_def Let_def getOrCreateProjectState_def checkPeriodBoundary_def)

lemma handle_in_period:
  fixes deps payload
  assumes "obj_get p (cg_projectStates st) = Some ps" and "ci_checked inp < pj_periodEnd ps"
  defines "st' \<equiv> handleInferenceEvent deps inp payload st"
  obtains ps' where "obj_get p (cg_projectStates st') = Some ps'" "pj_periodEnd ps' = pj_periodEnd ps"
    "pj_totalSpend ps' = pj_totalSpend ps \<or>
     (\<exists>inp payload. pj_totalSpend ps' = js_add (pj_totalSpend ps) (ct_totalCostUsd (cost_event_of deps inp payload)))"
    "pauses p st' = pauses p st + (if fired p st' \<and> \<not> fired p st then 1 else 0)" "fired p st \<Longrightarrow> fired p st'"
proof (cases "cg_disposed st \<or> ct_projectId (cost_event_of deps inp payload) \<noteq> p")
  case True
  have "obj_get p (cg_projectStates st') = Some ps \<and> pauses p st' = pauses p st \<and> fired p st' = fired p st"
  proof (cases "cg_disposed st")
    case True
    then show ?thesis using assms(1) by (simp add: st'_def handleInferenceEvent_def)
  next
    case False
    define q where "q = ct_projectId (cost_event_of deps inp payload)"
    have "q \<noteq> p" using True False by (simp add: q_def)
    obtain outs ps'' where ev: "evaluateBudget deps q (policy_for deps q st) (handled_state deps inp payload st) = (outs, ps'')"
      by (rule prod.exhaust)
    note h = handle_states(1,2) [OF False, of deps inp payload, folded q_def st'_def, unfolded ev]
    show ?thesis using h \<open>q \<noteq> p\<close> assms(1) evaluateBudget_pauses(1) [OF ev, of p]
      by (simp add: pauses_def fired_def)
  qed
  with that [of ps] show ?thesis by auto
next
  case False
  then have nd: "\<not> cg_disposed st" and p: "ct_projectId (cost_event_of deps inp payload) = p" by auto
  obtain outs ps'' where ev: "evaluateBudget deps p (policy_for deps p st) (handled_state deps inp payload st) = (outs, ps'')"
    by (rule prod.exhaust)
  note h = handle_states(1,2) [OF nd, of deps inp payload, folded st'_def, unfolded p ev]
  note hs = handled_in_period [of deps inp payload st ps, unfolded p, OF assms(1,2)]
  have same: "pj_totalSpend ps'' = pj_totalSpend (handled_state deps inp payload st)"
    using evaluateBudget_same [of "handled_state deps inp payload st" deps p "policy_for deps p st"] by (simp add: ev same_books_def)
  show ?thesis
  proof (rule that)
    show "obj_get p (cg_projectStates st') = Some ps''" using h(1) by simp
    show "pj_periodEnd ps'' = pj_periodEnd ps" using evaluateBudget_pauses(3) [OF ev] by (simp add: hs)
    show "pj_totalSpend ps'' = pj_totalSpend ps \<or>
      (\<exists>inp payload. pj_totalSpend ps'' = js_add (pj_totalSpend ps) (ct_totalCostUsd (cost_event_of deps inp payload)))"
      using same by (auto simp: hs)
    show "pauses p st' = pauses p st + (if fired p st' \<and> \<not> fired p st then 1 else 0)"
      using h assms(1) evaluateBudget_pauses(1) [OF ev, of p] by (simp add: pauses_def fired_def hs)
    show "fired p st \<Longrightarrow> fired p st'"
      using h assms(1) evaluateBudget_pauses(2) [OF ev] by (simp add: fired_def hs)
  qed
qed


text \<open>Within a period the recorded spend never goes down, in spite of the rounding of every addition.\<close>

theorem spend_never_decreases:
  assumes "cost_reachable deps st L" and "priced (gd_pricingTable deps)"
    and "obj_get p (cg_projectStates st) = Some ps"
    and "list_all (\<lambda>x. ci_checked (fst x) < pj_periodEnd ps) xs"
  shows "\<exists>ps'. obj_get p (cg_projectStates (handle_all deps xs st)) = Some ps' \<and> pj_totalSpend ps \<le> pj_totalSpend ps'"
  using assms(1,3,4)
proof (induction xs arbitrary: st ps L)
  case Nil
  then show ?case by auto
next
  case (Cons x xs)
  obtain inp payload where x: "x = (inp, payload)" by (rule prod.exhaust)
  have "ci_checked inp < pj_periodEnd ps" using Cons.prems(3) by (simp add: x)
  from handle_in_period [OF Cons.prems(2) this, of deps payload]
  obtain ps' where ps': "obj_get p (cg_projectStates (handleInferenceEvent deps inp payload st)) = Some ps'" "pj_periodEnd ps' = pj_periodEnd ps"
    "pj_totalSpend ps' = pj_totalSpend ps \<or>
     (\<exists>inp payload. pj_totalSpend ps' = js_add (pj_totalSpend ps) (ct_totalCostUsd (cost_event_of deps inp payload)))" by metis
  have "kept_books ps (L p)"
    using cost_inv_reachable [OF Cons.prems(1) assms(2), unfolded cost_inv_def, rule_format, of p] Cons.prems(2) by simp
  then have "amount (pj_totalSpend ps)"
    by (auto simp: kept_books_def books_def amounts_def list_all_iff intro!: amount_sum_js)
  then have le: "pj_totalSpend ps \<le> pj_totalSpend ps'"
    using ps'(3) amounts_cost_event [OF assms(2)] by (auto simp: amount_def amounts_def intro!: js_add_increases)
  have "list_all (\<lambda>x. ci_checked (fst x) < pj_periodEnd ps') xs" using Cons.prems(3) ps'(2) by (simp add: list_all_iff)
  from Cons.IH [OF cost_reachable.event [OF Cons.prems(1)] ps'(1) this] le show ?case
    unfolding x handle_all.simps by (meson order_trans)
qed

text \<open>C15: The pause of a budget ceiling is never applied: whatever else operator control is doing, a
  submission of the enforcement is never answered \<open>applied\<close> nor does it ever hold the lock of its
  scope, because a pause requires a confirmation proof and the enforcement sends none. The
  enforcement records a success all the same.\<close>

theorem budget_pause_never_applies:
  assumes "opctl_reachable odeps oc" and "opctl_deps_ok odeps" and "i < length (oc_tasks oc)"
    and "triggerPause sha256 inp p spend cap controlState nf = (Some (tk_call (oc_tasks oc ! i)), nf')"
  shows "(\<forall>c. roles oc i \<noteq> Holds c) \<and>
    (\<forall>r. pc_at oc i = Answered (Inr r) \<longrightarrow> sb_status r \<noteq> SbApplied \<and>
       er_success (last (nf_enforcementLog (pause_submitted now p spend cap (Inr r) nf'))))"
proof -
  have call: "tk_call (oc_tasks oc ! i) = SubmitCommand (pause_envelope sha256 inp p spend cap nf) None"
    using assms(4) by (auto simp: triggerPause_def split: if_splits)
  have inv: "tasks_ok odeps oc" using opctl_reachable_inv [OF assms(1,2)] by (simp add: opctl_inv_def)
  have parse: "od_parseEnvelope odeps raw = Inr env \<Longrightarrow> env = raw" for raw env
    using assms(2) by (auto simp: opctl_deps_ok_def schema_parser_def)
  have never: "\<not> confirmed_from odeps (tk_call (oc_tasks oc ! i)) c" for c
    by (auto simp: confirmed_from_def call unconfirmed_def pause_envelope_def getRequiredTier_def dest!: parse)
  have ok: "task_ok odeps (tk_call (oc_tasks oc ! i)) (pc_at oc i)" using inv assms(3) by (simp add: tasks_ok_def)
  have "roles oc i \<noteq> Holds c" for c
    using ok never [of c] by (cases "pc_at oc i") (auto simp: roles_def)
  moreover have "sb_status r \<noteq> SbApplied" if "pc_at oc i = Answered (Inr r)" for r
    using ok never that by auto
  ultimately show ?thesis by (auto simp: pause_submitted_def)
qed

end
