(* ===== verification/Cost_Queries.thy ===== *)
theory Cost_Queries
  imports Cost_Properties
begin

text \<open>
  Correlation roots, the time series and the summary of \<open>cost-governance-service.ts\<close>.
\<close>

section \<open>Correlation roots\<close>

inductive chain_end :: "cost_event list \<Rightarrow> string \<Rightarrow> string \<Rightarrow> bool" for evs :: "cost_event list" where
  top: "parent_run run evs = None \<Longrightarrow> chain_end evs run run"
| up: "parent_run run evs = Some p \<Longrightarrow> chain_end evs p r \<Longrightarrow> chain_end evs run r"

inductive_cases chain_endE: "chain_end evs run r"

lemma chain_end_unique: "chain_end evs run r \<Longrightarrow> chain_end evs run r' \<Longrightarrow> r = r'"
proof (induction arbitrary: r' rule: chain_end.induct)
  case (top run)
  from top(2) show ?case by (rule chain_endE) (simp_all add: top(1))
next
  case (up run p r)
  from up(4) show ?case by (rule chain_endE) (simp_all add: up(1,3))
qed

definition cache_sound :: "cost_event list \<Rightarrow> (string \<times> string) list \<Rightarrow> bool" where
  "cache_sound evs cache \<longleftrightarrow> (\<forall>run r. obj_get run cache = Some r \<longrightarrow> chain_end evs run r)"

lemma cached_sound: "cache_sound evs cache \<Longrightarrow> cached_root run cache = Some r \<Longrightarrow> chain_end evs run r"
  by (auto simp: cached_root_def cache_sound_def split: option.splits if_splits)

text \<open>The loop climbs a chain; the runs it passes all lie below its current run.\<close>

fun leads_to :: "cost_event list \<Rightarrow> string list \<Rightarrow> string \<Rightarrow> bool" where
  "leads_to evs [] x \<longleftrightarrow> True"
| "leads_to evs [a] x \<longleftrightarrow> parent_run a evs = Some x"
| "leads_to evs (a # b # rest) x \<longleftrightarrow> parent_run a evs = Some b \<and> leads_to evs (b # rest) x"

lemma leads_to_snoc: "leads_to evs path x \<Longrightarrow> parent_run x evs = Some y \<Longrightarrow> leads_to evs (path @ [x]) y"
  by (induction evs path x rule: leads_to.induct) auto

lemma leads_to_end: "leads_to evs path x \<Longrightarrow> chain_end evs x r \<Longrightarrow> a \<in> set path \<Longrightarrow> chain_end evs a r"
  by (induction evs path x arbitrary: a rule: leads_to.induct) (auto intro: chain_end.up)

fun height :: "cost_event list \<Rightarrow> nat \<Rightarrow> string \<Rightarrow> string \<Rightarrow> bool" where
  "height evs 0 run r \<longleftrightarrow> parent_run run evs = None \<and> run = r"
| "height evs (Suc n) run r \<longleftrightarrow> (\<exists>p. parent_run run evs = Some p \<and> height evs n p r)"

lemma chain_end_height: "chain_end evs run r \<Longrightarrow> \<exists>n. height evs n run r"
proof (induction rule: chain_end.induct)
  case (top run)
  then have "height evs 0 run run" by simp
  then show ?case by blast
next
  case (up run p r)
  then obtain n where "height evs n p r" by blast
  with up(1) have "height evs (Suc n) run r" by simp
  then show ?case by blast
qed

lemma height_unique: "height evs n run r \<Longrightarrow> height evs m run r' \<Longrightarrow> n = m"
proof (induction n arbitrary: m run)
  case 0
  then show ?case by (cases m) auto
next
  case (Suc n)
  then show ?case by (cases m) auto
qed

lemma leads_to_height: "leads_to evs path x \<Longrightarrow> height evs n x r \<Longrightarrow> a \<in> set path \<Longrightarrow> \<exists>m > n. height evs m a r"
proof (induction evs path x arbitrary: a rule: leads_to.induct)
  case (2 evs b x)
  then have "height evs (Suc n) b r" by auto
  with 2 show ?case by auto
next
  case (3 evs b c rest x)
  then obtain m where m: "n < m" "height evs m c r" by (metis leads_to.simps(3) list.set_intros(1))
  with 3(2) have "height evs (Suc m) b r" by auto
  with 3 m show ?case by (metis leads_to.simps(3) less_SucI set_ConsD)
qed simp

lemma leads_to_fresh: "leads_to evs path x \<Longrightarrow> chain_end evs x r \<Longrightarrow> x \<notin> set path"
  using chain_end_height [of evs x r] leads_to_height [of evs path x _ r x] height_unique by blast

lemma climb_chain:
  assumes "cache_sound evs cache"
  shows "leads_to evs visited current \<Longrightarrow> chain_end evs current r \<Longrightarrow>
    \<exists>visited'. climb cache evs visited current = Some (r, visited') \<and> set visited \<subseteq> set visited' \<and>
      (\<forall>a \<in> set visited'. chain_end evs a r)"
  using assms
proof (induction cache evs visited current rule: climb.induct)
  case (1 cache evs visited current)
  have fresh: "current \<notin> set visited" by (rule leads_to_fresh [OF 1(2,3)])
  have all: "\<forall>a \<in> set (visited @ [current]). chain_end evs a r" using leads_to_end [OF 1(2,3)] 1(3) by auto
  show ?case
  proof (cases "cached_root current cache")
    case (Some r')
    then have "r' = r" using cached_sound [OF 1(4)] chain_end_unique [OF 1(3)] by blast
    with Some fresh all show ?thesis by (subst climb.simps) auto
  next
    case None
    show ?thesis
    proof (cases "parent_run current evs")
      case None': None
      then have "r = current" using chain_end_unique [OF 1(3)] chain_end.top by blast
      with None None' fresh all show ?thesis by (subst climb.simps) auto
    next
      case (Some p)
      then have "chain_end evs p r" using 1(3) by (auto elim: chain_endE)
      from 1(1) [OF fresh refl None Some leads_to_snoc [OF 1(2) Some] this 1(4)]
      show ?thesis using fresh None Some by (subst climb.simps) auto
    qed
  qed
qed

lemma cache_sound_entries:
  assumes "cache_sound evs cache" and "\<forall>a \<in> set xs. chain_end evs a r"
  shows "cache_sound evs (from_entries cache (map (\<lambda>i. (i, r)) xs))"
  using assms
proof (induction xs arbitrary: cache)
  case Nil
  then show ?case by simp
next
  case (Cons a xs)
  have "cache_sound evs (obj_set a r cache)" using Cons.prems by (simp add: cache_sound_def)
  with Cons show ?case by simp
qed

text \<open>When the events at hand connect a run to the end of its chain of parents, the correlation root
  is that end, and the cache written on the way names the true end of every run passed.\<close>

theorem correlation_root_is_chain_end:
  assumes "cache_sound evs cache" and "chain_end evs run r"
    and "event_of_run run evs = Some e" and "ct_correlationParentId e = parent"
  shows "fst (resolveCorrelationRoot run parent cache evs) = r \<and>
    cache_sound evs (snd (resolveCorrelationRoot run parent cache evs))"
proof (cases "cached_root run cache")
  case (Some r')
  then have "r' = r" using cached_sound [OF assms(1)] chain_end_unique [OF assms(2)] by blast
  with Some assms(1) show ?thesis by (simp add: resolveCorrelationRoot_def)
next
  case None
  show ?thesis
  proof (cases "truthy parent")
    case False
    then have "parent_run run evs = None" using assms(3,4) by (auto simp: parent_run_def truthy_def split: option.splits)
    then have "r = run" using chain_end_unique [OF assms(2)] chain_end.top by blast
    with None False assms(1,2) show ?thesis by (auto simp: resolveCorrelationRoot_def cache_sound_def)
  next
    case True
    then obtain p where p: "parent = Some p" "parent_run run evs = Some p"
      using assms(3,4) by (auto simp: parent_run_def truthy_def split: option.splits)
    then have "chain_end evs p r" using assms(2) by (auto elim: chain_endE)
    moreover have "leads_to evs [run] p" using p by simp
    ultimately obtain visited where v: "climb cache evs [run] p = Some (r, visited)" "\<forall>a \<in> set visited. chain_end evs a r"
      using climb_chain [OF assms(1)] by blast
    then show ?thesis using None True p cache_sound_entries [OF assms(1) v(2)] by (simp add: resolveCorrelationRoot_def)
  qed
qed

text \<open>The events of a child may come before those of its parent. The root is then the parent, and
  stays the root of both when the parent turns out to have a parent of its own.\<close>

lemma late_parent_keeps_root:
  assumes "a \<noteq> []" "b \<noteq> []" "c \<noteq> []" "a \<noteq> b" "b \<noteq> c" "a \<noteq> c"
    and "ct_correlationRunId child = c" "ct_correlationParentId child = Some b"
    and "ct_correlationRunId parent = b" "ct_correlationParentId parent = Some a"
  shows "resolveCorrelationRoot b (Some a) (snd (resolveCorrelationRoot c (Some b) [] [child])) [child, parent] = (b, [(c, b), (b, b)])"
    and "chain_end [child, parent] b a"
proof -
  have "parent_run b [child] = None" using assms by (simp add: parent_run_def event_of_run_def)
  then have "climb [] [child] [c] b = Some (b, [c, b])" using assms by (simp add: climb.simps cached_root_def)
  then show "resolveCorrelationRoot b (Some a) (snd (resolveCorrelationRoot c (Some b) [] [child])) [child, parent] = (b, [(c, b), (b, b)])"
    using assms by (simp add: resolveCorrelationRoot_def cached_root_def)
  have "parent_run b [child, parent] = Some a" "parent_run a [child, parent] = None"
    using assms by (auto simp: parent_run_def event_of_run_def)
  then show "chain_end [child, parent] b a" by (blast intro: chain_end.intros)
qed

section \<open>The time series\<close>

interpretation start_cmp: js_comparator "by_start :: int \<times> rat \<times> nat \<Rightarrow> int \<times> rat \<times> nat \<Rightarrow> int"
  by (rule js_comparator_by_key [of _ fst]) (auto simp: by_start_def)

definition bucket_start :: "int \<Rightarrow> int \<Rightarrow> cost_event \<Rightarrow> int" where
  "bucket_start s w e = s + \<lfloor>js_div (of_int (ct_timestamp e - s)) (of_int w)\<rfloor> * w"

lemma add_to_bucket_keys:
  "set (obj_keys (add_to_bucket s w e m)) = insert (bucket_start s w e) (set (obj_keys m))"
  "distinct (obj_keys m) \<Longrightarrow> distinct (obj_keys (add_to_bucket s w e m))"
  by (simp_all add: add_to_bucket_def bucket_start_def Let_def distinct_keys_obj_set)

lemma add_to_bucket_count:
  assumes "distinct (obj_keys m)"
  shows "sum_list (map snd (map snd (add_to_bucket s w e m))) = Suc (sum_list (map snd (map snd m)))"
proof -
  define k where "k = bucket_start s w e"
  have add: "add_to_bucket s w e m = obj_set k (case obj_get k m of Some (t, n) \<Rightarrow> (js_add t (ct_totalCostUsd e), n + 1)
      | None \<Rightarrow> (ct_totalCostUsd e, 1)) m"
    by (simp add: add_to_bucket_def k_def bucket_start_def Let_def)
  have "sum_list (map snd (obj_values (add_to_bucket s w e m))) = Suc (sum_list (map snd (obj_values m)))"
  proof (cases "obj_get k m")
    case None
    then show ?thesis using counts_obj_set [OF assms, of snd k "(ct_totalCostUsd e, 1)"] by (simp add: add)
  next
    case (Some tn)
    then show ?thesis using counts_obj_set [OF assms, of snd k "(js_add (fst tn) (ct_totalCostUsd e), snd tn + 1)"]
      by (simp add: add case_prod_beta)
  qed
  then show ?thesis by (simp add: obj_values_def)
qed

lemma fold_buckets:
  "distinct (obj_keys m) \<Longrightarrow> distinct (obj_keys (fold (add_to_bucket s w) evs m)) \<and>
   set (obj_keys (fold (add_to_bucket s w) evs m)) = set (obj_keys m) \<union> bucket_start s w ` set evs \<and>
   sum_list (map snd (map snd (fold (add_to_bucket s w) evs m))) = sum_list (map snd (map snd m)) + length evs"
proof (induction evs arbitrary: m)
  case Nil
  then show ?case by simp
next
  case (Cons e evs)
  from Cons.IH [OF add_to_bucket_keys(2) [OF Cons.prems, of s w e]]
  show ?case using add_to_bucket_keys(1) [of s w e m] add_to_bucket_count [OF Cons.prems, of s w e] by auto
qed

lemma js_sort_starts:
  fixes m :: "(int \<times> rat \<times> nat) list"
  assumes "distinct (map fst m)"
  shows "sorted_wrt (<) (map fst (js_sort by_start m))"
proof -
  have "sorted_wrt (\<lambda>a b. by_start a b \<le> 0) (js_sort by_start m)" by (rule start_cmp.sorted_js_sort)
  then have "sorted_wrt (\<le>) (map fst (js_sort by_start m))" by (simp add: by_start_def sorted_wrt_map)
  moreover have "distinct (map fst (js_sort by_start m))" by (simp add: assms)
  ultimately show ?thesis by (simp add: strict_sorted_iff)
qed

text \<open>The time series puts every event of the period in exactly one bucket: the starts strictly
  increase, they are the starts of the buckets of the events (a whole number of bucket widths after
  the period's start), and the counts add up to the number of events.\<close>

lemma time_series_partitions:
  shows "sorted_wrt (<) (map fst (series_of ps bucketMinutes evs)) \<and>
    set (map fst (series_of ps bucketMinutes evs)) = bucket_start (pj_periodStart ps) (bucketMinutes * 60000) ` set evs \<and>
    (\<Sum>x \<leftarrow> series_of ps bucketMinutes evs. snd (snd x)) = length evs"
proof -
  define m where "m = fold (add_to_bucket (pj_periodStart ps) (bucketMinutes * 60000)) evs []"
  have series: "series_of ps bucketMinutes evs = js_sort by_start m" by (simp add: series_of_def m_def mult.assoc)
  have m: "distinct (map fst m)" "set (map fst m) = bucket_start (pj_periodStart ps) (bucketMinutes * 60000) ` set evs"
    "sum_list (map snd (map snd m)) = length evs"
    using fold_buckets [of "[]" "pj_periodStart ps" "bucketMinutes * 60000" evs] by (auto simp: m_def obj_keys_def)
  have counts: "(\<Sum>x \<leftarrow> js_sort by_start m. snd (snd x)) = (\<Sum>x \<leftarrow> m. snd (snd x))"
    by (rule arg_cong [of _ _ id, simplified]) (simp only: sum_mset_sum_list [symmetric] mset_map mset_js_sort)
  have total: "(\<Sum>x \<leftarrow> m. snd (snd x)) = length evs" using m(3) by (simp only: map_map comp_def)
  have keys: "set (map fst (js_sort by_start m)) = set (map fst m)" by simp
  show ?thesis unfolding series keys m(2) counts total using js_sort_starts [OF m(1)] by simp
qed

section \<open>The summary\<close>

text \<open>The summary and the router disagree on the model of a key: whatever the model, the router's
  grouping recovers it, while the summary's top model is cut at the first colon inside it.\<close>

theorem summary_cuts_model:
  assumes "obj_get p (cg_projectStates st) = Some ps"
    and "fst (foldl costlier (None, 0) (pj_byProviderModel ps)) = Some (tierKey provider (m @ '':'' @ tag))"
    and "CHR '':'' \<notin> set provider" and "CHR '':'' \<notin> set m"
  shows "cu_topModel (getCostSummary now p st) = Some m \<and> model_key (tierKey provider (m @ '':'' @ tag)) = m @ '':'' @ tag"
proof -
  have s: "split_at (CHR '':'') (tierKey provider (m @ '':'' @ tag)) = provider # m # split_at (CHR '':'') tag"
    using assms(3,4) by (simp add: tierKey_def split_at_append)
  have "split_at (CHR '':'') (m @ '':'' @ tag) = m # split_at (CHR '':'') tag" using assms(4) by (simp add: split_at_append)
  then have "join '':'' (m # split_at (CHR '':'') tag) = m @ '':'' @ tag" by (metis join_split_at)
  moreover have "tierKey provider (m @ '':'' @ tag) \<noteq> []" by (simp add: tierKey_def)
  ultimately show ?thesis using assms(1,2) s by (simp add: getCostSummary_def model_key_def Let_def split: prod.split)
qed

end
