(* ===== verification/Cost_Runs.thy ===== *)
theory Cost_Runs
  imports Cost_Queries
begin

text \<open>
  Runs of cost governance: a project with a ceiling of one dollar that spends five, and the
  witnesses of the properties of \<open>Cost_Properties\<close> and \<open>Cost_Queries\<close>.
\<close>

definition demo_tier :: pricing_tier where
  "demo_tier = \<lparr>pt_providerId = ''ollama'', pt_modelId = ''llama3:8b'', pt_inputCostPerMillionTokens = 5, pt_outputCostPerMillionTokens = 10\<rparr>"

definition demo_policy :: budget_policy where
  "demo_policy = \<lparr>bp_enabled = True, bp_period = Monthly, bp_softThresholdPercent = 80, bp_hardCeilingUsd = 1, bp_perAgentCaps = None\<rparr>"

definition demo_cost :: cost_deps where
  "demo_cost = \<lparr>gd_pricingTable = [(''ollama:llama3:8b'', demo_tier)], gd_getProjectConfig = (\<lambda>p. None), gd_notificationService = True\<rparr>"

definition demo_payload :: inference_payload where
  "demo_payload = \<lparr>ip_providerId = ''ollama'', ip_modelId = ''llama3:8b'', ip_agentClass = None, ip_traceId = ''t'',
     ip_projectId = Some ''p'', ip_inputTokens = Some 1000000, ip_outputTokens = None, ip_correlationRunId = Some ''b'',
     ip_correlationParentId = Some ''a''\<rparr>"

definition at_day_three :: cost_input where
  "at_day_three = \<lparr>ci_id = ''e'', ci_timestamp = 200000000, ci_created = 200000000, ci_checked = 200000001\<rparr>"

definition spent_once :: cost_gov where
  "spent_once = handleInferenceEvent demo_cost at_day_three demo_payload (setBudgetPolicy 0 ''p'' demo_policy new_cost_gov)"

lemma demo_priced: "priced (gd_pricingTable demo_cost)"
  by (simp add: priced_def demo_cost_def demo_tier_def)

lemma spent_once_reachable: "\<exists>L. cost_reachable demo_cost spent_once L"
  unfolding spent_once_def by (blast intro: cost_reachable.intros)

definition spent_project :: project_cost where
  "spent_project = \<lparr>pj_periodStart = 0, pj_periodEnd = 2678400000, pj_periodType = Monthly, pj_totalSpend = 5,
     pj_byProviderModel = [(''ollama:llama3:8b'', \<lparr>gg_totalCostUsd = 5, gg_inputCostUsd = 5, gg_outputCostUsd = 0, gg_eventCount = 1\<rparr>)],
     pj_byAgentClass = [(''Unknown'', \<lparr>gg_totalCostUsd = 5, gg_inputCostUsd = 5, gg_outputCostUsd = 0, gg_eventCount = 1\<rparr>)],
     pj_byCorrelationRoot = [(''a'', \<lparr>gg_totalCostUsd = 5, gg_inputCostUsd = 5, gg_outputCostUsd = 0, gg_eventCount = 1\<rparr>)],
     pj_softAlertFiredThisPeriod = True, pj_hardCeilingFiredThisPeriod = True, pj_correlationRootCache = [(''b'', ''a''), (''a'', ''a'')],
     pj_currentHardCeilingUsd = Some 1\<rparr>"

lemma demo_amounts:
  "js_div 1000000 1000000 = 1" "js_mult 1 5 = 5" "js_div 0 1000000 = 0" "js_mult 0 10 = 0" "js_add 5 0 = 5" "js_add 0 5 = 5"
  "js_div 5 1 = 5" "js_mult 5 100 = 500"
  by code_simp+

lemma spent_once_project: "obj_get ''p'' (cg_projectStates spent_once) = Some spent_project"
proof -
  have m: "month_from 0 2 = (0, 2)" by (simp add: month_from.simps days_in_month_def)
  have t: "month_start (Suc 0) = 31" by (simp add: days_in_month_def)
  have p: "computePeriodBounds 200000000 Monthly = (0, 2678400000)"
    by (simp add: computePeriodBounds_def day_of_def day_ms_def month_of_day_def m t del: month_start.simps(2))
  show ?thesis
    by (simp add: spent_once_def setBudgetPolicy_def new_cost_gov_def handleInferenceEvent_def cost_event_of_def
        lookupPricingTier_def tierKey_def demo_cost_def demo_payload_def at_day_three_def demo_tier_def computeCost_def
        demo_amounts getOrCreateProjectState_def policy_for_def emit_def createEmptyProjectState_def demo_policy_def p
        checkPeriodBoundary_def accumulate_def addToAggregation_def resolveCorrelationRoot_def cached_root_def climb.simps
        parent_run_def event_of_run_def evaluateBudget_def utilization_def spent_project_def Let_def)
qed

section \<open>Witnesses\<close>

theorem aggregation_refines_ledger_witness:
  "\<exists>L. cost_reachable demo_cost spent_once L \<and> pj_totalSpend spent_project = sum_js ct_totalCostUsd (map fst (L ''p''))"
proof -
  obtain L where L: "cost_reachable demo_cost spent_once L" using spent_once_reachable by blast
  from aggregation_refines_ledger [OF L demo_priced spent_once_project] L show ?thesis by blast
qed

lemma demo_in_period: "list_all (\<lambda>x. ci_checked (fst x) < pj_periodEnd spent_project) [(at_day_three, demo_payload), (at_day_three, demo_payload)]"
  by (simp add: at_day_three_def spent_project_def)


theorem spend_never_decreases_witness:
  "\<exists>ps'. obj_get ''p'' (cg_projectStates (handle_all demo_cost [(at_day_three, demo_payload), (at_day_three, demo_payload)] spent_once)) = Some ps' \<and>
    5 \<le> pj_totalSpend ps'"
proof -
  obtain L where L: "cost_reachable demo_cost spent_once L" using spent_once_reachable by blast
  from spend_never_decreases [OF L demo_priced spent_once_project demo_in_period] show ?thesis by (simp add: spent_project_def)
qed

definition plain_opctl :: opctl_deps where
  "plain_opctl = \<lparr>od_sha256 = (\<lambda>t. t), od_parseEnvelope = Inr, od_parseSnapshot = Inr, od_parseResult = Inr,
     od_witnessService = True, od_projectControlStateStore = True\<rparr>"

definition demo_pause :: pause_input where
  "demo_pause = \<lparr>pa_commandId = ''c'', pa_nonce = ''n'', pa_now = 200000002, pa_number = (\<lambda>x. JNum 5)\<rparr>"

definition demo_enforcement :: enforcement where
  "demo_enforcement = new_enforcement (\<lambda>t. replicate 32 0) ''session''"

definition demo_submission :: opctl_call where
  "demo_submission = SubmitCommand (pause_envelope (\<lambda>t. t) demo_pause ''p'' 5 1 demo_enforcement) None"

definition submitted :: opctl where
  "submitted = arrive demo_submission idle_opctl"

definition input_late :: step_input where
  "input_late = \<lparr>in_now = ''0'', in_answer = Some ''event''\<rparr>"

definition submission_run :: opctl where
  "submission_run = run_task plain_opctl input_late 0 (run_task plain_opctl input_late 0
     (run_task plain_opctl input_late 0 (run_task plain_opctl input_late 0 submitted)))"

lemma submission_step:
  "opctl_reachable deps st \<Longrightarrow> 0 < length (oc_tasks st) \<Longrightarrow> may_run (tk_pc (oc_tasks st ! 0)) \<Longrightarrow>
   opctl_reachable deps (run_task deps inp 0 st)"
  by (blast intro: opctl_reachable.step opctl_step.run)

lemma pause_expires_later: "\<not> toISOString (200000002 + 60000) < ''0''"
proof -
  have "month_from 0 2 = (0, 2)" by (simp add: month_from.simps days_in_month_def)
  then have "\<exists>t. toISOString (200000002 + 60000) = CHR ''1'' # t"
    by (simp add: toISOString_def day_of_def day_ms_def Let_def show_nat.simps)
  then show ?thesis by (auto simp: less_char_def)
qed

abbreviation pause_env :: envelope where
  "pause_env \<equiv> pause_envelope (\<lambda>t. t) demo_pause ''p'' 5 1 demo_enforcement"

lemma submission_states:
  defines "at_pc \<equiv> \<lambda>p. idle_opctl\<lparr>oc_tasks := [\<lparr>tk_call = demo_submission, tk_pc = p\<rparr>]\<rparr>"
  shows "submitted = at_pc Received"
    and "run_task plain_opctl input_late 0 (at_pc Received) = at_pc (CommandIdRead pause_env False)"
    and "run_task plain_opctl input_late 0 (at_pc (CommandIdRead pause_env False)) = at_pc (NonceRead pause_env False)"
    and "run_task plain_opctl input_late 0 (at_pc (NonceRead pause_env False)) = at_pc (SeqRead pause_env None)"
    and "run_task plain_opctl input_late 0 (at_pc (SeqRead pause_env None)) =
      at_pc (Answered (Inr (refusal SbBlocked pause_env ''Confirmation proof required'' ''OPCTL-003'')))"
proof -
  have expires: "ce_expires_at pause_env = toISOString (200000002 + 60000)" "ce_action pause_env = AcPause"
    by (simp_all add: pause_envelope_def demo_pause_def)
  show "submitted = at_pc Received" by (simp add: at_pc_def submitted_def arrive_def idle_opctl_def)
  show "run_task plain_opctl input_late 0 (at_pc Received) = at_pc (CommandIdRead pause_env False)"
    using pause_expires_later
    by (simp add: at_pc_def run_task_def demo_submission_def receive_command_def plain_opctl_def input_late_def expires goto_def
        idle_opctl_def isCommandIdUsed_def has_def)
  show "run_task plain_opctl input_late 0 (at_pc (CommandIdRead pause_env False)) = at_pc (NonceRead pause_env False)"
    by (simp add: at_pc_def run_task_def check_command_id_def goto_def idle_opctl_def isNonceUsed_def has_def)
  show "run_task plain_opctl input_late 0 (at_pc (NonceRead pause_env False)) = at_pc (SeqRead pause_env None)"
    by (simp add: at_pc_def run_task_def check_nonce_def goto_def idle_opctl_def getLastActorSeq_def)
  show "run_task plain_opctl input_late 0 (at_pc (SeqRead pause_env None)) =
      at_pc (Answered (Inr (refusal SbBlocked pause_env ''Confirmation proof required'' ''OPCTL-003'')))"
    by (simp add: at_pc_def run_task_def check_seq_def demo_submission_def unconfirmed_def getRequiredTier_def expires(2) answer_def
        goto_def plain_opctl_def)
qed

lemma submission_run_reachable: "opctl_reachable plain_opctl submission_run"
  unfolding submission_run_def
  by (intro submission_step)
    (simp_all add: submission_states, auto simp: submission_states(1) [symmetric] submitted_def
      intro: opctl_reachable.intros opctl_step.call)

theorem budget_pause_never_applies_witness:
  "pc_at submission_run 0 = Answered (Inr (refusal SbBlocked pause_env ''Confirmation proof required'' ''OPCTL-003'')) \<and>
   er_success (last (nf_enforcementLog (pause_submitted 200000003 ''p'' 5 1
     (Inr (refusal SbBlocked pause_env ''Confirmation proof required'' ''OPCTL-003'')) (demo_enforcement\<lparr>nf_actorSeq := 1\<rparr>))))"
proof -
  have ok: "opctl_deps_ok plain_opctl" by (simp add: opctl_deps_ok_def schema_parser_def plain_opctl_def)
  have run: "submission_run = idle_opctl\<lparr>oc_tasks := [\<lparr>tk_call = demo_submission,
      tk_pc = Answered (Inr (refusal SbBlocked pause_env ''Confirmation proof required'' ''OPCTL-003''))\<rparr>]\<rparr>"
    by (simp add: submission_run_def submission_states)
  have "triggerPause (\<lambda>t. t) demo_pause ''p'' 5 1 None demo_enforcement =
      (Some (tk_call (oc_tasks submission_run ! 0)), demo_enforcement\<lparr>nf_actorSeq := 1\<rparr>)"
    by (simp add: run triggerPause_def demo_submission_def) (simp add: demo_enforcement_def new_enforcement_def)
  note pause = budget_pause_never_applies [OF submission_run_reachable ok _ this]
  have len: "0 < length (oc_tasks submission_run)" by (simp add: run)
  have pc: "pc_at submission_run 0 = Answered (Inr (refusal SbBlocked pause_env ''Confirmation proof required'' ''OPCTL-003''))"
    by (simp add: run pc_at_def)
  from pause [OF len] pc show ?thesis by blast
qed

theorem correlation_root_is_chain_end_witness:
  "fst (resolveCorrelationRoot ''b'' (Some ''a'') [] (cg_costEvents spent_once)) = ''a''"
proof -
  obtain e where e: "cg_costEvents spent_once = [e]" "ct_correlationRunId e = ''b''" "ct_correlationParentId e = Some ''a''"
    by (simp add: spent_once_def handle_states(5) setBudgetPolicy_def new_cost_gov_def)
      (simp add: cost_event_of_def demo_payload_def Let_def split: prod.split)
  have "parent_run ''b'' [e] = Some ''a''" "parent_run ''a'' [e] = None"
    using e(2,3) by (simp_all add: parent_run_def event_of_run_def)
  then have "chain_end [e] ''b'' ''a''" by (blast intro: chain_end.intros)
  moreover have "event_of_run ''b'' [e] = Some e" using e(2) by (simp add: event_of_run_def)
  moreover have "cache_sound [e] []" by (simp add: cache_sound_def)
  ultimately show ?thesis using correlation_root_is_chain_end [of "[e]" "[]" "''b''" "''a''" e "Some ''a''"] e by simp
qed

theorem summary_cuts_model_witness:
  "cu_topModel (getCostSummary 0 ''p'' spent_once) = Some ''llama3'' \<and> model_key ''ollama:llama3:8b'' = ''llama3:8b''"
proof -
  have "fst (foldl costlier (None, 0) (pj_byProviderModel spent_project)) = Some (tierKey ''ollama'' (''llama3'' @ '':'' @ ''8b''))"
    by (simp add: spent_project_def costlier_def tierKey_def)
  from summary_cuts_model [OF spent_once_project this] show ?thesis by (simp add: tierKey_def)
qed

end
