(* ===== verification/Json_Text.thy ===== *)
theory Json_Text
  imports Json
begin

text \<open>
  \<open>JSON.stringify\<close> is injective: the text of a value determines it. Strings are quoted with
  escapes that can be read back, numbers end where their digits end, and the parts of arrays and
  objects are separated. Whoever compares hashes of texts rests on this.
\<close>

section \<open>Strings\<close>

lemma hex_digit_inj: "a < 16 \<Longrightarrow> b < 16 \<Longrightarrow> hex_digit a = hex_digit b \<Longrightarrow> a = b"
proof -
  have "distinct ''0123456789abcdef''" by simp
  moreover assume "a < 16" "b < 16" "hex_digit a = hex_digit b"
  ultimately show ?thesis by (simp add: hex_digit_def nth_eq_iff_index_eq)
qed

definition short_escape :: "nat \<Rightarrow> char option" where
  "short_escape n = map_of [(34, CHR 0x22), (92, CHR 0x5C), (8, CHR ''b''), (9, CHR ''t''), (10, CHR ''n''), (12, CHR ''f''), (13, CHR ''r'')] n"

lemma short_escape_inj: "short_escape n = Some e \<Longrightarrow> short_escape m = Some e \<Longrightarrow> n = m"
  by (auto simp: short_escape_def split: if_splits)

lemma short_escape_not_u: "short_escape n \<noteq> Some (CHR ''u'')"
  by (simp add: short_escape_def)

lemma escape_char_cases:
  "escape_char c = (case short_escape (of_char c) of Some e \<Rightarrow> [CHR 0x5C, e]
     | None \<Rightarrow> if of_char c < (32 :: nat) then CHR 0x5C # ''u00'' @ [hex_digit (of_char c div 16), hex_digit (of_char c)] else [c])"
  by (simp add: escape_char_def short_escape_def Let_def)

lemma of_char_eq: "of_char c = (of_char d :: nat) \<Longrightarrow> c = d"
  by simp

lemma plain_char: "short_escape (of_char c) = None \<Longrightarrow> c \<noteq> CHR 0x22 \<and> c \<noteq> CHR 0x5C"
  by (auto simp: short_escape_def)

lemma hex_digit_mod: "hex_digit n = hex_digit (n mod 16)"
  by (simp add: hex_digit_def)

lemma escape_char_prefix:
  assumes "escape_char c @ r = escape_char d @ r'"
  shows "c = d \<and> r = r'"
proof (cases "short_escape (of_char c)")
  case c: (Some e)
  show ?thesis
  proof (cases "short_escape (of_char d)")
    case (Some e')
    with c assms have "e = e'" "r = r'" by (simp_all add: escape_char_cases)
    with c Some short_escape_inj [of "of_char c" e "of_char d"] show ?thesis by simp
  next
    case None
    with c assms plain_char [of d] short_escape_not_u [of "of_char c"] show ?thesis
      by (auto simp: escape_char_cases split: if_splits)
  qed
next
  case c: None
  show ?thesis
  proof (cases "short_escape (of_char d)")
    case (Some e')
    with c assms plain_char [of c] short_escape_not_u [of "of_char d"] show ?thesis
      by (auto simp: escape_char_cases split: if_splits)
  next
    case d: None
    show ?thesis
    proof (cases "of_char c < (32 :: nat) \<and> of_char d < (32 :: nat)")
      case True
      with c d assms have h: "hex_digit (of_char c div 16) = hex_digit (of_char d div 16)"
        "hex_digit (of_char c) = hex_digit (of_char d)" and r: "r = r'" by (simp_all add: escape_char_cases)
      have "of_char c div 16 = (of_char d div 16 :: nat)"
        using True h(1) by (intro hex_digit_inj) auto
      moreover have "of_char c mod 16 = (of_char d mod 16 :: nat)"
        using h(2) by (intro hex_digit_inj) (auto simp: hex_digit_mod [of "of_char c"] hex_digit_mod [of "of_char d"])
      ultimately have "of_char c = (of_char d :: nat)" by (metis div_mult_mod_eq)
      with r show ?thesis by simp
    next
      case False
      with c d assms plain_char [of c] plain_char [of d] show ?thesis by (auto simp: escape_char_cases split: if_splits)
    qed
  qed
qed

lemma escape_char_start: "\<exists>x xs. escape_char c = x # xs \<and> x \<noteq> CHR 0x22"
  using plain_char [of c] by (auto simp: escape_char_cases split: option.split)

lemma quote_prefix: "quote s @ r = quote t @ r' \<Longrightarrow> s = t \<and> r = r'"
proof -
  have "concat (map escape_char s) @ CHR 0x22 # r = concat (map escape_char t) @ CHR 0x22 # r' \<Longrightarrow> s = t \<and> r = r'"
  proof (induction s arbitrary: t)
    case Nil
    then show ?case using escape_char_start [of "hd t"] by (cases t) auto
  next
    case (Cons c s)
    show ?case
    proof (cases t)
      case Nil
      with Cons.prems escape_char_start [of c] show ?thesis by auto
    next
      case (Cons d t')
      with Cons.prems have "escape_char c @ (concat (map escape_char s) @ CHR 0x22 # r)
          = escape_char d @ (concat (map escape_char t') @ CHR 0x22 # r')" by simp
      from escape_char_prefix [OF this] Cons.IH [of t'] Cons show ?thesis by simp
    qed
  qed
  then show "quote s @ r = quote t @ r' \<Longrightarrow> s = t \<and> r = r'" by (simp add: quote_def)
qed

section \<open>Numbers\<close>

definition digit_chars :: string where
  "digit_chars = ''0123456789''"

lemma show_nat_digits: "set (show_nat n) \<subseteq> set digit_chars"
proof (induction n rule: show_nat.induct)
  case (1 n)
  have "digit_chars ! (n mod 10) \<in> set digit_chars" "n < 10 \<Longrightarrow> digit_chars ! n \<in> set digit_chars"
    by (rule nth_mem, simp add: digit_chars_def)+
  then show ?case using 1 by (subst show_nat.simps) (auto simp: digit_chars_def)
qed

fun digit_value :: "char \<Rightarrow> nat" where
  "digit_value c = of_char c - 48"

lemma digit_value_nth: "n < 10 \<Longrightarrow> digit_value (''0123456789'' ! n) = n"
proof -
  assume "n < 10"
  then show ?thesis by (auto simp: less_Suc_eq eval_nat_numeral)
qed

definition read_nat :: "string \<Rightarrow> nat" where
  "read_nat s = foldl (\<lambda>n c. 10 * n + digit_value c) 0 s"

lemma read_show_nat: "read_nat (show_nat n) = n"
proof (induction n rule: show_nat.induct)
  case (1 n)
  have "digit_value (''0123456789'' ! (n mod 10)) = n mod 10" by (rule digit_value_nth) simp
  with 1 digit_value_nth [of n] show ?case
    by (subst show_nat.simps) (auto simp: read_nat_def simp del: digit_value.simps)
qed

definition stops :: "string \<Rightarrow> bool" where
  \<comment> \<open>what may follow a value\<close>
  "stops r \<longleftrightarrow> r = [] \<or> hd r \<in> {CHR '','', CHR '']'', CHR ''}''}"

lemma stops_simps [simp]: "stops []" "stops (c # r) \<longleftrightarrow> c \<in> {CHR '','', CHR '']'', CHR ''}''}"
  by (simp_all add: stops_def)

lemma show_nat_prefix:
  assumes "show_nat n @ r = show_nat m @ r'" and "stops r" and "stops r'"
  shows "n = m \<and> r = r'"
proof -
  have "takeWhile (\<lambda>c. c \<in> set digit_chars) (show_nat k @ s) = show_nat k" if "stops s" for k s
  proof -
    have "takeWhile (\<lambda>c. c \<in> set digit_chars) s = []" using that by (cases s) (auto simp: digit_chars_def)
    moreover have "\<forall>c \<in> set (show_nat k). c \<in> set digit_chars" using show_nat_digits [of k] by blast
    ultimately show ?thesis by simp
  qed
  from this [OF assms(2), of n] this [OF assms(3), of m] assms(1) have s: "show_nat n = show_nat m" by metis
  then have "n = m" by (metis read_show_nat)
  with s assms(1) show ?thesis by simp
qed

section \<open>Values\<close>

lemma stringify_start: "\<exists>c rest. stringify v = c # rest \<and> c \<noteq> CHR '']'' \<and> c \<noteq> CHR ''}'' \<and> c \<noteq> CHR '',''"
proof (cases v)
  case (JNum n)
  obtain c rest where c: "show_nat n = c # rest" by (cases "show_nat n") auto
  then have "c \<in> set digit_chars" using show_nat_digits [of n] by auto
  with c JNum show ?thesis by (auto simp: digit_chars_def)
qed (auto simp: quote_def)

lemma join_prefix:
  assumes item: "\<And>x y r r'. x \<in> set xs \<Longrightarrow> f x @ r = f y @ r' \<Longrightarrow> stops r \<Longrightarrow> stops r' \<Longrightarrow> x = y \<and> r = r'"
    and start: "\<And>y. \<exists>a rest. f y = a # rest \<and> a \<noteq> c" and c: "c = CHR '']'' \<or> c = CHR ''}''"
  shows "join '','' (map f xs) @ c # r = join '','' (map f ys) @ c # r' \<Longrightarrow> xs = ys \<and> r = r'"
  using item
proof (induction xs arbitrary: ys)
  case Nil
  then show ?case using start [of "hd ys"] by (cases ys; cases "tl ys") auto
next
  case (Cons x xs)
  have tails: "join '','' (map f (z # zs)) @ c # s = f z @ (if zs = [] then c # s else '','' @ join '','' (map f zs) @ c # s)" for z zs s
    by (cases zs) auto
  show ?case
  proof (cases ys)
    case Nil
    with Cons.prems(1) start [of x] show ?thesis by (cases xs) auto
  next
    case (Cons y zs)
    have eq: "f x @ (if xs = [] then c # r else '','' @ join '','' (map f xs) @ c # r)
        = f y @ (if zs = [] then c # r' else '','' @ join '','' (map f zs) @ c # r')"
      using Cons.prems(1) unfolding Cons tails .
    have "x = y \<and> (if xs = [] then c # r else '','' @ join '','' (map f xs) @ c # r)
        = (if zs = [] then c # r' else '','' @ join '','' (map f zs) @ c # r')"
      by (rule Cons.prems(2) [OF _ eq]) (use c in auto)
    moreover have "join '','' (map f xs) @ c # r = join '','' (map f zs) @ c # r' \<Longrightarrow> xs = zs \<and> r = r'"
      by (rule Cons.IH) (use Cons.prems(2) in auto)
    ultimately show ?thesis using c Cons by (auto split: if_splits)
  qed
qed

lemma stringify_prefix:
  "stringify v @ r = stringify w @ r' \<Longrightarrow> stops r \<Longrightarrow> stops r' \<Longrightarrow> v = w \<and> r = r'"
proof (induction v arbitrary: w r r')
  case (JNum n)
  obtain c rest where c: "show_nat n = c # rest" by (cases "show_nat n") auto
  have d: "c \<in> set digit_chars" using show_nat_digits [of n] c by auto
  show ?case
  proof (cases w)
    case (JNum m)
    with JNum.prems show_nat_prefix [of n r m r'] show ?thesis by simp
  qed (use JNum.prems c d in \<open>auto simp: digit_chars_def quote_def split: if_splits\<close>)
next
  case (JStr s)
  show ?case
  proof (cases w)
    case (JStr t)
    with JStr.prems quote_prefix [of s r t r'] show ?thesis by simp
  next
    case (JNum m)
    obtain c rest where c: "show_nat m = c # rest" by (cases "show_nat m") auto
    have "c \<in> set digit_chars" using show_nat_digits [of m] c by auto
    with JStr.prems c JNum show ?thesis by (auto simp: digit_chars_def quote_def)
  qed (use JStr.prems in \<open>auto simp: quote_def split: if_splits\<close>)
next
  case (JArr xs)
  show ?case
  proof (cases w)
    case (JArr ys)
    have "xs = ys \<and> r = r'"
    proof (rule join_prefix [of xs stringify "CHR '']''"])
      show "\<exists>a rest. stringify y = a # rest \<and> a \<noteq> CHR '']''" for y using stringify_start [of y] by auto
      show "join '','' (map stringify xs) @ CHR '']'' # r = join '','' (map stringify ys) @ CHR '']'' # r'"
        using JArr.prems(1) JArr by simp
    qed (use JArr.IH in auto)
    with JArr show ?thesis by simp
  next
    case (JNum m)
    obtain c rest where c: "show_nat m = c # rest" by (cases "show_nat m") auto
    have "c \<in> set digit_chars" using show_nat_digits [of m] c by auto
    with JArr.prems c JNum show ?thesis by (auto simp: digit_chars_def)
  qed (use JArr.prems in \<open>auto simp: quote_def split: if_splits\<close>)
next
  case (JObj kvs)
  show ?case
  proof (cases w)
    case (JObj kvs')
    let ?f = "\<lambda>kv. quote (fst kv) @ '':'' @ stringify (snd kv)"
    have "kvs = kvs' \<and> r = r'"
    proof (rule join_prefix [of kvs ?f "CHR ''}''"])
      show "\<exists>a rest. ?f y = a # rest \<and> a \<noteq> CHR ''}''" for y by (simp add: quote_def)
      show "join '','' (map ?f kvs) @ CHR ''}'' # r = join '','' (map ?f kvs') @ CHR ''}'' # r'"
        using JObj.prems(1) JObj by simp
      fix x y s s'
      assume x: "x \<in> set kvs" and eq: "?f x @ s = ?f y @ s'" and s: "stops s" "stops s'"
      have "quote (fst x) @ ('':'' @ stringify (snd x) @ s) = quote (fst y) @ ('':'' @ stringify (snd y) @ s')" using eq by simp
      from quote_prefix [OF this] have k: "fst x = fst y" "stringify (snd x) @ s = stringify (snd y) @ s'" by auto
      have "snd x \<in> Basic_BNFs.snds x" by (cases x) simp
      from JObj.IH [OF x this k(2) s] k(1) show "x = y \<and> s = s'" by (simp add: prod_eq_iff)
    qed simp
    with JObj show ?thesis by simp
  next
    case (JNum m)
    obtain c rest where c: "show_nat m = c # rest" by (cases "show_nat m") auto
    have "c \<in> set digit_chars" using show_nat_digits [of m] c by auto
    with JObj.prems c JNum show ?thesis by (auto simp: digit_chars_def)
  qed (use JObj.prems in \<open>auto simp: quote_def split: if_splits\<close>)
next
  case (JBool b)
  show ?case
  proof (cases w)
    case (JNum m)
    obtain c rest where c: "show_nat m = c # rest" by (cases "show_nat m") auto
    have "c \<in> set digit_chars" using show_nat_digits [of m] c by auto
    with JBool.prems c JNum show ?thesis by (auto simp: digit_chars_def split: if_splits)
  qed (use JBool.prems in \<open>auto simp: quote_def split: if_splits\<close>)
next
  case JNull
  show ?case
  proof (cases w)
    case (JNum m)
    obtain c rest where c: "show_nat m = c # rest" by (cases "show_nat m") auto
    have "c \<in> set digit_chars" using show_nat_digits [of m] c by auto
    with JNull.prems c JNum show ?thesis by (auto simp: digit_chars_def)
  qed (use JNull.prems in \<open>auto simp: quote_def split: if_splits\<close>)
qed

theorem stringify_inj: "stringify v = stringify w \<Longrightarrow> v = w"
  using stringify_prefix [of v "[]" w "[]"] by simp

end
