(* ===== verification/Document_Store.thy ===== *)
theory Document_Store
  imports Prelude
begin

text \<open>
  The document store behind the services (\<open>self/autonomic/storage/src/sqlite-document-store.ts\<close>): a
  collection is a table of documents by identifier, in the order of their first insertion. A
  document is written as JSON and read back as the same value, so a collection holds the values.
  An operation on a store of any kind is a function to a result and the store afterwards
  (\<open>bindS\<close>, \<open>returnS\<close>, \<open>throwS\<close>); an exception keeps what was written before it.
\<close>

section \<open>Operations that change a store and may throw\<close>

type_synonym ('s, 'a) op = "'s \<Rightarrow> 'a result \<times> 's"

definition returnS :: "'a \<Rightarrow> ('s, 'a) op" where
  "returnS x s = (Inr x, s)"

definition throwS :: "js_error \<Rightarrow> ('s, 'a) op" where
  "throwS e s = (Inl e, s)"

definition bindS :: "('s, 'a) op \<Rightarrow> ('a \<Rightarrow> ('s, 'b) op) \<Rightarrow> ('s, 'b) op" where
  "bindS m f s = (case m s of (Inl e, s') \<Rightarrow> (Inl e, s') | (Inr x, s') \<Rightarrow> f x s')"

definition liftR :: "'a result \<Rightarrow> ('s, 'a) op" where
  "liftR r s = (r, s)"

definition getsS :: "('s \<Rightarrow> 'a) \<Rightarrow> ('s, 'a) op" where
  "getsS f s = (Inr (f s), s)"

lemma op_simps [simp]:
  "returnS x s = (Inr x, s)"
  "throwS e s = (Inl e, s)"
  "liftR r s = (r, s)"
  "getsS f s = (Inr (f s), s)"
  by (simp_all add: returnS_def throwS_def liftR_def getsS_def)

lemma bindS_Inr: "m s = (Inr x, s') \<Longrightarrow> bindS m f s = f x s'"
  by (simp add: bindS_def)

lemma bindS_Inl: "m s = (Inl e, s') \<Longrightarrow> bindS m f s = (Inl e, s')"
  by (simp add: bindS_def)

lemma bindS_simps [simp]:
  "bindS (returnS x) f = f x"
  "bindS (throwS e) f = throwS e"
  "bindS (liftR (Inr x)) f = f x"
  "bindS (liftR (Inl e)) f = throwS e"
  "bindS (getsS g) f s = f (g s) s"
  by (auto simp: bindS_def)

lemma bindS_assoc: "bindS (bindS m f) g = bindS m (\<lambda>x. bindS (f x) g)"
  by (rule ext) (auto simp: bindS_def split: prod.split sum.split)

lemma bindS_InrE:
  assumes "bindS m f s = (Inr y, s')"
  obtains x t where "m s = (Inr x, t)" "f x t = (Inr y, s')"
  using assms by (auto simp: bindS_def split: prod.splits sum.splits)

lemma bindS_cases:
  obtains e t where "m s = (Inl e, t)" "bindS m f s = (Inl e, t)"
  | x t where "m s = (Inr x, t)" "bindS m f s = f x t"
proof (cases "m s")
  case (Pair r t)
  show thesis
  proof (cases r)
    case (Inl e)
    with Pair show thesis by (intro that(1) [of e t]) (simp_all add: bindS_def)
  next
    case (Inr x)
    with Pair show thesis by (intro that(2) [of x t]) (simp_all add: bindS_def)
  qed
qed

text \<open>An operation keeps a property when it does so whether it returns or throws.\<close>

definition keeps :: "('s \<Rightarrow> bool) \<Rightarrow> ('s, 'a) op \<Rightarrow> bool" where
  "keeps P m \<longleftrightarrow> (\<forall>s. P s \<longrightarrow> P (snd (m s)))"

named_theorems keeps_intros \<open>operations that keep a property\<close>

lemma keeps_bindS [keeps_intros]: "keeps P m \<Longrightarrow> (\<And>x. keeps P (f x)) \<Longrightarrow> keeps P (bindS m f)"
  unfolding keeps_def bindS_def by (auto split: prod.split sum.split) (metis snd_conv)?

lemma keeps_basic [keeps_intros]:
  "keeps P (returnS x)" "keeps P (throwS e)" "keeps P (liftR r)" "keeps P (getsS f)"
  by (simp_all add: keeps_def)

section \<open>Collections\<close>

text \<open>What a client relies on.\<close>

locale document_collection =
  fixes put :: "string \<Rightarrow> 'd \<Rightarrow> 'c \<Rightarrow> 'c" and get :: "string \<Rightarrow> 'c \<Rightarrow> 'd option" and docs :: "'c \<Rightarrow> 'd list"
    and ok :: "'c \<Rightarrow> bool"
  assumes get_put: "ok c \<Longrightarrow> get k (put i d c) = (if k = i then Some d else get k c)"
    and ok_put: "ok c \<Longrightarrow> ok (put i d c)"
    and docs_new: "ok c \<Longrightarrow> get i c = None \<Longrightarrow> docs (put i d c) = docs c @ [d]"
    and docs_get: "ok c \<Longrightarrow> d \<in> set (docs c) \<longleftrightarrow> (\<exists>k. get k c = Some d)"
begin

lemma docs_put_new: "ok c \<Longrightarrow> get i c = None \<Longrightarrow> set (docs (put i d c)) = insert d (set (docs c))"
  by (simp add: docs_new)

text \<open>A new document whose key is above all others comes last in the ascending order.\<close>

lemma sorted_append:
  assumes "ok c" and "get i c = None" and "\<And>x y. cmp x y = key x - (key y :: int)"
    and "\<And>x. x \<in> set (docs c) \<Longrightarrow> key x < key d"
  shows "js_sort cmp (docs (put i d c)) = js_sort cmp (docs c) @ [d]"
proof -
  have "js_sort cmp (xs @ [d]) = js_sort cmp xs @ [d]" if "\<And>x. x \<in> set xs \<Longrightarrow> key x < key d" for xs
    using that
  proof (induction xs)
    case Nil
    then show ?case by simp
  next
    case (Cons x xs)
    have "js_insert cmp x (ys @ [d]) = js_insert cmp x ys @ [d]" for ys
      using Cons.prems [of x] by (induction ys) (simp_all add: assms(3))
    with Cons show ?case by simp
  qed
  from this [of "docs c"] assms(4) show ?thesis by (simp add: docs_new [OF assms(1,2)])
qed

end

definition doc_put :: "string \<Rightarrow> 'd \<Rightarrow> (string \<times> 'd) list \<Rightarrow> (string \<times> 'd) list" where
  "doc_put i d c = obj_set i d c"

definition doc_get :: "string \<Rightarrow> (string \<times> 'd) list \<Rightarrow> 'd option" where
  "doc_get i c = obj_get i c"

definition doc_delete :: "string \<Rightarrow> (string \<times> 'd) list \<Rightarrow> bool \<times> (string \<times> 'd) list" where
  "doc_delete i c = (obj_get i c \<noteq> None, obj_delete i c)"

definition doc_query :: "('d \<Rightarrow> bool) \<Rightarrow> ('d \<Rightarrow> 'd \<Rightarrow> int) \<Rightarrow> nat option \<Rightarrow> (string \<times> 'd) list \<Rightarrow> 'd list" where
  \<comment> \<open>\<open>where\<close>, \<open>orderBy\<close> as a comparison, \<open>limit\<close>\<close>
  "doc_query cond cmp limit c =
     (let rows = js_sort cmp (filter cond (obj_values c)) in case limit of None \<Rightarrow> rows | Some n \<Rightarrow> take n rows)"

interpretation documents: document_collection doc_put doc_get obj_values "\<lambda>c :: (string \<times> 'd) list. distinct (obj_keys c)"
proof
  fix c :: "(string \<times> 'd) list" and k i d
  assume ok: "distinct (obj_keys c)"
  show "doc_get k (doc_put i d c) = (if k = i then Some d else doc_get k c)" by (simp add: doc_get_def doc_put_def)
  show "distinct (obj_keys (doc_put i d c))" using ok by (simp add: doc_put_def distinct_keys_obj_set)
  show "d \<in> set (obj_values c) \<longleftrightarrow> (\<exists>k. doc_get k c = Some d)"
    unfolding doc_get_def using in_values_obj_get [OF ok, of d] obj_get_in_values [of _ c d] by blast
next
  fix c :: "(string \<times> 'd) list" and i d
  assume "distinct (obj_keys c)" "doc_get i c = None"
  then have "doc_put i d c = c @ [(i, d)]" by (simp add: doc_get_def doc_put_def obj_get_None_iff length_obj_set_fresh)
  then show "obj_values (doc_put i d c) = obj_values c @ [d]" by (simp add: obj_values_def)
qed

end
