(* ===== verification/Witness.thy ===== *)
theory Witness
  imports Json_Text Js_Text Document_Store Workflow_Types
begin

text \<open>
  The witness ledger (\<open>self/subcortex/witnessd/src\<close>, types in \<open>shared/src/types/evidence.ts\<close>):
  canonical hashing, the hash-chained ledger of events, signed checkpoints with key epochs, the
  mapping of invariant codes and the verifier. SHA-256, the Ed25519 key pairs and signatures, the
  schema parsers and the writes of the store that fail are parameters. The operations that change
  the ledger run one after the other (\<open>runExclusive\<close>); a verification does not wait for them and
  reads the store at three moments.
\<close>

section \<open>Types\<close>

datatype inv_severity = S0 | S1 | S2

datatype enforcement_action = EnforceHardStop | EnforceAutoPause | EnforceReview

datatype witness_stage = StAuthorization | StCompletion | StInvariant

datatype witness_actor =
    WaCore | WaPfc | WaSubcortex | WaApp | WaPrincipal | WaSystem | WaOrchestrationAgent | WaWorkerAgent

datatype witness_status = WsApproved | WsDenied | WsSucceeded | WsFailed | WsBlocked

datatype checkpoint_reason = ReasonInterval | ReasonManual | ReasonRotation

datatype verification_status = VsPass | VsReview | VsFail

fun severity_text :: "inv_severity \<Rightarrow> string" where
  "severity_text S0 = ''S0''" | "severity_text S1 = ''S1''" | "severity_text S2 = ''S2''"

fun enforcement_text :: "enforcement_action \<Rightarrow> string" where
  "enforcement_text EnforceHardStop = ''hard-stop''"
| "enforcement_text EnforceAutoPause = ''auto-pause''"
| "enforcement_text EnforceReview = ''review''"

fun stage_text :: "witness_stage \<Rightarrow> string" where
  "stage_text StAuthorization = ''authorization''"
| "stage_text StCompletion = ''completion''"
| "stage_text StInvariant = ''invariant''"

fun witness_actor_text :: "witness_actor \<Rightarrow> string" where
  "witness_actor_text WaCore = ''core''" | "witness_actor_text WaPfc = ''pfc''"
| "witness_actor_text WaSubcortex = ''subcortex''" | "witness_actor_text WaApp = ''app''"
| "witness_actor_text WaPrincipal = ''principal''" | "witness_actor_text WaSystem = ''system''"
| "witness_actor_text WaOrchestrationAgent = ''orchestration_agent''"
| "witness_actor_text WaWorkerAgent = ''worker_agent''"

fun witness_status_text :: "witness_status \<Rightarrow> string" where
  "witness_status_text WsApproved = ''approved''" | "witness_status_text WsDenied = ''denied''"
| "witness_status_text WsSucceeded = ''succeeded''" | "witness_status_text WsFailed = ''failed''"
| "witness_status_text WsBlocked = ''blocked''"

fun reason_text :: "checkpoint_reason \<Rightarrow> string" where
  "reason_text ReasonInterval = ''interval''" | "reason_text ReasonManual = ''manual''"
| "reason_text ReasonRotation = ''rotation''"

fun verification_status_text :: "verification_status \<Rightarrow> string" where
  "verification_status_text VsPass = ''pass''" | "verification_status_text VsReview = ''review''"
| "verification_status_text VsFail = ''fail''"

record append_input =
  ai_stage :: witness_stage
  ai_actionCategory :: action_category
  ai_actionRef :: string
  ai_authorizationRef :: "string option"
  ai_traceId :: "string option"
  ai_projectId :: "string option"
  ai_actor :: witness_actor
  ai_status :: witness_status
  ai_invariantCode :: "string option"
  ai_detail :: "(string \<times> json) list"
  ai_occurredAt :: string

record witness_event =
  we_id :: string
  we_sequence :: nat
  we_previousEventHash :: "string option"
  we_payloadHash :: string
  we_eventHash :: string
  we_content :: append_input \<comment> \<open>the fields from \<open>stage\<close> to \<open>occurredAt\<close>\<close>
  we_recordedAt :: string

record ledger_head =
  lh_lastSequence :: nat
  lh_lastEventHash :: "string option"
  lh_lastCheckpointSequence :: nat
  lh_lastCheckpointHash :: "string option"
  lh_activeKeyEpoch :: nat
  lh_updatedAt :: string

record checkpoint_body =
  cb_checkpointSequence :: nat
  cb_startEventSequence :: nat
  cb_endEventSequence :: nat
  cb_previousCheckpointHash :: "string option"
  cb_ledgerHeadHash :: string
  cb_keyEpoch :: nat
  cb_reason :: checkpoint_reason

record witness_checkpoint =
  wc_id :: string
  wc_body :: checkpoint_body
  wc_checkpointHash :: string
  wc_signature :: string
  wc_createdAt :: string

record key_epoch =
  ke_keyEpoch :: nat
  ke_publicKeyPem :: string
  ke_privateKeyPem :: string
  ke_createdAt :: string
  ke_activatedAt :: string

record inv_finding =
  nd_code :: string
  nd_severity :: inv_severity
  nd_enforcement :: enforcement_action
  nd_description :: string
  nd_evidenceEventIds :: "string list"
  nd_detectedAt :: string

record attestation_receipt =
  at_id :: string
  at_subjectHash :: string
  at_keyEpoch :: nat
  at_signature :: string
  at_verified :: bool
  at_issuedAt :: string

record report_body =
  rb_id :: string
  rb_generatedAt :: string
  rb_fromSequence :: nat
  rb_toSequence :: nat
  rb_eventCount :: nat
  rb_headEventHash :: "string option"
  rb_sequenceContiguous :: bool
  rb_hashChainValid :: bool
  rb_checkpointCount :: nat
  rb_headCheckpointHash :: "string option"
  rb_checkpointChainValid :: bool
  rb_signaturesValid :: bool
  rb_findings :: "inv_finding list"
  rb_bySeverity :: "nat \<times> nat \<times> nat"
  rb_status :: verification_status

record verification_report =
  vr_body :: report_body
  vr_receipt :: attestation_receipt

section \<open>Serialization\<close>

definition entry_cmp :: "string \<times> json \<Rightarrow> string \<times> json \<Rightarrow> int" where
  "entry_cmp a b = localeCompare (fst a) (fst b)"

fun canonical :: "json \<Rightarrow> json" where
  \<comment> \<open>\<open>normalize\<close>; keys are not array indices, which an object would put first\<close>
  "canonical (JArr xs) = JArr (map canonical xs)"
| "canonical (JObj kvs) = JObj (js_sort entry_cmp (map (\<lambda>kv. (fst kv, canonical (snd kv))) kvs))"
| "canonical v = v"

definition stableStringify :: "json \<Rightarrow> string" where
  "stableStringify v = stringify (canonical v)"

definition hashCanonical :: "(string \<Rightarrow> string) \<Rightarrow> json \<Rightarrow> string" where
  "hashCanonical sha256 v = sha256 (stableStringify v)"

interpretation entry_cmp: js_comparator entry_cmp
  by (rule js_comparator_by_key [of _ "\<lambda>x. collation_key (fst x)"]) (simp add: entry_cmp_def localeCompare_le)

section \<open>Invariant codes\<close>

definition BASE_POLICY :: "(string \<times> inv_severity \<times> enforcement_action) list" where
  "BASE_POLICY =
     [(''AUTH'', S0, EnforceHardStop), (''CHAIN'', S0, EnforceHardStop), (''ISO'', S0, EnforceHardStop),
      (''OPCTL'', S0, EnforceHardStop), (''START'', S0, EnforceHardStop), (''ESC'', S0, EnforceHardStop),
      (''MAO'', S0, EnforceHardStop), (''GTM'', S0, EnforceHardStop), (''POL'', S2, EnforceReview),
      (''WMODE'', S0, EnforceHardStop), (''PCP'', S0, EnforceHardStop), (''ING'', S0, EnforceHardStop),
      (''FR'', S0, EnforceHardStop), (''EVID'', S1, EnforceAutoPause), (''MEM'', S2, EnforceReview),
      (''PRV'', S1, EnforceAutoPause)]"

definition code_char :: "char \<Rightarrow> bool" where
  "code_char c \<longleftrightarrow> c \<in> set ''ABCDEFGHIJKLMNOPQRSTUVWXYZ0123456789''"

definition valid_code :: "string \<Rightarrow> bool" where
  \<comment> \<open>the regular expression of \<open>InvariantCodeSchema\<close>\<close>
  "valid_code code =
     (case split_at (CHR ''-'') code of
        prefix # first # rest \<Rightarrow>
          prefix \<in> fst ` set BASE_POLICY \<and> first \<noteq> [] \<and> list_all (list_all code_char) (first # rest)
      | _ \<Rightarrow> False)"

definition getInvariantPrefix :: "string \<Rightarrow> string" where
  "getInvariantPrefix code = hd (split_at (CHR ''-'') code)"

definition decision :: "string \<Rightarrow> inv_severity \<Rightarrow> enforcement_action \<Rightarrow> (inv_severity \<times> enforcement_action) result" where
  \<comment> \<open>\<open>InvariantEnforcementDecisionSchema.parse\<close>\<close>
  "decision code s e = (if valid_code code then Inr (s, e) else Inl ZodError)"

definition mapInvariantToEnforcement :: "string \<Rightarrow> (inv_severity \<times> enforcement_action) result" where
  "mapInvariantToEnforcement code =
     (let prefix = getInvariantPrefix code in
      if prefix = ''MEM'' \<and> text_includes ''AUTHORITY'' code then decision code S1 EnforceAutoPause
      else if prefix = ''EVID'' \<and> text_includes ''INTEGRITY'' code then decision code S0 EnforceHardStop
      else if prefix = ''ING'' \<and> list_ex (\<lambda>p. startsWith p code) [''ING-002'', ''ING-003'', ''ING-004'']
      then decision code S1 EnforceAutoPause
      else if prefix = ''ING'' \<and> startsWith ''ING-005'' code then decision code S2 EnforceReview
      else if prefix = ''FR'' \<and> list_ex (\<lambda>p. startsWith p code) [''FR-003'', ''FR-005'', ''FR-006'', ''FR-007'', ''FR-008'', ''FR-009'']
      then decision code S1 EnforceAutoPause
      else (case obj_get prefix BASE_POLICY of None \<Rightarrow> Inl TypeError | Some (s, e) \<Rightarrow> decision code s e))"

definition createInvariantFinding :: "string \<Rightarrow> string \<Rightarrow> string list \<Rightarrow> string \<Rightarrow> inv_finding result" where
  "createInvariantFinding code description evidenceEventIds detectedAt =
     bindR (mapInvariantToEnforcement code) (\<lambda>(s, e). Inr
       \<lparr>nd_code = code, nd_severity = s, nd_enforcement = e, nd_description = description,
        nd_evidenceEventIds = evidenceEventIds, nd_detectedAt = detectedAt\<rparr>)"

section \<open>The ledger\<close>

record witness_input =
  wn_actionCategory :: action_category
  wn_actionRef :: string
  wn_traceId :: "string option"
  wn_projectId :: "string option"
  wn_actor :: witness_actor
  wn_status :: witness_status \<comment> \<open>not part of the input of an invariant\<close>
  wn_detail :: "(string \<times> json) list"
  wn_occurredAt :: "string option"

record witness_deps =
  wd_sha256 :: "string \<Rightarrow> string"
  wd_sign :: "string \<Rightarrow> string \<Rightarrow> string" \<comment> \<open>digest and private key\<close>
  wd_verify :: "string \<Rightarrow> string \<Rightarrow> string \<Rightarrow> bool" \<comment> \<open>digest, signature and public key\<close>
  wd_parseInput :: "witness_input \<Rightarrow> witness_input result"
  wd_parseHead :: "ledger_head \<Rightarrow> ledger_head result"
  wd_parseEvent :: "witness_event \<Rightarrow> witness_event result"
  wd_parseCheckpoint :: "witness_checkpoint \<Rightarrow> witness_checkpoint result"
  wd_parseKey :: "key_epoch \<Rightarrow> key_epoch result"
  wd_parseReport :: "verification_report \<Rightarrow> verification_report result"
  wd_checkpointInterval :: nat
  wd_fails :: "nat \<Rightarrow> bool" \<comment> \<open>the writes that throw, counted over the life of the store\<close>

record witness_store =
  ws_events :: "(string \<times> witness_event) list"
  ws_checkpoints :: "(string \<times> witness_checkpoint) list"
  ws_head :: "(string \<times> ledger_head) list"
  ws_keys :: "(string \<times> key_epoch) list"
  ws_reports :: "(string \<times> verification_report) list"
  ws_writes :: nat

definition write_doc :: "witness_deps \<Rightarrow> (witness_store \<Rightarrow> witness_store) \<Rightarrow> (witness_store, unit) op" where
  \<comment> \<open>\<open>documentStore.put\<close>\<close>
  "write_doc deps f s =
     (if wd_fails deps (ws_writes s) then (Inl (JsError ''document store''), s\<lparr>ws_writes := ws_writes s + 1\<rparr>)
      else (Inr (), (f s)\<lparr>ws_writes := ws_writes s + 1\<rparr>))"

definition put_event :: "witness_event \<Rightarrow> witness_store \<Rightarrow> witness_store" where
  "put_event e s = s\<lparr>ws_events := doc_put (we_id e) e (ws_events s)\<rparr>"

definition put_checkpoint :: "witness_checkpoint \<Rightarrow> witness_store \<Rightarrow> witness_store" where
  "put_checkpoint c s = s\<lparr>ws_checkpoints := doc_put (wc_id c) c (ws_checkpoints s)\<rparr>"

definition put_head :: "ledger_head \<Rightarrow> witness_store \<Rightarrow> witness_store" where
  "put_head h s = s\<lparr>ws_head := doc_put ''head'' h (ws_head s)\<rparr>"

definition put_key :: "key_epoch \<Rightarrow> witness_store \<Rightarrow> witness_store" where
  "put_key k s = s\<lparr>ws_keys := doc_put (show_nat (ke_keyEpoch k)) k (ws_keys s)\<rparr>"

definition put_report :: "verification_report \<Rightarrow> witness_store \<Rightarrow> witness_store" where
  "put_report r s = s\<lparr>ws_reports := doc_put (rb_id (vr_body r)) r (ws_reports s)\<rparr>"

definition safe_parse :: "('a \<Rightarrow> 'a result) \<Rightarrow> 'a \<Rightarrow> 'a option" where
  "safe_parse parse x = (case parse x of Inl e \<Rightarrow> None | Inr y \<Rightarrow> Some y)"

definition buildEventPayload :: "append_input \<Rightarrow> json" where
  "buildEventPayload a = JObj
     (str_field ''stage'' (stage_text (ai_stage a)) @ str_field ''actionCategory'' (action_category_text (ai_actionCategory a))
      @ str_field ''actionRef'' (ai_actionRef a) @ opt_field ''authorizationRef'' JStr (ai_authorizationRef a)
      @ opt_field ''traceId'' JStr (ai_traceId a) @ opt_field ''projectId'' JStr (ai_projectId a)
      @ str_field ''actor'' (witness_actor_text (ai_actor a)) @ str_field ''status'' (witness_status_text (ai_status a))
      @ opt_field ''invariantCode'' JStr (ai_invariantCode a) @ [(''detail'', JObj (ai_detail a))]
      @ str_field ''occurredAt'' (ai_occurredAt a))"

definition nullable :: "string option \<Rightarrow> json" where
  "nullable x = (case x of None \<Rightarrow> JNull | Some t \<Rightarrow> JStr t)"

definition payload_hash :: "witness_deps \<Rightarrow> append_input \<Rightarrow> string" where
  "payload_hash deps a = hashCanonical (wd_sha256 deps) (buildEventPayload a)"

definition event_hash :: "witness_deps \<Rightarrow> nat \<Rightarrow> string option \<Rightarrow> string \<Rightarrow> string" where
  "event_hash deps n prev payloadHash = hashCanonical (wd_sha256 deps) (JObj
     [(''sequence'', JNum n), (''previousEventHash'', nullable prev), (''payloadHash'', JStr payloadHash)])"

definition empty_head :: "string \<Rightarrow> ledger_head" where
  "empty_head now = \<lparr>lh_lastSequence = 0, lh_lastEventHash = None, lh_lastCheckpointSequence = 0,
     lh_lastCheckpointHash = None, lh_activeKeyEpoch = 1, lh_updatedAt = now\<rparr>"

definition saveLedgerHead :: "witness_deps \<Rightarrow> ledger_head \<Rightarrow> (witness_store, unit) op" where
  "saveLedgerHead deps h = write_doc deps (put_head h)"

definition getLedgerHead :: "witness_deps \<Rightarrow> string \<Rightarrow> (witness_store, ledger_head) op" where
  "getLedgerHead deps now = bindS (getsS (\<lambda>s. doc_get ''head'' (ws_head s))) (\<lambda>raw.
     case Option.bind raw (safe_parse (wd_parseHead deps)) of
       Some h \<Rightarrow> returnS h
     | None \<Rightarrow>
         bindS (liftR (wd_parseHead deps (empty_head now))) (\<lambda>h.
         bindS (saveLedgerHead deps h) (\<lambda>_. returnS h)))"

definition built_event :: "witness_deps \<Rightarrow> ledger_head \<Rightarrow> string \<Rightarrow> append_input \<Rightarrow> string \<Rightarrow> witness_event" where
  "built_event deps head eventId a recordedAt =
     \<lparr>we_id = eventId, we_sequence = lh_lastSequence head + 1, we_previousEventHash = lh_lastEventHash head,
      we_payloadHash = payload_hash deps a,
      we_eventHash = event_hash deps (lh_lastSequence head + 1) (lh_lastEventHash head) (payload_hash deps a),
      we_content = a, we_recordedAt = recordedAt\<rparr>"

definition appendLedgerEvent ::
  "witness_deps \<Rightarrow> ledger_head \<Rightarrow> string \<Rightarrow> append_input \<Rightarrow> string \<Rightarrow> (witness_store, witness_event \<times> ledger_head) op" where
  "appendLedgerEvent deps head eventId a recordedAt =
     bindS (liftR (wd_parseEvent deps (built_event deps head eventId a recordedAt))) (\<lambda>event.
     bindS (write_doc deps (put_event event)) (\<lambda>_.
     bindS (liftR (wd_parseHead deps (head\<lparr>lh_lastSequence := we_sequence event, lh_lastEventHash := Some (we_eventHash event),
       lh_updatedAt := recordedAt\<rparr>))) (\<lambda>nextHead.
     bindS (saveLedgerHead deps nextHead) (\<lambda>_. returnS (event, nextHead)))))"

definition getEventById :: "witness_deps \<Rightarrow> string \<Rightarrow> (witness_store, witness_event option) op" where
  "getEventById deps i = getsS (\<lambda>s. Option.bind (doc_get i (ws_events s)) (safe_parse (wd_parseEvent deps)))"

definition by_sequence :: "witness_event \<Rightarrow> witness_event \<Rightarrow> int" where
  "by_sequence a b = int (we_sequence a) - int (we_sequence b)"

definition listEvents :: "witness_deps \<Rightarrow> witness_store \<Rightarrow> witness_event list" where
  "listEvents deps s = List.map_filter (safe_parse (wd_parseEvent deps)) (doc_query (\<lambda>e. True) by_sequence None (ws_events s))"

abbreviation wc_sequence :: "witness_checkpoint \<Rightarrow> nat" where
  "wc_sequence c \<equiv> cb_checkpointSequence (wc_body c)"

definition by_checkpoint :: "witness_checkpoint \<Rightarrow> witness_checkpoint \<Rightarrow> int" where
  "by_checkpoint a b = int (wc_sequence a) - int (wc_sequence b)"

definition listCheckpoints :: "witness_deps \<Rightarrow> witness_store \<Rightarrow> witness_checkpoint list" where
  "listCheckpoints deps s =
     List.map_filter (safe_parse (wd_parseCheckpoint deps)) (doc_query (\<lambda>c. True) by_checkpoint None (ws_checkpoints s))"

definition getLatestCheckpoint :: "witness_deps \<Rightarrow> witness_store \<Rightarrow> witness_checkpoint option" where
  "getLatestCheckpoint deps s =
     (case doc_query (\<lambda>c. True) (\<lambda>a b. by_checkpoint b a) (Some 1) (ws_checkpoints s) of
        [] \<Rightarrow> None
      | c # _ \<Rightarrow> safe_parse (wd_parseCheckpoint deps) c)"

definition saveCheckpoint :: "witness_deps \<Rightarrow> witness_checkpoint \<Rightarrow> ledger_head \<Rightarrow> (witness_store, unit) op" where
  "saveCheckpoint deps c nextHead =
     bindS (liftR (wd_parseCheckpoint deps c)) (\<lambda>c'. bindS (write_doc deps (put_checkpoint c')) (\<lambda>_. saveLedgerHead deps nextHead))"

definition buildCheckpointHash :: "witness_deps \<Rightarrow> checkpoint_body \<Rightarrow> string" where
  "buildCheckpointHash deps b = hashCanonical (wd_sha256 deps) (JObj
     [(''checkpointSequence'', JNum (cb_checkpointSequence b)), (''startEventSequence'', JNum (cb_startEventSequence b)),
      (''endEventSequence'', JNum (cb_endEventSequence b)), (''previousCheckpointHash'', nullable (cb_previousCheckpointHash b)),
      (''ledgerHeadHash'', JStr (cb_ledgerHeadHash b)), (''keyEpoch'', JNum (cb_keyEpoch b)),
      (''reason'', JStr (reason_text (cb_reason b)))])"

section \<open>Key epochs\<close>

definition getKeyEpoch :: "witness_deps \<Rightarrow> nat \<Rightarrow> witness_store \<Rightarrow> key_epoch option" where
  "getKeyEpoch deps n s = Option.bind (doc_get (show_nat n) (ws_keys s)) (safe_parse (wd_parseKey deps))"

definition ensureKeyEpoch :: "witness_deps \<Rightarrow> string \<times> string \<Rightarrow> nat \<Rightarrow> string \<Rightarrow> (witness_store, key_epoch) op" where
  \<comment> \<open>with the key pair it generates when there is none\<close>
  "ensureKeyEpoch deps keyPair n now = bindS (getsS (getKeyEpoch deps n)) (\<lambda>existing.
     case existing of
       Some k \<Rightarrow> returnS k
     | None \<Rightarrow>
         bindS (liftR (wd_parseKey deps \<lparr>ke_keyEpoch = n, ke_publicKeyPem = fst keyPair, ke_privateKeyPem = snd keyPair,
           ke_createdAt = now, ke_activatedAt = now\<rparr>)) (\<lambda>k.
         bindS (write_doc deps (put_key k)) (\<lambda>_. returnS k)))"

end
