(* ===== verification/Witness_Service.thy ===== *)
theory Witness_Service
  imports Witness
begin

text \<open>
  \<open>verifier.ts\<close> and \<open>witness-service.ts\<close>: checking a ledger and its checkpoints, and the operations
  of \<open>WitnessService\<close>. Each read of the clock and each identifier is an input.
\<close>

section \<open>The verifier\<close>

definition filterEventsByRange :: "witness_event list \<Rightarrow> nat \<Rightarrow> nat \<Rightarrow> witness_event list" where
  "filterEventsByRange evs a b = filter (\<lambda>e. a \<le> we_sequence e \<and> we_sequence e \<le> b) evs"

definition filterCheckpointsByRange :: "witness_checkpoint list \<Rightarrow> nat \<Rightarrow> nat \<Rightarrow> witness_checkpoint list" where
  "filterCheckpointsByRange cps a b =
     filter (\<lambda>c. a \<le> cb_endEventSequence (wc_body c) \<and> cb_startEventSequence (wc_body c) \<le> b) cps"

fun findings_of :: "string \<Rightarrow> (string \<times> string \<times> string list) list \<Rightarrow> inv_finding list result" where
  \<comment> \<open>code, description and evidence of each problem\<close>
  "findings_of now [] = Inr []"
| "findings_of now ((code, description, ids) # ps) =
     bindR (createInvariantFinding code description ids now) (\<lambda>f. bindR (findings_of now ps) (\<lambda>fs. Inr (f # fs)))"

definition sequence_gap :: "witness_event option \<Rightarrow> witness_event \<Rightarrow> bool" where
  "sequence_gap prev e \<longleftrightarrow> (case prev of None \<Rightarrow> False | Some p \<Rightarrow> we_sequence e \<noteq> we_sequence p + 1)"

definition hash_problems :: "witness_deps \<Rightarrow> witness_event option \<Rightarrow> witness_event \<Rightarrow> (string \<times> string \<times> string list) list" where
  "hash_problems deps prev e =
     (if payload_hash deps (we_content e) = we_payloadHash e then []
      else [(''CHAIN-PAYLOAD-HASH-MISMATCH'', ''payload hash mismatch at event '' @ we_id e, [we_id e])])
     @ (if we_previousEventHash e = map_option we_eventHash prev then []
        else [(''CHAIN-PREVIOUS-HASH-MISMATCH'', ''previous hash mismatch at event '' @ we_id e, [we_id e])])
     @ (if event_hash deps (we_sequence e) (we_previousEventHash e) (we_payloadHash e) = we_eventHash e then []
        else [(''CHAIN-EVENT-HASH-MISMATCH'', ''event hash mismatch at event '' @ we_id e, [we_id e])])"

fun event_loop :: "witness_deps \<Rightarrow> string \<Rightarrow> witness_event option \<Rightarrow> witness_event list \<Rightarrow> (bool \<times> bool \<times> inv_finding list) result" where
  "event_loop deps now prev [] = Inr (True, True, [])"
| "event_loop deps now prev (e # es) =
     (let gap = (if sequence_gap prev e then [(''CHAIN-SEQUENCE-GAP'', ''sequence gap at event '' @ we_id e, [we_id e])] else []);
          hashes = hash_problems deps prev e
      in bindR (findings_of now (gap @ hashes)) (\<lambda>fs.
         bindR (event_loop deps now (Some e) es) (\<lambda>(contiguous, valid, fs').
         Inr (gap = [] \<and> contiguous, hashes = [] \<and> valid, fs @ fs'))))"

definition verifyEventChain :: "witness_deps \<Rightarrow> witness_event list \<Rightarrow> string \<Rightarrow> (bool \<times> bool \<times> inv_finding list) result" where
  "verifyEventChain deps evs now = event_loop deps now None evs"

definition event_with_sequence :: "witness_event list \<Rightarrow> nat \<Rightarrow> witness_event option" where
  "event_with_sequence evs n = obj_get n (from_entries [] (map (\<lambda>e. (we_sequence e, e)) evs))"

definition checkpoint_problems ::
  "witness_deps \<Rightarrow> witness_event list \<Rightarrow> witness_checkpoint option \<Rightarrow> witness_checkpoint \<Rightarrow> (string \<times> string \<times> string list) list" where
  "checkpoint_problems deps evs prev c =
     (case prev of
        Some p \<Rightarrow> if wc_sequence c \<noteq> wc_sequence p + 1
          then [(''CHAIN-CHECKPOINT-SEQUENCE-GAP'', ''checkpoint sequence gap at '' @ wc_id c, [])] else []
      | None \<Rightarrow> [])
     @ (if map_option wc_checkpointHash prev = cb_previousCheckpointHash (wc_body c) then []
        else [(''CHAIN-CHECKPOINT-LINK-BROKEN'', ''checkpoint link mismatch at '' @ wc_id c, [])])
     @ (if buildCheckpointHash deps (wc_body c) = wc_checkpointHash c then []
        else [(''CHAIN-CHECKPOINT-HASH-MISMATCH'', ''checkpoint hash mismatch at '' @ wc_id c, [])])
     @ (case event_with_sequence evs (cb_endEventSequence (wc_body c)) of
          None \<Rightarrow> [(''CHAIN-CHECKPOINT-LEDGER-HEAD-MISMATCH'', ''checkpoint ledger head mismatch at '' @ wc_id c, [])]
        | Some e \<Rightarrow>
            if we_eventHash e = cb_ledgerHeadHash (wc_body c) then []
            else [(''CHAIN-CHECKPOINT-LEDGER-HEAD-MISMATCH'', ''checkpoint ledger head mismatch at '' @ wc_id c, [we_id e])])"

fun checkpoint_loop ::
  "witness_deps \<Rightarrow> (witness_checkpoint \<Rightarrow> bool) \<Rightarrow> witness_event list \<Rightarrow> string \<Rightarrow> witness_checkpoint option \<Rightarrow> witness_checkpoint list
    \<Rightarrow> (bool \<times> bool \<times> inv_finding list) result" where
  "checkpoint_loop deps signed evs now prev [] = Inr (True, True, [])"
| "checkpoint_loop deps signed evs now prev (c # cs) =
     (let problems = checkpoint_problems deps evs prev c;
          unsigned = (if signed c then [] else [(''CHAIN-CHECKPOINT-SIGNATURE-INVALID'', ''checkpoint signature invalid at '' @ wc_id c, [])])
      in bindR (findings_of now (problems @ unsigned)) (\<lambda>fs.
         bindR (checkpoint_loop deps signed evs now (Some c) cs) (\<lambda>(chained, valid, fs').
         Inr (problems = [] \<and> chained, unsigned = [] \<and> valid, fs @ fs'))))"

definition verifyCheckpointChain ::
  "witness_deps \<Rightarrow> witness_checkpoint list \<Rightarrow> witness_event list \<Rightarrow> string \<Rightarrow> (witness_checkpoint \<Rightarrow> bool)
    \<Rightarrow> (bool \<times> bool \<times> inv_finding list) result" where
  "verifyCheckpointChain deps cps evs now signed = checkpoint_loop deps signed evs now None cps"

definition invariant_problem :: "witness_event \<Rightarrow> (string \<times> string \<times> string list) option" where
  "invariant_problem e =
     (if ai_stage (we_content e) \<noteq> StInvariant \<or> \<not> truthy (ai_invariantCode (we_content e)) then None
      else
        (let detail = ai_detail (we_content e);
             ids = (case obj_get ''evidenceEventIds'' detail of
               Some (JArr xs) \<Rightarrow> List.map_filter (\<lambda>x. case x of JStr i \<Rightarrow> Some i | _ \<Rightarrow> None) xs
             | _ \<Rightarrow> [we_id e]);
             description = (case obj_get ''description'' detail of
               Some (JStr d) \<Rightarrow> d
             | _ \<Rightarrow> ''invariant signaled by '' @ witness_actor_text (ai_actor (we_content e)))
         in Some (the (ai_invariantCode (we_content e)), description, ids)))"

definition collectInvariantEventFindings :: "witness_event list \<Rightarrow> string \<Rightarrow> inv_finding list result" where
  "collectInvariantEventFindings evs now = findings_of now (List.map_filter invariant_problem evs)"

definition countFindingsBySeverity :: "inv_finding list \<Rightarrow> nat \<times> nat \<times> nat" where
  "countFindingsBySeverity fs =
     (let n = (\<lambda>s. length (filter (\<lambda>f. nd_severity f = s) fs)) in (n S0, n S1, n S2))"

fun deriveVerificationStatus :: "nat \<times> nat \<times> nat \<Rightarrow> verification_status" where
  "deriveVerificationStatus (s0, s1, s2) = (if 0 < s0 then VsFail else if 0 < s1 \<or> 0 < s2 then VsReview else VsPass)"

section \<open>Verification\<close>

record witness_moment =
  wi_now :: string
  wi_eventId :: string
  wi_checkpointId :: string
  wi_reportId :: string
  wi_receiptId :: string
  wi_keyPair :: "string \<times> string" \<comment> \<open>public and private, if one is generated\<close>

definition events_of_stage :: "witness_stage \<Rightarrow> witness_event list \<Rightarrow> witness_event list" where
  "events_of_stage st evs = filter (\<lambda>e. ai_stage (we_content e) = st) evs"

definition evidence_problems :: "witness_event list \<Rightarrow> (string \<times> string \<times> string list) list" where
  "evidence_problems evs =
     (let authorizations = from_entries [] (map (\<lambda>e. (we_id e, e)) (events_of_stage StAuthorization evs));
          completions = events_of_stage StCompletion evs;
          completionRefs = List.map_filter (\<lambda>e. if truthy (ai_authorizationRef (we_content e)) then ai_authorizationRef (we_content e) else None) completions
      in map (\<lambda>a. (''EVID-MISSING-COMPLETION'', ''authorization '' @ we_id a @ '' has no completion event'', [we_id a]))
           (filter (\<lambda>a. we_id a \<notin> set completionRefs) (obj_values authorizations))
         @ map (\<lambda>c. (''EVID-MISSING-AUTHORIZATION'', ''completion '' @ we_id c @ '' has no matching authorization event'', [we_id c]))
             (filter (\<lambda>c. \<not> truthy (ai_authorizationRef (we_content c)) \<or>
                the (ai_authorizationRef (we_content c)) \<notin> set (obj_keys authorizations)) completions))"

definition findEvidenceCompletenessFindings :: "witness_event list \<Rightarrow> string \<Rightarrow> inv_finding list result" where
  "findEvidenceCompletenessFindings evs now = findings_of now (evidence_problems evs)"

definition verifyCheckpointSignature :: "witness_deps \<Rightarrow> witness_store \<Rightarrow> witness_checkpoint \<Rightarrow> bool" where
  "verifyCheckpointSignature deps s c =
     (case getKeyEpoch deps (cb_keyEpoch (wc_body c)) s of
        None \<Rightarrow> False
      | Some k \<Rightarrow> wd_verify deps (wc_checkpointHash c) (wc_signature c) (ke_publicKeyPem k))"

definition last_opt :: "'a list \<Rightarrow> 'a option" where
  "last_opt xs = (if xs = [] then None else Some (last xs))"

definition verification_body ::
  "witness_deps \<Rightarrow> witness_moment \<Rightarrow> nat option \<Rightarrow> nat option \<Rightarrow> witness_event list \<Rightarrow> witness_checkpoint list
    \<Rightarrow> (witness_checkpoint \<Rightarrow> bool) \<Rightarrow> report_body result" where
  "verification_body deps inp fromRequest toRequest evs cps signed =
     (let now = wi_now inp;
          a = getOr fromRequest (getOr (map_option we_sequence (if evs = [] then None else Some (hd evs))) 0);
          b = getOr toRequest (getOr (map_option we_sequence (last_opt evs)) 0);
          rangeEvents = filterEventsByRange evs a b;
          rangeCheckpoints = filterCheckpointsByRange cps a b
      in bindR (verifyEventChain deps rangeEvents now) (\<lambda>(contiguous, hashes, eventFindings).
         bindR (verifyCheckpointChain deps rangeCheckpoints rangeEvents now signed) (\<lambda>(chained, signatures, checkpointFindings).
         bindR (collectInvariantEventFindings rangeEvents now) (\<lambda>explicit.
         bindR (findEvidenceCompletenessFindings rangeEvents now) (\<lambda>evidence.
         (let findings = explicit @ evidence @ eventFindings @ checkpointFindings;
              bySeverity = countFindingsBySeverity findings
          in Inr \<lparr>rb_id = wi_reportId inp, rb_generatedAt = now, rb_fromSequence = a, rb_toSequence = b,
                  rb_eventCount = length rangeEvents, rb_headEventHash = map_option we_eventHash (last_opt rangeEvents),
                  rb_sequenceContiguous = contiguous, rb_hashChainValid = hashes,
                  rb_checkpointCount = length rangeCheckpoints,
                  rb_headCheckpointHash = map_option wc_checkpointHash (last_opt rangeCheckpoints),
                  rb_checkpointChainValid = chained, rb_signaturesValid = signatures, rb_findings = findings,
                  rb_bySeverity = bySeverity, rb_status = deriveVerificationStatus bySeverity\<rparr>))))))"

definition finding_json :: "inv_finding \<Rightarrow> json" where
  "finding_json f = JObj
     [(''code'', JStr (nd_code f)), (''severity'', JStr (severity_text (nd_severity f))),
      (''enforcement'', JStr (enforcement_text (nd_enforcement f))), (''description'', JStr (nd_description f)),
      (''evidenceEventIds'', JArr (map JStr (nd_evidenceEventIds f))), (''detectedAt'', JStr (nd_detectedAt f))]"

definition report_json :: "report_body \<Rightarrow> json" where
  "report_json r = JObj
     [(''id'', JStr (rb_id r)), (''generatedAt'', JStr (rb_generatedAt r)),
      (''range'', JObj [(''fromSequence'', JNum (rb_fromSequence r)), (''toSequence'', JNum (rb_toSequence r))]),
      (''ledger'', JObj [(''eventCount'', JNum (rb_eventCount r)), (''headEventHash'', nullable (rb_headEventHash r)),
         (''sequenceContiguous'', JBool (rb_sequenceContiguous r)), (''hashChainValid'', JBool (rb_hashChainValid r))]),
      (''checkpoints'', JObj [(''checkpointCount'', JNum (rb_checkpointCount r)),
         (''headCheckpointHash'', nullable (rb_headCheckpointHash r)),
         (''checkpointChainValid'', JBool (rb_checkpointChainValid r)), (''signaturesValid'', JBool (rb_signaturesValid r))]),
      (''invariants'', JObj [(''findings'', JArr (map finding_json (rb_findings r))),
         (''bySeverity'', case rb_bySeverity r of (s0, s1, s2) \<Rightarrow>
            JObj [(''S0'', JNum s0), (''S1'', JNum s1), (''S2'', JNum s2)])]),
      (''status'', JStr (verification_status_text (rb_status r)))]"

definition issueAttestationReceipt :: "witness_deps \<Rightarrow> witness_moment \<Rightarrow> string \<Rightarrow> (witness_store, attestation_receipt) op" where
  "issueAttestationReceipt deps inp subjectHash =
     bindS (getLedgerHead deps (wi_now inp)) (\<lambda>head.
     bindS (ensureKeyEpoch deps (wi_keyPair inp) (lh_activeKeyEpoch head) (wi_now inp)) (\<lambda>k.
     (let signature = wd_sign deps subjectHash (ke_privateKeyPem k) in
      returnS \<lparr>at_id = wi_receiptId inp, at_subjectHash = subjectHash, at_keyEpoch = ke_keyEpoch k, at_signature = signature,
        at_verified = wd_verify deps subjectHash signature (ke_publicKeyPem k), at_issuedAt = wi_now inp\<rparr>)))"

definition verify_ledger ::
  "witness_deps \<Rightarrow> witness_moment \<Rightarrow> nat option \<Rightarrow> nat option \<Rightarrow> witness_store \<Rightarrow> witness_store \<Rightarrow> (witness_store, verification_report) op" where
  \<comment> \<open>\<open>verify\<close>: the events are read from the first store, the checkpoints from the second, keys and head afterwards\<close>
  "verify_ledger deps inp fromRequest toRequest atEvents atCheckpoints =
     bindS (getsS (\<lambda>s. verification_body deps inp fromRequest toRequest (listEvents deps atEvents)
       (listCheckpoints deps atCheckpoints) (verifyCheckpointSignature deps s))) (\<lambda>r.
     bindS (liftR r) (\<lambda>body.
     bindS (issueAttestationReceipt deps inp (hashCanonical (wd_sha256 deps) (report_json body))) (\<lambda>receipt.
     bindS (liftR (wd_parseReport deps \<lparr>vr_body = body, vr_receipt = receipt\<rparr>)) (\<lambda>report.
     bindS (write_doc deps (put_report report)) (\<lambda>_. returnS report)))))"

definition getReport :: "witness_deps \<Rightarrow> string \<Rightarrow> witness_store \<Rightarrow> verification_report option" where
  "getReport deps i s = Option.bind (doc_get i (ws_reports s)) (safe_parse (wd_parseReport deps))"

definition newest_report :: "verification_report \<Rightarrow> verification_report \<Rightarrow> int" where
  "newest_report a b = codeUnitCompare (rb_generatedAt (vr_body b)) (rb_generatedAt (vr_body a))"

definition listReports :: "witness_deps \<Rightarrow> nat \<Rightarrow> witness_store \<Rightarrow> verification_report list" where
  "listReports deps limit s =
     List.map_filter (safe_parse (wd_parseReport deps)) (doc_query (\<lambda>r. True) newest_report (Some limit) (ws_reports s))"

section \<open>Operations\<close>

definition checkpoint_body_for :: "ledger_head \<Rightarrow> string \<Rightarrow> witness_checkpoint option \<Rightarrow> checkpoint_reason \<Rightarrow> checkpoint_body" where
  "checkpoint_body_for head headHash latest reason =
     \<lparr>cb_checkpointSequence = lh_lastCheckpointSequence head + 1,
      cb_startEventSequence = (case latest of Some c \<Rightarrow> min (cb_endEventSequence (wc_body c) + 1) (lh_lastSequence head) | None \<Rightarrow> 1),
      cb_endEventSequence = lh_lastSequence head, cb_previousCheckpointHash = map_option wc_checkpointHash latest,
      cb_ledgerHeadHash = headHash, cb_keyEpoch = lh_activeKeyEpoch head, cb_reason = reason\<rparr>"

definition createCheckpointInternal ::
  "witness_deps \<Rightarrow> witness_moment \<Rightarrow> checkpoint_reason \<Rightarrow> ledger_head \<Rightarrow> (witness_store, witness_checkpoint) op" where
  "createCheckpointInternal deps inp reason head =
     (if \<not> truthy (lh_lastEventHash head) \<or> lh_lastSequence head = 0
      then throwS (JsError ''Cannot create checkpoint for empty witness ledger'')
      else
        bindS (getsS (getLatestCheckpoint deps)) (\<lambda>latest.
        bindS (ensureKeyEpoch deps (wi_keyPair inp) (lh_activeKeyEpoch head) (wi_now inp)) (\<lambda>k.
        (let body = checkpoint_body_for head (the (lh_lastEventHash head)) latest reason;
             hash = buildCheckpointHash deps body
         in bindS (liftR (wd_parseCheckpoint deps \<lparr>wc_id = wi_checkpointId inp, wc_body = body, wc_checkpointHash = hash,
              wc_signature = wd_sign deps hash (ke_privateKeyPem k), wc_createdAt = wi_now inp\<rparr>)) (\<lambda>c.
            bindS (saveCheckpoint deps c (head\<lparr>lh_lastCheckpointSequence := cb_checkpointSequence body,
              lh_lastCheckpointHash := Some hash, lh_updatedAt := wi_now inp\<rparr>)) (\<lambda>_. returnS c))))))"

definition maybeIntervalCheckpoint :: "witness_deps \<Rightarrow> witness_moment \<Rightarrow> ledger_head \<Rightarrow> (witness_store, unit) op" where
  "maybeIntervalCheckpoint deps inp head =
     (if lh_lastSequence head = 0 then returnS ()
      else if lh_lastSequence head mod wd_checkpointInterval deps \<noteq> 0 then returnS ()
      else bindS (createCheckpointInternal deps inp ReasonInterval head) (\<lambda>_. returnS ()))"

definition content_of ::
  "witness_stage \<Rightarrow> witness_input \<Rightarrow> string option \<Rightarrow> witness_status \<Rightarrow> string option \<Rightarrow> (string \<times> json) list \<Rightarrow> string \<Rightarrow> append_input" where
  "content_of stage p authorizationRef status code detail now =
     \<lparr>ai_stage = stage, ai_actionCategory = wn_actionCategory p, ai_actionRef = wn_actionRef p,
      ai_authorizationRef = authorizationRef, ai_traceId = wn_traceId p, ai_projectId = wn_projectId p,
      ai_actor = wn_actor p, ai_status = status, ai_invariantCode = code, ai_detail = detail,
      ai_occurredAt = getOr (wn_occurredAt p) now\<rparr>"

definition append_event :: "witness_deps \<Rightarrow> witness_moment \<Rightarrow> append_input \<Rightarrow> (witness_store, witness_event) op" where
  "append_event deps inp a =
     bindS (getLedgerHead deps (wi_now inp)) (\<lambda>head.
     bindS (appendLedgerEvent deps head (wi_eventId inp) a (wi_now inp)) (\<lambda>(event, nextHead).
     bindS (maybeIntervalCheckpoint deps inp nextHead) (\<lambda>_. returnS event)))"

definition appendAuthorization :: "witness_deps \<Rightarrow> witness_moment \<Rightarrow> witness_input \<Rightarrow> (witness_store, witness_event) op" where
  "appendAuthorization deps inp input =
     bindS (liftR (wd_parseInput deps input)) (\<lambda>p.
     append_event deps inp (content_of StAuthorization p None (wn_status p) None (wn_detail p) (wi_now inp)))"

definition appendCompletion :: "witness_deps \<Rightarrow> witness_moment \<Rightarrow> string \<Rightarrow> witness_input \<Rightarrow> (witness_store, witness_event) op" where
  "appendCompletion deps inp authorizationRef input =
     bindS (liftR (wd_parseInput deps input)) (\<lambda>p.
     bindS (getEventById deps authorizationRef) (\<lambda>authorization.
     case authorization of
       None \<Rightarrow> throwS (JsError (''Authorization event not found: '' @ authorizationRef))
     | Some _ \<Rightarrow> append_event deps inp
         (content_of StCompletion p (Some authorizationRef) (wn_status p) None (wn_detail p) (wi_now inp))))"

definition appendInvariant :: "witness_deps \<Rightarrow> witness_moment \<Rightarrow> string \<Rightarrow> witness_input \<Rightarrow> (witness_store, witness_event) op" where
  "appendInvariant deps inp code input =
     bindS (liftR (wd_parseInput deps input)) (\<lambda>p.
     bindS (liftR (mapInvariantToEnforcement code)) (\<lambda>(severity, enforcement).
     append_event deps inp
       (content_of StInvariant p None (if enforcement = EnforceHardStop then WsBlocked else WsFailed) (Some code)
         (obj_set ''enforcement'' (JStr (enforcement_text enforcement))
           (obj_set ''severity'' (JStr (severity_text severity)) (wn_detail p))) (wi_now inp))))"

definition createCheckpoint :: "witness_deps \<Rightarrow> witness_moment \<Rightarrow> checkpoint_reason \<Rightarrow> (witness_store, witness_checkpoint) op" where
  "createCheckpoint deps inp reason =
     bindS (getLedgerHead deps (wi_now inp)) (createCheckpointInternal deps inp reason)"

definition rotateKeyEpoch :: "witness_deps \<Rightarrow> witness_moment \<Rightarrow> (witness_store, nat) op" where
  "rotateKeyEpoch deps inp =
     bindS (getLedgerHead deps (wi_now inp)) (\<lambda>head.
     (let nextEpoch = lh_activeKeyEpoch head + 1;
          nextHead = head\<lparr>lh_activeKeyEpoch := nextEpoch, lh_updatedAt := wi_now inp\<rparr>
      in bindS (ensureKeyEpoch deps (wi_keyPair inp) nextEpoch (wi_now inp)) (\<lambda>_.
         bindS (saveLedgerHead deps nextHead) (\<lambda>_.
         bindS (if 0 < lh_lastSequence nextHead
            then bindS (createCheckpointInternal deps inp ReasonRotation nextHead) (\<lambda>_. returnS ()) else returnS ()) (\<lambda>_.
         returnS nextEpoch)))))"

end
