(* ===== verification/Witness_Properties.thy ===== *)
theory Witness_Properties
  imports Witness_Service
begin

text \<open>
  What the witness ledger guarantees. \<open>witness_reachable\<close> collects the stores that the operations
  of the service produce, one after the other; \<open>witness_inv\<close> says that the stored events and
  checkpoints are two hash chains that the head and the stored keys agree with.
\<close>

section \<open>Stores of the service\<close>

definition own_head :: "witness_deps \<Rightarrow> ledger_head \<Rightarrow> bool" where
  \<comment> \<open>a head the service writes\<close>
  "own_head deps h \<longleftrightarrow> 0 < lh_activeKeyEpoch h \<and>
     (\<forall>x. lh_lastEventHash h = Some x \<or> lh_lastCheckpointHash h = Some x \<longrightarrow> x \<in> range (wd_sha256 deps))"

definition witness_deps_ok :: "witness_deps \<Rightarrow> bool" where
  "witness_deps_ok deps \<longleftrightarrow> schema_parser (wd_parseEvent deps) \<and> schema_parser (wd_parseCheckpoint deps) \<and>
     schema_parser (wd_parseKey deps) \<and> schema_parser (wd_parseReport deps) \<and> schema_parser (wd_parseInput deps) \<and>
     (\<forall>h. own_head deps h \<longrightarrow> wd_parseHead deps h = Inr h) \<and> (\<forall>t. wd_sha256 deps t \<noteq> []) \<and> (\<forall>n. \<not> wd_fails deps n)"

definition moment_ok :: "witness_deps \<Rightarrow> witness_moment \<Rightarrow> witness_store \<Rightarrow> bool" where
  \<comment> \<open>new identifiers, and a key pair whose signatures verify\<close>
  "moment_ok deps inp s \<longleftrightarrow> doc_get (wi_eventId inp) (ws_events s) = None \<and>
     doc_get (wi_checkpointId inp) (ws_checkpoints s) = None \<and>
     (\<forall>d. wd_verify deps d (wd_sign deps d (snd (wi_keyPair inp))) (fst (wi_keyPair inp)))"

definition empty_witness :: witness_store where
  "empty_witness = \<lparr>ws_events = [], ws_checkpoints = [], ws_head = [], ws_keys = [], ws_reports = [], ws_writes = 0\<rparr>"

inductive witness_reachable :: "witness_deps \<Rightarrow> witness_store \<Rightarrow> bool" for deps :: witness_deps where
  fresh: "witness_reachable deps empty_witness"
| authorization: "witness_reachable deps s \<Longrightarrow> moment_ok deps inp s \<Longrightarrow> witness_reachable deps (snd (appendAuthorization deps inp input s))"
| completion: "witness_reachable deps s \<Longrightarrow> moment_ok deps inp s \<Longrightarrow> witness_reachable deps (snd (appendCompletion deps inp ref input s))"
| invariant: "witness_reachable deps s \<Longrightarrow> moment_ok deps inp s \<Longrightarrow> witness_reachable deps (snd (appendInvariant deps inp code input s))"
| checkpoint: "witness_reachable deps s \<Longrightarrow> moment_ok deps inp s \<Longrightarrow> witness_reachable deps (snd (createCheckpoint deps inp reason s))"
| rotation: "witness_reachable deps s \<Longrightarrow> moment_ok deps inp s \<Longrightarrow> witness_reachable deps (snd (rotateKeyEpoch deps inp s))"
| verification: "witness_reachable deps s \<Longrightarrow> moment_ok deps inp s \<Longrightarrow>
    witness_reachable deps (snd (verify_ledger deps inp a b atEvents atCheckpoints s))"

section \<open>Chains\<close>

fun event_chain :: "witness_deps \<Rightarrow> witness_event option \<Rightarrow> witness_event list \<Rightarrow> bool" where
  "event_chain deps prev [] \<longleftrightarrow> True"
| "event_chain deps prev (e # es) \<longleftrightarrow>
     we_sequence e = (case prev of None \<Rightarrow> 1 | Some p \<Rightarrow> we_sequence p + 1) \<and>
     hash_problems deps prev e = [] \<and> event_chain deps (Some e) es"

definition checkpoint_ok :: "witness_deps \<Rightarrow> (string \<times> key_epoch) list \<Rightarrow> witness_event list \<Rightarrow> witness_checkpoint option \<Rightarrow> witness_checkpoint \<Rightarrow> bool" where
  "checkpoint_ok deps ks evs prev c \<longleftrightarrow>
     wc_sequence c = (case prev of None \<Rightarrow> 1 | Some p \<Rightarrow> wc_sequence p + 1) \<and>
     map_option wc_checkpointHash prev = cb_previousCheckpointHash (wc_body c) \<and>
     buildCheckpointHash deps (wc_body c) = wc_checkpointHash c \<and>
     cb_startEventSequence (wc_body c) \<le> cb_endEventSequence (wc_body c) \<and> 0 < cb_endEventSequence (wc_body c) \<and>
     cb_endEventSequence (wc_body c) \<le> length evs \<and>
     we_eventHash (evs ! (cb_endEventSequence (wc_body c) - 1)) = cb_ledgerHeadHash (wc_body c) \<and>
     (\<exists>k. doc_get (show_nat (cb_keyEpoch (wc_body c))) ks = Some k \<and>
        wd_verify deps (wc_checkpointHash c) (wc_signature c) (ke_publicKeyPem k))"

fun checkpoint_chain :: "witness_deps \<Rightarrow> (string \<times> key_epoch) list \<Rightarrow> witness_event list \<Rightarrow> witness_checkpoint option \<Rightarrow> witness_checkpoint list \<Rightarrow> bool" where
  "checkpoint_chain deps ks evs prev [] \<longleftrightarrow> True"
| "checkpoint_chain deps ks evs prev (c # cs) \<longleftrightarrow> checkpoint_ok deps ks evs prev c \<and> checkpoint_chain deps ks evs (Some c) cs"

definition last_of :: "'a option \<Rightarrow> 'a list \<Rightarrow> 'a option" where
  "last_of prev xs = (if xs = [] then prev else Some (last xs))"

lemma last_of_simps [simp]: "last_of prev [] = prev" "last_of prev (xs @ [x]) = Some x" "last_of prev (x # xs) = last_of (Some x) xs"
  by (simp_all add: last_of_def)

lemma last_opt_last_of: "last_opt xs = last_of None xs"
  by (simp add: last_opt_def last_of_def)

lemma event_chain_append: "event_chain deps prev (es @ [e]) \<longleftrightarrow> event_chain deps prev es \<and> event_chain deps (last_of prev es) [e]"
  by (induction es arbitrary: prev) auto

lemma event_chain_append2: "event_chain deps prev (es @ fs) \<longleftrightarrow> event_chain deps prev es \<and> event_chain deps (last_of prev es) fs"
  by (induction es arbitrary: prev) auto

lemma checkpoint_chain_append: "checkpoint_chain deps ks evs prev (cs @ [c]) \<longleftrightarrow>
    checkpoint_chain deps ks evs prev cs \<and> checkpoint_ok deps ks evs (last_of prev cs) c"
  by (induction cs arbitrary: prev) auto

lemma event_chain_sequences:
  "event_chain deps prev es \<Longrightarrow> i < length es \<Longrightarrow> we_sequence (es ! i) = (case prev of None \<Rightarrow> 1 | Some p \<Rightarrow> we_sequence p + 1) + i"
  by (induction deps prev es arbitrary: i rule: event_chain.induct) (auto simp: nth_Cons split: nat.split)

lemma event_chain_last: "event_chain deps None es \<Longrightarrow> es \<noteq> [] \<Longrightarrow> we_sequence (last es) = length es"
  using event_chain_sequences [of deps None es "length es - 1"] by (simp add: last_conv_nth)

lemma event_chain_range: "event_chain deps None es \<Longrightarrow> e \<in> set es \<Longrightarrow> 1 \<le> we_sequence e \<and> we_sequence e \<le> length es"
  using event_chain_sequences [of deps None es] by (fastforce simp: in_set_conv_nth)

lemma checkpoint_chain_sequences:
  "checkpoint_chain deps ks evs prev cs \<Longrightarrow> i < length cs \<Longrightarrow> wc_sequence (cs ! i) = (case prev of None \<Rightarrow> 1 | Some p \<Rightarrow> wc_sequence p + 1) + i"
  by (induction deps ks evs prev cs arbitrary: i rule: checkpoint_chain.induct) (auto simp: nth_Cons checkpoint_ok_def split: nat.split)

lemma checkpoint_chain_ok: "checkpoint_chain deps ks evs prev cs \<Longrightarrow> c \<in> set cs \<Longrightarrow> \<exists>p. checkpoint_ok deps ks evs p c"
  by (induction deps ks evs prev cs rule: checkpoint_chain.induct) auto

lemma checkpoint_ok_mono:
  assumes "checkpoint_ok deps ks evs prev c" and "\<And>i k. doc_get i ks = Some k \<Longrightarrow> doc_get i ks' = Some k"
  shows "checkpoint_ok deps ks' (evs @ fs) prev c"
proof -
  have "cb_endEventSequence (wc_body c) - 1 < length evs" using assms(1) unfolding checkpoint_ok_def by linarith
  then have "(evs @ fs) ! (cb_endEventSequence (wc_body c) - 1) = evs ! (cb_endEventSequence (wc_body c) - 1)"
    by (simp add: nth_append)
  with assms show ?thesis unfolding checkpoint_ok_def by auto
qed

lemma checkpoint_chain_mono:
  assumes "checkpoint_chain deps ks evs prev cs" and "\<And>i k. doc_get i ks = Some k \<Longrightarrow> doc_get i ks' = Some k"
  shows "checkpoint_chain deps ks' (evs @ fs) prev cs"
  using assms(1) by (induction cs arbitrary: prev) (auto intro: checkpoint_ok_mono [OF _ assms(2)])

section \<open>The invariant\<close>

definition ledger_of :: "witness_store \<Rightarrow> witness_event list" where
  "ledger_of s = js_sort by_sequence (obj_values (ws_events s))"

definition checkpoints_of :: "witness_store \<Rightarrow> witness_checkpoint list" where
  "checkpoints_of s = js_sort by_checkpoint (obj_values (ws_checkpoints s))"

definition coded :: "witness_event \<Rightarrow> bool" where
  \<comment> \<open>an invariant event has a code that the enforcement knows\<close>
  "coded e \<longleftrightarrow> (ai_stage (we_content e) = StInvariant \<longrightarrow>
     (\<exists>c d. ai_invariantCode (we_content e) = Some c \<and> mapInvariantToEnforcement c = Inr d))"

definition head_fits :: "witness_deps \<Rightarrow> witness_event list \<Rightarrow> witness_checkpoint list \<Rightarrow> ledger_head \<Rightarrow> bool" where
  "head_fits deps L C h \<longleftrightarrow> own_head deps h \<and> lh_lastSequence h = length L \<and>
     lh_lastEventHash h = map_option we_eventHash (last_opt L) \<and> lh_lastCheckpointSequence h = length C"

definition head_state :: "witness_deps \<Rightarrow> witness_event list \<Rightarrow> witness_checkpoint list \<Rightarrow> ledger_head option \<Rightarrow> bool" where
  "head_state deps L C raw = (case raw of None \<Rightarrow> L = [] \<and> C = [] | Some h \<Rightarrow> head_fits deps L C h)"

lemma head_state_simps [simp]:
  "head_state deps L C None \<longleftrightarrow> L = [] \<and> C = []" "head_state deps L C (Some h) \<longleftrightarrow> head_fits deps L C h"
  by (simp_all add: head_state_def)

definition witness_inv :: "witness_deps \<Rightarrow> witness_store \<Rightarrow> bool" where
  "witness_inv deps s \<longleftrightarrow>
     distinct (obj_keys (ws_events s)) \<and> distinct (obj_keys (ws_checkpoints s)) \<and>
     event_chain deps None (ledger_of s) \<and> checkpoint_chain deps (ws_keys s) (ledger_of s) None (checkpoints_of s) \<and>
     (\<forall>e \<in> set (ledger_of s). wd_parseEvent deps e = Inr e \<and> coded e) \<and>
     (\<forall>c \<in> set (checkpoints_of s). wd_parseCheckpoint deps c = Inr c) \<and>
     (\<forall>i k. doc_get i (ws_keys s) = Some k \<longrightarrow> wd_parseKey deps k = Inr k \<and> show_nat (ke_keyEpoch k) = i \<and>
        (\<forall>d. wd_verify deps d (wd_sign deps d (ke_privateKeyPem k)) (ke_publicKeyPem k))) \<and>
     head_state deps (ledger_of s) (checkpoints_of s) (doc_get ''head'' (ws_head s))"

lemma deps_okD:
  assumes "witness_deps_ok deps"
  shows "wd_parseEvent deps x1 = Inr y1 \<Longrightarrow> y1 = x1" "wd_parseCheckpoint deps x2 = Inr y2 \<Longrightarrow> y2 = x2"
    "wd_parseKey deps x3 = Inr y3 \<Longrightarrow> y3 = x3" "wd_parseReport deps x4 = Inr y4 \<Longrightarrow> y4 = x4"
    "own_head deps h \<Longrightarrow> wd_parseHead deps h = Inr h" "wd_sha256 deps t \<noteq> []" "\<not> wd_fails deps n"
  using assms by (simp_all add: witness_deps_ok_def schema_parser_def)

lemma write_doc_ok: "witness_deps_ok deps \<Longrightarrow> write_doc deps f s = (Inr (), (f s)\<lparr>ws_writes := ws_writes s + 1\<rparr>)"
  by (simp add: write_doc_def deps_okD(7))

lemma view_simps [simp]:
  "ledger_of (s\<lparr>ws_writes := n\<rparr>) = ledger_of s" "checkpoints_of (s\<lparr>ws_writes := n\<rparr>) = checkpoints_of s"
  "ledger_of (put_head h s) = ledger_of s" "checkpoints_of (put_head h s) = checkpoints_of s"
  "ledger_of (put_key k s) = ledger_of s" "checkpoints_of (put_key k s) = checkpoints_of s"
  "ledger_of (put_report r s) = ledger_of s" "checkpoints_of (put_report r s) = checkpoints_of s"
  "ledger_of (put_checkpoint c s) = ledger_of s" "checkpoints_of (put_event e s) = checkpoints_of s"
  "ws_keys (put_head h s) = ws_keys s" "ws_keys (put_event e s) = ws_keys s" "ws_keys (put_checkpoint c s) = ws_keys s"
  "ws_keys (put_report r s) = ws_keys s" "ws_head (put_key k s) = ws_head s" "ws_head (put_event e s) = ws_head s"
  "ws_head (put_checkpoint c s) = ws_head s" "ws_head (put_report r s) = ws_head s"
  "doc_get ''head'' (ws_head (put_head h s)) = Some h"
  "ws_events (put_head h s) = ws_events s" "ws_events (put_key k s) = ws_events s" "ws_events (put_checkpoint c s) = ws_events s"
  "ws_events (put_report r s) = ws_events s" "ws_checkpoints (put_head h s) = ws_checkpoints s"
  "ws_checkpoints (put_key k s) = ws_checkpoints s" "ws_checkpoints (put_event e s) = ws_checkpoints s"
  "ws_checkpoints (put_report r s) = ws_checkpoints s"
  by (simp_all add: ledger_of_def checkpoints_of_def put_head_def put_key_def put_report_def put_checkpoint_def put_event_def
      doc_get_def doc_put_def)

lemma witness_inv_writes [simp]: "witness_inv deps (s\<lparr>ws_writes := n\<rparr>) = witness_inv deps s"
  by (simp add: witness_inv_def)

lemma witness_inv_report: "witness_inv deps s \<Longrightarrow> witness_inv deps (put_report r s)"
  by (simp add: witness_inv_def)

lemma witness_inv_head: "witness_inv deps s \<Longrightarrow> head_fits deps (ledger_of s) (checkpoints_of s) h \<Longrightarrow> witness_inv deps (put_head h s)"
  by (simp add: witness_inv_def)

section \<open>The operations keep it\<close>

lemma empty_head_fits: "head_fits deps [] [] (empty_head now)"
  by (simp add: head_fits_def own_head_def empty_head_def last_opt_def)

lemma getLedgerHead_ok:
  assumes "witness_deps_ok deps" and inv: "witness_inv deps s"
  obtains h s' where "getLedgerHead deps now s = (Inr h, s')" "witness_inv deps s'" "doc_get ''head'' (ws_head s') = Some h"
    "head_fits deps (ledger_of s) (checkpoints_of s) h" "ws_events s' = ws_events s" "ws_checkpoints s' = ws_checkpoints s" "ws_keys s' = ws_keys s"
proof (cases "doc_get ''head'' (ws_head s)")
  case None
  with inv have nil: "ledger_of s = []" "checkpoints_of s = []" by (simp_all add: witness_inv_def)
  have "wd_parseHead deps (empty_head now) = Inr (empty_head now)"
    using deps_okD(5) [OF assms(1)] empty_head_fits [of deps now] by (simp add: head_fits_def)
  then have run: "getLedgerHead deps now s = (Inr (empty_head now), (put_head (empty_head now) s)\<lparr>ws_writes := ws_writes s + 1\<rparr>)"
    by (simp add: getLedgerHead_def None saveLedgerHead_def bindS_Inr [OF write_doc_ok [OF assms(1)]])
  have "witness_inv deps (put_head (empty_head now) s)"
    by (rule witness_inv_head [OF inv]) (simp add: nil empty_head_fits)
  then show ?thesis by (intro that [OF run]) (simp_all add: nil empty_head_fits)
next
  case (Some h)
  with inv have h: "head_fits deps (ledger_of s) (checkpoints_of s) h" by (simp add: witness_inv_def)
  then have "wd_parseHead deps h = Inr h" using deps_okD(5) [OF assms(1)] by (simp add: head_fits_def)
  then have run: "getLedgerHead deps now s = (Inr h, s)" by (simp add: getLedgerHead_def Some safe_parse_def)
  from inv h Some show ?thesis by (intro that [OF run]) simp_all
qed

lemma ensureKeyEpoch_ok:
  assumes "witness_deps_ok deps" and inv: "witness_inv deps s"
    and pair: "\<And>d. wd_verify deps d (wd_sign deps d (snd kp)) (fst kp)"
  shows "(\<exists>e. ensureKeyEpoch deps kp n now s = (Inl e, s)) \<or>
    (\<exists>k s'. ensureKeyEpoch deps kp n now s = (Inr k, s') \<and> witness_inv deps s' \<and> doc_get (show_nat n) (ws_keys s') = Some k \<and>
      ke_keyEpoch k = n \<and> (\<forall>d. wd_verify deps d (wd_sign deps d (ke_privateKeyPem k)) (ke_publicKeyPem k)) \<and>
      ws_events s' = ws_events s \<and> ws_checkpoints s' = ws_checkpoints s \<and> ws_head s' = ws_head s)"
proof (cases "doc_get (show_nat n) (ws_keys s)")
  case (Some k)
  with inv have k: "wd_parseKey deps k = Inr k" "show_nat (ke_keyEpoch k) = show_nat n"
    "\<forall>d. wd_verify deps d (wd_sign deps d (ke_privateKeyPem k)) (ke_publicKeyPem k)" by (auto simp: witness_inv_def)
  have "ensureKeyEpoch deps kp n now s = (Inr k, s)"
    by (simp add: ensureKeyEpoch_def getKeyEpoch_def Some safe_parse_def k(1))
  moreover have "ke_keyEpoch k = n" using k(2) by (metis read_show_nat)
  ultimately show ?thesis using inv k Some by blast
next
  case None
  define k where "k = \<lparr>ke_keyEpoch = n, ke_publicKeyPem = fst kp, ke_privateKeyPem = snd kp, ke_createdAt = now, ke_activatedAt = now\<rparr>"
  show ?thesis
  proof (cases "wd_parseKey deps k")
    case (Inl e)
    then have "ensureKeyEpoch deps kp n now s = (Inl e, s)"
      by (simp add: ensureKeyEpoch_def getKeyEpoch_def None k_def)
    then show ?thesis by blast
  next
    case (Inr k')
    then have k': "k' = k" "wd_parseKey deps k = Inr k" using deps_okD(3) [OF assms(1)] by auto
    let ?s = "(put_key k s)\<lparr>ws_writes := ws_writes s + 1\<rparr>"
    have run: "ensureKeyEpoch deps kp n now s = (Inr k, ?s)"
      using Inr by (simp add: ensureKeyEpoch_def getKeyEpoch_def None k_def [symmetric] k'(1) bindS_Inr [OF write_doc_ok [OF assms(1)]])
    have keys: "doc_get i (ws_keys (put_key k s)) = (if i = show_nat n then Some k else doc_get i (ws_keys s))" for i
      by (simp add: put_key_def doc_get_def doc_put_def k_def)
    have kept: "doc_get i (ws_keys s) = Some x \<Longrightarrow> doc_get i (ws_keys (put_key k s)) = Some x" for i x
      using None by (auto simp: keys)
    have "checkpoint_chain deps (ws_keys (put_key k s)) (ledger_of s) None (checkpoints_of s)"
      using checkpoint_chain_mono [of deps "ws_keys s" "ledger_of s" None "checkpoints_of s" _ "[]", OF _ kept] inv
      by (simp add: witness_inv_def)
    then have "witness_inv deps (put_key k s)"
      using inv k'(2) pair unfolding witness_inv_def view_simps keys by (auto simp: k_def)
    with run show ?thesis
      by (intro disjI2 exI [of _ k] exI [of _ ?s]) (simp add: keys pair, simp add: k_def pair)
  qed
qed

lemma sorted_events_put:
  assumes "witness_inv deps s" and "doc_get (we_id e) (ws_events s) = None" and "we_sequence e = length (ledger_of s) + 1"
  shows "ledger_of (put_event e s) = ledger_of s @ [e]"
proof -
  have "int (we_sequence x) < int (we_sequence e)" if "x \<in> set (obj_values (ws_events s))" for x
    using event_chain_range [of deps "ledger_of s" x] assms(1,3) that by (simp add: witness_inv_def ledger_of_def)
  moreover have "distinct (obj_keys (ws_events s))" using assms(1) by (simp add: witness_inv_def)
  ultimately have "js_sort by_sequence (obj_values (doc_put (we_id e) e (ws_events s))) = js_sort by_sequence (obj_values (ws_events s)) @ [e]"
    using assms(2) by (intro documents.sorted_append [where key = "\<lambda>e. int (we_sequence e)"]) (simp_all add: by_sequence_def)
  then show ?thesis by (simp add: ledger_of_def put_event_def)
qed

lemma checkpoint_chain_member_sequence:
  assumes "checkpoint_chain deps ks evs None cs" and "c \<in> set cs"
  shows "wc_sequence c \<le> length cs"
  using checkpoint_chain_sequences [OF assms(1)] assms(2) by (fastforce simp: in_set_conv_nth)

lemma sorted_checkpoints_put:
  assumes "witness_inv deps s" and "doc_get (wc_id c) (ws_checkpoints s) = None" and "wc_sequence c = length (checkpoints_of s) + 1"
  shows "checkpoints_of (put_checkpoint c s) = checkpoints_of s @ [c]"
proof -
  have "int (wc_sequence x) < int (wc_sequence c)" if "x \<in> set (obj_values (ws_checkpoints s))" for x
    using checkpoint_chain_member_sequence [of deps "ws_keys s" "ledger_of s" "checkpoints_of s" x] assms(1,3) that
    by (simp add: witness_inv_def checkpoints_of_def)
  moreover have "distinct (obj_keys (ws_checkpoints s))" using assms(1) by (simp add: witness_inv_def)
  ultimately have "js_sort by_checkpoint (obj_values (doc_put (wc_id c) c (ws_checkpoints s))) = js_sort by_checkpoint (obj_values (ws_checkpoints s)) @ [c]"
    using assms(2) by (intro documents.sorted_append [where key = "\<lambda>c. int (wc_sequence c)"]) (simp_all add: by_checkpoint_def)
  then show ?thesis by (simp add: checkpoints_of_def put_checkpoint_def)
qed

lemma appendLedgerEvent_ok:
  assumes ok: "witness_deps_ok deps" and inv: "witness_inv deps s" and head: "doc_get ''head'' (ws_head s) = Some h"
    and new: "doc_get i (ws_events s) = None" and coded: "ai_stage a = StInvariant \<Longrightarrow> \<exists>c d. ai_invariantCode a = Some c \<and> mapInvariantToEnforcement c = Inr d"
  shows "(\<exists>e. appendLedgerEvent deps h i a now s = (Inl e, s)) \<or>
    (\<exists>e h' s'. appendLedgerEvent deps h i a now s = (Inr (e, h'), s') \<and> witness_inv deps s' \<and>
       doc_get ''head'' (ws_head s') = Some h' \<and> ws_checkpoints s' = ws_checkpoints s)"
proof -
  define e where "e = built_event deps h i a now"
  define h' where "h' = h\<lparr>lh_lastSequence := we_sequence e, lh_lastEventHash := Some (we_eventHash e), lh_updatedAt := now\<rparr>"
  have fits: "head_fits deps (ledger_of s) (checkpoints_of s) h" using inv head by (simp add: witness_inv_def)
  show ?thesis
  proof (cases "wd_parseEvent deps e")
    case (Inl x)
    then have "appendLedgerEvent deps h i a now s = (Inl x, s)" by (simp add: appendLedgerEvent_def e_def)
    then show ?thesis by blast
  next
    case (Inr e')
    then have e: "wd_parseEvent deps e = Inr e" "e' = e" using deps_okD(1) [OF ok] by auto
    have own: "own_head deps h'"
      using fits by (auto simp: own_head_def h'_def head_fits_def e_def built_event_def event_hash_def hashCanonical_def)
    let ?s = "(put_head h' (put_event e s))\<lparr>ws_writes := ws_writes s + 2\<rparr>"
    have run: "appendLedgerEvent deps h i a now s = (Inr (e, h'), ?s)"
      using e(1) deps_okD(5) [OF ok own]
      by (simp add: appendLedgerEvent_def e_def [symmetric] bindS_Inr [OF write_doc_ok [OF ok]] h'_def [symmetric] saveLedgerHead_def)
        (simp add: put_head_def)
    have id: "we_id e = i" "we_content e = a" by (simp_all add: e_def built_event_def)
    have seq: "we_sequence e = length (ledger_of s) + 1" using fits by (simp add: e_def built_event_def head_fits_def)
    have L: "ledger_of (put_event e s) = ledger_of s @ [e]"
      by (rule sorted_events_put [OF inv]) (simp_all add: id new seq)
    have chain: "event_chain deps None (ledger_of s)" using inv by (simp add: witness_inv_def)
    have "event_chain deps (last_of None (ledger_of s)) [e]"
    proof -
      have "we_sequence e = (case last_of None (ledger_of s) of None \<Rightarrow> 1 | Some p \<Rightarrow> we_sequence p + 1)"
        using event_chain_last [OF chain] by (auto simp: seq last_of_def)
      moreover have "hash_problems deps (last_of None (ledger_of s)) e = []"
        using fits by (simp add: hash_problems_def e_def built_event_def head_fits_def last_opt_last_of)
      ultimately show ?thesis by simp
    qed
    with chain have chain': "event_chain deps None (ledger_of s @ [e])" by (simp add: event_chain_append)
    have cps: "checkpoint_chain deps (ws_keys s) (ledger_of s @ [e]) None (checkpoints_of s)"
      using checkpoint_chain_mono [of deps "ws_keys s" "ledger_of s" None "checkpoints_of s" "ws_keys s" "[e]"] inv by (simp add: witness_inv_def)
    have fits': "head_fits deps (ledger_of s @ [e]) (checkpoints_of s) h'"
      using own fits seq by (simp add: head_fits_def h'_def last_opt_def)
    have "coded e" using coded by (auto simp: coded_def id)
    have keys: "distinct (obj_keys (ws_events (put_head h' (put_event e s))))"
      using inv by (simp add: witness_inv_def put_event_def doc_put_def distinct_keys_obj_set)
    have "witness_inv deps (put_head h' (put_event e s))"
      using inv chain' cps fits' e(1) \<open>coded e\<close> keys unfolding witness_inv_def view_simps L by (simp add: ball_Un)
    then show ?thesis using run by auto
  qed
qed

interpretation newest_first: js_comparator "\<lambda>a b. by_checkpoint b a"
  by (rule js_comparator_by_key [of _ "\<lambda>c. - int (wc_sequence c)"]) (simp add: by_checkpoint_def)

interpretation oldest_first: js_comparator by_checkpoint
  by (rule js_comparator_by_key [of _ "\<lambda>c. int (wc_sequence c)"]) (simp add: by_checkpoint_def)

interpretation event_order: js_comparator by_sequence
  by (rule js_comparator_by_key [of _ "\<lambda>e. int (we_sequence e)"]) (simp add: by_sequence_def)

lemma getLatestCheckpoint_last:
  assumes "witness_inv deps s"
  shows "getLatestCheckpoint deps s = last_opt (checkpoints_of s)"
proof -
  let ?C = "checkpoints_of s"
  have chain: "checkpoint_chain deps (ws_keys s) (ledger_of s) None ?C" and parse: "\<forall>c \<in> set ?C. wd_parseCheckpoint deps c = Inr c"
    using assms by (simp_all add: witness_inv_def)
  have inj: "x = y" if x: "x \<in> set ?C" and y: "y \<in> set ?C" and eq: "wc_sequence x = wc_sequence y" for x y
  proof -
    obtain i j where "i < length ?C" "x = ?C ! i" "j < length ?C" "y = ?C ! j" using x y by (auto simp: in_set_conv_nth)
    moreover have "wc_sequence (?C ! i) = 1 + i" "wc_sequence (?C ! j) = 1 + j"
      using checkpoint_chain_sequences [OF chain] calculation by auto
    ultimately show ?thesis using eq by simp
  qed
  have desc: "js_sort (\<lambda>a b. by_checkpoint b a) (obj_values (ws_checkpoints s)) = rev ?C"
  proof (rule newest_first.sorted_unique [OF newest_first.sorted_js_sort])
    show "sorted_wrt (\<lambda>a b. by_checkpoint b a \<le> 0) (rev ?C)"
      using oldest_first.sorted_js_sort by (simp add: sorted_wrt_rev checkpoints_of_def)
    show "mset (js_sort (\<lambda>a b. by_checkpoint b a) (obj_values (ws_checkpoints s))) = mset (rev ?C)" by (simp add: checkpoints_of_def)
  next
    fix x y assume "x \<in> set (js_sort (\<lambda>a b. by_checkpoint b a) (obj_values (ws_checkpoints s)))"
      "y \<in> set (js_sort (\<lambda>a b. by_checkpoint b a) (obj_values (ws_checkpoints s)))" "by_checkpoint y x \<le> 0" "by_checkpoint x y \<le> 0"
    then show "x = y" using inj [of x y] by (simp add: checkpoints_of_def by_checkpoint_def)
  qed
  show ?thesis
  proof (cases "?C = []")
    case True
    then show ?thesis by (simp add: getLatestCheckpoint_def doc_query_def desc last_opt_def Let_def)
  next
    case False
    then have "rev ?C = last ?C # tl (rev ?C)" by (metis hd_rev list.collapse rev_is_Nil_conv)
    then have "take 1 (rev ?C) = [last ?C]" by (metis One_nat_def take_Suc_Cons take0)
    then show ?thesis using False parse by (simp add: getLatestCheckpoint_def doc_query_def desc last_opt_def Let_def safe_parse_def)
  qed
qed

lemma createCheckpointInternal_ok:
  assumes ok: "witness_deps_ok deps" and inv: "witness_inv deps s" and head: "doc_get ''head'' (ws_head s) = Some h"
    and new: "doc_get (wi_checkpointId inp) (ws_checkpoints s) = None"
    and pair: "\<And>d. wd_verify deps d (wd_sign deps d (snd (wi_keyPair inp))) (fst (wi_keyPair inp))"
  shows "witness_inv deps (snd (createCheckpointInternal deps inp reason h s))"
proof (cases "\<not> truthy (lh_lastEventHash h) \<or> lh_lastSequence h = 0")
  case True
  with inv show ?thesis by (simp add: createCheckpointInternal_def)
next
  case False
  have fits: "head_fits deps (ledger_of s) (checkpoints_of s) h" using inv head by (simp add: witness_inv_def)
  have L: "ledger_of s \<noteq> []" using False fits by (auto simp: head_fits_def)
  then have hash: "lh_lastEventHash h = Some (we_eventHash (last (ledger_of s)))" using fits by (simp add: head_fits_def last_opt_def)
  have latest: "getLatestCheckpoint deps s = last_opt (checkpoints_of s)" by (rule getLatestCheckpoint_last [OF inv])
  from ensureKeyEpoch_ok [OF ok inv pair, of "lh_activeKeyEpoch h" "wi_now inp"]
  show ?thesis
  proof (elim disjE exE conjE)
    fix e assume "ensureKeyEpoch deps (wi_keyPair inp) (lh_activeKeyEpoch h) (wi_now inp) s = (Inl e, s)"
    with False inv show ?thesis by (simp add: createCheckpointInternal_def bindS_Inl)
  next
    fix k s'
    assume key: "ensureKeyEpoch deps (wi_keyPair inp) (lh_activeKeyEpoch h) (wi_now inp) s = (Inr k, s')"
      and inv': "witness_inv deps s'" and k: "doc_get (show_nat (lh_activeKeyEpoch h)) (ws_keys s') = Some k"
      "\<forall>d. wd_verify deps d (wd_sign deps d (ke_privateKeyPem k)) (ke_publicKeyPem k)"
      and same: "ws_events s' = ws_events s" "ws_checkpoints s' = ws_checkpoints s" "ws_head s' = ws_head s"
    have views: "ledger_of s' = ledger_of s" "checkpoints_of s' = checkpoints_of s" by (simp_all add: ledger_of_def checkpoints_of_def same)
    define body where "body = checkpoint_body_for h (the (lh_lastEventHash h)) (last_opt (checkpoints_of s)) reason"
    define c where "c = \<lparr>wc_id = wi_checkpointId inp, wc_body = body, wc_checkpointHash = buildCheckpointHash deps body,
      wc_signature = wd_sign deps (buildCheckpointHash deps body) (ke_privateKeyPem k), wc_createdAt = wi_now inp\<rparr>"
    define h' where "h' = h\<lparr>lh_lastCheckpointSequence := cb_checkpointSequence body, lh_lastCheckpointHash := Some (buildCheckpointHash deps body),
      lh_updatedAt := wi_now inp\<rparr>"
    have run: "createCheckpointInternal deps inp reason h s =
        bindS (liftR (wd_parseCheckpoint deps c)) (\<lambda>c. bindS (saveCheckpoint deps c h') (\<lambda>_. returnS c)) s'"
      using False key by (simp add: createCheckpointInternal_def latest bindS_Inr body_def c_def h'_def Let_def)
    show ?thesis
    proof (cases "wd_parseCheckpoint deps c")
      case (Inl e)
      with inv' show ?thesis by (simp add: run)
    next
      case (Inr c')
      then have c': "c' = c" "wd_parseCheckpoint deps c = Inr c" using deps_okD(2) [OF ok] by auto
      let ?s = "(put_head h' (put_checkpoint c s'))\<lparr>ws_writes := ws_writes s' + 2\<rparr>"
      have final: "snd (createCheckpointInternal deps inp reason h s) = ?s"
        using c' by (simp add: run saveCheckpoint_def saveLedgerHead_def bindS_Inr [OF write_doc_ok [OF ok]] write_doc_ok [OF ok] bindS_def)
          (simp add: put_head_def)
      have C: "checkpoints_of (put_checkpoint c s') = checkpoints_of s @ [c]"
        using sorted_checkpoints_put [OF inv', of c] new fits
        by (simp add: views same c_def body_def checkpoint_body_for_def head_fits_def)
      have prev: "map_option wc_checkpointHash (last_of None (checkpoints_of s)) = cb_previousCheckpointHash body"
        by (simp add: body_def checkpoint_body_for_def last_opt_last_of)
      have chain: "checkpoint_chain deps (ws_keys s) (ledger_of s) None (checkpoints_of s)" using inv by (simp add: witness_inv_def)
      have seq: "wc_sequence c = (case last_of None (checkpoints_of s) of None \<Rightarrow> 1 | Some p \<Rightarrow> wc_sequence p + 1)"
        using checkpoint_chain_sequences [OF chain, of "length (checkpoints_of s) - 1"] fits
        by (auto simp: c_def body_def checkpoint_body_for_def head_fits_def last_of_def last_conv_nth)
      have head_at: "lh_lastSequence h = length (ledger_of s)" using fits by (simp add: head_fits_def)
      have "cb_startEventSequence body \<le> cb_endEventSequence body \<and> 0 < cb_endEventSequence body \<and> cb_endEventSequence body \<le> length (ledger_of s) \<and>
          we_eventHash (ledger_of s ! (cb_endEventSequence body - 1)) = cb_ledgerHeadHash body"
        using L head_at hash by (auto simp: body_def checkpoint_body_for_def last_conv_nth split: option.split) (cases "ledger_of s"; simp)
      then have "checkpoint_ok deps (ws_keys s') (ledger_of s) (last_of None (checkpoints_of s)) c"
        using k prev seq unfolding checkpoint_ok_def by (simp add: c_def) (simp add: body_def checkpoint_body_for_def)
      moreover have "checkpoint_chain deps (ws_keys s') (ledger_of s) None (checkpoints_of s)" using inv' by (simp add: witness_inv_def views)
      ultimately have chain': "checkpoint_chain deps (ws_keys s') (ledger_of s) None (checkpoints_of s @ [c])"
        by (simp add: checkpoint_chain_append)
      have own: "own_head deps h'" using fits by (auto simp: own_head_def h'_def head_fits_def buildCheckpointHash_def hashCanonical_def)
      have fits': "head_fits deps (ledger_of s) (checkpoints_of s @ [c]) h'"
        using own fits by (simp add: head_fits_def h'_def body_def checkpoint_body_for_def)
      have keys: "distinct (obj_keys (ws_checkpoints (put_head h' (put_checkpoint c s'))))"
        using inv' by (simp add: witness_inv_def put_checkpoint_def doc_put_def distinct_keys_obj_set)
      have "witness_inv deps (put_head h' (put_checkpoint c s'))"
        using inv' chain' fits' c'(2) keys unfolding witness_inv_def view_simps C views by (simp add: ball_Un)
      then show ?thesis by (simp add: final)
    qed
  qed
qed

lemma append_event_ok:
  assumes ok: "witness_deps_ok deps" and inv: "witness_inv deps s" and m: "moment_ok deps inp s"
    and coded: "ai_stage a = StInvariant \<Longrightarrow> \<exists>c d. ai_invariantCode a = Some c \<and> mapInvariantToEnforcement c = Inr d"
  shows "witness_inv deps (snd (append_event deps inp a s))"
proof -
  obtain h s1 where g: "getLedgerHead deps (wi_now inp) s = (Inr h, s1)" "witness_inv deps s1" "doc_get ''head'' (ws_head s1) = Some h"
    "ws_events s1 = ws_events s" "ws_checkpoints s1 = ws_checkpoints s" using getLedgerHead_ok [OF ok inv] by metis
  have run: "append_event deps inp a s = bindS (appendLedgerEvent deps h (wi_eventId inp) a (wi_now inp))
      (\<lambda>(event, nextHead). bindS (maybeIntervalCheckpoint deps inp nextHead) (\<lambda>_. returnS event)) s1"
    by (simp add: append_event_def bindS_Inr [of "getLedgerHead deps (wi_now inp)" s, OF g(1)])
  have new: "doc_get (wi_eventId inp) (ws_events s1) = None" "doc_get (wi_checkpointId inp) (ws_checkpoints s1) = None"
    and pair: "wd_verify deps d (wd_sign deps d (snd (wi_keyPair inp))) (fst (wi_keyPair inp))" for d
    using m g by (simp_all add: moment_ok_def)
  have "(\<exists>e. appendLedgerEvent deps h (wi_eventId inp) a (wi_now inp) s1 = (Inl e, s1)) \<or>
    (\<exists>e h' s2. appendLedgerEvent deps h (wi_eventId inp) a (wi_now inp) s1 = (Inr (e, h'), s2) \<and> witness_inv deps s2 \<and>
       doc_get ''head'' (ws_head s2) = Some h' \<and> ws_checkpoints s2 = ws_checkpoints s1)"
    by (rule appendLedgerEvent_ok [OF ok g(2,3) new(1)]) (rule coded)
  then show ?thesis
  proof (elim disjE exE conjE)
    fix e assume "appendLedgerEvent deps h (wi_eventId inp) a (wi_now inp) s1 = (Inl e, s1)"
    with g(2) show ?thesis by (simp add: run bindS_Inl)
  next
    fix e h' s2
    assume app: "appendLedgerEvent deps h (wi_eventId inp) a (wi_now inp) s1 = (Inr (e, h'), s2)" and s2: "witness_inv deps s2"
      "doc_get ''head'' (ws_head s2) = Some h'" "ws_checkpoints s2 = ws_checkpoints s1"
    have "witness_inv deps (snd (createCheckpointInternal deps inp ReasonInterval h' s2))"
      by (rule createCheckpointInternal_ok [OF ok s2(1,2)]) (simp_all add: s2(3) new(2) pair)
    then have "witness_inv deps (snd (maybeIntervalCheckpoint deps inp h' s2))"
      using s2(1) by (auto simp: maybeIntervalCheckpoint_def bindS_def split: prod.split sum.split)
    then show ?thesis by (auto simp: run bindS_Inr [of "appendLedgerEvent deps h (wi_eventId inp) a (wi_now inp)" s1, OF app] bindS_def [of "maybeIntervalCheckpoint deps inp h'"] split: prod.split sum.split)
  qed
qed

lemma snd_bind_return [simp]: "snd (bindS m (\<lambda>_. returnS x) s) = snd (m s)"
  by (cases "m s") (auto simp: bindS_def split: sum.split)

lemma liftR_keeps: "(\<And>x. r = Inr x \<Longrightarrow> P (snd (f x s))) \<Longrightarrow> P s \<Longrightarrow> P (snd (bindS (liftR r) f s))"
  by (cases r) simp_all

lemma rotateKeyEpoch_ok:
  assumes ok: "witness_deps_ok deps" and inv: "witness_inv deps s" and m: "moment_ok deps inp s"
  shows "witness_inv deps (snd (rotateKeyEpoch deps inp s))"
proof -
  obtain h s1 where g: "getLedgerHead deps (wi_now inp) s = (Inr h, s1)" "witness_inv deps s1" "doc_get ''head'' (ws_head s1) = Some h"
    "ws_checkpoints s1 = ws_checkpoints s" using getLedgerHead_ok [OF ok inv] by metis
  define h' where "h' = h\<lparr>lh_activeKeyEpoch := lh_activeKeyEpoch h + 1, lh_updatedAt := wi_now inp\<rparr>"
  have pair: "wd_verify deps d (wd_sign deps d (snd (wi_keyPair inp))) (fst (wi_keyPair inp))" for d
    using m by (simp add: moment_ok_def)
  from ensureKeyEpoch_ok [OF ok g(2) pair, of "lh_activeKeyEpoch h + 1" "wi_now inp"]
  show ?thesis
  proof (elim disjE exE conjE)
    fix e assume "ensureKeyEpoch deps (wi_keyPair inp) (lh_activeKeyEpoch h + 1) (wi_now inp) s1 = (Inl e, s1)"
    with g(2) show ?thesis by (simp add: rotateKeyEpoch_def bindS_Inr [of "getLedgerHead deps (wi_now inp)" s, OF g(1)] bindS_Inl Let_def)
  next
    fix k s2
    assume key: "ensureKeyEpoch deps (wi_keyPair inp) (lh_activeKeyEpoch h + 1) (wi_now inp) s1 = (Inr k, s2)"
      and s2: "witness_inv deps s2" "ws_checkpoints s2 = ws_checkpoints s1" "ws_head s2 = ws_head s1"
    have "head_fits deps (ledger_of s2) (checkpoints_of s2) h" using s2(1,3) g(3) by (simp add: witness_inv_def)
    then have "head_fits deps (ledger_of s2) (checkpoints_of s2) h'" by (simp add: head_fits_def own_head_def h'_def)
    then have inv': "witness_inv deps (put_head h' s2)" by (rule witness_inv_head [OF s2(1)])
    let ?s = "(put_head h' s2)\<lparr>ws_writes := ws_writes s2 + 1\<rparr>"
    have "witness_inv deps (snd (createCheckpointInternal deps inp ReasonRotation h' ?s))"
      by (rule createCheckpointInternal_ok [OF ok]) (use inv' m g(4) s2(2) pair in \<open>simp_all add: moment_ok_def\<close>)
    then have cp: "witness_inv deps (snd (bindS (createCheckpointInternal deps inp ReasonRotation h') (\<lambda>_. returnS ()) ?s))"
      by simp
    have "rotateKeyEpoch deps inp s =
        bindS (if 0 < lh_lastSequence h' then bindS (createCheckpointInternal deps inp ReasonRotation h') (\<lambda>_. returnS ()) else returnS ())
          (\<lambda>_. returnS (lh_activeKeyEpoch h + 1)) ?s"
      unfolding rotateKeyEpoch_def bindS_Inr [of "getLedgerHead deps (wi_now inp)" s, OF g(1)] Let_def h'_def [symmetric]
        bindS_Inr [of "ensureKeyEpoch deps (wi_keyPair inp) (lh_activeKeyEpoch h + 1) (wi_now inp)" s1, OF key] saveLedgerHead_def
      by (rule bindS_Inr [OF write_doc_ok [OF ok]])
    with inv' cp show ?thesis by simp
  qed
qed

lemma issueAttestationReceipt_ok:
  assumes ok: "witness_deps_ok deps" and inv: "witness_inv deps s" and m: "moment_ok deps inp s"
  shows "\<exists>res s'. issueAttestationReceipt deps inp subjectHash s = (res, s') \<and> witness_inv deps s'"
proof -
  obtain h s1 where g: "getLedgerHead deps (wi_now inp) s = (Inr h, s1)" "witness_inv deps s1"
    using getLedgerHead_ok [OF ok inv] by metis
  have pair: "wd_verify deps d (wd_sign deps d (snd (wi_keyPair inp))) (fst (wi_keyPair inp))" for d
    using m by (simp add: moment_ok_def)
  from ensureKeyEpoch_ok [OF ok g(2) pair, of "lh_activeKeyEpoch h" "wi_now inp"]
  obtain res s2 where key: "ensureKeyEpoch deps (wi_keyPair inp) (lh_activeKeyEpoch h) (wi_now inp) s1 = (res, s2)" "witness_inv deps s2"
    using g(2) by blast
  show ?thesis
    unfolding issueAttestationReceipt_def bindS_Inr [of "getLedgerHead deps (wi_now inp)" s, OF g(1)]
    using key by (cases res) (simp_all add: bindS_def Let_def)
qed

lemma store_report_ok:
  assumes ok: "witness_deps_ok deps" and inv: "witness_inv deps s"
  shows "witness_inv deps (snd (bindS (liftR r) (\<lambda>report. bindS (write_doc deps (put_report report)) (\<lambda>_. returnS report)) s))"
proof (cases r)
  case (Inl e)
  with inv show ?thesis by simp
next
  case (Inr report)
  with witness_inv_report [OF inv, of report] show ?thesis by (simp add: write_doc_ok [OF ok])
qed

lemma bind_ok:
  assumes "m s = (res, s')" and "P s'" and "\<And>x. P (snd (f x s'))"
  shows "P (snd (bindS m f s))"
  using assms by (cases res) (simp_all add: bindS_Inr bindS_Inl)

lemma verify_ledger_ok:
  assumes ok: "witness_deps_ok deps" and inv: "witness_inv deps s" and m: "moment_ok deps inp s"
  shows "witness_inv deps (snd (verify_ledger deps inp a b atEvents atCheckpoints s))"
proof -
  define body where "body = verification_body deps inp a b (listEvents deps atEvents) (listCheckpoints deps atCheckpoints) (verifyCheckpointSignature deps s)"
  show ?thesis
  proof (cases body)
    case (Inl e)
    then have "verify_ledger deps inp a b atEvents atCheckpoints s = (Inl e, s)"
      unfolding verify_ledger_def bindS_simps(5) body_def [symmetric] by simp
    with inv show ?thesis by simp
  next
    case (Inr r)
    obtain res s' where issue: "issueAttestationReceipt deps inp (hashCanonical (wd_sha256 deps) (report_json r)) s = (res, s')" "witness_inv deps s'"
      using issueAttestationReceipt_ok [OF assms] by blast
    have "verify_ledger deps inp a b atEvents atCheckpoints s =
      bindS (issueAttestationReceipt deps inp (hashCanonical (wd_sha256 deps) (report_json r))) (\<lambda>receipt.
        bindS (liftR (wd_parseReport deps \<lparr>vr_body = r, vr_receipt = receipt\<rparr>)) (\<lambda>report.
        bindS (write_doc deps (put_report report)) (\<lambda>_. returnS report))) s"
      unfolding verify_ledger_def bindS_simps(5) body_def [symmetric] Inr bindS_simps(3) ..
    also have "witness_inv deps (snd \<dots>)"
      by (rule bind_ok [where P = "witness_inv deps" and s = s and m = "issueAttestationReceipt deps inp (hashCanonical (wd_sha256 deps) (report_json r))",
          OF issue]) (rule store_report_ok [OF ok issue(2)])
    finally show ?thesis .
  qed
qed

lemma witness_reachable_inv:
  assumes "witness_reachable deps s" and ok: "witness_deps_ok deps"
  shows "witness_inv deps s"
  using assms(1)
proof induction
  case fresh
  then show ?case by (simp add: witness_inv_def empty_witness_def ledger_of_def checkpoints_of_def obj_keys_def obj_values_def doc_get_def)
next
  case (authorization s inp input)
  show ?case
    unfolding appendAuthorization_def
    by (rule liftR_keeps, rule append_event_ok [OF ok authorization(3,2)]) (simp_all add: content_of_def authorization(3))
next
  case (completion s inp ref input)
  show ?case
    unfolding appendCompletion_def
  proof (rule liftR_keeps)
    fix p
    show "witness_inv deps (snd (bindS (getEventById deps ref) (\<lambda>a. case a of
        None \<Rightarrow> throwS (JsError (''Authorization event not found: '' @ ref))
      | Some _ \<Rightarrow> append_event deps inp (content_of StCompletion p (Some ref) (wn_status p) None (wn_detail p) (wi_now inp))) s))"
      using completion(3) append_event_ok [OF ok completion(3,2), of "content_of StCompletion p (Some ref) (wn_status p) None (wn_detail p) (wi_now inp)"]
      by (simp add: getEventById_def content_of_def split: option.split)
  qed (rule completion(3))
next
  case (invariant s inp code input)
  show ?case
    unfolding appendInvariant_def
  proof (rule liftR_keeps, rule liftR_keeps)
    fix p x
    assume x: "mapInvariantToEnforcement code = Inr x"
    obtain sev act where "x = (sev, act)" by (rule prod.exhaust)
    with x show "witness_inv deps (snd ((case x of (severity, enforcement) \<Rightarrow> append_event deps inp
       (content_of StInvariant p None (if enforcement = EnforceHardStop then WsBlocked else WsFailed) (Some code)
         (obj_set ''enforcement'' (JStr (enforcement_text enforcement))
           (obj_set ''severity'' (JStr (severity_text severity)) (wn_detail p))) (wi_now inp))) s))"
      unfolding \<open>x = (sev, act)\<close> prod.case
      by (intro append_event_ok [OF ok invariant(3,2)]) (simp add: content_of_def)
  qed (rule invariant(3))+
next
  case (checkpoint s inp reason)
  obtain h s1 where g: "getLedgerHead deps (wi_now inp) s = (Inr h, s1)" "witness_inv deps s1" "doc_get ''head'' (ws_head s1) = Some h"
    "ws_checkpoints s1 = ws_checkpoints s" using getLedgerHead_ok [OF ok checkpoint(3)] by metis
  show ?case
    unfolding createCheckpoint_def bindS_Inr [of "getLedgerHead deps (wi_now inp)" s, OF g(1)]
    by (rule createCheckpointInternal_ok [OF ok g(2,3)]) (use checkpoint(2) g(4) in \<open>simp_all add: moment_ok_def\<close>)
next
  case (rotation s inp)
  then show ?case by (intro rotateKeyEpoch_ok [OF ok])
next
  case (verification s inp a b atEvents atCheckpoints)
  then show ?case by (intro verify_ledger_ok [OF ok])
qed

end
