(* ===== verification/Witness_Verification.thy ===== *)
theory Witness_Verification
  imports Witness_Properties
begin

text \<open>
  What a verification of the witness ledger says: an undisturbed one of an honest ledger finds
  nothing but what the events report, a tampered ledger with an unchanged head needs a collision of
  the hash; a part of the ledger that does not begin with its first event always fails, and a
  ledger cut after its last checkpoint passes.
\<close>

section \<open>Reading the chains\<close>

lemma map_filter_parse:
  "(\<And>x. x \<in> set xs \<Longrightarrow> parse x = Inr x) \<Longrightarrow> List.map_filter (safe_parse parse) xs = xs"
  by (induction xs) (simp_all add: List.map_filter_simps safe_parse_def)

lemma listEvents_ledger: "witness_inv deps s \<Longrightarrow> listEvents deps s = ledger_of s"
  by (simp add: listEvents_def doc_query_def Let_def ledger_of_def [symmetric] witness_inv_def map_filter_parse)

lemma listCheckpoints_chain: "witness_inv deps s \<Longrightarrow> listCheckpoints deps s = checkpoints_of s"
  by (simp add: listCheckpoints_def doc_query_def Let_def checkpoints_of_def [symmetric] witness_inv_def map_filter_parse)

lemma event_chain_loop: "event_chain deps prev es \<Longrightarrow> event_loop deps now prev es = Inr (True, True, [])"
  by (induction deps prev es rule: event_chain.induct) (auto simp: sequence_gap_def split: option.splits)

lemma checkpoint_chain_loop:
  assumes "checkpoint_chain deps ks evs prev cs" and "\<And>c p. c \<in> set cs \<Longrightarrow> checkpoint_ok deps ks evs p c \<Longrightarrow> checkpoint_problems deps evs' p c = [] \<and> signed c"
  shows "checkpoint_loop deps signed evs' now prev cs = Inr (True, True, [])"
  using assms by (induction cs arbitrary: prev) auto

lemma event_with_sequence_chain:
  assumes "event_chain deps None es"
  shows "event_with_sequence es n = (if 1 \<le> n \<and> n \<le> length es then Some (es ! (n - 1)) else None)"
proof -
  let ?kvs = "map (\<lambda>e. (we_sequence e, e)) es"
  have seqs: "map fst ?kvs = map Suc [0..<length es]"
    by (rule nth_equalityI) (simp_all add: event_chain_sequences [OF assms])
  have "distinct (map fst ?kvs)" unfolding seqs by (simp add: distinct_map)
  then have entries: "from_entries [] ?kvs = ?kvs" using from_entries_distinct [of ?kvs "[]"] by (simp add: obj_keys_def)
  show ?thesis
  proof (cases "1 \<le> n \<and> n \<le> length es")
    case True
    then have "n - 1 < length es" by linarith
    with True have "we_sequence (es ! (n - 1)) = n" "es ! (n - 1) \<in> set es"
      using event_chain_sequences [OF assms, of "n - 1"] by simp_all
    then have "(n, es ! (n - 1)) \<in> set ?kvs" by force
    then have "map_of ?kvs n = Some (es ! (n - 1))" using \<open>distinct (map fst ?kvs)\<close> by simp
    with True show ?thesis by (simp add: event_with_sequence_def entries obj_get_def)
  next
    case False
    then have "n \<notin> set (map fst ?kvs)" unfolding seqs by auto
    then have "map_of ?kvs n = None" unfolding map_of_eq_None_iff by (simp add: image_image)
    with False show ?thesis unfolding event_with_sequence_def entries obj_get_def by auto
  qed
qed

lemma checkpoint_no_problems:
  assumes "event_chain deps None evs'" and "checkpoint_ok deps ks (evs' @ rest) p c" and "cb_endEventSequence (wc_body c) \<le> length evs'"
  shows "checkpoint_problems deps evs' p c = []"
proof -
  have e: "1 \<le> cb_endEventSequence (wc_body c)" "(evs' @ rest) ! (cb_endEventSequence (wc_body c) - 1) = evs' ! (cb_endEventSequence (wc_body c) - 1)"
    using assms(2,3) by (auto simp: checkpoint_ok_def nth_append)
  then show ?thesis
    using assms(2,3) event_with_sequence_chain [OF assms(1), of "cb_endEventSequence (wc_body c)"]
    by (auto simp: checkpoint_problems_def checkpoint_ok_def split: option.splits)
qed

lemma signature_stored:
  assumes "witness_inv deps s" and "checkpoint_ok deps (ws_keys s) evs p c"
  shows "verifyCheckpointSignature deps s c"
proof -
  obtain k where k: "doc_get (show_nat (cb_keyEpoch (wc_body c))) (ws_keys s) = Some k"
    "wd_verify deps (wc_checkpointHash c) (wc_signature c) (ke_publicKeyPem k)" using assms(2) by (auto simp: checkpoint_ok_def)
  then have "wd_parseKey deps k = Inr k" using assms(1) by (auto simp: witness_inv_def)
  with k show ?thesis by (simp add: verifyCheckpointSignature_def getKeyEpoch_def safe_parse_def)
qed

lemma findings_of_total:
  "(\<And>x. x \<in> set ps \<Longrightarrow> \<exists>d. mapInvariantToEnforcement (fst x) = Inr d) \<Longrightarrow> \<exists>fs. findings_of now ps = Inr fs \<and> map nd_code fs = map fst ps"
proof (induction ps)
  case Nil
  then show ?case by simp
next
  case (Cons p ps)
  obtain code description ids where p: "p = (code, description, ids)" by (rule prod_cases3)
  obtain s e where "mapInvariantToEnforcement code = Inr (s, e)" using Cons.prems [of p] by (auto simp: p)
  moreover obtain fs where "findings_of now ps = Inr fs" "map nd_code fs = map fst ps"
    using Cons.IH Cons.prems by auto
  ultimately show ?case by (simp add: p createInvariantFinding_def)
qed

lemma evidence_codes: "mapInvariantToEnforcement ''EVID-MISSING-COMPLETION'' = Inr (S1, EnforceAutoPause)"
  "mapInvariantToEnforcement ''EVID-MISSING-AUTHORIZATION'' = Inr (S1, EnforceAutoPause)"
  by code_simp+

lemma chain_codes:
  "mapInvariantToEnforcement ''CHAIN-SEQUENCE-GAP'' = Inr (S0, EnforceHardStop)"
  "mapInvariantToEnforcement ''CHAIN-PAYLOAD-HASH-MISMATCH'' = Inr (S0, EnforceHardStop)"
  "mapInvariantToEnforcement ''CHAIN-PREVIOUS-HASH-MISMATCH'' = Inr (S0, EnforceHardStop)"
  "mapInvariantToEnforcement ''CHAIN-EVENT-HASH-MISMATCH'' = Inr (S0, EnforceHardStop)"
  "mapInvariantToEnforcement ''CHAIN-CHECKPOINT-SEQUENCE-GAP'' = Inr (S0, EnforceHardStop)"
  "mapInvariantToEnforcement ''CHAIN-CHECKPOINT-LINK-BROKEN'' = Inr (S0, EnforceHardStop)"
  "mapInvariantToEnforcement ''CHAIN-CHECKPOINT-HASH-MISMATCH'' = Inr (S0, EnforceHardStop)"
  "mapInvariantToEnforcement ''CHAIN-CHECKPOINT-LEDGER-HEAD-MISMATCH'' = Inr (S0, EnforceHardStop)"
  "mapInvariantToEnforcement ''CHAIN-CHECKPOINT-SIGNATURE-INVALID'' = Inr (S0, EnforceHardStop)"
  by code_simp+

section \<open>What a verification finds\<close>

definition reported_problems :: "witness_event list \<Rightarrow> (string \<times> string \<times> string list) list" where
  \<comment> \<open>the invariant violations the events report, and the evidence they lack\<close>
  "reported_problems evs = List.map_filter invariant_problem evs @ evidence_problems evs"

lemma findings_of_append:
  "findings_of now ps = Inr fs \<Longrightarrow> findings_of now qs = Inr gs \<Longrightarrow> findings_of now (ps @ qs) = Inr (fs @ gs)"
proof (induction ps arbitrary: fs)
  case Nil
  then show ?case by simp
next
  case (Cons p ps)
  obtain code description ids where p: "p = (code, description, ids)" by (rule prod_cases3)
  from Cons.prems(1) obtain f fs' where "createInvariantFinding code description ids now = Inr f" "findings_of now ps = Inr fs'" "fs = f # fs'"
    by (auto simp: p bindR_Inr_iff)
  with Cons.IH [OF _ Cons.prems(2)] show ?case by (simp add: p)
qed

lemma map_filter_members: "x \<in> set (List.map_filter f xs) \<longleftrightarrow> (\<exists>e \<in> set xs. f e = Some x)"
  by (induction xs) (auto simp: List.map_filter_simps split: option.split)

lemma reported_total:
  assumes "\<forall>e \<in> set evs. coded e"
  shows "\<exists>explicit evidence. collectInvariantEventFindings evs now = Inr explicit \<and>
    findEvidenceCompletenessFindings evs now = Inr evidence \<and> findings_of now (reported_problems evs) = Inr (explicit @ evidence)"
proof -
  have 1: "\<exists>d. mapInvariantToEnforcement (fst x) = Inr d" if x: "x \<in> set (List.map_filter invariant_problem evs)" for x
  proof -
    obtain e where e: "e \<in> set evs" "invariant_problem e = Some x"
      using x unfolding map_filter_members by blast
    then have "ai_stage (we_content e) = StInvariant" "fst x = the (ai_invariantCode (we_content e))"
      by (auto simp: invariant_problem_def Let_def split: if_splits)
    with assms e(1) show ?thesis by (auto simp: coded_def)
  qed
  have 2: "\<exists>d. mapInvariantToEnforcement (fst x) = Inr d" if "x \<in> set (evidence_problems evs)" for x
    using that evidence_codes by (auto simp: evidence_problems_def Let_def)
  obtain fs gs where "findings_of now (List.map_filter invariant_problem evs) = Inr fs" "findings_of now (evidence_problems evs) = Inr gs"
    using findings_of_total [OF 1] findings_of_total [OF 2] by blast
  then show ?thesis using findings_of_append
    by (auto simp: collectInvariantEventFindings_def findEvidenceCompletenessFindings_def reported_problems_def)
qed

lemma clean_body:
  assumes "event_chain deps None evs" and "\<forall>e \<in> set evs. coded e"
    and "checkpoint_loop deps signed evs (wi_now inp) None (filterCheckpointsByRange cps (if evs = [] then 0 else 1) (length evs)) = Inr (True, True, [])"
  shows "\<exists>body. verification_body deps inp None None evs cps signed = Inr body \<and>
    rb_sequenceContiguous body \<and> rb_hashChainValid body \<and> rb_checkpointChainValid body \<and> rb_signaturesValid body \<and>
    rb_eventCount body = length evs \<and> findings_of (wi_now inp) (reported_problems evs) = Inr (rb_findings body)"
proof -
  have from1: "getOr (map_option we_sequence (if evs = [] then None else Some (hd evs))) 0 = (if evs = [] then 0 else 1)"
    using event_chain_sequences [OF assms(1), of 0] by (simp add: hd_conv_nth)
  have to1: "getOr (map_option we_sequence (last_opt evs)) 0 = length evs"
    using event_chain_last [OF assms(1)] by (auto simp: last_opt_def)
  have all: "filterEventsByRange evs (if evs = [] then 0 else 1) (length evs) = evs"
    unfolding filterEventsByRange_def using event_chain_range [OF assms(1)] by (intro filter_True) auto
  obtain explicit evidence where rep: "collectInvariantEventFindings evs (wi_now inp) = Inr explicit"
    "findEvidenceCompletenessFindings evs (wi_now inp) = Inr evidence" "findings_of (wi_now inp) (reported_problems evs) = Inr (explicit @ evidence)"
    using reported_total [OF assms(2)] by blast
  have "verifyEventChain deps evs (wi_now inp) = Inr (True, True, [])" by (simp add: verifyEventChain_def event_chain_loop [OF assms(1)])
  then show ?thesis
    unfolding verification_body_def Let_def getOr_simps from1 to1 all verifyCheckpointChain_def assms(3) rep(1,2) bindR_simps prod.case
    using rep(3) by simp
qed

lemma range_checkpoints:
  assumes "checkpoint_chain deps ks evs None cps" and "m \<le> length evs" and "\<forall>c \<in> set cps. cb_endEventSequence (wc_body c) \<le> m"
  shows "filterCheckpointsByRange cps (if m = 0 then 0 else 1) m = cps"
  unfolding filterCheckpointsByRange_def
proof (intro filter_True ballI)
  fix c assume c: "c \<in> set cps"
  obtain p where "checkpoint_ok deps ks evs p c" using checkpoint_chain_ok [OF assms(1) c] by blast
  moreover have "cb_endEventSequence (wc_body c) \<le> m" using assms(3) c by blast
  ultimately show "(if m = 0 then 0 else 1) \<le> cb_endEventSequence (wc_body c) \<and> cb_startEventSequence (wc_body c) \<le> m"
    by (auto simp: checkpoint_ok_def)
qed

lemma cut_ledger_clean:
  assumes inv: "witness_inv deps s" and m: "m \<le> length (ledger_of s)"
    and last: "\<forall>c \<in> set (checkpoints_of s). cb_endEventSequence (wc_body c) \<le> m"
  shows "\<exists>body. verification_body deps inp None None (take m (ledger_of s)) (checkpoints_of s) (verifyCheckpointSignature deps s) = Inr body \<and>
    rb_sequenceContiguous body \<and> rb_hashChainValid body \<and> rb_checkpointChainValid body \<and> rb_signaturesValid body \<and>
    rb_eventCount body = m \<and> findings_of (wi_now inp) (reported_problems (take m (ledger_of s))) = Inr (rb_findings body)"
proof -
  let ?L = "take m (ledger_of s)"
  have whole: "event_chain deps None (?L @ drop m (ledger_of s))" using inv by (simp add: witness_inv_def)
  then have chain: "event_chain deps None ?L" unfolding event_chain_append2 by blast
  have coded: "\<forall>e \<in> set ?L. coded e" using inv by (auto simp: witness_inv_def dest: in_set_takeD)
  have cps: "checkpoint_chain deps (ws_keys s) (ledger_of s) None (checkpoints_of s)" using inv by (simp add: witness_inv_def)
  have len: "length ?L = m" using m by simp
  have nil: "?L = [] \<longleftrightarrow> m = 0" using len by auto
  have rng: "filterCheckpointsByRange (checkpoints_of s) (if ?L = [] then 0 else 1) (length ?L) = checkpoints_of s"
    unfolding nil len by (rule range_checkpoints [OF cps m last])
  have loop: "checkpoint_loop deps (verifyCheckpointSignature deps s) ?L (wi_now inp) None
      (filterCheckpointsByRange (checkpoints_of s) (if ?L = [] then 0 else 1) (length ?L)) = Inr (True, True, [])"
    unfolding rng
  proof (rule checkpoint_chain_loop [OF cps], rule conjI)
    fix c p assume c: "c \<in> set (checkpoints_of s)" "checkpoint_ok deps (ws_keys s) (ledger_of s) p c"
    have "checkpoint_ok deps (ws_keys s) (?L @ drop m (ledger_of s)) p c" using c(2) by simp
    moreover have "cb_endEventSequence (wc_body c) \<le> length ?L" unfolding len using last c(1) by blast
    ultimately show "checkpoint_problems deps ?L p c = []" by (rule checkpoint_no_problems [OF chain])
    show "verifyCheckpointSignature deps s c" by (rule signature_stored [OF inv c(2)])
  qed
  from clean_body [OF chain coded loop] show ?thesis unfolding len .
qed

text \<open>C20: A verification of the whole ledger that is not disturbed says the truth about an honest one:
  whatever was appended, however checkpoints were taken and keys rotated, the sequence is
  contiguous, both hash chains and all signatures are valid, and the findings are exactly the
  violations that events report and the authorizations and completions that lack their counterpart.\<close>

theorem honest_ledger_verifies:
  assumes "witness_reachable deps s" and "witness_deps_ok deps"
  shows "\<exists>body. verification_body deps inp None None (listEvents deps s) (listCheckpoints deps s) (verifyCheckpointSignature deps s) = Inr body \<and>
    rb_sequenceContiguous body \<and> rb_hashChainValid body \<and> rb_checkpointChainValid body \<and> rb_signaturesValid body \<and>
    findings_of (wi_now inp) (reported_problems (listEvents deps s)) = Inr (rb_findings body)"
proof -
  have inv: "witness_inv deps s" by (rule witness_reachable_inv [OF assms])
  have "\<forall>c \<in> set (checkpoints_of s). cb_endEventSequence (wc_body c) \<le> length (ledger_of s)"
    using inv checkpoint_chain_ok unfolding witness_inv_def checkpoint_ok_def by blast
  from cut_ledger_clean [OF inv le_refl this, of inp] show ?thesis
    unfolding listEvents_ledger [OF inv] listCheckpoints_chain [OF inv] take_all [OF le_refl] by blast
qed

text \<open>C27: Cutting the end off a ledger is not noticed beyond the last checkpoint: with every event
  after it removed, as many as there are, the rest verifies like an honest ledger.\<close>

theorem truncation_unnoticed:
  assumes "witness_reachable deps s" and "witness_deps_ok deps" and "m \<le> length (listEvents deps s)"
    and "\<forall>c \<in> set (listCheckpoints deps s). cb_endEventSequence (wc_body c) \<le> m"
  shows "\<exists>body. verification_body deps inp None None (take m (listEvents deps s)) (listCheckpoints deps s) (verifyCheckpointSignature deps s) = Inr body \<and>
    rb_sequenceContiguous body \<and> rb_hashChainValid body \<and> rb_checkpointChainValid body \<and> rb_signaturesValid body \<and>
    findings_of (wi_now inp) (reported_problems (take m (listEvents deps s))) = Inr (rb_findings body)"
proof -
  have inv: "witness_inv deps s" by (rule witness_reachable_inv [OF assms(1,2)])
  from cut_ledger_clean [OF inv, of m inp] assms(3,4) show ?thesis
    unfolding listEvents_ledger [OF inv] listCheckpoints_chain [OF inv] by blast
qed

section \<open>Parts of a ledger\<close>

lemma first_finding_fails:
  assumes "verification_body deps inp a b evs cps signed = Inr body" and "f \<in> set (rb_findings body)" and "nd_severity f = S0"
  shows "rb_status body = VsFail"
proof -
  have "rb_status body = deriveVerificationStatus (countFindingsBySeverity (rb_findings body))"
    using assms(1) by (auto simp: verification_body_def Let_def bindR_Inr_iff split: prod.splits)
  moreover have "filter (\<lambda>f. nd_severity f = S0) (rb_findings body) \<noteq> []" using assms(2,3) by (auto simp: filter_empty_conv)
  ultimately show ?thesis by (simp add: countFindingsBySeverity_def Let_def)
qed

lemma findings_of_member:
  "findings_of now ps = Inr fs \<Longrightarrow> (code, description, ids) \<in> set ps \<Longrightarrow> mapInvariantToEnforcement code = Inr (s, e) \<Longrightarrow>
   \<exists>f \<in> set fs. nd_code f = code \<and> nd_severity f = s"
proof (induction ps arbitrary: fs)
  case Nil
  then show ?case by simp
next
  case (Cons p ps)
  obtain code' description' ids' where p: "p = (code', description', ids')" by (rule prod_cases3)
  from Cons.prems(1) obtain f fs' where f: "createInvariantFinding code' description' ids' now = Inr f" "findings_of now ps = Inr fs'" "fs = f # fs'"
    by (auto simp: p bindR_Inr_iff)
  show ?case
  proof (cases "p = (code, description, ids)")
    case True
    with f(1) Cons.prems(3) p have "nd_code f = code \<and> nd_severity f = s" by (auto simp: createInvariantFinding_def)
    then show ?thesis by (auto simp: f(3))
  next
    case False
    with Cons.prems(2) Cons.IH [OF f(2) _ Cons.prems(3)] show ?thesis by (auto simp: f(3))
  qed
qed

lemma body_parts:
  assumes "verification_body deps inp a b evs cps signed = Inr body"
  defines "lo \<equiv> getOr a (getOr (map_option we_sequence (if evs = [] then None else Some (hd evs))) 0)"
    and "hi \<equiv> getOr b (getOr (map_option we_sequence (last_opt evs)) 0)"
  obtains c h fs c' h' fs' where "event_loop deps (wi_now inp) None (filterEventsByRange evs lo hi) = Inr (c, h, fs)"
    "checkpoint_loop deps signed (filterEventsByRange evs lo hi) (wi_now inp) None (filterCheckpointsByRange cps lo hi) = Inr (c', h', fs')"
    "rb_hashChainValid body = h" "rb_checkpointChainValid body = c'" "set fs \<union> set fs' \<subseteq> set (rb_findings body)"
  using assms(1)
  by (auto simp: verification_body_def Let_def bindR_Inr_iff verifyEventChain_def verifyCheckpointChain_def lo_def hi_def intro!: that
      split: prod.splits)

lemma hash_problem_codes: "x \<in> set (hash_problems deps prev e) \<Longrightarrow> mapInvariantToEnforcement (fst x) = Inr (S0, EnforceHardStop)"
  unfolding hash_problems_def by (auto simp: chain_codes split: if_splits)

lemma checkpoint_problem_codes: "x \<in> set (checkpoint_problems deps evs prev c) \<Longrightarrow> mapInvariantToEnforcement (fst x) = Inr (S0, EnforceHardStop)"
  unfolding checkpoint_problems_def by (auto simp: chain_codes split: if_splits option.splits)

lemma event_loop_total: "\<exists>r. event_loop deps now prev es = Inr r"
proof (induction es arbitrary: prev)
  case Nil
  then show ?case by (rule exI) (rule event_loop.simps(1))
next
  case (Cons e es)
  let ?gap = "if sequence_gap prev e then [(''CHAIN-SEQUENCE-GAP'', ''sequence gap at event '' @ we_id e, [we_id e])] else []"
  have "\<exists>d. mapInvariantToEnforcement (fst x) = Inr d" if "x \<in> set (?gap @ hash_problems deps prev e)" for x
    using that hash_problem_codes [of x deps prev e] chain_codes(1) by (auto split: if_splits)
  from findings_of_total [where now = now, OF this] obtain fs where "findings_of now (?gap @ hash_problems deps prev e) = Inr fs" by blast
  moreover obtain c h fs' where "event_loop deps now (Some e) es = Inr (c, h, fs')" using Cons by (metis prod_cases3)
  ultimately show ?case unfolding event_loop.simps Let_def by simp
qed

lemma checkpoint_loop_total: "\<exists>r. checkpoint_loop deps signed evs now prev cs = Inr r"
proof (induction cs arbitrary: prev)
  case Nil
  then show ?case by (rule exI) (rule checkpoint_loop.simps(1))
next
  case (Cons c cs)
  let ?unsigned = "if signed c then [] else [(''CHAIN-CHECKPOINT-SIGNATURE-INVALID'', ''checkpoint signature invalid at '' @ wc_id c, [])]"
  have "\<exists>d. mapInvariantToEnforcement (fst x) = Inr d" if "x \<in> set (checkpoint_problems deps evs prev c @ ?unsigned)" for x
    using that checkpoint_problem_codes [of x deps evs prev c] chain_codes(9) by (auto split: if_splits)
  from findings_of_total [where now = now, OF this] obtain fs where "findings_of now (checkpoint_problems deps evs prev c @ ?unsigned) = Inr fs" by blast
  moreover obtain a h fs' where "checkpoint_loop deps signed evs now (Some c) cs = Inr (a, h, fs')" using Cons by (metis prod_cases3)
  ultimately show ?case unfolding checkpoint_loop.simps Let_def by simp
qed

lemma body_total:
  assumes "\<forall>e \<in> set evs. coded e"
  shows "\<exists>body. verification_body deps inp a b evs cps signed = Inr body"
proof -
  let ?lo = "getOr a (getOr (map_option we_sequence (if evs = [] then None else Some (hd evs))) 0)"
  let ?hi = "getOr b (getOr (map_option we_sequence (last_opt evs)) 0)"
  let ?evs = "filterEventsByRange evs ?lo ?hi"
  have "\<forall>e \<in> set ?evs. coded e" using assms by (auto simp: filterEventsByRange_def)
  from reported_total [OF this, of "wi_now inp"] obtain explicit evidence where rep: "collectInvariantEventFindings ?evs (wi_now inp) = Inr explicit"
    "findEvidenceCompletenessFindings ?evs (wi_now inp) = Inr evidence" by blast
  obtain c h fs where 1: "verifyEventChain deps ?evs (wi_now inp) = Inr (c, h, fs)"
    using event_loop_total [of deps "wi_now inp" None ?evs] unfolding verifyEventChain_def by (metis prod_cases3)
  obtain c' h' fs' where 2: "verifyCheckpointChain deps (filterCheckpointsByRange cps ?lo ?hi) ?evs (wi_now inp) signed = Inr (c', h', fs')"
    using checkpoint_loop_total [of deps signed ?evs "wi_now inp" None] unfolding verifyCheckpointChain_def by (metis prod_cases3)
  show ?thesis unfolding verification_body_def Let_def 1 2 rep bindR_simps prod.case by blast
qed

text \<open>C26: A verification of any range that starts after the first event and holds at least one event
  always fails: the first event of the range names its predecessor, but the verifier expects it to
  name none, so every such report has the status \<open>fail\<close> and an invalid hash chain, however honest the
  ledger is and wherever the range ends.\<close>

theorem partial_verification_fails:
  assumes "witness_reachable deps s" and "witness_deps_ok deps" and "1 < a" and "a \<le> length (listEvents deps s)"
    and "a \<le> getOr b a"
  shows "\<exists>body. verification_body deps inp (Some a) b (listEvents deps s) (listCheckpoints deps s) (verifyCheckpointSignature deps s) = Inr body \<and>
    rb_status body = VsFail \<and> \<not> rb_hashChainValid body"
proof -
  have inv: "witness_inv deps s" by (rule witness_reachable_inv [OF assms(1,2)])
  have "\<forall>e \<in> set (listEvents deps s). coded e" using inv by (simp add: listEvents_ledger [OF inv] witness_inv_def)
  from body_total [OF this] obtain body where result: "verification_body deps inp (Some a) b (listEvents deps s) (listCheckpoints deps s)
    (verifyCheckpointSignature deps s) = Inr body" by blast
  let ?L = "ledger_of s"
  have chain: "event_chain deps None ?L" using inv by (simp add: witness_inv_def)
  have a: "a \<le> length ?L" using assms(4) by (simp add: listEvents_ledger [OF inv])
  have ne: "?L \<noteq> []" using a assms(3) by auto
  obtain hi where hi: "getOr b (getOr (map_option we_sequence (last_opt ?L)) 0) = hi" "a \<le> hi"
    using event_chain_last [OF chain ne] ne a assms(5) by (cases b) (simp_all add: last_opt_def)
  obtain e rest where first: "drop (a - 1) ?L = e # rest" "e = ?L ! (a - 1)"
    using a assms(3) by (metis Cons_nth_drop_Suc One_nat_def Suc_diff_Suc diff_Suc_less less_le_trans zero_less_one order.strict_trans minus_nat.diff_0)
  obtain rest' where rng: "filterEventsByRange ?L a hi = e # rest'"
  proof -
    have "\<not> a \<le> we_sequence x" if "x \<in> set (take (a - 1) ?L)" for x
      using that event_chain_sequences [OF chain] assms(3) by (fastforce simp: in_set_conv_nth)
    then have "filter (\<lambda>x. a \<le> we_sequence x \<and> we_sequence x \<le> hi) (take (a - 1) ?L) = []" by (simp add: filter_empty_conv)
    moreover have "we_sequence e = a" using event_chain_sequences [OF chain, of "a - 1"] a assms(3) first(2) by simp
    ultimately have "filter (\<lambda>x. a \<le> we_sequence x \<and> we_sequence x \<le> hi) (take (a - 1) ?L @ e # rest)
        = e # filter (\<lambda>x. a \<le> we_sequence x \<and> we_sequence x \<le> hi) rest" using hi(2) by simp
    then show thesis using that first(1) unfolding filterEventsByRange_def by (metis append_take_drop_id)
  qed
  have "event_chain deps None (take (a - 1) ?L @ e # rest)" using chain first(1) by (metis append_take_drop_id)
  then have "hash_problems deps (last_of None (take (a - 1) ?L)) e = []" by (simp add: event_chain_append2)
  moreover have "take (a - 1) ?L \<noteq> []" using a assms(3) by auto
  ultimately have prev: "we_previousEventHash e \<noteq> None" by (auto simp: hash_problems_def last_of_def split: if_splits)
  have problem: "(''CHAIN-PREVIOUS-HASH-MISMATCH'', ''previous hash mismatch at event '' @ we_id e, [we_id e]) \<in> set (hash_problems deps None e)"
    using prev by (simp add: hash_problems_def)
  have body: "verification_body deps inp (Some a) b ?L (checkpoints_of s) (verifyCheckpointSignature deps s) = Inr body"
    using result by (simp add: listEvents_ledger [OF inv] listCheckpoints_chain [OF inv])
  obtain c h fs fs' where loop: "event_loop deps (wi_now inp) None (e # rest') = Inr (c, h, fs)" "rb_hashChainValid body = h"
    "set fs \<union> set fs' \<subseteq> set (rb_findings body)"
    using body_parts [OF body, unfolded getOr_simps hi(1) rng] by metis
  from loop(1) obtain gs c1 h1 gs' where parts: "findings_of (wi_now inp) ((if sequence_gap None e then [(''CHAIN-SEQUENCE-GAP'', ''sequence gap at event '' @ we_id e, [we_id e])] else []) @ hash_problems deps None e) = Inr gs"
    "fs = gs @ gs'" "h = (hash_problems deps None e = [] \<and> h1)"
    by (auto simp: Let_def bindR_Inr_iff split: prod.splits)
  obtain f where "f \<in> set gs" "nd_severity f = S0"
    using findings_of_member [OF parts(1) _ chain_codes(3)] problem by auto
  then have "rb_status body = VsFail" using first_finding_fails [OF body] loop(3) parts(2) by auto
  moreover have "\<not> h" using parts(3) problem by auto
  ultimately show ?thesis using loop(2) result by blast
qed

section \<open>Tampering\<close>

text \<open>A collision is a pair of different texts, one hashed in each of the two ledgers, with one digest.\<close>

definition payload_text :: "append_input \<Rightarrow> string" where
  "payload_text a = stableStringify (buildEventPayload a)"

definition event_text :: "nat \<Rightarrow> string option \<Rightarrow> string \<Rightarrow> string" where
  "event_text n prev payloadHash = stableStringify (JObj
     [(''sequence'', JNum n), (''previousEventHash'', nullable prev), (''payloadHash'', JStr payloadHash)])"

definition hashed_texts :: "witness_event list \<Rightarrow> string list" where
  "hashed_texts L = concat (map (\<lambda>e. [payload_text (we_content e), event_text (we_sequence e) (we_previousEventHash e) (we_payloadHash e)]) L)"

definition collision :: "witness_deps \<Rightarrow> string list \<Rightarrow> string list \<Rightarrow> bool" where
  "collision deps xs ys \<longleftrightarrow> (\<exists>x \<in> set xs. \<exists>y \<in> set ys. x \<noteq> y \<and> wd_sha256 deps x = wd_sha256 deps y)"

lemma hash_of_text: "payload_hash deps a = wd_sha256 deps (payload_text a)" "event_hash deps n prev h = wd_sha256 deps (event_text n prev h)"
  by (simp_all only: payload_hash_def event_hash_def payload_text_def event_text_def hashCanonical_def)

lemma payload_text_inj: "payload_text a = payload_text b \<Longrightarrow> canonical (buildEventPayload a) = canonical (buildEventPayload b)"
  unfolding payload_text_def stableStringify_def using stringify_inj by blast

lemma canonical_fields:
  assumes "canonical (JObj kvs) = canonical (JObj kvs')" and "distinct (map fst kvs)" and "distinct (map fst kvs')"
  shows "map_of (map (\<lambda>kv. (fst kv, canonical (snd kv))) kvs) = map_of (map (\<lambda>kv. (fst kv, canonical (snd kv))) kvs')"
proof -
  have "set (map (\<lambda>kv. (fst kv, canonical (snd kv))) kvs) = set (map (\<lambda>kv. (fst kv, canonical (snd kv))) kvs')"
    using arg_cong [OF assms(1), of "\<lambda>v. case v of JObj xs \<Rightarrow> set xs | _ \<Rightarrow> {}"] by simp
  then show ?thesis using assms(2,3) by (subst map_of_inject_set) (simp_all add: comp_def)
qed

lemma nullable_inj: "canonical (nullable x) = canonical (nullable y) \<Longrightarrow> x = y"
  by (auto simp: nullable_def split: option.splits)

text \<open>The keys are lifted to variables, so that the lookups compare variables and not strings.\<close>

lemma three_fields:
  assumes "canonical (JObj [(a, x), (b, y), (c, z)]) = canonical (JObj [(a, x'), (b, y'), (c, z')])"
    and "a \<noteq> b" and "a \<noteq> c" and "b \<noteq> c"
  shows "canonical x = canonical x' \<and> canonical y = canonical y' \<and> canonical z = canonical z'"
proof -
  have "map_of (map (\<lambda>kv. (fst kv, canonical (snd kv))) [(a, x), (b, y), (c, z)]) = map_of (map (\<lambda>kv. (fst kv, canonical (snd kv))) [(a, x'), (b, y'), (c, z')])"
    by (rule canonical_fields [OF assms(1)]) (use assms(2-4) in simp_all)
  note same = fun_cong [OF this]
  show ?thesis using same [of a] same [of b] same [of c] assms(2-4) by simp
qed

lemma event_text_inj:
  assumes "event_text n prev h = event_text n' prev' h'"
  shows "n = n' \<and> prev = prev' \<and> h = h'"
proof -
  have "canonical (JNum n) = canonical (JNum n') \<and> canonical (nullable prev) = canonical (nullable prev') \<and> canonical (JStr h) = canonical (JStr h')"
    by (rule three_fields [OF stringify_inj [OF assms [unfolded event_text_def stableStringify_def]]]) simp_all
  then show ?thesis using nullable_inj by simp
qed

fun hash_chain :: "witness_deps \<Rightarrow> witness_event option \<Rightarrow> witness_event list \<Rightarrow> bool" where
  "hash_chain deps prev [] \<longleftrightarrow> True"
| "hash_chain deps prev (e # es) \<longleftrightarrow> hash_problems deps prev e = [] \<and> hash_chain deps (Some e) es"

lemma loop_hash_chain: "event_loop deps now prev es = Inr (c, True, fs) \<Longrightarrow> hash_chain deps prev es"
  by (induction es arbitrary: prev c fs) (auto simp: Let_def bindR_Inr_iff split: prod.splits)

lemma hash_chain_append: "hash_chain deps prev (es @ [e]) \<longleftrightarrow> hash_chain deps prev es \<and> hash_problems deps (last_of prev es) e = []"
  by (induction es arbitrary: prev) auto

lemma no_hash_problems: "hash_problems deps prev e = [] \<longleftrightarrow> payload_hash deps (we_content e) = we_payloadHash e \<and>
    we_previousEventHash e = map_option we_eventHash prev \<and>
    event_hash deps (we_sequence e) (we_previousEventHash e) (we_payloadHash e) = we_eventHash e"
  by (simp add: hash_problems_def)

lemma apart_texts: "\<not> collision deps X Y \<Longrightarrow> t \<in> set X \<Longrightarrow> t' \<in> set Y \<Longrightarrow> wd_sha256 deps t = wd_sha256 deps t' \<Longrightarrow> t = t'"
  unfolding collision_def by blast

lemma hashed_append: "hashed_texts (xs @ ys) = hashed_texts xs @ hashed_texts ys"
  by (simp add: hashed_texts_def)

lemma no_collision_prefix: "\<not> collision deps (hashed_texts (xs @ zs)) (hashed_texts (ys @ zs')) \<Longrightarrow> \<not> collision deps (hashed_texts xs) (hashed_texts ys)"
  unfolding collision_def hashed_append set_append by blast

lemma hashed_last:
  "payload_text (we_content x) \<in> set (hashed_texts (xs @ [x]))"
  "event_text (we_sequence x) (we_previousEventHash x) (we_payloadHash x) \<in> set (hashed_texts (xs @ [x]))"
  by (simp_all add: hashed_texts_def)

lemma chains_agree:
  "hash_chain deps None L \<Longrightarrow> hash_chain deps None L' \<Longrightarrow> map_option we_eventHash (last_of None L) = map_option we_eventHash (last_of None L') \<Longrightarrow>
    \<not> collision deps (hashed_texts L) (hashed_texts L') \<Longrightarrow>
    map (\<lambda>e. canonical (buildEventPayload (we_content e))) L = map (\<lambda>e. canonical (buildEventPayload (we_content e))) L'"
proof (induction L arbitrary: L' rule: rev_induct)
  case Nil
  then show ?case by (auto simp: last_of_def split: if_splits)
next
  case (snoc x xs)
  from snoc.prems(3) obtain ys y where L': "L' = ys @ [y]" by (cases L' rule: rev_cases) auto
  have x: "hash_chain deps None xs" "hash_problems deps (last_of None xs) x = []" using snoc.prems(1) by (simp_all add: hash_chain_append)
  have y: "hash_chain deps None ys" "hash_problems deps (last_of None ys) y = []" using snoc.prems(2) by (simp_all add: hash_chain_append L')
  have apart: "wd_sha256 deps t = wd_sha256 deps t' \<Longrightarrow> t = t'" if "t \<in> set (hashed_texts (xs @ [x]))" "t' \<in> set (hashed_texts (ys @ [y]))" for t t'
    by (rule apart_texts [OF snoc.prems(4) [unfolded L'] that])
  have "event_hash deps (we_sequence x) (we_previousEventHash x) (we_payloadHash x) = event_hash deps (we_sequence y) (we_previousEventHash y) (we_payloadHash y)"
    using snoc.prems(3) x(2) y(2) unfolding no_hash_problems L' last_of_simps option.map option.sel by (metis option.inject)
  then have "event_text (we_sequence x) (we_previousEventHash x) (we_payloadHash x) = event_text (we_sequence y) (we_previousEventHash y) (we_payloadHash y)"
    unfolding hash_of_text by (rule apart [OF hashed_last(2) hashed_last(2)])
  from event_text_inj [OF this] x(2) y(2) have same: "map_option we_eventHash (last_of None xs) = map_option we_eventHash (last_of None ys)"
    "payload_hash deps (we_content x) = payload_hash deps (we_content y)" by (simp_all add: no_hash_problems)
  have texts: "payload_text (we_content x) = payload_text (we_content y)"
    using same(2) unfolding hash_of_text by (rule apart [OF hashed_last(1) hashed_last(1)])
  have "\<not> collision deps (hashed_texts xs) (hashed_texts ys)" by (rule no_collision_prefix [OF snoc.prems(4) [unfolded L']])
  from snoc.IH [OF x(1) y(1) same(1) this] payload_text_inj [OF texts] show ?case by (simp add: L')
qed

text \<open>C21: A changed history shows: if two ledgers both pass the verification of their hash chains and
  end with the same event hash, then they hold the same contents event by event (up to the order of
  object keys), in the same number, or SHA-256 gives one digest to two different texts that were hashed
  for them.\<close>

theorem tampering_shows:
  assumes "verifyEventChain deps L now = Inr (c, True, fs)" and "verifyEventChain deps L' now' = Inr (c', True, fs')"
    and "map_option we_eventHash (last_opt L) = map_option we_eventHash (last_opt L')"
  shows "collision deps (hashed_texts L) (hashed_texts L') \<or>
    map (\<lambda>e. canonical (buildEventPayload (we_content e))) L = map (\<lambda>e. canonical (buildEventPayload (we_content e))) L'"
  using chains_agree [of deps L L'] loop_hash_chain assms unfolding verifyEventChain_def last_opt_last_of by blast

section \<open>Verification beside an append\<close>

text \<open>A verification reads the events before the checkpoints and does not wait for appends, so a
  checkpoint taken in between covers events it has not read.\<close>

lemma verification_race:
  assumes "event_chain deps None evs" and "evs \<noteq> []" and "c \<in> set cps"
    and "cb_startEventSequence (wc_body c) \<le> length evs" and "length evs < cb_endEventSequence (wc_body c)"
    and "verification_body deps inp None None evs cps signed = Inr body"
  shows "rb_status body = VsFail"
proof -
  have lo: "getOr (map_option we_sequence (if evs = [] then None else Some (hd evs))) 0 = 1"
    using event_chain_sequences [OF assms(1), of 0] assms(2) by (simp add: hd_conv_nth)
  have hi: "getOr (map_option we_sequence (last_opt evs)) 0 = length evs"
    using event_chain_last [OF assms(1,2)] assms(2) by (simp add: last_opt_def)
  have all: "filterEventsByRange evs 1 (length evs) = evs"
    unfolding filterEventsByRange_def using event_chain_range [OF assms(1)] by (intro filter_True) auto
  have c: "c \<in> set (filterCheckpointsByRange cps 1 (length evs))" using assms(3-5) by (simp add: filterCheckpointsByRange_def)
  obtain c' h' fs' where loop: "checkpoint_loop deps signed evs (wi_now inp) None (filterCheckpointsByRange cps 1 (length evs)) = Inr (c', h', fs')"
    "set fs' \<subseteq> set (rb_findings body)"
    using body_parts [OF assms(6), unfolded getOr_simps lo hi all] by (metis le_supE)
  have none: "event_with_sequence evs (cb_endEventSequence (wc_body c)) = None"
    using event_with_sequence_chain [OF assms(1)] assms(5) by simp
  have "\<exists>f \<in> set gs. nd_severity f = S0" if "checkpoint_loop deps signed evs now prev cs = Inr (a, b, gs)" "c \<in> set cs" for now prev cs a b gs
    using that
  proof (induction cs arbitrary: prev a b gs)
    case Nil
    then show ?case by simp
  next
    case (Cons d cs)
    from Cons.prems(1) obtain g1 a' b' g2 where parts: "findings_of now (checkpoint_problems deps evs prev d @
        (if signed d then [] else [(''CHAIN-CHECKPOINT-SIGNATURE-INVALID'', ''checkpoint signature invalid at '' @ wc_id d, [])])) = Inr g1"
      "checkpoint_loop deps signed evs now (Some d) cs = Inr (a', b', g2)" "gs = g1 @ g2"
      by (auto simp: Let_def bindR_Inr_iff split: prod.splits)
    show ?case
    proof (cases "d = c")
      case True
      then have "(''CHAIN-CHECKPOINT-LEDGER-HEAD-MISMATCH'', ''checkpoint ledger head mismatch at '' @ wc_id c, []) \<in> set (checkpoint_problems deps evs prev d)"
        by (simp add: checkpoint_problems_def none)
      then show ?thesis using findings_of_member [OF parts(1) _ chain_codes(8)] parts(3) by fastforce
    next
      case False
      with Cons.prems(2) Cons.IH [OF parts(2)] show ?thesis by (auto simp: parts(3))
    qed
  qed
  from this [OF loop(1) c] loop(2) first_finding_fails [OF assms(6)] show ?thesis by blast
qed

end
