(* ===== verification/Witness_Runs.thy ===== *)
theory Witness_Runs
  imports Witness_Verification
begin

text \<open>
  A run of the witness ledger: an authorization, its completion, with which a checkpoint falls due,
  and a second authorization; and the witnesses of the properties of \<open>Witness_Verification\<close>.
\<close>

definition demo_deps :: witness_deps where
  "demo_deps = \<lparr>wd_sha256 = (\<lambda>t. CHR ''#'' # t), wd_sign = (\<lambda>d k. d @ k), wd_verify = (\<lambda>d s k. s = d @ k),
     wd_parseInput = Inr, wd_parseHead = Inr, wd_parseEvent = Inr, wd_parseCheckpoint = Inr, wd_parseKey = Inr,
     wd_parseReport = Inr, wd_checkpointInterval = 2, wd_fails = (\<lambda>n. False)\<rparr>"

definition demo_moment :: "string \<Rightarrow> witness_moment" where
  "demo_moment i = \<lparr>wi_now = ''t'', wi_eventId = i, wi_checkpointId = i, wi_reportId = ''r'', wi_receiptId = ''a'',
     wi_keyPair = (''k'', ''k'')\<rparr>"

definition demo_input :: witness_input where
  "demo_input = \<lparr>wn_actionCategory = ActToolExecute, wn_actionRef = ''x'', wn_traceId = None, wn_projectId = None, wn_actor = WaSystem,
     wn_status = WsApproved, wn_detail = [], wn_occurredAt = None\<rparr>"

definition store_one :: witness_store where
  "store_one = snd (appendAuthorization demo_deps (demo_moment ''e1'') demo_input empty_witness)"

definition store_two :: witness_store where
  "store_two = snd (appendCompletion demo_deps (demo_moment ''e2'') ''e1'' demo_input store_one)"

definition store_three :: witness_store where
  "store_three = snd (appendAuthorization demo_deps (demo_moment ''e3'') demo_input store_two)"

lemma demo_deps_simps [simp]:
  "wd_parseInput demo_deps = Inr" "wd_parseHead demo_deps = Inr" "wd_parseEvent demo_deps = Inr"
  "wd_parseCheckpoint demo_deps = Inr" "wd_parseKey demo_deps = Inr" "wd_parseReport demo_deps = Inr"
  "wd_checkpointInterval demo_deps = 2" "wd_fails demo_deps n = False"
  by (simp_all add: demo_deps_def)

lemma demo_moment_simps [simp]:
  "wi_now (demo_moment i) = ''t''" "wi_eventId (demo_moment i) = i" "wi_checkpointId (demo_moment i) = i"
  "wi_keyPair (demo_moment i) = (''k'', ''k'')"
  by (simp_all add: demo_moment_def)

lemma demo_ok: "witness_deps_ok demo_deps"
  by (simp add: witness_deps_ok_def schema_parser_def) (simp add: demo_deps_def)

definition demo_content :: "witness_stage \<Rightarrow> string option \<Rightarrow> append_input" where
  "demo_content stage ref = content_of stage demo_input ref WsApproved None [] ''t''"

definition demo_event :: "nat \<Rightarrow> string option \<Rightarrow> string \<Rightarrow> append_input \<Rightarrow> witness_event" where
  "demo_event n prev i a = built_event demo_deps \<lparr>lh_lastSequence = n, lh_lastEventHash = prev, lh_lastCheckpointSequence = 0,
     lh_lastCheckpointHash = None, lh_activeKeyEpoch = 1, lh_updatedAt = ''t''\<rparr> i a ''t''"

text \<open>The events and the checkpoint of the run, with their digests left as they are written.\<close>

definition event_one :: witness_event where
  "event_one = demo_event 0 None ''e1'' (demo_content StAuthorization None)"

definition event_two :: witness_event where
  "event_two = demo_event 1 (Some (we_eventHash event_one)) ''e2'' (demo_content StCompletion (Some ''e1''))"

definition event_three :: witness_event where
  "event_three = demo_event 2 (Some (we_eventHash event_two)) ''e3'' (demo_content StAuthorization None)"

definition demo_body :: checkpoint_body where
  "demo_body = \<lparr>cb_checkpointSequence = 1, cb_startEventSequence = 1, cb_endEventSequence = 2, cb_previousCheckpointHash = None,
     cb_ledgerHeadHash = we_eventHash event_two, cb_keyEpoch = 1, cb_reason = ReasonInterval\<rparr>"

definition demo_checkpoint :: witness_checkpoint where
  "demo_checkpoint = \<lparr>wc_id = ''e2'', wc_body = demo_body, wc_checkpointHash = buildCheckpointHash demo_deps demo_body,
     wc_signature = wd_sign demo_deps (buildCheckpointHash demo_deps demo_body) ''k'', wc_createdAt = ''t''\<rparr>"

lemmas ledger_defs = append_event_def getLedgerHead_def appendLedgerEvent_def bindS_def saveLedgerHead_def doc_get_def doc_put_def
  safe_parse_def maybeIntervalCheckpoint_def put_head_def put_event_def write_doc_def

lemmas demo_event_defs = event_one_def event_two_def event_three_def demo_event_def demo_content_def built_event_def

lemma event_hash_given: "event_hash demo_deps n prev h \<noteq> []"
  by (simp add: event_hash_def hashCanonical_def) (simp add: demo_deps_def)

lemma store_one_eq: "store_one = \<lparr>ws_events = [(''e1'', event_one)], ws_checkpoints = [],
    ws_head = [(''head'', \<lparr>lh_lastSequence = 1, lh_lastEventHash = Some (we_eventHash event_one), lh_lastCheckpointSequence = 0,
      lh_lastCheckpointHash = None, lh_activeKeyEpoch = 1, lh_updatedAt = ''t''\<rparr>)], ws_keys = [], ws_reports = [], ws_writes = 3\<rparr>"
  by (simp add: store_one_def appendAuthorization_def ledger_defs empty_witness_def empty_head_def demo_event_defs demo_input_def)

lemma show_one: "show_nat (Suc 0) = ''1''"
  by (simp add: show_nat.simps)

lemma store_two_eq: "store_two = \<lparr>ws_events = [(''e1'', event_one), (''e2'', event_two)], ws_checkpoints = [(''e2'', demo_checkpoint)],
    ws_head = [(''head'', \<lparr>lh_lastSequence = 2, lh_lastEventHash = Some (we_eventHash event_two), lh_lastCheckpointSequence = 1,
      lh_lastCheckpointHash = Some (buildCheckpointHash demo_deps demo_body), lh_activeKeyEpoch = 1, lh_updatedAt = ''t''\<rparr>)],
    ws_keys = [(''1'', \<lparr>ke_keyEpoch = 1, ke_publicKeyPem = ''k'', ke_privateKeyPem = ''k'', ke_createdAt = ''t'', ke_activatedAt = ''t''\<rparr>)],
    ws_reports = [], ws_writes = 8\<rparr>"
  by (simp add: store_two_def store_one_eq appendCompletion_def getEventById_def ledger_defs event_two_def demo_event_def
      demo_content_def built_event_def demo_input_def content_of_def createCheckpointInternal_def getLatestCheckpoint_def doc_query_def
      ensureKeyEpoch_def getKeyEpoch_def saveCheckpoint_def demo_checkpoint_def demo_body_def checkpoint_body_for_def Let_def
      event_hash_given obj_values_def put_key_def put_checkpoint_def show_one numeral_2_eq_2)

lemma store_three_eq: "ws_events store_three = [(''e1'', event_one), (''e2'', event_two), (''e3'', event_three)] \<and>
    ws_checkpoints store_three = [(''e2'', demo_checkpoint)]"
  by (simp add: store_three_def store_two_eq appendAuthorization_def ledger_defs event_three_def demo_event_def
      demo_content_def built_event_def demo_input_def content_of_def)

lemma store_three_reachable: "witness_reachable demo_deps store_three"
proof -
  have signs: "\<forall>d. wd_verify demo_deps d (wd_sign demo_deps d ''k'') ''k''" by (simp add: demo_deps_def)
  have "witness_reachable demo_deps store_one"
    unfolding store_one_def by (intro witness_reachable.authorization witness_reachable.fresh) (simp add: moment_ok_def signs empty_witness_def doc_get_def)
  then have "witness_reachable demo_deps store_two"
    unfolding store_two_def by (rule witness_reachable.completion) (simp add: moment_ok_def signs store_one_eq doc_get_def)
  then show ?thesis
    unfolding store_three_def by (rule witness_reachable.authorization) (simp add: moment_ok_def signs store_two_eq doc_get_def)
qed

lemma demo_lists: "listEvents demo_deps store_three = [event_one, event_two, event_three]" "listCheckpoints demo_deps store_three = [demo_checkpoint]"
  by (simp_all add: listEvents_def listCheckpoints_def store_three_eq doc_query_def obj_values_def safe_parse_def by_sequence_def
      demo_event_defs map_filter_simps)

section \<open>Witnesses\<close>

lemma honest_ledger_verifies_witness:
  "\<exists>body. verification_body demo_deps (demo_moment ''v'') None None [event_one, event_two, event_three] [demo_checkpoint]
      (verifyCheckpointSignature demo_deps store_three) = Inr body \<and>
    rb_sequenceContiguous body \<and> rb_hashChainValid body \<and> rb_checkpointChainValid body \<and> rb_signaturesValid body \<and>
    findings_of ''t'' (reported_problems [event_one, event_two, event_three]) = Inr (rb_findings body)"
  using honest_ledger_verifies [OF store_three_reachable demo_ok, of "demo_moment ''v''"] by (simp add: demo_lists)

lemma truncation_unnoticed_witness:
  "\<exists>body. verification_body demo_deps (demo_moment ''v'') None None [event_one, event_two] [demo_checkpoint]
      (verifyCheckpointSignature demo_deps store_three) = Inr body \<and>
    rb_sequenceContiguous body \<and> rb_hashChainValid body \<and> rb_checkpointChainValid body \<and> rb_signaturesValid body \<and>
    findings_of ''t'' (reported_problems [event_one, event_two]) = Inr (rb_findings body)"
  using truncation_unnoticed [OF store_three_reachable demo_ok, of 2 "demo_moment ''v''"]
  by (simp add: demo_lists demo_checkpoint_def demo_body_def)


lemma chain_starts: "hash_problems demo_deps None event_one = []" "hash_problems demo_deps (Some event_one) event_two = []"
    "hash_problems demo_deps (Some event_two) event_three = []"
  by (simp_all add: hash_problems_def demo_event_defs numeral_2_eq_2 numeral_3_eq_3)

lemma tampering_shows_witness:
  "collision demo_deps (hashed_texts [event_one]) (hashed_texts [event_one\<lparr>we_id := ''f1'', we_recordedAt := ''u''\<rparr>]) \<or>
    map (\<lambda>e. canonical (buildEventPayload (we_content e))) [event_one]
      = map (\<lambda>e. canonical (buildEventPayload (we_content e))) [event_one\<lparr>we_id := ''f1'', we_recordedAt := ''u''\<rparr>]"
proof (rule tampering_shows)
  show "verifyEventChain demo_deps [event_one] ''t'' = Inr (True, True, [])"
    by (simp add: verifyEventChain_def chain_starts sequence_gap_def)
  have "hash_problems demo_deps None (event_one\<lparr>we_id := ''f1'', we_recordedAt := ''u''\<rparr>) = []"
    using chain_starts(1) unfolding no_hash_problems by (metis (no_types, lifting) option.map(1) witness_event.select_convs(2-6) witness_event.surjective witness_event.update_convs(1,7))
  then show "verifyEventChain demo_deps [event_one\<lparr>we_id := ''f1'', we_recordedAt := ''u''\<rparr>] ''t'' = Inr (True, True, [])"
    by (simp add: verifyEventChain_def sequence_gap_def)
  show "map_option we_eventHash (last_opt [event_one]) = map_option we_eventHash (last_opt [event_one\<lparr>we_id := ''f1'', we_recordedAt := ''u''\<rparr>])"
    by (simp add: last_opt_def)
qed

lemma partial_verification_fails_witness:
  "\<exists>body. verification_body demo_deps (demo_moment ''v'') (Some 2) (Some 2) [event_one, event_two, event_three] [demo_checkpoint]
      (verifyCheckpointSignature demo_deps store_three) = Inr body \<and> rb_status body = VsFail \<and> \<not> rb_hashChainValid body"
  using partial_verification_fails [OF store_three_reachable demo_ok, of 2 "Some 2" "demo_moment ''v''"] by (simp add: demo_lists)

end
