(* ===== verification/Endpoint_Trust.thy ===== *)
theory Endpoint_Trust
  imports Json Document_Store Opctl
begin

text \<open>
  Trust in peripheral devices and their endpoints (\<open>self/subcortex/endpoint-trust/src\<close>, types in
  \<open>shared/src/types/endpoint-trust.ts\<close>): the records, the document store of the service and the
  stores of pairings, endpoints, capability grants and sessions above it. The schema parsers are
  parameters; times are the texts \<open>toISOString\<close> gives and are compared as texts, as the code does.
\<close>

section \<open>Types\<close>

datatype trust_state = TrPending | TrTrusted | TrSuspended | TrRevoked | TrDenied

datatype direction = Sensory | Acting \<comment> \<open>also the class of a capability\<close>

datatype pairing_status = PrPending | PrApproved | PrDenied | PrExpired | PrCancelled

datatype grant_status = GrActive | GrRevoked | GrExpired

datatype session_status = SeActive | SeRotated | SeRevoked | SeExpired

datatype endpoint_risk = RiskStandard | RiskHigh

datatype incident_type = LostDevice | CompromisedDevice | MitmDetected | ManualSuspend | ManualRevoke

datatype incident_severity = SevMedium | SevHigh | SevCritical

datatype incident_action =
    ActNone | SuspendPeripheral | RevokePeripheral | SuspendEndpoints | RevokeEndpoints | RevokeSessions | Escalate

datatype trust_tier = FirstParty | VerifiedMaintainer | CommunityUnverified | UnregisteredExternal

datatype distribution_status = DsActive | DsHold | DsDelisted | DsBlocked

datatype compatibility_state = Compatible | RequiresMigration | BlockedIncompatible

type_synonym metadata = "(string \<times> json) list"

record eligibility =
  el_project_id :: "string option"
  el_package_id :: string
  el_release_id :: string
  el_package_version :: string
  el_trust_tier :: trust_tier
  el_distribution_status :: distribution_status
  el_compatibility_state :: compatibility_state
  el_metadata_valid :: bool
  el_signer_valid :: bool
  el_requires_principal_override :: bool
  el_block_reason_codes :: "string list"
  el_evidence_refs :: "string list"
  el_evaluated_at :: string

record peripheral =
  pe_peripheral_id :: string
  pe_project_id :: string
  pe_display_name :: string
  pe_principal_id :: string
  pe_trust_state :: trust_state
  pe_connector_package_id :: "string option"
  pe_connector_release_id :: "string option"
  pe_registry_eligibility :: "eligibility option"
  pe_paired_at :: "string option"
  pe_last_seen_at :: "string option"
  pe_metadata :: metadata
  pe_evidence_refs :: "string list"
  pe_created_at :: string
  pe_updated_at :: string

record pairing =
  pr_pairing_id :: string
  pr_peripheral_id :: string
  pr_project_id :: string
  pr_principal_id :: string
  pr_status :: pairing_status
  pr_approval_evidence_ref :: "string option"
  pr_denial_reason_code :: "string option"
  pr_evidence_refs :: "string list"
  pr_requested_at :: string
  pr_reviewed_at :: "string option"
  pr_metadata :: metadata

record trust_endpoint =
  ep_endpoint_id :: string
  ep_peripheral_id :: string
  ep_project_id :: string
  ep_display_name :: string
  ep_direction :: direction
  ep_capability_keys :: "string list"
  ep_trust_state :: trust_state
  ep_connector_package_id :: "string option"
  ep_connector_release_id :: "string option"
  ep_registry_eligibility :: "eligibility option"
  ep_metadata :: metadata
  ep_evidence_refs :: "string list"
  ep_created_at :: string
  ep_updated_at :: string

record cap_grant =
  cg_grant_id :: string
  cg_endpoint_id :: string
  cg_peripheral_id :: string
  cg_project_id :: string
  cg_capability_key :: string
  cg_capability_class :: direction
  cg_policy_ref :: string
  cg_granted_by :: string
  cg_status :: grant_status
  cg_reason_code :: "string option"
  cg_evidence_refs :: "string list"
  cg_granted_at :: string
  cg_revoked_at :: "string option"

record session =
  se_session_id :: string
  se_endpoint_id :: string
  se_peripheral_id :: string
  se_project_id :: string
  se_status :: session_status
  se_established_by :: string
  se_last_nonce :: "string option"
  se_last_sequence :: nat
  se_evidence_refs :: "string list"
  se_established_at :: string
  se_expires_at :: "string option"
  se_rotated_at :: "string option"
  se_revoked_at :: "string option"

record incident =
  ic_incident_id :: string
  ic_peripheral_id :: string
  ic_endpoint_id :: "string option"
  ic_project_id :: string
  ic_incident_type :: incident_type
  ic_reported_by :: string
  ic_severity :: incident_severity
  ic_reason_code :: string
  ic_action_taken :: "incident_action list"
  ic_escalation_id :: "string option"
  ic_evidence_refs :: "string list"
  ic_reported_at :: string

section \<open>Inputs\<close>

record pairing_request =
  qr_pairing_id :: "string option"
  qr_peripheral_id :: string
  qr_project_id :: string
  qr_display_name :: string
  qr_principal_id :: string
  qr_connector_package_id :: "string option"
  qr_connector_release_id :: "string option"
  qr_evidence_refs :: "string list"
  qr_requested_at :: "string option"
  qr_metadata :: metadata

record pairing_review =
  rv_pairing_id :: string
  rv_approved :: bool
  rv_reviewed_by :: string
  rv_approval_evidence_ref :: "string option"
  rv_denial_reason_code :: "string option"
  rv_evidence_refs :: "string list"
  rv_reviewed_at :: "string option"

record registration =
  rg_endpoint_id :: "string option"
  rg_peripheral_id :: string
  rg_project_id :: string
  rg_display_name :: string
  rg_direction :: direction
  rg_capability_keys :: "string list"
  rg_connector_package_id :: "string option"
  rg_connector_release_id :: "string option"
  rg_metadata :: metadata
  rg_registered_at :: "string option"
  rg_evidence_refs :: "string list"

record grant_input =
  gi_grant_id :: "string option"
  gi_endpoint_id :: string
  gi_peripheral_id :: string
  gi_project_id :: string
  gi_capability_key :: string
  gi_capability_class :: direction
  gi_policy_ref :: string
  gi_granted_by :: string
  gi_reason_code :: "string option"
  gi_evidence_refs :: "string list"
  gi_granted_at :: "string option"

record revocation =
  rc_grant_id :: string
  rc_revoked_by :: string
  rc_reason_code :: string
  rc_evidence_refs :: "string list"
  rc_revoked_at :: "string option"

record session_start =
  st_session_id :: "string option"
  st_endpoint_id :: string
  st_peripheral_id :: string
  st_project_id :: string
  st_established_by :: string
  st_expires_at :: "string option"
  st_established_at :: "string option"
  st_evidence_refs :: "string list"

record session_rotation =
  ro_session_id :: string
  ro_rotated_by :: string
  ro_rotated_at :: "string option"
  ro_evidence_refs :: "string list"

record transport_envelope =
  te_envelope_id :: string
  te_endpoint_id :: string
  te_peripheral_id :: string
  te_project_id :: string
  te_session_id :: string
  te_nonce :: string
  te_sequence :: nat
  te_issued_at :: string
  te_expires_at :: string
  te_payload_hash :: string
  te_signature :: string
  te_trace_id :: "string option"
  te_metadata :: metadata

record transport_request =
  tq_peripheral :: peripheral
  tq_endpoint :: trust_endpoint
  tq_session :: "session option"
  tq_envelope :: transport_envelope
  tq_observed_at :: "string option"

record transport_result =
  tz_accepted :: bool
  tz_reason_code :: "string option"
  tz_session_id :: "string option"
  tz_evidence_refs :: "string list"
  tz_evaluated_at :: string

record auth_request =
  aq_request_id :: "string option"
  aq_endpoint_id :: string
  aq_peripheral_id :: string
  aq_project_id :: string
  aq_capability_key :: string
  aq_capability_class :: direction
  aq_risk :: endpoint_risk
  aq_policy_ref :: string
  aq_session_id :: "string option"
  aq_transport_envelope :: "transport_envelope option"
  aq_confirmation_proof :: "confirmation_proof option"
  aq_control_command_envelope :: "envelope option"
  aq_evidence_refs :: "string list"
  aq_requested_at :: "string option"

record auth_result =
  az_allowed :: bool
  az_reason_code :: "string option"
  az_request_id :: string
  az_endpoint_id :: string
  az_peripheral_id :: string
  az_project_id :: string
  az_grant_id :: "string option"
  az_session_id :: "string option"
  az_evidence_refs :: "string list"
  az_evaluated_at :: string

record incident_report =
  ir_incident_id :: "string option"
  ir_peripheral_id :: string
  ir_endpoint_id :: "string option"
  ir_project_id :: string
  ir_incident_type :: incident_type
  ir_reported_by :: string
  ir_severity :: incident_severity
  ir_reason_code :: string
  ir_evidence_refs :: "string list"
  ir_reported_at :: "string option"
  ir_metadata :: metadata


section \<open>The document store of the service\<close>

record trust_store =
  et_peripherals :: "(string \<times> peripheral) list"
  et_pairings :: "(string \<times> pairing) list"
  et_endpoints :: "(string \<times> trust_endpoint) list"
  et_grants :: "(string \<times> cap_grant) list"
  et_sessions :: "(string \<times> session) list"
  et_incidents :: "(string \<times> incident) list"
  et_witnessed :: "(string \<times> bool) list" \<comment> \<open>what the witness service was given: reference, succeeded\<close>

record trust_schemas =
  ts_peripheral :: "peripheral \<Rightarrow> peripheral result"
  ts_pairing :: "pairing \<Rightarrow> pairing result"
  ts_endpoint :: "trust_endpoint \<Rightarrow> trust_endpoint result"
  ts_grant :: "cap_grant \<Rightarrow> cap_grant result"
  ts_session :: "session \<Rightarrow> session result"
  ts_incident :: "incident \<Rightarrow> incident result"
  ts_pairing_request :: "pairing_request \<Rightarrow> pairing_request result"
  ts_pairing_review :: "pairing_review \<Rightarrow> pairing_review result"
  ts_registration :: "registration \<Rightarrow> registration result"
  ts_grant_input :: "grant_input \<Rightarrow> grant_input result"
  ts_revocation :: "revocation \<Rightarrow> revocation result"
  ts_session_start :: "session_start \<Rightarrow> session_start result"
  ts_session_rotation :: "session_rotation \<Rightarrow> session_rotation result"
  ts_transport_request :: "transport_request \<Rightarrow> transport_request result"
  ts_transport_result :: "transport_result \<Rightarrow> transport_result result"
  ts_auth_request :: "auth_request \<Rightarrow> auth_request result"
  ts_auth_result :: "auth_result \<Rightarrow> auth_result result"
  ts_incident_report :: "incident_report \<Rightarrow> incident_report result"

definition parsed_doc :: "('a \<Rightarrow> 'a result) \<Rightarrow> 'a \<Rightarrow> 'a option" where
  \<comment> \<open>\<open>safeParse\<close>\<close>
  "parsed_doc parse x = (case parse x of Inl e \<Rightarrow> None | Inr y \<Rightarrow> Some y)"

definition text_order :: "('d \<Rightarrow> string) \<Rightarrow> 'd \<Rightarrow> 'd \<Rightarrow> int" where
  \<comment> \<open>\<open>orderBy\<close> a text field, ascending\<close>
  "text_order f a b = codeUnitCompare (f a) (f b)"

definition listed :: "('d \<Rightarrow> 'd result) \<Rightarrow> ('d \<Rightarrow> bool) \<Rightarrow> ('d \<Rightarrow> 'd \<Rightarrow> int) \<Rightarrow> (string \<times> 'd) list \<Rightarrow> 'd list" where
  "listed parse cond cmp c = List.map_filter (parsed_doc parse) (doc_query cond cmp None c)"

definition savePeripheral :: "trust_schemas \<Rightarrow> peripheral \<Rightarrow> (trust_store, peripheral) op" where
  "savePeripheral ts r = bindS (liftR (ts_peripheral ts r)) (\<lambda>v s.
     (Inr v, s\<lparr>et_peripherals := doc_put (pe_peripheral_id v) v (et_peripherals s)\<rparr>))"

definition getPeripheral :: "trust_schemas \<Rightarrow> string \<Rightarrow> trust_store \<Rightarrow> peripheral option" where
  "getPeripheral ts i s = Option.bind (doc_get i (et_peripherals s)) (parsed_doc (ts_peripheral ts))"

definition listPeripheralsByProject :: "trust_schemas \<Rightarrow> string \<Rightarrow> trust_store \<Rightarrow> peripheral list" where
  "listPeripheralsByProject ts p s =
     listed (ts_peripheral ts) (\<lambda>r. pe_project_id r = p) (text_order pe_created_at) (et_peripherals s)"

definition savePairing :: "trust_schemas \<Rightarrow> pairing \<Rightarrow> (trust_store, pairing) op" where
  "savePairing ts r = bindS (liftR (ts_pairing ts r)) (\<lambda>v s.
     (Inr v, s\<lparr>et_pairings := doc_put (pr_pairing_id v) v (et_pairings s)\<rparr>))"

definition getPairing :: "trust_schemas \<Rightarrow> string \<Rightarrow> trust_store \<Rightarrow> pairing option" where
  "getPairing ts i s = Option.bind (doc_get i (et_pairings s)) (parsed_doc (ts_pairing ts))"

definition listPairingsByPeripheral :: "trust_schemas \<Rightarrow> string \<Rightarrow> trust_store \<Rightarrow> pairing list" where
  "listPairingsByPeripheral ts p s =
     listed (ts_pairing ts) (\<lambda>r. pr_peripheral_id r = p) (\<lambda>a b. text_order pr_requested_at b a) (et_pairings s)"

definition saveEndpoint :: "trust_schemas \<Rightarrow> trust_endpoint \<Rightarrow> (trust_store, trust_endpoint) op" where
  "saveEndpoint ts r = bindS (liftR (ts_endpoint ts r)) (\<lambda>v s.
     (Inr v, s\<lparr>et_endpoints := doc_put (ep_endpoint_id v) v (et_endpoints s)\<rparr>))"

definition getEndpoint :: "trust_schemas \<Rightarrow> string \<Rightarrow> trust_store \<Rightarrow> trust_endpoint option" where
  "getEndpoint ts i s = Option.bind (doc_get i (et_endpoints s)) (parsed_doc (ts_endpoint ts))"

definition listEndpointsByProject :: "trust_schemas \<Rightarrow> string \<Rightarrow> trust_store \<Rightarrow> trust_endpoint list" where
  "listEndpointsByProject ts p s =
     listed (ts_endpoint ts) (\<lambda>r. ep_project_id r = p) (text_order ep_created_at) (et_endpoints s)"

definition listEndpointsByPeripheral :: "trust_schemas \<Rightarrow> string \<Rightarrow> trust_store \<Rightarrow> trust_endpoint list" where
  "listEndpointsByPeripheral ts p s =
     listed (ts_endpoint ts) (\<lambda>r. ep_peripheral_id r = p) (text_order ep_created_at) (et_endpoints s)"

definition saveGrant :: "trust_schemas \<Rightarrow> cap_grant \<Rightarrow> (trust_store, cap_grant) op" where
  "saveGrant ts r = bindS (liftR (ts_grant ts r)) (\<lambda>v s.
     (Inr v, s\<lparr>et_grants := doc_put (cg_grant_id v) v (et_grants s)\<rparr>))"

definition getGrant :: "trust_schemas \<Rightarrow> string \<Rightarrow> trust_store \<Rightarrow> cap_grant option" where
  "getGrant ts i s = Option.bind (doc_get i (et_grants s)) (parsed_doc (ts_grant ts))"

definition listGrantsByEndpoint :: "trust_schemas \<Rightarrow> string \<Rightarrow> trust_store \<Rightarrow> cap_grant list" where
  "listGrantsByEndpoint ts e s =
     listed (ts_grant ts) (\<lambda>r. cg_endpoint_id r = e) (\<lambda>a b. text_order cg_granted_at b a) (et_grants s)"

definition saveSession :: "trust_schemas \<Rightarrow> session \<Rightarrow> (trust_store, session) op" where
  "saveSession ts r = bindS (liftR (ts_session ts r)) (\<lambda>v s.
     (Inr v, s\<lparr>et_sessions := doc_put (se_session_id v) v (et_sessions s)\<rparr>))"

definition getSession :: "trust_schemas \<Rightarrow> string \<Rightarrow> trust_store \<Rightarrow> session option" where
  "getSession ts i s = Option.bind (doc_get i (et_sessions s)) (parsed_doc (ts_session ts))"

definition listSessionsByProject :: "trust_schemas \<Rightarrow> string \<Rightarrow> trust_store \<Rightarrow> session list" where
  "listSessionsByProject ts p s =
     listed (ts_session ts) (\<lambda>r. se_project_id r = p) (\<lambda>a b. text_order se_established_at b a) (et_sessions s)"

definition listSessionsByPeripheral :: "trust_schemas \<Rightarrow> string \<Rightarrow> trust_store \<Rightarrow> session list" where
  "listSessionsByPeripheral ts p s =
     listed (ts_session ts) (\<lambda>r. se_peripheral_id r = p) (\<lambda>a b. text_order se_established_at b a) (et_sessions s)"

definition saveIncident :: "trust_schemas \<Rightarrow> incident \<Rightarrow> (trust_store, incident) op" where
  "saveIncident ts r = bindS (liftR (ts_incident ts r)) (\<lambda>v s.
     (Inr v, s\<lparr>et_incidents := doc_put (ic_incident_id v) v (et_incidents s)\<rparr>))"

definition listIncidentsByPeripheral :: "trust_schemas \<Rightarrow> string \<Rightarrow> trust_store \<Rightarrow> incident list" where
  "listIncidentsByPeripheral ts p s =
     listed (ts_incident ts) (\<lambda>r. ic_peripheral_id r = p) (\<lambda>a b. text_order ic_reported_at b a) (et_incidents s)"

definition listIncidentsByProject :: "trust_schemas \<Rightarrow> string \<Rightarrow> trust_store \<Rightarrow> incident list" where
  "listIncidentsByProject ts p s =
     listed (ts_incident ts) (\<lambda>r. ic_project_id r = p) (\<lambda>a b. text_order ic_reported_at b a) (et_incidents s)"

section \<open>Pairings\<close>

definition merged :: "string list \<Rightarrow> string list \<Rightarrow> string list" where
  \<comment> \<open>\<open>[...new Set([...xs, ...ys])]\<close>\<close>
  "merged xs ys = uniq (xs @ ys)"

definition requested_peripheral :: "pairing_request \<Rightarrow> peripheral option \<Rightarrow> string \<Rightarrow> peripheral" where
  "requested_peripheral q old timestamp =
     \<lparr>pe_peripheral_id = qr_peripheral_id q, pe_project_id = qr_project_id q, pe_display_name = qr_display_name q,
      pe_principal_id = qr_principal_id q, pe_trust_state = TrPending,
      pe_connector_package_id = orElse (qr_connector_package_id q) (Option.bind old pe_connector_package_id),
      pe_connector_release_id = orElse (qr_connector_release_id q) (Option.bind old pe_connector_release_id),
      pe_registry_eligibility = None, pe_paired_at = Option.bind old pe_paired_at, pe_last_seen_at = Some timestamp,
      pe_metadata = from_entries (case old of None \<Rightarrow> [] | Some r \<Rightarrow> pe_metadata r) (qr_metadata q),
      pe_evidence_refs = merged (case old of None \<Rightarrow> [] | Some r \<Rightarrow> pe_evidence_refs r) (qr_evidence_refs q),
      pe_created_at = (case old of None \<Rightarrow> timestamp | Some r \<Rightarrow> pe_created_at r), pe_updated_at = timestamp\<rparr>"

definition createPairing :: "trust_schemas \<Rightarrow> string \<Rightarrow> string \<Rightarrow> pairing_request \<Rightarrow> (trust_store, peripheral \<times> pairing) op" where
  "createPairing ts now newId q =
     (let timestamp = getOr (qr_requested_at q) now in
      bindS (getsS (getPeripheral ts (qr_peripheral_id q))) (\<lambda>old.
      bindS (liftR (ts_peripheral ts (requested_peripheral q old timestamp))) (\<lambda>p.
      bindS (liftR (ts_pairing ts \<lparr>pr_pairing_id = getOr (qr_pairing_id q) newId, pr_peripheral_id = qr_peripheral_id q,
        pr_project_id = qr_project_id q, pr_principal_id = qr_principal_id q, pr_status = PrPending,
        pr_approval_evidence_ref = None, pr_denial_reason_code = None, pr_evidence_refs = qr_evidence_refs q,
        pr_requested_at = timestamp, pr_reviewed_at = None, pr_metadata = qr_metadata q\<rparr>)) (\<lambda>r.
      bindS (savePeripheral ts p) (\<lambda>_. bindS (savePairing ts r) (\<lambda>_. returnS (p, r)))))))"

definition reviewed_pairing :: "pairing_review \<Rightarrow> pairing \<Rightarrow> string \<Rightarrow> pairing" where
  "reviewed_pairing v r timestamp = r\<lparr>pr_status := if rv_approved v then PrApproved else PrDenied,
     pr_approval_evidence_ref := if rv_approved v then rv_approval_evidence_ref v else pr_approval_evidence_ref r,
     pr_denial_reason_code := if rv_approved v then None else rv_denial_reason_code v,
     pr_evidence_refs := merged (pr_evidence_refs r) (rv_evidence_refs v), pr_reviewed_at := Some timestamp,
     pr_metadata := obj_set ''reviewed_by'' (JStr (rv_reviewed_by v)) (pr_metadata r)\<rparr>"

definition reviewed_peripheral :: "pairing_review \<Rightarrow> peripheral \<Rightarrow> string \<Rightarrow> peripheral" where
  "reviewed_peripheral v p timestamp = p\<lparr>pe_trust_state := if rv_approved v then TrTrusted else TrDenied,
     pe_paired_at := if rv_approved v then Some timestamp else pe_paired_at p, pe_updated_at := timestamp,
     pe_evidence_refs := merged (pe_evidence_refs p) (rv_evidence_refs v)\<rparr>"

definition store_reviewPairing :: "trust_schemas \<Rightarrow> string \<Rightarrow> pairing_review \<Rightarrow> (trust_store, peripheral \<times> pairing) op" where
  "store_reviewPairing ts now v = bindS (getsS (getPairing ts (rv_pairing_id v))) (\<lambda>found.
     case found of
       None \<Rightarrow> throwS (JsError (''Pairing not found: '' @ rv_pairing_id v))
     | Some old \<Rightarrow> bindS (getsS (getPeripheral ts (pr_peripheral_id old))) (\<lambda>device.
         case device of
           None \<Rightarrow> throwS (JsError (''Peripheral not found: '' @ pr_peripheral_id old))
         | Some p \<Rightarrow>
             (let timestamp = getOr (rv_reviewed_at v) now in
              bindS (liftR (ts_pairing ts (reviewed_pairing v old timestamp))) (\<lambda>r.
              bindS (liftR (ts_peripheral ts (reviewed_peripheral v p timestamp))) (\<lambda>p'.
              bindS (savePairing ts r) (\<lambda>_. bindS (savePeripheral ts p') (\<lambda>_. returnS (p', r))))))))"

end
