(* ===== verification/Iso_Date.thy ===== *)
theory Iso_Date
  imports Calendar Json_Text
begin

text \<open>
  \<open>Date.parse\<close> on the texts the schemas let through (\<open>z.string().datetime()\<close>): date and time in UTC
  with optional seconds and an optional fraction, of which three digits count. Other texts are \<open>None\<close>,
  which stands for \<open>NaN\<close>. Parsing undoes \<open>toISOString\<close>, which is modelled from 1970 on.
\<close>

definition all_digits :: "string \<Rightarrow> bool" where
  "all_digits s \<longleftrightarrow> list_all (\<lambda>c. c \<in> set digit_chars) s"

definition fraction_ms :: "string \<Rightarrow> nat option" where
  \<comment> \<open>what follows the seconds, up to the final Z\<close>
  "fraction_ms f =
     (case f of
        [] \<Rightarrow> Some 0
      | c # ds \<Rightarrow> if c = CHR ''.'' \<and> ds \<noteq> [] \<and> all_digits ds then Some (read_nat (take 3 (ds @ ''00''))) else None)"

definition with_seconds :: "string \<Rightarrow> string" where
  \<comment> \<open>the seconds may be left out\<close>
  "with_seconds s = (if length s = 17 \<and> last s = CHR ''Z'' then take 16 s @ '':00Z'' else s)"

definition from_1970 :: "nat \<Rightarrow> nat \<times> int" where
  \<comment> \<open>the calendar repeats every 400 years of 146097 days: a year from 1970 on that is like the given one, and the days between\<close>
  "from_1970 year = (if year < 1970 then (year + 2000, 5 * 146097) else (year, 0))"

definition date_parse :: "string \<Rightarrow> int option" where
  "date_parse t =
     (let s = with_seconds t; y = take 4 s; mo = take 2 (drop 5 s); d = take 2 (drop 8 s); h = take 2 (drop 11 s);
          mi = take 2 (drop 14 s); sec = take 2 (drop 17 s);
          (year, before) = from_1970 (read_nat y); k = (year - 1970) * 12 + (read_nat mo - 1)
      in if length s < 20 \<or> \<not> list_all all_digits [y, mo, d, h, mi, sec] \<or> map ((!) s) [4, 7, 10, 13, 16] \<noteq> ''--T::'' \<or> last s \<noteq> CHR ''Z''
            \<or> read_nat mo \<notin> {1..12} \<or> read_nat d \<notin> {1..days_in_month k} \<or> 24 \<le> read_nat h
            \<or> 60 \<le> read_nat mi \<or> 60 \<le> read_nat sec then None
         else (case fraction_ms (butlast (drop 19 s)) of
            None \<Rightarrow> None
          | Some ms \<Rightarrow> Some ((int (month_start k + read_nat d - 1) - before) * day_ms
              + int (read_nat h * 3600000 + read_nat mi * 60000 + read_nat sec * 1000 + ms))))"

section \<open>Padded numbers\<close>

lemma all_digits_iff: "all_digits s \<longleftrightarrow> set s \<subseteq> set digit_chars"
  unfolding all_digits_def list_all_iff by blast

lemma length_show_nat: "n < 10 ^ w \<Longrightarrow> 0 < w \<Longrightarrow> length (show_nat n) \<le> w"
proof (induction n arbitrary: w rule: show_nat.induct)
  case (1 n)
  show ?case
  proof (cases "n < 10")
    case True
    then show ?thesis using 1(3) by (subst show_nat.simps) simp
  next
    case False
    then obtain v where v: "w = Suc v" "0 < v" using 1(2,3) by (cases w; cases "w - 1") auto
    then have "n div 10 < 10 ^ v" using 1(2) by (simp add: less_mult_imp_div_less)
    from 1(1) [OF False this v(2)] False v(1) show ?thesis by (subst show_nat.simps) simp
  qed
qed

lemma length_padded: "n < 10 ^ w \<Longrightarrow> 0 < w \<Longrightarrow> length (padded w n) = w"
  using length_show_nat by (simp add: Let_def)

lemma read_zeros: "read_nat (replicate k (CHR ''0'') @ s) = read_nat s"
  by (induction k) (simp_all add: read_nat_def)

lemma read_padded: "read_nat (padded w n) = n"
  by (simp add: Let_def read_zeros read_show_nat)

lemma zero_digit: "CHR ''0'' \<in> set digit_chars"
  by (simp add: digit_chars_def)

lemma all_digits_padded: "all_digits (padded w n)"
proof -
  have "set (padded w n) \<subseteq> insert (CHR ''0'') (set (show_nat n))" by (auto simp: Let_def)
  then show ?thesis unfolding all_digits_iff using show_nat_digits zero_digit by blast
qed

declare padded.simps [simp del]


section \<open>Parsing undoes printing\<close>

lemma iso_pieces:
  assumes "length a = 4" and "length b = 2" and "length c = 2" and "length d = 2" and "length e = 2" and "length f = 2" and "length g = 3"
  defines "s \<equiv> a @ ''-'' @ b @ ''-'' @ c @ ''T'' @ d @ '':'' @ e @ '':'' @ f @ ''.'' @ g @ ''Z''"
  shows "take 4 s = a" "take 2 (drop 5 s) = b" "take 2 (drop 8 s) = c" "take 2 (drop 11 s) = d" "take 2 (drop 14 s) = e"
    "take 2 (drop 17 s) = f" "butlast (drop 19 s) = CHR ''.'' # g" "length s = 24" "last s = CHR ''Z''"
    "map ((!) s) [4, 7, 10, 13, 16] = ''--T::''"
  using assms(1-7) by (simp_all add: s_def nth_append butlast_append)

lemma month_from_parts:
  assumes "month_from 0 n = (k, d)"
  shows "month_start k + d = n" and "d < days_in_month k"
  using month_from_sound [OF assms] by simp_all

lemma days_in_month_le: "days_in_month k \<le> 31"
proof -
  have "list_all (\<lambda>x. x \<le> 31) [31, if leap_year y then 29 else 28, 31, 30, 31, 30, 31, 31, 30, 31, 30, 31 :: nat]" for y by simp
  then show ?thesis unfolding days_in_month_def list_all_length by simp
qed

lemma time_of_day: "(m :: nat) div 3600000 * 3600000 + m div 60000 mod 60 * 60000 + m div 1000 mod 60 * 1000 + m mod 1000 = m"
proof -
  have "m div 1000 div 60 = m div 60000" "m div 60000 div 60 = m div 3600000" by (simp_all add: div_mult2_eq [symmetric])
  then have "m div 1000 = m div 60000 * 60 + m div 1000 mod 60" "m div 60000 = m div 3600000 * 60 + m div 60000 mod 60"
    by (metis div_mult_mod_eq)+
  then show ?thesis using div_mult_mod_eq [of m 1000] by linarith
qed

lemma fraction_padded: "n < 1000 \<Longrightarrow> fraction_ms (CHR ''.'' # padded 3 n) = Some n"
proof -
  assume n: "n < 1000"
  then have len: "length (padded 3 n) = 3" by (intro length_padded) simp_all
  then have "take 3 (padded 3 n @ ''00'') = padded 3 n" "padded 3 n \<noteq> []" by auto
  then show ?thesis by (simp add: fraction_ms_def all_digits_padded read_padded)
qed

lemma date_parse_iso:
  assumes "0 \<le> t" and "month_of_day (day_of t) < 12 * 8030"
  shows "date_parse (toISOString t) = Some t"
proof -
  obtain k d where kd: "month_from 0 (day_of t) = (k, d)" by (rule prod.exhaust)
  obtain ms where ms_eq: "ms = nat (t mod day_ms)" by blast
  have k: "k < 12 * 8030" using assms(2) by (simp add: month_of_day_def kd)
  have d: "d < days_in_month k" "month_start k + d = day_of t" using month_from_parts [OF kd] by simp_all
  have ms: "ms < 86400000" unfolding ms_eq day_ms_def by (simp add: nat_less_iff)
  have written: "toISOString t = padded 4 (1970 + k div 12) @ ''-'' @ padded 2 (k mod 12 + 1) @ ''-'' @ padded 2 (d + 1) @ ''T'' @
      padded 2 (ms div 3600000) @ '':'' @ padded 2 (ms div 60000 mod 60) @ '':'' @ padded 2 (ms div 1000 mod 60) @
      ''.'' @ padded 3 (ms mod 1000) @ ''Z''" by (simp add: toISOString_def kd ms_eq Let_def)
  have y: "k div 12 < 8030" using k by (simp add: less_mult_imp_div_less)
  have h: "ms div 3600000 < 24" using ms by simp
  have dd: "d + 1 < 100" using d(1) days_in_month_le [of k] by simp
  have lens: "length (padded 4 (1970 + k div 12)) = 4" "length (padded 2 (k mod 12 + 1)) = 2" "length (padded 2 (d + 1)) = 2"
    "length (padded 2 (ms div 3600000)) = 2" "length (padded 2 (ms div 60000 mod 60)) = 2" "length (padded 2 (ms div 1000 mod 60)) = 2"
    "length (padded 3 (ms mod 1000)) = 3"
    using y h dd by (auto intro!: length_padded)
  note pieces = iso_pieces [OF lens, folded written]
  have secs: "with_seconds (toISOString t) = toISOString t" using pieces(8) by (simp add: with_seconds_def)
  have year: "from_1970 (1970 + k div 12) = (1970 + k div 12, 0)" by (simp add: from_1970_def)
  have month: "(1970 + k div 12 - 1970) * 12 + (k mod 12 + 1 - 1) = k" by simp
  have fraction: "fraction_ms (CHR ''.'' # padded 3 (ms mod 1000)) = Some (ms mod 1000)" by (rule fraction_padded) simp
  have bounds: "k mod 12 \<le> 11" "\<not> 60 \<le> ms div 60000 mod 60" "\<not> 60 \<le> ms div 1000 mod 60"
    using mod_less_divisor [of 12 k] by (simp_all add: not_le)
  have total: "(int (month_start k + (d + 1) - 1) - 0) * day_ms + int (ms div 3600000 * 3600000 + ms div 60000 mod 60 * 60000 + ms div 1000 mod 60 * 1000 + ms mod 1000) = t"
    unfolding time_of_day using d(2) assms(1) by (simp add: day_of_def ms_eq day_ms_def pos_imp_zdiv_nonneg_iff)
  show ?thesis
    unfolding date_parse_def secs Let_def pieces read_padded year prod.case month fraction option.case total
    using all_digits_padded d(1) h bounds by simp
qed

text \<open>Reading a date back gives the same moment, to the millisecond, for every moment from 1970
  to the year 9999.\<close>

theorem date_roundtrip:
  assumes "0 \<le> t" and "month_of_day (day_of t) < 12 * 8030"
  shows "date_parse (toISOString t) = Some t"
  using assms by (rule date_parse_iso)

lemma date_roundtrip_witness: "date_parse (toISOString 5097600789) = Some 5097600789"
proof -
  have "month_of_day (day_of 5097600789) < 12 * 8030"
    by (simp add: month_of_day_def day_of_def day_ms_def month_from.simps days_in_month_def leap_year_def)
  then show ?thesis by (intro date_roundtrip) simp_all
qed

end
