(* ===== verification/Endpoint_Service.thy ===== *)
theory Endpoint_Service
  imports Endpoint_Trust Iso_Date
begin

text \<open>
  The operations of the endpoint trust service: the stores of endpoints, grants and sessions, the
  validation of transport envelopes, the authorization decision, incidents, and
  \<open>endpoint-trust-service.ts\<close>, which composes them. Each operation reads clock, identifiers and
  the answers of the services outside from its moment.
\<close>

section \<open>Endpoints\<close>

definition registry_allows :: "eligibility \<Rightarrow> bool" where
  "registry_allows e \<longleftrightarrow> el_distribution_status e = DsActive \<and> el_block_reason_codes e = [] \<and> \<not> el_requires_principal_override e"

definition registered_endpoint :: "registration \<Rightarrow> peripheral \<Rightarrow> eligibility option \<Rightarrow> string \<Rightarrow> string \<Rightarrow> trust_endpoint" where
  "registered_endpoint g p el timestamp newId =
     \<lparr>ep_endpoint_id = getOr (rg_endpoint_id g) newId, ep_peripheral_id = rg_peripheral_id g, ep_project_id = rg_project_id g,
      ep_display_name = rg_display_name g, ep_direction = rg_direction g, ep_capability_keys = rg_capability_keys g,
      ep_trust_state = (if pe_trust_state p = TrTrusted \<and> (\<forall>e \<in> set_option el. registry_allows e) then TrTrusted else TrSuspended),
      ep_connector_package_id = orElse (rg_connector_package_id g) (pe_connector_package_id p),
      ep_connector_release_id = orElse (rg_connector_release_id g) (pe_connector_release_id p),
      ep_registry_eligibility = el, ep_metadata = rg_metadata g, ep_evidence_refs = rg_evidence_refs g,
      ep_created_at = timestamp, ep_updated_at = timestamp\<rparr>"

definition store_register ::
  "trust_schemas \<Rightarrow> string \<Rightarrow> string \<Rightarrow> registration \<Rightarrow> peripheral \<Rightarrow> eligibility option \<Rightarrow> (trust_store, trust_endpoint) op" where
  "store_register ts now newId g p el =
     bindS (liftR (ts_endpoint ts (registered_endpoint g p el (getOr (rg_registered_at g) now) newId))) (\<lambda>e.
     bindS (saveEndpoint ts e) (\<lambda>_. returnS e))"

fun settle_all :: "('s, 'a) op list \<Rightarrow> ('s, 'a list) op" where
  \<comment> \<open>\<open>Promise.all\<close>: everything runs, the first rejection is the answer\<close>
  "settle_all [] s = (Inr [], s)"
| "settle_all (m # ms) s =
     (case m s of (r, s') \<Rightarrow> case settle_all ms s' of (rs, s'') \<Rightarrow>
        (case r of Inl e \<Rightarrow> Inl e | Inr x \<Rightarrow> (case rs of Inl e \<Rightarrow> Inl e | Inr xs \<Rightarrow> Inr (x # xs)), s''))"

definition setTrustStateForPeripheral ::
  "trust_schemas \<Rightarrow> (nat \<Rightarrow> string) \<Rightarrow> string \<Rightarrow> trust_state \<Rightarrow> string list \<Rightarrow> (trust_store, trust_endpoint list) op" where
  "setTrustStateForPeripheral ts clock peripheralId st refs =
     bindS (getsS (listEndpointsByPeripheral ts peripheralId)) (\<lambda>es.
     settle_all (map (\<lambda>(i, e). saveEndpoint ts (e\<lparr>ep_trust_state := st, ep_updated_at := clock i,
       ep_evidence_refs := merged (ep_evidence_refs e) refs\<rparr>)) (enumerate 0 es)))"

section \<open>Capability grants\<close>

definition store_grant :: "trust_schemas \<Rightarrow> string \<Rightarrow> string \<Rightarrow> grant_input \<Rightarrow> (trust_store, cap_grant) op" where
  "store_grant ts now newId g =
     bindS (liftR (ts_grant ts \<lparr>cg_grant_id = getOr (gi_grant_id g) newId, cg_endpoint_id = gi_endpoint_id g,
       cg_peripheral_id = gi_peripheral_id g, cg_project_id = gi_project_id g, cg_capability_key = gi_capability_key g,
       cg_capability_class = gi_capability_class g, cg_policy_ref = gi_policy_ref g, cg_granted_by = gi_granted_by g,
       cg_status = GrActive, cg_reason_code = gi_reason_code g, cg_evidence_refs = gi_evidence_refs g,
       cg_granted_at = getOr (gi_granted_at g) now, cg_revoked_at = None\<rparr>)) (\<lambda>r.
     bindS (saveGrant ts r) (\<lambda>_. returnS r))"

definition store_revoke :: "trust_schemas \<Rightarrow> string \<Rightarrow> revocation \<Rightarrow> (trust_store, cap_grant) op" where
  "store_revoke ts now q = bindS (getsS (getGrant ts (rc_grant_id q))) (\<lambda>found.
     case found of
       None \<Rightarrow> throwS (JsError (''Capability grant not found: '' @ rc_grant_id q))
     | Some g \<Rightarrow>
         bindS (liftR (ts_grant ts (g\<lparr>cg_status := GrRevoked, cg_reason_code := Some (rc_reason_code q),
           cg_evidence_refs := merged (cg_evidence_refs g) (rc_evidence_refs q),
           cg_revoked_at := Some (getOr (rc_revoked_at q) now)\<rparr>))) (\<lambda>r.
         bindS (saveGrant ts r) (\<lambda>_. returnS r)))"

definition findActiveGrant :: "trust_schemas \<Rightarrow> string \<Rightarrow> string \<Rightarrow> trust_store \<Rightarrow> cap_grant option" where
  "findActiveGrant ts endpointId capabilityKey s =
     List.find (\<lambda>g. cg_capability_key g = capabilityKey \<and> cg_status g = GrActive) (listGrantsByEndpoint ts endpointId s)"

section \<open>Sessions\<close>

definition store_start :: "trust_schemas \<Rightarrow> string \<Rightarrow> string \<Rightarrow> session_start \<Rightarrow> (trust_store, session) op" where
  "store_start ts now newId q =
     bindS (liftR (ts_session ts \<lparr>se_session_id = getOr (st_session_id q) newId, se_endpoint_id = st_endpoint_id q,
       se_peripheral_id = st_peripheral_id q, se_project_id = st_project_id q, se_status = SeActive,
       se_established_by = st_established_by q, se_last_nonce = None, se_last_sequence = 0,
       se_evidence_refs = st_evidence_refs q, se_established_at = getOr (st_established_at q) now,
       se_expires_at = st_expires_at q, se_rotated_at = None, se_revoked_at = None\<rparr>)) (\<lambda>r.
     bindS (saveSession ts r) (\<lambda>_. returnS r))"

definition store_rotate :: "trust_schemas \<Rightarrow> string \<Rightarrow> session_rotation \<Rightarrow> (trust_store, session) op" where
  "store_rotate ts now q = bindS (getsS (getSession ts (ro_session_id q))) (\<lambda>found.
     case found of
       None \<Rightarrow> throwS (JsError (''Session not found: '' @ ro_session_id q))
     | Some r \<Rightarrow>
         bindS (liftR (ts_session ts (r\<lparr>se_status := SeRotated, se_last_nonce := None, se_last_sequence := 0,
           se_rotated_at := Some (getOr (ro_rotated_at q) now), se_evidence_refs := merged (se_evidence_refs r) (ro_evidence_refs q)\<rparr>))) (\<lambda>r'.
         bindS (saveSession ts r') (\<lambda>_. returnS r')))"

definition touchAcceptedEnvelope :: "trust_schemas \<Rightarrow> session \<Rightarrow> transport_envelope \<Rightarrow> (trust_store, session) op" where
  "touchAcceptedEnvelope ts r env =
     bindS (liftR (ts_session ts (r\<lparr>se_last_nonce := Some (te_nonce env), se_last_sequence := te_sequence env,
       se_evidence_refs := merged (se_evidence_refs r) [''transport:'' @ te_envelope_id env]\<rparr>))) (\<lambda>r'.
     bindS (saveSession ts r') (\<lambda>_. returnS r'))"

definition revokeByPeripheral :: "trust_schemas \<Rightarrow> (nat \<Rightarrow> string) \<Rightarrow> string \<Rightarrow> string list \<Rightarrow> (trust_store, session list) op" where
  "revokeByPeripheral ts clock peripheralId refs =
     bindS (getsS (listSessionsByPeripheral ts peripheralId)) (\<lambda>rs.
     settle_all (map (\<lambda>(i, r). saveSession ts (r\<lparr>se_status := if se_status r = SeExpired then SeExpired else SeRevoked,
       se_revoked_at := Some (clock i), se_evidence_refs := merged (se_evidence_refs r) refs\<rparr>)) (enumerate 0 rs)))"

section \<open>Transport envelopes\<close>

definition transport_block :: "transport_request \<Rightarrow> string \<Rightarrow> string option" where
  \<comment> \<open>the reason code of the block, \<open>None\<close> when the envelope is accepted\<close>
  "transport_block q observedAt =
     (if pe_trust_state (tq_peripheral q) \<noteq> TrTrusted then Some ''NDT-301-PERIPHERAL_NOT_TRUSTED''
      else if ep_trust_state (tq_endpoint q) \<noteq> TrTrusted then Some ''NDT-302-ENDPOINT_NOT_TRUSTED''
      else (case tq_session q of
        None \<Rightarrow> Some ''NDT-303-SESSION_MISSING''
      | Some r \<Rightarrow>
          (let env = tq_envelope q in
           if se_status r \<noteq> SeActive then Some ''NDT-304-SESSION_NOT_ACTIVE''
           else if te_session_id env \<noteq> se_session_id r \<or> te_endpoint_id env \<noteq> se_endpoint_id r
             \<or> te_peripheral_id env \<noteq> se_peripheral_id r then Some ''NDT-305-SESSION_MISMATCH''
           else if te_expires_at env \<le> observedAt then Some ''NDT-306-ENVELOPE_EXPIRED''
           else if (\<exists>t \<in> set_option (se_expires_at r). t \<noteq> [] \<and> t \<le> observedAt) then Some ''NDT-307-SESSION_EXPIRED''
           else if te_sequence env \<le> se_last_sequence r then Some ''NDT-308-SEQUENCE_REGRESSION''
           else if truthy (se_last_nonce r) \<and> se_last_nonce r = Some (te_nonce env) then Some ''NDT-309-NONCE_REPLAY''
           else None)))"

definition transport_validate :: "trust_schemas \<Rightarrow> string \<Rightarrow> transport_request \<Rightarrow> transport_result result" where
  "transport_validate ts now q =
     (let observedAt = getOr (tq_observed_at q) now;
          ref = ''transport:'' @ te_envelope_id (tq_envelope q) in
      case transport_block q observedAt of
        Some code \<Rightarrow> ts_transport_result ts \<lparr>tz_accepted = False, tz_reason_code = Some code,
          tz_session_id = map_option se_session_id (tq_session q), tz_evidence_refs = [ref, ''reason:'' @ code], tz_evaluated_at = observedAt\<rparr>
      | None \<Rightarrow> ts_transport_result ts \<lparr>tz_accepted = True, tz_reason_code = None,
          tz_session_id = map_option se_session_id (tq_session q), tz_evidence_refs = [ref], tz_evaluated_at = observedAt\<rparr>)"

section \<open>Authorization\<close>

record auth_facts =
  af_request :: auth_request
  af_peripheral :: "peripheral option"
  af_endpoint :: "trust_endpoint option"
  af_grant :: "cap_grant option"
  af_session :: "session option"
  af_transport :: "transport_result option"
  af_confirmed :: bool

definition grant_matches :: "auth_request \<Rightarrow> cap_grant \<Rightarrow> bool" where
  "grant_matches q g \<longleftrightarrow> cg_status g = GrActive \<and> cg_capability_key g = aq_capability_key q \<and> cg_policy_ref g = aq_policy_ref q"

definition auth_block :: "auth_facts \<Rightarrow> string option" where
  "auth_block f =
     (let q = af_request f in
      case af_peripheral f of
        None \<Rightarrow> Some ''NDT-401-PERIPHERAL_NOT_TRUSTED''
      | Some p \<Rightarrow>
          if pe_trust_state p \<noteq> TrTrusted then Some ''NDT-401-PERIPHERAL_NOT_TRUSTED''
          else (case af_endpoint f of
            None \<Rightarrow> Some ''NDT-402-ENDPOINT_NOT_TRUSTED''
          | Some e \<Rightarrow>
              if ep_trust_state e \<noteq> TrTrusted then Some ''NDT-402-ENDPOINT_NOT_TRUSTED''
              else if ep_direction e \<noteq> aq_capability_class q then Some ''NDT-403-DIRECTION_CAPABILITY_MISMATCH''
              else if \<exists>el \<in> set_option (ep_registry_eligibility e). \<not> registry_allows el then Some ''NDT-404-REGISTRY_GATE_BLOCKED''
              else if \<not> (\<exists>g \<in> set_option (af_grant f). grant_matches q g) then Some ''NDT-405-CAPABILITY_NOT_GRANTED''
              else if truthy (aq_session_id q) \<and> \<not> (\<exists>r \<in> set_option (af_session f). se_status r = SeActive)
              then Some ''NDT-406-SESSION_REQUIRED''
              else (case af_transport f of
                Some t \<Rightarrow> if \<not> tz_accepted t then Some (getOr (tz_reason_code t) ''NDT-407-TRANSPORT_BLOCKED'')
                  else if aq_risk q = RiskHigh \<and> \<not> af_confirmed f then Some ''NDT-408-CONFIRMATION_REQUIRED'' else None
              | None \<Rightarrow> if aq_risk q = RiskHigh \<and> \<not> af_confirmed f then Some ''NDT-408-CONFIRMATION_REQUIRED'' else None)))"

definition engine_authorize :: "trust_schemas \<Rightarrow> string \<Rightarrow> string \<Rightarrow> auth_facts \<Rightarrow> auth_result result" where
  "engine_authorize ts evaluatedAt newId f =
     (let q = af_request f in
      case auth_block f of
        Some code \<Rightarrow> ts_auth_result ts \<lparr>az_allowed = False, az_reason_code = Some code, az_request_id = getOr (aq_request_id q) newId,
          az_endpoint_id = aq_endpoint_id q, az_peripheral_id = aq_peripheral_id q, az_project_id = aq_project_id q,
          az_grant_id = None, az_session_id = aq_session_id q, az_evidence_refs = aq_evidence_refs q @ [''reason:'' @ code],
          az_evaluated_at = evaluatedAt\<rparr>
      | None \<Rightarrow> ts_auth_result ts \<lparr>az_allowed = True, az_reason_code = None, az_request_id = getOr (aq_request_id q) newId,
          az_endpoint_id = aq_endpoint_id q, az_peripheral_id = aq_peripheral_id q, az_project_id = aq_project_id q,
          az_grant_id = map_option cg_grant_id (af_grant f), az_session_id = map_option se_session_id (af_session f),
          az_evidence_refs = merged (aq_evidence_refs q) (case af_grant f of None \<Rightarrow> [] | Some g \<Rightarrow> cg_evidence_refs g),
          az_evaluated_at = evaluatedAt\<rparr>)"


section \<open>The service\<close>

record escalation_notice =
  en_context :: string
  en_triggerReason :: string
  en_projectId :: string
  en_critical :: bool \<comment> \<open>the priority, otherwise high\<close>
  en_timestamp :: string

record trust_deps =
  td_schemas :: trust_schemas
  td_registry :: bool \<comment> \<open>which services are present\<close>
  td_opctl :: bool
  td_escalation :: bool
  td_witness :: bool

record trust_moment =
  tm_now :: string
  tm_endpointClock :: "nat \<Rightarrow> string" \<comment> \<open>the clock, read once for each endpoint or session of a device\<close>
  tm_sessionClock :: "nat \<Rightarrow> string"
  tm_id :: string
  tm_eligibility :: "string \<Rightarrow> string \<Rightarrow> string \<Rightarrow> eligibility result" \<comment> \<open>project, package, release\<close>
  tm_confirm :: "confirmation_proof \<Rightarrow> envelope \<Rightarrow> bool result"
  tm_notify :: "escalation_notice \<Rightarrow> string result"
  tm_witness :: "string \<Rightarrow> unit result"

definition recordWitness :: "trust_deps \<Rightarrow> trust_moment \<Rightarrow> string \<Rightarrow> bool \<Rightarrow> (trust_store, unit) op" where
  "recordWitness deps m ref succeeded =
     (if \<not> td_witness deps then returnS ()
      else bindS (liftR (tm_witness m ref)) (\<lambda>_ s. (Inr (), s\<lparr>et_witnessed := et_witnessed s @ [(ref, succeeded)]\<rparr>)))"

definition requirePeripheral :: "trust_schemas \<Rightarrow> string \<Rightarrow> (trust_store, peripheral) op" where
  "requirePeripheral ts i = bindS (getsS (getPeripheral ts i)) (\<lambda>found.
     case found of None \<Rightarrow> throwS (JsError (''Peripheral not found: '' @ i)) | Some p \<Rightarrow> returnS p)"

definition requireEndpoint :: "trust_schemas \<Rightarrow> string \<Rightarrow> (trust_store, trust_endpoint) op" where
  "requireEndpoint ts i = bindS (getsS (getEndpoint ts i)) (\<lambda>found.
     case found of None \<Rightarrow> throwS (JsError (''Endpoint not found: '' @ i)) | Some e \<Rightarrow> returnS e)"

definition requestPairing :: "trust_deps \<Rightarrow> trust_moment \<Rightarrow> pairing_request \<Rightarrow> (trust_store, pairing) op" where
  "requestPairing deps m input =
     bindS (liftR (ts_pairing_request (td_schemas deps) input)) (\<lambda>q.
     bindS (createPairing (td_schemas deps) (tm_now m) (tm_id m) q) (\<lambda>(_, r).
     bindS (recordWitness deps m (''endpoint-trust:pairing:'' @ pr_pairing_id r) True) (\<lambda>_. returnS r)))"

definition reviewPairing :: "trust_deps \<Rightarrow> trust_moment \<Rightarrow> pairing_review \<Rightarrow> (trust_store, pairing) op" where
  "reviewPairing deps m input =
     bindS (liftR (ts_pairing_review (td_schemas deps) input)) (\<lambda>v.
     bindS (store_reviewPairing (td_schemas deps) (tm_now m) v) (\<lambda>(_, r).
     bindS (recordWitness deps m (''endpoint-trust:pairing-review:'' @ pr_pairing_id r) True) (\<lambda>_. returnS r)))"

definition evaluateRegistryEligibility ::
  "trust_deps \<Rightarrow> trust_moment \<Rightarrow> string \<Rightarrow> string option \<Rightarrow> string option \<Rightarrow> eligibility option result" where
  "evaluateRegistryEligibility deps m projectId packageId releaseId =
     (if \<not> td_registry deps \<or> \<not> truthy packageId \<or> \<not> truthy releaseId then Inr None
      else bindR (tm_eligibility m projectId (the packageId) (the releaseId)) (\<lambda>e. Inr (Some e)))"

definition registerEndpoint :: "trust_deps \<Rightarrow> trust_moment \<Rightarrow> registration \<Rightarrow> (trust_store, trust_endpoint) op" where
  "registerEndpoint deps m input =
     bindS (liftR (ts_registration (td_schemas deps) input)) (\<lambda>g.
     bindS (requirePeripheral (td_schemas deps) (rg_peripheral_id g)) (\<lambda>p.
     bindS (liftR (evaluateRegistryEligibility deps m (rg_project_id g)
       (orElse (rg_connector_package_id g) (pe_connector_package_id p))
       (orElse (rg_connector_release_id g) (pe_connector_release_id p)))) (\<lambda>el.
     bindS (store_register (td_schemas deps) (tm_now m) (tm_id m) g p el) (\<lambda>e.
     bindS (recordWitness deps m (''endpoint-trust:endpoint:'' @ ep_endpoint_id e) True) (\<lambda>_. returnS e)))))"

definition grantCapability :: "trust_deps \<Rightarrow> trust_moment \<Rightarrow> grant_input \<Rightarrow> (trust_store, cap_grant) op" where
  "grantCapability deps m input =
     bindS (liftR (ts_grant_input (td_schemas deps) input)) (\<lambda>g.
     bindS (requireEndpoint (td_schemas deps) (gi_endpoint_id g)) (\<lambda>e.
     if ep_direction e \<noteq> gi_capability_class g then throwS (JsError ''NDT-403-DIRECTION_CAPABILITY_MISMATCH'')
     else if ep_trust_state e \<noteq> TrTrusted then throwS (JsError ''NDT-402-ENDPOINT_NOT_TRUSTED'')
     else
       bindS (store_grant (td_schemas deps) (tm_now m) (tm_id m) g) (\<lambda>r.
       bindS (recordWitness deps m (''endpoint-trust:grant:'' @ cg_grant_id r) True) (\<lambda>_. returnS r))))"

definition revokeCapability :: "trust_deps \<Rightarrow> trust_moment \<Rightarrow> revocation \<Rightarrow> (trust_store, cap_grant) op" where
  "revokeCapability deps m input =
     bindS (liftR (ts_revocation (td_schemas deps) input)) (\<lambda>q.
     bindS (store_revoke (td_schemas deps) (tm_now m) q) (\<lambda>r.
     bindS (recordWitness deps m (''endpoint-trust:grant-revoke:'' @ cg_grant_id r) True) (\<lambda>_. returnS r)))"

definition establishSession :: "trust_deps \<Rightarrow> trust_moment \<Rightarrow> session_start \<Rightarrow> (trust_store, session) op" where
  "establishSession deps m input =
     bindS (liftR (ts_session_start (td_schemas deps) input)) (\<lambda>q.
     bindS (requirePeripheral (td_schemas deps) (st_peripheral_id q)) (\<lambda>p.
     bindS (requireEndpoint (td_schemas deps) (st_endpoint_id q)) (\<lambda>e.
     if pe_trust_state p \<noteq> TrTrusted \<or> ep_trust_state e \<noteq> TrTrusted then throwS (JsError ''NDT-402-ENDPOINT_NOT_TRUSTED'')
     else
       bindS (store_start (td_schemas deps) (tm_now m) (tm_id m) q) (\<lambda>r.
       bindS (recordWitness deps m (''endpoint-trust:session:'' @ se_session_id r) True) (\<lambda>_. returnS r)))))"

definition rotateSession :: "trust_deps \<Rightarrow> trust_moment \<Rightarrow> session_rotation \<Rightarrow> (trust_store, session) op" where
  "rotateSession deps m input =
     bindS (liftR (ts_session_rotation (td_schemas deps) input)) (\<lambda>q.
     bindS (store_rotate (td_schemas deps) (tm_now m) q) (\<lambda>r.
     bindS (recordWitness deps m (''endpoint-trust:session-rotate:'' @ se_session_id r) True) (\<lambda>_. returnS r)))"

definition validateTransport :: "trust_deps \<Rightarrow> trust_moment \<Rightarrow> transport_request \<Rightarrow> (trust_store, transport_result) op" where
  "validateTransport deps m input =
     bindS (liftR (ts_transport_request (td_schemas deps) input)) (\<lambda>q.
     bindS (liftR (transport_validate (td_schemas deps) (tm_now m) q)) (\<lambda>z.
     bindS (case tq_session q of
              Some r \<Rightarrow> if tz_accepted z then bindS (touchAcceptedEnvelope (td_schemas deps) r (tq_envelope q)) (\<lambda>_. returnS ())
                else returnS ()
            | None \<Rightarrow> returnS ()) (\<lambda>_.
     bindS (recordWitness deps m (''endpoint-trust:transport:'' @ te_envelope_id (tq_envelope q)) (tz_accepted z)) (\<lambda>_. returnS z))))"

definition validateConfirmation :: "trust_deps \<Rightarrow> trust_moment \<Rightarrow> auth_request \<Rightarrow> bool result" where
  "validateConfirmation deps m q =
     (if aq_risk q \<noteq> RiskHigh then Inr True
      else if \<not> td_opctl deps then Inr False
      else (case (aq_confirmation_proof q, aq_control_command_envelope q) of
        (Some proof, Some env) \<Rightarrow> tm_confirm m proof env
      | _ \<Rightarrow> Inr False))"

definition transport_of ::
  "trust_deps \<Rightarrow> trust_moment \<Rightarrow> auth_request \<Rightarrow> peripheral option \<Rightarrow> trust_endpoint option \<Rightarrow> session option
    \<Rightarrow> (trust_store, transport_result option) op" where
  "transport_of deps m q p e r =
     (case (aq_transport_envelope q, p, e) of
        (Some env, Some p', Some e') \<Rightarrow>
          bindS (validateTransport deps m \<lparr>tq_peripheral = p', tq_endpoint = e', tq_session = r, tq_envelope = env,
            tq_observed_at = aq_requested_at q\<rparr>) (\<lambda>z. returnS (Some z))
      | _ \<Rightarrow> returnS None)"

definition endpoint_authorize :: "trust_deps \<Rightarrow> trust_moment \<Rightarrow> auth_request \<Rightarrow> (trust_store, auth_result) op" where
  "endpoint_authorize deps m input =
     (let ts = td_schemas deps in
      bindS (liftR (ts_auth_request ts (input\<lparr>aq_request_id := Some (getOr (aq_request_id input) (tm_id m)),
        aq_requested_at := Some (getOr (aq_requested_at input) (tm_now m))\<rparr>))) (\<lambda>q.
      bindS (getsS (getPeripheral ts (aq_peripheral_id q))) (\<lambda>p.
      bindS (getsS (getEndpoint ts (aq_endpoint_id q))) (\<lambda>e.
      bindS (getsS (\<lambda>s. case e of None \<Rightarrow> None | Some _ \<Rightarrow> findActiveGrant ts (aq_endpoint_id q) (aq_capability_key q) s)) (\<lambda>g.
      bindS (getsS (\<lambda>s. if truthy (aq_session_id q) then getSession ts (the (aq_session_id q)) s else None)) (\<lambda>r.
      bindS (transport_of deps m q p e r) (\<lambda>t.
      bindS (liftR (validateConfirmation deps m q)) (\<lambda>confirmed.
      bindS (liftR (engine_authorize ts (getOr (aq_requested_at q) (tm_now m)) (tm_id m)
        \<lparr>af_request = q, af_peripheral = p, af_endpoint = e, af_grant = g, af_session = r, af_transport = t, af_confirmed = confirmed\<rparr>)) (\<lambda>z.
      bindS (recordWitness deps m (''endpoint-trust:authorize:'' @ az_request_id z) (az_allowed z)) (\<lambda>_. returnS z))))))))))"

section \<open>Incidents\<close>

definition severe :: "incident_type \<Rightarrow> bool" where
  "severe t \<longleftrightarrow> t = CompromisedDevice \<or> t = MitmDetected \<or> t = ManualRevoke"

definition actions_of :: "incident_type \<Rightarrow> incident_action list" where
  "actions_of t =
     (if severe t then [RevokePeripheral, RevokeEndpoints, RevokeSessions, Escalate]
      else [SuspendPeripheral, SuspendEndpoints, RevokeSessions, Escalate])"

definition state_after :: "incident_type \<Rightarrow> trust_state" where
  "state_after t = (if severe t then TrRevoked else TrSuspended)"

definition incident_refs :: "incident_report \<Rightarrow> string list" where
  "incident_refs i = merged (ir_evidence_refs i) [''reason:'' @ ir_reason_code i]"

definition incident_rest :: "trust_deps \<Rightarrow> trust_moment \<Rightarrow> incident_report \<Rightarrow> peripheral \<Rightarrow> string \<Rightarrow> (trust_store, incident) op" where
  \<comment> \<open>after the device itself was stored\<close>
  "incident_rest deps m i p reportedAt =
     (let ts = td_schemas deps; refs = incident_refs i in
      bindS (setTrustStateForPeripheral ts (tm_endpointClock m) (pe_peripheral_id p) (state_after (ir_incident_type i)) refs) (\<lambda>_.
      bindS (revokeByPeripheral ts (tm_sessionClock m) (pe_peripheral_id p) refs) (\<lambda>_.
      bindS (if td_escalation deps
             then bindS (liftR (tm_notify m \<lparr>en_context = ''Endpoint trust incident for '' @ pe_display_name p,
                en_triggerReason = ir_reason_code i, en_projectId = ir_project_id i, en_critical = (ir_severity i = SevCritical),
                en_timestamp = reportedAt\<rparr>)) (\<lambda>x. returnS (Some x))
             else returnS None) (\<lambda>escalationId.
      bindS (liftR (ts_incident ts \<lparr>ic_incident_id = getOr (ir_incident_id i) (tm_id m), ic_peripheral_id = ir_peripheral_id i,
        ic_endpoint_id = ir_endpoint_id i, ic_project_id = ir_project_id i, ic_incident_type = ir_incident_type i,
        ic_reported_by = ir_reported_by i, ic_severity = ir_severity i, ic_reason_code = ir_reason_code i,
        ic_action_taken = actions_of (ir_incident_type i), ic_escalation_id = escalationId,
        ic_evidence_refs = (if truthy escalationId then refs @ [''escalation:'' @ the escalationId] else refs),
        ic_reported_at = reportedAt\<rparr>)) (\<lambda>c.
      bindS (saveIncident ts c) (\<lambda>_. returnS c))))))"

definition incident_device :: "incident_report \<Rightarrow> peripheral \<Rightarrow> string \<Rightarrow> peripheral" where
  "incident_device i p reportedAt = p\<lparr>pe_trust_state := state_after (ir_incident_type i), pe_updated_at := reportedAt,
     pe_evidence_refs := merged (pe_evidence_refs p) (incident_refs i)\<rparr>"

definition handle_incident :: "trust_deps \<Rightarrow> trust_moment \<Rightarrow> incident_report \<Rightarrow> peripheral \<Rightarrow> (trust_store, incident) op" where
  "handle_incident deps m i p =
     (let reportedAt = getOr (ir_reported_at i) (tm_now m) in
      bindS (liftR (ts_peripheral (td_schemas deps) (incident_device i p reportedAt))) (\<lambda>p'.
      bindS (savePeripheral (td_schemas deps) p') (\<lambda>_. incident_rest deps m i p reportedAt)))"

definition reportIncident :: "trust_deps \<Rightarrow> trust_moment \<Rightarrow> incident_report \<Rightarrow> (trust_store, incident) op" where
  "reportIncident deps m input =
     bindS (liftR (ts_incident_report (td_schemas deps) input)) (\<lambda>i.
     bindS (requirePeripheral (td_schemas deps) (ir_peripheral_id i)) (\<lambda>p.
     bindS (handle_incident deps m i p) (\<lambda>c.
     bindS (recordWitness deps m (''endpoint-trust:incident:'' @ ic_incident_id c) False) (\<lambda>_. returnS c))))"


section \<open>The summary of a project\<close>

record trust_summary =
  su_projectId :: string
  su_peripheralCount :: nat
  su_trustedPeripheralCount :: nat
  su_suspendedPeripheralCount :: nat
  su_revokedPeripheralCount :: nat
  su_sensoryEndpointCount :: nat
  su_actionEndpointCount :: nat
  su_activeSessionCount :: nat
  su_expiringSessionCount :: nat
  su_latestIncidentSeverity :: "incident_severity option"
  su_latestIncidentReasonCode :: "string option"
  su_registryBlockedEndpointCount :: nat

definition count_of :: "('a \<Rightarrow> bool) \<Rightarrow> 'a list \<Rightarrow> nat" where
  "count_of cond xs = length (filter cond xs)"

definition expiring :: "string \<Rightarrow> session \<Rightarrow> bool" where
  "expiring nowText r \<longleftrightarrow> se_status r = SeActive \<and>
     (case (se_expires_at r, date_parse nowText) of
        (Some t, Some now) \<Rightarrow> t \<noteq> [] \<and> (\<exists>e \<in> set_option (date_parse t). now \<le> e \<and> e - now \<le> 24 * 60 * 60 * 1000)
      | _ \<Rightarrow> False)"

definition getProjectSurfaceSummary :: "trust_schemas \<Rightarrow> string \<Rightarrow> string \<Rightarrow> trust_store \<Rightarrow> trust_summary" where
  "getProjectSurfaceSummary ts now projectId s =
     (let peripherals = listPeripheralsByProject ts projectId s; endpoints = listEndpointsByProject ts projectId s;
          sessions = listSessionsByProject ts projectId s; incidents = listIncidentsByProject ts projectId s;
          latest = (case incidents of [] \<Rightarrow> None | i # _ \<Rightarrow> Some i)
      in \<lparr>su_projectId = projectId, su_peripheralCount = length peripherals,
          su_trustedPeripheralCount = count_of (\<lambda>r. pe_trust_state r = TrTrusted) peripherals,
          su_suspendedPeripheralCount = count_of (\<lambda>r. pe_trust_state r = TrSuspended) peripherals,
          su_revokedPeripheralCount = count_of (\<lambda>r. pe_trust_state r = TrRevoked) peripherals,
          su_sensoryEndpointCount = count_of (\<lambda>r. ep_direction r = Sensory) endpoints,
          su_actionEndpointCount = count_of (\<lambda>r. ep_direction r = Acting) endpoints,
          su_activeSessionCount = count_of (\<lambda>r. se_status r = SeActive) sessions,
          su_expiringSessionCount = count_of (expiring now) sessions,
          su_latestIncidentSeverity = map_option ic_severity latest,
          su_latestIncidentReasonCode = map_option ic_reason_code latest,
          su_registryBlockedEndpointCount = count_of (\<lambda>r. \<exists>el \<in> set_option (ep_registry_eligibility r). el_block_reason_codes el \<noteq> []) endpoints\<rparr>)"

end
