(* ===== verification/Endpoint_Properties.thy ===== *)
theory Endpoint_Properties
  imports Endpoint_Service
begin

text \<open>
  What the endpoint trust service guarantees over its whole history: \<open>trust_run\<close> strings operations
  together, whatever they answer. A device that was reported stays without access until a review
  approves it, and an envelope of a session is accepted at most once.
\<close>

section \<open>Relations between stores\<close>

text \<open>A relation that every part of an operation respects, the whole operation respects.\<close>

locale store_relation =
  fixes R :: "'s \<Rightarrow> 's \<Rightarrow> bool"
  assumes refl: "R s s" and trans: "R s t \<Longrightarrow> R t u \<Longrightarrow> R s u"
begin

lemma bind: "R s (snd (m s)) \<Longrightarrow> (\<And>x t. m s = (Inr x, t) \<Longrightarrow> R t (snd (f x t))) \<Longrightarrow> R s (snd (bindS m f s))"
  by (rule bindS_cases [of m s f]) (auto intro: trans)

lemma gets: "R s (snd (f (g s) s)) \<Longrightarrow> R s (snd (bindS (getsS g) f s))"
  by simp

lemma lift: "(\<And>x. r = Inr x \<Longrightarrow> R s (snd (f x s))) \<Longrightarrow> R s (snd (bindS (liftR r) f s))"
  by (cases r) (simp_all add: refl)

lemma settle: "(\<And>m s. m \<in> set ms \<Longrightarrow> R s (snd (m s))) \<Longrightarrow> R s (snd (settle_all ms s))"
proof (induction ms arbitrary: s)
  case Nil
  then show ?case by (simp add: refl)
next
  case (Cons m ms)
  have "R s (snd (m s))" "R (snd (m s)) (snd (settle_all ms (snd (m s))))" using Cons by simp_all
  then show ?case using trans by (auto simp: split_beta)
qed

lemma basic: "R s (snd (returnS x s))" "R s (snd (throwS e s))" "R s (snd (liftR r s))" "R s (snd (getsS g s))"
  by (simp_all add: refl)

lemma choice: "(b \<Longrightarrow> R s (snd (m s))) \<Longrightarrow> (\<not> b \<Longrightarrow> R s (snd (n s))) \<Longrightarrow> R s (snd ((if b then m else n) s))"
  by simp

end

section \<open>Stores and runs\<close>

datatype trust_call =
    CallPair pairing_request | CallReview pairing_review | CallRegister registration | CallGrant grant_input
  | CallRevoke revocation | CallStart session_start | CallRotate session_rotation | CallValidate transport_request
  | CallAuthorize auth_request | CallIncident incident_report

fun perform :: "trust_deps \<Rightarrow> trust_moment \<Rightarrow> trust_call \<Rightarrow> trust_store \<Rightarrow> trust_store" where
  "perform deps m (CallPair q) s = snd (requestPairing deps m q s)"
| "perform deps m (CallReview q) s = snd (reviewPairing deps m q s)"
| "perform deps m (CallRegister q) s = snd (registerEndpoint deps m q s)"
| "perform deps m (CallGrant q) s = snd (grantCapability deps m q s)"
| "perform deps m (CallRevoke q) s = snd (revokeCapability deps m q s)"
| "perform deps m (CallStart q) s = snd (establishSession deps m q s)"
| "perform deps m (CallRotate q) s = snd (rotateSession deps m q s)"
| "perform deps m (CallValidate q) s = snd (validateTransport deps m q s)"
| "perform deps m (CallAuthorize q) s = snd (endpoint_authorize deps m q s)"
| "perform deps m (CallIncident q) s = snd (reportIncident deps m q s)"

inductive trust_run :: "trust_deps \<Rightarrow> (trust_moment \<Rightarrow> trust_call \<Rightarrow> trust_store \<Rightarrow> bool) \<Rightarrow> trust_store \<Rightarrow> trust_store \<Rightarrow> bool"
  for deps and allowed where
  stay: "trust_run deps allowed s s"
| step: "trust_run deps allowed s t \<Longrightarrow> allowed m c t \<Longrightarrow> trust_run deps allowed s (perform deps m c t)"

definition empty_trust :: trust_store where
  "empty_trust = \<lparr>et_peripherals = [], et_pairings = [], et_endpoints = [], et_grants = [], et_sessions = [], et_incidents = [],
     et_witnessed = []\<rparr>"

definition trust_reachable :: "trust_deps \<Rightarrow> trust_store \<Rightarrow> bool" where
  "trust_reachable deps s \<longleftrightarrow> trust_run deps (\<lambda>m c t. True) empty_trust s"

definition trust_schemas_ok :: "trust_schemas \<Rightarrow> bool" where
  "trust_schemas_ok ts \<longleftrightarrow> schema_parser (ts_peripheral ts) \<and> schema_parser (ts_pairing ts) \<and> schema_parser (ts_endpoint ts) \<and>
     schema_parser (ts_grant ts) \<and> schema_parser (ts_session ts) \<and> schema_parser (ts_incident ts) \<and>
     schema_parser (ts_pairing_request ts) \<and> schema_parser (ts_pairing_review ts) \<and> schema_parser (ts_registration ts) \<and>
     schema_parser (ts_grant_input ts) \<and> schema_parser (ts_revocation ts) \<and> schema_parser (ts_session_start ts) \<and>
     schema_parser (ts_session_rotation ts) \<and> schema_parser (ts_transport_request ts) \<and> schema_parser (ts_transport_result ts) \<and>
     schema_parser (ts_auth_request ts) \<and> schema_parser (ts_auth_result ts) \<and> schema_parser (ts_incident_report ts)"

section \<open>Records stay under their identifiers\<close>

definition trust_inv :: "trust_store \<Rightarrow> bool" where
  "trust_inv s \<longleftrightarrow> (\<forall>i r. doc_get i (et_peripherals s) = Some r \<longrightarrow> pe_peripheral_id r = i) \<and>
     (\<forall>i r. doc_get i (et_endpoints s) = Some r \<longrightarrow> ep_endpoint_id r = i) \<and>
     (\<forall>i r. doc_get i (et_sessions s) = Some r \<longrightarrow> se_session_id r = i) \<and>
     distinct (obj_keys (et_endpoints s)) \<and> distinct (obj_keys (et_grants s)) \<and> distinct (obj_keys (et_sessions s))"

lemma keeps_case_option [keeps_intros]: "keeps P m \<Longrightarrow> (\<And>x. keeps P (f x)) \<Longrightarrow> keeps P (case z of None \<Rightarrow> m | Some x \<Rightarrow> f x)"
  by (cases z) simp_all

lemma keeps_pair [keeps_intros]: "(\<And>x y. keeps P (f x y)) \<Longrightarrow> keeps P (case z of (x, y) \<Rightarrow> f x y)"
  by (cases z) simp

lemma keeps_choice [keeps_intros]: "keeps P m \<Longrightarrow> keeps P n \<Longrightarrow> keeps P (if b then m else n)"
  by simp

lemma keeps_let_in [keeps_intros]: "keeps P (f x) \<Longrightarrow> keeps P (let y = x in f y)"
  by simp

lemma keeps_settle_all [keeps_intros]: "(\<And>m. m \<in> set ms \<Longrightarrow> keeps P m) \<Longrightarrow> keeps P (settle_all ms)"
proof (induction ms)
  case Nil
  then show ?case by (simp add: keeps_def)
next
  case (Cons m ms)
  then have "keeps P m" "keeps P (settle_all ms)" by simp_all
  then show ?case by (auto simp: keeps_def split_beta)
qed

lemma keeps_saves [keeps_intros]:
  "keeps trust_inv (savePeripheral ts p)" "keeps trust_inv (savePairing ts r)" "keeps trust_inv (saveEndpoint ts e)"
  "keeps trust_inv (saveGrant ts g)" "keeps trust_inv (saveSession ts x)" "keeps trust_inv (saveIncident ts c)"
  "keeps trust_inv (recordWitness deps m ref ok)"
  by (auto simp: keeps_def savePeripheral_def savePairing_def saveEndpoint_def saveGrant_def saveSession_def saveIncident_def
      recordWitness_def bindS_def trust_inv_def documents.get_put doc_get_def doc_put_def distinct_keys_obj_set split: sum.splits if_splits)

lemmas trust_op_defs = createPairing_def store_reviewPairing_def store_register_def setTrustStateForPeripheral_def store_grant_def
  store_revoke_def store_start_def store_rotate_def touchAcceptedEnvelope_def revokeByPeripheral_def requirePeripheral_def
  requireEndpoint_def requestPairing_def reviewPairing_def registerEndpoint_def grantCapability_def revokeCapability_def
  establishSession_def rotateSession_def validateTransport_def transport_of_def endpoint_authorize_def handle_incident_def incident_rest_def
  reportIncident_def

lemma perform_inv: "trust_inv s \<Longrightarrow> trust_inv (perform deps m c s)"
proof -
  have "keeps trust_inv (requestPairing deps m q1)" "keeps trust_inv (reviewPairing deps m q2)" "keeps trust_inv (registerEndpoint deps m q3)"
    "keeps trust_inv (grantCapability deps m q4)" "keeps trust_inv (revokeCapability deps m q5)" "keeps trust_inv (establishSession deps m q6)"
    "keeps trust_inv (rotateSession deps m q7)" "keeps trust_inv (validateTransport deps m q8)" "keeps trust_inv (endpoint_authorize deps m q9)"
    "keeps trust_inv (reportIncident deps m q10)" for q1 q2 q3 q4 q5 q6 q7 q8 q9 q10
    unfolding trust_op_defs by (intro keeps_intros | force intro: keeps_intros)+
  then show "trust_inv s \<Longrightarrow> trust_inv (perform deps m c s)" by (cases c) (simp_all add: keeps_def)
qed


lemma trust_run_inv: "trust_run deps allowed s t \<Longrightarrow> trust_inv s \<Longrightarrow> trust_inv t"
  by (induction rule: trust_run.induct) (simp_all add: perform_inv)

lemma trust_reachable_inv: "trust_reachable deps s \<Longrightarrow> trust_inv s"
  unfolding trust_reachable_def by (rule trust_run_inv) (auto simp: trust_inv_def empty_trust_def doc_get_def obj_keys_def)

section \<open>Trust of a device\<close>

definition untrusted :: "string \<Rightarrow> trust_store \<Rightarrow> bool" where
  "untrusted p s \<longleftrightarrow> (\<forall>d. doc_get p (et_peripherals s) = Some d \<longrightarrow> pe_trust_state d \<noteq> TrTrusted)"

definition stays_untrusted :: "string \<Rightarrow> trust_store \<Rightarrow> trust_store \<Rightarrow> bool" where
  "stays_untrusted p s t \<longleftrightarrow> (untrusted p s \<longrightarrow> untrusted p t)"

interpretation untrusted: store_relation "stays_untrusted p" for p
  by unfold_locales (auto simp: stays_untrusted_def)

lemma same_devices: "et_peripherals t = et_peripherals s \<Longrightarrow> stays_untrusted p s t"
  by (simp add: stays_untrusted_def untrusted_def)

lemma untrusted_saves:
  "stays_untrusted p s (snd (savePairing ts r s))" "stays_untrusted p s (snd (saveEndpoint ts e s))"
  "stays_untrusted p s (snd (saveGrant ts g s))" "stays_untrusted p s (snd (saveSession ts x s))"
  "stays_untrusted p s (snd (saveIncident ts c s))" "stays_untrusted p s (snd (recordWitness deps m ref good s))"
  by (rule same_devices, simp add: savePairing_def saveEndpoint_def saveGrant_def saveSession_def saveIncident_def recordWitness_def
      bindS_def split: sum.split)+

lemma untrusted_savePeripheral:
  assumes "schema_parser (ts_peripheral ts)" and "pe_peripheral_id d \<noteq> p \<or> pe_trust_state d \<noteq> TrTrusted"
  shows "stays_untrusted p s (snd (savePeripheral ts d s))"
  unfolding savePeripheral_def
proof (rule untrusted.lift)
  fix v
  assume "ts_peripheral ts d = Inr v"
  then have "v = d" using schema_parser.parse_id [OF assms(1)] by metis
  with assms(2) show "stays_untrusted p s (snd (Inr v, s\<lparr>et_peripherals := doc_put (pe_peripheral_id v) v (et_peripherals s)\<rparr>))"
    by (auto simp: stays_untrusted_def untrusted_def documents.get_put doc_get_def doc_put_def)
qed

lemma untrusted_option: "(z = None \<Longrightarrow> stays_untrusted p s (snd (m s))) \<Longrightarrow> (\<And>x. z = Some x \<Longrightarrow> stays_untrusted p s (snd (f x s))) \<Longrightarrow>
    stays_untrusted p s (snd ((case z of None \<Rightarrow> m | Some x \<Rightarrow> f x) s))"
  by (cases z) simp_all

lemmas untrusted_rules = untrusted.bind untrusted.gets untrusted.lift untrusted.basic untrusted.choice untrusted_saves untrusted_option

lemma untrusted_validate: "stays_untrusted p s (snd (validateTransport deps m q s))"
  unfolding validateTransport_def touchAcceptedEnvelope_def by (intro untrusted_rules)

lemma untrusted_others:
  "stays_untrusted p s (snd (registerEndpoint deps m q3 s))" "stays_untrusted p s (snd (grantCapability deps m q4 s))"
  "stays_untrusted p s (snd (revokeCapability deps m q5 s))" "stays_untrusted p s (snd (establishSession deps m q6 s))"
  "stays_untrusted p s (snd (rotateSession deps m q7 s))"
  unfolding trust_op_defs by (intro untrusted_rules)+

lemma untrusted_transport: "stays_untrusted p s (snd (transport_of deps m q d e r s))"
proof -
  have "stays_untrusted p s (snd (bindS (validateTransport deps m t) (\<lambda>z. returnS (Some z)) s))" for t
    by (intro untrusted_rules untrusted_validate)
  then show ?thesis unfolding transport_of_def by (auto simp: untrusted.refl split: option.split)
qed

lemma untrusted_authorize: "stays_untrusted p s (snd (endpoint_authorize deps m q s))"
  unfolding endpoint_authorize_def Let_def by (intro untrusted_rules untrusted_transport)


lemma untrusted_settle_endpoints: "stays_untrusted p s (snd (setTrustStateForPeripheral ts clock d st refs s))"
  unfolding setTrustStateForPeripheral_def by (intro untrusted.gets untrusted.settle) (auto simp: untrusted_saves)

lemma untrusted_settle_sessions: "stays_untrusted p s (snd (revokeByPeripheral ts clock d refs s))"
  unfolding revokeByPeripheral_def by (intro untrusted.gets untrusted.settle) (auto simp: untrusted_saves)

lemma untrusted_pairing: "schema_parser (ts_peripheral (td_schemas deps)) \<Longrightarrow> stays_untrusted p s (snd (requestPairing deps m q s))"
  unfolding requestPairing_def createPairing_def Let_def split_beta
  by (intro untrusted_rules) (auto intro!: untrusted_savePeripheral dest: schema_parser.parse_id simp: requested_peripheral_def)

lemma parsed_doc_id: "schema_parser parse \<Longrightarrow> parsed_doc parse x = Some y \<Longrightarrow> y = x"
  unfolding parsed_doc_def using schema_parser.parse_id by (fastforce split: sum.splits)

lemma getPeripheral_stored: "schema_parser (ts_peripheral ts) \<Longrightarrow> getPeripheral ts i s = Some d \<Longrightarrow> doc_get i (et_peripherals s) = Some d"
  by (auto simp: getPeripheral_def bind_eq_Some_conv dest: parsed_doc_id)

definition approves :: "trust_deps \<Rightarrow> string \<Rightarrow> trust_call \<Rightarrow> trust_store \<Rightarrow> bool" where
  \<comment> \<open>a review that approves a pairing of the device\<close>
  "approves deps p c s \<longleftrightarrow>
     (\<exists>v r. c = CallReview v \<and> rv_approved v \<and> getPairing (td_schemas deps) (rv_pairing_id v) s = Some r \<and> pr_peripheral_id r = p)"

lemma untrusted_review_store:
  assumes "schema_parser (ts_peripheral ts)"
    and "\<And>old d. getPairing ts (rv_pairing_id v) s = Some old \<Longrightarrow> getPeripheral ts (pr_peripheral_id old) s = Some d \<Longrightarrow>
      pe_peripheral_id d \<noteq> p \<or> \<not> rv_approved v"
  shows "stays_untrusted p s (snd (store_reviewPairing ts now v s))"
  unfolding store_reviewPairing_def Let_def
  by (intro untrusted_rules untrusted_savePeripheral [OF assms(1)])
    (use assms(2) in \<open>auto dest!: schema_parser.parse_id [OF assms(1)] simp: reviewed_peripheral_def\<close>)

lemma untrusted_review:
  assumes "trust_schemas_ok (td_schemas deps)" and "trust_inv s" and "\<not> approves deps p (CallReview input) s"
  shows "stays_untrusted p s (snd (reviewPairing deps m input s))"
proof -
  let ?ts = "td_schemas deps"
  have parsers: "schema_parser (ts_pairing_review ?ts)" "schema_parser (ts_peripheral ?ts)" using assms(1) by (auto simp: trust_schemas_ok_def)
  have "pe_peripheral_id d \<noteq> p \<or> \<not> rv_approved input"
    if "getPairing ?ts (rv_pairing_id input) s = Some old" "getPeripheral ?ts (pr_peripheral_id old) s = Some d" for old d
  proof -
    from getPeripheral_stored [OF parsers(2) that(2)] assms(2) have "pe_peripheral_id d = pr_peripheral_id old"
      by (simp add: trust_inv_def)
    with that(1) assms(3) show ?thesis by (auto simp: approves_def)
  qed
  from untrusted_review_store [OF parsers(2) this] show ?thesis
    unfolding reviewPairing_def split_beta
    by (intro untrusted_rules) (auto dest!: schema_parser.parse_id [OF parsers(1)])
qed

lemma state_after_untrusted: "state_after t \<noteq> TrTrusted"
  by (simp add: state_after_def)

lemma untrusted_incident:
  assumes "schema_parser (ts_peripheral (td_schemas deps))"
  shows "stays_untrusted p s (snd (reportIncident deps m i s))"
proof -
  have "stays_untrusted p s (snd (handle_incident deps m j d s))" for j d s
    unfolding handle_incident_def incident_rest_def Let_def
    by (intro untrusted_rules untrusted_savePeripheral [OF assms] untrusted_settle_endpoints untrusted_settle_sessions)
      (auto dest!: schema_parser.parse_id [OF assms] simp: state_after_untrusted incident_device_def)
  then show ?thesis unfolding reportIncident_def requirePeripheral_def by (intro untrusted_rules)
qed

lemma perform_untrusted:
  assumes "trust_schemas_ok (td_schemas deps)" and "trust_inv s" and "\<not> approves deps p c s"
  shows "stays_untrusted p s (perform deps m c s)"
proof -
  have parser: "schema_parser (ts_peripheral (td_schemas deps))" using assms(1) by (simp add: trust_schemas_ok_def)
  show ?thesis
    using untrusted_pairing [OF parser] untrusted_review [OF assms(1,2)] untrusted_others untrusted_validate untrusted_authorize
      untrusted_incident [OF parser] assms(3) by (cases c) simp_all
qed

lemma run_untrusted:
  assumes "trust_run deps (\<lambda>m c t. \<not> approves deps p c t) s t" and "trust_schemas_ok (td_schemas deps)" and "trust_inv s" and "untrusted p s"
  shows "untrusted p t"
  using assms
proof (induction rule: trust_run.induct)
  case (stay s)
  then show ?case by simp
next
  case (step s t m c)
  have "trust_inv t" using trust_run_inv [OF step.hyps(1) step.prems(2)] .
  from perform_untrusted [OF step.prems(1) this step.hyps(2)] step.IH [OF step.prems] show ?case
    by (simp add: stays_untrusted_def)
qed

text \<open>A report takes the trust away.\<close>

lemma untrusted_after_save:
  assumes "schema_parser (ts_peripheral ts)" and "savePeripheral ts d s = (Inr v, t)" and "pe_trust_state d \<noteq> TrTrusted"
  shows "untrusted (pe_peripheral_id d) t"
proof -
  from assms(2) have "v = d" "t = s\<lparr>et_peripherals := doc_put (pe_peripheral_id v) v (et_peripherals s)\<rparr>"
    using schema_parser.parse_id [OF assms(1)] by (auto simp: savePeripheral_def bindS_def split: sum.splits)
  with assms(3) show ?thesis by (simp add: untrusted_def doc_get_def doc_put_def)
qed

lemma handle_untrusts:
  assumes "schema_parser (ts_peripheral (td_schemas deps))" and "handle_incident deps m i d s = (Inr c, t)"
  shows "untrusted (pe_peripheral_id d) t"
proof -
  let ?ts = "td_schemas deps" and ?d = "incident_device i d (getOr (ir_reported_at i) (tm_now m))"
  obtain v u where save: "savePeripheral ?ts ?d s = (Inr v, u)" and rest: "incident_rest deps m i d (getOr (ir_reported_at i) (tm_now m)) u = (Inr c, t)"
    using assms(2) schema_parser.parse_id [OF assms(1)] unfolding handle_incident_def Let_def
    by (elim bindS_InrE) (auto simp: liftR_def)
  have "untrusted (pe_peripheral_id d) u"
    using untrusted_after_save [OF assms(1) save] by (simp add: incident_device_def state_after_untrusted)
  moreover have "stays_untrusted (pe_peripheral_id d) u (snd (incident_rest deps m i d (getOr (ir_reported_at i) (tm_now m)) u))"
    unfolding incident_rest_def Let_def by (intro untrusted_rules untrusted_settle_endpoints untrusted_settle_sessions)
  ultimately show ?thesis by (simp add: rest stays_untrusted_def)
qed

lemma incident_untrusts:
  assumes "trust_schemas_ok (td_schemas deps)" and "trust_inv s" and "reportIncident deps m i s = (Inr c, t)"
  shows "untrusted (ir_peripheral_id i) t"
proof -
  let ?ts = "td_schemas deps"
  have parsers: "schema_parser (ts_incident_report ?ts)" "schema_parser (ts_peripheral ?ts)" using assms(1) by (auto simp: trust_schemas_ok_def)
  obtain d u where d: "getPeripheral ?ts (ir_peripheral_id i) s = Some d" "handle_incident deps m i d s = (Inr c, u)"
    "recordWitness deps m (''endpoint-trust:incident:'' @ ic_incident_id c) False u = (Inr (), t)"
    using assms(3) schema_parser.parse_id [OF parsers(1)] unfolding reportIncident_def requirePeripheral_def
    by (elim bindS_InrE) (auto simp: liftR_def getsS_def throwS_def returnS_def split: option.splits)
  have "pe_peripheral_id d = ir_peripheral_id i"
    using getPeripheral_stored [OF parsers(2) d(1)] assms(2) by (simp add: trust_inv_def)
  with handle_untrusts [OF parsers(2) d(2)] untrusted_saves(6) [of "ir_peripheral_id i" u deps m _ False] d(3)
  show ?thesis by (metis stays_untrusted_def snd_conv)
qed


section \<open>Authorization\<close>

definition request_of :: "trust_moment \<Rightarrow> auth_request \<Rightarrow> auth_request" where
  "request_of m q = q\<lparr>aq_request_id := Some (getOr (aq_request_id q) (tm_id m)),
     aq_requested_at := Some (getOr (aq_requested_at q) (tm_now m))\<rparr>"

definition session_of :: "trust_schemas \<Rightarrow> auth_request \<Rightarrow> trust_store \<Rightarrow> session option" where
  "session_of ts q s = (if truthy (aq_session_id q) then getSession ts (the (aq_session_id q)) s else None)"

lemma engine_allowed:
  assumes "schema_parser (ts_auth_result ts)" and "engine_authorize ts now newId f = Inr z"
  shows "az_allowed z \<longleftrightarrow> auth_block f = None"
  using assms(2) unfolding engine_authorize_def Let_def by (auto dest!: schema_parser.parse_id [OF assms(1)] split: option.splits)

text \<open>The parts of a successful authorization.\<close>

lemma authorize_parts:
  assumes "trust_schemas_ok (td_schemas deps)" and "endpoint_authorize deps m input s = (Inr z, s')"
  defines "ts \<equiv> td_schemas deps" and "q \<equiv> request_of m input"
  obtains t u confirmed where
    "transport_of deps m q (getPeripheral ts (aq_peripheral_id q) s) (getEndpoint ts (aq_endpoint_id q) s) (session_of ts q s) s = (Inr t, u)"
    "validateConfirmation deps m q = Inr confirmed"
    "az_allowed z \<longleftrightarrow> auth_block \<lparr>af_request = q, af_peripheral = getPeripheral ts (aq_peripheral_id q) s,
       af_endpoint = getEndpoint ts (aq_endpoint_id q) s,
       af_grant = (case getEndpoint ts (aq_endpoint_id q) s of None \<Rightarrow> None | Some _ \<Rightarrow> findActiveGrant ts (aq_endpoint_id q) (aq_capability_key q) s),
       af_session = session_of ts q s, af_transport = t, af_confirmed = confirmed\<rparr> = None"
    "et_sessions s' = et_sessions u"
proof -
  have parsers: "schema_parser (ts_auth_request ts)" "schema_parser (ts_auth_result ts)" using assms(1) by (auto simp: trust_schemas_ok_def ts_def)
  obtain q' p e g r t u confirmed z' where peeled: "ts_auth_request ts q = Inr q'" "p = getPeripheral ts (aq_peripheral_id q') s"
    "e = getEndpoint ts (aq_endpoint_id q') s"
    "g = (case e of None \<Rightarrow> None | Some _ \<Rightarrow> findActiveGrant ts (aq_endpoint_id q') (aq_capability_key q') s)"
    "r = session_of ts q' s" "transport_of deps m q' p e r s = (Inr t, u)" "validateConfirmation deps m q' = Inr confirmed"
    "engine_authorize ts (getOr (aq_requested_at q') (tm_now m)) (tm_id m) \<lparr>af_request = q', af_peripheral = p, af_endpoint = e, af_grant = g,
      af_session = r, af_transport = t, af_confirmed = confirmed\<rparr> = Inr z'" "z' = z"
    "recordWitness deps m (''endpoint-trust:authorize:'' @ az_request_id z') (az_allowed z') u = (Inr (), s')"
    using assms(2) unfolding endpoint_authorize_def Let_def request_of_def [symmetric] ts_def [symmetric] q_def [symmetric]
    by (elim bindS_InrE) (simp add: session_of_def, blast)
  have "q' = q" using schema_parser.parse_id [OF parsers(1) peeled(1)] .
  note same = peeled(2-9) [unfolded this]
  have sessions: "et_sessions s' = et_sessions u"
    using peeled(10) by (auto simp: recordWitness_def bindS_def split: if_splits sum.splits)
  show thesis by (rule that [OF same(5) [unfolded same(1,2,4)] same(6)])
      (use engine_allowed [OF parsers(2) same(7)] same(8) sessions in \<open>simp_all add: same(1-4)\<close>)
qed


lemma validate_accepts:
  assumes "trust_schemas_ok (td_schemas deps)" and "validateTransport deps m q s = (Inr z, t)"
  shows "tz_accepted z \<longleftrightarrow> transport_block q (getOr (tq_observed_at q) (tm_now m)) = None"
proof -
  have parsers: "schema_parser (ts_transport_request (td_schemas deps))" "schema_parser (ts_transport_result (td_schemas deps))"
    using assms(1) by (auto simp: trust_schemas_ok_def)
  have "transport_validate (td_schemas deps) (tm_now m) q = Inr z"
    using assms(2) schema_parser.parse_id [OF parsers(1)] unfolding validateTransport_def by (elim bindS_InrE) auto
  then show ?thesis unfolding transport_validate_def Let_def
    by (auto dest!: schema_parser.parse_id [OF parsers(2)] split: option.splits)
qed

definition envelope_request :: "auth_request \<Rightarrow> peripheral \<Rightarrow> trust_endpoint \<Rightarrow> session option \<Rightarrow> transport_envelope \<Rightarrow> transport_request" where
  "envelope_request q p e r env = \<lparr>tq_peripheral = p, tq_endpoint = e, tq_session = r, tq_envelope = env, tq_observed_at = aq_requested_at q\<rparr>"

lemma transport_accepts:
  assumes "trust_schemas_ok (td_schemas deps)" and "transport_of deps m q (Some p) (Some e) r s = (Inr t, u)" and "aq_requested_at q = Some now"
  shows "(\<forall>z. t = Some z \<longrightarrow> tz_accepted z) \<longleftrightarrow>
    (\<forall>env. aq_transport_envelope q = Some env \<longrightarrow> transport_block (envelope_request q p e r env) now = None)"
proof (cases "aq_transport_envelope q")
  case None
  then show ?thesis using assms(2) by (simp add: transport_of_def)
next
  case (Some env)
  then obtain z where "validateTransport deps m (envelope_request q p e r env) s = (Inr z, u)" "t = Some z"
    using assms(2) unfolding transport_of_def envelope_request_def by (auto elim!: bindS_InrE)
  from validate_accepts [OF assms(1) this(1)] this(2) Some assms(3) show ?thesis by (simp add: envelope_request_def)
qed

lemma auth_block_None:
  "auth_block f = None \<longleftrightarrow> (\<exists>p e g. af_peripheral f = Some p \<and> pe_trust_state p = TrTrusted \<and> af_endpoint f = Some e \<and>
     ep_trust_state e = TrTrusted \<and> ep_direction e = aq_capability_class (af_request f) \<and>
     (\<forall>el. ep_registry_eligibility e = Some el \<longrightarrow> registry_allows el) \<and> af_grant f = Some g \<and> grant_matches (af_request f) g \<and>
     (truthy (aq_session_id (af_request f)) \<longrightarrow> (\<exists>r. af_session f = Some r \<and> se_status r = SeActive)) \<and>
     (\<forall>t. af_transport f = Some t \<longrightarrow> tz_accepted t) \<and> (aq_risk (af_request f) = RiskHigh \<longrightarrow> af_confirmed f))"
  by (auto simp: auth_block_def Let_def split: option.splits if_splits)

lemma find_active: "findActiveGrant ts e k s = Some g \<Longrightarrow> cg_capability_key g = k \<and> cg_status g = GrActive"
  by (auto simp: findActiveGrant_def find_Some_iff)

text \<open>C22: An endpoint is authorized exactly when its device and the endpoint itself are trusted, the
  registry does not block it, its direction is the class asked for, the newest active grant for the
  capability carries the same policy, a session that is named is active, an envelope that is sent
  passes every transport check, and a high risk comes with a confirmation that operator control
  accepts.\<close>

theorem authorization_conditions:
  assumes "trust_schemas_ok (td_schemas deps)" and "endpoint_authorize deps m q s = (Inr z, s')"
  shows "az_allowed z \<longleftrightarrow> (\<exists>p e g. getPeripheral (td_schemas deps) (aq_peripheral_id q) s = Some p \<and> pe_trust_state p = TrTrusted \<and>
     getEndpoint (td_schemas deps) (aq_endpoint_id q) s = Some e \<and> ep_trust_state e = TrTrusted \<and>
     ep_direction e = aq_capability_class q \<and> (\<forall>el. ep_registry_eligibility e = Some el \<longrightarrow> registry_allows el) \<and>
     findActiveGrant (td_schemas deps) (aq_endpoint_id q) (aq_capability_key q) s = Some g \<and> cg_policy_ref g = aq_policy_ref q \<and>
     (truthy (aq_session_id q) \<longrightarrow> (\<exists>r. getSession (td_schemas deps) (the (aq_session_id q)) s = Some r \<and> se_status r = SeActive)) \<and>
     (\<forall>env. aq_transport_envelope q = Some env \<longrightarrow>
        transport_block (envelope_request (request_of m q) p e (session_of (td_schemas deps) q s) env) (getOr (aq_requested_at q) (tm_now m)) = None) \<and>
     (aq_risk q = RiskHigh \<longrightarrow> td_opctl deps \<and> (\<exists>proof command. aq_confirmation_proof q = Some proof \<and>
        aq_control_command_envelope q = Some command \<and> tm_confirm m proof command = Inr True)))"
proof -
  let ?ts = "td_schemas deps" and ?q = "request_of m q"
  have same: "aq_peripheral_id ?q = aq_peripheral_id q" "aq_endpoint_id ?q = aq_endpoint_id q" "aq_capability_key ?q = aq_capability_key q"
    "aq_capability_class ?q = aq_capability_class q" "aq_session_id ?q = aq_session_id q" "aq_policy_ref ?q = aq_policy_ref q"
    "aq_risk ?q = aq_risk q" "aq_transport_envelope ?q = aq_transport_envelope q"
    "aq_requested_at ?q = Some (getOr (aq_requested_at q) (tm_now m))" "session_of ?ts ?q s = session_of ?ts q s"
    "aq_confirmation_proof ?q = aq_confirmation_proof q" "aq_control_command_envelope ?q = aq_control_command_envelope q"
    by (simp_all add: request_of_def session_of_def)
  obtain t u confirmed where parts:
    "transport_of deps m ?q (getPeripheral ?ts (aq_peripheral_id q) s) (getEndpoint ?ts (aq_endpoint_id q) s) (session_of ?ts q s) s = (Inr t, u)"
    "validateConfirmation deps m ?q = Inr confirmed"
    "az_allowed z \<longleftrightarrow> auth_block \<lparr>af_request = ?q, af_peripheral = getPeripheral ?ts (aq_peripheral_id q) s,
       af_endpoint = getEndpoint ?ts (aq_endpoint_id q) s,
       af_grant = (case getEndpoint ?ts (aq_endpoint_id q) s of None \<Rightarrow> None | Some _ \<Rightarrow> findActiveGrant ?ts (aq_endpoint_id q) (aq_capability_key q) s),
       af_session = session_of ?ts q s, af_transport = t, af_confirmed = confirmed\<rparr> = None"
    "et_sessions s' = et_sessions u"
    by (rule authorize_parts [OF assms, unfolded same])
  have confirmed: "(aq_risk q = RiskHigh \<longrightarrow> confirmed) \<longleftrightarrow> (aq_risk q = RiskHigh \<longrightarrow> td_opctl deps \<and>
     (\<exists>proof command. aq_confirmation_proof q = Some proof \<and> aq_control_command_envelope q = Some command \<and> tm_confirm m proof command = Inr True))"
    using parts(2) unfolding validateConfirmation_def same by (auto split: option.splits if_splits)
  have transport: "(\<forall>z. t = Some z \<longrightarrow> tz_accepted z) \<longleftrightarrow>
    (\<forall>env. aq_transport_envelope q = Some env \<longrightarrow> transport_block (envelope_request ?q p e (session_of ?ts q s) env) (getOr (aq_requested_at q) (tm_now m)) = None)"
    if "getPeripheral ?ts (aq_peripheral_id q) s = Some p" "getEndpoint ?ts (aq_endpoint_id q) s = Some e" for p e
    using transport_accepts [OF assms(1) parts(1) [unfolded that] same(9)] by (simp add: same)
  have session: "session_of ?ts q s = getSession ?ts (the (aq_session_id q)) s" if "truthy (aq_session_id q)"
    using that by (simp add: session_of_def)
  show ?thesis
    unfolding parts(3) auth_block_None auth_facts.simps same confirmed [symmetric] grant_matches_def
    using transport session find_active by (auto split: option.splits)
qed


text \<open>C23: Once an incident of a device is reported, no request in its name is authorized until a
  review approves a pairing of it, whatever happens in between: other pairings, registrations,
  grants and sessions, also operations that fail half way.\<close>

theorem reported_device_blocked:
  assumes "trust_schemas_ok (td_schemas deps)" and "trust_reachable deps s" and "reportIncident deps m i s = (Inr c, s1)"
    and "trust_run deps (\<lambda>m c t. \<not> approves deps (ir_peripheral_id i) c t) s1 s2"
    and "endpoint_authorize deps m' q s2 = (Inr z, s3)" and "aq_peripheral_id q = ir_peripheral_id i"
  shows "\<not> az_allowed z"
proof -
  have inv: "trust_inv s" by (rule trust_reachable_inv [OF assms(2)])
  have inv1: "trust_inv s1" using perform_inv [OF inv, of deps m "CallIncident i"] assms(3) by simp
  have "untrusted (ir_peripheral_id i) s2"
    by (rule run_untrusted [OF assms(4,1) inv1 incident_untrusts [OF assms(1) inv assms(3)]])
  moreover have "schema_parser (ts_peripheral (td_schemas deps))" using assms(1) by (simp add: trust_schemas_ok_def)
  ultimately show ?thesis
    using authorization_conditions [OF assms(1,5)] getPeripheral_stored [of "td_schemas deps" "ir_peripheral_id i" s2] assms(6)
    by (auto simp: untrusted_def)
qed

section \<open>Envelopes are not replayed\<close>

definition session_spent :: "string \<Rightarrow> nat \<Rightarrow> trust_store \<Rightarrow> bool" where
  \<comment> \<open>the session takes no sequence number up to \<open>n\<close>\<close>
  "session_spent i n s \<longleftrightarrow> (\<forall>r. doc_get i (et_sessions s) = Some r \<and> se_status r = SeActive \<longrightarrow> n \<le> se_last_sequence r)"

definition stays_spent :: "string \<Rightarrow> nat \<Rightarrow> trust_store \<Rightarrow> trust_store \<Rightarrow> bool" where
  "stays_spent i n s t \<longleftrightarrow> (session_spent i n s \<longrightarrow> session_spent i n t)"

interpretation spent: store_relation "stays_spent i n" for i n
  by unfold_locales (auto simp: stays_spent_def)

lemma same_session_docs: "et_sessions t = et_sessions s \<Longrightarrow> stays_spent i n s t"
  by (simp add: stays_spent_def session_spent_def)

lemma spent_saves:
  "stays_spent i n s (snd (savePeripheral ts p s))" "stays_spent i n s (snd (savePairing ts r s))"
  "stays_spent i n s (snd (saveEndpoint ts e s))" "stays_spent i n s (snd (saveGrant ts g s))"
  "stays_spent i n s (snd (saveIncident ts c s))" "stays_spent i n s (snd (recordWitness deps m ref good s))"
  by (rule same_session_docs, simp add: savePeripheral_def savePairing_def saveEndpoint_def saveGrant_def saveIncident_def
      recordWitness_def bindS_def split: sum.split)+

lemma spent_saveSession:
  assumes "schema_parser (ts_session ts)" and "se_session_id r \<noteq> i \<or> se_status r \<noteq> SeActive \<or> n \<le> se_last_sequence r"
  shows "stays_spent i n s (snd (saveSession ts r s))"
  unfolding saveSession_def
proof (rule spent.lift)
  fix v
  assume "ts_session ts r = Inr v"
  then have "v = r" using schema_parser.parse_id [OF assms(1)] by metis
  with assms(2) show "stays_spent i n s (snd (Inr v, s\<lparr>et_sessions := doc_put (se_session_id v) v (et_sessions s)\<rparr>))"
    by (auto simp: stays_spent_def session_spent_def doc_get_def doc_put_def)
qed

lemma spent_option: "(z = None \<Longrightarrow> stays_spent i n s (snd (m s))) \<Longrightarrow> (\<And>x. z = Some x \<Longrightarrow> stays_spent i n s (snd (f x s))) \<Longrightarrow>
    stays_spent i n s (snd ((case z of None \<Rightarrow> m | Some x \<Rightarrow> f x) s))"
  by (cases z) simp_all

lemmas spent_rules = spent.bind spent.gets spent.lift spent.basic spent.choice spent_saves spent_option

lemma spent_others:
  "stays_spent i n s (snd (requestPairing deps m q1 s))" "stays_spent i n s (snd (reviewPairing deps m q2 s))"
  "stays_spent i n s (snd (registerEndpoint deps m q3 s))" "stays_spent i n s (snd (grantCapability deps m q4 s))"
  "stays_spent i n s (snd (revokeCapability deps m q5 s))"
  unfolding trust_op_defs Let_def split_beta by (intro spent_rules)+

lemma spent_rotate: "schema_parser (ts_session (td_schemas deps)) \<Longrightarrow> stays_spent i n s (snd (rotateSession deps m q s))"
  unfolding rotateSession_def store_rotate_def
  by (intro spent_rules spent_saveSession) (auto dest!: schema_parser.parse_id)

lemma spent_start:
  assumes "trust_schemas_ok (td_schemas deps)" and "getOr (st_session_id q) (tm_id m) \<noteq> i"
  shows "stays_spent i n s (snd (establishSession deps m q s))"
proof -
  have parsers: "schema_parser (ts_session (td_schemas deps))" "schema_parser (ts_session_start (td_schemas deps))"
    using assms(1) by (auto simp: trust_schemas_ok_def)
  show ?thesis
    unfolding establishSession_def requirePeripheral_def requireEndpoint_def store_start_def
    by (intro spent_rules spent_saveSession [OF parsers(1)])
      (use assms(2) in \<open>auto dest!: schema_parser.parse_id [OF parsers(1)] schema_parser.parse_id [OF parsers(2)]\<close>)
qed

lemma spent_incident:
  assumes "schema_parser (ts_session (td_schemas deps))"
  shows "stays_spent i n s (snd (reportIncident deps m c s))"
proof -
  have 1: "stays_spent i n s (snd (setTrustStateForPeripheral ts clock d st refs s))" for ts clock d st refs s
    unfolding setTrustStateForPeripheral_def by (intro spent.gets spent.settle) (auto simp: spent_saves)
  have 2: "stays_spent i n s (snd (revokeByPeripheral (td_schemas deps) clock d refs s))" for clock d refs s
    unfolding revokeByPeripheral_def by (intro spent.gets spent.settle) (auto intro!: spent_saveSession [OF assms] split: if_splits)
  show ?thesis
    unfolding reportIncident_def handle_incident_def incident_rest_def requirePeripheral_def Let_def by (intro spent_rules 1 2)
qed

lemma block_None:
  "transport_block q now = None \<Longrightarrow> \<exists>r. tq_session q = Some r \<and> se_status r = SeActive \<and> te_session_id (tq_envelope q) = se_session_id r \<and>
     se_last_sequence r < te_sequence (tq_envelope q)"
  by (auto simp: transport_block_def Let_def split: if_splits option.splits)

definition own_session :: "transport_request \<Rightarrow> trust_store \<Rightarrow> bool" where
  \<comment> \<open>the session of the request is the one that is stored\<close>
  "own_session q s \<longleftrightarrow> (\<forall>r. tq_session q = Some r \<longrightarrow> doc_get (se_session_id r) (et_sessions s) = Some r)"

lemma spent_validate:
  assumes "trust_schemas_ok (td_schemas deps)" and "own_session q s"
  shows "stays_spent i n s (snd (validateTransport deps m q s))"
  unfolding stays_spent_def
proof
  assume spent: "session_spent i n s"
  have parsers: "schema_parser (ts_session (td_schemas deps))" "schema_parser (ts_transport_request (td_schemas deps))"
    "schema_parser (ts_transport_result (td_schemas deps))" using assms(1) by (auto simp: trust_schemas_ok_def)
  have touch: "se_session_id r \<noteq> i \<or> n \<le> te_sequence (tq_envelope q)"
    if "tq_session q = Some r" "transport_validate (td_schemas deps) (tm_now m) q = Inr z" "tz_accepted z" for r z
  proof -
    have "transport_block q (getOr (tq_observed_at q) (tm_now m)) = None"
      using that(2,3) unfolding transport_validate_def Let_def
      by (auto dest!: schema_parser.parse_id [OF parsers(3)] split: option.splits)
    from block_None [OF this] that(1) assms(2) spent show ?thesis by (fastforce simp: own_session_def session_spent_def)
  qed
  have "stays_spent i n s (snd (validateTransport deps m q s))"
    unfolding validateTransport_def touchAcceptedEnvelope_def
    by (intro spent_rules spent_saveSession [OF parsers(1)])
      (auto dest!: schema_parser.parse_id [OF parsers(1)] schema_parser.parse_id [OF parsers(2)] dest: touch)
  with spent show "session_spent i n (snd (validateTransport deps m q s))" by (simp add: stays_spent_def)
qed

lemma getSession_stored: "schema_parser (ts_session ts) \<Longrightarrow> getSession ts i s = Some d \<Longrightarrow> doc_get i (et_sessions s) = Some d"
  by (auto simp: getSession_def bind_eq_Some_conv dest: parsed_doc_id)

lemma spent_transport:
  assumes "trust_schemas_ok (td_schemas deps)" and "\<And>x. r = Some x \<Longrightarrow> doc_get (se_session_id x) (et_sessions s) = Some x"
  shows "stays_spent i n s (snd (transport_of deps m q d e r s))"
proof -
  have "stays_spent i n s (snd (bindS (validateTransport deps m t) (\<lambda>z. returnS (Some z)) s))" if "tq_session t = r" for t
    by (intro spent_rules spent_validate [OF assms(1)]) (simp add: own_session_def that assms(2))
  then show ?thesis unfolding transport_of_def by (auto simp: spent.refl split: option.split)
qed

lemma spent_authorize:
  assumes "trust_schemas_ok (td_schemas deps)" and "trust_inv s"
  shows "stays_spent i n s (snd (endpoint_authorize deps m q s))"
proof -
  have parser: "schema_parser (ts_session (td_schemas deps))" using assms(1) by (simp add: trust_schemas_ok_def)
  have "stays_spent i n s (snd (transport_of deps m p d e (if b then getSession (td_schemas deps) k s else None) s))" for p d e b k
    by (rule spent_transport [OF assms(1)]) (use assms(2) getSession_stored [OF parser] in \<open>fastforce simp: trust_inv_def split: if_splits\<close>)
  then show ?thesis unfolding endpoint_authorize_def Let_def by (intro spent_rules)
qed

definition keeps_session :: "string \<Rightarrow> trust_moment \<Rightarrow> trust_call \<Rightarrow> trust_store \<Rightarrow> bool" where
  \<comment> \<open>the call does not start the session anew and validates no copy of a session that is out of date\<close>
  "keeps_session i m c s \<longleftrightarrow> (case c of CallStart q \<Rightarrow> getOr (st_session_id q) (tm_id m) \<noteq> i | CallValidate q \<Rightarrow> own_session q s | _ \<Rightarrow> True)"

lemma perform_spent:
  assumes "trust_schemas_ok (td_schemas deps)" and "trust_inv s" and "keeps_session i m c s"
  shows "stays_spent i n s (perform deps m c s)"
proof -
  have parser: "schema_parser (ts_session (td_schemas deps))" using assms(1) by (simp add: trust_schemas_ok_def)
  show ?thesis
    using spent_others spent_rotate [OF parser] spent_incident [OF parser] spent_authorize [OF assms(1,2)] spent_start [OF assms(1)]
      spent_validate [OF assms(1)] assms(3) by (cases c) (simp_all add: keeps_session_def)
qed

lemma run_spent:
  assumes "trust_run deps (keeps_session i) s t" and "trust_schemas_ok (td_schemas deps)" and "trust_inv s" and "session_spent i n s"
  shows "session_spent i n t"
  using assms
proof (induction rule: trust_run.induct)
  case (stay s)
  then show ?case by simp
next
  case (step s t m c)
  have "trust_inv t" using trust_run_inv [OF step.hyps(1) step.prems(2)] .
  from perform_spent [OF step.prems(1) this step.hyps(2)] step.IH [OF step.prems] show ?case by (simp add: stays_spent_def)
qed


lemma accepted_spends:
  assumes "trust_schemas_ok (td_schemas deps)" and "validateTransport deps m q s = (Inr z, t)" and "tz_accepted z"
  shows "session_spent (te_session_id (tq_envelope q)) (te_sequence (tq_envelope q)) t"
proof -
  have parsers: "schema_parser (ts_session (td_schemas deps))" "schema_parser (ts_transport_request (td_schemas deps))"
    using assms(1) by (auto simp: trust_schemas_ok_def)
  have "transport_block q (getOr (tq_observed_at q) (tm_now m)) = None" using validate_accepts [OF assms(1,2)] assms(3) by simp
  from block_None [OF this] obtain r where r: "tq_session q = Some r" "te_session_id (tq_envelope q) = se_session_id r" by blast
  obtain q' u where q': "ts_transport_request (td_schemas deps) q = Inr q'" "et_sessions t = et_sessions u"
    "(case tq_session q' of None \<Rightarrow> returnS () | Some r \<Rightarrow> if tz_accepted z
       then bindS (touchAcceptedEnvelope (td_schemas deps) r (tq_envelope q')) (\<lambda>_. returnS ()) else returnS ()) s = (Inr (), u)"
    using assms(2) unfolding validateTransport_def
    by (elim bindS_InrE) (auto simp: recordWitness_def bindS_def split: if_splits sum.splits)
  have "q' = q" using schema_parser.parse_id [OF parsers(2) q'(1)] .
  with q'(3) r(1) assms(3) have "bindS (touchAcceptedEnvelope (td_schemas deps) r (tq_envelope q)) (\<lambda>_. returnS ()) s = (Inr (), u)" by simp
  then obtain r' where touch: "touchAcceptedEnvelope (td_schemas deps) r (tq_envelope q) s = (Inr r', u)" by (elim bindS_InrE) simp
  note q'(2)
  moreover have "session_spent (se_session_id r) (te_sequence (tq_envelope q)) u"
    using touch unfolding touchAcceptedEnvelope_def saveSession_def
    by (auto elim!: bindS_InrE dest!: schema_parser.parse_id [OF parsers(1)] simp: session_spent_def doc_get_def doc_put_def)
  ultimately show ?thesis by (simp add: session_spent_def r(2))
qed

lemma authorized_spends:
  assumes "trust_schemas_ok (td_schemas deps)" and "endpoint_authorize deps m q s = (Inr z, s')" and "az_allowed z"
    and "aq_transport_envelope q = Some env"
  shows "session_spent (te_session_id env) (te_sequence env) s'"
proof -
  let ?ts = "td_schemas deps" and ?q = "request_of m q"
  have same: "aq_peripheral_id ?q = aq_peripheral_id q" "aq_endpoint_id ?q = aq_endpoint_id q" "aq_transport_envelope ?q = Some env"
    "session_of ?ts ?q s = session_of ?ts q s"
    using assms(4) by (simp_all add: request_of_def session_of_def)
  obtain p e where pe: "getPeripheral ?ts (aq_peripheral_id q) s = Some p" "getEndpoint ?ts (aq_endpoint_id q) s = Some e"
    "transport_block (envelope_request ?q p e (session_of ?ts q s) env) (getOr (aq_requested_at q) (tm_now m)) = None"
    using authorization_conditions [OF assms(1,2)] assms(3,4) by blast
  obtain t u confirmed where
    parts: "transport_of deps m ?q (getPeripheral ?ts (aq_peripheral_id q) s) (getEndpoint ?ts (aq_endpoint_id q) s) (session_of ?ts q s) s = (Inr t, u)"
    "et_sessions s' = et_sessions u" by (rule authorize_parts [OF assms(1,2), unfolded same])
  from parts(1) obtain x where x: "validateTransport deps m (envelope_request ?q p e (session_of ?ts q s) env) s = (Inr x, u)"
    unfolding transport_of_def pe same envelope_request_def by (auto elim!: bindS_InrE)
  from validate_accepts [OF assms(1) x] pe(3) have "tz_accepted x" by (simp add: envelope_request_def request_of_def)
  from accepted_spends [OF assms(1) x this] parts(2) show ?thesis by (simp add: session_spent_def envelope_request_def)
qed

text \<open>C24: An envelope is used once: after a request was authorized with an envelope of a session, no
  request is authorized with an envelope of that session whose sequence number is not greater, in
  whatever order other operations run, except those that establish the session again under the same
  identifier or validate an envelope against a copy of it that is out of date. Operations run to their
  end one after another here.\<close>

theorem envelope_not_replayed:
  assumes "trust_schemas_ok (td_schemas deps)" and "trust_reachable deps s"
    and "endpoint_authorize deps m q s = (Inr z, s1)" and "az_allowed z" and "aq_transport_envelope q = Some env"
    and "trust_run deps (keeps_session (te_session_id env)) s1 s2"
    and "endpoint_authorize deps m' q' s2 = (Inr z', s3)" and "aq_transport_envelope q' = Some env'"
    and "te_session_id env' = te_session_id env" and "te_sequence env' \<le> te_sequence env"
  shows "\<not> az_allowed z'"
proof
  assume "az_allowed z'"
  let ?i = "te_session_id env"
  have inv: "trust_inv s1" using perform_inv [OF trust_reachable_inv [OF assms(2)], of deps m "CallAuthorize q"] assms(3) by simp
  have spent: "session_spent ?i (te_sequence env) s2"
    by (rule run_spent [OF assms(6,1) inv authorized_spends [OF assms(1,3-5)]])
  have inv2: "trust_inv s2" by (rule trust_run_inv [OF assms(6) inv])
  obtain p e where "transport_block (envelope_request (request_of m' q') p e (session_of (td_schemas deps) q' s2) env') (getOr (aq_requested_at q') (tm_now m')) = None"
    using authorization_conditions [OF assms(1,7)] \<open>az_allowed z'\<close> assms(8) by blast
  from block_None [OF this] obtain r where r: "session_of (td_schemas deps) q' s2 = Some r" "se_status r = SeActive"
    "te_session_id env' = se_session_id r" "se_last_sequence r < te_sequence env'" by (auto simp: envelope_request_def)
  have "schema_parser (ts_session (td_schemas deps))" using assms(1) by (simp add: trust_schemas_ok_def)
  then have "doc_get (se_session_id r) (et_sessions s2) = Some r"
    using r(1) inv2 getSession_stored by (fastforce simp: session_of_def trust_inv_def split: if_splits)
  then have "te_sequence env \<le> se_last_sequence r" using spent r(2,3) assms(9) by (simp add: session_spent_def)
  with r(4) assms(10) show False by simp
qed

end
