(* ===== verification/Endpoint_Runs.thy ===== *)
theory Endpoint_Runs
  imports Endpoint_Properties
begin

text \<open>
  A device that is paired, approved, given an endpoint, a capability and a session, and then
  reported; the witnesses of the properties of \<open>Endpoint_Properties\<close>, and what the checks leave open:
  an endpoint is authorized in the name of any other trusted device, a review repeats at will, and a
  session established again accepts the envelopes of the first.
\<close>

section \<open>Open ends\<close>

text \<open>C40: The device named in a request need not be the one the endpoint belongs to: where a request is
  authorized, the same request in the name of any other trusted device is authorized too (without an
  envelope, the only part that names the device again).\<close>

theorem any_trusted_device_authorizes:
  assumes "trust_schemas_ok (td_schemas deps)" and "endpoint_authorize deps m q s = (Inr z, s1)" and "az_allowed z"
    and "aq_transport_envelope q = None" and "getPeripheral (td_schemas deps) other s = Some d" and "pe_trust_state d = TrTrusted"
    and "endpoint_authorize deps m (q\<lparr>aq_peripheral_id := other\<rparr>) s = (Inr z', s2)"
  shows "az_allowed z'"
  using authorization_conditions [OF assms(1,2)] authorization_conditions [OF assms(1,7)] assms(3-6) by auto

section \<open>A run\<close>

definition demo_schemas :: trust_schemas where
  "demo_schemas = \<lparr>ts_peripheral = Inr, ts_pairing = Inr, ts_endpoint = Inr, ts_grant = Inr, ts_session = Inr, ts_incident = Inr,
     ts_pairing_request = Inr, ts_pairing_review = Inr, ts_registration = Inr, ts_grant_input = Inr, ts_revocation = Inr,
     ts_session_start = Inr, ts_session_rotation = Inr, ts_transport_request = Inr, ts_transport_result = Inr,
     ts_auth_request = Inr, ts_auth_result = Inr, ts_incident_report = Inr\<rparr>"

definition demo_trust :: trust_deps where
  "demo_trust = \<lparr>td_schemas = demo_schemas, td_registry = False, td_opctl = False, td_escalation = False, td_witness = False\<rparr>"

definition at_id :: "string \<Rightarrow> trust_moment" where
  "at_id i = \<lparr>tm_now = ''1'', tm_endpointClock = (\<lambda>n. ''1''), tm_sessionClock = (\<lambda>n. ''1''), tm_id = i,
     tm_eligibility = (\<lambda>p q r. Inl ZodError), tm_confirm = (\<lambda>p e. Inr True), tm_notify = (\<lambda>n. Inr ''n''), tm_witness = (\<lambda>t. Inr ())\<rparr>"

definition pair :: "string \<Rightarrow> pairing_request" where
  "pair d = \<lparr>qr_pairing_id = None, qr_peripheral_id = d, qr_project_id = ''j'', qr_display_name = d, qr_principal_id = ''u'',
     qr_connector_package_id = None, qr_connector_release_id = None, qr_evidence_refs = [], qr_requested_at = None, qr_metadata = []\<rparr>"

definition approve :: "string \<Rightarrow> pairing_review" where
  "approve i = \<lparr>rv_pairing_id = i, rv_approved = True, rv_reviewed_by = ''u'', rv_approval_evidence_ref = None,
     rv_denial_reason_code = None, rv_evidence_refs = [], rv_reviewed_at = None\<rparr>"

definition light :: registration where
  "light = \<lparr>rg_endpoint_id = None, rg_peripheral_id = ''d'', rg_project_id = ''j'', rg_display_name = ''l'', rg_direction = Acting,
     rg_capability_keys = [''k''], rg_connector_package_id = None, rg_connector_release_id = None, rg_metadata = [],
     rg_registered_at = None, rg_evidence_refs = []\<rparr>"

definition switch_it :: grant_input where
  "switch_it = \<lparr>gi_grant_id = None, gi_endpoint_id = ''e'', gi_peripheral_id = ''d'', gi_project_id = ''j'', gi_capability_key = ''k'',
     gi_capability_class = Acting, gi_policy_ref = ''x'', gi_granted_by = ''u'', gi_reason_code = None, gi_evidence_refs = [],
     gi_granted_at = None\<rparr>"

definition begin_session :: session_start where
  "begin_session = \<lparr>st_session_id = Some ''s'', st_endpoint_id = ''e'', st_peripheral_id = ''d'', st_project_id = ''j'',
     st_established_by = ''u'', st_expires_at = None, st_established_at = None, st_evidence_refs = []\<rparr>"

definition third :: transport_envelope where
  "third = \<lparr>te_envelope_id = ''v'', te_endpoint_id = ''e'', te_peripheral_id = ''d'', te_project_id = ''j'', te_session_id = ''s'',
     te_nonce = ''n'', te_sequence = 3, te_issued_at = ''1'', te_expires_at = ''2'', te_payload_hash = ''h'', te_signature = ''g'',
     te_trace_id = None, te_metadata = []\<rparr>"

definition use_light :: "transport_envelope option \<Rightarrow> auth_request" where
  "use_light env = \<lparr>aq_request_id = None, aq_endpoint_id = ''e'', aq_peripheral_id = ''d'', aq_project_id = ''j'', aq_capability_key = ''k'',
     aq_capability_class = Acting, aq_risk = RiskStandard, aq_policy_ref = ''x'', aq_session_id = Some ''s'',
     aq_transport_envelope = env, aq_confirmation_proof = None, aq_control_command_envelope = None, aq_evidence_refs = [],
     aq_requested_at = None\<rparr>"

definition stolen :: incident_report where
  "stolen = \<lparr>ir_incident_id = None, ir_peripheral_id = ''d'', ir_endpoint_id = None, ir_project_id = ''j'',
     ir_incident_type = CompromisedDevice, ir_reported_by = ''u'', ir_severity = SevCritical, ir_reason_code = ''r'',
     ir_evidence_refs = [], ir_reported_at = None, ir_metadata = []\<rparr>"

definition ready_store :: trust_store where
  "ready_store = fold (\<lambda>(i, c). perform demo_trust (at_id i) c)
     [(''p'', CallPair (pair ''d'')), (''y'', CallReview (approve ''p'')), (''e'', CallRegister light), (''g'', CallGrant switch_it),
      (''s'', CallStart begin_session), (''o'', CallPair (pair ''b'')), (''y'', CallReview (approve ''o''))] empty_trust"

definition allowed_in :: "(trust_store, auth_result) op \<Rightarrow> trust_store \<Rightarrow> bool" where
  "allowed_in m s = (case fst (m s) of Inl e \<Rightarrow> False | Inr z \<Rightarrow> az_allowed z)"

lemma demo_trust_ok: "trust_schemas_ok (td_schemas demo_trust)"
  by (simp add: trust_schemas_ok_def demo_trust_def demo_schemas_def schema_parser_def)

lemma fold_run: "trust_run deps (\<lambda>m c t. True) s (fold (\<lambda>(i, c). perform deps (at_id i) c) cs s)"
  by (induction cs rule: rev_induct) (auto intro: trust_run.intros split: prod.split)

lemma ready_reachable: "trust_reachable demo_trust ready_store"
  unfolding trust_reachable_def ready_store_def by (rule fold_run)

lemma allowed_in_result: "allowed_in m s \<Longrightarrow> \<exists>z. m s = (Inr z, snd (m s)) \<and> az_allowed z"
  by (cases "m s") (auto simp: allowed_in_def split: sum.splits)

lemma first_use: "allowed_in (endpoint_authorize demo_trust (at_id ''q'') (use_light (Some third))) ready_store"
  by code_simp

definition used_store :: trust_store where
  "used_store = perform demo_trust (at_id ''q'') (CallAuthorize (use_light (Some third))) ready_store"

definition reported_store :: trust_store where
  "reported_store = perform demo_trust (at_id ''i'') (CallIncident stolen) ready_store"

text \<open>A session that is established again under its identifier forgets the envelopes it has seen.\<close>

lemma replay_after_restart:
  "allowed_in (endpoint_authorize demo_trust (at_id ''q'') (use_light (Some third)))
     (perform demo_trust (at_id ''t'') (CallStart begin_session) used_store)"
  by code_simp

text \<open>The review of a pairing can be repeated, also after the device was revoked.\<close>

lemma review_restores_trust:
  "(\<exists>d. getPeripheral demo_schemas ''d'' reported_store = Some d \<and> pe_trust_state d = TrRevoked) \<and>
   (\<exists>d. getPeripheral demo_schemas ''d'' (perform demo_trust (at_id ''y'') (CallReview (approve ''p'')) reported_store) = Some d \<and>
      pe_trust_state d = TrTrusted)"
proof -
  have "map_option pe_trust_state (getPeripheral demo_schemas ''d'' reported_store) = Some TrRevoked" by code_simp
  moreover have "map_option pe_trust_state (getPeripheral demo_schemas ''d''
      (perform demo_trust (at_id ''y'') (CallReview (approve ''p'')) reported_store)) = Some TrTrusted" by code_simp
  ultimately show ?thesis by auto
qed

text \<open>A device that asks for a new pairing is no longer trusted, but its endpoint still serves others.\<close>

lemma endpoint_outlives_trust:
  "allowed_in (endpoint_authorize demo_trust (at_id ''q'') ((use_light None)\<lparr>aq_peripheral_id := ''b''\<rparr>))
     (perform demo_trust (at_id ''w'') (CallPair (pair ''d'')) ready_store)"
  by code_simp

section \<open>Witnesses\<close>

lemma authorization_conditions_witness:
  "\<exists>z s'. endpoint_authorize demo_trust (at_id ''q'') (use_light None) reported_store = (Inr z, s') \<and> \<not> az_allowed z"
proof -
  have "(case fst (endpoint_authorize demo_trust (at_id ''q'') (use_light None) reported_store) of Inl e \<Rightarrow> False | Inr z \<Rightarrow> True)" by code_simp
  then obtain z s' where run: "endpoint_authorize demo_trust (at_id ''q'') (use_light None) reported_store = (Inr z, s')"
    by (cases "endpoint_authorize demo_trust (at_id ''q'') (use_light None) reported_store") (auto split: sum.splits)
  have "map_option pe_trust_state (getPeripheral (td_schemas demo_trust) ''d'' reported_store) = Some TrRevoked" by code_simp
  with authorization_conditions [OF demo_trust_ok run] have "\<not> az_allowed z" by (auto simp: use_light_def)
  with run show ?thesis by blast
qed

lemma reported_device_blocked_witness:
  "\<exists>z s'. endpoint_authorize demo_trust (at_id ''q'') (use_light None) (perform demo_trust (at_id ''w'') (CallPair (pair ''d'')) reported_store) = (Inr z, s') \<and>
    \<not> az_allowed z"
proof -
  have "case fst (reportIncident demo_trust (at_id ''i'') stolen ready_store) of Inl e \<Rightarrow> False | Inr z \<Rightarrow> True" by code_simp
  then obtain c where report: "reportIncident demo_trust (at_id ''i'') stolen ready_store = (Inr c, reported_store)"
    by (cases "reportIncident demo_trust (at_id ''i'') stolen ready_store") (auto simp: reported_store_def split: sum.splits)
  have "case fst (endpoint_authorize demo_trust (at_id ''q'') (use_light None) (perform demo_trust (at_id ''w'') (CallPair (pair ''d'')) reported_store)) of
      Inl e \<Rightarrow> False | Inr z \<Rightarrow> True" by code_simp
  then obtain z s' where run: "endpoint_authorize demo_trust (at_id ''q'') (use_light None)
      (perform demo_trust (at_id ''w'') (CallPair (pair ''d'')) reported_store) = (Inr z, s')"
    by (cases "endpoint_authorize demo_trust (at_id ''q'') (use_light None) (perform demo_trust (at_id ''w'') (CallPair (pair ''d'')) reported_store)")
      (auto split: sum.splits)
  have between: "trust_run demo_trust (\<lambda>m c t. \<not> approves demo_trust (ir_peripheral_id stolen) c t) reported_store
      (perform demo_trust (at_id ''w'') (CallPair (pair ''d'')) reported_store)"
    by (intro trust_run.intros) (simp add: approves_def)
  from reported_device_blocked [OF demo_trust_ok ready_reachable report between run] run show ?thesis
    by (auto simp: use_light_def stolen_def)
qed

lemma envelope_not_replayed_witness:
  "\<exists>z s'. endpoint_authorize demo_trust (at_id ''q'') (use_light (Some third)) used_store = (Inr z, s') \<and> \<not> az_allowed z"
proof -
  obtain z where first: "endpoint_authorize demo_trust (at_id ''q'') (use_light (Some third)) ready_store = (Inr z, used_store)" "az_allowed z"
    using allowed_in_result [OF first_use] by (auto simp: used_store_def)
  have "case fst (endpoint_authorize demo_trust (at_id ''q'') (use_light (Some third)) used_store) of Inl e \<Rightarrow> False | Inr z \<Rightarrow> True" by code_simp
  then obtain z' s' where again: "endpoint_authorize demo_trust (at_id ''q'') (use_light (Some third)) used_store = (Inr z', s')"
    by (cases "endpoint_authorize demo_trust (at_id ''q'') (use_light (Some third)) used_store") (auto split: sum.splits)
  have env: "aq_transport_envelope (use_light (Some third)) = Some third" by (simp add: use_light_def)
  from envelope_not_replayed [OF demo_trust_ok ready_reachable first env trust_run.stay again env refl order_refl] again show ?thesis by blast
qed

lemma any_trusted_device_authorizes_witness:
  "\<exists>z s'. endpoint_authorize demo_trust (at_id ''q'') ((use_light None)\<lparr>aq_peripheral_id := ''b''\<rparr>) ready_store = (Inr z, s') \<and> az_allowed z"
proof -
  have "allowed_in (endpoint_authorize demo_trust (at_id ''q'') (use_light None)) ready_store" by code_simp
  then obtain z s1 where own: "endpoint_authorize demo_trust (at_id ''q'') (use_light None) ready_store = (Inr z, s1)" "az_allowed z"
    using allowed_in_result by blast
  have "allowed_in (endpoint_authorize demo_trust (at_id ''q'') ((use_light None)\<lparr>aq_peripheral_id := ''b''\<rparr>)) ready_store" by code_simp
  then obtain z' s2 where other: "endpoint_authorize demo_trust (at_id ''q'') ((use_light None)\<lparr>aq_peripheral_id := ''b''\<rparr>) ready_store = (Inr z', s2)"
    using allowed_in_result by blast
  have "map_option pe_trust_state (getPeripheral (td_schemas demo_trust) ''b'' ready_store) = Some TrTrusted" by code_simp
  then obtain d where "getPeripheral (td_schemas demo_trust) ''b'' ready_store = Some d" "pe_trust_state d = TrTrusted" by auto
  from any_trusted_device_authorizes [OF demo_trust_ok own _ this other] other show ?thesis by (auto simp: use_light_def)
qed

end
