(* ===== verification/Cron.thy ===== *)
theory Cron
  imports Iso_Date Js_Text Doubles
begin

text \<open>
  Cron expressions (\<open>self/subcortex/scheduler/src/scheduler-service.ts\<close>): five fields, each a list of
  items that becomes a predicate on the field's numbers, and the search for the next minute in which
  all five hold, which gives up after 366 days. \<open>Number\<close> on a text is modelled with its decimal,
  hexadecimal, octal and binary forms, rounded to a double (\<open>Doubles\<close>); texts are Latin-1.
\<close>

section \<open>Numbers read from text\<close>

definition is_digit :: "char \<Rightarrow> bool" where
  "is_digit c \<longleftrightarrow> c \<in> set digit_chars"

definition digits :: "string \<Rightarrow> bool" where
  \<comment> \<open>\<open>\\d+\<close>\<close>
  "digits s \<longleftrightarrow> s \<noteq> [] \<and> list_all is_digit s"

definition exponent_part :: "string \<Rightarrow> int option" where
  "exponent_part s =
     (case s of
        [] \<Rightarrow> Some 0
      | c # r \<Rightarrow>
          (let sign = (case r of d # ds \<Rightarrow> if d = CHR ''-'' then -1 else 1 | [] \<Rightarrow> 1);
               ds = (case r of d # ds \<Rightarrow> if d = CHR ''-'' \<or> d = CHR ''+'' then ds else r | [] \<Rightarrow> r)
           in if (c = CHR ''e'' \<or> c = CHR ''E'') \<and> digits ds then Some (sign * int (read_nat ds)) else None))"

definition decimal_value :: "string \<Rightarrow> rat option" where
  "decimal_value s =
     (let a = takeWhile is_digit s; r = dropWhile is_digit s;
          point = (r \<noteq> [] \<and> hd r = CHR ''.'');
          b = (if point then takeWhile is_digit (tl r) else []);
          rest = (if point then dropWhile is_digit (tl r) else r)
      in if a @ b = [] then None
         else map_option (\<lambda>e. of_nat (read_nat (a @ b)) * 10 powi (e - int (length b))) (exponent_part rest))"

definition radix_value :: "nat \<Rightarrow> string \<Rightarrow> rat option" where
  "radix_value base ds =
     (let vs = map (\<lambda>c. index_of (to_lower c) ''0123456789abcdef'') ds in
      if ds = [] \<or> \<not> list_all (\<lambda>v. v < base) vs then None else Some (of_nat (foldl (\<lambda>n v. n * base + v) 0 vs)))"

definition text_value :: "string \<Rightarrow> rat option" where
  \<comment> \<open>the number of a text without whitespace, before rounding; \<open>None\<close> for \<open>NaN\<close> and the infinities\<close>
  "text_value s =
     (let p = map to_lower (take 2 s) in
      if s = [] then Some 0
      else if p = ''0x'' then radix_value 16 (drop 2 s)
      else if p = ''0o'' then radix_value 8 (drop 2 s)
      else if p = ''0b'' then radix_value 2 (drop 2 s)
      else if hd s = CHR ''-'' then map_option uminus (decimal_value (tl s))
      else if hd s = CHR ''+'' then decimal_value (tl s)
      else decimal_value s)"

definition whole_number :: "string \<Rightarrow> int option" where
  \<comment> \<open>\<open>Number(s)\<close> where \<open>Number.isInteger\<close> holds of it; from \<open>2^1024\<close> on it is infinite\<close>
  "whole_number s =
     (case text_value s of
        None \<Rightarrow> None
      | Some x \<Rightarrow> if rounded x = of_int \<lfloor>rounded x\<rfloor> \<and> bits \<bar>\<lfloor>rounded x\<rfloor>\<bar> \<le> 1024 then Some \<lfloor>rounded x\<rfloor> else None)"

section \<open>Fields\<close>

definition normalizeDayOfWeek :: "int \<Rightarrow> int" where
  "normalizeDayOfWeek v = (if v = 7 then 0 else v)"

fun mapR :: "('a \<Rightarrow> 'b result) \<Rightarrow> 'a list \<Rightarrow> 'b list result" where
  "mapR f [] = Inr []"
| "mapR f (x # xs) = bindR (f x) (\<lambda>y. bindR (mapR f xs) (\<lambda>ys. Inr (y # ys)))"

definition positive_stride :: "int option \<Rightarrow> bool" where
  "positive_stride n \<longleftrightarrow> (case n of Some k \<Rightarrow> 0 < k | None \<Rightarrow> False)"

definition cron_item :: "int \<Rightarrow> (int \<Rightarrow> int) \<Rightarrow> string \<Rightarrow> (int \<Rightarrow> bool) result" where
  "cron_item least normal segment =
     (let hyphen = split_at (CHR ''-'') segment;
          slash = (case hyphen of [a, r] \<Rightarrow> split_at (CHR ''/'') r | _ \<Rightarrow> [])
      in
      if segment = ''*'' then Inr (\<lambda>v. True)
      else if take 2 segment = ''*/'' \<and> digits (drop 2 segment) then
        (let stride = whole_number (drop 2 segment) in
         if \<not> positive_stride stride then Inl (JsError (''Invalid cron step: '' @ segment))
         else Inr (\<lambda>v. (normal v - least) mod the stride = 0))
      else if length hyphen = 2 \<and> length slash = 2 \<and> digits (hyphen ! 0) \<and> digits (slash ! 0) \<and> digits (slash ! 1) then
        (let start = whole_number (hyphen ! 0); stop = whole_number (slash ! 0); stride = whole_number (slash ! 1) in
         if start = None \<or> stop = None \<or> \<not> positive_stride stride then Inl (JsError (''Invalid cron range step: '' @ segment))
         else Inr (\<lambda>v. the start \<le> normal v \<and> normal v \<le> the stop \<and> (normal v - the start) mod the stride = 0))
      else if length hyphen = 2 \<and> digits (hyphen ! 0) \<and> digits (hyphen ! 1) then
        (let start = whole_number (hyphen ! 0); stop = whole_number (hyphen ! 1) in
         if start = None \<or> stop = None \<or> the start > the stop then Inl (JsError (''Invalid cron range: '' @ segment))
         else Inr (\<lambda>v. the start \<le> normal v \<and> normal v \<le> the stop))
      else
        (case whole_number segment of
           None \<Rightarrow> Inl (JsError (''Invalid cron field token: '' @ segment))
         | Some literal \<Rightarrow> Inr (\<lambda>v. normal v = normal literal)))"

definition parseCronMatcher :: "string \<Rightarrow> int \<Rightarrow> int \<Rightarrow> (int \<Rightarrow> int) \<Rightarrow> (int \<Rightarrow> bool) result" where
  "parseCronMatcher field least most normal =
     bindR (mapR (cron_item least normal) (split_at (CHR '','') field)) (\<lambda>matchers.
       Inr (\<lambda>v. least \<le> normal v \<and> normal v \<le> most \<and> list_ex (\<lambda>m. m (normal v)) matchers))"

section \<open>Expressions\<close>

record cron_fields =
  cf_minute :: "int \<Rightarrow> bool"
  cf_hour :: "int \<Rightarrow> bool"
  cf_dayOfMonth :: "int \<Rightarrow> bool"
  cf_month :: "int \<Rightarrow> bool"
  cf_dayOfWeek :: "int \<Rightarrow> bool"

definition is_space :: "char \<Rightarrow> bool" where
  "is_space c \<longleftrightarrow> (let n = (of_char c :: nat) in 9 \<le> n \<and> n \<le> 13 \<or> n = 32 \<or> n = 160)"

fun words_of :: "string \<Rightarrow> string list" where
  "words_of [] = [[]]"
| "words_of (c # s) =
     (if is_space c then [] # words_of s else (case words_of s of [] \<Rightarrow> [[c]] | w # ws \<Rightarrow> (c # w) # ws))"

definition cron_parts :: "string \<Rightarrow> string list" where
  \<comment> \<open>\<open>expression.trim().split(/\\s+/)\<close>\<close>
  "cron_parts s = (case filter (\<lambda>w. w \<noteq> []) (words_of s) of [] \<Rightarrow> [''''] | ws \<Rightarrow> ws)"

definition parseCronExpression :: "string \<Rightarrow> cron_fields result" where
  "parseCronExpression expression =
     (let parts = cron_parts expression in
      if length parts \<noteq> 5 then Inl (JsError (''Invalid cron expression: '' @ expression))
      else
        bindR (parseCronMatcher (parts ! 0) 0 59 (\<lambda>v. v)) (\<lambda>minute.
        bindR (parseCronMatcher (parts ! 1) 0 23 (\<lambda>v. v)) (\<lambda>hour.
        bindR (parseCronMatcher (parts ! 2) 1 31 (\<lambda>v. v)) (\<lambda>dayOfMonth.
        bindR (parseCronMatcher (parts ! 3) 1 12 (\<lambda>v. v)) (\<lambda>month.
        bindR (parseCronMatcher (parts ! 4) 0 6 normalizeDayOfWeek) (\<lambda>dayOfWeek.
          Inr \<lparr>cf_minute = minute, cf_hour = hour, cf_dayOfMonth = dayOfMonth, cf_month = month, cf_dayOfWeek = dayOfWeek\<rparr>))))))"

section \<open>The next occurrence\<close>

definition minute_ms :: int where
  "minute_ms = 60000"

definition cron_matches :: "cron_fields \<Rightarrow> int \<Rightarrow> bool" where
  "cron_matches cron t =
     (let (k, d) = month_from 0 (day_of t) in
      cf_minute cron (t div 60000 mod 60) \<and> cf_hour cron (t div 3600000 mod 24)
      \<and> cf_dayOfMonth cron (int d + 1) \<and> cf_month cron (int (k mod 12) + 1) \<and> cf_dayOfWeek cron (int (weekday (day_of t))))"

function cron_loop :: "cron_fields \<Rightarrow> int \<Rightarrow> int \<Rightarrow> int option" where
  "cron_loop cron index candidate =
     (if index < 366 * 24 * 60 then
        (if cron_matches cron candidate then Some candidate else cron_loop cron (index + 1) (candidate + minute_ms))
      else None)"
  by auto
termination by (relation "measure (\<lambda>(cron, index, candidate). nat (366 * 24 * 60 - index))") auto

declare cron_loop.simps [simp del]

definition parseTimestamp :: "string \<Rightarrow> int result" where
  "parseTimestamp timestamp =
     (case date_parse timestamp of None \<Rightarrow> Inl (JsError (''Invalid timestamp: '' @ timestamp)) | Some t \<Rightarrow> Inr t)"

definition computeNextCronOccurrence :: "string \<Rightarrow> string \<Rightarrow> string result" where
  "computeNextCronOccurrence expression fromIso =
     bindR (parseCronExpression expression) (\<lambda>cron.
     bindR (parseTimestamp fromIso) (\<lambda>t.
       (case cron_loop cron 0 (t div minute_ms * minute_ms + minute_ms) of
          None \<Rightarrow> Inl (JsError (''Unable to compute next cron occurrence: '' @ expression))
        | Some c \<Rightarrow> Inr (toISOString c))))"

end
