(* ===== verification/Ingress.thy ===== *)
theory Ingress
  imports Workflow_Engine Iso_Date Js_Text
begin

text \<open>
  How a trigger reaches a workflow (\<open>self/cortex/core/src/ingress\<close>, types in
  \<open>shared/src/types/ingress-trigger.ts\<close> and \<open>ingress-outcome.ts\<close>): the envelope and its checks
  (validator, authentication, authorization) and the in-memory idempotency store with its claims.
  Every submission is a task; between two of its steps, which are the stretches of code from one
  \<open>await\<close> to the next, other submissions run (\<open>Ingress_Dispatch\<close>). What the schema library decides of
  a text, the clock and the random identifiers are parameters.
\<close>

section \<open>Envelopes and outcomes\<close>

datatype delivery_mode = DeliverNone | DeliverAnnounce | DeliverCallback

record trigger_envelope =
  te_trigger_id :: string
  te_trigger_type :: trigger_type
  te_source_id :: string
  te_project_id :: string
  te_workflow_ref :: "string option"
  te_task_ref :: "string option"
  te_workmode_id :: string
  te_event_name :: string
  te_payload_ref :: string
  te_idempotency_key :: string
  te_nonce :: string
  te_occurred_at :: string
  te_received_at :: string
  te_auth_context_ref :: "string option"
  te_trace_parent :: "string option"
  te_requested_delivery_mode :: delivery_mode

record text_schemas =
  \<comment> \<open>what the schema library accepts as \<open>uuid()\<close>, as \<open>datetime()\<close> and by the pattern of a workmode\<close>
  sx_uuid :: "string \<Rightarrow> bool"
  sx_datetime :: "string \<Rightarrow> bool"
  sx_workmode :: "string \<Rightarrow> bool"

definition min_one :: "string option \<Rightarrow> bool" where
  \<comment> \<open>\<open>z.string().min(1)\<close> where the field is optional or nullable\<close>
  "min_one x \<longleftrightarrow> x \<noteq> Some []"

definition exactly_one :: "'a option \<Rightarrow> 'b option \<Rightarrow> bool" where
  "exactly_one x y \<longleftrightarrow> (x \<noteq> None \<or> y \<noteq> None) \<and> \<not> (x \<noteq> None \<and> y \<noteq> None)"

definition envelope_valid :: "text_schemas \<Rightarrow> trigger_envelope \<Rightarrow> bool" where
  \<comment> \<open>\<open>IngressTriggerEnvelopeSchema\<close>\<close>
  "envelope_valid sx e \<longleftrightarrow>
     sx_uuid sx (te_trigger_id e) \<and> te_source_id e \<noteq> [] \<and> sx_uuid sx (te_project_id e)
     \<and> min_one (te_workflow_ref e) \<and> min_one (te_task_ref e) \<and> sx_workmode sx (te_workmode_id e)
     \<and> te_event_name e \<noteq> [] \<and> te_payload_ref e \<noteq> [] \<and> te_idempotency_key e \<noteq> [] \<and> te_nonce e \<noteq> []
     \<and> sx_datetime sx (te_occurred_at e) \<and> sx_datetime sx (te_received_at e)
     \<and> min_one (te_auth_context_ref e) \<and> exactly_one (te_workflow_ref e) (te_task_ref e)"

datatype reject_reason =
    Unauthenticated | ScopeMismatch | EventForbidden | PolicyBlocked | ReplayDetected | RateLimited
  | InvalidEnvelope | ControlStateBlocked | WorkflowAdmissionBlocked

fun reject_reason_text :: "reject_reason \<Rightarrow> string" where
  "reject_reason_text Unauthenticated = ''unauthenticated''"
| "reject_reason_text ScopeMismatch = ''scope_mismatch''"
| "reject_reason_text EventForbidden = ''event_forbidden''"
| "reject_reason_text PolicyBlocked = ''policy_blocked''"
| "reject_reason_text ReplayDetected = ''replay_detected''"
| "reject_reason_text RateLimited = ''rate_limited''"
| "reject_reason_text InvalidEnvelope = ''invalid_envelope''"
| "reject_reason_text ControlStateBlocked = ''control_state_blocked''"
| "reject_reason_text WorkflowAdmissionBlocked = ''workflow_admission_blocked''"

datatype dispatch_outcome =
    AcceptedDispatched string string string string string \<comment> \<open>run, dispatch, workflow, policy, evidence\<close>
  | AcceptedAlready string string string \<comment> \<open>run, dispatch, evidence\<close>
  | TriggerRejected reject_reason "string option" string "string list" \<comment> \<open>reason, its code, evidence\<close>

section \<open>Validation, authentication and authorization\<close>

definition validateTrigger :: "text_schemas \<Rightarrow> trigger_envelope \<Rightarrow> reject_reason + trigger_envelope" where
  "validateTrigger sx e = (if envelope_valid sx e then Inr e else Inl InvalidEnvelope)"

definition verifyTrigger :: "trigger_envelope \<Rightarrow> reject_reason + string" where
  "verifyTrigger e =
     (case te_trigger_type e of
        TrigScheduler \<Rightarrow> Inr (''internal:'' @ te_source_id e @ '':'' @ te_trigger_id e)
      | TrigHook \<Rightarrow> Inr (''internal:'' @ te_source_id e @ '':'' @ te_trigger_id e)
      | TrigSystemEvent \<Rightarrow> Inr (''system:'' @ te_source_id e @ '':'' @ te_trigger_id e)
      | TrigWebhook \<Rightarrow>
          (case te_auth_context_ref e of
             Some r \<Rightarrow> if r \<noteq> [] then Inr r else Inl Unauthenticated
           | None \<Rightarrow> Inl Unauthenticated))"

record credential_scope =
  cr_project_id :: string
  cr_workflow_ref :: string
  cr_allowed_event_names :: "string list"
  cr_key_id :: string
  cr_expiry :: "string option"

record authz_options =
  az_credentialScopes :: "(string \<times> credential_scope) list option"
  az_allowExternalTrigger :: "(string \<Rightarrow> string \<Rightarrow> bool) option"

definition policy_allows :: "authz_options \<Rightarrow> trigger_envelope \<Rightarrow> bool" where
  "policy_allows az e =
     (case az_allowExternalTrigger az of
        None \<Rightarrow> True
      | Some allow \<Rightarrow> allow (te_project_id e) (getOr (orElse (te_workflow_ref e) (te_task_ref e)) ''''))"

definition key_of :: "string \<Rightarrow> string" where
  \<comment> \<open>\<open>auth_context_ref.split(':')[1] ?? auth_context_ref\<close>\<close>
  "key_of r = (case split_at (CHR '':'') r of a # k # rest \<Rightarrow> k | _ \<Rightarrow> r)"

definition evaluateTrigger :: "authz_options \<Rightarrow> trigger_envelope \<Rightarrow> string \<Rightarrow> reject_reason option" where
  \<comment> \<open>\<open>None\<close> where the trigger is allowed\<close>
  "evaluateTrigger az e auth_context_ref =
     (if te_trigger_type e \<noteq> TrigWebhook then (if policy_allows az e then None else Some PolicyBlocked)
      else
        (case az_credentialScopes az of
           None \<Rightarrow> Some PolicyBlocked
         | Some scopes \<Rightarrow>
             (case obj_get (key_of auth_context_ref) scopes of
                None \<Rightarrow> Some ScopeMismatch
              | Some scope \<Rightarrow>
                  if cr_project_id scope \<noteq> te_project_id e \<or> Some (cr_workflow_ref scope) \<noteq> te_workflow_ref e then Some ScopeMismatch
                  else if te_event_name e \<notin> set (cr_allowed_event_names scope) then Some EventForbidden
                  else if policy_allows az e then None else Some PolicyBlocked)))"

section \<open>The idempotency store\<close>

datatype claim_status = ClaimHeld | ClaimCommitted

record dedup_record =
  dr_status :: claim_status
  dr_reservation_id :: string
  dr_run_id :: string
  dr_recorded_at :: int
  dr_dispatch_ref :: "string option"
  dr_evidence_ref :: "string option"

record idem_options =
  io_ttlMs :: int
  io_replayWindowMs :: int
  io_pendingClaimWaitMs :: int

definition default_idem_options :: idem_options where
  "default_idem_options = \<lparr>io_ttlMs = 24 * 60 * 60 * 1000, io_replayWindowMs = 5 * 60 * 1000, io_pendingClaimWaitMs = 25\<rparr>"

record idem_store =
  is_dedup :: "(string \<times> dedup_record) list"
  is_reservations :: "(string \<times> string) list"
  is_nonces :: "(string \<times> (string \<times> int) list) list"

definition empty_idem :: idem_store where
  "empty_idem = \<lparr>is_dedup = [], is_reservations = [], is_nonces = []\<rparr>"

record claim =
  cl_reservation_id :: string
  cl_run_id :: string
  cl_recorded_at :: int

datatype claim_result = Claimed claim | ClaimDuplicate string string string | ClaimReplay

datatype claim_progress = ClaimAnswer claim_result | ClaimWait string dedup_record int \<comment> \<open>key, record, wait until\<close>

definition dedupKey :: "trigger_envelope \<Rightarrow> string" where
  "dedupKey e = te_source_id e @ '':'' @ te_idempotency_key e"

definition expired :: "idem_options \<Rightarrow> int \<Rightarrow> dedup_record \<Rightarrow> bool" where
  "expired opts now r \<longleftrightarrow> now - dr_recorded_at r > io_ttlMs opts"

definition pruneExpired :: "idem_options \<Rightarrow> int \<Rightarrow> idem_store \<Rightarrow> idem_store" where
  "pruneExpired opts now st =
     (let gone = filter (expired opts now) (obj_values (is_dedup st)) in
      st\<lparr>is_dedup := filter (\<lambda>(k, r). \<not> expired opts now r) (is_dedup st),
         is_reservations := fold obj_delete (map dr_reservation_id gone) (is_reservations st),
         is_nonces := filter (\<lambda>(k, l). l \<noteq> [])
           (map (\<lambda>(k, l). (k, filter (\<lambda>(n, seen). now - seen \<le> io_replayWindowMs opts) l)) (is_nonces st))\<rparr>)"

definition toDuplicateResult :: "dedup_record \<Rightarrow> claim_result" where
  "toDuplicateResult r = ClaimDuplicate (dr_run_id r) (getOr (dr_dispatch_ref r) (''dispatch:'' @ dr_run_id r))
     (getOr (dr_evidence_ref r) (''evidence:'' @ dr_run_id r))"

definition wait_or_answer :: "int \<Rightarrow> string \<Rightarrow> dedup_record \<Rightarrow> int \<Rightarrow> claim_progress" where
  \<comment> \<open>the condition of the loop of \<open>waitForCommittedDuplicate\<close>\<close>
  "wait_or_answer now key r waitUntil =
     (if dr_status r = ClaimHeld \<and> now < waitUntil then ClaimWait key r waitUntil else ClaimAnswer (toDuplicateResult r))"

definition wait_step :: "int \<Rightarrow> string \<Rightarrow> dedup_record \<Rightarrow> int \<Rightarrow> idem_store \<Rightarrow> claim_progress" where
  \<comment> \<open>its body after the sleep\<close>
  "wait_step now key r waitUntil st =
     (case obj_get key (is_dedup st) of
        None \<Rightarrow> ClaimAnswer (toDuplicateResult r)
      | Some latest \<Rightarrow>
          if dr_status latest = ClaimCommitted then ClaimAnswer (toDuplicateResult latest)
          else wait_or_answer now key latest waitUntil)"

definition claimTrigger ::
  "idem_options \<Rightarrow> int \<Rightarrow> string \<Rightarrow> string \<Rightarrow> trigger_envelope \<Rightarrow> idem_store \<Rightarrow> claim_progress \<times> idem_store" where
  \<comment> \<open>\<open>claim\<close>, with the two random identifiers\<close>
  "claimTrigger opts now reservationId runId e st0 =
     (let st = pruneExpired opts now st0; key = dedupKey e in
      case obj_get key (is_dedup st) of
        Some existing \<Rightarrow> (wait_or_answer now key existing (now + io_pendingClaimWaitMs opts), st)
      | None \<Rightarrow>
          (let nonceList = getOr (obj_get (te_source_id e) (is_nonces st)) [];
               late = (case date_parse (te_occurred_at e) of None \<Rightarrow> False | Some occurred \<Rightarrow> \<bar>now - occurred\<bar> > io_replayWindowMs opts) in
           if late \<or> te_nonce e \<in> set (map fst nonceList) then (ClaimAnswer ClaimReplay, st)
           else
             (ClaimAnswer (Claimed \<lparr>cl_reservation_id = reservationId, cl_run_id = runId, cl_recorded_at = now\<rparr>),
              st\<lparr>is_nonces := obj_set (te_source_id e) (nonceList @ [(te_nonce e, now)]) (is_nonces st),
                 is_dedup := obj_set key \<lparr>dr_status = ClaimHeld, dr_reservation_id = reservationId, dr_run_id = runId,
                   dr_recorded_at = now, dr_dispatch_ref = None, dr_evidence_ref = None\<rparr> (is_dedup st),
                 is_reservations := obj_set reservationId key (is_reservations st)\<rparr>)))"

definition commitDispatch :: "string \<Rightarrow> string \<Rightarrow> string \<Rightarrow> idem_store \<Rightarrow> idem_store" where
  "commitDispatch reservationId dispatchRef evidenceRef st =
     (case obj_get reservationId (is_reservations st) of
        None \<Rightarrow> st
      | Some key \<Rightarrow>
          if key = [] then st
          else
          (case obj_get key (is_dedup st) of
             None \<Rightarrow> st
           | Some existing \<Rightarrow>
               if dr_reservation_id existing \<noteq> reservationId then st
               else st\<lparr>is_dedup := obj_set key \<lparr>dr_status = ClaimCommitted, dr_reservation_id = reservationId,
                 dr_run_id = dr_run_id existing, dr_recorded_at = dr_recorded_at existing,
                 dr_dispatch_ref = Some dispatchRef, dr_evidence_ref = Some evidenceRef\<rparr> (is_dedup st)\<rparr>))"

definition releaseClaim :: "string \<Rightarrow> idem_store \<Rightarrow> idem_store" where
  "releaseClaim reservationId st =
     (case obj_get reservationId (is_reservations st) of
        None \<Rightarrow> st
      | Some key \<Rightarrow>
          if key = [] then st
          else
            st\<lparr>is_dedup :=
                (case obj_get key (is_dedup st) of
                   Some existing \<Rightarrow>
                     if dr_reservation_id existing = reservationId \<and> dr_status existing = ClaimHeld
                     then obj_delete key (is_dedup st) else is_dedup st
                 | None \<Rightarrow> is_dedup st),
               is_reservations := obj_delete reservationId (is_reservations st)\<rparr>)"

end
