(* ===== verification/Ingress_Dispatch.thy ===== *)
theory Ingress_Dispatch
  imports Ingress
begin

text \<open>
  \<open>IngressGateway.submit\<close> and \<open>IngressDispatchAdmission.admit\<close>
  (\<open>self/cortex/core/src/ingress/gateway.ts\<close>, \<open>dispatch-admission.ts\<close>). A submission is a task with a
  program counter; a step runs it from one \<open>await\<close> of another service to the next. The injected
  services (operator control, projects, tasks, documents, the workflow engine) answer through
  \<open>step_answers\<close>, with an exception as an error; what they were asked is recorded in order.
\<close>

section \<open>Tasks and requests\<close>

datatype task_trigger = TaskManual | TaskHeartbeat string string | TaskWebhook string string

record task_definition =
  td_id :: string
  td_name :: string
  td_description :: string
  td_trigger :: task_trigger
  td_orchestratorInstructions :: string
  td_context :: "(string \<times> json) list option"
  td_enabled :: bool
  td_createdAt :: string
  td_updatedAt :: string

datatype execution_trigger = ExecManual | ExecHeartbeat | ExecWebhook

fun execution_trigger_text :: "execution_trigger \<Rightarrow> string" where
  "execution_trigger_text ExecManual = ''manual''"
| "execution_trigger_text ExecHeartbeat = ''heartbeat''"
| "execution_trigger_text ExecWebhook = ''webhook''"

datatype execution_status = ExecRunning | ExecCompleted | ExecFailed

record execution_record =
  ex_id :: string
  ex_taskDefinitionId :: string
  ex_projectId :: string
  ex_triggeredAt :: string
  ex_triggerType :: execution_trigger
  ex_status :: execution_status

record task_submission =
  ts_task :: string
  ts_projectId :: string
  ts_detail :: "(string \<times> json) list"

datatype dispatch_request =
    PutExecution execution_record
  | SubmitTask task_submission
  | StartWorkflow start_request

record dispatch_deps =
  dp_schemas :: text_schemas
  dp_authz :: authz_options
  dp_idem :: idem_options
  dp_opctl :: bool
  dp_taskStore :: bool
  dp_documentStore :: bool
  dp_submitTaskToSystem :: bool
  dp_sourceActor :: "authority_actor option"
  dp_errorText :: "js_error \<Rightarrow> string"

record step_answers =
  \<comment> \<open>the clock, two random identifiers and what the awaited service answers\<close>
  sa_now :: int
  sa_uuid :: string
  sa_runId :: string
  sa_control :: "control_state result"
  sa_project :: "project_config option result"
  sa_task :: "task_definition option result"
  sa_put :: "unit result"
  sa_receipt :: "string result"
  sa_start :: "start_result result"

datatype dispatch_pc =
    Arrived
  | AwaitClaim string dedup_record int \<comment> \<open>sleeping in \<open>waitForCommittedDuplicate\<close>\<close>
  | AwaitControl claim
  | AwaitProject claim control_state
  | AwaitTask claim string \<comment> \<open>the task reference\<close>
  | AwaitPut claim string task_definition execution_record
  | AwaitReceipt claim string
  | AwaitStart claim
  | Finished dispatch_outcome
  | Thrown js_error

record trigger_task =
  tt_envelope :: trigger_envelope
  tt_claim :: "claim option" \<comment> \<open>the claim the submission holds or has held\<close>
  tt_pc :: dispatch_pc

record ingress =
  ig_store :: idem_store
  ig_requests :: "dispatch_request list"
  ig_tasks :: "trigger_task list"

definition idle_ingress :: ingress where
  "idle_ingress = \<lparr>ig_store = empty_idem, ig_requests = [], ig_tasks = []\<rparr>"

section \<open>Answers and requests of a submission\<close>

definition jump :: "nat \<Rightarrow> dispatch_pc \<Rightarrow> ingress \<Rightarrow> ingress" where
  "jump i pc st = st\<lparr>ig_tasks := (ig_tasks st)[i := (ig_tasks st ! i)\<lparr>tt_pc := pc\<rparr>]\<rparr>"

definition request :: "dispatch_request \<Rightarrow> ingress \<Rightarrow> ingress" where
  "request r st = st\<lparr>ig_requests := ig_requests st @ [r]\<rparr>"

definition with_store :: "(idem_store \<Rightarrow> idem_store) \<Rightarrow> ingress \<Rightarrow> ingress" where
  "with_store f st = st\<lparr>ig_store := f (ig_store st)\<rparr>"

definition refusal_outcome :: "trigger_envelope \<Rightarrow> reject_reason \<Rightarrow> string option \<Rightarrow> string list \<Rightarrow> dispatch_outcome" where
  "refusal_outcome e reason code refs = TriggerRejected reason code (''ingress:'' @ te_trigger_id e) refs"

definition rejectAndRelease ::
  "nat \<Rightarrow> trigger_envelope \<Rightarrow> claim \<Rightarrow> reject_reason \<Rightarrow> string \<Rightarrow> string list \<Rightarrow> ingress \<Rightarrow> ingress" where
  "rejectAndRelease i e c reason reasonCode evidenceRefs st =
     jump i (Finished (refusal_outcome e reason (Some reasonCode) evidenceRefs))
       (with_store (releaseClaim (cl_reservation_id c)) st)"

definition dispatchRef :: "claim \<Rightarrow> string" where
  "dispatchRef c = ''dispatch:'' @ cl_run_id c"

definition evidenceRef :: "trigger_envelope \<Rightarrow> claim \<Rightarrow> string" where
  "evidenceRef e c = ''evidence:'' @ te_trigger_id e @ '':'' @ cl_run_id c"

definition buildTriggerContext :: "trigger_envelope \<Rightarrow> string \<Rightarrow> string \<Rightarrow> trigger_context" where
  "buildTriggerContext e dref eref =
     \<lparr>tc_triggerId = te_trigger_id e, tc_triggerType = te_trigger_type e, tc_sourceId = te_source_id e,
      tc_workflowRef = getOr (orElse (te_workflow_ref e) (te_task_ref e)) '''',
      tc_workmodeId = te_workmode_id e, tc_idempotencyKey = te_idempotency_key e, tc_dispatchRef = dref,
      tc_evidenceRef = eref, tc_occurredAt = te_occurred_at e\<rparr>"

definition workflow_start :: "dispatch_deps \<Rightarrow> trigger_envelope \<Rightarrow> claim \<Rightarrow> control_state \<Rightarrow> project_config \<Rightarrow> start_request" where
  "workflow_start deps e c controlState projectConfig =
     \<lparr>sr_projectConfig = projectConfig, sr_workflowDefinitionId = te_workflow_ref e, sr_runId = Some (cl_run_id c),
      sr_workmodeId = te_workmode_id e, sr_sourceActor = getOr (dp_sourceActor deps) OrchestrationAgent, sr_targetActor = None,
      sr_controlState = Some controlState,
      sr_triggerContext = Some (buildTriggerContext e (dispatchRef c) (evidenceRef e c)),
      sr_admissionEvidenceRefs = Some [evidenceRef e c], sr_startedAt = Some (te_occurred_at e)\<rparr>"

definition execution_of :: "trigger_envelope \<Rightarrow> task_definition \<Rightarrow> string \<Rightarrow> int \<Rightarrow> execution_record" where
  "execution_of e t executionId now =
     \<lparr>ex_id = executionId, ex_taskDefinitionId = td_id t, ex_projectId = te_project_id e, ex_triggeredAt = toISOString now,
      ex_triggerType = (if te_trigger_type e = TrigScheduler then ExecHeartbeat else ExecWebhook), ex_status = ExecRunning\<rparr>"

definition submission_of :: "trigger_envelope \<Rightarrow> task_definition \<Rightarrow> execution_record \<Rightarrow> task_submission" where
  "submission_of e t x =
     \<lparr>ts_task = td_orchestratorInstructions t, ts_projectId = te_project_id e,
      ts_detail = from_entries [(''taskDefinitionId'', JStr (td_id t)), (''taskName'', JStr (td_name t)),
        (''triggerType'', JStr (execution_trigger_text (ex_triggerType x))), (''executionId'', JStr (ex_id x))]
        (getOr (td_context t) [])\<rparr>"

section \<open>Steps\<close>

definition front_checks :: "dispatch_deps \<Rightarrow> trigger_envelope \<Rightarrow> dispatch_outcome + trigger_envelope" where
  \<comment> \<open>\<open>submit\<close> up to the claim\<close>
  "front_checks deps payload =
     (case validateTrigger (dp_schemas deps) payload of
        Inl reason \<Rightarrow> Inl (refusal_outcome payload reason None [''ingress validation failed''])
      | Inr e \<Rightarrow>
          (case verifyTrigger e of
             Inl reason \<Rightarrow> Inl (refusal_outcome e reason None [''authn failed for trigger '' @ te_trigger_id e])
           | Inr context_ref \<Rightarrow>
               (case evaluateTrigger (dp_authz deps) e context_ref of
                  Some reason \<Rightarrow> Inl (refusal_outcome e reason None [''authz blocked: '' @ reject_reason_text reason])
                | None \<Rightarrow> Inr e)))"

definition claim_answered :: "dispatch_deps \<Rightarrow> nat \<Rightarrow> trigger_envelope \<Rightarrow> claim_progress \<Rightarrow> ingress \<Rightarrow> ingress" where
  \<comment> \<open>the beginning of \<open>admit\<close>, when the claim has been answered\<close>
  "claim_answered deps i e progress st =
     (case progress of
        ClaimWait key r waitUntil \<Rightarrow> jump i (AwaitClaim key r waitUntil) st
      | ClaimAnswer (ClaimDuplicate runId dref eref) \<Rightarrow> jump i (Finished (AcceptedAlready runId dref eref)) st
      | ClaimAnswer ClaimReplay \<Rightarrow>
          jump i (Finished (refusal_outcome e ReplayDetected None [''replay:'' @ te_source_id e @ '':'' @ te_nonce e])) st
      | ClaimAnswer (Claimed c) \<Rightarrow>
          (let st = st\<lparr>ig_tasks := (ig_tasks st)[i := (ig_tasks st ! i)\<lparr>tt_claim := Some c\<rparr>]\<rparr> in
           if dp_opctl deps then jump i (AwaitControl c) st
           else rejectAndRelease i e c ControlStateBlocked ''opctl_unavailable''
             [''opctl unavailable; cannot verify control state''] st))"

definition control_read :: "dispatch_deps \<Rightarrow> nat \<Rightarrow> trigger_envelope \<Rightarrow> claim \<Rightarrow> control_state result \<Rightarrow> ingress \<Rightarrow> ingress" where
  "control_read deps i e c answer st =
     (case answer of
        Inl err \<Rightarrow> jump i (Thrown err) st
      | Inr controlState \<Rightarrow>
          if controlState = CtlHardStopped \<or> controlState = CtlPausedReview then
            rejectAndRelease i e c ControlStateBlocked (''project_control_state_'' @ control_state_text controlState)
              [''control_state='' @ control_state_text controlState @ '' blocks dispatch''] st
          else jump i (AwaitProject c controlState) st)"

definition project_read ::
  "dispatch_deps \<Rightarrow> nat \<Rightarrow> trigger_envelope \<Rightarrow> claim \<Rightarrow> control_state \<Rightarrow> project_config option result \<Rightarrow> ingress \<Rightarrow> ingress" where
  "project_read deps i e c controlState answer st =
     (case answer of
        Inl err \<Rightarrow> jump i (Thrown err) st
      | Inr None \<Rightarrow> rejectAndRelease i e c WorkflowAdmissionBlocked ''project_not_found''
          [''project_id='' @ te_project_id e @ '' not found''] st
      | Inr (Some projectConfig) \<Rightarrow>
          if truthy (te_task_ref e) then
            (let task_ref = getOr (te_task_ref e) '''' in
             if \<not> dp_submitTaskToSystem deps \<or> \<not> dp_documentStore deps then
               rejectAndRelease i e c WorkflowAdmissionBlocked ''task_dispatch_unavailable''
                 [''submitTaskToSystem or documentStore not configured for task dispatch''] st
             else if dp_taskStore deps then jump i (AwaitTask c task_ref) st
             else rejectAndRelease i e c WorkflowAdmissionBlocked ''task_definition_not_found''
               [''task_ref='' @ task_ref @ '' not found in project '' @ te_project_id e] st)
          else jump i (AwaitStart c) (request (StartWorkflow (workflow_start deps e c controlState projectConfig)) st))"

definition task_read ::
  "dispatch_deps \<Rightarrow> step_answers \<Rightarrow> nat \<Rightarrow> trigger_envelope \<Rightarrow> claim \<Rightarrow> string \<Rightarrow> task_definition option result \<Rightarrow> ingress \<Rightarrow> ingress" where
  "task_read deps inp i e c task_ref answer st =
     (case answer of
        Inl err \<Rightarrow> jump i (Thrown err) st
      | Inr None \<Rightarrow> rejectAndRelease i e c WorkflowAdmissionBlocked ''task_definition_not_found''
          [''task_ref='' @ task_ref @ '' not found in project '' @ te_project_id e] st
      | Inr (Some t) \<Rightarrow>
          (let x = execution_of e t (sa_uuid inp) (sa_now inp) in jump i (AwaitPut c task_ref t x) (request (PutExecution x) st)))"

definition execution_put ::
  "dispatch_deps \<Rightarrow> nat \<Rightarrow> trigger_envelope \<Rightarrow> claim \<Rightarrow> string \<Rightarrow> task_definition \<Rightarrow> execution_record \<Rightarrow> unit result \<Rightarrow> ingress \<Rightarrow> ingress" where
  "execution_put deps i e c task_ref t x answer st =
     (case answer of
        Inl err \<Rightarrow> rejectAndRelease i e c WorkflowAdmissionBlocked ''task_dispatch_failed'' [dp_errorText deps err] st
      | Inr u \<Rightarrow> jump i (AwaitReceipt c task_ref) (request (SubmitTask (submission_of e t x)) st))"

definition task_submitted ::
  "dispatch_deps \<Rightarrow> nat \<Rightarrow> trigger_envelope \<Rightarrow> claim \<Rightarrow> string \<Rightarrow> string result \<Rightarrow> ingress \<Rightarrow> ingress" where
  "task_submitted deps i e c task_ref answer st =
     (case answer of
        Inl err \<Rightarrow> rejectAndRelease i e c WorkflowAdmissionBlocked ''task_dispatch_failed'' [dp_errorText deps err] st
      | Inr receipt_run \<Rightarrow>
          jump i (Finished (AcceptedDispatched receipt_run (dispatchRef c) task_ref (''policy:task:'' @ task_ref) (evidenceRef e c)))
            (with_store (commitDispatch (cl_reservation_id c) (dispatchRef c) (evidenceRef e c)) st))"

definition workflow_started ::
  "dispatch_deps \<Rightarrow> nat \<Rightarrow> trigger_envelope \<Rightarrow> claim \<Rightarrow> start_result result \<Rightarrow> ingress \<Rightarrow> ingress" where
  "workflow_started deps i e c answer st =
     (case answer of
        Inl err \<Rightarrow> rejectAndRelease i e c WorkflowAdmissionBlocked ''workflow_start_failed'' [dp_errorText deps err] st
      | Inr (AdmissionBlocked a) \<Rightarrow>
          rejectAndRelease i e c WorkflowAdmissionBlocked (ad_reasonCode a) (ad_evidenceRefs a) st
      | Inr (Started graph runState) \<Rightarrow>
          jump i (Finished (AcceptedDispatched (cl_run_id c) (dispatchRef c) (getOr (te_workflow_ref e) '''')
              (getOr (ad_policyRef (rs_admission runState)) (''policy:'' @ getOr (te_workflow_ref e) ''undefined'')) (evidenceRef e c)))
            (with_store (commitDispatch (cl_reservation_id c) (dispatchRef c) (evidenceRef e c)) st))"

definition run_trigger :: "dispatch_deps \<Rightarrow> step_answers \<Rightarrow> nat \<Rightarrow> ingress \<Rightarrow> ingress" where
  "run_trigger deps inp i st =
     (let e = tt_envelope (ig_tasks st ! i) in
      case tt_pc (ig_tasks st ! i) of
        Arrived \<Rightarrow>
          (case front_checks deps e of
             Inl outcome \<Rightarrow> jump i (Finished outcome) st
           | Inr e' \<Rightarrow>
               (let (progress, store) = claimTrigger (dp_idem deps) (sa_now inp) (sa_uuid inp) (sa_runId inp) e' (ig_store st)
                in claim_answered deps i e progress (st\<lparr>ig_store := store\<rparr>)))
      | AwaitClaim key r waitUntil \<Rightarrow> claim_answered deps i e (wait_step (sa_now inp) key r waitUntil (ig_store st)) st
      | AwaitControl c \<Rightarrow> control_read deps i e c (sa_control inp) st
      | AwaitProject c controlState \<Rightarrow> project_read deps i e c controlState (sa_project inp) st
      | AwaitTask c task_ref \<Rightarrow> task_read deps inp i e c task_ref (sa_task inp) st
      | AwaitPut c task_ref t x \<Rightarrow> execution_put deps i e c task_ref t x (sa_put inp) st
      | AwaitReceipt c task_ref \<Rightarrow> task_submitted deps i e c task_ref (sa_receipt inp) st
      | AwaitStart c \<Rightarrow> workflow_started deps i e c (sa_start inp) st
      | Finished outcome \<Rightarrow> st
      | Thrown err \<Rightarrow> st)"

fun in_progress :: "dispatch_pc \<Rightarrow> bool" where
  "in_progress (Finished outcome) = False"
| "in_progress (Thrown err) = False"
| "in_progress _ = True"

definition submit_trigger :: "trigger_envelope \<Rightarrow> ingress \<Rightarrow> ingress" where
  "submit_trigger e st = st\<lparr>ig_tasks := ig_tasks st @ [\<lparr>tt_envelope = e, tt_claim = None, tt_pc = Arrived\<rparr>]\<rparr>"

text \<open>
  Submissions interleave in any way. The clock does not run backwards, and a random identifier is
  none that is in use as a reservation.
\<close>

definition reservations_used :: "ingress \<Rightarrow> string set" where
  "reservations_used st = {cl_reservation_id c | c t. t \<in> set (ig_tasks st) \<and> tt_claim t = Some c}"

inductive ingress_reachable :: "dispatch_deps \<Rightarrow> int \<Rightarrow> ingress \<Rightarrow> bool" for deps :: dispatch_deps where
  idle: "ingress_reachable deps t idle_ingress"
| submitted: "ingress_reachable deps t st \<Longrightarrow> ingress_reachable deps t (submit_trigger e st)"
| ran: "ingress_reachable deps t st \<Longrightarrow> i < length (ig_tasks st) \<Longrightarrow> in_progress (tt_pc (ig_tasks st ! i)) \<Longrightarrow>
    t \<le> sa_now inp \<Longrightarrow> sa_uuid inp \<notin> reservations_used st \<Longrightarrow> ingress_reachable deps (sa_now inp) (run_trigger deps inp i st)"

end
