(* ===== verification/Scheduler.thy ===== *)
theory Scheduler
  imports Cron Ingress_Dispatch Document_Store
begin

text \<open>
  The scheduler (\<open>self/subcortex/scheduler/src\<close>, types in \<open>shared/src/types/scheduler.ts\<close>): schedules
  in a document collection, the envelopes it submits, and the service that registers, advances and
  dispatches them. The project and task stores, the ingress gateway with a state of its own, the
  digest, the clock and the random identifiers are parameters (\<open>sched_deps\<close>).
\<close>

section \<open>Schedules\<close>

datatype schedule_trigger =
    CronTrigger string "string option" \<comment> \<open>expression, time zone\<close>
  | CalendarTrigger string
  | HookTrigger string "string option"
  | SystemTrigger string

record schedule =
  sd_id :: string
  sd_projectId :: string
  sd_workflowDefinitionId :: "string option"
  sd_taskDefinitionId :: "string option"
  sd_workmodeId :: string
  sd_trigger :: schedule_trigger
  sd_enabled :: bool
  sd_requestedDeliveryMode :: delivery_mode
  sd_payloadTemplateRef :: "string option"
  sd_nextDueAt :: "string option" \<comment> \<open>null and undefined are both \<open>None\<close>\<close>
  sd_lastDispatchedAt :: "string option"
  sd_createdAt :: string
  sd_updatedAt :: string

record upsert_input =
  su_id :: "string option"
  su_projectId :: string
  su_workflowDefinitionId :: "string option"
  su_taskDefinitionId :: "string option"
  su_workmodeId :: "string option"
  su_trigger :: schedule_trigger
  su_enabled :: "bool option"
  su_requestedDeliveryMode :: "delivery_mode option"
  su_payloadTemplateRef :: "string option"

definition all_opt :: "('a \<Rightarrow> bool) \<Rightarrow> 'a option \<Rightarrow> bool" where
  "all_opt P x \<longleftrightarrow> (case x of None \<Rightarrow> True | Some y \<Rightarrow> P y)"

fun trigger_valid :: "text_schemas \<Rightarrow> schedule_trigger \<Rightarrow> bool" where
  "trigger_valid sx (CronTrigger c zone) \<longleftrightarrow> c \<noteq> [] \<and> min_one zone"
| "trigger_valid sx (CalendarTrigger at_time) \<longleftrightarrow> sx_datetime sx at_time"
| "trigger_valid sx (HookTrigger event source) \<longleftrightarrow> event \<noteq> [] \<and> min_one source"
| "trigger_valid sx (SystemTrigger event) \<longleftrightarrow> event \<noteq> []"

definition schedule_valid :: "text_schemas \<Rightarrow> schedule \<Rightarrow> bool" where
  \<comment> \<open>\<open>ScheduleDefinitionSchema\<close>\<close>
  "schedule_valid sx s \<longleftrightarrow>
     sx_uuid sx (sd_id s) \<and> sx_uuid sx (sd_projectId s) \<and> all_opt (sx_uuid sx) (sd_workflowDefinitionId s)
     \<and> all_opt (sx_uuid sx) (sd_taskDefinitionId s) \<and> sx_workmode sx (sd_workmodeId s) \<and> trigger_valid sx (sd_trigger s)
     \<and> min_one (sd_payloadTemplateRef s) \<and> all_opt (sx_datetime sx) (sd_nextDueAt s)
     \<and> all_opt (sx_datetime sx) (sd_lastDispatchedAt s) \<and> sx_datetime sx (sd_createdAt s) \<and> sx_datetime sx (sd_updatedAt s)
     \<and> exactly_one (sd_workflowDefinitionId s) (sd_taskDefinitionId s)"

definition upsert_valid :: "text_schemas \<Rightarrow> upsert_input \<Rightarrow> bool" where
  \<comment> \<open>\<open>ScheduleUpsertInputSchema\<close>\<close>
  "upsert_valid sx u \<longleftrightarrow>
     all_opt (sx_uuid sx) (su_id u) \<and> sx_uuid sx (su_projectId u) \<and> all_opt (sx_uuid sx) (su_workflowDefinitionId u)
     \<and> all_opt (sx_uuid sx) (su_taskDefinitionId u) \<and> all_opt (sx_workmode sx) (su_workmodeId u) \<and> trigger_valid sx (su_trigger u)
     \<and> min_one (su_payloadTemplateRef u)"

definition parse_schedule :: "text_schemas \<Rightarrow> schedule \<Rightarrow> schedule result" where
  "parse_schedule sx s = (if schedule_valid sx s then Inr s else Inl ZodError)"

section \<open>The collection of schedules\<close>

type_synonym schedules = "(string \<times> schedule) list"

definition save_schedule :: "text_schemas \<Rightarrow> schedule \<Rightarrow> schedules \<Rightarrow> schedule result \<times> schedules" where
  "save_schedule sx s c = (if schedule_valid sx s then (Inr s, doc_put (sd_id s) s c) else (Inl ZodError, c))"

definition get_schedule :: "text_schemas \<Rightarrow> string \<Rightarrow> schedules \<Rightarrow> schedule option" where
  "get_schedule sx i c = (case doc_get i c of Some s \<Rightarrow> if schedule_valid sx s then Some s else None | None \<Rightarrow> None)"

definition by_createdAt :: "schedule \<Rightarrow> schedule \<Rightarrow> int" where
  "by_createdAt a b = codeUnitCompare (sd_createdAt a) (sd_createdAt b)"

definition listAll :: "text_schemas \<Rightarrow> schedules \<Rightarrow> schedule list" where
  "listAll sx c = filter (schedule_valid sx) (doc_query (\<lambda>s. True) by_createdAt None c)"

definition listByProject :: "text_schemas \<Rightarrow> string \<Rightarrow> schedules \<Rightarrow> schedule list" where
  "listByProject sx p c = filter (schedule_valid sx) (doc_query (\<lambda>s. sd_projectId s = p) by_createdAt None c)"

fun time_trigger :: "schedule_trigger \<Rightarrow> bool" where
  "time_trigger (CronTrigger c zone) = True"
| "time_trigger (CalendarTrigger at_time) = True"
| "time_trigger (HookTrigger event source) = False"
| "time_trigger (SystemTrigger event) = False"

definition is_due :: "int \<Rightarrow> schedule \<Rightarrow> bool" where
  "is_due dueAt s \<longleftrightarrow> sd_enabled s \<and> time_trigger (sd_trigger s)
     \<and> (case sd_nextDueAt s of None \<Rightarrow> False | Some d \<Rightarrow> (case date_parse d of None \<Rightarrow> False | Some t \<Rightarrow> t \<le> dueAt))"

definition by_due :: "schedule \<Rightarrow> schedule \<Rightarrow> int" where
  "by_due a b = localeCompare (getOr (sd_nextDueAt a) '''') (getOr (sd_nextDueAt b) '''')"

definition listDue :: "text_schemas \<Rightarrow> string \<Rightarrow> schedules \<Rightarrow> schedule list result" where
  "listDue sx referenceTime c =
     (case date_parse referenceTime of
        None \<Rightarrow> Inl (JsError (''Invalid reference time: '' @ referenceTime))
      | Some dueAt \<Rightarrow> Inr (js_sort by_due (filter (is_due dueAt) (listAll sx c))))"

definition cancel_schedule :: "text_schemas \<Rightarrow> string \<Rightarrow> string \<Rightarrow> schedules \<Rightarrow> bool result \<times> schedules" where
  "cancel_schedule sx scheduleId updatedAt c =
     (case get_schedule sx scheduleId c of
        None \<Rightarrow> (Inr False, c)
      | Some existing \<Rightarrow>
          bindS (save_schedule sx (existing\<lparr>sd_enabled := False, sd_nextDueAt := None, sd_updatedAt := updatedAt\<rparr>)) (\<lambda>s. returnS True) c)"

section \<open>Envelopes\<close>

definition compare_members :: "string \<times> 'a \<Rightarrow> string \<times> 'a \<Rightarrow> int" where
  "compare_members a b = localeCompare (fst a) (fst b)"

fun stable_stringify :: "json \<Rightarrow> string" where
  "stable_stringify (JArr xs) = ''['' @ join '','' (map stable_stringify xs) @ '']''"
| "stable_stringify (JObj kvs) =
     ''{'' @ join '','' (map (\<lambda>(k, t). quote k @ '':'' @ t)
       (js_sort compare_members (map (\<lambda>kv. (fst kv, stable_stringify (snd kv))) kvs))) @ ''}''"
| "stable_stringify v = stringify v"

definition buildPayloadRef :: "(string \<Rightarrow> string) \<Rightarrow> json \<Rightarrow> string" where
  "buildPayloadRef sha256 payload = ''sha256:'' @ sha256 (stable_stringify payload)"

fun trigger_json :: "schedule_trigger \<Rightarrow> json" where
  "trigger_json (CronTrigger c zone) = JObj (str_field ''kind'' ''cron'' @ str_field ''cron'' c @ opt_field ''timezone'' JStr zone)"
| "trigger_json (CalendarTrigger at_time) = JObj (str_field ''kind'' ''calendar'' @ str_field ''execute_at'' at_time)"
| "trigger_json (HookTrigger event source) =
     JObj (str_field ''kind'' ''hook'' @ str_field ''event_name'' event @ opt_field ''source_filter'' JStr source)"
| "trigger_json (SystemTrigger event) = JObj (str_field ''kind'' ''system_event'' @ str_field ''event_name'' event)"

definition schedule_payload :: "schedule \<Rightarrow> string \<Rightarrow> json" where
  "schedule_payload s occurred =
     JObj [(''schedule_id'', JStr (sd_id s)), (''trigger'', trigger_json (sd_trigger s)),
       (''payload_template_ref'', case sd_payloadTemplateRef s of None \<Rightarrow> JNull | Some r \<Rightarrow> JStr r),
       (''occurred_at'', JStr occurred)]"

definition buildScheduledEnvelope ::
  "(string \<Rightarrow> string) \<Rightarrow> string \<Rightarrow> string \<Rightarrow> schedule \<Rightarrow> string \<Rightarrow> string \<Rightarrow> trigger_envelope" where
  "buildScheduledEnvelope sha256 triggerId nonce s occurred received =
     \<lparr>te_trigger_id = triggerId, te_trigger_type = TrigScheduler, te_source_id = ''schedule:'' @ sd_id s,
      te_project_id = sd_projectId s,
      te_workflow_ref = (if sd_taskDefinitionId s \<noteq> None then None else sd_workflowDefinitionId s),
      te_task_ref = sd_taskDefinitionId s, te_workmode_id = sd_workmodeId s, te_event_name = ''scheduled_run'',
      te_payload_ref = buildPayloadRef sha256 (schedule_payload s occurred),
      te_idempotency_key = ''schedule:'' @ sd_id s @ '':'' @ occurred, te_nonce = nonce, te_occurred_at = occurred,
      te_received_at = received, te_auth_context_ref = Some ''internal:scheduler'', te_trace_parent = None,
      te_requested_delivery_mode = sd_requestedDeliveryMode s\<rparr>"

record event_input =
  ev_projectId :: string
  ev_workflowDefinitionId :: "string option"
  ev_workmodeId :: string
  ev_sourceId :: string
  ev_eventName :: string
  ev_idempotencyKey :: string
  ev_payload :: "json option"
  ev_occurredAt :: "string option"
  ev_traceParent :: "string option"
  ev_requestedDeliveryMode :: "delivery_mode option"

definition buildEventEnvelope ::
  "(string \<Rightarrow> string) \<Rightarrow> string \<Rightarrow> string \<Rightarrow> string \<Rightarrow> trigger_type \<Rightarrow> string \<Rightarrow> event_input \<Rightarrow> trigger_envelope" where
  "buildEventEnvelope sha256 triggerId nonce now triggerType workflowRef i =
     \<lparr>te_trigger_id = triggerId, te_trigger_type = triggerType, te_source_id = ev_sourceId i, te_project_id = ev_projectId i,
      te_workflow_ref = Some workflowRef, te_task_ref = None, te_workmode_id = ev_workmodeId i, te_event_name = ev_eventName i,
      te_payload_ref = buildPayloadRef sha256 (getOr (ev_payload i) (JObj [])), te_idempotency_key = ev_idempotencyKey i,
      te_nonce = nonce, te_occurred_at = getOr (ev_occurredAt i) now, te_received_at = now,
      te_auth_context_ref = Some (if triggerType = TrigHook then ''internal:scheduler'' else ''internal:system''),
      te_trace_parent = ev_traceParent i, te_requested_delivery_mode = getOr (ev_requestedDeliveryMode i) DeliverNone\<rparr>"

end
