(* ===== verification/Scheduler_Service.thy ===== *)
theory Scheduler_Service
  imports Scheduler
begin

text \<open>
  \<open>SchedulerService\<close> (\<open>self/subcortex/scheduler/src/scheduler-service.ts\<close>). An operation is a function on
  the schedules, the state behind the ingress gateway and the count of random identifiers drawn, to a
  result or an exception with the state reached by then.
\<close>

record 'g scheduler =
  sc_schedules :: schedules
  sc_gateway :: 'g
  sc_fresh :: nat

record 'g sched_deps =
  sh_schemas :: text_schemas
  sh_now :: string \<comment> \<open>\<open>nowIso()\<close>\<close>
  sh_uuid :: "nat \<Rightarrow> string"
  sh_sha256 :: "string \<Rightarrow> string"
  sh_project :: "string \<Rightarrow> project_config option result"
  sh_task :: "(string \<Rightarrow> string \<Rightarrow> task_definition option result) option"
  sh_submit :: "trigger_envelope \<Rightarrow> 'g \<Rightarrow> dispatch_outcome result \<times> 'g"

definition on_schedules :: "(schedules, 'a) op \<Rightarrow> ('g scheduler, 'a) op" where
  "on_schedules m st = (case m (sc_schedules st) of (r, c) \<Rightarrow> (r, st\<lparr>sc_schedules := c\<rparr>))"

definition save :: "'g sched_deps \<Rightarrow> schedule \<Rightarrow> ('g scheduler, schedule) op" where
  "save deps s = on_schedules (save_schedule (sh_schemas deps) s)"

definition draw :: "'g sched_deps \<Rightarrow> ('g scheduler, string) op" where
  \<comment> \<open>\<open>randomUUID()\<close>\<close>
  "draw deps st = (Inr (sh_uuid deps (sc_fresh st)), st\<lparr>sc_fresh := Suc (sc_fresh st)\<rparr>)"

definition submit_to_gateway :: "'g sched_deps \<Rightarrow> trigger_envelope \<Rightarrow> ('g scheduler, dispatch_outcome) op" where
  "submit_to_gateway deps e st = (case sh_submit deps e (sc_gateway st) of (r, g) \<Rightarrow> (r, st\<lparr>sc_gateway := g\<rparr>))"

section \<open>Projects, workflows and due times\<close>

definition load_project :: "'g sched_deps \<Rightarrow> string \<Rightarrow> project_config result" where
  "load_project deps p =
     bindR (sh_project deps p) (\<lambda>found. case found of
        None \<Rightarrow> Inl (JsError (''Project '' @ p @ '' not found''))
      | Some config \<Rightarrow> Inr config)"

definition resolveWorkflowDefinitionId :: "project_config \<Rightarrow> string option \<Rightarrow> string result" where
  "resolveWorkflowDefinitionId project wanted =
     (let none = Inl (JsError (''Project '' @ pc_id project @ '' has no workflow definitions'')) in
      case pc_workflow project of
        None \<Rightarrow> none
      | Some config \<Rightarrow>
          if wc_definitions config = [] then none
          else if truthy wanted then
            (let i = getOr wanted '''' in
             if i \<in> set (map wd_id (wc_definitions config)) then Inr i
             else Inl (JsError (''Workflow definition '' @ i @ '' not found for project '' @ pc_id project)))
          else if truthy (wc_defaultWorkflowDefinitionId config) then Inr (getOr (wc_defaultWorkflowDefinitionId config) '''')
          else
            (case wc_definitions config of
               [d] \<Rightarrow> Inr (wd_id d)
             | _ \<Rightarrow> Inl (JsError (''Project '' @ pc_id project @ '' requires workflowDefinitionId when multiple workflows exist''))))"

definition require_task :: "'g sched_deps \<Rightarrow> string \<Rightarrow> string \<Rightarrow> unit result" where
  "require_task deps p i =
     (case sh_task deps of
        None \<Rightarrow> Inl (JsError ''taskStore required for task schedules'')
      | Some get \<Rightarrow>
          bindR (get p i) (\<lambda>found. case found of
             None \<Rightarrow> Inl (JsError (''Task definition '' @ i @ '' not found in project '' @ p))
           | Some t \<Rightarrow> Inr ()))"

definition computeInitialNextDueAt :: "schedule \<Rightarrow> string \<Rightarrow> string option result" where
  "computeInitialNextDueAt s referenceTime =
     (if \<not> sd_enabled s then Inr None
      else
        (case sd_trigger s of
           CalendarTrigger execute_at \<Rightarrow> if truthy (sd_lastDispatchedAt s) then Inr None else Inr (Some execute_at)
         | CronTrigger c zone \<Rightarrow> bindR (computeNextCronOccurrence c referenceTime) (\<lambda>d. Inr (Some d))
         | _ \<Rightarrow> Inr None))"

fun rejected :: "dispatch_outcome \<Rightarrow> bool" where
  "rejected (TriggerRejected reason code ref refs) = True"
| "rejected outcome = False"

definition advanceAfterSubmission :: "schedule \<Rightarrow> string \<Rightarrow> dispatch_outcome \<Rightarrow> schedule result" where
  "advanceAfterSubmission s processedAt outcome =
     (let last = (if rejected outcome then sd_lastDispatchedAt s else Some processedAt) in
      case sd_trigger s of
        CalendarTrigger execute_at \<Rightarrow>
          Inr (s\<lparr>sd_enabled := False, sd_nextDueAt := None, sd_lastDispatchedAt := last, sd_updatedAt := processedAt\<rparr>)
      | CronTrigger c zone \<Rightarrow>
          bindR (computeNextCronOccurrence c processedAt) (\<lambda>d.
            Inr (s\<lparr>sd_nextDueAt := Some d, sd_lastDispatchedAt := last, sd_updatedAt := processedAt\<rparr>))
      | _ \<Rightarrow> Inr (s\<lparr>sd_updatedAt := processedAt\<rparr>))"

section \<open>Registering\<close>

definition register_schedule :: "'g sched_deps \<Rightarrow> schedule \<Rightarrow> ('g scheduler, string) op" where
  "register_schedule deps s =
     (let timestamp = sh_now deps in
      bindS (liftR (load_project deps (sd_projectId s))) (\<lambda>project.
      bindS (liftR (if truthy (sd_taskDefinitionId s)
               then bindR (require_task deps (sd_projectId s) (getOr (sd_taskDefinitionId s) '''')) (\<lambda>u. Inr (sd_workflowDefinitionId s))
               else bindR (resolveWorkflowDefinitionId project (sd_workflowDefinitionId s)) (\<lambda>w. Inr (Some w)))) (\<lambda>workflow.
      bindS (liftR (case sd_nextDueAt s of Some d \<Rightarrow> Inr (Some d) | None \<Rightarrow> computeInitialNextDueAt s timestamp)) (\<lambda>due.
      bindS (liftR (parse_schedule (sh_schemas deps)
               (s\<lparr>sd_workflowDefinitionId := workflow, sd_updatedAt := timestamp, sd_nextDueAt := due\<rparr>))) (\<lambda>normalized.
      bindS (save deps normalized) (\<lambda>saved. returnS (sd_id normalized)))))))"

definition merged_schedule ::
  "upsert_input \<Rightarrow> string \<Rightarrow> string \<Rightarrow> schedule option \<Rightarrow> string option \<Rightarrow> string option \<Rightarrow> schedule" where
  "merged_schedule u scheduleId timestamp existing workflow task =
     \<lparr>sd_id = scheduleId, sd_projectId = su_projectId u, sd_workflowDefinitionId = workflow, sd_taskDefinitionId = task,
      sd_workmodeId = getOr (orElse (su_workmodeId u) (map_option sd_workmodeId existing)) ''system:implementation'',
      sd_trigger = su_trigger u, sd_enabled = getOr (su_enabled u) True,
      sd_requestedDeliveryMode = getOr (su_requestedDeliveryMode u) DeliverNone,
      sd_payloadTemplateRef = orElse (su_payloadTemplateRef u) (case existing of None \<Rightarrow> None | Some s \<Rightarrow> sd_payloadTemplateRef s),
      sd_nextDueAt = None, sd_lastDispatchedAt = (case existing of None \<Rightarrow> None | Some s \<Rightarrow> sd_lastDispatchedAt s),
      sd_createdAt = (case existing of None \<Rightarrow> timestamp | Some s \<Rightarrow> sd_createdAt s), sd_updatedAt = timestamp\<rparr>"

definition upsert_schedule :: "'g sched_deps \<Rightarrow> upsert_input \<Rightarrow> ('g scheduler, schedule) op" where
  "upsert_schedule deps u =
     (let timestamp = sh_now deps; sx = sh_schemas deps in
      bindS (liftR (if upsert_valid sx u then Inr () else Inl ZodError)) (\<lambda>parsed.
      bindS (case su_id u of Some i \<Rightarrow> returnS i | None \<Rightarrow> draw deps) (\<lambda>scheduleId.
      bindS (getsS (\<lambda>st. case su_id u of None \<Rightarrow> None | Some i \<Rightarrow> if i = [] then None else get_schedule sx i (sc_schedules st))) (\<lambda>existing.
      bindS (liftR (load_project deps (su_projectId u))) (\<lambda>project.
        let task = orElse (su_taskDefinitionId u) (case existing of None \<Rightarrow> None | Some s \<Rightarrow> sd_taskDefinitionId s);
            wanted = orElse (su_workflowDefinitionId u) (case existing of None \<Rightarrow> None | Some s \<Rightarrow> sd_workflowDefinitionId s) in
      bindS (liftR (if truthy task then bindR (require_task deps (su_projectId u) (getOr task '''')) (\<lambda>v. Inr None)
               else bindR (resolveWorkflowDefinitionId project wanted) (\<lambda>w. Inr (Some w)))) (\<lambda>workflow.
        let draft = merged_schedule u scheduleId timestamp existing workflow task in
      bindS (liftR (computeInitialNextDueAt draft (getOr (sd_lastDispatchedAt draft) timestamp))) (\<lambda>due.
      bindS (liftR (parse_schedule sx (draft\<lparr>sd_nextDueAt := due\<rparr>))) (\<lambda>merged.
      bindS (save deps merged) (\<lambda>saved. returnS merged)))))))))"

definition cancel :: "'g sched_deps \<Rightarrow> string \<Rightarrow> ('g scheduler, bool) op" where
  "cancel deps scheduleId = on_schedules (cancel_schedule (sh_schemas deps) scheduleId (sh_now deps))"

definition get_by_id :: "'g sched_deps \<Rightarrow> string \<Rightarrow> ('g scheduler, schedule option) op" where
  "get_by_id deps scheduleId = getsS (\<lambda>st. get_schedule (sh_schemas deps) scheduleId (sc_schedules st))"

definition list_project :: "'g sched_deps \<Rightarrow> string \<Rightarrow> ('g scheduler, schedule list) op" where
  "list_project deps p = getsS (\<lambda>st. listByProject (sh_schemas deps) p (sc_schedules st))"

section \<open>Dispatching\<close>

definition needs_due_time :: "schedule \<Rightarrow> bool" where
  "needs_due_time s \<longleftrightarrow> sd_enabled s \<and> time_trigger (sd_trigger s)
     \<and> (case sd_nextDueAt s of
          None \<Rightarrow> True
        | Some d \<Rightarrow> (case sd_lastDispatchedAt s of None \<Rightarrow> False | Some last_time \<Rightarrow> d \<le> last_time))"

fun reconcile :: "'g sched_deps \<Rightarrow> string \<Rightarrow> schedule list \<Rightarrow> ('g scheduler, unit) op" where
  "reconcile deps referenceTime [] = returnS ()"
| "reconcile deps referenceTime (s # ss) =
     (if needs_due_time s then
        bindS (liftR (computeInitialNextDueAt s (getOr (sd_lastDispatchedAt s) referenceTime))) (\<lambda>due.
        bindS (save deps (s\<lparr>sd_nextDueAt := due, sd_updatedAt := referenceTime\<rparr>)) (\<lambda>saved. reconcile deps referenceTime ss))
      else reconcile deps referenceTime ss)"

definition reconcileTimeSchedules :: "'g sched_deps \<Rightarrow> string \<Rightarrow> ('g scheduler, unit) op" where
  "reconcileTimeSchedules deps referenceTime =
     bindS (getsS (\<lambda>st. listAll (sh_schemas deps) (sc_schedules st))) (reconcile deps referenceTime)"

definition submit_due :: "'g sched_deps \<Rightarrow> string \<Rightarrow> schedule \<Rightarrow> ('g scheduler, dispatch_outcome) op" where
  \<comment> \<open>the body of the loop up to the answer of the gateway\<close>
  "submit_due deps referenceTime s =
     bindS (draw deps) (\<lambda>triggerId. bindS (draw deps) (\<lambda>nonce.
       submit_to_gateway deps
         (buildScheduledEnvelope (sh_sha256 deps) triggerId nonce s (getOr (sd_nextDueAt s) referenceTime) referenceTime)))"

definition record_dispatch :: "'g sched_deps \<Rightarrow> string \<Rightarrow> schedule \<Rightarrow> dispatch_outcome \<Rightarrow> ('g scheduler, schedule \<times> dispatch_outcome) op" where
  \<comment> \<open>and after it\<close>
  "record_dispatch deps referenceTime s outcome =
     bindS (liftR (advanceAfterSubmission s referenceTime outcome)) (\<lambda>updated.
     bindS (save deps updated) (\<lambda>saved. returnS (updated, outcome)))"

fun dispatch_loop :: "'g sched_deps \<Rightarrow> string \<Rightarrow> schedule list \<Rightarrow> ('g scheduler, (schedule \<times> dispatch_outcome) list) op" where
  "dispatch_loop deps referenceTime [] = returnS []"
| "dispatch_loop deps referenceTime (s # ss) =
     bindS (submit_due deps referenceTime s) (\<lambda>outcome.
     bindS (record_dispatch deps referenceTime s outcome) (\<lambda>row.
     bindS (dispatch_loop deps referenceTime ss) (\<lambda>rows. returnS (row # rows))))"

definition dispatchDueSchedules :: "'g sched_deps \<Rightarrow> string \<Rightarrow> ('g scheduler, (schedule \<times> dispatch_outcome) list) op" where
  "dispatchDueSchedules deps referenceTime =
     bindS (reconcileTimeSchedules deps referenceTime) (\<lambda>u.
     bindS (getsS (\<lambda>st. listDue (sh_schemas deps) referenceTime (sc_schedules st))) (\<lambda>due.
     bindS (liftR due) (dispatch_loop deps referenceTime)))"

definition dispatchEvent :: "'g sched_deps \<Rightarrow> trigger_type \<Rightarrow> event_input \<Rightarrow> ('g scheduler, dispatch_outcome) op" where
  \<comment> \<open>\<open>dispatchHookTrigger\<close> and \<open>dispatchSystemEvent\<close> with their trigger types\<close>
  "dispatchEvent deps triggerType i =
     bindS (liftR (load_project deps (ev_projectId i))) (\<lambda>project.
     bindS (liftR (resolveWorkflowDefinitionId project (ev_workflowDefinitionId i))) (\<lambda>workflow.
     bindS (draw deps) (\<lambda>triggerId. bindS (draw deps) (\<lambda>nonce.
       submit_to_gateway deps
         (buildEventEnvelope (sh_sha256 deps) triggerId nonce (sh_now deps) triggerType workflow i)))))"

definition dispatchHookTrigger :: "'g sched_deps \<Rightarrow> event_input \<Rightarrow> ('g scheduler, dispatch_outcome) op" where
  "dispatchHookTrigger deps = dispatchEvent deps TrigHook"

definition dispatchSystemEvent :: "'g sched_deps \<Rightarrow> event_input \<Rightarrow> ('g scheduler, dispatch_outcome) op" where
  "dispatchSystemEvent deps = dispatchEvent deps TrigSystemEvent"

end
