(* ===== verification/Calendar_Years.thy ===== *)
theory Calendar_Years
  imports Iso_Date "HOL-Library.Code_Target_Nat"
begin

text \<open>
  Counting by years: how many days a year has and how many precede it, so that dates of this century
  are computed in a few steps instead of month by month.
\<close>

lemma month_start_add: "month_start (k + n) = month_start k + (\<Sum>i<n. days_in_month (k + i))"
  by (induction n) simp_all

lemma sum_months: "(\<Sum>i<(12 :: nat). f i) = f 0 + f 1 + f 2 + f 3 + f 4 + f 5 + f 6 + f 7 + f 8 + f 9 + f 10 + (f 11 :: nat)"
  by (simp add: eval_nat_numeral)

definition year_length :: "nat \<Rightarrow> nat" where
  "year_length y = (if leap_year (1970 + y) then 366 else 365)"

lemma month_length:
  "i < 12 \<Longrightarrow> days_in_month (12 * y + i) = [31, if leap_year (1970 + y) then 29 else 28, 31, 30, 31, 30, 31, 31, 30, 31, 30, 31] ! i"
  by (simp add: days_in_month_def)

lemma year_months: "(\<Sum>i<12. days_in_month (12 * y + i)) = year_length y"
proof -
  have "(\<Sum>i<12. days_in_month (12 * y + i)) =
      (\<Sum>i<12. [31, if leap_year (1970 + y) then 29 else 28, 31, 30, 31, 30, 31, 31, 30, 31, 30, 31] ! i)"
    by (rule sum.cong) (simp_all add: month_length)
  then show ?thesis unfolding sum_months by (simp add: year_length_def)
qed

lemma month_start_year: "month_start (12 * Suc y) = month_start (12 * y) + year_length y"
proof -
  have "12 * Suc y = 12 * y + 12" by simp
  then show ?thesis by (simp only: month_start_add year_months)
qed

lemma leap_count:
  "(if leap_year (Suc n) then 1 else 0) + (n div 4 + n div 400) + Suc n div 100 = Suc n div 4 + Suc n div 400 + n div 100"
proof -
  have "Suc n mod 400 = 0 \<Longrightarrow> Suc n mod 100 = 0" "Suc n mod 100 = 0 \<Longrightarrow> Suc n mod 4 = 0" by presburger+
  then show ?thesis by (auto simp: leap_year_def div_Suc)
qed

lemma month_start_years: "month_start (12 * y) + 477 + (1969 + y) div 100 = 365 * y + (1969 + y) div 4 + (1969 + y) div 400"
proof (induction y)
  case (Suc y)
  have "(if leap_year (1970 + y) then 1 else 0) + ((1969 + y) div 4 + (1969 + y) div 400) + (1970 + y) div 100
      = (1970 + y) div 4 + (1970 + y) div 400 + (1969 + y) div 100"
    using leap_count [of "1969 + y"] by simp
  moreover have "year_length y = 365 + (if leap_year (1970 + y) then 1 else 0)" by (simp add: year_length_def)
  ultimately show ?case using Suc unfolding month_start_year by simp
qed simp

lemma month_start_code [code]:
  "month_start k =
     (let y = k div 12; n = 1969 + y in 365 * y + n div 4 + n div 400 - 477 - n div 100
        + sum_list (map (\<lambda>i. days_in_month (12 * y + i)) [0 ..< k mod 12]))"
proof -
  have "month_start k = month_start (12 * (k div 12)) + (\<Sum>i<k mod 12. days_in_month (12 * (k div 12) + i))"
    using month_start_add [of "12 * (k div 12)" "k mod 12"] by simp
  moreover have "month_start (12 * (k div 12)) = 365 * (k div 12) + (1969 + k div 12) div 4 + (1969 + k div 12) div 400 - 477 - (1969 + k div 12) div 100"
    using month_start_years [of "k div 12"] by linarith
  ultimately show ?thesis by (simp add: Let_def interv_sum_list_conv_sum_set_nat atLeast0LessThan)
qed

lemma month_from_skip:
  "(\<Sum>i<n. days_in_month (k + i)) \<le> d \<Longrightarrow> month_from k d = month_from (k + n) (d - (\<Sum>i<n. days_in_month (k + i)))"
proof (induction n arbitrary: d)
  case (Suc n)
  let ?s = "\<Sum>i<n. days_in_month (k + i)"
  have "month_from k d = month_from (k + n) (d - ?s)" using Suc by simp
  also have "\<dots> = month_from (Suc (k + n)) (d - ?s - days_in_month (k + n))"
  proof -
    have "\<not> d - ?s < days_in_month (k + n)" using Suc.prems by simp
    then show ?thesis by (subst month_from.simps) simp
  qed
  finally show ?case by simp
qed simp

lemma month_from_code [code]:
  "month_from k d =
     (if k mod 12 = 0 \<and> year_length (k div 12) \<le> d then month_from (k + 12) (d - year_length (k div 12))
      else if d < days_in_month k then (k, d) else month_from (Suc k) (d - days_in_month k))"
proof (cases "k mod 12 = 0 \<and> year_length (k div 12) \<le> d")
  case True
  then have "12 * (k div 12) = k" by auto
  with True month_from_skip [of k 12 d] year_months [of "k div 12"] show ?thesis by simp
next
  case False
  then show ?thesis by (simp only: if_False) (rule month_from.simps)
qed

lemma month_start_mono: "j \<le> k \<Longrightarrow> month_start j \<le> month_start k"
  by (rule lift_Suc_mono_le [of month_start]) simp_all

end
