(* ===== verification/Cron_Properties.thy ===== *)
theory Cron_Properties
  imports Cron Calendar_Years
begin

text \<open>
  The search for the next occurrence finds the first matching minute of the following 366 days and
  fails only where there is none; a written field means what its items say; and two expressions for
  which the code does not do what they ask: a leap day more than a year ahead and a range of
  weekdays that ends with Sunday as 7.
\<close>

section \<open>The search\<close>

lemma cron_loop_Some:
  "cron_loop cron index candidate = Some m \<Longrightarrow> 0 \<le> index \<Longrightarrow>
   \<exists>n. index + int n < 366 * 24 * 60 \<and> m = candidate + int n * minute_ms \<and> cron_matches cron m
     \<and> (\<forall>j < n. \<not> cron_matches cron (candidate + int j * minute_ms))"
proof (induction cron index candidate rule: cron_loop.induct)
  case (1 cron index candidate)
  show ?case
  proof (cases "cron_matches cron candidate")
    case True
    with 1(2) have "m = candidate" "index < 366 * 24 * 60" by (auto simp: cron_loop.simps [of cron index candidate] split: if_splits)
    with True show ?thesis by (intro exI [of _ 0]) simp
  next
    case False
    with 1(2) have step: "cron_loop cron (index + 1) (candidate + minute_ms) = Some m" "index < 366 * 24 * 60"
      by (auto simp: cron_loop.simps [of cron index candidate] split: if_splits)
    from 1(1) [OF step(2) False step(1)] 1(3) obtain n where n: "index + 1 + int n < 366 * 24 * 60"
      "m = candidate + minute_ms + int n * minute_ms" "cron_matches cron m" 
      "\<forall>j < n. \<not> cron_matches cron (candidate + minute_ms + int j * minute_ms)" by auto
    have "\<not> cron_matches cron (candidate + int j * minute_ms)" if "j < Suc n" for j
      using False n(4) that by (cases j) (auto simp: algebra_simps)
    with n(1-3) show ?thesis by (intro exI [of _ "Suc n"]) (auto simp: algebra_simps)
  qed
qed

lemma cron_loop_None:
  "cron_loop cron index candidate = None \<Longrightarrow> index + int n < 366 * 24 * 60 \<Longrightarrow> 0 \<le> index \<Longrightarrow>
   \<not> cron_matches cron (candidate + int n * minute_ms)"
proof (induction cron index candidate arbitrary: n rule: cron_loop.induct)
  case (1 cron index candidate)
  have i: "index < 366 * 24 * 60" using 1(3) by linarith
  with 1(2) have step: "\<not> cron_matches cron candidate" "cron_loop cron (index + 1) (candidate + minute_ms) = None"
    by (auto simp: cron_loop.simps [of cron index candidate] split: if_splits)
  show ?case
  proof (cases n)
    case 0
    with step show ?thesis by simp
  next
    case (Suc k)
    then have "\<not> cron_matches cron (candidate + minute_ms + int k * minute_ms)" using 1(1) [OF i step, of k] 1(3,4) by simp
    then show ?thesis by (simp add: Suc algebra_simps)
  qed
qed

definition minutes_after :: "int \<Rightarrow> int \<Rightarrow> bool" where
  \<comment> \<open>a full minute of the 366 days after \<open>t\<close>\<close>
  "minutes_after t m \<longleftrightarrow> m mod minute_ms = 0 \<and> t < m \<and> m \<le> t + 366 * day_ms"

lemma minutes_after_index:
  assumes "minutes_after t m"
  obtains n where "m = t div minute_ms * minute_ms + minute_ms + int n * minute_ms" "int n < 366 * 24 * 60"
proof -
  obtain k where k: "m = k * minute_ms" using assms unfolding minutes_after_def by (metis dvdE mod_0_imp_dvd mult.commute)
  have t: "t = t div minute_ms * minute_ms + t mod minute_ms" "0 \<le> t mod minute_ms" "t mod minute_ms < minute_ms"
    by (simp_all add: minute_ms_def)
  have bounds: "t < k * minute_ms" "k * minute_ms \<le> t + 366 * day_ms" using assms unfolding minutes_after_def k by blast+
  have "t div minute_ms * minute_ms < k * minute_ms" using bounds(1) t by linarith
  then have lo: "t div minute_ms + 1 \<le> k" by (simp add: minute_ms_def)
  have "k * minute_ms < t div minute_ms * minute_ms + minute_ms + 366 * day_ms" using bounds(2) t by linarith
  then have hi: "k < t div minute_ms + 1 + 366 * 24 * 60" by (simp add: minute_ms_def day_ms_def)
  show thesis
  proof (rule that [of "nat (k - (t div minute_ms + 1))"])
    show "m = t div minute_ms * minute_ms + minute_ms + int (nat (k - (t div minute_ms + 1))) * minute_ms"
      using lo by (simp add: k algebra_simps)
    show "int (nat (k - (t div minute_ms + 1))) < 366 * 24 * 60" using lo hi by simp
  qed
qed

lemma index_minutes_after:
  assumes "int n < 366 * 24 * 60"
  shows "minutes_after t (t div minute_ms * minute_ms + minute_ms + int n * minute_ms)"
proof -
  have t: "t = t div minute_ms * minute_ms + t mod minute_ms" "0 \<le> t mod minute_ms" "t mod minute_ms < minute_ms"
    by (simp_all add: minute_ms_def)
  have "int n * minute_ms \<le> (366 * 24 * 60 - 1) * minute_ms" using assms by (intro mult_right_mono) (auto simp: minute_ms_def)
  then have hi: "t div minute_ms * minute_ms + minute_ms + int n * minute_ms \<le> t + 366 * day_ms"
    using t by (simp add: minute_ms_def day_ms_def)
  have "t < t div minute_ms * minute_ms + minute_ms" using t by linarith
  moreover have "0 \<le> int n * minute_ms" by (simp add: minute_ms_def)
  ultimately have lo: "t < t div minute_ms * minute_ms + minute_ms + int n * minute_ms" by linarith
  have "(t div minute_ms * minute_ms + minute_ms + int n * minute_ms) mod minute_ms = 0"
    by (metis mod_mult_self2_is_0 distrib_right mult_1)
  with lo hi show ?thesis by (simp add: minutes_after_def)
qed

definition next_match :: "cron_fields \<Rightarrow> int \<Rightarrow> int \<Rightarrow> bool" where
  "next_match cron t m \<longleftrightarrow> minutes_after t m \<and> cron_matches cron m \<and> (\<forall>u. minutes_after t u \<and> cron_matches cron u \<longrightarrow> m \<le> u)"

lemma cron_loop_next:
  "cron_loop cron 0 (t div minute_ms * minute_ms + minute_ms) = Some m \<Longrightarrow> next_match cron t m"
proof -
  assume "cron_loop cron 0 (t div minute_ms * minute_ms + minute_ms) = Some m"
  from cron_loop_Some [OF this] obtain n where n: "int n < 366 * 24 * 60"
    "m = t div minute_ms * minute_ms + minute_ms + int n * minute_ms" "cron_matches cron m"
    "\<forall>j < n. \<not> cron_matches cron (t div minute_ms * minute_ms + minute_ms + int j * minute_ms)" by auto
  have "m \<le> u" if u: "minutes_after t u" "cron_matches cron u" for u
  proof -
    obtain k where k: "u = t div minute_ms * minute_ms + minute_ms + int k * minute_ms" using minutes_after_index [OF u(1)] by blast
    with n(4) u(2) have "n \<le> k" using not_less by blast
    then show ?thesis by (simp add: n(2) k minute_ms_def)
  qed
  with index_minutes_after [OF n(1)] n(2,3) show ?thesis by (simp add: next_match_def)
qed

lemma cron_loop_none:
  "cron_loop cron 0 (t div minute_ms * minute_ms + minute_ms) = None \<Longrightarrow> minutes_after t u \<Longrightarrow> \<not> cron_matches cron u"
  using cron_loop_None [of cron 0] by (metis minutes_after_index add_0 order_refl)

text \<open>C18: The next occurrence of a cron expression is the first full minute after the given moment in which
  its five fields hold. It is missed only where the 366 days after that moment have no such minute;
  the search always ends.\<close>

theorem cron_next_occurrence:
  assumes "parseCronExpression expression = Inr cron" and "date_parse fromIso = Some t"
  shows "(\<exists>m. next_match cron t m \<and> computeNextCronOccurrence expression fromIso = Inr (toISOString m))
    \<or> (computeNextCronOccurrence expression fromIso = Inl (JsError (''Unable to compute next cron occurrence: '' @ expression))
       \<and> (\<forall>m. minutes_after t m \<longrightarrow> \<not> cron_matches cron m))"
proof (cases "cron_loop cron 0 (t div minute_ms * minute_ms + minute_ms)")
  case None
  with cron_loop_none [OF None] assms show ?thesis by (simp add: computeNextCronOccurrence_def parseTimestamp_def)
next
  case (Some m)
  with cron_loop_next [OF Some] assms show ?thesis by (auto simp: computeNextCronOccurrence_def parseTimestamp_def)
qed

lemma parsed_exists: "(case r of Inl e \<Rightarrow> False | Inr x \<Rightarrow> True) \<Longrightarrow> \<exists>x. r = Inr x"
  by (cases r) simp_all

theorem cron_next_occurrence_witness:
  "\<exists>cron m. parseCronExpression ''*/15 9-17 * * 1-5'' = Inr cron \<and> next_match cron 1772788032345 m \<and> toISOString m = ''2026-03-06T09:15:00.000Z''"
proof -
  have "case parseCronExpression ''*/15 9-17 * * 1-5'' of Inl e \<Rightarrow> False | Inr x \<Rightarrow> True" by code_simp
  then obtain cron where cron: "parseCronExpression ''*/15 9-17 * * 1-5'' = Inr cron" using parsed_exists by blast
  have date: "date_parse ''2026-03-06T09:07:12.345Z'' = Some 1772788032345" by code_simp
  have "computeNextCronOccurrence ''*/15 9-17 * * 1-5'' ''2026-03-06T09:07:12.345Z'' = Inr ''2026-03-06T09:15:00.000Z''" by code_simp
  with cron_next_occurrence [OF cron date] cron show ?thesis by auto
qed

section \<open>What a field means\<close>

datatype cron_term = Every | EveryNth nat | Between nat nat | BetweenNth nat nat nat | Exactly nat

fun cron_term_text :: "cron_term \<Rightarrow> string" where
  "cron_term_text Every = ''*''"
| "cron_term_text (EveryNth n) = ''*/'' @ show_nat n"
| "cron_term_text (Between a b) = show_nat a @ ''-'' @ show_nat b"
| "cron_term_text (BetweenNth a b n) = show_nat a @ ''-'' @ show_nat b @ ''/'' @ show_nat n"
| "cron_term_text (Exactly a) = show_nat a"

fun cron_term_ok :: "cron_term \<Rightarrow> bool" where
  "cron_term_ok Every \<longleftrightarrow> True"
| "cron_term_ok (EveryNth n) \<longleftrightarrow> 0 < n \<and> n < 100"
| "cron_term_ok (Between a b) \<longleftrightarrow> a \<le> b \<and> b < 100"
| "cron_term_ok (BetweenNth a b n) \<longleftrightarrow> a < 100 \<and> b < 100 \<and> 0 < n \<and> n < 100"
| "cron_term_ok (Exactly a) \<longleftrightarrow> a < 100"

fun cron_term_holds :: "int \<Rightarrow> cron_term \<Rightarrow> int \<Rightarrow> bool" where
  "cron_term_holds least Every v \<longleftrightarrow> True"
| "cron_term_holds least (EveryNth n) v \<longleftrightarrow> int n dvd v - least"
| "cron_term_holds least (Between a b) v \<longleftrightarrow> int a \<le> v \<and> v \<le> int b"
| "cron_term_holds least (BetweenNth a b n) v \<longleftrightarrow> int a \<le> v \<and> v \<le> int b \<and> int n dvd v - int a"
| "cron_term_holds least (Exactly a) v \<longleftrightarrow> v = int a"

lemma digits_show_nat: "digits (show_nat n)"
  using show_nat_digits [of n] by (auto simp: digits_def is_digit_def list_all_iff)

lemma takeWhile_digits: "list_all is_digit s \<Longrightarrow> takeWhile is_digit s = s \<and> dropWhile is_digit s = []"
  by (simp add: list_all_iff)

lemma small_double: "n < 2 ^ 53 \<Longrightarrow> double (of_nat n)"
  unfolding double_def by (rule exI [of _ "int n"], rule exI [of _ 0]) simp

lemma digit_not_letter: "is_digit c \<Longrightarrow> to_lower c \<noteq> CHR ''x'' \<and> to_lower c \<noteq> CHR ''o'' \<and> to_lower c \<noteq> CHR ''b'' \<and> c \<noteq> CHR ''-'' \<and> c \<noteq> CHR ''+''
    \<and> c \<noteq> CHR ''*'' \<and> c \<noteq> CHR ''/'' \<and> c \<noteq> CHR '',''"
  by (auto simp: is_digit_def digit_chars_def to_lower_def is_upper_def)

lemma whole_number_show_nat:
  assumes "n < 100"
  shows "whole_number (show_nat n) = Some (int n)"
proof -
  let ?s = "show_nat n"
  have ds: "list_all is_digit ?s" "?s \<noteq> []" using digits_show_nat [of n] by (simp_all add: digits_def)
  have hd: "is_digit (hd ?s)" using ds by (simp add: list_all_iff)
  have two: "map to_lower (take 2 ?s) \<noteq> [a, c]" if "c \<in> {CHR ''x'', CHR ''o'', CHR ''b''}" for a c
  proof
    assume m: "map to_lower (take 2 ?s) = [a, c]"
    then obtain y where "take 2 ?s ! 1 = y" "to_lower y = c" "length (take 2 ?s) = 2" by (metis length_Cons length_map list.size(3) nth_Cons_0 nth_Cons_Suc nth_map One_nat_def lessI numeral_2_eq_2)
    then have "y \<in> set ?s" by (metis in_set_takeD lessI nth_mem One_nat_def numeral_2_eq_2)
    with ds(1) \<open>to_lower y = c\<close> that show False using digit_not_letter [of y] by (auto simp: list_all_iff)
  qed
  have dec: "decimal_value ?s = Some (of_nat n)"
  proof -
    have tw: "takeWhile is_digit ?s = ?s" "dropWhile is_digit ?s = []" using takeWhile_digits [OF ds(1)] by blast+
    show ?thesis unfolding decimal_value_def Let_def tw by (simp add: exponent_part_def read_show_nat)
  qed
  have "text_value ?s = Some (of_nat n)"
    using two ds(2) digit_not_letter [OF hd] dec by (simp add: text_value_def Let_def)
  moreover have "rounded (of_nat n) = of_nat n" using assms by (intro rounded_double small_double) auto
  moreover have "bits (int n) \<le> 1024"
  proof (cases "n = 0")
    case False
    then have "0 < bits (int n) \<and> 2 ^ nat (bits (int n) - 1) \<le> int n" using bits_bounds [of "int n"] by simp
    moreover have "(2 :: int) ^ 7 \<le> 2 ^ nat (bits (int n) - 1)" if "1024 < bits (int n)" using that by (intro power_increasing) auto
    ultimately show ?thesis using assms by force
  qed (simp add: bits.simps)
  ultimately show ?thesis by (simp add: whole_number_def)
qed

lemma digits_char: "c \<in> set (show_nat n) \<Longrightarrow> is_digit c"
  using digits_show_nat [of n] by (simp add: digits_def list_all_iff)

lemma show_nat_free: "CHR ''-'' \<notin> set (show_nat n)" "CHR ''/'' \<notin> set (show_nat n)" "CHR '','' \<notin> set (show_nat n)"
  using digits_char digit_not_letter by blast+

lemma show_nat_hd: "\<exists>c r. show_nat n = c # r \<and> c \<noteq> CHR ''*''"
  using digits_char [of "hd (show_nat n)" n] digit_not_letter by (cases "show_nat n") auto

lemma cron_item_meaning:
  assumes "cron_term_ok t"
  shows "\<exists>m. cron_item least (\<lambda>v. v) (cron_term_text t) = Inr m \<and> (\<forall>v. m v \<longleftrightarrow> cron_term_holds least t v)"
proof (cases t)
  case Every
  then show ?thesis by (simp add: cron_item_def Let_def)
next
  case (EveryNth n)
  with assms show ?thesis
    by (simp add: cron_item_def Let_def digits_show_nat whole_number_show_nat positive_stride_def dvd_eq_mod_eq_0 numeral_2_eq_2)
next
  case (Between a b)
  obtain c r where c: "show_nat a = c # r" "c \<noteq> CHR ''*''" using show_nat_hd by blast
  have split: "split_at (CHR ''-'') (show_nat a @ ''-'' @ show_nat b) = [show_nat a, show_nat b]"
    using split_at_append [OF show_nat_free(1) [of a]] split_at_none [OF show_nat_free(1) [of b]] by simp
  have first: "show_nat a @ ''-'' @ show_nat b \<noteq> ''*''" "take 2 (show_nat a @ ''-'' @ show_nat b) \<noteq> ''*/''" using c by (auto simp: numeral_2_eq_2)
  with assms show ?thesis
    by (simp add: Between cron_item_def Let_def split [simplified] first [simplified] split_at_none [OF show_nat_free(2)] digits_show_nat whole_number_show_nat)
next
  case (BetweenNth a b n)
  obtain c r where c: "show_nat a = c # r" "c \<noteq> CHR ''*''" using show_nat_hd by blast
  let ?r = "show_nat b @ ''/'' @ show_nat n"
  have free: "CHR ''-'' \<notin> set ?r" using show_nat_free(1) by simp
  have split: "split_at (CHR ''-'') (show_nat a @ ''-'' @ ?r) = [show_nat a, ?r]"
    using split_at_append [OF show_nat_free(1) [of a]] split_at_none [OF free] by simp
  have slash: "split_at (CHR ''/'') ?r = [show_nat b, show_nat n]"
    using split_at_append [OF show_nat_free(2) [of b]] split_at_none [OF show_nat_free(2) [of n]] by simp
  have first: "show_nat a @ ''-'' @ ?r \<noteq> ''*''" "take 2 (show_nat a @ ''-'' @ ?r) \<noteq> ''*/''" using c by (auto simp: numeral_2_eq_2)
  with assms show ?thesis
    by (simp add: BetweenNth cron_item_def Let_def split [simplified] slash [simplified] first [simplified] digits_show_nat whole_number_show_nat
        positive_stride_def dvd_eq_mod_eq_0)
next
  case (Exactly a)
  obtain c r where c: "show_nat a = c # r" "c \<noteq> CHR ''*''" using show_nat_hd by blast
  have first: "show_nat a \<noteq> ''*''" "take 2 (show_nat a) \<noteq> ''*/''" using c by (auto simp: numeral_2_eq_2)
  with assms show ?thesis
    by (simp add: Exactly cron_item_def Let_def first split_at_none [OF show_nat_free(1)] whole_number_show_nat)
qed

lemma cron_term_text_free: "CHR '','' \<notin> set (cron_term_text t)"
  using show_nat_free(3) by (cases t) auto

lemma split_at_join: "xs \<noteq> [] \<Longrightarrow> \<forall>x \<in> set xs. c \<notin> set x \<Longrightarrow> split_at c (join [c] xs) = xs"
proof (induction xs rule: list_nonempty_induct)
  case (single x)
  then show ?case by (simp add: split_at_none)
next
  case (cons x xs)
  then obtain y ys where "xs = y # ys" by (cases xs) auto
  with cons split_at_append [of c x "join [c] (y # ys)"] show ?case by simp
qed

lemma mapR_meaning:
  assumes "\<forall>t \<in> set ts. \<exists>m. f (g t) = Inr m \<and> (\<forall>v. m v \<longleftrightarrow> h t v)"
  shows "\<exists>ms. mapR f (map g ts) = Inr ms \<and> (\<forall>v. list_ex (\<lambda>m. m v) ms \<longleftrightarrow> (\<exists>t \<in> set ts. h t v))"
  using assms
proof (induction ts)
  case (Cons t ts)
  then obtain m ms where "f (g t) = Inr m" "\<forall>v. m v \<longleftrightarrow> h t v" "mapR f (map g ts) = Inr ms"
    "\<forall>v. list_ex (\<lambda>m. m v) ms \<longleftrightarrow> (\<exists>t \<in> set ts. h t v)" by auto
  then show ?case by simp
qed simp

text \<open>C34: A field whose values are taken as they are (minute, hour, day of month, month), written as a
  list of items (every value, every n-th, a range, every n-th of a range, one value) with numbers below
  100, is understood as what the items say, within the bounds of the field.\<close>

theorem cron_field_meaning:
  assumes "ts \<noteq> []" and "\<forall>t \<in> set ts. cron_term_ok t"
  shows "\<exists>m. parseCronMatcher (join '','' (map cron_term_text ts)) least most (\<lambda>v. v) = Inr m
    \<and> (\<forall>v. m v \<longleftrightarrow> least \<le> v \<and> v \<le> most \<and> (\<exists>t \<in> set ts. cron_term_holds least t v))"
proof -
  obtain ms where ms: "mapR (cron_item least (\<lambda>v. v)) (map cron_term_text ts) = Inr ms"
    "\<forall>v. list_ex (\<lambda>m. m v) ms \<longleftrightarrow> (\<exists>t \<in> set ts. cron_term_holds least t v)"
    using mapR_meaning [of ts "cron_item least (\<lambda>v. v)" cron_term_text "cron_term_holds least"] cron_item_meaning assms(2) by blast
  have "split_at (CHR '','') (join '','' (map cron_term_text ts)) = map cron_term_text ts"
    using assms(1) cron_term_text_free by (intro split_at_join) auto
  with ms show ?thesis by (simp add: parseCronMatcher_def)
qed

theorem cron_field_meaning_witness:
  "\<exists>m. parseCronMatcher ''0,9-17/2,*/30'' 0 59 (\<lambda>v. v) = Inr m \<and> m 30 \<and> m 11 \<and> \<not> m 12"
proof -
  let ?ts = "[Exactly 0, BetweenNth 9 17 2, EveryNth 30]"
  have "join '','' (map cron_term_text ?ts) = ''0,9-17/2,*/30''" by code_simp
  with cron_field_meaning [of ?ts 0 59] show ?thesis by auto
qed

section \<open>Two gaps\<close>

text \<open>Sunday may be written as 7, but not in a range: the days 1-7 leave Sunday out, while 7 alone and
  0-6 have it.\<close>

theorem sunday_in_range_never_matches:
  "\<exists>m m' m''. parseCronMatcher ''1-7'' 0 6 normalizeDayOfWeek = Inr m \<and> \<not> m 0 \<and> (\<forall>v. 1 \<le> v \<and> v \<le> 6 \<longrightarrow> m v)
     \<and> parseCronMatcher ''7'' 0 6 normalizeDayOfWeek = Inr m' \<and> m' 0 \<and> parseCronMatcher ''0-6'' 0 6 normalizeDayOfWeek = Inr m'' \<and> m'' 0"
proof -
  have numbers: "whole_number ''1'' = Some 1" "whole_number ''7'' = Some 7" "whole_number ''0'' = Some 0" "whole_number ''6'' = Some 6"
    by code_simp+
  have range: "parseCronMatcher ''1-7'' 0 6 normalizeDayOfWeek = Inr (\<lambda>v. 0 \<le> normalizeDayOfWeek v \<and> normalizeDayOfWeek v \<le> 6
      \<and> 1 \<le> normalizeDayOfWeek (normalizeDayOfWeek v) \<and> normalizeDayOfWeek (normalizeDayOfWeek v) \<le> 7)"
    "parseCronMatcher ''7'' 0 6 normalizeDayOfWeek = Inr (\<lambda>v. 0 \<le> normalizeDayOfWeek v \<and> normalizeDayOfWeek v \<le> 6
      \<and> normalizeDayOfWeek (normalizeDayOfWeek v) = normalizeDayOfWeek 7)"
    "parseCronMatcher ''0-6'' 0 6 normalizeDayOfWeek = Inr (\<lambda>v. 0 \<le> normalizeDayOfWeek v \<and> normalizeDayOfWeek v \<le> 6
      \<and> 0 \<le> normalizeDayOfWeek (normalizeDayOfWeek v) \<and> normalizeDayOfWeek (normalizeDayOfWeek v) \<le> 6)"
    by (simp_all add: parseCronMatcher_def cron_item_def Let_def digits_def is_digit_def digit_chars_def numbers numeral_2_eq_2)
  show ?thesis unfolding range by (auto simp: normalizeDayOfWeek_def)
qed

lemma day_of_minutes_after:
  assumes "minutes_after t m" and "0 \<le> t"
  shows "day_of t \<le> day_of m" "day_of m \<le> day_of t + 366"
proof -
  have "t div day_ms \<le> m div day_ms" using assms by (intro zdiv_mono1) (auto simp: minutes_after_def day_ms_def)
  moreover have "m div day_ms \<le> (t + 366 * day_ms) div day_ms" using assms by (intro zdiv_mono1) (auto simp: minutes_after_def day_ms_def)
  moreover have "(t + 366 * day_ms) div day_ms = t div day_ms + 366" by (simp add: day_ms_def)
  moreover have "0 \<le> t div day_ms" using assms(2) by (simp add: day_ms_def)
  ultimately show "day_of t \<le> day_of m" "day_of m \<le> day_of t + 366" unfolding day_of_def by linarith+
qed

definition leap_day_cron :: cron_fields where
  "leap_day_cron =
     \<lparr>cf_minute = (\<lambda>v. 0 \<le> v \<and> v \<le> 59 \<and> v = 0), cf_hour = (\<lambda>v. 0 \<le> v \<and> v \<le> 23 \<and> v = 0),
      cf_dayOfMonth = (\<lambda>v. 1 \<le> v \<and> v \<le> 31 \<and> v = 29), cf_month = (\<lambda>v. 1 \<le> v \<and> v \<le> 12 \<and> v = 2),
      cf_dayOfWeek = (\<lambda>v. 0 \<le> normalizeDayOfWeek v \<and> normalizeDayOfWeek v \<le> 6)\<rparr>"

lemma parse_leap_day: "parseCronExpression ''0 0 29 2 *'' = Inr leap_day_cron"
proof -
  have numbers: "whole_number ''0'' = Some 0" "whole_number ''29'' = Some 29" "whole_number ''2'' = Some 2" by code_simp+
  have parts: "cron_parts ''0 0 29 2 *'' = [''0'', ''0'', ''29'', ''2'', ''*'']" by code_simp
  have fields: "parseCronMatcher ''0'' a b (\<lambda>v. v) = Inr (\<lambda>v. a \<le> v \<and> v \<le> b \<and> v = 0)"
    "parseCronMatcher ''29'' a b (\<lambda>v. v) = Inr (\<lambda>v. a \<le> v \<and> v \<le> b \<and> v = 29)"
    "parseCronMatcher ''2'' a b (\<lambda>v. v) = Inr (\<lambda>v. a \<le> v \<and> v \<le> b \<and> v = 2)"
    "parseCronMatcher ''*'' a b f = Inr (\<lambda>v. a \<le> f v \<and> f v \<le> b)" for a b f
    by (simp_all add: parseCronMatcher_def cron_item_def Let_def numbers)
  show ?thesis by (simp add: parseCronExpression_def Let_def parts fields leap_day_cron_def)
qed

text \<open>A leap day more than a year ahead is out of reach: on the first of January 2026 the expression for
  29 February at midnight, which holds on 29 February 2028, is refused as having no next occurrence.\<close>

theorem leap_day_not_found:
  "computeNextCronOccurrence ''0 0 29 2 *'' ''2026-01-01T00:00:00.000Z''
     = Inl (JsError ''Unable to compute next cron occurrence: 0 0 29 2 *'')
   \<and> (\<exists>cron m. parseCronExpression ''0 0 29 2 *'' = Inr cron \<and> date_parse ''2028-02-29T00:00:00.000Z'' = Some m \<and> cron_matches cron m)"
proof
  have later: "date_parse ''2028-02-29T00:00:00.000Z'' = Some 1835395200000" by code_simp
  have "cron_matches leap_day_cron 1835395200000" by code_simp
  with later parse_leap_day show "\<exists>cron m. parseCronExpression ''0 0 29 2 *'' = Inr cron
      \<and> date_parse ''2028-02-29T00:00:00.000Z'' = Some m \<and> cron_matches cron m" by blast
  define t :: int where "t = 1767225600000"
  have now: "date_parse ''2026-01-01T00:00:00.000Z'' = Some t" unfolding t_def by code_simp
  have day: "day_of t = 20454" "0 \<le> t" by (simp_all add: t_def day_of_def day_ms_def)
  have starts: "month_start 671 = 20423" "month_start 685 = 20850" "days_in_month 673 = 28" by code_simp+
  have never: "\<not> cron_matches leap_day_cron m" if m: "minutes_after t m" for m
  proof
    assume matches: "cron_matches leap_day_cron m"
    obtain k d where kd: "month_from 0 (day_of m) = (k, d)" by (rule prod.exhaust)
    have d: "d = 28" "k mod 12 = 1" using matches by (auto simp: cron_matches_def kd leap_day_cron_def)
    have at: "month_start k + 28 = day_of m" "28 < days_in_month k" using month_from_sound [OF kd] d(1) by simp_all
    have near: "20454 \<le> day_of m" "day_of m \<le> 20820" using day_of_minutes_after [OF m day(2)] by (simp_all add: day(1))
    have "\<not> 685 \<le> k" using month_start_mono [of 685 k] starts at near by linarith
    moreover have "\<not> k \<le> 671" using month_start_mono [of k 671] starts at near by linarith
    ultimately have "k = 673" using d(2) by presburger
    with at(2) starts(3) show False by simp
  qed
  have "cron_loop leap_day_cron 0 (t div minute_ms * minute_ms + minute_ms) = None"
    using cron_loop_next [of leap_day_cron t] never by (cases "cron_loop leap_day_cron 0 (t div minute_ms * minute_ms + minute_ms)") (auto simp: next_match_def)
  then show "computeNextCronOccurrence ''0 0 29 2 *'' ''2026-01-01T00:00:00.000Z''
     = Inl (JsError ''Unable to compute next cron occurrence: 0 0 29 2 *'')"
    by (simp add: computeNextCronOccurrence_def parseTimestamp_def parse_leap_day now)
qed

end
