(* ===== verification/Scheduler_Properties.thy ===== *)
theory Scheduler_Properties
  imports Scheduler_Service Cron_Properties
begin

text \<open>
  What the scheduler keeps and promises: its collection holds valid schedules under their
  identifiers, every envelope it submits is one the ingress accepts as valid, and after a tick nothing
  is due any more. A schedule cancelled while it is being dispatched comes back to life.
\<close>

section \<open>Well-formed collections\<close>

definition schedules_ok :: "text_schemas \<Rightarrow> schedules \<Rightarrow> bool" where
  "schedules_ok sx c \<longleftrightarrow> distinct (obj_keys c) \<and> (\<forall>(k, s) \<in> set c. k = sd_id s \<and> schedule_valid sx s)"

lemma set_obj_set: "set (obj_set k v ob) \<subseteq> insert (k, v) (set ob)"
  by (induction ob) (auto split: if_splits)

lemma in_obj_set: "distinct (obj_keys ob) \<Longrightarrow> (k', v') \<in> set (obj_set k v ob) \<Longrightarrow> k' = k \<and> v' = v \<or> k' \<noteq> k \<and> (k', v') \<in> set ob"
proof (induction ob)
  case (Cons a ob)
  obtain k0 v0 where a: "a = (k0, v0)" by (cases a)
  with Cons.prems(1) have new: "(k0, w) \<notin> set ob" for w by (force simp: obj_keys_def)
  show ?case
  proof (cases "k0 = k")
    case True
    with Cons.prems new a show ?thesis by auto
  next
    case False
    with Cons a show ?thesis by (auto simp: obj_keys_def)
  qed
qed simp

lemma save_ok: "schedules_ok sx c \<Longrightarrow> schedules_ok sx (snd (save_schedule sx s c))"
  using set_obj_set [of "sd_id s" s c]
  by (auto simp: save_schedule_def schedules_ok_def doc_put_def distinct_keys_obj_set)

lemma cancel_ok: "schedules_ok sx c \<Longrightarrow> schedules_ok sx (snd (cancel_schedule sx i t c))"
  using save_ok by (auto simp: cancel_schedule_def bindS_def split: option.split prod.split sum.split) (metis snd_conv)+

text \<open>The state of the service and a property of the gateway that valid envelopes keep.\<close>

definition service_ok :: "text_schemas \<Rightarrow> ('g \<Rightarrow> bool) \<Rightarrow> 'g scheduler \<Rightarrow> bool" where
  "service_ok sx G st \<longleftrightarrow> schedules_ok sx (sc_schedules st) \<and> G (sc_gateway st)"

definition gateway_keeps :: "'g sched_deps \<Rightarrow> ('g \<Rightarrow> bool) \<Rightarrow> bool" where
  "gateway_keeps deps G \<longleftrightarrow> (\<forall>e g. envelope_valid (sh_schemas deps) e \<longrightarrow> G g \<longrightarrow> G (snd (sh_submit deps e g)))"

definition good_identifiers :: "'g sched_deps \<Rightarrow> bool" where
  "good_identifiers deps \<longleftrightarrow> (\<forall>n. sx_uuid (sh_schemas deps) (sh_uuid deps n)) \<and> \<not> sx_uuid (sh_schemas deps) []"

lemma keeps_on_schedules:
  "(\<And>c. schedules_ok sx c \<Longrightarrow> schedules_ok sx (snd (m c))) \<Longrightarrow> keeps (service_ok sx G) (on_schedules m)"
  by (simp add: keeps_def service_ok_def on_schedules_def split_beta)

lemma keeps_save [keeps_intros]: "keeps (service_ok (sh_schemas deps) G) (save deps s)"
  unfolding save_def by (intro keeps_on_schedules save_ok)

lemma keeps_cancel [keeps_intros]: "keeps (service_ok (sh_schemas deps) G) (cancel deps i)"
  unfolding cancel_def by (intro keeps_on_schedules cancel_ok)

lemma keeps_draw [keeps_intros]: "keeps (service_ok sx G) (draw deps)"
  by (simp add: keeps_def service_ok_def draw_def)

lemma keeps_submit:
  "gateway_keeps deps G \<Longrightarrow> envelope_valid (sh_schemas deps) e \<Longrightarrow> keeps (service_ok sx G) (submit_to_gateway deps e)"
  by (force simp: keeps_def service_ok_def submit_to_gateway_def gateway_keeps_def split: prod.split)

lemma keeps_option [keeps_intros]: "keeps P m \<Longrightarrow> (\<And>x. keeps P (f x)) \<Longrightarrow> keeps P (case y of None \<Rightarrow> m | Some x \<Rightarrow> f x)"
  by (cases y) simp_all

lemma keeps_register: "keeps (service_ok (sh_schemas deps) G) (register_schedule deps s)"
  unfolding register_schedule_def Let_def by (intro keeps_intros)

lemma keeps_upsert: "keeps (service_ok (sh_schemas deps) G) (upsert_schedule deps u)"
  unfolding upsert_schedule_def Let_def by (intro keeps_intros)

lemma keeps_reconcile: "keeps (service_ok (sh_schemas deps) G) (reconcile deps t ss)"
proof (induction ss)
  case (Cons s ss)
  then show ?case by (cases "needs_due_time s") (auto simp del: op_simps intro!: keeps_intros)
qed (simp add: keeps_intros del: op_simps)

section \<open>Envelopes\<close>

lemma scheduled_envelope_ok:
  assumes "schedule_valid sx s" and "sx_uuid sx triggerId" and "nonce \<noteq> []" and "\<not> sx_uuid sx []"
    and "sx_datetime sx occurred" and "sx_datetime sx received"
  shows "envelope_valid sx (buildScheduledEnvelope sha256 triggerId nonce s occurred received)"
  using assms by (cases "sd_workflowDefinitionId s"; cases "sd_taskDefinitionId s")
    (auto simp: envelope_valid_def buildScheduledEnvelope_def schedule_valid_def min_one_def exactly_one_def all_opt_def buildPayloadRef_def)

definition events_valid :: "text_schemas \<Rightarrow> event_input \<Rightarrow> bool" where
  \<comment> \<open>what an event must have for its envelope to be valid\<close>
  "events_valid sx i \<longleftrightarrow> sx_uuid sx (ev_projectId i) \<and> ev_sourceId i \<noteq> [] \<and> sx_workmode sx (ev_workmodeId i) \<and> ev_eventName i \<noteq> []
     \<and> ev_idempotencyKey i \<noteq> [] \<and> all_opt (sx_datetime sx) (ev_occurredAt i)"

lemma keeps_submit_due:
  assumes "gateway_keeps deps G" and "good_identifiers deps" and "schedule_valid (sh_schemas deps) s" and "sx_datetime (sh_schemas deps) t"
  shows "keeps (service_ok (sh_schemas deps) G) (submit_due deps t s)"
proof -
  have due: "sx_datetime (sh_schemas deps) (getOr (sd_nextDueAt s) t)"
    using assms(3,4) by (cases "sd_nextDueAt s") (auto simp: schedule_valid_def all_opt_def)
  have "keeps (service_ok (sh_schemas deps) G) (bindS (draw deps) f)"
    if "\<And>n. keeps (service_ok (sh_schemas deps) G) (f (sh_uuid deps n))" for f :: "string \<Rightarrow> ('a scheduler, 'b) op"
    using that by (fastforce simp: keeps_def bindS_def draw_def service_ok_def)
  note draws = this
  have "sh_uuid deps n \<noteq> []" for n using assms(2) unfolding good_identifiers_def by metis
  then show ?thesis unfolding submit_due_def
    using assms due by (intro draws keeps_submit scheduled_envelope_ok) (auto simp: good_identifiers_def)
qed

lemma keeps_dispatch_loop:
  assumes "gateway_keeps deps G" and "good_identifiers deps" and "\<forall>s \<in> set ss. schedule_valid (sh_schemas deps) s" and "sx_datetime (sh_schemas deps) t"
  shows "keeps (service_ok (sh_schemas deps) G) (dispatch_loop deps t ss)"
  using assms(3)
proof (induction ss)
  case (Cons s ss)
  then show ?case using keeps_submit_due [OF assms(1,2) _ assms(4), of s]
    by (auto simp: record_dispatch_def simp del: op_simps intro!: keeps_intros)
qed (simp add: keeps_intros del: op_simps)

lemma listAll_valid: "s \<in> set (listAll sx c) \<Longrightarrow> schedule_valid sx s"
  by (simp add: listAll_def)

lemma listDue_valid: "listDue sx t c = Inr ss \<Longrightarrow> \<forall>s \<in> set ss. schedule_valid sx s"
  using listAll_valid by (auto simp: listDue_def split: option.splits)

lemma keeps_after_gets: "(\<And>st. P st \<Longrightarrow> keeps P (m (f st))) \<Longrightarrow> keeps P (bindS (getsS f) m)"
  by (simp add: keeps_def)

lemma keeps_dispatch_due:
  assumes "gateway_keeps deps G" and "good_identifiers deps" and "sx_datetime (sh_schemas deps) t"
  shows "keeps (service_ok (sh_schemas deps) G) (dispatchDueSchedules deps t)"
  unfolding dispatchDueSchedules_def reconcileTimeSchedules_def
proof (rule keeps_bindS)
  show "keeps (service_ok (sh_schemas deps) G) (bindS (getsS (\<lambda>st. listAll (sh_schemas deps) (sc_schedules st))) (reconcile deps t))"
    by (intro keeps_intros keeps_reconcile)
  fix u :: unit
  show "keeps (service_ok (sh_schemas deps) G)
      (bindS (getsS (\<lambda>st. listDue (sh_schemas deps) t (sc_schedules st))) (\<lambda>due. bindS (liftR due) (dispatch_loop deps t)))"
  proof (rule keeps_after_gets)
    fix st :: "'a scheduler"
    show "keeps (service_ok (sh_schemas deps) G) (bindS (liftR (listDue (sh_schemas deps) t (sc_schedules st))) (dispatch_loop deps t))"
    proof (cases "listDue (sh_schemas deps) t (sc_schedules st)")
      case (Inl e)
      then show ?thesis by (simp add: keeps_intros del: op_simps)
    next
      case (Inr ss)
      with keeps_dispatch_loop [OF assms(1,2) listDue_valid [OF Inr] assms(3)] show ?thesis by simp
    qed
  qed
qed

definition workflows_named :: "'g sched_deps \<Rightarrow> bool" where
  "workflows_named deps \<longleftrightarrow>
     (\<forall>p config wc d. sh_project deps p = Inr (Some config) \<longrightarrow> pc_workflow config = Some wc \<longrightarrow> d \<in> set (wc_definitions wc) \<longrightarrow> wd_id d \<noteq> [])"

lemma resolved_workflow_named:
  assumes "workflows_named deps" and "sh_project deps p = Inr (Some config)" and "resolveWorkflowDefinitionId config wanted = Inr w"
  shows "w \<noteq> []"
proof -
  obtain wc where wc: "pc_workflow config = Some wc" using assms(3) by (auto simp: resolveWorkflowDefinitionId_def Let_def split: option.splits)
  have "\<forall>d \<in> set (wc_definitions wc). wd_id d \<noteq> []" using assms(1,2) wc unfolding workflows_named_def by blast
  then show ?thesis using assms(3) wc
    by (cases wanted; cases "wc_defaultWorkflowDefinitionId wc") (auto simp: resolveWorkflowDefinitionId_def Let_def split: if_splits list.splits)
qed

lemma event_envelope_ok:
  assumes "events_valid sx i" and "sx_uuid sx triggerId" and "nonce \<noteq> []" and "sx_datetime sx now" and "w \<noteq> []"
  shows "envelope_valid sx (buildEventEnvelope sha256 triggerId nonce now triggerType w i)"
  using assms by (cases "ev_occurredAt i") (auto simp: events_valid_def envelope_valid_def buildEventEnvelope_def min_one_def exactly_one_def all_opt_def buildPayloadRef_def)

lemma keeps_event:
  assumes "gateway_keeps deps G" and "good_identifiers deps" and "workflows_named deps" and "events_valid (sh_schemas deps) i"
    and "sx_datetime (sh_schemas deps) (sh_now deps)"
  shows "keeps (service_ok (sh_schemas deps) G) (dispatchEvent deps triggerType i)"
proof (cases "load_project deps (ev_projectId i)")
  case (Inl e)
  then show ?thesis by (simp add: dispatchEvent_def keeps_intros del: op_simps)
next
  case (Inr config)
  then have project: "sh_project deps (ev_projectId i) = Inr (Some config)" by (auto simp: load_project_def bindR_Inr_iff split: option.splits)
  show ?thesis
  proof (cases "resolveWorkflowDefinitionId config (ev_workflowDefinitionId i)")
    case (Inl e)
    with Inr show ?thesis by (simp add: dispatchEvent_def keeps_intros del: op_simps)
  next
    case w: (Inr w)
    have named: "w \<noteq> []" by (rule resolved_workflow_named [OF assms(3) project w])
    have ids: "sx_uuid (sh_schemas deps) (sh_uuid deps n)" "sh_uuid deps n \<noteq> []" for n
      using assms(2) unfolding good_identifiers_def by metis+
    have "keeps (service_ok (sh_schemas deps) G) (submit_to_gateway deps
        (buildEventEnvelope (sh_sha256 deps) (sh_uuid deps n) (sh_uuid deps m) (sh_now deps) triggerType w i))" for n m
      using assms ids named by (intro keeps_submit event_envelope_ok) auto
    with Inr w show ?thesis by (simp add: dispatchEvent_def keeps_def bindS_def draw_def service_ok_def)
  qed
qed

datatype sched_call =
    CallRegister schedule | CallUpsert upsert_input | CallCancel string | CallTick string
  | CallHook event_input | CallSystemEvent event_input

definition ignore :: "('s, 'a) op \<Rightarrow> ('s, unit) op" where
  "ignore m = bindS m (\<lambda>x. returnS ())"

fun perform_call :: "'g sched_deps \<Rightarrow> sched_call \<Rightarrow> ('g scheduler, unit) op" where
  "perform_call deps (CallRegister s) = ignore (register_schedule deps s)"
| "perform_call deps (CallUpsert u) = ignore (upsert_schedule deps u)"
| "perform_call deps (CallCancel i) = ignore (cancel deps i)"
| "perform_call deps (CallTick t) = ignore (dispatchDueSchedules deps t)"
| "perform_call deps (CallHook i) = ignore (dispatchHookTrigger deps i)"
| "perform_call deps (CallSystemEvent i) = ignore (dispatchSystemEvent deps i)"

definition run_calls :: "'g sched_deps \<Rightarrow> sched_call list \<Rightarrow> 'g scheduler \<Rightarrow> 'g scheduler" where
  \<comment> \<open>calls one after another, whether they return or throw\<close>
  "run_calls deps cs st = fold (\<lambda>c st. snd (perform_call deps c st)) cs st"

definition new_scheduler :: "'g \<Rightarrow> 'g scheduler" where
  "new_scheduler g = \<lparr>sc_schedules = [], sc_gateway = g, sc_fresh = 0\<rparr>"

fun call_typed :: "'g sched_deps \<Rightarrow> sched_call \<Rightarrow> bool" where
  "call_typed deps (CallTick t) = sx_datetime (sh_schemas deps) t"
| "call_typed deps (CallHook i) = (events_valid (sh_schemas deps) i \<and> sx_datetime (sh_schemas deps) (sh_now deps))"
| "call_typed deps (CallSystemEvent i) = (events_valid (sh_schemas deps) i \<and> sx_datetime (sh_schemas deps) (sh_now deps))"
| "call_typed deps c = True"

lemma keeps_ignore: "keeps P m \<Longrightarrow> keeps P (ignore m)"
  unfolding ignore_def by (intro keeps_intros)

lemma keeps_call:
  assumes "gateway_keeps deps G" and "good_identifiers deps" and "workflows_named deps" and "call_typed deps c"
  shows "keeps (service_ok (sh_schemas deps) G) (perform_call deps c)"
  using assms by (cases c)
    (auto simp: dispatchHookTrigger_def dispatchSystemEvent_def intro!: keeps_ignore keeps_register keeps_upsert keeps_cancel keeps_dispatch_due keeps_event)

text \<open>The collection stays well formed whatever is submitted to whatever gateway.\<close>

abbreviation stored_ok :: "'g sched_deps \<Rightarrow> 'g scheduler \<Rightarrow> bool" where
  "stored_ok deps \<equiv> service_ok (sh_schemas deps) (\<lambda>g. True)"

lemma stored_submit: "keeps (stored_ok deps) (submit_to_gateway deps e)"
  by (simp add: keeps_def service_ok_def submit_to_gateway_def split: prod.split)

lemma stored_loop: "keeps (stored_ok deps) (dispatch_loop deps t ss)"
  by (induction ss) (auto simp: submit_due_def record_dispatch_def simp del: op_simps intro!: keeps_intros stored_submit)

lemma stored_dispatch_due: "keeps (stored_ok deps) (dispatchDueSchedules deps t)"
  unfolding dispatchDueSchedules_def reconcileTimeSchedules_def by (intro keeps_intros keeps_reconcile stored_loop)

lemma stored_event: "keeps (stored_ok deps) (dispatchEvent deps triggerType i)"
  unfolding dispatchEvent_def by (intro keeps_intros stored_submit)

lemma stored_call: "keeps (stored_ok deps) (perform_call deps c)"
  by (cases c)
    (auto simp: dispatchHookTrigger_def dispatchSystemEvent_def
      intro!: keeps_ignore keeps_register keeps_upsert keeps_cancel stored_dispatch_due stored_event)

lemma keeps_run_calls:
  assumes "\<And>c. c \<in> set cs \<Longrightarrow> keeps P (perform_call deps c)" and "P st"
  shows "P (run_calls deps cs st)"
  unfolding run_calls_def using assms by (induction cs arbitrary: st) (simp_all add: keeps_def)

lemma new_scheduler_ok: "service_ok sx G (new_scheduler g) \<longleftrightarrow> G g"
  by (simp add: service_ok_def new_scheduler_def schedules_ok_def obj_keys_def)

text \<open>C17: Whatever the scheduler is asked, and whether the calls return or throw, every stored schedule is
  valid and stored under its identifier. If the times of its ticks and the fields a caller supplies
  for a hook or a system event (project, source, workmode, event name, key, time) are valid ones, every
  envelope it submits is one the ingress validator accepts: a property of the gateway that valid
  envelopes keep is kept.\<close>

theorem scheduler_well_typed:
  "schedules_ok (sh_schemas deps) (sc_schedules (run_calls deps cs (new_scheduler g))) \<and>
   (gateway_keeps deps G \<longrightarrow> G g \<longrightarrow> good_identifiers deps \<longrightarrow> workflows_named deps \<longrightarrow> (\<forall>c \<in> set cs. call_typed deps c) \<longrightarrow>
      G (sc_gateway (run_calls deps cs (new_scheduler g))))"
proof (intro conjI impI)
  from keeps_run_calls [of cs "stored_ok deps" deps "new_scheduler g", OF stored_call]
  show "schedules_ok (sh_schemas deps) (sc_schedules (run_calls deps cs (new_scheduler g)))"
    by (simp add: new_scheduler_ok) (simp add: service_ok_def)
  assume "gateway_keeps deps G" "G g" "good_identifiers deps" "workflows_named deps" "\<forall>c \<in> set cs. call_typed deps c"
  then have "service_ok (sh_schemas deps) G (run_calls deps cs (new_scheduler g))"
    using keeps_run_calls [of cs "service_ok (sh_schemas deps) G" deps "new_scheduler g"] keeps_call [of deps G]
    by (simp add: new_scheduler_ok)
  then show "G (sc_gateway (run_calls deps cs (new_scheduler g)))" by (simp add: service_ok_def)
qed

section \<open>After a tick\<close>

lemma computed_next:
  assumes "computeNextCronOccurrence c fromIso = Inr d" and "date_parse fromIso = Some t"
  obtains cron m where "d = toISOString m" "next_match cron t m"
proof -
  obtain cron where "parseCronExpression c = Inr cron" using assms(1) by (auto simp: computeNextCronOccurrence_def bindR_Inr_iff)
  with assms obtain m where "cron_loop cron 0 (t div minute_ms * minute_ms + minute_ms) = Some m" "d = toISOString m"
    by (auto simp: computeNextCronOccurrence_def parseTimestamp_def split: option.splits)
  with cron_loop_next that show thesis by blast
qed

definition calendar_ok :: "int \<Rightarrow> bool" where
  \<comment> \<open>from 1970, and a year before the end of the year 9999\<close>
  "calendar_ok t \<longleftrightarrow> 0 \<le> t \<and> month_of_day (day_of t + 366) < 12 * 8030"

lemma month_of_day_mono: "d \<le> d' \<Longrightarrow> month_of_day d \<le> month_of_day d'"
proof (rule ccontr)
  assume "d \<le> d'" "\<not> month_of_day d \<le> month_of_day d'"
  then have "month_start (Suc (month_of_day d')) \<le> month_start (month_of_day d)" by (intro month_start_mono) simp
  with month_of_day_bounds [of d] month_of_day_bounds [of d'] \<open>d \<le> d'\<close> show False by linarith
qed

lemma next_date:
  assumes "computeNextCronOccurrence c fromIso = Inr d" and "date_parse fromIso = Some t" and "calendar_ok t"
  obtains m where "date_parse d = Some m" "t < m"
proof -
  obtain cron m where m: "d = toISOString m" "next_match cron t m" using computed_next [OF assms(1,2)] .
  then have after: "minutes_after t m" by (simp add: next_match_def)
  have "day_of m \<le> day_of t + 366" using day_of_minutes_after [OF after] assms(3) by (simp add: calendar_ok_def)
  then have "month_of_day (day_of m) < 12 * 8030" using month_of_day_mono assms(3) unfolding calendar_ok_def by (meson le_less_trans)
  moreover have "t < m" using after by (simp add: minutes_after_def)
  ultimately show thesis using that [of m] date_parse_iso [of m] assms(3) m(1) by (simp add: calendar_ok_def)
qed

lemma advanced_not_due:
  assumes "advanceAfterSubmission s ref outcome = Inr u" and "date_parse ref = Some t" and "calendar_ok t" and "time_trigger (sd_trigger s)"
  shows "sd_id u = sd_id s" and "\<not> is_due t u"
proof -
  show "sd_id u = sd_id s" using assms(1) by (auto simp: advanceAfterSubmission_def Let_def bindR_Inr_iff split: schedule_trigger.splits)
  show "\<not> is_due t u"
  proof (cases "sd_trigger s")
    case (CronTrigger c zone)
    with assms(1) obtain d where d: "computeNextCronOccurrence c ref = Inr d" "sd_nextDueAt u = Some d"
      by (auto simp: advanceAfterSubmission_def Let_def bindR_Inr_iff)
    from next_date [OF d(1) assms(2,3)] obtain m where "date_parse d = Some m" "t < m" .
    then show ?thesis by (simp add: is_due_def d(2))
  qed (use assms in \<open>auto simp: advanceAfterSubmission_def is_due_def\<close>)
qed

definition due_within :: "int \<Rightarrow> schedule set \<Rightarrow> schedules \<Rightarrow> bool" where
  "due_within t S c \<longleftrightarrow> (\<forall>(k, s) \<in> set c. is_due t s \<longrightarrow> s \<in> S)"

lemma due_within_put:
  assumes "schedules_ok sx c" and "due_within t (set (s # ss)) c" and "sd_id u = sd_id s" and "\<not> is_due t u"
  shows "due_within t (set ss) (doc_put (sd_id u) u c)"
  unfolding due_within_def
proof (intro ballI, clarify)
  fix k x
  assume x: "(k, x) \<in> set (doc_put (sd_id u) u c)" "is_due t x"
  then have other: "k \<noteq> sd_id u" "(k, x) \<in> set c"
    using in_obj_set [of c k x "sd_id u" u] assms(1,4) by (auto simp: doc_put_def schedules_ok_def)
  with assms(1) have "x \<noteq> s" by (auto simp: schedules_ok_def assms(3))
  with assms(2) other(2) x(2) show "x \<in> set ss" by (auto simp: due_within_def)
qed

lemma submit_keeps_schedules: "sc_schedules (snd (submit_due deps ref s st)) = sc_schedules st"
  by (simp add: submit_due_def bindS_def draw_def submit_to_gateway_def split: prod.split)

lemma record_dispatch_InrD:
  assumes "record_dispatch deps ref s outcome st = (Inr row, st')"
  obtains u where "advanceAfterSubmission s ref outcome = Inr u" "row = (u, outcome)" "schedule_valid (sh_schemas deps) u"
    "sc_schedules st' = doc_put (sd_id u) u (sc_schedules st)"
proof (cases "advanceAfterSubmission s ref outcome")
  case (Inr u)
  with assms that show thesis
    by (auto simp: record_dispatch_def bindS_def save_def on_schedules_def save_schedule_def split: if_splits prod.splits)
qed (use assms in \<open>simp add: record_dispatch_def\<close>)

lemma dispatch_loop_clears:
  assumes "dispatch_loop deps ref ss st = (Inr rows, st')" and "date_parse ref = Some t" and "calendar_ok t"
    and "schedules_ok (sh_schemas deps) (sc_schedules st)" and "due_within t (set ss) (sc_schedules st)" and "\<forall>s \<in> set ss. time_trigger (sd_trigger s)"
  shows "due_within t {} (sc_schedules st') \<and> map (\<lambda>row. sd_id (fst row)) rows = map sd_id ss"
  using assms(1,4-6)
proof (induction ss arbitrary: st rows)
  case (Cons s ss)
  from Cons.prems(1) obtain outcome st1 where o: "submit_due deps ref s st = (Inr outcome, st1)"
    and r1: "bindS (record_dispatch deps ref s outcome) (\<lambda>row. bindS (dispatch_loop deps ref ss) (\<lambda>rows. returnS (row # rows))) st1 = (Inr rows, st')"
    by (auto elim: bindS_InrE)
  from r1 obtain row st2 where row: "record_dispatch deps ref s outcome st1 = (Inr row, st2)"
    and r2: "bindS (dispatch_loop deps ref ss) (\<lambda>rows. returnS (row # rows)) st2 = (Inr rows, st')"
    by (rule bindS_InrE)
  from r2 obtain more where more: "dispatch_loop deps ref ss st2 = (Inr more, st')" "rows = row # more"
    by (rule bindS_InrE) auto
  obtain u where u: "advanceAfterSubmission s ref outcome = Inr u" "row = (u, outcome)" "schedule_valid (sh_schemas deps) u"
    "sc_schedules st2 = doc_put (sd_id u) u (sc_schedules st1)" using record_dispatch_InrD [OF row] .
  have st1: "sc_schedules st1 = sc_schedules st" using submit_keeps_schedules [of deps ref s st] by (simp add: o)
  note adv = advanced_not_due [OF u(1) assms(2,3)]
  have time: "time_trigger (sd_trigger s)" using Cons.prems(4) by simp
  have "schedules_ok (sh_schemas deps) (sc_schedules st2)"
    using save_ok [OF Cons.prems(2), of u] u(3) by (simp add: u(4) st1 save_schedule_def)
  moreover have "due_within t (set ss) (sc_schedules st2)"
    unfolding u(4) st1 by (rule due_within_put [OF Cons.prems(2,3) adv [OF time]])
  ultimately have "due_within t {} (sc_schedules st') \<and> map (\<lambda>row. sd_id (fst row)) more = map sd_id ss"
    using Cons.prems(4) by (intro Cons.IH [OF more(1)]) auto
  then show ?case using adv(1) [OF time] by (simp add: more(2) u(2))
qed simp

lemma in_listAll: "s \<in> set (listAll sx c) \<longleftrightarrow> s \<in> set (obj_values c) \<and> schedule_valid sx s"
  by (auto simp: listAll_def doc_query_def)

lemma in_values: "s \<in> set (obj_values c) \<longleftrightarrow> (\<exists>k. (k, s) \<in> set c)"
  by (force simp: obj_values_def)

text \<open>What a tick submits.\<close>

definition scheduled_from :: "'g sched_deps \<Rightarrow> string \<Rightarrow> schedule \<Rightarrow> trigger_envelope \<Rightarrow> bool" where
  \<comment> \<open>an envelope of the schedule, for its due time\<close>
  "scheduled_from deps ref s e \<longleftrightarrow>
     (\<exists>triggerId nonce. e = buildScheduledEnvelope (sh_sha256 deps) triggerId nonce s (getOr (sd_nextDueAt s) ref) ref)"

fun submit_all :: "'g sched_deps \<Rightarrow> trigger_envelope list \<Rightarrow> 'g \<Rightarrow> (dispatch_outcome list \<times> 'g) option" where
  \<comment> \<open>the answers of the gateway to exactly these envelopes, one after another\<close>
  "submit_all deps [] g = Some ([], g)"
| "submit_all deps (e # es) g =
     (case sh_submit deps e g of
        (Inl err, g') \<Rightarrow> None
      | (Inr outcome, g') \<Rightarrow> map_option (\<lambda>(outcomes, g''). (outcome # outcomes, g'')) (submit_all deps es g'))"

lemma submit_due_envelope:
  "\<exists>e r. scheduled_from deps ref s e \<and> sh_submit deps e (sc_gateway st) = (r, sc_gateway (snd (submit_due deps ref s st)))
     \<and> fst (submit_due deps ref s st) = r"
  by (auto simp: submit_due_def bindS_def draw_def submit_to_gateway_def scheduled_from_def split: prod.split)

lemma dispatch_loop_submits:
  assumes "dispatch_loop deps ref ss st = (Inr rows, st')"
  shows "\<exists>es. list_all2 (scheduled_from deps ref) ss es \<and> submit_all deps es (sc_gateway st) = Some (map snd rows, sc_gateway st')"
  using assms
proof (induction ss arbitrary: st rows)
  case (Cons s ss)
  from Cons.prems obtain outcome st1 row st2 more where o: "submit_due deps ref s st = (Inr outcome, st1)"
    and row: "record_dispatch deps ref s outcome st1 = (Inr row, st2)"
    and more: "dispatch_loop deps ref ss st2 = (Inr more, st')" "rows = row # more"
    by (auto elim!: bindS_InrE)
  have "snd row = outcome" "sc_gateway st2 = sc_gateway st1"
    using row by (auto simp: record_dispatch_def save_def on_schedules_def elim!: bindS_InrE split: prod.splits)
  moreover obtain e where "scheduled_from deps ref s e" "sh_submit deps e (sc_gateway st) = (Inr outcome, sc_gateway st1)"
    using submit_due_envelope [of deps ref s st] o by auto
  moreover obtain es where "list_all2 (scheduled_from deps ref) ss es"
      "submit_all deps es (sc_gateway st2) = Some (map snd more, sc_gateway st')"
    using Cons.IH [OF more(1)] by blast
  ultimately show ?case by (intro exI [of _ "e # es"]) (simp add: more(2))
qed simp

lemma reconcile_gateway: "keeps (\<lambda>st. sc_gateway st = g) (reconcileTimeSchedules deps ref)"
proof -
  have "keeps (\<lambda>st. sc_gateway st = g) (save deps s)" for s
    by (simp add: keeps_def save_def on_schedules_def split_beta)
  then have "keeps (\<lambda>st. sc_gateway st = g) (reconcile deps ref ss)" for ss
    by (induction ss) (auto simp del: op_simps intro!: keeps_intros)
  then show ?thesis unfolding reconcileTimeSchedules_def by (intro keeps_intros)
qed

lemma due_ids_distinct:
  assumes "schedules_ok sx c" and "listDue sx ref c = Inr due"
  shows "distinct (map sd_id due)"
proof -
  have "map sd_id (obj_values c) = obj_keys c"
    using assms(1) by (auto simp: schedules_ok_def obj_values_def obj_keys_def)
  then have "distinct (map sd_id (obj_values c))" using assms(1) by (simp add: schedules_ok_def)
  then have "distinct (map sd_id (filter (is_due t) (listAll sx c)))" for t
    by (simp add: listAll_def doc_query_def distinct_map_filter)
  moreover have "mset (map sd_id due) = mset (map sd_id (filter (is_due t) (listAll sx c)))" if "date_parse ref = Some t" for t
    using assms(2) that by (auto simp: listDue_def)
  ultimately show ?thesis
    using assms(2) by (auto simp: listDue_def mset_eq_imp_distinct_iff split: option.splits)
qed

text \<open>C19: A tick that returns submits the schedules due after its reconciliation to the gateway, in the
  order of their due times, each of them once, and nothing else; its answer has a row per due
  schedule with what the gateway answered. After it no schedule is due at its time any more.\<close>

theorem tick_leaves_nothing_due:
  assumes "dispatchDueSchedules deps ref st = (Inr rows, st')" and "schedules_ok (sh_schemas deps) (sc_schedules st)"
    and "date_parse ref = Some t" and "calendar_ok t"
  shows "listDue (sh_schemas deps) ref (sc_schedules st') = Inr []
    \<and> (\<exists>st1 due es. reconcileTimeSchedules deps ref st = (Inr (), st1) \<and> listDue (sh_schemas deps) ref (sc_schedules st1) = Inr due
        \<and> distinct (map sd_id due) \<and> map (\<lambda>row. sd_id (fst row)) rows = map sd_id due
        \<and> list_all2 (scheduled_from deps ref) due es
        \<and> submit_all deps es (sc_gateway st) = Some (map snd rows, sc_gateway st'))"
proof -
  from assms(1) obtain st1 where st1: "reconcileTimeSchedules deps ref st = (Inr (), st1)"
    and rest: "bindS (getsS (\<lambda>st. listDue (sh_schemas deps) ref (sc_schedules st))) (\<lambda>due. bindS (liftR due) (dispatch_loop deps ref)) st1 = (Inr rows, st')"
    unfolding dispatchDueSchedules_def by (rule bindS_InrE) auto
  define due where "due = js_sort by_due (filter (is_due t) (listAll (sh_schemas deps) (sc_schedules st1)))"
  have due: "listDue (sh_schemas deps) ref (sc_schedules st1) = Inr due" by (simp add: listDue_def assms(3) due_def)
  with rest have loop: "dispatch_loop deps ref due st1 = (Inr rows, st')" by simp
  have "keeps (stored_ok deps) (reconcileTimeSchedules deps ref)"
    unfolding reconcileTimeSchedules_def by (intro keeps_intros keeps_reconcile)
  then have ok: "schedules_ok (sh_schemas deps) (sc_schedules st1)"
    using assms(2) st1 unfolding keeps_def service_ok_def by (metis snd_conv)
  then have valid: "(k, s) \<in> set (sc_schedules st1) \<Longrightarrow> schedule_valid (sh_schemas deps) s" for k s by (auto simp: schedules_ok_def)
  have "due_within t (set due) (sc_schedules st1)" using valid by (auto simp: due_within_def due_def in_listAll in_values)
  moreover have "\<forall>s \<in> set due. time_trigger (sd_trigger s)" by (auto simp: due_def is_due_def)
  ultimately have cleared: "due_within t {} (sc_schedules st')" and rows: "map (\<lambda>row. sd_id (fst row)) rows = map sd_id due"
    using dispatch_loop_clears [OF loop assms(3,4) ok] by blast+
  from cleared have "filter (is_due t) (listAll (sh_schemas deps) (sc_schedules st')) = []"
    by (auto simp: due_within_def filter_empty_conv in_listAll in_values)
  moreover have "sc_gateway st1 = sc_gateway st"
    using reconcile_gateway [of "sc_gateway st" deps ref] st1 by (auto simp: keeps_def dest: spec [of _ st])
  moreover obtain es where "list_all2 (scheduled_from deps ref) due es"
      "submit_all deps es (sc_gateway st1) = Some (map snd rows, sc_gateway st')"
    using dispatch_loop_submits [OF loop] by blast
  ultimately have "listDue (sh_schemas deps) ref (sc_schedules st') = Inr []"
    "list_all2 (scheduled_from deps ref) due es" "submit_all deps es (sc_gateway st) = Some (map snd rows, sc_gateway st')"
    by (simp_all add: listDue_def assms(3))
  with st1 due rows due_ids_distinct [OF ok due] show ?thesis
    by (intro conjI exI [of _ st1] exI [of _ due] exI [of _ es])
qed

section \<open>A cancellation that is lost\<close>

text \<open>C33: An enabled cron schedule cancelled while its envelope is being submitted is not cancelled: what is recorded
  after the answer comes from the schedule as it was read before, so once the dispatch is recorded the schedule is enabled
  again, with a next due time.\<close>

theorem cancelled_during_dispatch_revives:
  assumes "submit_due deps ref s st = (Inr outcome, st1)" and "cancel deps (sd_id s) st1 = (Inr True, st2)"
    and "record_dispatch deps ref s outcome st2 = (Inr row, st3)" and "sd_enabled s" and "sd_trigger s = CronTrigger c zone"
    and "schedules_ok (sh_schemas deps) (sc_schedules st)"
  shows "(\<exists>x. get_schedule (sh_schemas deps) (sd_id s) (sc_schedules st2) = Some x \<and> \<not> sd_enabled x)
    \<and> (\<exists>x. get_schedule (sh_schemas deps) (sd_id s) (sc_schedules st3) = Some x \<and> sd_enabled x \<and> sd_nextDueAt x \<noteq> None)"
proof
  have st1: "sc_schedules st1 = sc_schedules st" using submit_keeps_schedules [of deps ref s st] by (simp add: assms(1))
  from assms(2) obtain c2 where c2: "cancel_schedule (sh_schemas deps) (sd_id s) (sh_now deps) (sc_schedules st) = (Inr True, c2)"
    "sc_schedules st2 = c2" by (auto simp: cancel_def on_schedules_def st1 split: prod.splits)
  then obtain old where old: "get_schedule (sh_schemas deps) (sd_id s) (sc_schedules st) = Some old"
    by (cases "get_schedule (sh_schemas deps) (sd_id s) (sc_schedules st)") (auto simp: cancel_schedule_def)
  then have "(sd_id s, old) \<in> set (sc_schedules st)"
    by (auto simp: get_schedule_def doc_get_def obj_get_def dest: map_of_SomeD split: option.splits if_splits)
  then have "sd_id old = sd_id s" using assms(6) by (auto simp: schedules_ok_def)
  with c2 old have "sc_schedules st2 = doc_put (sd_id s) (old\<lparr>sd_enabled := False, sd_nextDueAt := None, sd_updatedAt := sh_now deps\<rparr>) (sc_schedules st)"
    "schedule_valid (sh_schemas deps) (old\<lparr>sd_enabled := False, sd_nextDueAt := None, sd_updatedAt := sh_now deps\<rparr>)"
    by (auto simp: cancel_schedule_def bindS_def save_schedule_def split: if_splits)
  then have "get_schedule (sh_schemas deps) (sd_id s) (sc_schedules st2) = Some (old\<lparr>sd_enabled := False, sd_nextDueAt := None, sd_updatedAt := sh_now deps\<rparr>)"
    by (simp add: get_schedule_def doc_get_def doc_put_def)
  then show "\<exists>x. get_schedule (sh_schemas deps) (sd_id s) (sc_schedules st2) = Some x \<and> \<not> sd_enabled x" by (intro exI) auto
next
  obtain u where u: "advanceAfterSubmission s ref outcome = Inr u" "schedule_valid (sh_schemas deps) u"
    "sc_schedules st3 = doc_put (sd_id u) u (sc_schedules st2)" using record_dispatch_InrD [OF assms(3)] by blast
  have "sd_id u = sd_id s" "sd_enabled u" "sd_nextDueAt u \<noteq> None"
    using u(1) assms(4,5) by (auto simp: advanceAfterSubmission_def Let_def bindR_Inr_iff)
  with u(2,3) show "\<exists>x. get_schedule (sh_schemas deps) (sd_id s) (sc_schedules st3) = Some x \<and> sd_enabled x \<and> sd_nextDueAt x \<noteq> None"
    by (simp add: get_schedule_def doc_get_def doc_put_def)
qed

end
