(* ===== verification/Ingress_Properties.thy ===== *)
theory Ingress_Properties
  imports Ingress_Dispatch
begin

text \<open>
  What the ingress promises: a trigger is dispatched at most once while its claim lives, no workflow
  starts unchecked, and every submission is answered. The contract between the idempotency store and
  its client is the locale \<open>trigger_claims\<close>.
\<close>

section \<open>The contract of claims\<close>

locale trigger_claims =
  fixes holder :: "string \<Rightarrow> 's \<Rightarrow> (string \<times> int) option"
    and claim_op :: "int \<Rightarrow> string \<Rightarrow> string \<Rightarrow> trigger_envelope \<Rightarrow> 's \<Rightarrow> claim_progress \<times> 's"
    and commit_op :: "string \<Rightarrow> string \<Rightarrow> string \<Rightarrow> 's \<Rightarrow> 's" and release_op :: "string \<Rightarrow> 's \<Rightarrow> 's"
    and key :: "trigger_envelope \<Rightarrow> string" and ttl :: int and ok :: "'s \<Rightarrow> bool"
  assumes ok_claim: "ok s \<Longrightarrow> ok (snd (claim_op now res run e s))"
    and ok_commit: "ok s \<Longrightarrow> ok (commit_op r dref eref s)"
    and ok_release: "ok s \<Longrightarrow> ok (release_op r s)"
    and claim_keeps: "ok s \<Longrightarrow> claim_op now res run e s = (p, s') \<Longrightarrow> holder k s = Some (r, since) \<Longrightarrow>
      holder k s' = Some (r, since) \<or> ttl < now - since"
    and claim_new: "ok s \<Longrightarrow> claim_op now res run e s = (ClaimAnswer (Claimed c), s') \<Longrightarrow>
      c = \<lparr>cl_reservation_id = res, cl_run_id = run, cl_recorded_at = now\<rparr> \<and> holder (key e) s' = Some (res, now)
      \<and> (\<forall>r since. holder (key e) s = Some (r, since) \<longrightarrow> ttl < now - since)"
    and commit_keeps: "holder k (commit_op r dref eref s) = holder k s"
    and release_keeps: "holder k s = Some (r, since) \<Longrightarrow> r \<noteq> r' \<Longrightarrow> holder k (release_op r' s) = Some (r, since)"
begin

definition covered :: "int \<Rightarrow> 's \<Rightarrow> string \<Rightarrow> claim \<Rightarrow> bool" where
  \<comment> \<open>the claim is still recorded, or it is out of date\<close>
  "covered t s k c \<longleftrightarrow> holder k s = Some (cl_reservation_id c, cl_recorded_at c) \<or> ttl < t - cl_recorded_at c"

lemma covered_later: "covered t s k c \<Longrightarrow> t \<le> now \<Longrightarrow> covered now s k c"
  by (auto simp: covered_def)

lemma covered_claim:
  assumes "ok s" and "covered t s k c" and "t \<le> now" and "claim_op now res run e s = (p, s')"
  shows "covered now s' k c"
proof (cases "holder k s = Some (cl_reservation_id c, cl_recorded_at c)")
  case True
  from claim_keeps [OF assms(1,4) this] show ?thesis by (simp add: covered_def)
next
  case False
  with assms(2,3) show ?thesis by (auto simp: covered_def)
qed

lemma covered_commit: "covered t s k c \<Longrightarrow> t \<le> now \<Longrightarrow> covered now (commit_op r dref eref s) k c"
  by (auto simp: covered_def commit_keeps)

lemma covered_release: "covered t s k c \<Longrightarrow> t \<le> now \<Longrightarrow> cl_reservation_id c \<noteq> r \<Longrightarrow> covered now (release_op r s) k c"
  by (auto simp: covered_def release_keeps)

lemma covered_new: "ok s \<Longrightarrow> claim_op now res run e s = (ClaimAnswer (Claimed c), s') \<Longrightarrow> covered now s' (key e) c"
  using claim_new [of s now res run e c s'] by (simp add: covered_def)

lemma claims_apart:
  assumes "ok s" and "covered t s (key e) c" and "t \<le> now" and "claim_op now res run e s = (ClaimAnswer (Claimed d), s')"
  shows "cl_reservation_id d = res" and "ttl < cl_recorded_at d - cl_recorded_at c"
  using claim_new [OF assms(1,4)] assms(2,3) by (auto simp: covered_def)

end

text \<open>The in-memory store keeps it.\<close>

definition holder_of :: "string \<Rightarrow> idem_store \<Rightarrow> (string \<times> int) option" where
  "holder_of k st = map_option (\<lambda>r. (dr_reservation_id r, dr_recorded_at r)) (obj_get k (is_dedup st))"

definition keys_once :: "idem_store \<Rightarrow> bool" where
  "keys_once st \<longleftrightarrow> distinct (obj_keys (is_dedup st))"

lemma obj_get_filter:
  assumes "distinct (obj_keys ob)"
  shows "obj_get k (filter (\<lambda>(k, v). P v) ob) = (case obj_get k ob of Some v \<Rightarrow> if P v then Some v else None | None \<Rightarrow> None)"
  using assms
proof (induction ob)
  case Nil
  then show ?case by simp
next
  case (Cons a ob)
  obtain k' v where a: "a = (k', v)" by (cases a)
  have "obj_get k' (filter (\<lambda>(k, v). P v) ob) = None" if "k' \<notin> set (obj_keys ob)"
    using that by (auto simp: obj_get_None_iff obj_keys_def)
  with Cons show ?case by (auto simp: a obj_keys_def split: option.splits)
qed

lemma distinct_keys_filter: "distinct (obj_keys ob) \<Longrightarrow> distinct (obj_keys (filter P ob))"
  by (simp add: obj_keys_def distinct_map_filter)

lemma distinct_keys_delete: "distinct (obj_keys ob) \<Longrightarrow> distinct (obj_keys (obj_delete k ob))"
  by (simp add: obj_keys_def obj_delete_def distinct_delete)

lemma pruned_dedup: "is_dedup (pruneExpired opts now st) = filter (\<lambda>(k, r). \<not> expired opts now r) (is_dedup st)"
  by (simp add: pruneExpired_def Let_def)

lemma pruned_once: "keys_once st \<Longrightarrow> keys_once (pruneExpired opts now st)"
  by (simp add: keys_once_def pruned_dedup distinct_keys_filter)

lemma holder_pruned:
  assumes "keys_once st"
  shows "holder_of k (pruneExpired opts now st) =
    (case holder_of k st of Some (r, since) \<Rightarrow> if io_ttlMs opts < now - since then None else Some (r, since) | None \<Rightarrow> None)"
  using assms unfolding keys_once_def holder_of_def pruned_dedup
  by (auto simp: obj_get_filter expired_def split: option.splits)

lemma claim_store:
  "\<exists>st'. claimTrigger opts now res run e st = (ClaimAnswer (Claimed \<lparr>cl_reservation_id = res, cl_run_id = run, cl_recorded_at = now\<rparr>), st')
     \<and> holder_of (dedupKey e) (pruneExpired opts now st) = None
     \<and> is_dedup st' = obj_set (dedupKey e) \<lparr>dr_status = ClaimHeld, dr_reservation_id = res, dr_run_id = run,
         dr_recorded_at = now, dr_dispatch_ref = None, dr_evidence_ref = None\<rparr> (is_dedup (pruneExpired opts now st))
   \<or> (\<exists>p. claimTrigger opts now res run e st = (p, pruneExpired opts now st) \<and> (\<forall>c. p \<noteq> ClaimAnswer (Claimed c)))"
  by (auto simp: claimTrigger_def Let_def holder_of_def wait_or_answer_def toDuplicateResult_def split: option.split)

interpretation claims: trigger_claims holder_of "claimTrigger opts" commitDispatch releaseClaim dedupKey "io_ttlMs opts" keys_once for opts
proof
  fix st :: idem_store and now res run e
  assume ok: "keys_once st"
  then have "keys_once (pruneExpired opts now st)" by (rule pruned_once)
  with claim_store [of opts now res run e st] show "keys_once (snd (claimTrigger opts now res run e st))"
    by (auto simp: keys_once_def distinct_keys_obj_set)
next
  fix st :: idem_store and r dref eref
  assume "keys_once st"
  then show "keys_once (commitDispatch r dref eref st)"
    by (auto simp: commitDispatch_def keys_once_def distinct_keys_obj_set split: option.split)
next
  fix st :: idem_store and r
  assume "keys_once st"
  then show "keys_once (releaseClaim r st)"
    by (auto simp: releaseClaim_def keys_once_def distinct_keys_delete split: option.split)
next
  fix st :: idem_store and now res run e p st' k r since
  assume ok: "keys_once st" and c: "claimTrigger opts now res run e st = (p, st')" and h: "holder_of k st = Some (r, since)"
  show "holder_of k st' = Some (r, since) \<or> io_ttlMs opts < now - since"
  proof (cases "io_ttlMs opts < now - since")
    case True
    then show ?thesis by simp
  next
    case False
    with h have kept: "holder_of k (pruneExpired opts now st) = Some (r, since)" by (simp add: holder_pruned [OF ok])
    with claim_store [of opts now res run e st] c have "holder_of k st' = Some (r, since)" by (auto simp: holder_of_def)
    then show ?thesis ..
  qed
next
  fix st :: idem_store and now res run e c st'
  assume ok: "keys_once st" and "claimTrigger opts now res run e st = (ClaimAnswer (Claimed c), st')"
  with claim_store [of opts now res run e st]
  have c: "c = \<lparr>cl_reservation_id = res, cl_run_id = run, cl_recorded_at = now\<rparr>"
    and none: "holder_of (dedupKey e) (pruneExpired opts now st) = None"
    and new: "is_dedup st' = obj_set (dedupKey e) \<lparr>dr_status = ClaimHeld, dr_reservation_id = res, dr_run_id = run,
         dr_recorded_at = now, dr_dispatch_ref = None, dr_evidence_ref = None\<rparr> (is_dedup (pruneExpired opts now st))"
    by auto
  have "\<forall>r since. holder_of (dedupKey e) st = Some (r, since) \<longrightarrow> io_ttlMs opts < now - since"
    using none by (auto simp: holder_pruned [OF ok] split: if_splits)
  then show "c = \<lparr>cl_reservation_id = res, cl_run_id = run, cl_recorded_at = now\<rparr> \<and> holder_of (dedupKey e) st' = Some (res, now)
      \<and> (\<forall>r since. holder_of (dedupKey e) st = Some (r, since) \<longrightarrow> io_ttlMs opts < now - since)"
    using c new by (simp add: holder_of_def)
next
  fix k r dref eref and st :: idem_store
  show "holder_of k (commitDispatch r dref eref st) = holder_of k st"
    by (auto simp: commitDispatch_def holder_of_def split: option.split)
next
  fix k r since r' and st :: idem_store
  assume "holder_of k st = Some (r, since)" "r \<noteq> r'"
  then show "holder_of k (releaseClaim r' st) = Some (r, since)"
    by (auto simp: releaseClaim_def holder_of_def split: option.split)
qed

section \<open>Claims of the submissions\<close>

fun claim_of :: "dispatch_pc \<Rightarrow> claim option" where
  \<comment> \<open>the claim a submission works under\<close>
  "claim_of (AwaitControl c) = Some c"
| "claim_of (AwaitProject c controlState) = Some c"
| "claim_of (AwaitTask c task_ref) = Some c"
| "claim_of (AwaitPut c task_ref t x) = Some c"
| "claim_of (AwaitReceipt c task_ref) = Some c"
| "claim_of (AwaitStart c) = Some c"
| "claim_of pc = None"

fun gave_up :: "dispatch_pc \<Rightarrow> bool" where
  "gave_up (Finished (TriggerRejected reason code ref refs)) = True"
| "gave_up pc = False"

fun dispatched :: "dispatch_pc \<Rightarrow> bool" where
  "dispatched (Finished (AcceptedDispatched runId dref w p eref)) = True"
| "dispatched pc = False"

definition claim_ok :: "trigger_task \<Rightarrow> bool" where
  "claim_ok x \<longleftrightarrow> (claim_of (tt_pc x) \<noteq> None \<longrightarrow> tt_claim x = claim_of (tt_pc x)) \<and> (dispatched (tt_pc x) \<longrightarrow> tt_claim x \<noteq> None)
     \<and> (claim_of (tt_pc x) = None \<and> in_progress (tt_pc x) \<longrightarrow> tt_claim x = None)"

definition holding :: "trigger_task \<Rightarrow> claim option" where
  "holding x = (if gave_up (tt_pc x) then None else tt_claim x)"

definition key_of_task :: "trigger_task \<Rightarrow> string" where
  "key_of_task x = dedupKey (tt_envelope x)"

definition claims_inv :: "dispatch_deps \<Rightarrow> int \<Rightarrow> ingress \<Rightarrow> bool" where
  "claims_inv deps t st \<longleftrightarrow>
     keys_once (ig_store st) \<and> (\<forall>x \<in> set (ig_tasks st). claim_ok x)
     \<and> (\<forall>x \<in> set (ig_tasks st). \<forall>c. holding x = Some c \<longrightarrow> claims.covered (dp_idem deps) t (ig_store st) (key_of_task x) c)
     \<and> (\<forall>i j c d. i < length (ig_tasks st) \<longrightarrow> j < length (ig_tasks st) \<longrightarrow> i \<noteq> j \<longrightarrow>
          tt_claim (ig_tasks st ! i) = Some c \<longrightarrow> tt_claim (ig_tasks st ! j) = Some d \<longrightarrow> cl_reservation_id c \<noteq> cl_reservation_id d)
     \<and> (\<forall>i j c d. i < length (ig_tasks st) \<longrightarrow> j < length (ig_tasks st) \<longrightarrow> i \<noteq> j \<longrightarrow>
          key_of_task (ig_tasks st ! i) = key_of_task (ig_tasks st ! j) \<longrightarrow>
          holding (ig_tasks st ! i) = Some c \<longrightarrow> holding (ig_tasks st ! j) = Some d \<longrightarrow>
          io_ttlMs (dp_idem deps) < \<bar>cl_recorded_at c - cl_recorded_at d\<bar>)"

lemma claims_invI:
  assumes "keys_once (ig_store st)" and "\<And>x. x \<in> set (ig_tasks st) \<Longrightarrow> claim_ok x"
    and "\<And>x c. x \<in> set (ig_tasks st) \<Longrightarrow> holding x = Some c \<Longrightarrow> claims.covered (dp_idem deps) t (ig_store st) (key_of_task x) c"
    and "\<And>i j c d. i < length (ig_tasks st) \<Longrightarrow> j < length (ig_tasks st) \<Longrightarrow> i \<noteq> j \<Longrightarrow>
          tt_claim (ig_tasks st ! i) = Some c \<Longrightarrow> tt_claim (ig_tasks st ! j) = Some d \<Longrightarrow> cl_reservation_id c \<noteq> cl_reservation_id d"
    and "\<And>i j c d. i < length (ig_tasks st) \<Longrightarrow> j < length (ig_tasks st) \<Longrightarrow> i \<noteq> j \<Longrightarrow>
          key_of_task (ig_tasks st ! i) = key_of_task (ig_tasks st ! j) \<Longrightarrow>
          holding (ig_tasks st ! i) = Some c \<Longrightarrow> holding (ig_tasks st ! j) = Some d \<Longrightarrow>
          io_ttlMs (dp_idem deps) < \<bar>cl_recorded_at c - cl_recorded_at d\<bar>"
  shows "claims_inv deps t st"
  unfolding claims_inv_def using assms by blast

text \<open>A step that takes no claim: the task keeps or gives up the one it has.\<close>

lemma claims_inv_kept:
  assumes inv: "claims_inv deps t st" and i: "i < length (ig_tasks st)"
    and tasks: "ig_tasks st' = (ig_tasks st)[i := x]"
    and x: "tt_envelope x = tt_envelope (ig_tasks st ! i)" "tt_claim x = tt_claim (ig_tasks st ! i)" "claim_ok x"
      "holding x = holding (ig_tasks st ! i) \<or> holding x = None"
    and store: "keys_once (ig_store st')"
      "\<And>k c. claims.covered (dp_idem deps) t (ig_store st) k c \<Longrightarrow> (holding x = None \<Longrightarrow> \<forall>d. tt_claim x = Some d \<longrightarrow> cl_reservation_id c \<noteq> cl_reservation_id d) \<Longrightarrow>
        claims.covered (dp_idem deps) now (ig_store st') k c"
  shows "claims_inv deps now st'"
proof (rule claims_invI)
  show "keys_once (ig_store st')" by (rule store(1))
  fix y
  assume y: "y \<in> set (ig_tasks st')"
  then show "claim_ok y" using inv x(3) set_update_subset_insert [of "ig_tasks st" i x] unfolding tasks claims_inv_def by blast
  fix c
  assume hold: "holding y = Some c"
  from y i obtain j where j: "j < length (ig_tasks st)" "y = (ig_tasks st)[i := x] ! j"
    unfolding tasks by (metis in_set_conv_nth length_list_update)
  have before: "holding (ig_tasks st ! j) = Some c" "key_of_task y = key_of_task (ig_tasks st ! j)"
    using hold j i x(1,4) by (auto simp: nth_list_update key_of_task_def split: if_splits)
  then have "claims.covered (dp_idem deps) t (ig_store st) (key_of_task y) c"
    using inv j(1) nth_mem unfolding claims_inv_def by metis
  moreover have "\<forall>d. tt_claim x = Some d \<longrightarrow> cl_reservation_id c \<noteq> cl_reservation_id d" if "holding x = None"
  proof -
    have "j \<noteq> i" using that hold j i by (auto simp: nth_list_update)
    moreover have "tt_claim (ig_tasks st ! j) = Some c" using before(1) by (auto simp: holding_def split: if_splits)
    ultimately show ?thesis using inv i j(1) x(2) unfolding claims_inv_def by metis
  qed
  ultimately show "claims.covered (dp_idem deps) now (ig_store st') (key_of_task y) c" by (rule store(2))
next
  have nth: "tt_claim (ig_tasks st' ! j) = tt_claim (ig_tasks st ! j)" "key_of_task (ig_tasks st' ! j) = key_of_task (ig_tasks st ! j)"
    "holding (ig_tasks st' ! j) = Some c \<Longrightarrow> holding (ig_tasks st ! j) = Some c" for j c
    using i x(1,2,4) unfolding tasks by (auto simp: nth_list_update key_of_task_def split: if_splits)
  have len: "length (ig_tasks st') = length (ig_tasks st)" by (simp add: tasks)
  fix j k c d
  assume jk: "j < length (ig_tasks st')" "k < length (ig_tasks st')" "j \<noteq> k"
  show "cl_reservation_id c \<noteq> cl_reservation_id d" if "tt_claim (ig_tasks st' ! j) = Some c" "tt_claim (ig_tasks st' ! k) = Some d"
    using inv jk that unfolding claims_inv_def len nth(1) by metis
  show "io_ttlMs (dp_idem deps) < \<bar>cl_recorded_at c - cl_recorded_at d\<bar>"
    if "key_of_task (ig_tasks st' ! j) = key_of_task (ig_tasks st' ! k)" "holding (ig_tasks st' ! j) = Some c" "holding (ig_tasks st' ! k) = Some d"
    using inv jk that(1) nth(3) [OF that(2)] nth(3) [OF that(3)] unfolding claims_inv_def len nth(2) by metis
qed

lemma claims_inv_jump:
  assumes "claims_inv deps t st" and "i < length (ig_tasks st)" and "t \<le> now"
    and "claim_ok ((ig_tasks st ! i)\<lparr>tt_pc := pc\<rparr>)"
    and "gave_up (tt_pc (ig_tasks st ! i)) \<longrightarrow> gave_up pc"
  shows "claims_inv deps now (jump i pc st)"
proof (rule claims_inv_kept [OF assms(1,2)])
  show "ig_tasks (jump i pc st) = (ig_tasks st)[i := (ig_tasks st ! i)\<lparr>tt_pc := pc\<rparr>]" by (simp add: jump_def)
  show "holding ((ig_tasks st ! i)\<lparr>tt_pc := pc\<rparr>) = holding (ig_tasks st ! i) \<or> holding ((ig_tasks st ! i)\<lparr>tt_pc := pc\<rparr>) = None"
    using assms(5) by (simp add: holding_def)
  show "keys_once (ig_store (jump i pc st))" using assms(1) by (simp add: jump_def claims_inv_def)
  show "claims.covered (dp_idem deps) now (ig_store (jump i pc st)) k c" if "claims.covered (dp_idem deps) t (ig_store st) k c" for k c
    using claims.covered_later [OF that assms(3)] by (simp add: jump_def)
qed (use assms(4) in simp_all)

lemma claims_inv_commit:
  assumes "claims_inv deps t st"
  shows "claims_inv deps t (with_store (commitDispatch r dref eref) st)"
  using assms claims.covered_commit [OF _ order_refl] claims.ok_commit [of "ig_store st"] unfolding claims_inv_def with_store_def by simp

lemma claims_inv_request: "claims_inv deps t st \<Longrightarrow> claims_inv deps t (request r st)"
  by (simp add: claims_inv_def request_def)

lemma claims_inv_reject:
  assumes inv: "claims_inv deps t st" and i: "i < length (ig_tasks st)" and t: "t \<le> now"
    and c: "tt_claim (ig_tasks st ! i) = Some c"
  shows "claims_inv deps now (rejectAndRelease i e c reason code refs st)"
proof -
  let ?x = "(ig_tasks st ! i)\<lparr>tt_pc := Finished (refusal_outcome e reason (Some code) refs)\<rparr>"
  show ?thesis
  proof (rule claims_inv_kept [OF inv i, where x = ?x])
    show "ig_tasks (rejectAndRelease i e c reason code refs st) = (ig_tasks st)[i := ?x]"
      by (simp add: rejectAndRelease_def jump_def with_store_def)
    show "claim_ok ?x" by (simp add: claim_ok_def refusal_outcome_def)
    have none: "holding ?x = None" by (simp add: holding_def refusal_outcome_def)
    then show "holding ?x = holding (ig_tasks st ! i) \<or> holding ?x = None" ..
    show "keys_once (ig_store (rejectAndRelease i e c reason code refs st))"
      using inv claims.ok_release by (simp add: rejectAndRelease_def jump_def with_store_def claims_inv_def)
    show "claims.covered (dp_idem deps) now (ig_store (rejectAndRelease i e c reason code refs st)) k d"
      if cov: "claims.covered (dp_idem deps) t (ig_store st) k d"
        and other: "holding ?x = None \<Longrightarrow> \<forall>d'. tt_claim ?x = Some d' \<longrightarrow> cl_reservation_id d \<noteq> cl_reservation_id d'" for k d
    proof -
      have "cl_reservation_id d \<noteq> cl_reservation_id c" using other [OF none] c by simp
      from claims.covered_release [OF cov t this] show ?thesis by (simp add: rejectAndRelease_def jump_def with_store_def)
    qed
  qed simp_all
qed

lemma claims_inv_claimed:
  assumes inv: "claims_inv deps t st" and i: "i < length (ig_tasks st)" and t: "t \<le> now"
    and fresh: "res \<notin> reservations_used st"
    and claim: "claimTrigger (dp_idem deps) now res run (tt_envelope (ig_tasks st ! i)) (ig_store st) = (ClaimAnswer (Claimed c), ig_store st')"
    and tasks: "ig_tasks st' = (ig_tasks st)[i := x]"
    and x: "key_of_task x = key_of_task (ig_tasks st ! i)" "tt_claim x = Some c" "holding x = Some c" "claim_ok x"
  shows "claims_inv deps now st'"
proof -
  have ok: "keys_once (ig_store st)" and parts: "\<And>y. y \<in> set (ig_tasks st) \<Longrightarrow> claim_ok y"
    "\<And>y d. y \<in> set (ig_tasks st) \<Longrightarrow> holding y = Some d \<Longrightarrow> claims.covered (dp_idem deps) t (ig_store st) (key_of_task y) d"
    using inv unfolding claims_inv_def by blast+
  have res: "cl_reservation_id c = res" using claims.claim_new [OF ok claim] by simp
  have len: "length (ig_tasks st') = length (ig_tasks st)" by (simp add: tasks)
  have nth: "ig_tasks st' ! j = (if j = i then x else ig_tasks st ! j)" for j using i by (simp add: tasks nth_list_update)
  have used: "cl_reservation_id d \<noteq> res" if "j < length (ig_tasks st)" "tt_claim (ig_tasks st ! j) = Some d" for j d
    using that fresh nth_mem [OF that(1)] unfolding reservations_used_def by blast
  have apart: "io_ttlMs (dp_idem deps) < \<bar>cl_recorded_at c - cl_recorded_at d\<bar>"
    if j: "j < length (ig_tasks st)" "key_of_task (ig_tasks st ! j) = key_of_task (ig_tasks st ! i)" "holding (ig_tasks st ! j) = Some d" for j d
  proof -
    have "claims.covered (dp_idem deps) t (ig_store st) (dedupKey (tt_envelope (ig_tasks st ! i))) d"
      using parts(2) [OF nth_mem [OF j(1)] j(3)] j(2) by (simp add: key_of_task_def)
    from claims.claims_apart(2) [OF ok this t claim] show ?thesis by linarith
  qed
  show ?thesis
  proof (rule claims_invI)
    show "keys_once (ig_store st')" using claims.ok_claim [OF ok, of "dp_idem deps" now res run "tt_envelope (ig_tasks st ! i)"] claim by simp
  next
    fix y
    assume "y \<in> set (ig_tasks st')"
    then show "claim_ok y" using set_update_subset_insert [of "ig_tasks st" i x] x(4) parts(1) by (auto simp: tasks)
  next
    fix y d
    assume y: "y \<in> set (ig_tasks st')" and hold: "holding y = Some d"
    consider "y = x" | "y \<in> set (ig_tasks st)" using y set_update_subset_insert [of "ig_tasks st" i x] by (auto simp: tasks)
    then show "claims.covered (dp_idem deps) now (ig_store st') (key_of_task y) d"
    proof cases
      case 1
      with hold x have "d = c" "key_of_task y = dedupKey (tt_envelope (ig_tasks st ! i))" by (simp_all add: key_of_task_def)
      with claims.covered_new [OF ok claim] show ?thesis by simp
    next
      case 2
      from claims.covered_claim [OF ok parts(2) [OF 2 hold] t claim] show ?thesis .
    qed
  next
    fix j k d d'
    assume jk: "j < length (ig_tasks st')" "k < length (ig_tasks st')" "j \<noteq> k"
      "tt_claim (ig_tasks st' ! j) = Some d" "tt_claim (ig_tasks st' ! k) = Some d'"
    consider "j = i" | "k = i" | "j \<noteq> i" "k \<noteq> i" by blast
    then show "cl_reservation_id d \<noteq> cl_reservation_id d'"
    proof cases
      case 1
      with jk used [of k d'] res x(2) show ?thesis by (simp add: nth len)
    next
      case 2
      with jk used [of j d] res x(2) show ?thesis by (simp add: nth len)
    next
      case 3
      with jk inv show ?thesis unfolding claims_inv_def by (simp add: nth len)
    qed
  next
    fix j k d d'
    assume jk: "j < length (ig_tasks st')" "k < length (ig_tasks st')" "j \<noteq> k"
      "key_of_task (ig_tasks st' ! j) = key_of_task (ig_tasks st' ! k)" "holding (ig_tasks st' ! j) = Some d" "holding (ig_tasks st' ! k) = Some d'"
    consider "j = i" | "k = i" | "j \<noteq> i" "k \<noteq> i" by blast
    then show "io_ttlMs (dp_idem deps) < \<bar>cl_recorded_at d - cl_recorded_at d'\<bar>"
    proof cases
      case 1
      with jk apart [of k d'] x show ?thesis by (simp add: nth len)
    next
      case 2
      with jk apart [of j d] x show ?thesis by (simp add: nth len abs_minus_commute)
    next
      case 3
      with jk inv show ?thesis unfolding claims_inv_def by (simp add: nth len)
    qed
  qed
qed

lemma claim_of_in_progress: "claim_of pc = Some c \<Longrightarrow> in_progress pc \<and> \<not> gave_up pc"
  by (cases pc) auto

text \<open>A step under a claim moves on, gives up, or commits.\<close>

lemma claims_inv_moves:
  assumes inv: "claims_inv deps t st" and i: "i < length (ig_tasks st)" and t: "t \<le> now"
    and c: "claim_of (tt_pc (ig_tasks st ! i)) = Some c"
  shows "claim_of pc = Some c \<Longrightarrow> claims_inv deps now (jump i pc (st\<lparr>ig_requests := rs\<rparr>))"
    and "claims_inv deps now (jump i (Thrown err) st)"
    and "claims_inv deps now (rejectAndRelease i e c reason code refs st)"
    and "claims_inv deps now (jump i (Finished (AcceptedDispatched r dref w p eref)) (with_store (commitDispatch a b d) st))"
proof -
  have ok: "claim_ok (ig_tasks st ! i)" using inv nth_mem [OF i] unfolding claims_inv_def by blast
  have held: "tt_claim (ig_tasks st ! i) = Some c" using ok c by (auto simp: claim_ok_def)
  have inv': "claims_inv deps t (st\<lparr>ig_requests := rs\<rparr>)" using inv by (simp add: claims_inv_def)
  show "claims_inv deps now (jump i pc (st\<lparr>ig_requests := rs\<rparr>))" if "claim_of pc = Some c"
    using held that claim_of_in_progress [OF that] claim_of_in_progress [OF c] i t
    by (intro claims_inv_jump [OF inv']) (auto simp: claim_ok_def elim: dispatched.elims)
  show "claims_inv deps now (jump i (Thrown err) st)"
    using claim_of_in_progress [OF c] by (intro claims_inv_jump [OF inv i t]) (auto simp: claim_ok_def)
  show "claims_inv deps now (rejectAndRelease i e c reason code refs st)" by (rule claims_inv_reject [OF inv i t held])
  have "claims_inv deps t (with_store (commitDispatch a b d) st)" by (rule claims_inv_commit [OF inv])
  then show "claims_inv deps now (jump i (Finished (AcceptedDispatched r dref w p eref)) (with_store (commitDispatch a b d) st))"
    using claim_of_in_progress [OF c] held i t by (intro claims_inv_jump) (auto simp: claim_ok_def with_store_def)
qed

lemma jump_cong: "jump i pc st = jump i pc (st\<lparr>ig_requests := ig_requests st\<rparr>)"
  by simp

lemma claims_inv_under_claim:
  assumes inv: "claims_inv deps t st" and i: "i < length (ig_tasks st)" and t: "t \<le> sa_now inp"
    and c: "claim_of (tt_pc (ig_tasks st ! i)) = Some c"
  shows "claims_inv deps (sa_now inp) (run_trigger deps inp i st)"
proof -
  note moves = claims_inv_moves [OF inv i t c]
  have jumps: "claims_inv deps (sa_now inp) (jump i pc st)" if "claim_of pc = Some c" for pc
    using moves(1) [OF that, of "ig_requests st"] by simp
  show ?thesis
    using c moves jumps
    by (cases "tt_pc (ig_tasks st ! i)")
      (auto simp: run_trigger_def Let_def control_read_def project_read_def task_read_def execution_put_def task_submitted_def
        workflow_started_def request_def split: sum.split option.split start_result.split)
qed

lemma wait_step_no_claim: "wait_step now key r w s \<noteq> ClaimAnswer (Claimed c)"
  by (auto simp: wait_step_def wait_or_answer_def toDuplicateResult_def split: option.split)

lemma claims_inv_unclaimed:
  assumes inv: "claims_inv deps t st" and i: "i < length (ig_tasks st)" and t: "t \<le> now"
    and none: "tt_claim (ig_tasks st ! i) = None" and pc: "claim_of pc = None" "\<not> dispatched pc"
  shows "claims_inv deps now (jump i pc st)"
proof -
  have kept: "\<And>k c. claims.covered (dp_idem deps) t (ig_store st) k c \<Longrightarrow> claims.covered (dp_idem deps) now (ig_store st) k c"
    using claims.covered_later [OF _ t] .
  show ?thesis
    using inv none pc by (intro claims_inv_kept [OF inv i, where x = "(ig_tasks st ! i)\<lparr>tt_pc := pc\<rparr>"])
      (auto simp: jump_def claim_ok_def holding_def claims_inv_def intro: kept)
qed

lemma claims_inv_pruned:
  assumes "claims_inv deps t st" and "t \<le> now" and "claimTrigger (dp_idem deps) now res run e (ig_store st) = (p, store)"
  shows "claims_inv deps now (st\<lparr>ig_store := store\<rparr>)"
proof -
  have ok: "keys_once (ig_store st)" using assms(1) by (simp add: claims_inv_def)
  from claims.ok_claim [OF ok, of "dp_idem deps" now res run e] assms(3) have "keys_once store" by simp
  moreover have "\<And>k c. claims.covered (dp_idem deps) t (ig_store st) k c \<Longrightarrow> claims.covered (dp_idem deps) now store k c"
    using claims.covered_claim [OF ok _ assms(2,3)] .
  ultimately show ?thesis using assms(1) unfolding claims_inv_def by simp
qed

lemma jump_jump: "i < length (ig_tasks st) \<Longrightarrow> jump i pc (jump i pc' st) = jump i pc st"
  by (simp add: jump_def)

lemma claims_inv_arrived:
  assumes inv: "claims_inv deps t st" and i: "i < length (ig_tasks st)" and t: "t \<le> sa_now inp"
    and fresh: "sa_uuid inp \<notin> reservations_used st" and pc: "tt_pc (ig_tasks st ! i) = Arrived"
  shows "claims_inv deps (sa_now inp) (run_trigger deps inp i st)"
proof -
  let ?e = "tt_envelope (ig_tasks st ! i)"
  have none: "tt_claim (ig_tasks st ! i) = None"
    using inv nth_mem [OF i] pc unfolding claims_inv_def claim_ok_def by (metis claim_of.simps(7) in_progress.simps(3))
  show ?thesis
  proof (cases "front_checks deps ?e")
    case (Inl outcome)
    then have "\<not> dispatched (Finished outcome)"
      by (auto simp: front_checks_def refusal_outcome_def split: sum.splits option.splits)
    with claims_inv_unclaimed [OF inv i t none] show ?thesis by (simp add: run_trigger_def pc Inl Let_def)
  next
    case (Inr e')
    then have e': "e' = ?e" by (auto simp: front_checks_def validateTrigger_def split: sum.splits option.splits if_splits)
    obtain p store where p: "claimTrigger (dp_idem deps) (sa_now inp) (sa_uuid inp) (sa_runId inp) ?e (ig_store st) = (p, store)"
      by (rule prod.exhaust)
    let ?st = "st\<lparr>ig_store := store\<rparr>"
    have run: "run_trigger deps inp i st = claim_answered deps i ?e p ?st"
      by (simp add: run_trigger_def pc Inr e' p Let_def)
    have inv': "claims_inv deps (sa_now inp) ?st" by (rule claims_inv_pruned [OF inv t p])
    have waits: "claims_inv deps (sa_now inp) (jump i pc' ?st)" if "claim_of pc' = None" "\<not> dispatched pc'" for pc'
      using claims_inv_unclaimed [OF inv' _ order_refl _ that] i none by simp
    show ?thesis
    proof (cases "\<exists>c. p = ClaimAnswer (Claimed c)")
      case False
      with waits show ?thesis unfolding run claim_answered_def
        by (auto simp: refusal_outcome_def split: claim_progress.split claim_result.split)
    next
      case True
      then obtain c where c: "p = ClaimAnswer (Claimed c)" by blast
      let ?x = "(ig_tasks st ! i)\<lparr>tt_claim := Some c, tt_pc := AwaitControl c\<rparr>"
      let ?taken = "?st\<lparr>ig_tasks := (ig_tasks st)[i := ?x]\<rparr>"
      have taken: "claims_inv deps (sa_now inp) ?taken"
        using p c by (intro claims_inv_claimed [OF inv i t fresh, where x = ?x]) (simp_all add: key_of_task_def holding_def claim_ok_def)
      show ?thesis
      proof (cases "dp_opctl deps")
        case True
        then have "claim_answered deps i ?e p ?st = ?taken" using i by (simp add: claim_answered_def c Let_def jump_def)
        with taken show ?thesis by (simp add: run)
      next
        case False
        then have "claim_answered deps i ?e p ?st = rejectAndRelease i ?e c ControlStateBlocked ''opctl_unavailable''
            [''opctl unavailable; cannot verify control state''] ?taken"
          using i by (simp add: claim_answered_def c Let_def jump_def rejectAndRelease_def with_store_def)
        with claims_inv_reject [OF taken _ order_refl] i show ?thesis by (simp add: run)
      qed
    qed
  qed
qed

lemma claims_inv_step:
  assumes inv: "claims_inv deps t st" and i: "i < length (ig_tasks st)" and t: "t \<le> sa_now inp"
    and fresh: "sa_uuid inp \<notin> reservations_used st" and run: "in_progress (tt_pc (ig_tasks st ! i))"
  shows "claims_inv deps (sa_now inp) (run_trigger deps inp i st)"
proof (cases "claim_of (tt_pc (ig_tasks st ! i))")
  case (Some c)
  then show ?thesis by (rule claims_inv_under_claim [OF inv i t])
next
  case None
  then have none: "tt_claim (ig_tasks st ! i) = None" using inv nth_mem [OF i] run unfolding claims_inv_def claim_ok_def by blast
  note unclaimed = claims_inv_unclaimed [OF inv i t none]
  show ?thesis
  proof (cases "tt_pc (ig_tasks st ! i)")
    case Arrived
    then show ?thesis by (rule claims_inv_arrived [OF inv i t fresh])
  next
    case (AwaitClaim key r w)
    with unclaimed wait_step_no_claim [of "sa_now inp" key r w "ig_store st"] show ?thesis
      by (auto simp: run_trigger_def Let_def claim_answered_def refusal_outcome_def split: claim_progress.split claim_result.split)
  qed (use None run in simp_all)
qed

lemma claims_inv_submit:
  assumes inv: "claims_inv deps t st"
  shows "claims_inv deps t (submit_trigger e st)"
proof -
  let ?new = "\<lparr>tt_envelope = e, tt_claim = None, tt_pc = Arrived\<rparr>"
  have new: "claim_ok ?new" "holding ?new = None" "tt_claim ?new = None" by (simp_all add: claim_ok_def holding_def)
  have tasks: "ig_tasks (submit_trigger e st) = ig_tasks st @ [?new]" "ig_store (submit_trigger e st) = ig_store st"
    by (simp_all add: submit_trigger_def)
  have nth: "(ig_tasks st @ [?new]) ! j = (if j < length (ig_tasks st) then ig_tasks st ! j else ?new)"
    if "j < length (ig_tasks st @ [?new])" for j using that by (auto simp: nth_append less_Suc_eq)
  show ?thesis
  proof (rule claims_invI)
    fix j k d d'
    assume jk: "j < length (ig_tasks (submit_trigger e st))" "k < length (ig_tasks (submit_trigger e st))" "j \<noteq> k"
    show "cl_reservation_id d \<noteq> cl_reservation_id d'"
      if "tt_claim (ig_tasks (submit_trigger e st) ! j) = Some d" "tt_claim (ig_tasks (submit_trigger e st) ! k) = Some d'"
    proof -
      from that jk new(3) have "j < length (ig_tasks st)" "k < length (ig_tasks st)" by (auto simp only: tasks nth split: if_splits) 
      with that jk(3) inv show ?thesis by (simp add: tasks nth_append claims_inv_def)
    qed
    show "io_ttlMs (dp_idem deps) < \<bar>cl_recorded_at d - cl_recorded_at d'\<bar>"
      if "key_of_task (ig_tasks (submit_trigger e st) ! j) = key_of_task (ig_tasks (submit_trigger e st) ! k)"
        "holding (ig_tasks (submit_trigger e st) ! j) = Some d" "holding (ig_tasks (submit_trigger e st) ! k) = Some d'"
    proof -
      from that(2,3) jk new(2) have "j < length (ig_tasks st)" "k < length (ig_tasks st)" by (auto simp only: tasks nth split: if_splits) 
      with that jk(3) inv show ?thesis by (simp add: tasks nth_append claims_inv_def)
    qed
  qed (use inv new in \<open>auto simp: tasks claims_inv_def\<close>)
qed

lemma claims_inv_reachable: "ingress_reachable deps t st \<Longrightarrow> claims_inv deps t st"
proof (induction rule: ingress_reachable.induct)
  case (idle t)
  then show ?case by (simp add: claims_inv_def idle_ingress_def keys_once_def empty_idem_def obj_keys_def)
next
  case (submitted t st e)
  then show ?case by (intro claims_inv_submit)
next
  case (ran t st i inp)
  then show ?case by (intro claims_inv_step)
qed

text \<open>C16: In any interleaving of submissions, two of them that are both dispatched under the same source and
  idempotency key made their claims further apart than the time a claim is kept: a trigger that is
  delivered again is not run again.\<close>

theorem trigger_dispatched_once:
  assumes "ingress_reachable deps t st" and "i < length (ig_tasks st)" and "j < length (ig_tasks st)" and "i \<noteq> j"
    and "dedupKey (tt_envelope (ig_tasks st ! i)) = dedupKey (tt_envelope (ig_tasks st ! j))"
    and "dispatched (tt_pc (ig_tasks st ! i))" and "dispatched (tt_pc (ig_tasks st ! j))"
  shows "\<exists>c d. tt_claim (ig_tasks st ! i) = Some c \<and> tt_claim (ig_tasks st ! j) = Some d
    \<and> io_ttlMs (dp_idem deps) < \<bar>cl_recorded_at c - cl_recorded_at d\<bar>"
proof -
  have inv: "claims_inv deps t st" by (rule claims_inv_reachable [OF assms(1)])
  then have ok: "claim_ok (ig_tasks st ! i)" "claim_ok (ig_tasks st ! j)" using assms(2,3) unfolding claims_inv_def by simp_all
  then obtain c d where cd: "tt_claim (ig_tasks st ! i) = Some c" "tt_claim (ig_tasks st ! j) = Some d"
    using assms(6,7) unfolding claim_ok_def by blast
  have "\<not> gave_up (tt_pc (ig_tasks st ! i))" "\<not> gave_up (tt_pc (ig_tasks st ! j))" using assms(6,7) by (auto elim: gave_up.elims)
  with cd have "holding (ig_tasks st ! i) = Some c" "holding (ig_tasks st ! j) = Some d" by (simp_all add: holding_def)
  with inv assms(2-5) have "io_ttlMs (dp_idem deps) < \<bar>cl_recorded_at c - cl_recorded_at d\<bar>"
    unfolding claims_inv_def key_of_task_def by metis
  with cd show ?thesis by blast
qed

end
