(* ===== verification/Ingress_Runs.thy ===== *)
theory Ingress_Runs
  imports Ingress_Properties "HOL-Library.Code_Target_Nat"
begin

text \<open>
  What a submission may ask of the other services, that it is answered, and runs of the ingress:
  the witnesses of the properties and the schedules of steps that show its gaps.
\<close>

section \<open>What is asked of the services\<close>

definition checked :: "dispatch_deps \<Rightarrow> trigger_envelope \<Rightarrow> bool" where
  \<comment> \<open>the envelope is valid, authenticated and authorized\<close>
  "checked deps e \<longleftrightarrow> envelope_valid (dp_schemas deps) e
     \<and> (\<exists>r. verifyTrigger e = Inr r \<and> evaluateTrigger (dp_authz deps) e r = None)"

definition active_control :: "control_state \<Rightarrow> bool" where
  "active_control c \<longleftrightarrow> c \<noteq> CtlHardStopped \<and> c \<noteq> CtlPausedReview"

fun pc_guarded :: "dispatch_deps \<Rightarrow> trigger_envelope \<Rightarrow> dispatch_pc \<Rightarrow> bool" where
  "pc_guarded deps e (AwaitProject c controlState) \<longleftrightarrow> checked deps e \<and> active_control controlState"
| "pc_guarded deps e (AwaitClaim k r w) \<longleftrightarrow> checked deps e"
| "pc_guarded deps e (AwaitControl c) \<longleftrightarrow> checked deps e"
| "pc_guarded deps e (AwaitTask c task_ref) \<longleftrightarrow> checked deps e"
| "pc_guarded deps e (AwaitPut c task_ref t x) \<longleftrightarrow> checked deps e \<and> ex_projectId x = te_project_id e"
| "pc_guarded deps e pc \<longleftrightarrow> True"

fun request_guarded :: "dispatch_deps \<Rightarrow> trigger_envelope \<Rightarrow> dispatch_request \<Rightarrow> bool" where
  "request_guarded deps e (StartWorkflow r) \<longleftrightarrow> checked deps e \<and> (\<exists>c controlState config. active_control controlState
     \<and> r = workflow_start deps e c controlState config)"
| "request_guarded deps e (PutExecution x) \<longleftrightarrow> checked deps e \<and> ex_projectId x = te_project_id e"
| "request_guarded deps e (SubmitTask s) \<longleftrightarrow> checked deps e \<and> ts_projectId s = te_project_id e"

definition guarded_inv :: "dispatch_deps \<Rightarrow> ingress \<Rightarrow> bool" where
  "guarded_inv deps st \<longleftrightarrow> (\<forall>x \<in> set (ig_tasks st). pc_guarded deps (tt_envelope x) (tt_pc x))
     \<and> (\<forall>r \<in> set (ig_requests st). \<exists>x \<in> set (ig_tasks st). request_guarded deps (tt_envelope x) r)"

definition same_tasks :: "nat \<Rightarrow> ingress \<Rightarrow> ingress \<Rightarrow> bool" where
  \<comment> \<open>a step of submission \<open>i\<close> leaves the others alone, and its envelope\<close>
  "same_tasks i st st' \<longleftrightarrow> length (ig_tasks st') = length (ig_tasks st)
     \<and> (\<forall>j. j < length (ig_tasks st) \<longrightarrow> tt_envelope (ig_tasks st' ! j) = tt_envelope (ig_tasks st ! j)
          \<and> (j \<noteq> i \<longrightarrow> ig_tasks st' ! j = ig_tasks st ! j))"

lemma same_tasks_jump: "i < length (ig_tasks st) \<Longrightarrow> ig_tasks st' = ig_tasks st \<Longrightarrow> same_tasks i st (jump i pc st')"
  by (simp add: same_tasks_def jump_def nth_list_update)

lemma same_tasks_refl: "same_tasks i st st"
  by (simp add: same_tasks_def)

lemma same_tasks_reject:
  "i < length (ig_tasks st) \<Longrightarrow> ig_tasks st' = ig_tasks st \<Longrightarrow> same_tasks i st (rejectAndRelease i e c reason code refs st')"
  by (simp add: rejectAndRelease_def with_store_def same_tasks_jump)

lemma same_tasks_claimed:
  assumes "i < length (ig_tasks st)" and "ig_tasks st' = ig_tasks st"
  shows "same_tasks i st (claim_answered deps i e p st')"
  using assms by (auto simp: claim_answered_def rejectAndRelease_def with_store_def jump_def same_tasks_def nth_list_update Let_def
      split: claim_progress.split claim_result.split)

lemma same_tasks_run:
  assumes "i < length (ig_tasks st)"
  shows "same_tasks i st (run_trigger deps inp i st)"
  using same_tasks_jump [OF assms] same_tasks_reject [OF assms] same_tasks_claimed [OF assms] same_tasks_refl
  by (cases "tt_pc (ig_tasks st ! i)")
    (auto simp: run_trigger_def Let_def control_read_def project_read_def task_read_def execution_put_def task_submitted_def
      workflow_started_def with_store_def request_def split: sum.split option.split start_result.split prod.split)

lemma task_after_run:
  assumes "i < length (ig_tasks st)"
  shows "length (ig_tasks (run_trigger deps inp i st)) = length (ig_tasks st)"
    and "tt_envelope (ig_tasks (run_trigger deps inp i st) ! i) = tt_envelope (ig_tasks st ! i)"
    and "j \<noteq> i \<Longrightarrow> j < length (ig_tasks st) \<Longrightarrow> ig_tasks (run_trigger deps inp i st) ! j = ig_tasks st ! j"
  using same_tasks_run [OF assms, of deps inp] assms unfolding same_tasks_def by simp_all

text \<open>The guards of the next step, and what the step asks for.\<close>

definition guarded_result :: "dispatch_deps \<Rightarrow> trigger_envelope \<Rightarrow> nat \<Rightarrow> ingress \<Rightarrow> ingress \<Rightarrow> bool" where
  "guarded_result deps e i st st' \<longleftrightarrow> pc_guarded deps e (tt_pc (ig_tasks st' ! i))
     \<and> (\<forall>r \<in> set (ig_requests st'). r \<in> set (ig_requests st) \<or> request_guarded deps e r)"

lemma guarded_jump:
  assumes "i < length (ig_tasks st')" and "pc_guarded deps e pc"
    and "\<And>r. r \<in> set (ig_requests st') \<Longrightarrow> r \<in> set (ig_requests st) \<or> request_guarded deps e r"
  shows "guarded_result deps e i st (jump i pc st')"
  using assms by (simp add: guarded_result_def jump_def)

lemma guarded_reject:
  assumes "i < length (ig_tasks st)"
  shows "guarded_result deps e i st (rejectAndRelease i e' c reason code refs st)"
  using assms unfolding rejectAndRelease_def by (intro guarded_jump) (simp_all add: with_store_def)

lemma guarded_control: "checked deps e \<Longrightarrow> i < length (ig_tasks st) \<Longrightarrow> guarded_result deps e i st (control_read deps i e' c a st)"
  by (auto simp: control_read_def active_control_def guarded_reject split: sum.split intro!: guarded_jump)

lemma start_guarded: "checked deps e \<Longrightarrow> active_control k \<Longrightarrow> request_guarded deps e (StartWorkflow (workflow_start deps e c k config))"
  by auto

lemma guarded_project:
  "checked deps e \<Longrightarrow> active_control k \<Longrightarrow> i < length (ig_tasks st) \<Longrightarrow> guarded_result deps e i st (project_read deps i e c k a st)"
  by (auto simp: project_read_def guarded_reject Let_def request_def start_guarded simp del: request_guarded.simps
      split: sum.split option.split intro!: guarded_jump)

lemma guarded_task: "checked deps e \<Longrightarrow> i < length (ig_tasks st) \<Longrightarrow> guarded_result deps e i st (task_read deps inp i e c t a st)"
  by (auto simp: task_read_def guarded_reject Let_def request_def execution_of_def split: sum.split option.split intro!: guarded_jump)

lemma guarded_put:
  "checked deps e \<Longrightarrow> i < length (ig_tasks st) \<Longrightarrow> guarded_result deps e i st (execution_put deps i e c t d x a st)"
  by (auto simp: execution_put_def guarded_reject request_def submission_of_def split: sum.split intro!: guarded_jump)

lemma guarded_ends:
  "i < length (ig_tasks st) \<Longrightarrow> guarded_result deps e i st (task_submitted deps i e c t b st)"
  "i < length (ig_tasks st) \<Longrightarrow> guarded_result deps e i st (workflow_started deps i e c a st)"
  by (auto simp: task_submitted_def workflow_started_def guarded_reject with_store_def split: sum.split start_result.split intro!: guarded_jump)

lemma guarded_claim:
  assumes "checked deps e" and "i < length (ig_tasks st')" and "ig_requests st' = ig_requests st"
  shows "guarded_result deps e i st (claim_answered deps i e p st')"
  using assms by (auto simp: claim_answered_def rejectAndRelease_def with_store_def jump_def guarded_result_def Let_def
      split: claim_progress.split claim_result.split)

lemma front_checked: "front_checks deps e = Inr e' \<Longrightarrow> e' = e \<and> checked deps e"
  by (auto simp: front_checks_def validateTrigger_def checked_def split: sum.splits option.splits if_splits)

lemma guarded_run:
  assumes "i < length (ig_tasks st)" and "pc_guarded deps (tt_envelope (ig_tasks st ! i)) (tt_pc (ig_tasks st ! i))"
  shows "guarded_result deps (tt_envelope (ig_tasks st ! i)) i st (run_trigger deps inp i st)"
proof (cases "tt_pc (ig_tasks st ! i)")
  case Arrived
  show ?thesis
  proof (cases "front_checks deps (tt_envelope (ig_tasks st ! i))")
    case (Inl outcome)
    with Arrived assms(1) show ?thesis by (auto simp: run_trigger_def Let_def intro!: guarded_jump)
  next
    case (Inr e')
    with Arrived assms(1) front_checked [OF Inr] show ?thesis
      by (auto simp: run_trigger_def Let_def split: prod.split intro!: guarded_claim)
  qed
next
  case (Finished outcome)
  with assms show ?thesis by (simp add: run_trigger_def guarded_result_def)
next
  case (Thrown err)
  with assms show ?thesis by (simp add: run_trigger_def guarded_result_def)
qed (use assms in \<open>simp_all add: run_trigger_def guarded_claim guarded_control guarded_project guarded_task guarded_put guarded_ends\<close>)

lemma guarded_inv_reachable: "ingress_reachable deps t st \<Longrightarrow> guarded_inv deps st"
proof (induction rule: ingress_reachable.induct)
  case (idle t)
  then show ?case by (simp add: guarded_inv_def idle_ingress_def)
next
  case (submitted t st e)
  then show ?case by (auto simp: guarded_inv_def submit_trigger_def)
next
  case (ran t st i inp)
  let ?st = "run_trigger deps inp i st" and ?x = "ig_tasks st ! i"
  have x: "?x \<in> set (ig_tasks st)" using ran(2) by simp
  have g: "guarded_result deps (tt_envelope ?x) i st ?st" using ran(2) ran.IH x by (intro guarded_run) (auto simp: guarded_inv_def)
  note after = task_after_run [OF ran(2)]
  have envs: "\<exists>y \<in> set (ig_tasks ?st). tt_envelope y = tt_envelope z" if z: "z \<in> set (ig_tasks st)" for z
  proof -
    obtain j where j: "j < length (ig_tasks st)" "z = ig_tasks st ! j" using z by (auto simp: in_set_conv_nth)
    then have "tt_envelope (ig_tasks ?st ! j) = tt_envelope z" using after(2,3) by (cases "j = i") auto
    with j(1) show ?thesis by (metis after(1) nth_mem)
  qed
  show ?case unfolding guarded_inv_def
  proof (intro conjI ballI)
    fix y
    assume "y \<in> set (ig_tasks ?st)"
    then obtain j where j: "j < length (ig_tasks st)" "y = ig_tasks ?st ! j" using after(1) by (auto simp: in_set_conv_nth)
    show "pc_guarded deps (tt_envelope y) (tt_pc y)"
    proof (cases "j = i")
      case True
      with g after(2) show ?thesis by (simp add: guarded_result_def j(2))
    next
      case False
      with after(3) [of j] j ran.IH show ?thesis by (simp add: guarded_inv_def)
    qed
  next
    fix r
    assume "r \<in> set (ig_requests ?st)"
    with g consider "r \<in> set (ig_requests st)" | "request_guarded deps (tt_envelope ?x) r" by (auto simp: guarded_result_def)
    then show "\<exists>y \<in> set (ig_tasks ?st). request_guarded deps (tt_envelope y) r"
    proof cases
      case 1
      then obtain z where "z \<in> set (ig_tasks st)" "request_guarded deps (tt_envelope z) r" using ran.IH by (auto simp: guarded_inv_def)
      with envs [of z] show ?thesis by metis
    next
      case 2
      with envs [OF x] show ?thesis by metis
    qed
  qed
qed

text \<open>C28: A workflow is started only for a submitted envelope that is valid, authenticated and authorized,
  in a project whose control state was read and is neither stopped nor paused; the request names the
  envelope's workflow and carries its trigger and the run of its claim.\<close>

theorem workflow_start_guarded:
  assumes "ingress_reachable deps t st" and "StartWorkflow r \<in> set (ig_requests st)"
  shows "\<exists>x \<in> set (ig_tasks st). checked deps (tt_envelope x) \<and> sr_workflowDefinitionId r = te_workflow_ref (tt_envelope x)
    \<and> (\<exists>k. sr_controlState r = Some k \<and> active_control k)
    \<and> (\<exists>c. sr_runId r = Some (cl_run_id c) \<and> sr_triggerContext r = Some (buildTriggerContext (tt_envelope x) (dispatchRef c) (evidenceRef (tt_envelope x) c)))"
proof -
  obtain x where x: "x \<in> set (ig_tasks st)" "request_guarded deps (tt_envelope x) (StartWorkflow r)"
    using guarded_inv_reachable [OF assms(1)] assms(2) by (auto simp: guarded_inv_def)
  then obtain c k config where "active_control k" "r = workflow_start deps (tt_envelope x) c k config" "checked deps (tt_envelope x)" by auto
  with x(1) show ?thesis by (intro bexI [of _ x]) (auto simp: workflow_start_def)
qed

section \<open>Every submission is answered\<close>

datatype ingress_event = Submitted trigger_envelope | Ran nat step_answers

fun play :: "dispatch_deps \<Rightarrow> ingress_event list \<Rightarrow> ingress \<Rightarrow> ingress" where
  "play deps [] st = st"
| "play deps (Submitted e # evs) st = play deps evs (submit_trigger e st)"
| "play deps (Ran i inp # evs) st = play deps evs (if i < length (ig_tasks st) then run_trigger deps inp i st else st)"

fun own_steps :: "nat \<Rightarrow> ingress_event list \<Rightarrow> step_answers list" where
  "own_steps i [] = []"
| "own_steps i (Submitted e # evs) = own_steps i evs"
| "own_steps i (Ran j inp # evs) = (if j = i then inp # own_steps i evs else own_steps i evs)"

fun steps_left :: "dispatch_pc \<Rightarrow> nat" where
  "steps_left Arrived = 6"
| "steps_left (AwaitControl c) = 5"
| "steps_left (AwaitProject c k) = 4"
| "steps_left (AwaitTask c t) = 3"
| "steps_left (AwaitPut c t d x) = 2"
| "steps_left (AwaitReceipt c t) = 1"
| "steps_left (AwaitStart c) = 1"
| "steps_left (AwaitClaim key r w) = 5"
| "steps_left (Finished outcome) = 0"
| "steps_left (Thrown err) = 0"

definition waits_until :: "int \<Rightarrow> dispatch_pc \<Rightarrow> bool" where
  "waits_until T pc \<longleftrightarrow> (case pc of AwaitClaim key r w \<Rightarrow> w \<le> T | _ \<Rightarrow> True)"

lemma pc_jump: "i < length (ig_tasks st) \<Longrightarrow> tt_pc (ig_tasks (jump i pc st) ! i) = pc"
  by (simp add: jump_def)

lemma pc_reject:
  "i < length (ig_tasks st) \<Longrightarrow> tt_pc (ig_tasks (rejectAndRelease i e c reason code refs st) ! i) = Finished (refusal_outcome e reason (Some code) refs)"
  by (simp add: rejectAndRelease_def with_store_def jump_def)

definition progress_pc :: "step_answers \<Rightarrow> dispatch_pc \<Rightarrow> dispatch_pc \<Rightarrow> bool" where
  "progress_pc inp pc pc' \<longleftrightarrow> steps_left pc' < steps_left pc
     \<or> (\<exists>key r r' w. pc = AwaitClaim key r w \<and> sa_now inp < w \<and> pc' = AwaitClaim key r' w)"

lemma pc_claim_answered:
  assumes "i < length (ig_tasks st)"
  shows "tt_pc (ig_tasks (claim_answered deps i e p st) ! i) =
    (case p of ClaimWait key r w \<Rightarrow> AwaitClaim key r w
     | ClaimAnswer (ClaimDuplicate runId dref eref) \<Rightarrow> Finished (AcceptedAlready runId dref eref)
     | ClaimAnswer ClaimReplay \<Rightarrow> Finished (refusal_outcome e ReplayDetected None [''replay:'' @ te_source_id e @ '':'' @ te_nonce e])
     | ClaimAnswer (Claimed c) \<Rightarrow> if dp_opctl deps then AwaitControl c
         else Finished (refusal_outcome e ControlStateBlocked (Some ''opctl_unavailable'') [''opctl unavailable; cannot verify control state'']))"
  using assms by (auto simp: claim_answered_def jump_def rejectAndRelease_def with_store_def Let_def split: claim_progress.split claim_result.split)

lemma claim_waits: "claimTrigger opts now res run e s = (ClaimWait key r w, s') \<Longrightarrow> w = now + io_pendingClaimWaitMs opts"
  by (auto simp: claimTrigger_def Let_def wait_or_answer_def split: option.splits if_splits)

lemma wait_step_waits: "wait_step now key r w s = ClaimWait key' r' w' \<Longrightarrow> key' = key \<and> w' = w \<and> now < w"
  by (auto simp: wait_step_def wait_or_answer_def split: option.splits if_splits)

lemma progress_step:
  assumes i: "i < length (ig_tasks st)" and run: "in_progress (tt_pc (ig_tasks st ! i))"
  shows "progress_pc inp (tt_pc (ig_tasks st ! i)) (tt_pc (ig_tasks (run_trigger deps inp i st) ! i))"
proof (cases "tt_pc (ig_tasks st ! i)")
  case Arrived
  with i show ?thesis
    by (auto simp: progress_pc_def run_trigger_def Let_def pc_jump pc_claim_answered
        split: sum.split prod.split claim_progress.split claim_result.split)
next
  case (AwaitClaim key r w)
  let ?p = "wait_step (sa_now inp) key r w (ig_store st)"
  have "tt_pc (ig_tasks (run_trigger deps inp i st) ! i) =
      tt_pc (ig_tasks (claim_answered deps i (tt_envelope (ig_tasks st ! i)) ?p st) ! i)" by (simp add: run_trigger_def AwaitClaim Let_def)
  then show ?thesis using wait_step_waits [of "sa_now inp" key r w "ig_store st"] wait_step_no_claim [of "sa_now inp" key r w "ig_store st"]
    by (auto simp: progress_pc_def AwaitClaim pc_claim_answered [OF i] split: claim_progress.split claim_result.split)
next
  case (AwaitControl c)
  with i show ?thesis by (auto simp: progress_pc_def run_trigger_def Let_def control_read_def pc_jump pc_reject split: sum.split)
next
  case (AwaitProject c k)
  with i show ?thesis
    by (auto simp: progress_pc_def run_trigger_def project_read_def pc_jump pc_reject Let_def request_def split: sum.split option.split)
next
  case (AwaitTask c t)
  with i show ?thesis
    by (auto simp: progress_pc_def run_trigger_def task_read_def pc_jump pc_reject Let_def request_def split: sum.split option.split)
next
  case (AwaitPut c t d x)
  with i show ?thesis by (auto simp: progress_pc_def run_trigger_def Let_def execution_put_def pc_jump pc_reject request_def split: sum.split)
next
  case (AwaitReceipt c t)
  with i show ?thesis by (auto simp: progress_pc_def run_trigger_def Let_def task_submitted_def pc_jump pc_reject with_store_def split: sum.split)
next
  case (AwaitStart c)
  with i show ?thesis
    by (auto simp: progress_pc_def run_trigger_def Let_def workflow_started_def pc_jump pc_reject with_store_def split: sum.split start_result.split)
qed (use run in simp_all)

lemma ended_stays: "\<not> in_progress (tt_pc (ig_tasks st ! i)) \<Longrightarrow> run_trigger deps inp i st = st"
  by (cases "tt_pc (ig_tasks st ! i)") (simp_all add: run_trigger_def)

lemma waits_step:
  assumes i: "i < length (ig_tasks st)" and "waits_until T (tt_pc (ig_tasks st ! i))"
    and first: "tt_pc (ig_tasks st ! i) = Arrived \<longrightarrow> sa_now inp + io_pendingClaimWaitMs (dp_idem deps) \<le> T"
  shows "waits_until T (tt_pc (ig_tasks (run_trigger deps inp i st) ! i))"
proof (cases "tt_pc (ig_tasks st ! i) = Arrived")
  case True
  with first i claim_waits show ?thesis
    by (auto simp: run_trigger_def Let_def waits_until_def pc_jump pc_claim_answered split: sum.split prod.split claim_progress.split claim_result.split) 
next
  case False
  show ?thesis
  proof (cases "in_progress (tt_pc (ig_tasks st ! i))")
    case ended: False
    with assms(2) show ?thesis by (simp add: ended_stays)
  next
    case True
    from progress_step [OF i this, of inp deps] False assms(2) show ?thesis
      by (cases "tt_pc (ig_tasks st ! i)"; cases "tt_pc (ig_tasks (run_trigger deps inp i st) ! i)") (auto simp: progress_pc_def waits_until_def)
  qed
qed

lemma progress_ends:
  assumes "i < length (ig_tasks st)" and "waits_until T (tt_pc (ig_tasks st ! i))" and "tt_pc (ig_tasks st ! i) \<noteq> Arrived"
    and "steps_left (tt_pc (ig_tasks st ! i)) \<le> length (filter (\<lambda>inp. T \<le> sa_now inp) (own_steps i evs))"
  shows "\<not> in_progress (tt_pc (ig_tasks (play deps evs st) ! i))"
  using assms
proof (induction evs arbitrary: st)
  case Nil
  then show ?case by (cases "tt_pc (ig_tasks st ! i)") simp_all
next
  case (Cons ev evs)
  show ?case
  proof (cases ev)
    case (Submitted e)
    with Cons show ?thesis by (simp add: submit_trigger_def nth_append)
  next
    case (Ran j inp)
    let ?st = "run_trigger deps inp j st"
    consider (other) "j \<noteq> i" "j < length (ig_tasks st)" | (ended) "\<not> in_progress (tt_pc (ig_tasks st ! j))"
      | (outside) "\<not> j < length (ig_tasks st)" | (own) "j = i" "in_progress (tt_pc (ig_tasks st ! i))" by blast
    then show ?thesis
    proof cases
      case other
      then show ?thesis using Cons.prems Ran task_after_run(1,3) [OF other(2)] by (simp add: Cons.IH)
    next
      case ended
      then have "?st = st" by (rule ended_stays)
      moreover have "steps_left (tt_pc (ig_tasks st ! i)) \<le> length (filter (\<lambda>inp. T \<le> sa_now inp) (own_steps i evs))"
      proof (cases "j = i")
        case True
        with ended have "steps_left (tt_pc (ig_tasks st ! i)) = 0" by (cases "tt_pc (ig_tasks st ! i)") simp_all
        then show ?thesis by simp
      qed (use Cons.prems(4) Ran in simp)
      ultimately show ?thesis using Cons Ran by simp
    next
      case outside
      then show ?thesis using Cons Ran by auto
    next
      case own
      have p: "progress_pc inp (tt_pc (ig_tasks st ! i)) (tt_pc (ig_tasks ?st ! i))" using progress_step own Cons.prems(1) by blast
      have "waits_until T (tt_pc (ig_tasks ?st ! i))" using waits_step own Cons.prems(1-3) by blast
      moreover have "tt_pc (ig_tasks ?st ! i) \<noteq> Arrived" using p by (cases "tt_pc (ig_tasks st ! i)") (auto simp: progress_pc_def)
      moreover have "steps_left (tt_pc (ig_tasks ?st ! i)) \<le> length (filter (\<lambda>inp. T \<le> sa_now inp) (own_steps i evs))"
        using p Cons.prems(2,4) own(1) by (auto simp: Ran progress_pc_def waits_until_def split: if_splits)
      ultimately show ?thesis using Cons.IH [of ?st] Cons.prems(1) own(1) task_after_run(1) [OF Cons.prems(1)] by (simp add: Ran)
    qed
  qed
qed

text \<open>C29: Whatever else runs and whatever the services answer, a submission has been answered or has
  thrown after its first step and five more of its own steps taken when its waiting time for a
  claim in flight is over.\<close>

theorem submission_answered:
  assumes "i < length (ig_tasks st)" and "tt_pc (ig_tasks st ! i) = Arrived" and "own_steps i evs = inp # rest"
    and "5 \<le> length (filter (\<lambda>a. sa_now inp + io_pendingClaimWaitMs (dp_idem deps) \<le> sa_now a) rest)"
  shows "\<not> in_progress (tt_pc (ig_tasks (play deps evs st) ! i))"
  using assms
proof (induction evs arbitrary: st)
  case Nil
  then show ?case by simp
next
  case (Cons ev evs)
  show ?case
  proof (cases ev)
    case (Submitted e)
    with Cons show ?thesis by (simp add: submit_trigger_def nth_append)
  next
    case (Ran j a)
    show ?thesis
    proof (cases "j = i")
      case False
      with Cons Ran show ?thesis using task_after_run(1,3) [where i = j and st = st and deps = deps and inp = a] by auto
    next
      case True
      let ?st = "run_trigger deps a i st"
      let ?T = "sa_now inp + io_pendingClaimWaitMs (dp_idem deps)"
      have a: "a = inp" "rest = own_steps i evs" using Cons.prems(3) True by (simp_all add: Ran)
      have p: "progress_pc a Arrived (tt_pc (ig_tasks ?st ! i))" using progress_step [OF Cons.prems(1), of a deps] Cons.prems(2) by simp
      then have left: "steps_left (tt_pc (ig_tasks ?st ! i)) \<le> 5" "tt_pc (ig_tasks ?st ! i) \<noteq> Arrived" by (auto simp: progress_pc_def)
      have "waits_until ?T (tt_pc (ig_tasks ?st ! i))"
        using Cons.prems(1,2) a(1) by (intro waits_step) (simp_all add: waits_until_def)
      with left Cons.prems(1,4) a(2) have "\<not> in_progress (tt_pc (ig_tasks (play deps evs ?st) ! i))"
        by (intro progress_ends [where T = ?T]) (simp_all add: task_after_run(1))
      with True Cons.prems(1) show ?thesis by (simp add: Ran)
    qed
  qed
qed

section \<open>What a repetition is told\<close>








section \<open>A run, and what goes wrong\<close>

definition demo_schemas :: text_schemas where
  "demo_schemas = \<lparr>sx_uuid = (\<lambda>s. s \<noteq> []), sx_datetime = (\<lambda>s. s \<noteq> []), sx_workmode = (\<lambda>s. s \<noteq> [])\<rparr>"

definition demo_dispatch :: dispatch_deps where
  "demo_dispatch = \<lparr>dp_schemas = demo_schemas, dp_authz = \<lparr>az_credentialScopes = None, az_allowExternalTrigger = None\<rparr>,
     dp_idem = default_idem_options, dp_opctl = True, dp_taskStore = True, dp_documentStore = True, dp_submitTaskToSystem = True,
     dp_sourceActor = None, dp_errorText = (\<lambda>e. ''error'')\<rparr>"

definition demo_trigger :: "string \<Rightarrow> string \<Rightarrow> string \<Rightarrow> trigger_envelope" where
  \<comment> \<open>source, key and nonce\<close>
  "demo_trigger source key nonce =
     \<lparr>te_trigger_id = ''t'', te_trigger_type = TrigHook, te_source_id = source, te_project_id = ''p'',
      te_workflow_ref = Some ''w'', te_task_ref = None, te_workmode_id = ''system:implementation'', te_event_name = ''push'',
      te_payload_ref = ''sha256:0'', te_idempotency_key = key, te_nonce = nonce, te_occurred_at = ''1970-01-01T00:00:00.000Z'',
      te_received_at = ''1970-01-01T00:00:00.000Z'', te_auth_context_ref = None, te_trace_parent = None,
      te_requested_delivery_mode = DeliverNone\<rparr>"

definition demo_answers :: "int \<Rightarrow> string \<Rightarrow> step_answers" where
  "demo_answers now uuid =
     \<lparr>sa_now = now, sa_uuid = uuid, sa_runId = ''run-'' @ uuid, sa_control = Inr CtlRunning,
      sa_project = Inr (Some \<lparr>pc_id = ''p'', pc_workflow = None\<rparr>), sa_task = Inr None, sa_put = Inr (), sa_receipt = Inr ''r'',
      sa_start = Inl (JsError ''no definition'')\<rparr>"

fun admissible :: "dispatch_deps \<Rightarrow> int \<Rightarrow> ingress_event list \<Rightarrow> ingress \<Rightarrow> bool" where
  \<comment> \<open>the events respect the clock and the freshness of identifiers\<close>
  "admissible deps t [] st \<longleftrightarrow> True"
| "admissible deps t (Submitted e # evs) st \<longleftrightarrow> admissible deps t evs (submit_trigger e st)"
| "admissible deps t (Ran i inp # evs) st \<longleftrightarrow> i < length (ig_tasks st) \<and> in_progress (tt_pc (ig_tasks st ! i)) \<and> t \<le> sa_now inp
     \<and> list_all (\<lambda>x. map_option cl_reservation_id (tt_claim x) \<noteq> Some (sa_uuid inp)) (ig_tasks st)
     \<and> admissible deps (sa_now inp) evs (run_trigger deps inp i st)"

fun clock_after :: "int \<Rightarrow> ingress_event list \<Rightarrow> int" where
  "clock_after t [] = t"
| "clock_after t (Submitted e # evs) = clock_after t evs"
| "clock_after t (Ran i inp # evs) = clock_after (sa_now inp) evs"

lemma play_reachable:
  "ingress_reachable deps t st \<Longrightarrow> admissible deps t evs st \<Longrightarrow> ingress_reachable deps (clock_after t evs) (play deps evs st)"
proof (induction evs arbitrary: t st)
  case Nil
  then show ?case by auto
next
  case (Cons ev evs)
  show ?case
  proof (cases ev)
    case (Submitted e)
    from Cons.IH [OF submitted [OF Cons.prems(1)]] Cons.prems(2) show ?thesis by (simp add: Submitted)
  next
    case (Ran i inp)
    with Cons.prems(2) have step: "i < length (ig_tasks st)" "in_progress (tt_pc (ig_tasks st ! i))" "t \<le> sa_now inp"
      "sa_uuid inp \<notin> reservations_used st" "admissible deps (sa_now inp) evs (run_trigger deps inp i st)"
      by (auto simp: reservations_used_def list_all_iff)
    from ran [OF Cons.prems(1) step(1-4)] Cons.IH [OF _ step(5)] step(1) show ?thesis by (simp add: Ran)
  qed
qed

definition demo_task :: task_definition where
  "demo_task = \<lparr>td_id = ''d'', td_name = ''nightly'', td_description = '''', td_trigger = TaskManual, td_orchestratorInstructions = ''go'',
     td_context = None, td_enabled = True, td_createdAt = '''', td_updatedAt = ''''\<rparr>"

definition task_envelope :: "string \<Rightarrow> string \<Rightarrow> string \<Rightarrow> string \<Rightarrow> trigger_envelope" where
  "task_envelope source key nonce occurred =
     (demo_trigger source key nonce)\<lparr>te_workflow_ref := None, te_task_ref := Some ''d'', te_occurred_at := occurred\<rparr>"

definition task_steps :: "nat \<Rightarrow> int \<Rightarrow> string \<Rightarrow> ingress_event list" where
  \<comment> \<open>the six steps of a task that is dispatched\<close>
  "task_steps i now uuid =
     map (\<lambda>n. Ran i ((demo_answers now (uuid @ show_nat n))\<lparr>sa_task := Inr (Some demo_task), sa_receipt := Inr (''system-'' @ uuid)\<rparr>)) [0 ..< 6]"

definition twice_events :: "ingress_event list" where
  \<comment> \<open>the same trigger again a day and a millisecond later\<close>
  "twice_events =
     Submitted (task_envelope ''s'' ''k'' ''n'' ''1970-01-01T00:00:00.000Z'') # task_steps 0 0 ''a''
     @ Submitted (task_envelope ''s'' ''k'' ''m'' ''1970-01-02T00:00:00.000Z'') # task_steps 1 86400001 ''b''"

definition collision_events :: "ingress_event list" where
  "collision_events =
     Submitted (task_envelope ''a:b'' ''c'' ''n'' ''1970-01-01T00:00:00.000Z'') # task_steps 0 0 ''a''
     @ [Submitted (task_envelope ''a'' ''b:c'' ''m'' ''1970-01-01T00:00:00.000Z''), Ran 1 (demo_answers 1 ''b'')]"

definition released_events :: "ingress_event list" where
  "released_events =
     [Submitted (demo_trigger ''s'' ''k'' ''n''), Ran 0 (demo_answers 0 ''a''), Submitted (demo_trigger ''s'' ''k'' ''m''), Ran 1 (demo_answers 0 ''b''),
      Ran 0 (demo_answers 0 ''c''), Ran 0 (demo_answers 0 ''d''), Ran 0 (demo_answers 1 ''e''), Ran 1 (demo_answers 2 ''f'')]"

lemma twice_run:
  "admissible demo_dispatch 0 twice_events idle_ingress"
  "map tt_pc (ig_tasks (play demo_dispatch twice_events idle_ingress)) =
     [Finished (AcceptedDispatched ''system-a'' ''dispatch:run-a0'' ''d'' ''policy:task:d'' ''evidence:t:run-a0''),
      Finished (AcceptedDispatched ''system-b'' ''dispatch:run-b0'' ''d'' ''policy:task:d'' ''evidence:t:run-b0'')]"
  "map tt_envelope (ig_tasks (play demo_dispatch twice_events idle_ingress)) =
     [task_envelope ''s'' ''k'' ''n'' ''1970-01-01T00:00:00.000Z'', task_envelope ''s'' ''k'' ''m'' ''1970-01-02T00:00:00.000Z'']"
  by code_simp+

lemma collision_run:
  "admissible demo_dispatch 0 collision_events idle_ingress"
  "map tt_pc (ig_tasks (play demo_dispatch collision_events idle_ingress)) =
     [Finished (AcceptedDispatched ''system-a'' ''dispatch:run-a0'' ''d'' ''policy:task:d'' ''evidence:t:run-a0''),
      Finished (AcceptedAlready ''run-a0'' ''dispatch:run-a0'' ''evidence:t:run-a0'')]"
  by code_simp+

lemma released_run: "admissible demo_dispatch 0 released_events idle_ingress"
  by code_simp

lemma played_at: "admissible deps 0 evs idle_ingress \<Longrightarrow> ingress_reachable deps (clock_after 0 evs) (play deps evs idle_ingress)"
  using play_reachable idle by blast

lemma played_reachable: "admissible deps 0 evs idle_ingress \<Longrightarrow> \<exists>t. ingress_reachable deps t (play deps evs idle_ingress)"
  using played_at by blast

lemma played_tasks:
  assumes "map tt_pc (ig_tasks st) = [a, b]"
  shows "length (ig_tasks st) = 2" "tt_pc (ig_tasks st ! 0) = a" "tt_pc (ig_tasks st ! 1) = b"
proof -
  from assms obtain x y where "ig_tasks st = [x, y]" "tt_pc x = a" "tt_pc y = b" by (auto simp: map_eq_Cons_conv)
  then show "length (ig_tasks st) = 2" "tt_pc (ig_tasks st ! 0) = a" "tt_pc (ig_tasks st ! 1) = b" by simp_all
qed

theorem trigger_dispatched_once_witness:
  "\<exists>c d. tt_claim (ig_tasks (play demo_dispatch twice_events idle_ingress) ! 0) = Some c
     \<and> tt_claim (ig_tasks (play demo_dispatch twice_events idle_ingress) ! 1) = Some d
     \<and> 24 * 60 * 60 * 1000 < \<bar>cl_recorded_at c - cl_recorded_at d\<bar>"
proof -
  let ?st = "play demo_dispatch twice_events idle_ingress"
  obtain t where t: "ingress_reachable demo_dispatch t ?st" using played_reachable [OF twice_run(1)] ..
  note tasks = played_tasks [OF twice_run(2)]
  have "dedupKey (tt_envelope (ig_tasks ?st ! 0)) = dedupKey (tt_envelope (ig_tasks ?st ! 1))"
    using arg_cong [OF twice_run(3), of "\<lambda>l. l ! 0"] arg_cong [OF twice_run(3), of "\<lambda>l. l ! 1"] tasks(1)
    by (simp add: dedupKey_def task_envelope_def demo_trigger_def)
  moreover have ttl: "io_ttlMs (dp_idem demo_dispatch) = 24 * 60 * 60 * 1000" by (simp add: demo_dispatch_def default_idem_options_def)
  ultimately show ?thesis using trigger_dispatched_once [OF t, of 0 1] tasks by (simp only: ttl) simp
qed

theorem workflow_start_guarded_witness:
  "\<exists>r. StartWorkflow r \<in> set (ig_requests (play demo_dispatch released_events idle_ingress))
     \<and> (\<exists>k. sr_controlState r = Some k \<and> active_control k)"
proof -
  let ?st = "play demo_dispatch released_events idle_ingress"
  obtain t where t: "ingress_reachable demo_dispatch t ?st" using played_reachable [OF released_run] ..
  have "list_ex (\<lambda>r. case r of StartWorkflow w \<Rightarrow> True | _ \<Rightarrow> False) (ig_requests ?st)" by code_simp
  then obtain r where r: "StartWorkflow r \<in> set (ig_requests ?st)" unfolding list_ex_iff
    by (metis (no_types, lifting) dispatch_request.exhaust dispatch_request.simps(10) dispatch_request.simps(11))
  from workflow_start_guarded [OF t r] r show ?thesis by blast
qed

theorem submission_answered_witness:
  "\<not> in_progress (tt_pc (ig_tasks (play demo_dispatch (replicate 6 (Ran 0 (demo_answers 60000 ''u'')))
     (submit_trigger (demo_trigger ''s'' ''k'' ''n'') (play demo_dispatch [] idle_ingress))) ! 0))
   \<and> \<not> in_progress (tt_pc (ig_tasks (play demo_dispatch (Ran 0 (demo_answers 0 ''u'') # replicate 5 (Ran 0 (demo_answers 60000 ''v'')))
     (submit_trigger (demo_trigger ''s'' ''k'' ''n'') idle_ingress)) ! 0))"
proof -
  let ?st = "submit_trigger (demo_trigger ''s'' ''k'' ''n'') idle_ingress"
  have arrived: "0 < length (ig_tasks ?st)" "tt_pc (ig_tasks ?st ! 0) = Arrived" by (simp_all add: submit_trigger_def idle_ingress_def)
  have "own_steps 0 (Ran 0 (demo_answers 0 ''u'') # replicate 5 (Ran 0 (demo_answers 60000 ''v''))) =
      demo_answers 0 ''u'' # replicate 5 (demo_answers 60000 ''v'')" by (simp add: numeral_eq_Suc)
  from submission_answered [OF arrived this, of demo_dispatch]
  have "\<not> in_progress (tt_pc (ig_tasks (play demo_dispatch (Ran 0 (demo_answers 0 ''u'') # replicate 5 (Ran 0 (demo_answers 60000 ''v''))) ?st) ! 0))"
    by (simp add: demo_answers_def demo_dispatch_def default_idem_options_def)
  moreover have "\<not> in_progress (tt_pc (ig_tasks (play demo_dispatch (replicate 6 (Ran 0 (demo_answers 60000 ''u''))) ?st) ! 0))" by code_simp
  ultimately show ?thesis by simp
qed











text \<open>The identity of a trigger joins source and key by a colon that either may hold, so triggers of
  two sources can share it: the second is answered as already dispatched, with the run of the other
  source.\<close>

theorem sources_share_claims:
  "\<exists>t st. ingress_reachable demo_dispatch t st \<and> length (ig_tasks st) = 2
     \<and> te_source_id (tt_envelope (ig_tasks st ! 0)) \<noteq> te_source_id (tt_envelope (ig_tasks st ! 1))
     \<and> dispatched (tt_pc (ig_tasks st ! 0))
     \<and> (\<exists>c d v. tt_claim (ig_tasks st ! 0) = Some c \<and> tt_pc (ig_tasks st ! 1) = Finished (AcceptedAlready (cl_run_id c) d v))"
proof -
  let ?st = "play demo_dispatch collision_events idle_ingress"
  obtain t where t: "ingress_reachable demo_dispatch t ?st" using played_reachable [OF collision_run(1)] ..
  have "te_source_id (tt_envelope (ig_tasks ?st ! 0)) \<noteq> te_source_id (tt_envelope (ig_tasks ?st ! 1))" by code_simp
  moreover have "map_option cl_run_id (tt_claim (ig_tasks ?st ! 0)) = Some ''run-a0''" by code_simp
  ultimately show ?thesis using t played_tasks [OF collision_run(2)]
    by (intro exI [of _ t] exI [of _ ?st]) (auto split: option.splits)
qed

section \<open>Credentials\<close>

text \<open>When a credential expires plays no part in what it may trigger.\<close>

definition without_expiry :: "authz_options \<Rightarrow> authz_options" where
  "without_expiry az = az\<lparr>az_credentialScopes := map_option (map (\<lambda>(k, s). (k, s\<lparr>cr_expiry := None\<rparr>))) (az_credentialScopes az)\<rparr>"

lemma obj_get_map_values: "obj_get k (map (\<lambda>(k, v). (k, f v)) ob) = map_option f (obj_get k ob)"
  by (induction ob) auto

theorem credential_expiry_ignored: "evaluateTrigger (without_expiry az) e r = evaluateTrigger az e r"
  by (auto simp: evaluateTrigger_def without_expiry_def policy_allows_def obj_get_map_values split: option.split)

text \<open>A credential names a workflow, so a webhook never triggers a task.\<close>

theorem webhook_never_triggers_task:
  "te_trigger_type e = TrigWebhook \<Longrightarrow> te_workflow_ref e = None \<Longrightarrow> evaluateTrigger az e r \<noteq> None"
  by (auto simp: evaluateTrigger_def split: option.split)

end
