(* ===== verification/Scheduler_Runs.thy ===== *)
theory Scheduler_Runs
  imports Scheduler_Properties Ingress_Runs
begin

text \<open>
  The scheduler with the ingress behind it, and runs: the witnesses of the scheduler's properties, a
  due time that is noticed too late, and a schedule that keeps all later ones from being dispatched.
\<close>

section \<open>The ingress as the gateway\<close>







section \<open>Runs\<close>

definition demo_sched :: "(trigger_envelope \<Rightarrow> 'g \<Rightarrow> dispatch_outcome result \<times> 'g) \<Rightarrow> 'g sched_deps" where
  "demo_sched submit = \<lparr>sh_schemas = demo_schemas, sh_now = ''2026-01-01T00:00:00.000Z'', sh_uuid = (\<lambda>n. ''u''), sh_sha256 = (\<lambda>t. ''h''),
     sh_project = (\<lambda>p. Inr (Some \<lparr>pc_id = p, pc_workflow = None\<rparr>)), sh_task = Some (\<lambda>p i. Inr (Some demo_task)), sh_submit = submit\<rparr>"

definition log_deps :: "trigger_envelope list sched_deps" where
  \<comment> \<open>a gateway that dispatches every envelope and keeps them\<close>
  "log_deps = demo_sched (\<lambda>e g. (Inr (AcceptedDispatched ''r'' ''d'' ''w'' ''p'' ''e''), g @ [e]))"

definition demo_schedule :: "string \<Rightarrow> schedule_trigger \<Rightarrow> string option \<Rightarrow> schedule" where
  "demo_schedule i trigger due = \<lparr>sd_id = i, sd_projectId = ''p'', sd_workflowDefinitionId = None, sd_taskDefinitionId = Some ''d'',
     sd_workmodeId = ''system:implementation'', sd_trigger = trigger, sd_enabled = True, sd_requestedDeliveryMode = DeliverNone,
     sd_payloadTemplateRef = None, sd_nextDueAt = due, sd_lastDispatchedAt = None, sd_createdAt = ''2026-01-01T00:00:00.000Z'',
     sd_updatedAt = ''2026-01-01T00:00:00.000Z''\<rparr>"

definition every_quarter :: schedule where
  "every_quarter = demo_schedule ''c'' (CronTrigger ''*/15 * * * *'' None) None"

definition one_minute_past :: schedule where
  "one_minute_past = demo_schedule ''k'' (CalendarTrigger ''2026-01-01T00:01:00.000Z'') None"

definition broken_schedule :: schedule where
  \<comment> \<open>its expression is never looked at when it is registered with a due time\<close>
  "broken_schedule = demo_schedule ''b'' (CronTrigger ''whenever'' None) (Some ''2026-01-01T00:00:30.000Z'')"

definition two_schedules :: "trigger_envelope list scheduler" where
  \<comment> \<open>both, as they are stored\<close>
  "two_schedules =
     \<lparr>sc_schedules = [(''c'', every_quarter\<lparr>sd_nextDueAt := Some ''2026-01-01T00:15:00.000Z''\<rparr>),
        (''k'', one_minute_past\<lparr>sd_nextDueAt := Some ''2026-01-01T00:01:00.000Z''\<rparr>)], sc_gateway = [], sc_fresh = 0\<rparr>"

definition tick_time :: string where
  "tick_time = ''2026-01-01T00:20:00.000Z''"

lemma tick_date: "date_parse tick_time = Some 1767226800000" "calendar_ok 1767226800000"
  by code_simp+

lemma two_schedules_run:
  "schedules_ok demo_schemas (sc_schedules two_schedules)"
  "case fst (dispatchDueSchedules log_deps tick_time two_schedules) of Inl e \<Rightarrow> False | Inr rows \<Rightarrow> map (\<lambda>row. sd_id (fst row)) rows = [''k'', ''c'']"
  by code_simp+

theorem tick_leaves_nothing_due_witness:
  "\<exists>rows st' es. dispatchDueSchedules log_deps tick_time two_schedules = (Inr rows, st') \<and> length rows = 2
     \<and> listDue demo_schemas tick_time (sc_schedules st') = Inr []
     \<and> submit_all log_deps es [] = Some (map snd rows, sc_gateway st')"
proof -
  obtain r st' where run: "dispatchDueSchedules log_deps tick_time two_schedules = (r, st')" by (rule prod.exhaust)
  with two_schedules_run(2) obtain rows where rows: "r = Inr rows" "map (\<lambda>row. sd_id (fst row)) rows = [''k'', ''c'']" by (cases r) auto
  have schemas: "sh_schemas log_deps = demo_schemas" by (simp add: log_deps_def demo_sched_def)
  have "length rows = 2" using arg_cong [OF rows(2), of length] by simp
  moreover have "sc_gateway two_schedules = []" by (simp add: two_schedules_def)
  ultimately show ?thesis
    using tick_leaves_nothing_due [OF run [unfolded rows(1)], unfolded schemas, OF two_schedules_run(1) tick_date] run rows(1)
    by auto
qed

theorem scheduler_well_typed_witness:
  "let st = run_calls log_deps [CallRegister every_quarter, CallRegister one_minute_past, CallTick tick_time] (new_scheduler []) in
     schedules_ok demo_schemas (sc_schedules st) \<and> (\<forall>e \<in> set (sc_gateway st). envelope_valid demo_schemas e)"
proof -
  have schemas: "sh_schemas log_deps = demo_schemas" by (simp add: log_deps_def demo_sched_def)
  have "gateway_keeps log_deps (\<lambda>g. \<forall>e \<in> set g. envelope_valid demo_schemas e)"
    by (auto simp: gateway_keeps_def log_deps_def demo_sched_def)
  moreover have "good_identifiers log_deps" by (simp add: good_identifiers_def log_deps_def demo_sched_def demo_schemas_def)
  moreover have "workflows_named log_deps" by (simp add: workflows_named_def log_deps_def demo_sched_def)
  moreover have "call_typed log_deps (CallTick tick_time)"
    by (simp add: schemas demo_schemas_def tick_time_def)
  ultimately show ?thesis
    using scheduler_well_typed [of log_deps "[CallRegister every_quarter, CallRegister one_minute_past, CallTick tick_time]" "[]"
        "\<lambda>g. \<forall>e \<in> set g. envelope_valid demo_schemas e"]
    unfolding schemas Let_def by simp
qed

theorem cancelled_during_dispatch_revives_witness:
  "\<exists>s st1 st2 st3 outcome row. submit_due log_deps tick_time s two_schedules = (Inr outcome, st1) \<and> cancel log_deps ''c'' st1 = (Inr True, st2)
     \<and> record_dispatch log_deps tick_time s outcome st2 = (Inr row, st3)
     \<and> (\<exists>x. get_schedule demo_schemas ''c'' (sc_schedules st3) = Some x \<and> sd_enabled x)"
proof -
  define s where "s = demo_schedule ''c'' (CronTrigger ''*/15 * * * *'' None) (Some ''2026-01-01T00:15:00.000Z'')"
  define outcome where "outcome = AcceptedDispatched ''r'' ''d'' ''w'' ''p'' ''e''"
  obtain r1 st1 where one: "submit_due log_deps tick_time s two_schedules = (r1, st1)" by (rule prod.exhaust)
  then have r1: "r1 = Inr outcome" by (auto simp: submit_due_def bindS_def draw_def submit_to_gateway_def log_deps_def demo_sched_def outcome_def)
  obtain r2 st2 where two: "cancel log_deps ''c'' st1 = (r2, st2)" by (rule prod.exhaust)
  have "fst (cancel log_deps ''c'' (snd (submit_due log_deps tick_time s two_schedules))) = Inr True" unfolding s_def by code_simp
  then have r2: "r2 = Inr True" by (simp add: one two)
  obtain r3 st3 where three: "record_dispatch log_deps tick_time s outcome st2 = (r3, st3)" by (rule prod.exhaust)
  have "case fst (record_dispatch log_deps tick_time s outcome
      (snd (cancel log_deps ''c'' (snd (submit_due log_deps tick_time s two_schedules))))) of Inl e \<Rightarrow> False | Inr row \<Rightarrow> True"
    unfolding s_def outcome_def by code_simp
  then obtain row where r3: "r3 = Inr row" by (cases r3) (simp_all add: one two three)
  have s: "sd_id s = ''c''" "sd_enabled s" "sd_trigger s = CronTrigger ''*/15 * * * *'' None" by (simp_all add: s_def demo_schedule_def)
  have schemas: "sh_schemas log_deps = demo_schemas" by (simp add: log_deps_def demo_sched_def)
  note runs = one [unfolded r1] two [unfolded r2] three [unfolded r3]
  from cancelled_during_dispatch_revives [OF runs(1) _ runs(3) s(2,3), unfolded s(1) schemas, OF runs(2) two_schedules_run(1)] runs
  show ?thesis by blast
qed


section \<open>A schedule that holds up the others\<close>

lemma unparsable_computes_nothing: "parseCronExpression c = Inl err \<Longrightarrow> computeNextCronOccurrence c ref = Inl err"
  by (simp add: computeNextCronOccurrence_def)

text \<open>A tick that comes to a due cron schedule whose expression does not parse ends there.\<close>

lemma tick_stops:
  assumes "\<forall>x \<in> set (listAll (sh_schemas deps) (sc_schedules st)). \<not> needs_due_time x"
    and "listDue (sh_schemas deps) ref (sc_schedules st) = Inr (s # ss)"
    and "sd_trigger s = CronTrigger c zone" and "parseCronExpression c = Inl err"
  obtains e e' where "scheduled_from deps ref s e"
    and "fst (dispatchDueSchedules deps ref st) = Inl e'"
    and "sc_gateway (snd (dispatchDueSchedules deps ref st)) = snd (sh_submit deps e (sc_gateway st))"
    and "sc_schedules (snd (dispatchDueSchedules deps ref st)) = sc_schedules st"
proof -
  have "reconcile deps ref xs st = (Inr (), st)" if "\<forall>x \<in> set xs. \<not> needs_due_time x" for xs
    using that by (induction xs) simp_all
  with assms(1) have "reconcileTimeSchedules deps ref st = (Inr (), st)" by (simp add: reconcileTimeSchedules_def)
  then have tick: "dispatchDueSchedules deps ref st = dispatch_loop deps ref (s # ss) st"
    using assms(2) by (simp add: dispatchDueSchedules_def bindS_Inr)
  obtain r st1 where sub: "submit_due deps ref s st = (r, st1)" by (rule prod.exhaust)
  obtain e where e: "scheduled_from deps ref s e" "sh_submit deps e (sc_gateway st) = (r, sc_gateway st1)"
    using submit_due_envelope [of deps ref s st] sub by auto
  have kept: "sc_schedules st1 = sc_schedules st" using submit_keeps_schedules [of deps ref s st] by (simp add: sub)
  have "advanceAfterSubmission s ref outcome = Inl err" for outcome
    using unparsable_computes_nothing [OF assms(4)] by (simp add: advanceAfterSubmission_def assms(3) Let_def)
  then have "record_dispatch deps ref s outcome st1 = (Inl err, st1)" for outcome
    by (simp add: record_dispatch_def bindS_def)
  then have "\<exists>e'. dispatch_loop deps ref (s # ss) st = (Inl e', st1)"
    by (cases r) (simp_all add: sub bindS_def)
  then obtain e' where "dispatchDueSchedules deps ref st = (Inl e', st1)" unfolding tick by blast
  with e kept show thesis by (intro that [OF e(1)]) simp_all
qed

lemma tick_call: "snd (perform_call deps (CallTick ref) st) = snd (dispatchDueSchedules deps ref st)"
  by (simp add: ignore_def bindS_def split: prod.split sum.split)

definition blocks :: "'g sched_deps \<Rightarrow> schedule \<Rightarrow> string list \<Rightarrow> schedules \<Rightarrow> bool" where
  \<comment> \<open>at each of these times the schedule is the first due one, and no due time has to be computed\<close>
  "blocks deps s refs c \<longleftrightarrow> (\<forall>x \<in> set (listAll (sh_schemas deps) c). \<not> needs_due_time x) \<and>
     (\<forall>ref \<in> set refs. \<exists>ss. listDue (sh_schemas deps) ref c = Inr (s # ss))"

lemma blocked_ticks:
  assumes "sd_trigger s = CronTrigger c zone" and "parseCronExpression c = Inl err"
    and "blocks deps s refs (sc_schedules st)"
  shows "\<exists>es. list_all2 (\<lambda>ref e. scheduled_from deps ref s e) refs es
    \<and> sc_gateway (run_calls deps (map CallTick refs) st) = fold (\<lambda>e g. snd (sh_submit deps e g)) es (sc_gateway st)
    \<and> sc_schedules (run_calls deps (map CallTick refs) st) = sc_schedules st"
  using assms(3)
proof (induction refs arbitrary: st)
  case Nil
  then show ?case by (simp add: run_calls_def)
next
  case (Cons ref refs)
  define st1 where "st1 = snd (dispatchDueSchedules deps ref st)"
  obtain ss where due: "listDue (sh_schemas deps) ref (sc_schedules st) = Inr (s # ss)"
    using Cons.prems unfolding blocks_def by (meson list.set_intros(1))
  have stable: "\<forall>x \<in> set (listAll (sh_schemas deps) (sc_schedules st)). \<not> needs_due_time x"
    using Cons.prems unfolding blocks_def by (rule conjunct1)
  obtain e e' where e: "scheduled_from deps ref s e" "fst (dispatchDueSchedules deps ref st) = Inl e'"
    "sc_gateway st1 = snd (sh_submit deps e (sc_gateway st))" "sc_schedules st1 = sc_schedules st"
    unfolding st1_def by (rule tick_stops [OF stable due assms(1,2)])
  have "blocks deps s refs (sc_schedules st1)" unfolding e(4) using Cons.prems by (simp add: blocks_def)
  from Cons.IH [OF this] obtain es where es: "list_all2 (\<lambda>ref e. scheduled_from deps ref s e) refs es"
    "sc_gateway (run_calls deps (map CallTick refs) st1) = fold (\<lambda>e g. snd (sh_submit deps e g)) es (sc_gateway st1)"
    "sc_schedules (run_calls deps (map CallTick refs) st1) = sc_schedules st1" by blast
  have "run_calls deps (map CallTick (ref # refs)) st = run_calls deps (map CallTick refs) st1"
    by (simp add: run_calls_def tick_call st1_def del: perform_call.simps)
  then show ?case using es e by (intro exI [of _ "e # es"]) (simp del: perform_call.simps)
qed

text \<open>C32: One schedule can hold up all others. An expression is not looked at when a schedule is registered
  with a due time; once an enabled cron schedule whose expression does not parse is the first due one, every tick
  throws after having submitted that schedule once more: it stores nothing and reaches none of the
  schedules due after it.\<close>

theorem broken_schedule_blocks_others:
  assumes "blocks deps s refs (sc_schedules st)" and "sd_trigger s = CronTrigger c zone" and "parseCronExpression c = Inl err"
  shows "\<exists>es. list_all2 (\<lambda>ref e. scheduled_from deps ref s e) refs es
    \<and> sc_gateway (run_calls deps (map CallTick refs) st) = fold (\<lambda>e g. snd (sh_submit deps e g)) es (sc_gateway st)
    \<and> sc_schedules (run_calls deps (map CallTick refs) st) = sc_schedules st
    \<and> (\<forall>ref \<in> set refs. \<exists>e. fst (dispatchDueSchedules deps ref (run_calls deps (map CallTick refs) st)) = Inl e)"
proof -
  let ?st = "run_calls deps (map CallTick refs) st"
  obtain es where es: "list_all2 (\<lambda>ref e. scheduled_from deps ref s e) refs es"
    "sc_gateway ?st = fold (\<lambda>e g. snd (sh_submit deps e g)) es (sc_gateway st)" "sc_schedules ?st = sc_schedules st"
    using blocked_ticks [OF assms(2,3,1)] by blast
  have "\<exists>e. fst (dispatchDueSchedules deps ref ?st) = Inl e" if ref: "ref \<in> set refs" for ref
  proof -
    obtain ss where due: "listDue (sh_schemas deps) ref (sc_schedules ?st) = Inr (s # ss)"
      using assms(1) ref unfolding es(3) blocks_def by blast
    have stable: "\<forall>x \<in> set (listAll (sh_schemas deps) (sc_schedules ?st)). \<not> needs_due_time x"
      using assms(1) unfolding es(3) blocks_def by (rule conjunct1)
    show ?thesis by (rule tick_stops [OF stable due assms(2,3)]) (rule exI)
  qed
  with es show ?thesis by (intro exI [of _ es] conjI ballI)
qed

definition blocked_scheduler :: "trigger_envelope list scheduler" where
  \<comment> \<open>what registering the two leaves\<close>
  "blocked_scheduler = run_calls log_deps [CallRegister broken_schedule, CallRegister one_minute_past] (new_scheduler [])"

definition later_tick :: string where
  "later_tick = ''2026-01-01T00:40:00.000Z''"

lemma blocked_schedules:
  "\<forall>x \<in> set (listAll demo_schemas (sc_schedules blocked_scheduler)). \<not> needs_due_time x"
  "sc_gateway blocked_scheduler = []"
  by code_simp+

lemma whenever_unparsable: "parseCronExpression ''whenever'' = Inl (JsError ''Invalid cron expression: whenever'')"
proof -
  have "case parseCronExpression ''whenever'' of Inl e \<Rightarrow> e = JsError ''Invalid cron expression: whenever'' | Inr cron \<Rightarrow> False"
    by code_simp
  then show ?thesis by (auto split: sum.splits)
qed

lemma blocked_due:
  "listDue demo_schemas tick_time (sc_schedules blocked_scheduler) =
     Inr [broken_schedule, one_minute_past\<lparr>sd_nextDueAt := Some ''2026-01-01T00:01:00.000Z''\<rparr>]"
  "listDue demo_schemas later_tick (sc_schedules blocked_scheduler) =
     Inr [broken_schedule, one_minute_past\<lparr>sd_nextDueAt := Some ''2026-01-01T00:01:00.000Z''\<rparr>]"
  by code_simp+

lemma log_fold: "fold (\<lambda>e g. snd (sh_submit log_deps e g)) es g = g @ es"
  by (induction es arbitrary: g) (simp_all add: log_deps_def demo_sched_def)

theorem broken_schedule_blocks_others_witness:
  "let st = run_calls log_deps (map CallTick [tick_time, later_tick]) blocked_scheduler in
     map te_source_id (sc_gateway st) = [''schedule:b'', ''schedule:b''] \<and> sc_schedules st = sc_schedules blocked_scheduler"
proof -
  have schemas: "sh_schemas log_deps = demo_schemas" by (simp add: log_deps_def demo_sched_def)
  have s: "sd_trigger broken_schedule = CronTrigger ''whenever'' None" by (simp add: broken_schedule_def demo_schedule_def)
  have source: "scheduled_from log_deps ref broken_schedule e \<Longrightarrow> te_source_id e = ''schedule:b''" for ref e
    by (auto simp: scheduled_from_def buildScheduledEnvelope_def broken_schedule_def demo_schedule_def)
  have "blocks log_deps broken_schedule [tick_time, later_tick] (sc_schedules blocked_scheduler)"
    using blocked_schedules(1) by (simp add: blocks_def schemas blocked_due)
  from broken_schedule_blocks_others [OF this s whenever_unparsable]
  obtain es where "list_all2 (\<lambda>ref e. scheduled_from log_deps ref broken_schedule e) [tick_time, later_tick] es"
    "sc_gateway (run_calls log_deps (map CallTick [tick_time, later_tick]) blocked_scheduler) = es"
    "sc_schedules (run_calls log_deps (map CallTick [tick_time, later_tick]) blocked_scheduler) = sc_schedules blocked_scheduler"
    by (auto simp: log_fold blocked_schedules(2))
  then show ?thesis by (auto simp: Let_def list_all2_Cons1 dest: source)
qed

section \<open>Time zones\<close>

text \<open>A schedule's time zone is stored and never used.\<close>

theorem time_zone_ignored:
  "computeInitialNextDueAt (s\<lparr>sd_trigger := CronTrigger c zone\<rparr>) ref = computeInitialNextDueAt (s\<lparr>sd_trigger := CronTrigger c None\<rparr>) ref"
  by (simp add: computeInitialNextDueAt_def)

end
