(* ===== verification/Spec2Isabelle.thy ===== *)
theory Spec2Isabelle
  imports Validator_Properties Graph_Builder Admission Traversal Run_Theorems Handler_Properties Harness_Properties
    Opctl_Runs Cost_Runs Witness_Runs Endpoint_Runs Scheduler_Runs
begin

text \<open>
  Verification of the decision and state logic of nous-core (\<open>src/self\<close>): the workflow runtime, its
  governance and recovery, triggers and schedules, operator control, cost governance, the witness
  ledger and endpoint trust.

  \<^bold>\<open>The program.\<close> Workflows are graphs of typed nodes. A definition is validated, turned into a derived
  graph and admitted; an engine then keeps one run state per run and executes nodes through
  handlers, under confidence governance, with a checkpoint around each node; a dispatch harness
  drives runs to their end with agents. Runs are started by triggers, which the ingress checks and
  claims once each, and triggers by webhooks, events and the scheduler's cron and calendar schedules.
  Operator control applies pause, resume and hard-stop
  commands under per-scope locks; cost governance adds up the spending of a project and submits a
  pause to operator control when a ceiling is crossed; the witness service keeps a hash-chained
  ledger of what was authorized and completed; endpoint trust pairs devices and authorizes their
  endpoints. All of them are TypeScript services on a document store, with the schema library \<open>zod\<close>
  at their borders.

  \<^bold>\<open>Theories and sources.\<close> Paths are below \<open>src/self\<close>; definitions carry the names of the functions
  they translate, and records carry a short prefix before the field names of the source.

  \<^item> \<open>Prelude\<close>, \<open>Json\<close>, \<open>Json_Text\<close>, \<open>Js_Text\<close>, \<open>Doubles\<close>, \<open>Calendar\<close>,
    \<open>Calendar_Years\<close>, \<open>Iso_Date\<close>: the JavaScript the code
    uses: thrown errors as a sum type, objects and maps in insertion order, stable sorting by a
    comparator (locale \<open>js_comparator\<close>), \<open>localeCompare\<close> on ASCII, \<open>JSON.stringify\<close> with its
    injectivity, splitting of text, doubles as rationals rounded to 53 bits, \<open>Date\<close> in UTC. \<open>Document_Store\<close>: operations that change a store and may throw (\<open>bindS\<close>), and the
    collections of \<open>autonomic/storage/src/sqlite-document-store.ts\<close> behind the locale
    \<open>document_collection\<close>.
  \<^item> \<open>Workflow_Types\<close>, \<open>Graph_Validator\<close>, \<open>Validator_Correct\<close>, \<open>Validator_Properties\<close>: the schemas of
    \<open>shared/src/types/workflow.ts\<close> and \<open>subcortex/workflows/src/graph-validator.ts\<close>, Kahn's algorithm
    included; accepted definitions are exactly the acyclic ones without another issue.
    \<open>Graph_Builder\<close>, \<open>Admission\<close>, \<open>Traversal\<close>: \<open>graph-builder.ts\<close>, \<open>admission.ts\<close>, \<open>traversal.ts\<close>.
  \<^item> \<open>Run_Types\<close> and \<open>Run_State\<close>: \<open>run-state.ts\<close>, the transitions of one run. \<open>Run_Invariant\<close>,
    \<open>Run_Frame\<close>, \<open>Run_Operations\<close>, \<open>Run_Reachable\<close>, \<open>Run_Properties\<close>, \<open>Run_Laws\<close>, \<open>Run_Theorems\<close>:
    the invariant of reachable runs, one preservation lemma per operation, and what follows.
  \<^item> \<open>Governance\<close> (\<open>cortex/pfc/src/confidence-governance-runtime.ts\<close>), \<open>Services\<close>, \<open>Handlers\<close>,
    \<open>Handler_Properties\<close> (\<open>workflows/src/handlers\<close>), \<open>Coordinator\<close> (\<open>execution-coordinator.ts\<close>),
    \<open>Continuations\<close> (\<open>continuations.ts\<close>), \<open>Recovery\<close> and \<open>Recovery_Properties\<close>
    (\<open>cortex/core/src/recovery\<close>), \<open>Checkpoint_Runtime\<close> (\<open>checkpoint-runtime.ts\<close>).
  \<^item> \<open>Workflow_Engine\<close>, \<open>Engine_Properties\<close>, \<open>Engine_Runs\<close>: \<open>workflow-engine.ts\<close>; each stored run refines
    the machine of \<open>Run_Reachable\<close>, and runs show what overlapping calls lose. \<open>Dispatch_Harness\<close>,
    \<open>Harness_Properties\<close>: \<open>workflow-dispatch-harness.ts\<close>; whenever the harness awaits, other users may
    move the engine.
  \<^item> \<open>Opctl\<close>, \<open>Opctl_Service\<close>, \<open>Opctl_Properties\<close>, \<open>Opctl_Runs\<close>: \<open>subcortex/opctl/src\<close>; every command is
    a task that is cut at its awaits, and tasks interleave in any order.
  \<^item> \<open>Cost\<close>, \<open>Cost_Properties\<close>, \<open>Cost_Queries\<close>, \<open>Cost_Runs\<close>: \<open>subcortex/cost/src\<close> and the grouping of
    \<open>apps/shared-server/src/trpc/routers/cost.ts\<close>; the enforcement is run on the tasks of operator
    control.
  \<^item> \<open>Witness\<close>, \<open>Witness_Service\<close>, \<open>Witness_Properties\<close>, \<open>Witness_Verification\<close>, \<open>Witness_Runs\<close>:
    \<open>subcortex/witnessd/src\<close>.
  \<^item> \<open>Endpoint_Trust\<close>, \<open>Endpoint_Service\<close>, \<open>Endpoint_Properties\<close>, \<open>Endpoint_Runs\<close>:
    \<open>subcortex/endpoint-trust/src\<close>; the locale \<open>store_relation\<close> carries a relation between stores
    through a whole operation.
  \<^item> \<open>Ingress\<close>, \<open>Ingress_Dispatch\<close>, \<open>Ingress_Properties\<close>, \<open>Ingress_Runs\<close>: \<open>cortex/core/src/ingress\<close>; a
    submission is a task cut at its awaits, and the locale \<open>trigger_claims\<close> is the contract of the
    idempotency store. \<open>Cron\<close>, \<open>Cron_Properties\<close>, \<open>Scheduler\<close>, \<open>Scheduler_Service\<close>,
    \<open>Scheduler_Properties\<close>, \<open>Scheduler_Runs\<close>: \<open>subcortex/scheduler/src\<close>, with any gateway, and with
    the ingress behind it in the last.

  Theories named \<open>_Runs\<close> hold concrete runs: the witnesses of the properties, and short histories
  that show where the code does not keep what a comment or a name promises.

  \<^bold>\<open>What the lemmas show.\<close> Validation is sound and complete for acyclic graphs. Every reachable run is
  consistent, a completed run has nothing left to do, no operation on a reachable run fails with a
  type error, and the engine and the harness keep to that machine. Governance grants autonomy
  only under its narrowest conditions, no node runs that it denies, and one it allows runs the handler
  of its type. Checkpoint chains stay valid under the discipline the
  runtime keeps. At most one command of a scope is applied at a time, and every command ends. Cost
  totals are the sums of the events of their period. An honest ledger verifies and a changed one
  shows. A reported device stays without access, and an envelope is accepted once. A
  trigger is dispatched once while its claim lives, every submission is answered, and no workflow
  starts unchecked; the next occurrence of a cron expression is the first matching minute, and a tick
  of the scheduler leaves nothing due.
  Other properties state faults: the pause of a crossed budget is never applied, a verification of a
  part of a ledger always fails, a request may name another device than the endpoint belongs to.

  \<^bold>\<open>Choices.\<close> Loops over lists are structural recursion; Kahn's worklist, the traversal of races and
  the harness have measures of their own, so no fuel is needed. Awaits matter where tasks share
  state: operator control is cut at each of them, the engine at those of one execution, the
  verification of a ledger at its reads, and the harness shares the engine with others at its awaits;
  elsewhere an operation runs as a whole, the authorization of an endpoint and the recording of its
  witness included. Numbers are natural numbers or integers where the schemas demand integers, also in
  timeouts and in the details of ledger events where they do not, and rounded doubles for amounts of
  money. Object keys that read as array indices, which JavaScript puts first, keep their place. Times are the texts of \<open>toISOString\<close>, or milliseconds in the calendar.

  \<^bold>\<open>Parameters.\<close> Schema parsers return what they are given or fail (locale \<open>schema_parser\<close>); SHA-256,
  signatures, clocks, identifiers, model and tool calls, agents and the answers of services of other
  components are arguments. A property names what it needs of them, and its witness instantiates them.

  \<^bold>\<open>Not modelled.\<close> String formats inside the schemas (UUIDs, date texts); failures of the document store
  except in the witness ledger; observers, logging and metrics. Whole components: the agent gateway
  and the cortex runtimes around model calls, prompts and output parsing, tool catalogues, projects
  and package installation, model providers, projections for the user interface, applications,
  transport and user interface. They are input and output, wiring, or text for models; the parts of
  them with a logic of their own (the backlog of the runtime, the mutation pipeline of the memory, communication routing, package lifecycles) would come next.
\<close>

end
